(* ===== verification/Prelude.thy ===== *)
theory Prelude
  imports Main "HOL-Library.Word"
begin

text \<open>
  Shared ground of the development: the machine integer types of the Go code, the three ways a
  Go call can end (a value, a returned error, a run-time panic), and generic lemmas on lists,
  maps and folds that several components use.
\<close>

unbundle bit_operations_syntax

type_synonym u8 = "8 word"
type_synonym u16 = "16 word"
type_synonym u32 = "32 word"
type_synonym u64 = "64 word"
type_synonym bytes = "8 word list"

named_theorems go_simps "unfolding rules for the Go library operations"
named_theorems session_simps "lookup and update rules of the session tables"

subsection \<open>Outcomes of a Go call\<close>

text \<open>
  \<open>Ret v\<close> is a normal return, \<open>Err e\<close> a returned \<open>error\<close> value and \<open>Panic\<close> a run-time panic that
  the modelled code does not turn into an error.
\<close>

datatype ('e, 'a) outcome = Ret 'a | Err 'e | Panic

fun bind_outcome :: "('e, 'a) outcome \<Rightarrow> ('a \<Rightarrow> ('e, 'b) outcome) \<Rightarrow> ('e, 'b) outcome" where
  "bind_outcome (Ret a) f = f a"
| "bind_outcome (Err e) f = Err e"
| "bind_outcome Panic f = Panic"

lemma bind_outcome_Ret_iff [simp]:
  "bind_outcome m f = Ret b \<longleftrightarrow> (\<exists>a. m = Ret a \<and> f a = Ret b)"
  by (cases m) auto

lemma bind_outcome_Panic_iff:
  "bind_outcome m f = Panic \<longleftrightarrow> m = Panic \<or> (\<exists>a. m = Ret a \<and> f a = Panic)"
  by (cases m) auto

lemma bind_outcome_cong [fundef_cong]:
  assumes "m = m'" and "\<And>a. m' = Ret a \<Longrightarrow> f a = f' a"
  shows "bind_outcome m f = bind_outcome m' f'"
  using assms by (cases m') auto

lemma bind_outcome_not_Panic:
  assumes "m \<noteq> Panic" and "\<And>a. m = Ret a \<Longrightarrow> f a \<noteq> Panic"
  shows "bind_outcome m f \<noteq> Panic"
  using assms by (cases m) auto

fun of_option :: "'e \<Rightarrow> 'a option \<Rightarrow> ('e, 'a) outcome" where
  "of_option e None = Err e"
| "of_option e (Some a) = Ret a"

text \<open>Indexing a Go slice or array: out of range panics.\<close>

definition at :: "'a list \<Rightarrow> nat \<Rightarrow> ('e, 'a) outcome" where
  "at xs i = (if i < length xs then Ret (xs ! i) else Panic)"

lemma at_Ret [simp]: "at xs i = Ret x \<longleftrightarrow> i < length xs \<and> xs ! i = x"
  by (simp add: at_def)

lemma at_in_range: "i < length xs \<Longrightarrow> at xs i = Ret (xs ! i)"
  by (simp add: at_def)

text \<open>A slice expression \<open>xs[i:j]\<close> whose bounds are known to be in range.\<close>

definition subslice :: "nat \<Rightarrow> nat \<Rightarrow> 'a list \<Rightarrow> 'a list" where
  "subslice i j xs = take (j - i) (drop i xs)"

lemma length_subslice: "j \<le> length xs \<Longrightarrow> length (subslice i j xs) = j - i"
  by (simp add: subslice_def)

lemma subslice_append: "length p = i \<Longrightarrow> i + length m = j \<Longrightarrow> subslice i j (p @ m @ s) = m"
  by (auto simp: subslice_def)

text \<open>\<open>copy(xs[i:], ys)\<close> for a destination that is long enough, and in general.\<close>

definition copy_at :: "nat \<Rightarrow> 'a list \<Rightarrow> 'a list \<Rightarrow> 'a list" where
  "copy_at i ys xs = take i xs @ take (length xs - i) ys @ drop (i + length ys) xs"

lemma length_copy_at [simp]: "i \<le> length xs \<Longrightarrow> length (copy_at i ys xs) = length xs"
  by (simp add: copy_at_def min_def)

lemma nth_copy_at:
  assumes "i + length ys \<le> length xs" and "k < length xs"
  shows "copy_at i ys xs ! k = (if i \<le> k \<and> k < i + length ys then ys ! (k - i) else xs ! k)"
  using assms by (auto simp: copy_at_def nth_append min_def)

lemma subslice_copy_at:
  "i + length ys \<le> length xs \<Longrightarrow> subslice i (i + length ys) (copy_at i ys xs) = ys"
  by (simp add: subslice_def copy_at_def)

subsection \<open>Lists and folds\<close>

lemma foldl_invariant:
  assumes "P a" and "\<And>a x. P a \<Longrightarrow> x \<in> set xs \<Longrightarrow> P (f a x)"
  shows "P (foldl f a xs)"
  using assms by (induction xs arbitrary: a) auto

lemma fold_invariant:
  assumes "P a" and "\<And>a x. P a \<Longrightarrow> x \<in> set xs \<Longrightarrow> P (f x a)"
  shows "P (fold f xs a)"
  using assms by (induction xs arbitrary: a) auto

lemma mset_swap_nth:
  "i < length xs \<Longrightarrow> j < length xs \<Longrightarrow> set (xs[i := xs ! j, j := xs ! i]) = set xs"
  by (metis set_swap)

lemma distinct_swap_nth:
  "i < length xs \<Longrightarrow> j < length xs \<Longrightarrow> distinct (xs[i := xs ! j, j := xs ! i]) = distinct xs"
  by (metis distinct_swap)

subsection \<open>Tables\<close>

text \<open>\<open>m[k]\<close> of a Go \<open>map[string]string\<close>: a missing key reads as the empty string.\<close>

definition mget :: "('k \<rightharpoonup> 'c list) \<Rightarrow> 'k \<Rightarrow> 'c list" where
  "mget m k = (case m k of None \<Rightarrow> [] | Some v \<Rightarrow> v)"

lemma mget_upd [simp]: "mget (m(k \<mapsto> v)) k' = (if k' = k then v else mget m k')"
  by (simp add: mget_def)

text \<open>A property of every entry of a table, with its key.\<close>

definition all_ok :: "('k \<Rightarrow> 'v \<Rightarrow> bool) \<Rightarrow> ('k \<rightharpoonup> 'v) \<Rightarrow> bool" where
  "all_ok P m \<longleftrightarrow> (\<forall>k v. m k = Some v \<longrightarrow> P k v)"

lemma all_okD: "all_ok P m \<Longrightarrow> m k = Some v \<Longrightarrow> P k v"
  by (simp add: all_ok_def)

lemma all_ok_empty [simp, intro]: "all_ok P Map.empty"
  by (simp add: all_ok_def)

lemma all_ok_upd [intro]: "all_ok P m \<Longrightarrow> P k v \<Longrightarrow> all_ok P (m(k \<mapsto> v))"
  by (simp add: all_ok_def)

lemma all_ok_del [intro]: "all_ok P m \<Longrightarrow> all_ok P (m(k := None))"
  by (simp add: all_ok_def)

lemma all_ok_submap: "all_ok P m \<Longrightarrow> m' \<subseteq>\<^sub>m m \<Longrightarrow> all_ok P m'"
  unfolding all_ok_def map_le_def by (metis domI)

lemma all_ok_mono: "all_ok P m \<Longrightarrow> (\<And>k v. P k v \<Longrightarrow> Q k v) \<Longrightarrow> all_ok Q m"
  by (auto simp: all_ok_def)

end
