(* ===== verification/GoStrings.thy ===== *)
theory GoStrings
  imports Prelude
begin

text \<open>
  The operations of Go's packages \<open>strings\<close>, \<open>bytes\<close> and \<open>strconv\<close> that the server uses. A Go
  string is a sequence of bytes, so it is a HOL \<open>string\<close> (a list of 8-bit characters) here; a
  \<open>[]byte\<close> is a list of 8-bit words, and \<open>bytes_of\<close>/\<open>string_of\<close> convert.
\<close>

subsection \<open>Conversions\<close>

definition bytes_of :: "string \<Rightarrow> bytes" where
  "bytes_of s = map of_char s"

definition string_of :: "bytes \<Rightarrow> string" where
  "string_of b = map (\<lambda>w. char_of (unat w)) b"

lemma unat_of_char_u8 [simp]: "unat (of_char c :: u8) = of_char c"
proof -
  have "(of_char c :: u8) = of_nat (of_char c)" by (simp add: of_nat_of_char)
  then show ?thesis by (simp add: unat_of_nat)
qed

lemma of_char_char_of_unat [simp]: "of_char (char_of (unat (w :: u8)) :: char) = w"
proof -
  have "unat w < 256" using unsigned_less [of w, where ?'a = nat] by simp
  then have "unat (of_char (char_of (unat w) :: char) :: u8) = unat w" by simp
  then show ?thesis by (simp only: word_unat_eq_iff)
qed

lemma bytes_of_string_of [simp]: "bytes_of (string_of b) = b"
  by (simp add: bytes_of_def string_of_def comp_def)

lemma string_of_append: "string_of (a @ b) = string_of a @ string_of b"
  by (simp add: string_of_def)

lemma string_of_bytes_of [simp]: "string_of (bytes_of s) = s"
  by (simp add: bytes_of_def string_of_def comp_def)

lemma length_bytes_of [simp]: "length (bytes_of s) = length s"
  by (simp add: bytes_of_def)

lemma length_string_of [simp]: "length (string_of b) = length b"
  by (simp add: string_of_def)

subsection \<open>Prefixes, suffixes, search\<close>

definition has_prefix :: "'a list \<Rightarrow> 'a list \<Rightarrow> bool" where
  "has_prefix s p \<longleftrightarrow> take (length p) s = p"

definition has_suffix :: "'a list \<Rightarrow> 'a list \<Rightarrow> bool" where
  "has_suffix s p \<longleftrightarrow> length p \<le> length s \<and> drop (length s - length p) s = p"

definition trim_prefix :: "'a list \<Rightarrow> 'a list \<Rightarrow> 'a list" where
  "trim_prefix s p = (if has_prefix s p then drop (length p) s else s)"

definition trim_suffix :: "'a list \<Rightarrow> 'a list \<Rightarrow> 'a list" where
  "trim_suffix s p = (if has_suffix s p then take (length s - length p) s else s)"

definition cut_suffix :: "'a list \<Rightarrow> 'a list \<Rightarrow> 'a list option" where
  "cut_suffix s p = (if has_suffix s p then Some (take (length s - length p) s) else None)"

fun index_of :: "'a list \<Rightarrow> 'a list \<Rightarrow> nat option" where
  "index_of [] sep = (if sep = [] then Some 0 else None)"
| "index_of (c # s) sep =
     (if has_prefix (c # s) sep then Some 0 else map_option Suc (index_of s sep))"

definition contains :: "'a list \<Rightarrow> 'a list \<Rightarrow> bool" where
  "contains s sep \<longleftrightarrow> index_of s sep \<noteq> None"

text \<open>\<open>strings.Cut\<close>: before, after, found.\<close>

definition cut :: "'a list \<Rightarrow> 'a list \<Rightarrow> 'a list \<times> 'a list \<times> bool" where
  "cut s sep = (case index_of s sep of
       None \<Rightarrow> (s, [], False)
     | Some i \<Rightarrow> (take i s, drop (i + length sep) s, True))"

lemma has_prefix_append [simp]: "has_prefix (p @ s) p"
  by (simp add: has_prefix_def)

lemma has_prefix_iff: "has_prefix s p \<longleftrightarrow> (\<exists>t. s = p @ t)"
  by (metis append_take_drop_id has_prefix_append has_prefix_def)

lemma has_suffix_append [simp]: "has_suffix (s @ p) p"
  by (simp add: has_suffix_def)

lemma has_suffix_iff: "has_suffix s p \<longleftrightarrow> (\<exists>t. s = t @ p)"
  by (metis append_take_drop_id has_suffix_append has_suffix_def)

lemma cut_suffix_append [simp]: "cut_suffix (s @ p) p = Some s"
  by (simp add: cut_suffix_def)

lemma trim_suffix_append [simp]: "trim_suffix (s @ p) p = s"
  by (simp add: trim_suffix_def)

lemma trim_prefix_append [simp]: "trim_prefix (p @ s) p = s"
  by (simp add: trim_prefix_def)

lemma index_of_Some:
  "index_of s sep = Some i \<Longrightarrow> s = take i s @ sep @ drop (i + length sep) s"
proof (induction s arbitrary: i)
  case Nil
  then show ?case by (simp split: if_splits)
next
  case (Cons c s)
  show ?case
  proof (cases "has_prefix (c # s) sep")
    case True
    with Cons.prems show ?thesis
      by (simp add: has_prefix_def) (metis append_take_drop_id)
  next
    case False
    with Cons.prems obtain j where "index_of s sep = Some j" and i: "i = Suc j" by auto
    with Cons.IH have "s = take j s @ sep @ drop (j + length sep) s" by blast
    with i show ?thesis by simp
  qed
qed

lemma index_of_le: "index_of s sep = Some i \<Longrightarrow> i + length sep \<le> length s"
  by (induction s arbitrary: i) (auto simp: has_prefix_def split: if_splits dest!: arg_cong[of _ _ length])

lemma has_prefix_extend: "has_prefix s p \<Longrightarrow> has_prefix (s @ t) p"
  by (auto simp: has_prefix_iff)

lemma has_prefix_shrink: "has_prefix (s @ t) p \<Longrightarrow> length p \<le> length s \<Longrightarrow> has_prefix s p"
  by (simp add: has_prefix_def)

lemma index_of_append: "index_of s sep = Some i \<Longrightarrow> index_of (s @ t) sep = Some i"
proof (induction s arbitrary: i)
  case Nil
  then show ?case by (cases t) (simp_all split: if_splits add: has_prefix_def)
next
  case (Cons c s)
  show ?case
  proof (cases "has_prefix (c # s) sep")
    case True
    then show ?thesis using Cons.prems has_prefix_extend [OF True, of t] by simp
  next
    case False
    then have "length sep \<le> length (c # s)" using index_of_le [OF Cons.prems] by simp
    then have "\<not> has_prefix (c # s @ t) sep" using False has_prefix_shrink [of "c # s" t sep] by auto
    then show ?thesis using False Cons by auto
  qed
qed

subsection \<open>Splitting and joining\<close>

text \<open>\<open>strings.Split\<close> with a separator of one byte.\<close>

fun split_char :: "'a \<Rightarrow> 'a list \<Rightarrow> 'a list list" where
  "split_char c [] = [[]]"
| "split_char c (x # xs) =
     (if x = c then [] # split_char c xs
      else (case split_char c xs of [] \<Rightarrow> [[x]] | y # ys \<Rightarrow> (x # y) # ys))"

fun join_char :: "'a \<Rightarrow> 'a list list \<Rightarrow> 'a list" where
  "join_char c [] = []"
| "join_char c [x] = x"
| "join_char c (x # y # ys) = x @ c # join_char c (y # ys)"

lemma split_char_not_Nil [simp]: "split_char c s \<noteq> []"
  by (cases s) (auto split: list.splits)

lemma join_split_char: "join_char c (split_char c s) = s"
proof (induction s)
  case (Cons x s)
  obtain y ys where y: "split_char c s = y # ys" by (cases "split_char c s") auto
  with Cons.IH have "join_char c (y # ys) = s" by simp
  then have "join_char c ((x # y) # ys) = x # s" by (cases ys) auto
  moreover have "join_char c ([] # y # ys) = c # s" using \<open>join_char c (y # ys) = s\<close> by simp
  ultimately show ?case using y by simp
qed simp

lemma split_char_pieces: "p \<in> set (split_char c s) \<Longrightarrow> c \<notin> set p"
  by (induction s arbitrary: p) (auto split: list.splits if_splits)

lemma split_char_no_sep: "c \<notin> set s \<Longrightarrow> split_char c s = [s]"
  by (induction s) auto

lemma split_char_append: "c \<notin> set x \<Longrightarrow> split_char c (x @ c # y) = x # split_char c y"
  by (induction x) auto

lemma split_join_char:
  "xs \<noteq> [] \<Longrightarrow> \<forall>x \<in> set xs. c \<notin> set x \<Longrightarrow> split_char c (join_char c xs) = xs"
  by (induction c xs rule: join_char.induct) (auto simp: split_char_no_sep split_char_append)

text \<open>\<open>strings.SplitAfter\<close> for a non-empty separator: each piece keeps its separator, and what
  follows the last separator (possibly empty) is the last piece.\<close>

function split_after :: "'a list \<Rightarrow> 'a list \<Rightarrow> 'a list list" where
  "split_after s sep =
     (if sep = [] then [s]
      else case index_of s sep of
        None \<Rightarrow> [s]
      | Some i \<Rightarrow> take (i + length sep) s # split_after (drop (i + length sep) s) sep)"
  by pat_completeness auto
termination
  by (relation "measure (\<lambda>(s, sep). length s)")
    (auto dest!: index_of_le simp flip: length_greater_0_conv)

declare split_after.simps [simp del]

lemma concat_split_after: "concat (split_after s sep) = s"
proof (induction s sep rule: split_after.induct)
  case (1 s sep)
  then show ?case
    by (subst split_after.simps) (auto split: option.splits)
qed

text \<open>
  \<open>strings.ToLower\<close> and \<open>strings.ToUpper\<close> on ASCII; the server compares their results with ASCII
  literals only, to which no other letter is mapped.
\<close>

definition to_lower :: "string \<Rightarrow> string" where
  "to_lower s = map (\<lambda>c. if of_char c \<ge> (65::nat) \<and> of_char c \<le> (90::nat)
                          then char_of (of_char c + 32 :: nat) else c) s"

definition to_upper :: "string \<Rightarrow> string" where
  "to_upper s = map (\<lambda>c. if of_char c \<ge> (97::nat) \<and> of_char c \<le> (122::nat)
                          then char_of (of_char c - 32 :: nat) else c) s"

end
