(* ===== verification/KeyValues.thy ===== *)
theory KeyValues
  imports GoStrings
begin

text \<open>
  \<open>common/gamespy/keyvalues.go\<close>: the ordered key/value lists of the GameSpy protocol, written
  \<open>\k1\v1\k2\v2\<close>. The locale \<open>kv_store\<close> states what a client may rely on; the database's persistent
  game data merges updates through it.
\<close>

record kv =
  kv_K :: string
  kv_V :: string

type_synonym key_values = "kv list"

definition backslash :: char where
  "backslash = CHR 0x5C"

fun Get :: "key_values \<Rightarrow> string \<Rightarrow> string" where
  "Get [] k = []"
| "Get (x # kvs) k = (if kv_K x \<noteq> k then Get kvs k else kv_V x)"

fun Has :: "key_values \<Rightarrow> string \<Rightarrow> bool" where
  "Has [] k = False"
| "Has (x # kvs) k = (if kv_K x \<noteq> k then Has kvs k else True)"

text \<open>\<open>Set\<close> overwrites the first entry with the key, or appends a new one.\<close>

fun Set :: "string \<Rightarrow> string \<Rightarrow> key_values \<Rightarrow> key_values" where
  "Set k v [] = [\<lparr>kv_K = k, kv_V = v\<rparr>]"
| "Set k v (x # kvs) = (if kv_K x = k then x\<lparr>kv_V := v\<rparr> # kvs else x # Set k v kvs)"

text \<open>The loop over \<open>slices.Chunk(split, 2)\<close>; the pieces come in pairs.\<close>

fun set_chunks :: "string list \<Rightarrow> key_values \<Rightarrow> key_values" where
  "set_chunks (k # v # rest) kvs = set_chunks rest (Set k v kvs)"
| "set_chunks _ kvs = kvs"

definition KeyValuesFromString :: "string \<Rightarrow> key_values" where
  "KeyValuesFromString s =
     (let split = split_char backslash (trim_prefix s [backslash])
      in if length split mod 2 \<noteq> 0 then [] else set_chunks split [])"

fun Encode :: "key_values \<Rightarrow> string" where
  "Encode [] = []"
| "Encode (x # kvs) = backslash # kv_K x @ backslash # kv_V x @ Encode kvs"

subsection \<open>What the operations do\<close>

definition kv_lookup :: "key_values \<Rightarrow> string \<Rightarrow> string option" where
  "kv_lookup kvs k = (if Has kvs k then Some (Get kvs k) else None)"

definition distinct_keys :: "key_values \<Rightarrow> bool" where
  "distinct_keys kvs \<longleftrightarrow> distinct (map kv_K kvs)"

definition clean_keys :: "key_values \<Rightarrow> bool" where
  "clean_keys kvs = list_all (\<lambda>x. backslash \<notin> set (kv_K x) \<and> backslash \<notin> set (kv_V x)) kvs"

lemma Has_iff: "Has kvs k \<longleftrightarrow> k \<in> kv_K ` set kvs"
  by (induction kvs) auto

lemma Get_not_Has: "\<not> Has kvs k \<Longrightarrow> Get kvs k = []"
  by (induction kvs) (auto split: if_splits)

lemma Get_Set: "Get (Set k v kvs) k' = (if k' = k then v else Get kvs k')"
  by (induction kvs) auto

lemma Has_Set: "Has (Set k v kvs) k' \<longleftrightarrow> k' = k \<or> Has kvs k'"
  by (induction kvs) auto

lemma keys_Set:
  "map kv_K (Set k v kvs) = (if Has kvs k then map kv_K kvs else map kv_K kvs @ [k])"
  by (induction kvs) auto

lemma distinct_keys_Set: "distinct_keys kvs \<Longrightarrow> distinct_keys (Set k v kvs)"
  by (simp add: distinct_keys_def keys_Set Has_iff)

lemma kv_lookup_Set: "kv_lookup (Set k v kvs) k' = (if k' = k then Some v else kv_lookup kvs k')"
  by (simp add: kv_lookup_def Get_Set Has_Set)

lemma Set_new: "\<not> Has kvs k \<Longrightarrow> Set k v kvs = kvs @ [\<lparr>kv_K = k, kv_V = v\<rparr>]"
  by (induction kvs) (auto split: if_splits)

lemma distinct_keys_set_chunks: "distinct_keys kvs \<Longrightarrow> distinct_keys (set_chunks ps kvs)"
  by (induction ps kvs rule: set_chunks.induct) (auto simp: distinct_keys_Set)

lemma distinct_keys_FromString: "distinct_keys (KeyValuesFromString s)"
proof -
  have "distinct_keys []" by (simp add: distinct_keys_def)
  then show ?thesis
    by (auto simp: KeyValuesFromString_def Let_def intro: distinct_keys_set_chunks)
qed

subsection \<open>Parsing what was printed\<close>

fun kv_pieces :: "key_values \<Rightarrow> string list" where
  "kv_pieces [] = []"
| "kv_pieces (x # kvs) = kv_K x # kv_V x # kv_pieces kvs"

lemma even_kv_pieces: "even (length (kv_pieces kvs))"
  by (induction kvs) auto

lemma kv_pieces_clean: "clean_keys kvs \<Longrightarrow> list_all (\<lambda>p. backslash \<notin> set p) (kv_pieces kvs)"
  by (induction kvs) (simp_all add: clean_keys_def)

lemma Encode_join: "kvs \<noteq> [] \<Longrightarrow> Encode kvs = backslash # join_char backslash (kv_pieces kvs)"
proof (induction kvs)
  case (Cons x kvs)
  show ?case
  proof (cases kvs)
    case Nil
    then show ?thesis by simp
  next
    case (Cons y ys)
    with Cons.IH show ?thesis by simp
  qed
qed simp

lemma set_chunks_pieces:
  "distinct_keys (pre @ kvs) \<Longrightarrow> set_chunks (kv_pieces kvs) pre = pre @ kvs"
proof (induction kvs arbitrary: pre)
  case (Cons x kvs)
  then have "\<not> Has pre (kv_K x)" by (auto simp: Has_iff distinct_keys_def)
  then have "Set (kv_K x) (kv_V x) pre = pre @ [x]" by (cases x) (simp add: Set_new)
  with Cons.IH [of "pre @ [x]"] Cons.prems show ?case by simp
qed simp

lemma KeyValuesFromString_Encode_aux:
  assumes "clean_keys kvs" and "distinct_keys kvs"
  shows "KeyValuesFromString (Encode kvs) = kvs"
proof (cases "kvs = []")
  case True
  then show ?thesis by (simp add: KeyValuesFromString_def trim_prefix_def has_prefix_def)
next
  case False
  then have ne: "kv_pieces kvs \<noteq> []" by (cases kvs) auto
  have "trim_prefix (Encode kvs) [backslash] = join_char backslash (kv_pieces kvs)"
    using False by (simp add: Encode_join trim_prefix_def has_prefix_def)
  moreover have "split_char backslash (join_char backslash (kv_pieces kvs)) = kv_pieces kvs"
    using split_join_char [OF ne] kv_pieces_clean [OF assms(1)] unfolding list_all_iff by blast
  ultimately show ?thesis
    using even_kv_pieces [of kvs] assms(2) set_chunks_pieces [of "[]" kvs]
    by (simp add: KeyValuesFromString_def even_iff_mod_2_eq_zero)
qed

lemma Get_FromString_unclean: "length (split_char backslash (trim_prefix s [backslash])) mod 2 \<noteq> 0
  \<Longrightarrow> Get (KeyValuesFromString s) k = []"
  by (simp add: KeyValuesFromString_def)

subsection \<open>The interface to clients\<close>

locale kv_store =
  fixes lookup :: "'m \<Rightarrow> 'k \<Rightarrow> 'v option"
    and update :: "'k \<Rightarrow> 'v \<Rightarrow> 'm \<Rightarrow> 'm"
    and inv :: "'m \<Rightarrow> bool"
  assumes lookup_update: "lookup (update k v m) k' = (if k' = k then Some v else lookup m k')"
    and inv_update: "inv m \<Longrightarrow> inv (update k v m)"
begin

fun update_all :: "('k \<times> 'v) list \<Rightarrow> 'm \<Rightarrow> 'm" where
  "update_all [] m = m"
| "update_all ((k, v) # ps) m = update_all ps (update k v m)"

lemma inv_update_all: "inv m \<Longrightarrow> inv (update_all ps m)"
  by (induction ps arbitrary: m) (auto simp: inv_update)

lemma lookup_update_all:
  "lookup (update_all ps m) k =
     (case map_of (rev ps) k of None \<Rightarrow> lookup m k | Some v \<Rightarrow> Some v)"
  by (induction ps arbitrary: m) (auto simp: lookup_update map_add_Some_iff map_add_def split: option.splits)

end

interpretation kvs: kv_store kv_lookup Set distinct_keys
  by unfold_locales (simp_all add: kv_lookup_Set distinct_keys_Set)

subsection \<open>Properties\<close>

text \<open>A key/value list with distinct keys and no backslash in a key or value is read back from its
  printed form exactly, in order.\<close>

theorem KeyValuesFromString_Encode:
  assumes "clean_keys kvs" and "distinct_keys kvs"
  shows "KeyValuesFromString (Encode kvs) = kvs"
  using assms by (rule KeyValuesFromString_Encode_aux)

theorem KeyValuesFromString_Encode_witness:
  "KeyValuesFromString (Encode [\<lparr>kv_K = ''pid'', kv_V = ''1''\<rparr>, \<lparr>kv_K = ''lid'', kv_V = []\<rparr>]) =
     [\<lparr>kv_K = ''pid'', kv_V = ''1''\<rparr>, \<lparr>kv_K = ''lid'', kv_V = []\<rparr>]"
  by (rule KeyValuesFromString_Encode) (simp_all add: clean_keys_def distinct_keys_def backslash_def)

text \<open>Parsing any text gives a list without duplicate keys; storing any sequence of pairs into it
  keeps it so, and a key then has the value stored last, or the one it had before.\<close>

theorem kv_updates:
  "distinct_keys (kvs.update_all ps (KeyValuesFromString s)) \<and>
   kv_lookup (kvs.update_all ps (KeyValuesFromString s)) k =
     (case map_of (rev ps) k of
        None \<Rightarrow> kv_lookup (KeyValuesFromString s) k
      | Some v \<Rightarrow> Some v)"
  using kvs.inv_update_all [OF distinct_keys_FromString] kvs.lookup_update_all by blast

end
