(* ===== verification/GoNumbers.thy ===== *)
theory GoNumbers
  imports GoStrings
begin

text \<open>
  Package \<open>strconv\<close> in base ten (\<open>ParseUint\<close>, \<open>ParseInt\<close>, \<open>Atoi\<close>, \<open>FormatInt\<close>, \<open>FormatUint\<close>) and the
  fixed-width reads and writes of package \<open>encoding/binary\<close>.
\<close>

subsection \<open>Decimal numbers\<close>

definition digit_char :: "nat \<Rightarrow> char" where
  "digit_char n = char_of (48 + n)"

definition digit_val :: "char \<Rightarrow> nat option" where
  "digit_val c = (let n = of_char c in if 48 \<le> n \<and> n \<le> (57::nat) then Some (n - 48) else None)"

fun parse_dec :: "nat \<Rightarrow> string \<Rightarrow> nat option" where
  "parse_dec a [] = Some a"
| "parse_dec a (c # cs) =
     (case digit_val c of None \<Rightarrow> None | Some d \<Rightarrow> parse_dec (10 * a + d) cs)"

text \<open>\<open>strconv.ParseUint(s, 10, bits)\<close>; both its errors (syntax, range) are \<open>None\<close>.\<close>

definition parse_uint :: "nat \<Rightarrow> string \<Rightarrow> nat option" where
  "parse_uint bits s =
     (if s = [] then None
      else case parse_dec 0 s of
        None \<Rightarrow> None
      | Some n \<Rightarrow> if n < 2 ^ bits then Some n else None)"

text \<open>\<open>strconv.ParseInt(s, 10, bits)\<close>: an optional sign, then digits.\<close>

definition parse_int :: "nat \<Rightarrow> string \<Rightarrow> int option" where
  "parse_int bits s =
     (case s of
        [] \<Rightarrow> None
      | c # cs \<Rightarrow>
          let neg = (c = CHR ''-'');
              ds = (if c = CHR ''-'' \<or> c = CHR ''+'' then cs else s)
          in if ds = [] then None
             else case parse_dec 0 ds of
               None \<Rightarrow> None
             | Some n \<Rightarrow>
                 if \<not> neg \<and> n < 2 ^ (bits - 1) then Some (int n)
                 else if neg \<and> n \<le> 2 ^ (bits - 1) then Some (- int n)
                 else None)"

text \<open>\<open>strconv.Atoi\<close>: \<open>int\<close> has 64 bits on the server's platforms.\<close>

definition atoi :: "string \<Rightarrow> int option" where
  "atoi s = parse_int 64 s"

fun format_uint :: "nat \<Rightarrow> string" where
  "format_uint n =
     (if n < 10 then [digit_char n] else format_uint (n div 10) @ [digit_char (n mod 10)])"

declare format_uint.simps [simp del]

definition format_int :: "int \<Rightarrow> string" where
  "format_int i = (if i < 0 then CHR ''-'' # format_uint (nat (- i)) else format_uint (nat i))"

lemma digit_chars:
  "digit_char (Suc 0) = CHR ''1''"
  "digit_char 0 = CHR ''0''" "digit_char 1 = CHR ''1''" "digit_char 2 = CHR ''2''" "digit_char 3 = CHR ''3''" "digit_char 4 = CHR ''4''"
  "digit_char 5 = CHR ''5''" "digit_char 6 = CHR ''6''" "digit_char 7 = CHR ''7''" "digit_char 8 = CHR ''8''" "digit_char 9 = CHR ''9''"
  by (simp_all add: digit_char_def char_of_eq_iff take_bit_eq_mod)

lemma digit_val_digit_char [simp]: "n < 10 \<Longrightarrow> digit_val (digit_char n) = Some n"
  by (simp add: digit_val_def digit_char_def)

lemma digit_val_Some_lt: "digit_val c = Some d \<Longrightarrow> d < 10"
  by (auto simp: digit_val_def Let_def split: if_splits)

lemma digit_char_digit_val: "digit_val c = Some d \<Longrightarrow> digit_char d = c"
  by (auto simp: digit_val_def digit_char_def Let_def split: if_splits)

lemma parse_dec_append:
  "parse_dec a (xs @ ys) =
     (case parse_dec a xs of None \<Rightarrow> None | Some b \<Rightarrow> parse_dec b ys)"
  by (induction a xs rule: parse_dec.induct) (auto split: option.splits)

lemma format_uint_not_Nil [simp]: "format_uint n \<noteq> []"
  by (subst format_uint.simps) simp

lemma format_uint_digits: "\<forall>c \<in> set (format_uint n). digit_val c \<noteq> None"
proof (induction n rule: format_uint.induct)
  case (1 n)
  then show ?case
    by (subst format_uint.simps) auto
qed

lemma parse_dec_format_uint [simp]: "parse_dec 0 (format_uint n) = Some n"
proof (induction n rule: format_uint.induct)
  case (1 n)
  then show ?case
    by (subst format_uint.simps) (auto simp: parse_dec_append)
qed

lemma parse_uint_format_uint: "n < 2 ^ bits \<Longrightarrow> parse_uint bits (format_uint n) = Some n"
  by (simp add: parse_uint_def)

lemma hd_format_uint_no_sign:
  assumes "format_uint n = c # cs"
  shows "c \<noteq> CHR ''-'' \<and> c \<noteq> CHR ''+''"
proof -
  have "digit_val c \<noteq> None" using format_uint_digits [of n] assms by simp
  then show ?thesis by (auto simp: digit_val_def Let_def)
qed

lemma parse_int_format_int:
  assumes "- (2 ^ (bits - 1)) \<le> i" and "i < 2 ^ (bits - 1)"
  shows "parse_int bits (format_int i) = Some i"
proof (cases "i < 0")
  case True
  then have "nat (- i) \<le> 2 ^ (bits - 1)" using assms(1) by (simp add: nat_le_iff)
  with True show ?thesis by (simp add: format_int_def parse_int_def)
next
  case False
  then have lt: "nat i < 2 ^ (bits - 1)" using assms(2) by (simp add: nat_less_iff)
  obtain c cs where f: "format_uint (nat i) = c # cs" by (cases "format_uint (nat i)") auto
  then have p: "parse_dec 0 (c # cs) = Some (nat i)" by (metis parse_dec_format_uint)
  from False lt f p hd_format_uint_no_sign [OF f] show ?thesis
    by (simp add: format_int_def parse_int_def)
qed

lemma nat_pow_bounds:
  "n < 2 ^ k \<Longrightarrow> - (2 ^ k) \<le> int n" "n \<le> 2 ^ k \<Longrightarrow> - int n < 2 ^ k"
  using zero_less_power [of "2::int" k] by linarith+

lemma parse_int_bounds:
  "parse_int bits s = Some i \<Longrightarrow> - (2 ^ (bits - 1)) \<le> i \<and> i < 2 ^ (bits - 1)"
  by (auto simp: parse_int_def Let_def nat_pow_bounds split: list.splits option.splits if_splits)

lemma parse_uint_bound: "parse_uint bits s = Some n \<Longrightarrow> n < 2 ^ bits"
  by (auto simp: parse_uint_def split: option.splits if_splits)

lemma parse_uint_Nil [simp]: "parse_uint bits [] = None"
  by (simp add: parse_uint_def)

lemma parse_int_Nil [simp]: "parse_int bits [] = None"
  by (simp add: parse_int_def)

subsection \<open>Fixed-width integers as bytes\<close>

definition be16 :: "u16 \<Rightarrow> bytes" where
  "be16 w = [ucast (drop_bit 8 w), ucast w]"

definition be32 :: "u32 \<Rightarrow> bytes" where
  "be32 w = [ucast (drop_bit 24 w), ucast (drop_bit 16 w), ucast (drop_bit 8 w), ucast w]"

definition le16 :: "u16 \<Rightarrow> bytes" where
  "le16 w = rev (be16 w)"

definition le32 :: "u32 \<Rightarrow> bytes" where
  "le32 w = rev (be32 w)"

definition le64 :: "u64 \<Rightarrow> bytes" where
  "le64 w = map (\<lambda>i. ucast (drop_bit (8 * i) w)) [0..<8]"

text \<open>The reads panic on a slice that is too short.\<close>

definition uint_be :: "bytes \<Rightarrow> nat" where
  "uint_be bs = foldl (\<lambda>a b. 256 * a + unat b) 0 bs"

definition get_be16 :: "bytes \<Rightarrow> u16 option" where
  "get_be16 bs = (if length bs < 2 then None else Some (of_nat (uint_be (take 2 bs))))"

definition get_be32 :: "bytes \<Rightarrow> u32 option" where
  "get_be32 bs = (if length bs < 4 then None else Some (of_nat (uint_be (take 4 bs))))"

definition get_le32 :: "bytes \<Rightarrow> u32 option" where
  "get_le32 bs = (if length bs < 4 then None else Some (of_nat (uint_be (rev (take 4 bs)))))"

definition get_le64 :: "bytes \<Rightarrow> u64 option" where
  "get_le64 bs = (if length bs < 8 then None else Some (of_nat (uint_be (rev (take 8 bs)))))"

definition get_be64 :: "bytes \<Rightarrow> u64 option" where
  "get_be64 bs = (if length bs < 8 then None else Some (of_nat (uint_be (take 8 bs))))"

lemma length_be [simp]: "length (be16 a) = 2" "length (be32 b) = 4"
  "length (le16 a) = 2" "length (le32 b) = 4" "length (le64 c) = 8"
  by (simp_all add: be16_def be32_def le16_def le32_def le64_def)

lemma unat_drop_div: "unat (drop_bit k (w :: 'a::len word)) = unat w div 2 ^ k"
  unfolding unat_drop_bit_eq by (simp add: drop_bit_eq_div)

lemma unat_ucast_drop_u8: "unat (ucast (drop_bit k (w :: 'a::len word)) :: u8) = unat w div 2 ^ k mod 256"
  unfolding unsigned_ucast_eq unat_drop_bit_eq
  by (simp add: take_bit_eq_mod drop_bit_eq_div)

lemma unat_ucast_u8: "unat (ucast (w :: 'a::len word) :: u8) = unat w mod 256"
  by (simp add: unsigned_ucast_eq take_bit_eq_mod)

lemma base256_2: "n < 65536 \<Longrightarrow> 256 * (n div 256 mod 256) + n mod 256 = (n :: nat)"
proof -
  assume "n < 65536"
  then have "n div 256 mod 256 = n div 256" by (simp add: less_mult_imp_div_less)
  then show ?thesis by simp
qed

lemma base256_4:
  fixes n :: nat
  shows "16777216 * (n div 16777216) + 65536 * (n div 65536 mod 256)
    + 256 * (n div 256 mod 256) + n mod 256 = n"
proof -
  have d: "n div 16777216 = n div 65536 div 256" by (simp add: div_mult2_eq [symmetric])
  have "n div 65536 = 256 * (n div 16777216) + n div 65536 mod 256"
    using d by simp
  moreover have "n mod 65536 = 256 * (n div 256 mod 256) + n mod 256"
    using mod_mult2_eq [of n 256 256] by simp
  moreover have "n = 65536 * (n div 65536) + n mod 65536" by simp
  ultimately show ?thesis by linarith
qed

lemma uint_be_be16: "uint_be (be16 w) = unat w"
proof -
  have "unat w < 65536" using unsigned_less [of w, where ?'a = nat] by simp
  from base256_2 [OF this] show ?thesis
    by (simp add: uint_be_def be16_def unat_ucast_drop_u8 unat_ucast_u8 unat_drop_div)
qed

lemma uint_be_be32: "uint_be (be32 w) = unat w"
proof -
  have "unat w < 4294967296" using unsigned_less [of w, where ?'a = nat] by simp
  with base256_4 [of "unat w"] show ?thesis
    by (simp add: uint_be_def be32_def unat_ucast_drop_u8 unat_ucast_u8 unat_drop_div)
qed

lemma get_be16_be16 [simp]: "get_be16 (be16 w @ r) = Some w"
  by (simp add: get_be16_def uint_be_be16)

lemma get_be32_be32 [simp]: "get_be32 (be32 w @ r) = Some w"
  by (simp add: get_be32_def uint_be_be32)

lemma get_le32_le32 [simp]: "get_le32 (le32 w @ r) = Some w"
  by (simp add: get_le32_def le32_def uint_be_be32)

lemma base256_step: "256 * (n div (m * 256)) + n div m mod 256 = n div (m :: nat)"
  by (simp add: div_mult2_eq)

lemma uint_be_le64: "uint_be (rev (le64 w)) = unat w"
proof -
  let ?n = "unat w"
  have n: "?n < 2 ^ 64" using unsigned_less [of w, where ?'a = nat] by simp
  then have top: "?n div 2 ^ 56 mod 256 = ?n div 2 ^ 56" by (simp add: less_mult_imp_div_less)
  have list: "map (\<lambda>i. ucast (drop_bit (8 * i) w) :: u8) [0..<8] =
      [ucast w, ucast (drop_bit 8 w), ucast (drop_bit 16 w), ucast (drop_bit 24 w), ucast (drop_bit 32 w),
       ucast (drop_bit 40 w), ucast (drop_bit 48 w), ucast (drop_bit 56 w)]"
    by (simp add: upt_conv_Cons)
  note s = base256_step [of ?n "2 ^ 48"] base256_step [of ?n "2 ^ 40"] base256_step [of ?n "2 ^ 32"]
    base256_step [of ?n "2 ^ 24"] base256_step [of ?n "2 ^ 16"] base256_step [of ?n "2 ^ 8"] base256_step [of ?n 1]
  show ?thesis
    unfolding le64_def list
    using top s by (simp add: uint_be_def unat_ucast_drop_u8 unat_ucast_u8 unat_drop_div)
qed

lemma get_le64_le64 [simp]: "get_le64 (le64 w @ r) = Some w"
  by (simp add: get_le64_def uint_be_le64)

lemma word_le32 [simp]: "of_nat (uint_be (rev (le32 w))) = w"
  by (simp add: le32_def uint_be_be32)

lemma word_le64 [simp]: "of_nat (uint_be (rev (le64 w))) = w"
  by (simp add: uint_be_le64)

end
