(* ===== verification/GsMessage.thy ===== *)
theory GsMessage
  imports KeyValues GoNumbers
begin

text \<open>
  \<open>common/gamespy/message.go\<close>, \<open>common/gamespy/router.go\<close> and \<open>common/reflect.go\<close>: GameSpy requests
  and responses are Go structs whose fields carry a tag \<open>gs:"key,options"\<close>. A struct is modelled as
  the list of its fields in declaration order, each with its tag and its value; the reflection the
  code uses sees no more of it.
\<close>

datatype gval =
    GString string
  | GUint nat nat      \<comment> \<open>width in bits, value\<close>
  | GInt nat int
  | GBool bool
  | GSlice "(string \<times> gval) list list"

type_synonym field = "string \<times> gval"

datatype gs_error = ErrInvalidGameSpyCommand | ErrFieldSyntax | ErrUnsupportedFieldType

definition EndDelimiter :: string where
  "EndDelimiter = backslash # ''final'' @ [backslash]"

definition tag_split :: "string \<Rightarrow> string list" where
  "tag_split tag = split_char CHR '','' tag"

definition tag_key :: "string \<Rightarrow> string" where
  "tag_key tag = hd (tag_split tag)"

subsection \<open>Values from and to strings\<close>

text \<open>\<open>strconv.ParseBool\<close>\<close>

definition parse_bool :: "string \<Rightarrow> bool option" where
  "parse_bool s =
     (if s \<in> {''1'', ''t'', ''T'', ''TRUE'', ''true'', ''True''} then Some True
      else if s \<in> {''0'', ''f'', ''F'', ''FALSE'', ''false'', ''False''} then Some False
      else None)"

fun PutReflectString :: "gval \<Rightarrow> string \<Rightarrow> (gs_error, gval) outcome" where
  "PutReflectString (GString _) s = Ret (GString s)"
| "PutReflectString (GUint bits _) s =
     (case parse_uint bits s of None \<Rightarrow> Err ErrFieldSyntax | Some n \<Rightarrow> Ret (GUint bits n))"
| "PutReflectString (GInt bits _) s =
     (case parse_int bits s of None \<Rightarrow> Err ErrFieldSyntax | Some n \<Rightarrow> Ret (GInt bits n))"
| "PutReflectString (GBool _) s =
     (case parse_bool s of None \<Rightarrow> Err ErrFieldSyntax | Some b \<Rightarrow> Ret (GBool b))"
| "PutReflectString (GSlice _) s = Err ErrUnsupportedFieldType"

fun is_zero :: "gval \<Rightarrow> bool" where
  "is_zero (GString s) = (s = [])"
| "is_zero (GUint _ n) = (n = 0)"
| "is_zero (GInt _ i) = (i = 0)"
| "is_zero (GBool b) = (\<not> b)"
| "is_zero (GSlice xs) = (xs = [])"

fun zero_of :: "gval \<Rightarrow> gval" where
  "zero_of (GString _) = GString []"
| "zero_of (GUint b _) = GUint b 0"
| "zero_of (GInt b _) = GInt b 0"
| "zero_of (GBool _) = GBool False"
| "zero_of (GSlice _) = GSlice []"

fun marshal_value :: "gval \<Rightarrow> string" where
  "marshal_value (GString s) = s"
| "marshal_value (GUint _ n) = format_uint n"
| "marshal_value (GInt _ i) = format_int i"
| "marshal_value (GBool b) = (if b then ''1'' else ''0'')"
| "marshal_value (GSlice _) = []"

subsection \<open>Marshal\<close>

text \<open>
  A field without a key is skipped, whatever its kind. For a slice with a key the code calls
  \<open>Fields()\<close> on the slice itself, which panics because it is not a struct.
\<close>

fun marshalStruct :: "field list \<Rightarrow> (gs_error, string) outcome" where
  "marshalStruct [] = Ret []"
| "marshalStruct ((tag, v) # fs) =
     (if tag_key tag = [] then marshalStruct fs
      else if ''omitzero'' \<in> set (tag_split tag) \<and> is_zero v then marshalStruct fs
      else case v of
        GSlice _ \<Rightarrow> Panic
      | _ \<Rightarrow> bind_outcome (marshalStruct fs) (\<lambda>rest.
               Ret (backslash # tag_key tag @ backslash # marshal_value v @ rest)))"

text \<open>\<open>None\<close> is the value \<open>NoResponse{}\<close>.\<close>

fun Marshal :: "field list option \<Rightarrow> (gs_error, string) outcome" where
  "Marshal None = Ret []"
| "Marshal (Some fs) = bind_outcome (marshalStruct fs) (\<lambda>s. Ret (s @ EndDelimiter))"

subsection \<open>Unmarshal\<close>

text \<open>
  For a field with the option \<open>raw\<close> the code keeps the first result of \<open>strings.Cut\<close>, the text
  before the key.
\<close>

definition field_text :: "string \<Rightarrow> key_values \<Rightarrow> string \<Rightarrow> string" where
  "field_text msg kvs tag =
     (if ''raw'' \<in> set (tag_split tag)
      then fst (cut msg (backslash # tag_key tag @ [backslash]))
      else Get kvs (tag_key tag))"

fun unmarshal_fields :: "string \<Rightarrow> key_values \<Rightarrow> field list \<Rightarrow> (gs_error, field list) outcome" where
  "unmarshal_fields msg kvs [] = Ret []"
| "unmarshal_fields msg kvs ((tag, v) # fs) =
     (let value = field_text msg kvs tag in
      if value = [] then
        bind_outcome (unmarshal_fields msg kvs fs) (\<lambda>r. Ret ((tag, v) # r))
      else
        bind_outcome (PutReflectString v value) (\<lambda>v'.
          bind_outcome (unmarshal_fields msg kvs fs) (\<lambda>r. Ret ((tag, v') # r))))"

text \<open>The schema is the struct's zero value.\<close>

definition Unmarshal :: "field list \<Rightarrow> string \<Rightarrow> (gs_error, field list) outcome" where
  "Unmarshal schema msg =
     (case cut_suffix msg EndDelimiter of
        None \<Rightarrow> Err ErrInvalidGameSpyCommand
      | Some m \<Rightarrow> unmarshal_fields m (KeyValuesFromString m) schema)"

text \<open>
  \<open>router.go\<close>: a handler of a request type, as a function from the message text to the response
  text; the handler sees the decoded fields and returns the new state with its answer.
\<close>

definition Handle ::
  "field list \<Rightarrow> ('s \<Rightarrow> field list \<Rightarrow> 's \<times> ('e, field list option) outcome)
    \<Rightarrow> (gs_error \<Rightarrow> 'e) \<Rightarrow> 's \<Rightarrow> string \<Rightarrow> 's \<times> ('e, string) outcome" where
  "Handle schema handler lift st req =
     (case Unmarshal schema req of
        Err e \<Rightarrow> (st, Err (lift e))
      | Panic \<Rightarrow> (st, Panic)
      | Ret in_fields \<Rightarrow>
          (case handler st in_fields of
             (st', Err e) \<Rightarrow> (st', Err e)
           | (st', Panic) \<Rightarrow> (st', Panic)
           | (st', Ret resp) \<Rightarrow>
               (st', case Marshal resp of Ret s \<Rightarrow> Ret s | Err e \<Rightarrow> Err (lift e) | Panic \<Rightarrow> Panic)))"

subsection \<open>A struct that is printed is read back\<close>

text \<open>Values that fit their type and whose text has no separator.\<close>

fun value_ok :: "gval \<Rightarrow> bool" where
  "value_ok (GString s) = (backslash \<notin> set s)"
| "value_ok (GUint b n) = (n < 2 ^ b)"
| "value_ok (GInt b i) = (- (2 ^ (b - 1)) \<le> i \<and> i < 2 ^ (b - 1))"
| "value_ok (GBool _) = True"
| "value_ok (GSlice xs) = False"

definition field_ok :: "field \<Rightarrow> bool" where
  "field_ok f = (case f of (tag, v) \<Rightarrow>
     tag_key tag \<noteq> [] \<and> backslash \<notin> set (tag_key tag) \<and> ''raw'' \<notin> set (tag_split tag) \<and> value_ok v)"

definition struct_ok :: "field list \<Rightarrow> bool" where
  "struct_ok fs \<longleftrightarrow> list_all field_ok fs \<and> distinct (map (tag_key \<circ> fst) fs)"

definition zero_struct :: "field list \<Rightarrow> field list" where
  "zero_struct fs = map (\<lambda>(tag, v). (tag, zero_of v)) fs"

definition printed :: "field \<Rightarrow> bool" where
  "printed f = (case f of (tag, v) \<Rightarrow> \<not> (''omitzero'' \<in> set (tag_split tag) \<and> is_zero v))"

definition field_kv :: "field \<Rightarrow> kv" where
  "field_kv f = \<lparr>kv_K = tag_key (fst f), kv_V = marshal_value (snd f)\<rparr>"

definition struct_kvs :: "field list \<Rightarrow> key_values" where
  "struct_kvs fs = map field_kv (filter printed fs)"

lemma digits_no_backslash: "backslash \<notin> set (format_uint n)"
  using format_uint_digits [of n] by (auto simp: backslash_def digit_val_def Let_def)

lemma marshal_value_clean: "value_ok v \<Longrightarrow> backslash \<notin> set (marshal_value v)"
  by (cases v) (auto simp: digits_no_backslash format_int_def, auto simp: backslash_def)

lemma marshalStruct_kvs:
  "list_all field_ok fs \<Longrightarrow> marshalStruct fs = Ret (Encode (struct_kvs fs))"
proof (induction fs)
  case (Cons f fs)
  obtain tag v where f: "f = (tag, v)" by (cases f)
  with Cons have "marshalStruct fs = Ret (Encode (struct_kvs fs))" and "field_ok (tag, v)" by auto
  with f show ?case
    by (cases v) (auto simp: field_ok_def struct_kvs_def printed_def field_kv_def)
qed (simp add: struct_kvs_def)

lemma clean_struct_kvs: "list_all field_ok fs \<Longrightarrow> clean_keys (struct_kvs fs)"
  by (induction fs)
    (auto simp: clean_keys_def struct_kvs_def field_kv_def field_ok_def marshal_value_clean)

lemma distinct_struct_kvs: "distinct (map (tag_key \<circ> fst) fs) \<Longrightarrow> distinct_keys (struct_kvs fs)"
  by (induction fs) (auto simp: distinct_keys_def struct_kvs_def field_kv_def)

lemma Get_struct_kvs:
  "distinct (map (tag_key \<circ> fst) fs) \<Longrightarrow> (tag, v) \<in> set fs \<Longrightarrow>
   Get (struct_kvs fs) (tag_key tag) = (if printed (tag, v) then marshal_value v else [])"
proof (induction fs)
  case (Cons f fs)
  have notin: "\<not> Has (struct_kvs fs) (tag_key tag)" if "f = (tag, v)"
    using Cons.prems(1) that by (auto simp: Has_iff struct_kvs_def field_kv_def image_iff)
  show ?case
  proof (cases "f = (tag, v)")
    case True
    with Get_not_Has [OF notin] show ?thesis
      by (auto simp: struct_kvs_def field_kv_def)
  next
    case False
    with Cons.prems have "(tag, v) \<in> set fs" and "tag_key (fst f) \<noteq> tag_key tag"
      by (auto simp: image_iff)
    with Cons show ?thesis
      by (auto simp: struct_kvs_def field_kv_def)
  qed
qed simp

lemma PutReflect_marshal:
  "value_ok v \<Longrightarrow> marshal_value v \<noteq> [] \<Longrightarrow> PutReflectString (zero_of v) (marshal_value v) = Ret v"
  by (cases v) (auto simp: parse_uint_format_uint parse_int_format_int parse_bool_def)

lemma zero_of_empty: "value_ok v \<Longrightarrow> marshal_value v = [] \<or> is_zero v \<Longrightarrow> zero_of v = v"
  by (cases v) (auto simp: format_int_def split: if_splits)

definition reads_back :: "string \<Rightarrow> key_values \<Rightarrow> field \<Rightarrow> bool" where
  "reads_back msg kvs f = (case f of (tag, v) \<Rightarrow>
     value_ok v \<and> field_text msg kvs tag = (if printed (tag, v) then marshal_value v else []))"

lemma unmarshal_reads_back:
  "list_all (reads_back msg kvs) fs \<Longrightarrow> unmarshal_fields msg kvs (zero_struct fs) = Ret fs"
proof (induction fs)
  case (Cons f fs)
  obtain tag v where f: "f = (tag, v)" by (cases f)
  with Cons have "unmarshal_fields msg kvs (zero_struct fs) = Ret fs"
    and "reads_back msg kvs (tag, v)" by auto
  with f show ?case
    by (auto simp: zero_struct_def reads_back_def printed_def PutReflect_marshal zero_of_empty Let_def)
qed (simp add: zero_struct_def)

lemma struct_reads_back:
  assumes "struct_ok fs"
  shows "list_all (reads_back msg (struct_kvs fs)) fs"
  using assms
  by (auto simp: struct_ok_def list_all_iff reads_back_def field_ok_def field_text_def Get_struct_kvs)

lemma Unmarshal_Marshal:
  assumes "struct_ok fs" and "Marshal (Some fs) = Ret msg"
  shows "Unmarshal (zero_struct fs) msg = Ret fs"
proof -
  from assms have "msg = Encode (struct_kvs fs) @ EndDelimiter"
    by (auto simp: struct_ok_def marshalStruct_kvs)
  moreover have "KeyValuesFromString (Encode (struct_kvs fs)) = struct_kvs fs"
    using assms(1) by (simp add: struct_ok_def KeyValuesFromString_Encode_aux clean_struct_kvs distinct_struct_kvs)
  ultimately show ?thesis
    using struct_reads_back [OF assms(1)] by (simp add: Unmarshal_def unmarshal_reads_back)
qed

subsection \<open>Properties\<close>

text \<open>C35. A message struct whose keys are distinct and whose values fit their types and contain no
  separator is read back unchanged by \<open>Unmarshal\<close> from what \<open>Marshal\<close> printed, the fields left out by
  \<open>omitzero\<close> included.\<close>

theorem Unmarshal_inverts_Marshal:
  assumes "struct_ok fs" and "Marshal (Some fs) = Ret msg"
  shows "Unmarshal (zero_struct fs) msg = Ret fs"
  using assms by (rule Unmarshal_Marshal)

theorem Unmarshal_inverts_Marshal_witness:
  "Unmarshal (zero_struct [(''pid'', GUint 32 7), (''sig,omitzero'', GString [])]) (backslash # ''pid'' @ backslash # ''7'' @ EndDelimiter) =
     Ret [(''pid'', GUint 32 7), (''sig,omitzero'', GString [])]"
  by (rule Unmarshal_inverts_Marshal)
     (simp_all add: struct_ok_def field_ok_def tag_key_def tag_split_def backslash_def digit_chars
        format_uint.simps)

end
