(* ===== verification/GoBase64.thy ===== *)
theory GoBase64
  imports GoNumbers
begin

text \<open>
  \<open>encoding/base64\<close> for an alphabet of 64 characters and a padding character
  (\<open>NewEncoding(alphabet).WithPadding(pad)\<close>), and the two encodings of \<open>common/encoding.go\<close>. The
  locale \<open>base64_encoding\<close> is what a pair of alphabet and padding has to satisfy for decoding to
  invert encoding; the four encodings the server uses are its interpretations.
\<close>

record b64 =
  b64_alpha :: string
  b64_pad :: char

fun pos_of :: "'a \<Rightarrow> 'a list \<Rightarrow> nat option" where
  "pos_of c [] = None"
| "pos_of c (x # xs) = (if x = c then Some 0 else map_option Suc (pos_of c xs))"

lemma pos_of_nth: "distinct xs \<Longrightarrow> i < length xs \<Longrightarrow> pos_of (xs ! i) xs = Some i"
proof (induction xs arbitrary: i)
  case (Cons x xs)
  then show ?case by (cases i) auto
qed simp

lemma pos_of_bound: "pos_of c xs = Some i \<Longrightarrow> i < length xs \<and> xs ! i = c"
  by (induction xs arbitrary: i) (auto split: if_splits)

definition b64_char :: "b64 \<Rightarrow> nat \<Rightarrow> char" where
  "b64_char e i = b64_alpha e ! i"

definition b64_val :: "b64 \<Rightarrow> char \<Rightarrow> nat option" where
  "b64_val e c = pos_of c (b64_alpha e)"

fun b64_encode :: "b64 \<Rightarrow> bytes \<Rightarrow> string" where
  "b64_encode e [] = []"
| "b64_encode e [a] =
     [b64_char e (unat a div 4), b64_char e (unat a mod 4 * 16), b64_pad e, b64_pad e]"
| "b64_encode e [a, b] =
     [b64_char e (unat a div 4), b64_char e (unat a mod 4 * 16 + unat b div 16),
      b64_char e (unat b mod 16 * 4), b64_pad e]"
| "b64_encode e (a # b # c # r) =
     b64_char e (unat a div 4) # b64_char e (unat a mod 4 * 16 + unat b div 16) #
     b64_char e (unat b mod 16 * 4 + unat c div 64) # b64_char e (unat c mod 64) # b64_encode e r"

definition byte1 :: "nat \<Rightarrow> nat \<Rightarrow> u8" where
  "byte1 s0 s1 = of_nat (s0 * 4 + s1 div 16)"

definition byte2 :: "nat \<Rightarrow> nat \<Rightarrow> u8" where
  "byte2 s1 s2 = of_nat (s1 mod 16 * 16 + s2 div 4)"

definition byte3 :: "nat \<Rightarrow> nat \<Rightarrow> u8" where
  "byte3 s2 s3 = of_nat (s2 mod 4 * 64 + s3)"

text \<open>
  Quantum by quantum, after carriage returns and newlines are dropped. \<open>strict\<close> is Go's
  \<open>Strict()\<close>: the bits the last quantum leaves over must be zero.
\<close>

fun b64_decode_quanta :: "bool \<Rightarrow> b64 \<Rightarrow> string \<Rightarrow> bytes option" where
  "b64_decode_quanta strict e [] = Some []"
| "b64_decode_quanta strict e (a # b # c # d # r) =
     (case (b64_val e a, b64_val e b) of
        (Some s0, Some s1) \<Rightarrow>
          (case b64_val e c of
             None \<Rightarrow>
               if c = b64_pad e \<and> d = b64_pad e \<and> r = [] \<and> (strict \<longrightarrow> s1 mod 16 = 0)
               then Some [byte1 s0 s1] else None
           | Some s2 \<Rightarrow>
               (case b64_val e d of
                  None \<Rightarrow>
                    if d = b64_pad e \<and> r = [] \<and> (strict \<longrightarrow> s2 mod 4 = 0)
                    then Some [byte1 s0 s1, byte2 s1 s2] else None
                | Some s3 \<Rightarrow>
                    map_option (\<lambda>t. byte1 s0 s1 # byte2 s1 s2 # byte3 s2 s3 # t)
                      (b64_decode_quanta strict e r)))
      | _ \<Rightarrow> None)"
| "b64_decode_quanta strict e _ = None"

definition no_newline :: "char \<Rightarrow> bool" where
  "no_newline c \<longleftrightarrow> c \<noteq> CHR 0x0A \<and> c \<noteq> CHR 0x0D"

definition b64_decode :: "b64 \<Rightarrow> string \<Rightarrow> bytes option" where
  "b64_decode e s = b64_decode_quanta False e (filter no_newline s)"

definition b64_decode_strict :: "b64 \<Rightarrow> string \<Rightarrow> bytes option" where
  "b64_decode_strict e s = b64_decode_quanta True e (filter no_newline s)"

subsection \<open>Reassembling the bytes\<close>

lemma unat_u8_less [simp]: "unat (a :: u8) < 256"
  using unsigned_less [of a, where ?'a = nat] by simp

lemma small_div: "unat (a :: u8) div 4 < 64" "unat a div 16 < 16" "unat a div 64 < 4"
  by (simp_all add: less_mult_imp_div_less)

lemma sextet_bounds:
  "unat (a :: u8) div 4 < 64" "unat a mod 4 * 16 < 64" "unat a mod 4 * 16 + unat (b :: u8) div 16 < 64"
  "unat b mod 16 * 4 < 64" "unat b mod 16 * 4 + unat (c :: u8) div 64 < 64" "unat c mod 64 < 64"
proof -
  have m: "unat a mod 4 < 4" "unat b mod 16 < 16" "unat c mod 64 < 64" by simp_all
  note d = small_div(2) [of b] small_div(3) [of c]
  show "unat (a :: u8) div 4 < 64" by (rule small_div)
  show "unat a mod 4 * 16 < 64" "unat b mod 16 * 4 < 64" "unat c mod 64 < 64"
    using m by linarith+
  show "unat a mod 4 * 16 + unat b div 16 < 64" "unat b mod 16 * 4 + unat c div 64 < 64"
    using m d by linarith+
qed

lemma word_of_parts: "(of_nat (unat (a :: u8) div k * k + unat a mod k) :: u8) = a"
  by (simp del: of_nat_add of_nat_mult)

lemma byte1_eq: "y < 16 \<Longrightarrow> byte1 (unat a div 4) (unat a mod 4 * 16 + y) = a"
  using word_of_parts [of a 4] by (simp add: byte1_def del: of_nat_add of_nat_mult)

lemma byte1_eq0: "byte1 (unat a div 4) (unat a mod 4 * 16) = a"
  using byte1_eq [of 0 a] by simp

lemma byte2_eq:
  assumes "z < 4"
  shows "byte2 (x * 16 + unat b div 16) (unat b mod 16 * 4 + z) = b"
proof -
  have "(x * 16 + unat b div 16) mod 16 = unat b div 16"
    using small_div(2) [of b] by (metis add.commute mod_less mod_mult_self1)
  moreover have "(unat b mod 16 * 4 + z) div 4 = unat b mod 16" using assms by simp
  ultimately show ?thesis
    using word_of_parts [of b 16] by (simp add: byte2_def del: of_nat_add of_nat_mult)
qed

lemma byte2_eq0: "byte2 (x * 16 + unat b div 16) (unat b mod 16 * 4) = b"
  using byte2_eq [of 0 x b] by simp

lemma byte3_eq: "byte3 (x * 4 + unat c div 64) (unat c mod 64) = c"
proof -
  have "(x * 4 + unat c div 64) mod 4 = unat c div 64"
    using small_div(3) [of c] by (metis add.commute mod_less mod_mult_self1)
  then show ?thesis
    using word_of_parts [of c 64] by (simp add: byte3_def del: of_nat_add of_nat_mult)
qed

text \<open>Induction over the quanta of three bytes, for lemmas about a fixed encoding.\<close>

lemma quanta_induct [case_names Nil One Two Quantum]:
  assumes "P []" and "\<And>a. P [a]" and "\<And>a b. P [a, b]"
    and "\<And>a b c r. P r \<Longrightarrow> P (a # b # c # r)"
  shows "P xs"
proof (induction xs rule: length_induct)
  case (1 xs)
  show ?case
  proof (cases xs rule: remdups_adj.cases)
    case (3 a b r)
    then show ?thesis using 1 assms by (cases r) auto
  qed (use assms in auto)
qed

subsection \<open>Encodings\<close>

locale base64_encoding =
  fixes e :: b64
  assumes alphabet: "distinct (b64_alpha e)" "length (b64_alpha e) = 64"
    and padding: "b64_pad e \<notin> set (b64_alpha e)"
    and printable: "list_all no_newline (b64_alpha e)" "no_newline (b64_pad e)"
begin

lemma val_char: "i < 64 \<Longrightarrow> b64_val e (b64_char e i) = Some i"
  using alphabet by (simp add: b64_val_def b64_char_def pos_of_nth)

lemma val_pad: "b64_val e (b64_pad e) = None"
  using padding pos_of_bound by (metis b64_val_def not_Some_eq nth_mem)

lemma char_printable: "i < 64 \<Longrightarrow> no_newline (b64_char e i)"
  using alphabet printable by (simp add: b64_char_def list_all_length)

lemmas val_simps = val_char val_pad sextet_bounds byte1_eq byte1_eq0 byte2_eq byte2_eq0 byte3_eq small_div

lemma encode_printable: "filter no_newline (b64_encode e b) = b64_encode e b"
  by (induction b rule: quanta_induct) (simp_all add: char_printable sextet_bounds printable)

lemma decode_quanta_encode: "b64_decode_quanta strict e (b64_encode e b) = Some b"
  by (induction b rule: quanta_induct) (simp_all add: val_simps)

lemma decode_encode: "b64_decode e (b64_encode e b) = Some b"
  by (simp add: b64_decode_def encode_printable decode_quanta_encode)

lemma decode_strict_encode: "b64_decode_strict e (b64_encode e b) = Some b"
  by (simp add: b64_decode_strict_def encode_printable decode_quanta_encode)

end

definition upper_letters :: string where
  "upper_letters = ''ABCDEFGHIJKLMNOPQRSTUVWXYZ''"

definition lower_letters :: string where
  "lower_letters = ''abcdefghijklmnopqrstuvwxyz''"

definition Base64DwcEncoding :: b64 where
  "Base64DwcEncoding =
     \<lparr>b64_alpha = upper_letters @ lower_letters @ ''0123456789.-'', b64_pad = CHR ''*''\<rparr>"

definition Base64GamespyAlternativeEncoding :: b64 where
  "Base64GamespyAlternativeEncoding =
     \<lparr>b64_alpha = upper_letters @ lower_letters @ ''0123456789[]'', b64_pad = CHR ''_''\<rparr>"

definition StdEncoding :: b64 where
  "StdEncoding =
     \<lparr>b64_alpha = upper_letters @ lower_letters @ ''0123456789+/'', b64_pad = CHR ''=''\<rparr>"

definition URLEncoding :: b64 where
  "URLEncoding =
     \<lparr>b64_alpha = upper_letters @ lower_letters @ ''0123456789-_'', b64_pad = CHR ''=''\<rparr>"

lemmas b64_encodings = Base64DwcEncoding_def Base64GamespyAlternativeEncoding_def StdEncoding_def
  URLEncoding_def upper_letters_def lower_letters_def no_newline_def

interpretation b64_dwc: base64_encoding Base64DwcEncoding
  by unfold_locales (simp_all add: b64_encodings)

interpretation b64_gs: base64_encoding Base64GamespyAlternativeEncoding
  by unfold_locales (simp_all add: b64_encodings)

interpretation b64_std: base64_encoding StdEncoding
  by unfold_locales (simp_all add: b64_encodings)

interpretation b64_url: base64_encoding URLEncoding
  by unfold_locales (simp_all add: b64_encodings)

subsection \<open>Converting between the encodings\<close>

definition Base64Convert :: "string \<Rightarrow> b64 \<Rightarrow> b64 \<Rightarrow> string option" where
  "Base64Convert s fromEncoding toEncoding = map_option (b64_encode toEncoding) (b64_decode fromEncoding s)"

text \<open>Converting text printed in any of the server's base64 encodings to any other gives the other
  encoding of the same bytes, and every encoding is inverted by its own decoder, strict or not.\<close>

theorem Base64Convert_encode:
  assumes "a \<in> {Base64DwcEncoding, Base64GamespyAlternativeEncoding, StdEncoding, URLEncoding}"
  shows "Base64Convert (b64_encode a data) a b = Some (b64_encode b data) \<and>
    b64_decode_strict a (b64_encode a data) = Some data"
proof -
  have "b64_decode a (b64_encode a data) = Some data \<and> b64_decode_strict a (b64_encode a data) = Some data"
    using assms b64_dwc.decode_encode b64_gs.decode_encode b64_std.decode_encode b64_url.decode_encode
      b64_dwc.decode_strict_encode b64_gs.decode_strict_encode b64_std.decode_strict_encode
      b64_url.decode_strict_encode by auto
  then show ?thesis by (simp add: Base64Convert_def)
qed

theorem Base64Convert_encode_witness:
  "Base64Convert (b64_encode StdEncoding [1, 2]) StdEncoding Base64DwcEncoding =
     Some (b64_encode Base64DwcEncoding [1, 2]) \<and>
   b64_decode_strict StdEncoding (b64_encode StdEncoding [1, 2]) = Some [1, 2]"
  by (rule Base64Convert_encode) simp

end
