(* ===== verification/GoCrypto.thy ===== *)
theory GoCrypto
  imports GoNumbers
begin

text \<open>
  The hash functions of Go's standard library that the server calls: \<open>crypto/md5\<close>, \<open>crypto/sha1\<close>,
  \<open>crypto/sha256\<close> (through \<open>New\<close>, \<open>Write\<close> and \<open>Sum(nil)\<close>, so as functions of all the bytes
  written), \<open>encoding/hex\<close>, \<open>encoding/base64\<close> with an alphabet and a padding byte, and
  \<open>hash/crc32\<close> with the IEEE polynomial.
\<close>

subsection \<open>Words of a block\<close>

fun chunk :: "nat \<Rightarrow> nat \<Rightarrow> 'a list \<Rightarrow> 'a list list" where
  "chunk 0 k xs = []"
| "chunk (Suc n) k xs = take k xs # chunk n k (drop k xs)"

definition word_le :: "bytes \<Rightarrow> u32" where
  "word_le bs = of_nat (uint_be (rev bs))"

definition word_be :: "bytes \<Rightarrow> u32" where
  "word_be bs = of_nat (uint_be bs)"

definition md_pad :: "(u64 \<Rightarrow> bytes) \<Rightarrow> bytes \<Rightarrow> bytes" where
  "md_pad enc msg =
     msg @ [0x80] @ replicate ((119 - length msg mod 64) mod 64) 0 @ enc (of_nat (8 * length msg))"

definition md_blocks :: "bytes \<Rightarrow> bytes list" where
  "md_blocks padded = chunk (length padded div 64) 64 padded"

definition be64 :: "u64 \<Rightarrow> bytes" where
  "be64 w = rev (le64 w)"

subsection \<open>MD5\<close>

definition md5_K :: "u32 list" where
  "md5_K =
    [0xD76AA478, 0xE8C7B756, 0x242070DB, 0xC1BDCEEE, 0xF57C0FAF, 0x4787C62A, 0xA8304613, 0xFD469501,
     0x698098D8, 0x8B44F7AF, 0xFFFF5BB1, 0x895CD7BE, 0x6B901122, 0xFD987193, 0xA679438E, 0x49B40821,
     0xF61E2562, 0xC040B340, 0x265E5A51, 0xE9B6C7AA, 0xD62F105D, 0x02441453, 0xD8A1E681, 0xE7D3FBC8,
     0x21E1CDE6, 0xC33707D6, 0xF4D50D87, 0x455A14ED, 0xA9E3E905, 0xFCEFA3F8, 0x676F02D9, 0x8D2A4C8A,
     0xFFFA3942, 0x8771F681, 0x6D9D6122, 0xFDE5380C, 0xA4BEEA44, 0x4BDECFA9, 0xF6BB4B60, 0xBEBFBC70,
     0x289B7EC6, 0xEAA127FA, 0xD4EF3085, 0x04881D05, 0xD9D4D039, 0xE6DB99E5, 0x1FA27CF8, 0xC4AC5665,
     0xF4292244, 0x432AFF97, 0xAB9423A7, 0xFC93A039, 0x655B59C3, 0x8F0CCC92, 0xFFEFF47D, 0x85845DD1,
     0x6FA87E4F, 0xFE2CE6E0, 0xA3014314, 0x4E0811A1, 0xF7537E82, 0xBD3AF235, 0x2AD7D2BB, 0xEB86D391]"

definition md5_S :: "nat list" where
  "md5_S =
    [7, 12, 17, 22, 7, 12, 17, 22, 7, 12, 17, 22, 7, 12, 17, 22,
     5, 9, 14, 20, 5, 9, 14, 20, 5, 9, 14, 20, 5, 9, 14, 20,
     4, 11, 16, 23, 4, 11, 16, 23, 4, 11, 16, 23, 4, 11, 16, 23,
     6, 10, 15, 21, 6, 10, 15, 21, 6, 10, 15, 21, 6, 10, 15, 21]"

type_synonym md5_state = "u32 \<times> u32 \<times> u32 \<times> u32"

definition md5_step :: "u32 list \<Rightarrow> nat \<Rightarrow> md5_state \<Rightarrow> md5_state" where
  "md5_step M i st = (case st of (a, b, c, d) \<Rightarrow>
     let (f, g) =
       (if i < 16 then ((b AND c) OR (NOT b AND d), i)
        else if i < 32 then ((d AND b) OR (NOT d AND c), (5 * i + 1) mod 16)
        else if i < 48 then (b XOR c XOR d, (3 * i + 5) mod 16)
        else (c XOR (b OR NOT d), (7 * i) mod 16))
     in (d, b + word_rotl (md5_S ! i) (f + a + md5_K ! i + M ! g), b, c))"

definition md5_block :: "md5_state \<Rightarrow> bytes \<Rightarrow> md5_state" where
  "md5_block st blk = (case st of (a0, b0, c0, d0) \<Rightarrow>
     case fold (md5_step (map word_le (chunk 16 4 blk))) [0..<64] st of (a, b, c, d) \<Rightarrow>
       (a0 + a, b0 + b, c0 + c, d0 + d))"

definition md5_sum :: "bytes \<Rightarrow> bytes" where
  "md5_sum msg =
     (case foldl md5_block (0x67452301, 0xEFCDAB89, 0x98BADCFE, 0x10325476)
             (md_blocks (md_pad le64 msg)) of
        (a, b, c, d) \<Rightarrow> le32 a @ le32 b @ le32 c @ le32 d)"

lemma length_md5_sum [simp]: "length (md5_sum msg) = 16"
  by (simp add: md5_sum_def split: prod.splits)

subsection \<open>SHA-1\<close>

fun sha_extend :: "(u32 list \<Rightarrow> u32) \<Rightarrow> nat \<Rightarrow> u32 list \<Rightarrow> u32 list" where
  "sha_extend f 0 w = w"
| "sha_extend f (Suc n) w = sha_extend f n (w @ [f w])"

definition sha1_w :: "u32 list \<Rightarrow> u32" where
  "sha1_w w = (let n = length w in
     word_rotl 1 (w ! (n - 3) XOR w ! (n - 8) XOR w ! (n - 14) XOR w ! (n - 16)))"

type_synonym sha1_state = "u32 \<times> u32 \<times> u32 \<times> u32 \<times> u32"

definition sha1_step :: "u32 list \<Rightarrow> nat \<Rightarrow> sha1_state \<Rightarrow> sha1_state" where
  "sha1_step w i st = (case st of (a, b, c, d, e) \<Rightarrow>
     let (f, k) =
       (if i < 20 then ((b AND c) OR (NOT b AND d), 0x5A827999)
        else if i < 40 then (b XOR c XOR d, 0x6ED9EBA1)
        else if i < 60 then ((b AND c) OR (b AND d) OR (c AND d), 0x8F1BBCDC)
        else (b XOR c XOR d, 0xCA62C1D6))
     in (word_rotl 5 a + f + e + k + w ! i, a, word_rotl 30 b, c, d))"

definition sha1_block :: "sha1_state \<Rightarrow> bytes \<Rightarrow> sha1_state" where
  "sha1_block st blk = (case st of (a0, b0, c0, d0, e0) \<Rightarrow>
     case fold (sha1_step (sha_extend sha1_w 64 (map word_be (chunk 16 4 blk)))) [0..<80] st of
       (a, b, c, d, e) \<Rightarrow> (a0 + a, b0 + b, c0 + c, d0 + d, e0 + e))"

definition sha1_sum :: "bytes \<Rightarrow> bytes" where
  "sha1_sum msg =
     (case foldl sha1_block (0x67452301, 0xEFCDAB89, 0x98BADCFE, 0x10325476, 0xC3D2E1F0)
             (md_blocks (md_pad be64 msg)) of
        (a, b, c, d, e) \<Rightarrow> be32 a @ be32 b @ be32 c @ be32 d @ be32 e)"

lemma length_sha1_sum [simp]: "length (sha1_sum msg) = 20"
  by (simp add: sha1_sum_def split: prod.splits)

subsection \<open>SHA-256\<close>

definition sha256_K :: "u32 list" where
  "sha256_K =
    [0x428A2F98, 0x71374491, 0xB5C0FBCF, 0xE9B5DBA5, 0x3956C25B, 0x59F111F1, 0x923F82A4, 0xAB1C5ED5,
     0xD807AA98, 0x12835B01, 0x243185BE, 0x550C7DC3, 0x72BE5D74, 0x80DEB1FE, 0x9BDC06A7, 0xC19BF174,
     0xE49B69C1, 0xEFBE4786, 0x0FC19DC6, 0x240CA1CC, 0x2DE92C6F, 0x4A7484AA, 0x5CB0A9DC, 0x76F988DA,
     0x983E5152, 0xA831C66D, 0xB00327C8, 0xBF597FC7, 0xC6E00BF3, 0xD5A79147, 0x06CA6351, 0x14292967,
     0x27B70A85, 0x2E1B2138, 0x4D2C6DFC, 0x53380D13, 0x650A7354, 0x766A0ABB, 0x81C2C92E, 0x92722C85,
     0xA2BFE8A1, 0xA81A664B, 0xC24B8B70, 0xC76C51A3, 0xD192E819, 0xD6990624, 0xF40E3585, 0x106AA070,
     0x19A4C116, 0x1E376C08, 0x2748774C, 0x34B0BCB5, 0x391C0CB3, 0x4ED8AA4A, 0x5B9CCA4F, 0x682E6FF3,
     0x748F82EE, 0x78A5636F, 0x84C87814, 0x8CC70208, 0x90BEFFFA, 0xA4506CEB, 0xBEF9A3F7, 0xC67178F2]"

definition sha256_H :: "u32 list" where
  "sha256_H =
    [0x6A09E667, 0xBB67AE85, 0x3C6EF372, 0xA54FF53A, 0x510E527F, 0x9B05688C, 0x1F83D9AB, 0x5BE0CD19]"

definition sha256_w :: "u32 list \<Rightarrow> u32" where
  "sha256_w w =
     (let n = length w;
          w15 = w ! (n - 15);
          w2 = w ! (n - 2);
          s0 = word_rotr 7 w15 XOR word_rotr 18 w15 XOR drop_bit 3 w15;
          s1 = word_rotr 17 w2 XOR word_rotr 19 w2 XOR drop_bit 10 w2
      in w ! (n - 16) + s0 + w ! (n - 7) + s1)"

definition sha256_step :: "u32 list \<Rightarrow> nat \<Rightarrow> u32 list \<Rightarrow> u32 list" where
  "sha256_step w i v =
     (let a = v ! 0; b = v ! 1; c = v ! 2; d = v ! 3; e = v ! 4; f = v ! 5; g = v ! 6; h = v ! 7;
          s1 = word_rotr 6 e XOR word_rotr 11 e XOR word_rotr 25 e;
          ch = (e AND f) XOR (NOT e AND g);
          t1 = h + s1 + ch + sha256_K ! i + w ! i;
          s0 = word_rotr 2 a XOR word_rotr 13 a XOR word_rotr 22 a;
          maj = (a AND b) XOR (a AND c) XOR (b AND c)
      in [t1 + s0 + maj, a, b, c, d + t1, e, f, g])"

definition sha256_block :: "u32 list \<Rightarrow> bytes \<Rightarrow> u32 list" where
  "sha256_block st blk =
     map2 (+) st (fold (sha256_step (sha_extend sha256_w 48 (map word_be (chunk 16 4 blk)))) [0..<64] st)"

definition sha256_sum :: "bytes \<Rightarrow> bytes" where
  "sha256_sum msg = concat (map be32 (foldl sha256_block sha256_H (md_blocks (md_pad be64 msg))))"

subsection \<open>Hexadecimal\<close>

definition hex_digit :: "nat \<Rightarrow> char" where
  "hex_digit n = (if n < 10 then char_of (48 + n) else char_of (87 + n))"

definition hex_encode :: "bytes \<Rightarrow> string" where
  "hex_encode bs = concat (map (\<lambda>b. [hex_digit (unat b div 16), hex_digit (unat b mod 16)]) bs)"

definition hex_val :: "char \<Rightarrow> nat option" where
  "hex_val c = (let n = of_char c in
     if 48 \<le> n \<and> n \<le> (57::nat) then Some (n - 48)
     else if 97 \<le> n \<and> n \<le> 102 then Some (n - 87)
     else if 65 \<le> n \<and> n \<le> 70 then Some (n - 55)
     else None)"

fun hex_decode :: "string \<Rightarrow> bytes option" where
  "hex_decode [] = Some []"
| "hex_decode [_] = None"
| "hex_decode (a # b # cs) =
     (case (hex_val a, hex_val b, hex_decode cs) of
        (Some x, Some y, Some r) \<Rightarrow> Some (of_nat (16 * x + y) # r)
      | _ \<Rightarrow> None)"

subsection \<open>CRC-32\<close>

definition crc32_bit :: "u32 \<Rightarrow> u32" where
  "crc32_bit c = (if bit c 0 then drop_bit 1 c XOR 0xEDB88320 else drop_bit 1 c)"

definition crc32_byte :: "u32 \<Rightarrow> u8 \<Rightarrow> u32" where
  "crc32_byte c b = (crc32_bit ^^ 8) (c XOR ucast b)"

definition crc32_ieee :: "bytes \<Rightarrow> u32" where
  "crc32_ieee bs = NOT (foldl crc32_byte (NOT 0) bs)"

end
