(* ===== verification/FriendCode.thy ===== *)
theory FriendCode
  imports GoCrypto
begin

text \<open>
  \<open>common/friend_code.go\<close>: the friend code of a profile on a game, a CRC-8 or MD5 check field above
  the 32 bits of the profile identifier, and its printed form. \<open>gameId[i]\<close> panics on a short
  identifier, so the calculation is an outcome.
\<close>

subsection \<open>CRC-8\<close>

definition crc8_bit :: "u8 \<Rightarrow> u8" where
  "crc8_bit crc = (if bit crc 7 then push_bit 1 crc XOR 0x07 else push_bit 1 crc)"

definition crc8_byte :: "u8 \<Rightarrow> u8" where
  "crc8_byte c = (crc8_bit ^^ 8) c"

definition crc8Table :: "u8 list" where
  "crc8Table = map (\<lambda>i. crc8_byte (of_nat i)) [0..<256]"

definition crc8 :: "bytes \<Rightarrow> u8" where
  "crc8 data = foldl (\<lambda>crc b. crc8Table ! unat (crc XOR b)) 0 data"

lemma crc8Table_nth: "crc8Table ! unat x = crc8_byte x"
  using unsigned_less [of x, where ?'a = nat] by (simp add: crc8Table_def)

lemma bit_shl1: "bit (push_bit 1 (a :: u8)) n \<longleftrightarrow> n < 8 \<and> n \<noteq> 0 \<and> bit a (n - 1)"
  unfolding bit_push_bit_iff by (auto dest: bit_imp_le_length)

lemma bit_7: "bit (0x07 :: u8) n \<longleftrightarrow> n < 3"
proof -
  have "(0x07 :: u8) = mask 3" by (simp add: mask_eq_exp_minus_1)
  then show ?thesis by (simp only: bit_mask_iff) auto
qed

lemma crc8_bit_xor: "crc8_bit (a XOR b) = crc8_bit a XOR crc8_bit b"
  unfolding crc8_bit_def bit_xor_iff push_bit_xor by (auto simp: ac_simps)

lemma crc8_bit_low: "bit (crc8_bit a) 0 = bit a 7"
  unfolding crc8_bit_def by (simp add: bit_xor_iff bit_shl1 bit_7 del: One_nat_def push_bit_Suc)

lemma crc8_bit_eq_0:
  assumes "crc8_bit a = 0"
  shows "a = 0"
proof -
  have top: "\<not> bit a 7" using assms crc8_bit_low [of a] by simp
  with assms have z: "push_bit 1 a = 0" unfolding crc8_bit_def by (simp split: if_splits)
  have low: "\<not> bit a n" if "n < 7" for n
    using that bit_shl1 [of a "Suc n"] unfolding z by simp
  show ?thesis
  proof (rule bit_word_eqI)
    fix n assume "n < LENGTH(8)"
    then show "bit a n = bit 0 n" using top low by (cases "n = 7") auto
  qed
qed

lemma crc8_bit_pow_xor: "(crc8_bit ^^ n) (a XOR b) = (crc8_bit ^^ n) a XOR (crc8_bit ^^ n) b"
  by (induction n) (simp_all add: crc8_bit_xor)

lemma crc8_bit_pow_eq_0: "(crc8_bit ^^ n) a = 0 \<Longrightarrow> a = 0"
  by (induction n) (auto dest: crc8_bit_eq_0)

lemma crc8_bit_0 [simp]: "crc8_bit 0 = 0"
  by (simp add: crc8_bit_def)

lemma crc8_bit_pow_0: "(crc8_bit ^^ n) 0 = 0"
  by (induction n) simp_all

lemma crc8_byte_0 [simp]: "crc8_byte 0 = 0"
  unfolding crc8_byte_def by (fact crc8_bit_pow_0)

lemma xor_cancel_right: "(c :: u8) XOR b = d XOR b \<Longrightarrow> c = d"
  by (drule arg_cong [of _ _ "\<lambda>x. x XOR b"]) (simp add: xor.assoc)

lemma crc8_byte_inj:
  assumes "crc8_byte a = crc8_byte b"
  shows "a = b"
proof -
  have "crc8_byte (a XOR b) = crc8_byte a XOR crc8_byte b"
    unfolding crc8_byte_def by (rule crc8_bit_pow_xor)
  then have "crc8_byte (a XOR b) = 0" unfolding assms xor_self_eq .
  then have "(crc8_bit ^^ 8) (a XOR b) = 0" unfolding crc8_byte_def .
  then have "a XOR b = 0" by (rule crc8_bit_pow_eq_0)
  then show ?thesis using xor_cancel_right [of a b b] by simp
qed

lemma crc8_foldl: "crc8 data = foldl (\<lambda>crc b. crc8_byte (crc XOR b)) 0 data"
  by (simp add: crc8_def crc8Table_nth)

lemma crc8_foldl_inj:
  "foldl (\<lambda>crc b. crc8_byte (crc XOR b)) c data = foldl (\<lambda>crc b. crc8_byte (crc XOR b)) d data
    \<Longrightarrow> c = d"
  by (induction data arbitrary: c d) (auto dest!: crc8_byte_inj xor_cancel_right)

lemma crc8_append_self: "crc8 (data @ [crc8 data]) = 0"
  by (simp add: crc8_foldl)

lemma crc8_detects_byte_change:
  assumes "crc8 (xs @ a # ys) = crc8 (xs @ b # ys)"
  shows "a = b"
proof -
  let ?c = "crc8 xs"
  have "crc8_byte (?c XOR a) = crc8_byte (?c XOR b)"
    using assms crc8_foldl_inj by (simp add: crc8_foldl)
  then have "a XOR ?c = b XOR ?c" by (metis crc8_byte_inj xor.commute)
  then show ?thesis by (rule xor_cancel_right)
qed

subsection \<open>The friend code\<close>

datatype crc_type = fcCRC8 | fcMD5

definition getCRCType :: "string \<Rightarrow> (unit, crc_type \<times> bool) outcome" where
  "getCRCType gameId =
     (if has_prefix gameId ''RSB'' \<or> has_prefix gameId ''RPB'' then Ret (fcCRC8, False)
      else if has_prefix gameId ''HDM'' \<or> has_prefix gameId ''WDM'' then Ret (fcCRC8, True)
      else bind_outcome (at gameId 0) (\<lambda>c.
        if c \<in> set ''RSHWXY'' then Ret (fcMD5, False) else Ret (fcCRC8, False)))"

definition fc_buffer :: "u32 \<Rightarrow> string \<Rightarrow> bytes" where
  "fc_buffer pid gameId = le32 pid @ rev (bytes_of (take 4 gameId))"

definition CalcFriendCode :: "u32 \<Rightarrow> string \<Rightarrow> (unit, u64) outcome" where
  "CalcFriendCode pid gameId =
     (if pid = 0 then Ret 0
      else if length gameId < 4 then Panic
      else bind_outcome (getCRCType gameId) (\<lambda>(crc, _).
        if crc = fcCRC8
        then Ret (ucast pid OR push_bit 32 (ucast (crc8 (fc_buffer pid gameId) AND 0x7F)))
        else Ret (ucast pid OR push_bit 31 (ucast (md5_sum (fc_buffer pid gameId) ! 0 AND 0xFE)))))"

text \<open>\<open>fmt.Sprintf("%012d", max(min(fc, 999999999999), 0))\<close>, reversed for the titles that print
  the code backwards, in groups of four.\<close>

definition pad_left :: "nat \<Rightarrow> char \<Rightarrow> string \<Rightarrow> string" where
  "pad_left n c s = replicate (n - length s) c @ s"

definition GetRawFriendCodeString :: "u64 \<Rightarrow> bool \<Rightarrow> string" where
  "GetRawFriendCodeString fc reverse =
     (let s0 = pad_left 12 CHR ''0'' (format_uint (max (min (unat fc) 999999999999) 0));
          s = (if reverse then rev (take 12 s0) else s0);
          n = length s
      in subslice (n - 12) (n - 8) s @ ''-'' @ subslice (n - 8) (n - 4) s @ ''-'' @ drop (n - 4) s)"

definition CalcFriendCodeString :: "u32 \<Rightarrow> string \<Rightarrow> (unit, string) outcome" where
  "CalcFriendCodeString pid gameId =
     bind_outcome (getCRCType gameId) (\<lambda>(_, reverse).
       bind_outcome (CalcFriendCode pid gameId) (\<lambda>fc. Ret (GetRawFriendCodeString fc reverse)))"

subsection \<open>The code carries the profile identifier\<close>

lemma unat_and_le: "unat ((x :: u8) AND m) \<le> unat m"
  by (simp add: word_le_nat_alt [symmetric] word_and_le1)

lemma unat_ucast_up: "unat (ucast (a :: 'a::len word) :: u64) = unat a mod 2 ^ 64"
  by (simp add: unsigned_ucast_eq take_bit_eq_mod)

lemma fc_small:
  assumes "unat (hi :: u64) < 128"
  shows "unat ((ucast (pid :: u32) :: u64) OR push_bit 32 hi) = unat pid + 2 ^ 32 * unat hi"
proof -
  have p: "unat pid < 2 ^ 32" using unsigned_less [of pid, where ?'a = nat] by simp
  have u: "unat (ucast pid :: u64) = unat pid"
    using p by (simp add: unat_ucast_up)
  have h: "unat (push_bit 32 hi) = 2 ^ 32 * unat hi"
    using assms by (simp add: push_bit_eq_mult unat_word_ariths)
  have disj: "(ucast pid :: u64) AND push_bit 32 hi = 0"
    by (rule bit_word_eqI) (auto simp: bit_and_iff bit_ucast_iff bit_push_bit_iff dest: bit_imp_le_length)
  then have "(ucast pid :: u64) OR push_bit 32 hi = ucast pid + push_bit 32 hi"
    by (simp add: disjunctive_add_eq_or)
  moreover have "unat ((ucast pid :: u64) + push_bit 32 hi) = unat pid + 2 ^ 32 * unat hi"
    unfolding unat_word_ariths using p assms u h by simp
  ultimately show ?thesis by simp
qed

lemma and_FE: "(d :: u8) AND 0xFE = push_bit 1 (drop_bit 1 d)"
proof -
  have "(0xFE :: u8) = NOT 1" by simp
  then have "d AND 0xFE = d AND NOT 1" by (simp only:)
  also have "\<dots> = push_bit 1 (drop_bit 1 d)"
  proof (rule bit_word_eqI)
    fix n assume "n < LENGTH(8)"
    then show "bit (d AND NOT 1) n = bit (push_bit 1 (drop_bit 1 d)) n"
      unfolding bit_shl1 by (auto simp: bit_and_iff bit_not_iff bit_1_iff bit_drop_bit_eq)
  qed
  finally show ?thesis .
qed

lemma md5_field: "push_bit 31 (ucast ((d :: u8) AND 0xFE) :: u64) = push_bit 32 (ucast (drop_bit 1 d))"
  unfolding and_FE
proof (rule bit_word_eqI)
  fix n assume n: "n < LENGTH(64)"
  have "n = 31 \<or> n < 31 \<or> n - 31 - 1 = n - 32 \<and> 32 \<le> n" by arith
  with n show "bit (push_bit 31 (ucast (push_bit 1 (drop_bit 1 d)) :: u64)) n
      = bit (push_bit 32 (ucast (drop_bit 1 d) :: u64)) n"
    unfolding bit_push_bit_iff [of 31] bit_push_bit_iff [of 32] bit_ucast_iff bit_shl1
    by (auto simp: bit_drop_bit_eq dest: bit_imp_le_length)
qed

lemma drop_bit_1_small: "unat (ucast (drop_bit 1 (d :: u8)) :: u64) < 128"
proof -
  have "unat d < 256" using unsigned_less [of d, where ?'a = nat] by simp
  then have "unat d div 2 < 128" by simp
  moreover have "unat (drop_bit 1 d) = unat d div 2" using unat_drop_div [of 1 d] by simp
  ultimately show ?thesis unfolding unat_ucast_up by simp
qed

lemma crc8_field_small: "unat (ucast ((c :: u8) AND 0x7F) :: u64) < 128"
proof -
  have "unat (c AND 0x7F) \<le> 127" using unat_and_le [of c "0x7F"] by simp
  then show ?thesis unfolding unat_ucast_up by simp
qed

lemma CalcFriendCode_shape:
  assumes "CalcFriendCode pid gameId = Ret fc"
  shows "\<exists>hi. unat hi < 128 \<and> fc = ucast pid OR push_bit 32 hi"
proof (cases "pid = 0")
  case True
  then have "fc = 0" using assms by (simp add: CalcFriendCode_def)
  then show ?thesis using True by (intro exI [of _ 0]) simp
next
  case False
  then show ?thesis
    using assms crc8_field_small drop_bit_1_small
    by (auto simp: CalcFriendCode_def md5_field split: if_splits prod.splits)
qed

lemma CalcFriendCode_value:
  assumes "CalcFriendCode pid gameId = Ret fc"
  shows "unat fc mod 2 ^ 32 = unat pid" and "unat fc < 2 ^ 39"
proof -
  obtain hi where hi: "unat hi < 128" "fc = ucast pid OR push_bit 32 hi"
    using CalcFriendCode_shape [OF assms] by auto
  have u: "unat fc = unat pid + 2 ^ 32 * unat hi" using fc_small [OF hi(1)] hi(2) by simp
  have p: "unat pid < 2 ^ 32" using unsigned_less [of pid, where ?'a = nat] by simp
  show "unat fc mod 2 ^ 32 = unat pid" using u p by simp
  show "unat fc < 2 ^ 39" using u p hi(1) by simp
qed

subsection \<open>The printed form can be read back\<close>

lemma length_format_uint: "n < 10 ^ Suc k \<Longrightarrow> length (format_uint n) \<le> Suc k"
proof (induction k arbitrary: n)
  case 0
  then show ?case by (subst format_uint.simps) simp
next
  case (Suc k)
  then have "n div 10 < 10 ^ Suc k" by (simp add: less_mult_imp_div_less)
  from Suc.IH [OF this] show ?case by (subst format_uint.simps) simp
qed

lemma parse_dec_zeros: "parse_dec 0 (replicate n CHR ''0'' @ s) = parse_dec 0 s"
  by (induction n) (simp_all add: digit_val_def)

definition digits_of :: "string \<Rightarrow> string" where
  "digits_of s = filter (\<lambda>c. c \<noteq> CHR ''-'') s"

definition read_friend_code :: "bool \<Rightarrow> string \<Rightarrow> nat option" where
  "read_friend_code reverse s =
     parse_dec 0 (if reverse then rev (digits_of s) else digits_of s)"

lemma digits_no_dash: "digit_val c \<noteq> None \<Longrightarrow> c \<noteq> CHR ''-''"
  by (auto simp: digit_val_def Let_def)

lemma grouped:
  fixes s :: string
  assumes len: "length s = 12" and dig: "\<forall>c \<in> set s. digit_val c \<noteq> None"
  defines "g \<equiv> take 4 s @ ''-'' @ subslice 4 8 s @ ''-'' @ drop 8 s"
  shows "digits_of g = s" and "length g = 14" and "g ! 4 = CHR ''-''" and "g ! 9 = CHR ''-''"
proof -
  have f: "filter (\<lambda>c. c \<noteq> CHR ''-'') t = t" if "set t \<subseteq> set s" for t
    using that dig digits_no_dash by (intro filter_True) blast
  have sub: "set (take 4 s) \<subseteq> set s" "set (subslice 4 8 s) \<subseteq> set s" "set (drop 8 s) \<subseteq> set s"
    by (auto simp: subslice_def dest: in_set_takeD in_set_dropD)
  have "take 8 s = take 4 s @ subslice 4 8 s"
    using take_add [of 4 4 s] by (simp add: subslice_def)
  then have "take 4 s @ subslice 4 8 s @ drop 8 s = s"
    using append_take_drop_id [of 8 s] by simp
  then show "digits_of g = s" by (simp add: g_def digits_of_def f [OF sub(1)] f [OF sub(2)] f [OF sub(3)])
  show "length g = 14" "g ! 4 = CHR ''-''" "g ! 9 = CHR ''-''"
    using len by (simp_all add: g_def nth_append length_subslice)
qed

lemma padded_code:
  assumes "unat fc < 2 ^ 39"
  defines "s \<equiv> pad_left 12 CHR ''0'' (format_uint (max (min (unat fc) 999999999999) 0))"
  shows "length s = 12" and "\<forall>c \<in> set s. digit_val c \<noteq> None" and "parse_dec 0 s = Some (unat fc)"
proof -
  have m: "max (min (unat fc) 999999999999) 0 = unat fc" using assms(1) by simp
  have "unat fc < 10 ^ Suc 11" using assms(1) by simp
  then have "length (format_uint (unat fc)) \<le> 12" using length_format_uint by fastforce
  then show "length s = 12" unfolding s_def m by (simp add: pad_left_def)
  show "\<forall>c \<in> set s. digit_val c \<noteq> None"
    using format_uint_digits [of "unat fc"] unfolding s_def m
    by (auto simp: pad_left_def digit_val_def)
  show "parse_dec 0 s = Some (unat fc)"
    unfolding s_def m by (simp add: pad_left_def parse_dec_zeros)
qed

lemma raw_friend_code_readable:
  fixes reverse :: bool
  assumes "unat fc < 2 ^ 39"
  defines "s \<equiv> GetRawFriendCodeString fc reverse"
  shows "read_friend_code reverse s = Some (unat fc)"
    and "length s = 14 \<and> s ! 4 = CHR ''-'' \<and> s ! 9 = CHR ''-''"
proof -
  let ?p = "pad_left 12 CHR ''0'' (format_uint (max (min (unat fc) 999999999999) 0))"
  let ?r = "if reverse then rev (take 12 ?p) else ?p"
  note p = padded_code [OF assms(1)]
  have r: "length ?r = 12" "\<forall>c \<in> set ?r. digit_val c \<noteq> None"
    using p by auto
  have s: "s = take 4 ?r @ ''-'' @ subslice 4 8 ?r @ ''-'' @ drop 8 ?r"
    unfolding s_def GetRawFriendCodeString_def Let_def r(1) by (simp add: subslice_def)
  have "(if reverse then rev ?r else ?r) = ?p" using p(1) by simp
  then show "read_friend_code reverse s = Some (unat fc)"
    unfolding read_friend_code_def s grouped(1) [OF r] using p(3) by (simp only:)
  show "length s = 14 \<and> s ! 4 = CHR ''-'' \<and> s ! 9 = CHR ''-''"
    using grouped(2-4) [OF r] unfolding s by blast
qed

subsection \<open>Properties\<close>

text \<open>Every friend code printed for a profile is fourteen characters in three groups separated by
  dashes; reading its digits back (from the right on the titles that print them reversed) gives a
  number below two to the 39, whose low 32 bits are the profile identifier. The clamp to
  999999999999 in the printer never applies.\<close>

theorem friend_code_carries_profile:
  assumes "CalcFriendCodeString pid gameId = Ret s"
  shows "\<exists>crc reverse n. getCRCType gameId = Ret (crc, reverse) \<and>
    read_friend_code reverse s = Some n \<and> n < 2 ^ 39 \<and> n mod 2 ^ 32 = unat pid \<and>
    length s = 14 \<and> s ! 4 = CHR ''-'' \<and> s ! 9 = CHR ''-''"
proof -
  obtain crc reverse fc where g: "getCRCType gameId = Ret (crc, reverse)"
    and fc: "CalcFriendCode pid gameId = Ret fc" and s: "s = GetRawFriendCodeString fc reverse"
    using assms by (auto simp: CalcFriendCodeString_def)
  note v = CalcFriendCode_value [OF fc]
  show ?thesis using g v raw_friend_code_readable [OF v(2), of reverse] unfolding s by blast
qed

lemma crc8_byte_unfold:
  "crc8_byte c = crc8_bit (crc8_bit (crc8_bit (crc8_bit (crc8_bit (crc8_bit (crc8_bit (crc8_bit c)))))))"
  by (simp add: crc8_byte_def numeral_eq_Suc)

lemma sample_friend_code: "CalcFriendCodeString 1 ''RSBE'' = Ret ''1202-5908-4289''"
proof -
  have b: "fc_buffer 1 ''RSBE'' = [1, 0, 0, 0, 69, 66, 83, 82]"
    by (simp add: fc_buffer_def le32_def be32_def bytes_of_def)
  have steps: "crc8_byte 1 = 7" "crc8_byte 4 = 28" "crc8_byte 7 = 21" "crc8_byte 21 = 107" "crc8_byte 83 = 190" "crc8_byte 107 = 22" "crc8_byte 169 = 86" "crc8_byte 252 = 250"
    by (simp_all add: crc8_byte_unfold crc8_bit_def)
  have "crc8 [1, 0, 0, 0, 69, 66, 83, 82] AND 0x7F = 28"
    by (simp add: crc8_foldl steps)
  then have fc: "CalcFriendCode 1 ''RSBE'' = Ret 120259084289"
    by (simp add: CalcFriendCode_def getCRCType_def has_prefix_def b)
  have "format_uint 120259084289 = ''120259084289''"
    by (simp add: format_uint.simps digit_chars)
  then have "pad_left 12 CHR ''0'' (format_uint (max (min (unat (120259084289 :: u64)) 999999999999) 0)) = ''120259084289''"
    by (simp add: pad_left_def)
  then have "GetRawFriendCodeString 120259084289 False = ''1202-5908-4289''"
    by (simp add: GetRawFriendCodeString_def subslice_def)
  moreover have "getCRCType ''RSBE'' = Ret (fcCRC8, False)"
    by (simp add: getCRCType_def has_prefix_def)
  ultimately show ?thesis using fc by (simp add: CalcFriendCodeString_def)
qed

theorem friend_code_carries_profile_witness:
  "\<exists>crc reverse n. getCRCType ''RSBE'' = Ret (crc, reverse) \<and>
    read_friend_code reverse ''1202-5908-4289'' = Some n \<and> n < 2 ^ 39 \<and>
    n mod 2 ^ 32 = unat (1 :: u32) \<and> length ''1202-5908-4289'' = 14 \<and>
    ''1202-5908-4289'' ! 4 = CHR ''-'' \<and> ''1202-5908-4289'' ! 9 = CHR ''-''"
  by (rule friend_code_carries_profile [OF sample_friend_code])

text \<open>The CRC-8 of a buffer followed by its own CRC-8 is zero, and changing any single byte of a
  buffer changes its CRC-8: the check field of a friend code catches every error confined to one
  byte of the identifier or the game code.\<close>

theorem crc8_checks:
  "crc8 (data @ [crc8 data]) = 0 \<and> (crc8 (xs @ a # ys) = crc8 (xs @ b # ys)) = (a = b)"
  using crc8_append_self crc8_detects_byte_change by blast

end
