(* ===== verification/Mii.thy ===== *)
theory Mii
  imports GoNumbers
begin

text \<open>
  \<open>common/mii.go\<close>: the 76 bytes of a Mii, their CRC-16, and \<open>ClearMiiInfo\<close>, which removes what
  identifies the Mii's creator before the data is handed to other players. The in-place updates
  of the code are list updates; \<open>mii_layout\<close> is the reference layout they are proved equal to.
\<close>

record raw_mii =
  Data :: bytes

definition mii_ok :: "raw_mii \<Rightarrow> bool" where
  "mii_ok m \<longleftrightarrow> length (Data m) = 0x4C"

definition RawMiiFromBytes :: "bytes \<Rightarrow> (unit, raw_mii) outcome" where
  "RawMiiFromBytes b = (if length b < 0x4C then Panic else Ret \<lparr>Data = take 0x4C b\<rparr>)"

subsection \<open>The CRC\<close>

definition mii_shift :: "u16 \<Rightarrow> u16" where
  "mii_shift crc = (if bit crc 15 then push_bit 1 crc XOR 0x1021 else push_bit 1 crc)"

definition mii_bit :: "u16 \<times> u8 \<Rightarrow> u16 \<times> u8" where
  "mii_bit = (\<lambda>(crc, val).
     (if bit val 7 then mii_shift crc XOR 0x1 else mii_shift crc, push_bit 1 val))"

definition mii_byte :: "u16 \<Rightarrow> u8 \<Rightarrow> u16" where
  "mii_byte crc val = fst ((mii_bit ^^ 8) (crc, val))"

definition CalculateMiiCRC :: "raw_mii \<Rightarrow> u16" where
  "CalculateMiiCRC m = foldl mii_byte 0 (Data m)"

lemma bit_shl1_16: "bit (push_bit 1 (a :: u16)) n \<longleftrightarrow> n < 16 \<and> n \<noteq> 0 \<and> bit a (n - 1)"
  unfolding bit_push_bit_iff by (auto dest: bit_imp_le_length)

lemma mii_shift_xor: "mii_shift (a XOR b) = mii_shift a XOR mii_shift b"
  unfolding mii_shift_def bit_xor_iff push_bit_xor by (auto simp: ac_simps)

lemma mii_shift_pow_xor: "(mii_shift ^^ n) (a XOR b) = (mii_shift ^^ n) a XOR (mii_shift ^^ n) b"
  by (induction n) (simp_all add: mii_shift_xor)

lemma mii_shift_small: "\<not> bit a 15 \<Longrightarrow> mii_shift a = push_bit 1 a"
  by (simp add: mii_shift_def)

lemma ucast_shift_step:
  assumes "k < 8"
  shows "push_bit 1 (ucast (drop_bit (8 - k) (v :: u8)) :: u16) XOR (if bit v (7 - k) then 1 else 0)
    = ucast (drop_bit (8 - Suc k) v)"
proof (rule bit_word_eqI)
  fix n assume n: "n < LENGTH(16)"
  have e: "8 - k = Suc (7 - k)" "8 - Suc k = 7 - k" using assms by simp_all
  show "bit (push_bit 1 (ucast (drop_bit (8 - k) v) :: u16) XOR (if bit v (7 - k) then 1 else 0)) n
    = bit (ucast (drop_bit (8 - Suc k) v) :: u16) n"
    using n unfolding e bit_xor_iff bit_shl1_16 bit_ucast_iff bit_drop_bit_eq
    by (cases n) (auto simp: bit_1_iff)
qed

lemma mii_bit_pow:
  "k \<le> 8 \<Longrightarrow> (mii_bit ^^ k) (crc, v)
     = ((mii_shift ^^ k) crc XOR ucast (drop_bit (8 - k) v), push_bit k v)"
proof (induction k)
  case 0
  have "drop_bit 8 v = 0" by (rule bit_word_eqI) (auto simp: bit_drop_bit_eq dest: bit_imp_le_length)
  then show ?case by simp
next
  case (Suc k)
  then have k: "k < 8" by simp
  let ?u = "ucast (drop_bit (8 - k) v) :: u16"
  have "\<not> bit ?u 15" by (auto simp: bit_ucast_iff bit_drop_bit_eq dest: bit_imp_le_length)
  then have u: "mii_shift ?u = push_bit 1 ?u" by (rule mii_shift_small)
  have b: "bit (push_bit k v) 7 = bit v (7 - k)" using k by (simp add: bit_push_bit_iff)
  have p: "push_bit 1 (push_bit k v) = push_bit (Suc k) v" by (simp only: push_bit_push_bit) simp
  have "(mii_bit ^^ Suc k) (crc, v) = mii_bit ((mii_bit ^^ k) (crc, v))"
    by (simp only: funpow.simps comp_apply)
  also have "\<dots> = mii_bit ((mii_shift ^^ k) crc XOR ?u, push_bit k v)"
    using Suc.IH k by simp
  also have "\<dots> = (mii_shift ((mii_shift ^^ k) crc) XOR (push_bit 1 ?u XOR (if bit v (7 - k) then 1 else 0)),
                   push_bit (Suc k) v)"
    unfolding mii_bit_def prod.case b p mii_shift_xor u by (simp add: xor.assoc)
  finally show ?case unfolding ucast_shift_step [OF k] by simp
qed

lemma mii_byte_eq: "mii_byte crc v = (mii_shift ^^ 8) crc XOR ucast v"
  unfolding mii_byte_def mii_bit_pow [OF order_refl] by simp

lemma mii_shift_pow_byte: "k \<le> 8 \<Longrightarrow> (mii_shift ^^ k) (ucast (h :: u8)) = push_bit k (ucast h)"
proof (induction k)
  case (Suc k)
  have "\<not> bit (push_bit k (ucast h) :: u16) 15"
    using Suc.prems by (auto simp: bit_push_bit_iff bit_ucast_iff dest: bit_imp_le_length)
  then have "mii_shift (push_bit k (ucast h)) = push_bit 1 (push_bit k (ucast h))"
    by (rule mii_shift_small)
  moreover have "push_bit 1 (push_bit k (ucast h) :: u16) = push_bit (Suc k) (ucast h)"
    by (simp only: push_bit_push_bit) simp
  ultimately show ?case
    using Suc.IH Suc.prems by (simp only: funpow.simps comp_apply Suc_leD)
qed simp

lemma bytes_of_u16: "push_bit 8 (ucast (ucast (drop_bit 8 (c :: u16)) :: u8)) XOR ucast (ucast c :: u8) = c"
proof (rule bit_word_eqI)
  fix n assume "n < LENGTH(16)"
  then show "bit (push_bit 8 (ucast (ucast (drop_bit 8 c) :: u8)) XOR ucast (ucast c :: u8) :: u16) n = bit c n"
    unfolding bit_xor_iff bit_push_bit_iff bit_ucast_iff bit_drop_bit_eq
    by (cases "n < 8") auto
qed

lemma mii_crc_residue:
  assumes "c = foldl mii_byte 0 (p @ [0, 0])"
  shows "foldl mii_byte 0 (p @ be16 c) = 0"
proof -
  define r where "r = foldl mii_byte 0 p"
  have "mii_byte (mii_byte r (ucast (drop_bit 8 c))) (ucast c)
    = (mii_shift ^^ 8) ((mii_shift ^^ 8) r) XOR
      (push_bit 8 (ucast (ucast (drop_bit 8 c) :: u8)) XOR ucast (ucast c :: u8))"
    unfolding mii_byte_eq mii_shift_pow_xor mii_shift_pow_byte [OF order_refl] xor.assoc ..
  also have "\<dots> = mii_byte (mii_byte r 0) 0 XOR c"
    unfolding bytes_of_u16 mii_byte_eq by simp
  also have "\<dots> = 0" using assms by (simp add: r_def)
  finally show ?thesis by (simp add: r_def be16_def)
qed


subsection \<open>Clearing the private data\<close>

definition officialMiiList :: "u64 list" where
  "officialMiiList =
     [0x80000000ECFF82D2, 0x80000001ECFF82D2, 0x80000002ECFF82D2,
      0x80000003ECFF82D2, 0x80000004ECFF82D2, 0x80000005ECFF82D2]"

fun search_id :: "nat \<Rightarrow> u64 list \<Rightarrow> u64 \<Rightarrow> bool \<times> int" where
  "search_id i [] miiId = (False, - 1)"
| "search_id i (v # vs) miiId = (if v = miiId then (True, int i) else search_id (Suc i) vs miiId)"

definition SearchOfficialMiiData :: "u64 \<Rightarrow> bool \<times> int" where
  "SearchOfficialMiiData miiId = search_id 0 officialMiiList miiId"

definition mii_id :: "bytes \<Rightarrow> u64" where
  "mii_id d = of_nat (uint_be (subslice 0x18 0x20 d))"

definition is_official :: "raw_mii \<Rightarrow> bool" where
  "is_official m \<longleftrightarrow> fst (SearchOfficialMiiData (mii_id (Data m)))"

text \<open>The loop over the ten UTF-16 units of the name, from unit offset \<open>i\<close> with \<open>k\<close> units left.\<close>

fun clear_name :: "nat \<Rightarrow> nat \<Rightarrow> bool \<Rightarrow> bytes \<Rightarrow> bytes" where
  "clear_name 0 i hit d = d"
| "clear_name (Suc k) i hit d =
     (if hit then clear_name k (i + 2) hit (d[2 + i := 0, 2 + i + 1 := 0])
      else if d ! (2 + i) = 0 \<and> d ! (2 + i + 1) = 0 then clear_name k (i + 2) True d
      else clear_name k (i + 2) hit d)"

definition clear_private :: "bytes \<Rightarrow> bytes" where
  "clear_private d0 =
     (let d1 = copy_at 0x18 (be32 0x80000000) d0;
          d2 = copy_at 0x1C (be32 0) d1;
          d3 = clear_name 10 0 False d2;
          d4 = foldl (\<lambda>d i. d[0x36 + i := 0]) d3 [0..<20];
          d5 = d4[0 := d4 ! 0 AND NOT 0x3F];
          d6 = d5[1 := d5 ! 1 AND NOT 0xE0];
          d7 = d6[0x4A := 0]
      in d7[0x4B := 0])"

definition ClearMiiInfo :: "raw_mii \<Rightarrow> raw_mii" where
  "ClearMiiInfo m =
     (if fst (SearchOfficialMiiData (mii_id (Data m))) then m
      else let d = clear_private (Data m);
               crc = CalculateMiiCRC (m\<lparr>Data := d\<rparr>);
               d' = d[0x4A := ucast (drop_bit 8 crc)]
           in m\<lparr>Data := d'[0x4B := ucast (crc AND 0xFF)]\<rparr>)"

subsection \<open>The reference layout\<close>

fun visible_name :: "bytes \<Rightarrow> bytes" where
  "visible_name (a # b # r) =
     a # b # (if a = 0 \<and> b = 0 then replicate (length r) 0 else visible_name r)"
| "visible_name r = r"

text \<open>The bytes a sanitised Mii keeps, and the sanitised Mii built from them.\<close>

record mii_view =
  head0 :: u8
  head1 :: u8
  shown_name :: bytes
  build :: bytes
  face :: bytes

definition public_view :: "raw_mii \<Rightarrow> mii_view" where
  "public_view m =
     \<lparr>head0 = Data m ! 0 AND NOT 0x3F, head1 = Data m ! 1 AND NOT 0xE0,
      shown_name = visible_name (subslice 2 22 (Data m)),
      build = subslice 22 24 (Data m), face = subslice 0x20 0x36 (Data m)\<rparr>"

definition mii_body :: "mii_view \<Rightarrow> bytes" where
  "mii_body v =
     [head0 v, head1 v] @ shown_name v @ build v @ be32 0x80000000 @ be32 0 @ face v @ replicate 20 0"

definition mii_layout :: "mii_view \<Rightarrow> raw_mii" where
  "mii_layout v = \<lparr>Data = mii_body v @ be16 (foldl mii_byte 0 (mii_body v @ [0, 0]))\<rparr>"

lemma length_visible_name [simp]: "length (visible_name n) = length n"
  by (induction n rule: visible_name.induct) auto

lemma visible_name_replicate [simp]: "visible_name (replicate n 0) = replicate n 0"
proof -
  have "set xs \<subseteq> {0} \<Longrightarrow> visible_name xs = xs" for xs
    by (induction xs rule: visible_name.induct) (auto intro: replicate_eqI [symmetric])
  then show ?thesis by (metis set_replicate_conv_if empty_subsetI order_refl)
qed

lemma visible_name_idem [simp]: "visible_name (visible_name n) = visible_name n"
  by (induction n rule: visible_name.induct) simp_all

lemma two_updates:
  "length p = i \<Longrightarrow> (p @ a # b # s)[i := x, i + 1 := y] = p @ x # y # s"
  by (simp add: list_update_append)

lemma clear_name_hit:
  "length n = 2 * k \<Longrightarrow> length p = 2 + i \<Longrightarrow>
     clear_name k i True (p @ n @ s) = p @ replicate (2 * k) 0 @ s"
proof (induction k arbitrary: i p n)
  case (Suc k)
  then obtain a b r where n: "n = a # b # r" by (cases n rule: remdups_adj.cases) simp_all
  have "(p @ n @ s)[2 + i := 0, 2 + i + 1 := 0] = (p @ [0, 0]) @ r @ s"
    using two_updates [of p "2 + i" a b "r @ s" 0 0] Suc.prems n by simp
  moreover have "clear_name k (i + 2) True ((p @ [0, 0]) @ r @ s) = (p @ [0, 0]) @ replicate (2 * k) 0 @ s"
    using Suc.prems n by (intro Suc.IH) simp_all
  ultimately show ?case by simp
qed simp

lemma clear_name_layout:
  "length n = 2 * k \<Longrightarrow> length p = 2 + i \<Longrightarrow>
     clear_name k i False (p @ n @ s) = p @ visible_name n @ s"
proof (induction k arbitrary: i p n)
  case (Suc k)
  then obtain a b r where n: "n = a # b # r" by (cases n rule: remdups_adj.cases) simp_all
  have len: "length r = 2 * k" "length (p @ [a, b]) = 2 + (i + 2)" using Suc.prems n by simp_all
  have nth: "(p @ n @ s) ! (2 + i) = a" "(p @ n @ s) ! (2 + i + 1) = b"
    using Suc.prems n by (simp_all add: nth_append)
  show ?case
  proof (cases "a = 0 \<and> b = 0")
    case True
    then have "clear_name (Suc k) i False (p @ n @ s) = clear_name k (i + 2) True ((p @ [a, b]) @ r @ s)"
      using nth n by simp
    also have "\<dots> = (p @ [a, b]) @ replicate (2 * k) 0 @ s" by (rule clear_name_hit [OF len])
    finally show ?thesis using True n len by simp
  next
    case False
    then have "clear_name (Suc k) i False (p @ n @ s) = clear_name k (i + 2) False ((p @ [a, b]) @ r @ s)"
      using nth n by auto
    also have "\<dots> = (p @ [a, b]) @ visible_name r @ s" by (rule Suc.IH [OF len])
    finally show ?thesis using False n by auto
  qed
qed simp

subsection \<open>The in-place code builds the reference layout\<close>

lemma foldl_zero:
  "length m = n \<Longrightarrow> length p = b \<Longrightarrow>
     foldl (\<lambda>d i. d[b + i := 0]) (p @ m @ s) [0..<n] = p @ replicate n 0 @ s"
proof (induction n arbitrary: m s)
  case (Suc n)
  obtain r x where m: "m = r @ [x]" using Suc.prems by (cases m rule: rev_cases) auto
  then have "foldl (\<lambda>d i. d[b + i := 0]) (p @ r @ (x # s)) [0..<n] = p @ replicate n 0 @ (x # s)"
    using Suc by simp
  then show ?case
    using Suc.prems m by (simp add: list_update_append replicate_append_same [symmetric])
qed simp

lemma copy_at_append:
  "length p = i \<Longrightarrow> length m = length ys \<Longrightarrow> copy_at i ys (p @ m @ s) = p @ ys @ s"
  by (simp add: copy_at_def)

text \<open>The nine segments of the 76 bytes.\<close>

lemma mii_segments:
  assumes "length d = 0x4C"
  obtains b0 b1 n e i1 i2 f c x y where
    "d = [b0, b1] @ n @ e @ i1 @ i2 @ f @ c @ [x, y]"
    "length n = 20" "length e = 2" "length i1 = 4" "length i2 = 4" "length f = 22" "length c = 20"
proof
  let ?s = "\<lambda>i j. subslice i j d"
  have step: "drop i d = subslice i j d @ drop j d" if "i \<le> j" for i j
    using that by (metis append_take_drop_id drop_drop subslice_def le_add_diff_inverse2)
  have last: "drop 74 d = [d ! 74, d ! 75]"
    using assms by (simp add: Cons_nth_drop_Suc [symmetric])
  have first: "d = [d ! 0, d ! 1] @ drop 2 d"
    using assms Cons_nth_drop_Suc [of 0 d] Cons_nth_drop_Suc [of 1 d] by (simp add: numeral_2_eq_2)
  show "d = [d ! 0, d ! 1] @ ?s 2 22 @ ?s 22 24 @ ?s 24 28 @ ?s 28 32 @ ?s 32 54 @ ?s 54 74 @ [d ! 74, d ! 75]"
    using first step [of 2 22] step [of 22 24] step [of 24 28] step [of 28 32] step [of 32 54]
      step [of 54 74] last by simp
qed (use assms in \<open>simp_all add: subslice_def\<close>)

lemma clear_private_segments:
  assumes len: "length n = 20" "length e = 2" "length i1 = 4" "length i2 = 4" "length f = 22" "length c = 20"
  shows "clear_private ([b0, b1] @ n @ e @ i1 @ i2 @ f @ c @ [x, y]) =
    [b0 AND NOT 0x3F, b1 AND NOT 0xE0] @ visible_name n @ e @ be32 0x80000000 @ be32 0 @ f @
      replicate 20 0 @ [0, 0]"
proof -
  define j1 j2 where "j1 = be32 0x80000000" and "j2 = be32 0"
  have lj: "length j1 = 4" "length j2 = 4" by (simp_all add: j1_def j2_def)
  let ?i = "j1 @ j2"
  have c1: "copy_at 0x18 j1 ([b0, b1] @ n @ e @ i1 @ i2 @ f @ c @ [x, y]) =
      [b0, b1] @ n @ e @ j1 @ i2 @ f @ c @ [x, y]"
    using copy_at_append [of "[b0, b1] @ n @ e" 24 i1 "j1" "i2 @ f @ c @ [x, y]"] len lj
    by (simp only: append_assoc) simp
  have c2: "copy_at 0x1C j2 ([b0, b1] @ n @ e @ j1 @ i2 @ f @ c @ [x, y]) =
      [b0, b1] @ n @ e @ ?i @ f @ c @ [x, y]"
    using copy_at_append [of "[b0, b1] @ n @ e @ j1" 28 i2 "j2" "f @ c @ [x, y]"] len lj
    by (simp only: append_assoc) simp
  have c3: "clear_name 10 0 False ([b0, b1] @ n @ e @ ?i @ f @ c @ [x, y]) =
      [b0, b1] @ visible_name n @ e @ ?i @ f @ c @ [x, y]"
    using clear_name_layout [of n 10 "[b0, b1]" 0 "e @ ?i @ f @ c @ [x, y]"] len lj by (simp only: append_assoc) simp
  have c4: "foldl (\<lambda>d i. d[0x36 + i := 0]) ([b0, b1] @ visible_name n @ e @ ?i @ f @ c @ [x, y]) [0..<20] =
      [b0, b1] @ visible_name n @ e @ ?i @ f @ replicate 20 0 @ [x, y]"
    using foldl_zero [of c 20 "[b0, b1] @ visible_name n @ e @ ?i @ f" 54 "[x, y]"] len lj
    by (simp only: append_assoc) simp
  have c5: "(h @ visible_name n @ e @ ?i @ f @ replicate 20 0 @ [x, y])[0x4A := 0, 0x4B := 0] =
      h @ visible_name n @ e @ ?i @ f @ replicate 20 0 @ [0, 0]" if "length h = 2" for h
    using two_updates [of "h @ visible_name n @ e @ ?i @ f @ replicate 20 0" 74 x y "[]" 0 0] len lj that
    by (simp only: append_assoc) simp
  show ?thesis
    unfolding clear_private_def Let_def j1_def [symmetric] j2_def [symmetric] c1 c2 c3 c4
    using c5 [of "[b0 AND NOT 0x3F, b1 AND NOT 0xE0]"] by simp
qed

lemma public_view_segments:
  assumes "length n = 20" "length e = 2" "length i1 = 4" "length i2 = 4" "length f = 22" "length c = 20"
  shows "public_view \<lparr>Data = [b0, b1] @ n @ e @ i1 @ i2 @ f @ c @ [x, y]\<rparr> =
    \<lparr>head0 = b0 AND NOT 0x3F, head1 = b1 AND NOT 0xE0, shown_name = visible_name n, build = e, face = f\<rparr>"
  using assms subslice_append [of "[b0, b1]" 2 n 22 "e @ i1 @ i2 @ f @ c @ [x, y]"]
    subslice_append [of "[b0, b1] @ n" 22 e 24 "i1 @ i2 @ f @ c @ [x, y]"]
    subslice_append [of "[b0, b1] @ n @ e @ i1 @ i2" 32 f 54 "c @ [x, y]"]
  by (simp add: public_view_def)

lemma low_byte_16: "(ucast ((crc :: u16) AND 0xFF) :: u8) = ucast crc"
proof (rule bit_word_eqI)
  fix n assume n: "n < LENGTH(8)"
  have "(0xFF :: u16) = mask 8" by (simp add: mask_eq_exp_minus_1)
  then show "bit (ucast (crc AND 0xFF) :: u8) n = bit (ucast crc :: u8) n"
    using n by (simp only: bit_ucast_iff bit_and_iff bit_mask_iff) auto
qed

lemma ClearMiiInfo_layout:
  assumes ok: "mii_ok m" and priv: "\<not> is_official m"
  shows "ClearMiiInfo m = mii_layout (public_view m)"
proof -
  obtain b0 b1 n e i1 i2 f c x y where
    d: "Data m = [b0, b1] @ n @ e @ i1 @ i2 @ f @ c @ [x, y]" and
    len: "length n = 20" "length e = 2" "length i1 = 4" "length i2 = 4" "length f = 22" "length c = 20"
    using ok mii_segments [of "Data m"] unfolding mii_ok_def by metis
  have m: "m = \<lparr>Data = [b0, b1] @ n @ e @ i1 @ i2 @ f @ c @ [x, y]\<rparr>" using d by (cases m) simp
  define v where "v = public_view m"
  have v: "v = \<lparr>head0 = b0 AND NOT 0x3F, head1 = b1 AND NOT 0xE0, shown_name = visible_name n,
      build = e, face = f\<rparr>"
    unfolding v_def m by (rule public_view_segments [OF len])
  have p: "clear_private (Data m) = mii_body v @ [0, 0]"
    unfolding d clear_private_segments [OF len] v mii_body_def by simp
  have "length (mii_body v) = 74" using len unfolding v mii_body_def by simp
  then have u: "(mii_body v @ [0, 0])[0x4A := s, 0x4B := t] = mii_body v @ [s, t]" for s t
    using two_updates [of "mii_body v" 74 0 0 "[]" s t] by simp
  show ?thesis
    using priv unfolding ClearMiiInfo_def is_official_def v_def [symmetric] mii_layout_def Let_def p
    by (cases m) (simp add: u low_byte_16 CalculateMiiCRC_def be16_def)
qed

subsection \<open>Consequences of the layout\<close>

definition view_ok :: "mii_view \<Rightarrow> bool" where
  "view_ok v \<longleftrightarrow> length (shown_name v) = 20 \<and> length (build v) = 2 \<and> length (face v) = 22 \<and>
     visible_name (shown_name v) = shown_name v \<and> head0 v AND NOT 0x3F = head0 v \<and> head1 v AND NOT 0xE0 = head1 v"

lemma view_ok_public_view: "mii_ok m \<Longrightarrow> view_ok (public_view m)"
  by (simp add: view_ok_def public_view_def mii_ok_def subslice_def and.assoc)

lemma mii_layout_Data:
  "Data (mii_layout v) = [head0 v, head1 v] @ shown_name v @ build v @ be32 0x80000000 @ be32 0 @ face v @
     replicate 20 0 @ be16 (foldl mii_byte 0 (mii_body v @ [0, 0]))"
  by (simp add: mii_layout_def mii_body_def)

lemma mii_layout_ok: "view_ok v \<Longrightarrow> mii_ok (mii_layout v)"
  unfolding mii_ok_def mii_layout_Data by (simp add: view_ok_def)

lemma mii_layout_not_official:
  assumes "view_ok v"
  shows "\<not> is_official (mii_layout v)"
proof -
  have "subslice 0x18 0x20 (Data (mii_layout v)) = be32 0x80000000 @ be32 0"
    using subslice_append [of "[head0 v, head1 v] @ shown_name v @ build v" 24 "be32 0x80000000 @ be32 0" 32]
      assms unfolding mii_layout_Data by (simp add: view_ok_def)
  moreover have "be32 0x80000000 @ be32 0 = [0x80, 0, 0, 0, 0, 0, 0, 0]"
    by (simp add: be32_def)
  ultimately have "mii_id (Data (mii_layout v)) = 0x8000000000000000"
    by (simp add: mii_id_def uint_be_def)
  then show ?thesis by (simp add: is_official_def SearchOfficialMiiData_def officialMiiList_def)
qed

lemma public_view_layout:
  assumes "view_ok v"
  shows "public_view (mii_layout v) = v"
proof -
  define j1 j2 where "j1 = be32 0x80000000" and "j2 = be32 0"
  have lj: "length j1 = 4" "length j2 = 4" by (simp_all add: j1_def j2_def)
  obtain x y where xy: "be16 (foldl mii_byte 0 (mii_body v @ [0, 0])) = [x, y]"
    unfolding be16_def by blast
  have "mii_layout v = \<lparr>Data = [head0 v, head1 v] @ shown_name v @ build v @ j1 @ j2 @ face v @
     replicate 20 0 @ [x, y]\<rparr>"
    using mii_layout_Data [of v] unfolding xy j1_def j2_def by (cases "mii_layout v") simp
  then show ?thesis
    using public_view_segments [of "shown_name v" "build v" j1 j2 "face v" "replicate 20 0" "head0 v" "head1 v" x y]
      lj assms by (simp add: view_ok_def)
qed

lemma mii_layout_crc: "CalculateMiiCRC (mii_layout v) = 0"
  unfolding CalculateMiiCRC_def mii_layout_def raw_mii.simps by (rule mii_crc_residue [OF refl])

lemma ClearMiiInfo_official: "is_official m \<Longrightarrow> ClearMiiInfo m = m"
  by (simp add: ClearMiiInfo_def is_official_def)

lemma ClearMiiInfo_ok: "mii_ok m \<Longrightarrow> mii_ok (ClearMiiInfo m)"
  by (cases "is_official m")
     (simp_all add: ClearMiiInfo_official ClearMiiInfo_layout mii_layout_ok view_ok_public_view)

lemma ClearMiiInfo_crc:
  "mii_ok m \<Longrightarrow> CalculateMiiCRC m = 0 \<or> \<not> is_official m \<Longrightarrow> CalculateMiiCRC (ClearMiiInfo m) = 0"
  by (cases "is_official m") (simp_all add: ClearMiiInfo_official ClearMiiInfo_layout mii_layout_crc)

lemma ClearMiiInfo_idem: "mii_ok m \<Longrightarrow> ClearMiiInfo (ClearMiiInfo m) = ClearMiiInfo m"
  by (cases "is_official m")
     (simp_all add: ClearMiiInfo_official ClearMiiInfo_layout mii_layout_ok mii_layout_not_official
        public_view_layout view_ok_public_view)

lemma sample_mii: "mii_ok \<lparr>Data = replicate 76 1\<rparr> \<and> \<not> is_official \<lparr>Data = replicate 76 1\<rparr>"
proof -
  have "replicate 8 (1 :: u8) = [1, 1, 1, 1, 1, 1, 1, 1]" by (simp add: numeral_eq_Suc)
  then show ?thesis
    by (simp add: mii_ok_def is_official_def SearchOfficialMiiData_def officialMiiList_def mii_id_def
        subslice_def uint_be_def)
qed

subsection \<open>Properties\<close>

text \<open>C9. The in-place code of \<open>ClearMiiInfo\<close> builds, from any 76-byte Mii that is not one of the six
  official ones, exactly the reference layout of what is public: the two head bytes without the
  birthday bits, the name up to its terminator, the build and face bytes, a fixed creator
  identifier, an empty creator name and a fresh checksum. Nothing else of the input reaches the
  output.\<close>

theorem ClearMiiInfo_refines_layout:
  assumes "mii_ok m" and "\<not> is_official m"
  shows "ClearMiiInfo m = mii_layout (public_view m)"
  using assms by (rule ClearMiiInfo_layout)

theorem ClearMiiInfo_refines_layout_witness:
  "ClearMiiInfo \<lparr>Data = replicate 76 1\<rparr> = mii_layout (public_view \<lparr>Data = replicate 76 1\<rparr>)"
  using sample_mii by (intro ClearMiiInfo_refines_layout) simp_all

text \<open>A sanitised Mii passes the game's checksum: the CRC-16 over all 76 bytes, the stored checksum
  included, is zero (an official Mii, which is returned as it came, keeps the checksum it has), and
  sanitising a second time changes nothing.\<close>

theorem ClearMiiInfo_valid_idempotent:
  assumes "mii_ok m" and "CalculateMiiCRC m = 0 \<or> \<not> is_official m"
  shows "CalculateMiiCRC (ClearMiiInfo m) = 0 \<and> ClearMiiInfo (ClearMiiInfo m) = ClearMiiInfo m"
  using assms by (simp add: ClearMiiInfo_crc ClearMiiInfo_idem)

theorem ClearMiiInfo_valid_idempotent_witness:
  "CalculateMiiCRC (ClearMiiInfo \<lparr>Data = replicate 76 1\<rparr>) = 0 \<and>
   ClearMiiInfo (ClearMiiInfo \<lparr>Data = replicate 76 1\<rparr>) = ClearMiiInfo \<lparr>Data = replicate 76 1\<rparr>"
  using sample_mii by (intro ClearMiiInfo_valid_idempotent) simp_all

end
