(* ===== verification/Yaz1.thy ===== *)
theory Yaz1
  imports Prelude
begin

text \<open>
  \<open>VerifyYaz1Data\<close> of \<open>common/mario_kart_wii.go\<close>: the check that the SZS stream of an uploaded ghost
  decompresses to exactly the announced size. \<open>yaz_decode\<close> is the decompressor the check stands
  for; the two share the length function of the long copy form, where the code computes in a byte.
\<close>

text \<open>One item of a group: a literal byte or a copy. \<open>Inl i\<close> is a rejection at position \<open>i\<close>, \<open>Inr\<close> the
  new decoded count and position. \<open>long\<close> is the length of the three-byte copy form.\<close>

definition yaz_item :: "(u8 \<Rightarrow> nat) \<Rightarrow> bytes \<Rightarrow> u8 \<Rightarrow> nat \<Rightarrow> nat \<Rightarrow> nat + nat \<times> nat" where
  "yaz_item long szs flags decoded i =
     (if \<not> bit flags 7 then
        if i + 1 \<ge> length szs then Inl i
        else
          let copyLen = unat (drop_bit 4 (szs ! i)) + 2;
              off = unat (szs ! i AND 0x0F) * 256 + unat (szs ! (i + 1));
              copySrc = int decoded - int off - 1;
              i2 = i + 2
          in if copySrc < 0 then Inl i2
             else if copyLen = 2 then
               if i2 \<ge> length szs then Inl i2 else Inr (decoded + long (szs ! i2), i2 + 1)
             else Inr (decoded + copyLen, i2)
      else Inr (decoded + 1, i + 1))"

fun yaz_group :: "(u8 \<Rightarrow> nat) \<Rightarrow> bytes \<Rightarrow> nat \<Rightarrow> nat \<Rightarrow> u8 \<Rightarrow> nat \<Rightarrow> nat \<Rightarrow> nat + nat \<times> nat" where
  "yaz_group long szs expected 0 flags decoded i = Inr (decoded, i)"
| "yaz_group long szs expected (Suc n) flags decoded i =
     (case yaz_item long szs flags decoded i of
        Inl j \<Rightarrow> Inl j
      | Inr (decoded', i') \<Rightarrow>
          if decoded' \<ge> expected then Inr (decoded', i')
          else yaz_group long szs expected n (push_bit 1 flags) decoded' i')"

lemma yaz_item_mono:
  "yaz_item long szs flags d i = Inr (d', i') \<Longrightarrow> d \<le> d' \<and> i < i'"
  by (auto simp: yaz_item_def Let_def split: if_splits)

lemma yaz_group_mono:
  "yaz_group long szs expected n flags d i = Inr (d', i') \<Longrightarrow> d \<le> d' \<and> i \<le> i'"
proof (induction n arbitrary: flags d i)
  case (Suc n)
  then show ?case
    by (auto split: sum.splits prod.splits if_splits dest!: yaz_item_mono; fastforce)
qed simp

function yaz_loop :: "(u8 \<Rightarrow> nat) \<Rightarrow> bytes \<Rightarrow> nat \<Rightarrow> nat \<Rightarrow> nat \<Rightarrow> bool \<times> nat" where
  "yaz_loop long szs expected decoded i =
     (if decoded < expected then
        if i \<ge> length szs then (False, i)
        else if szs ! i = 0xFF then yaz_loop long szs expected (decoded + 8) (i + 1 + 8)
        else case yaz_group long szs expected 8 (szs ! i) decoded (i + 1) of
          Inl j \<Rightarrow> (False, j)
        | Inr (decoded', i') \<Rightarrow> yaz_loop long szs expected decoded' i'
      else if decoded > expected then (False, i)
      else if i > length szs then (False, i)
      else (True, i))"
  by auto
termination
  by (relation "measure (\<lambda>(long, szs, expected, decoded, i). length szs - i)")
     (auto dest: yaz_group_mono)

declare yaz_loop.simps [simp del]

text \<open>The code adds \<open>0x12\<close> to a byte, in a byte.\<close>

definition byte_long :: "u8 \<Rightarrow> nat" where
  "byte_long b = unat (b + 0x12)"

definition VerifyYaz1Data :: "bytes \<Rightarrow> nat \<Rightarrow> nat \<Rightarrow> bool \<times> nat" where
  "VerifyYaz1Data szsData expectedDecompSize decoded =
     yaz_loop byte_long szsData expectedDecompSize decoded 0"

subsection \<open>The decompressor\<close>

definition wide_long :: "u8 \<Rightarrow> nat" where
  "wide_long b = unat b + 0x12"

fun copy_back :: "nat \<Rightarrow> nat \<Rightarrow> bytes \<Rightarrow> bytes" where
  "copy_back 0 off out = out"
| "copy_back (Suc n) off out = copy_back n off (out @ [out ! (length out - off - 1)])"

text \<open>\<open>None\<close> is a read outside the input or before the start of the output.\<close>

definition dec_item :: "(u8 \<Rightarrow> nat) \<Rightarrow> bytes \<Rightarrow> u8 \<Rightarrow> bytes \<Rightarrow> nat \<Rightarrow> (bytes \<times> nat) option" where
  "dec_item long szs flags out i =
     (if bit flags 7 then if i < length szs then Some (out @ [szs ! i], i + 1) else None
      else if length szs \<le> i + 1 then None
      else
        let n = unat (drop_bit 4 (szs ! i));
            off = unat (szs ! i AND 0x0F) * 256 + unat (szs ! (i + 1))
        in if length out \<le> off then None
           else if n = 0 then
             if i + 2 < length szs then Some (copy_back (long (szs ! (i + 2))) off out, i + 3) else None
           else Some (copy_back (n + 2) off out, i + 2))"

fun dec_group :: "(u8 \<Rightarrow> nat) \<Rightarrow> bytes \<Rightarrow> nat \<Rightarrow> nat \<Rightarrow> u8 \<Rightarrow> bytes \<Rightarrow> nat \<Rightarrow> (bytes \<times> nat) option" where
  "dec_group long szs expected 0 flags out i = Some (out, i)"
| "dec_group long szs expected (Suc n) flags out i =
     (case dec_item long szs flags out i of
        None \<Rightarrow> None
      | Some (out', i') \<Rightarrow>
          if length out' \<ge> expected then Some (out', i')
          else dec_group long szs expected n (push_bit 1 flags) out' i')"

lemma length_copy_back [simp]: "length (copy_back n off out) = length out + n"
  by (induction n off out rule: copy_back.induct) auto

lemma dec_item_mono: "dec_item long szs flags out i = Some (out', i') \<Longrightarrow> i < i'"
  by (auto simp: dec_item_def Let_def split: if_splits)

lemma dec_group_mono: "dec_group long szs expected n flags out i = Some (out', i') \<Longrightarrow> i \<le> i'"
proof (induction n arbitrary: flags out i)
  case (Suc n)
  then show ?case
    by (auto split: option.splits prod.splits if_splits dest!: dec_item_mono; fastforce)
qed simp

function yaz_decode :: "(u8 \<Rightarrow> nat) \<Rightarrow> bytes \<Rightarrow> nat \<Rightarrow> bytes \<Rightarrow> nat \<Rightarrow> bytes option" where
  "yaz_decode long szs expected out i =
     (if length out < expected then
        if i \<ge> length szs then None
        else case dec_group long szs expected 8 (szs ! i) out (i + 1) of
          None \<Rightarrow> None
        | Some (out', i') \<Rightarrow> yaz_decode long szs expected out' i'
      else Some out)"
  by auto
termination
  by (relation "measure (\<lambda>(long, szs, expected, out, i). length szs - i)")
     (auto dest: dec_group_mono)

declare yaz_decode.simps [simp del]

subsection \<open>What the verifier accepts, the decompressor handles\<close>

lemma item_simulation:
  assumes "yaz_item long szs flags d i = Inr (d', i')" and "length out = d" and "i' \<le> length szs"
  shows "\<exists>out'. dec_item long szs flags out i = Some (out', i') \<and> length out' = d'"
proof -
  have src: "(int d - int off - 1 < 0) = (length out \<le> off)" for off
    using assms(2) by arith
  show ?thesis
    using assms unfolding yaz_item_def dec_item_def Let_def src by (auto split: if_splits)
qed

lemma group_simulation:
  "yaz_group long szs expected n flags d i = Inr (d', i') \<Longrightarrow> length out = d \<Longrightarrow> i' \<le> length szs \<Longrightarrow>
     \<exists>out'. dec_group long szs expected n flags out i = Some (out', i') \<and> length out' = d'"
proof (induction n arbitrary: flags d i out)
  case (Suc n)
  then obtain d1 i1 where item: "yaz_item long szs flags d i = Inr (d1, i1)"
    by (auto split: sum.splits prod.splits)
  show ?case
  proof (cases "d1 \<ge> expected")
    case True
    then have "d' = d1" "i' = i1" using Suc.prems item by auto
    then show ?thesis using item_simulation [OF item Suc.prems(2)] Suc.prems(3) True by auto
  next
    case False
    then have g: "yaz_group long szs expected n (push_bit 1 flags) d1 i1 = Inr (d', i')"
      using Suc.prems item by simp
    then have "i1 \<le> length szs" using yaz_group_mono Suc.prems(3) le_trans by blast
    then obtain out1 where "dec_item long szs flags out i = Some (out1, i1)" "length out1 = d1"
      using item_simulation [OF item Suc.prems(2)] by blast
    then show ?thesis using Suc.IH [OF g _ Suc.prems(3)] False by auto
  qed
qed simp

lemma literal_item: "bit flags 7 \<Longrightarrow> yaz_item long szs flags d i = Inr (d + 1, i + 1)"
  by (simp add: yaz_item_def)

lemma literal_group_aux:
  "k + n = 8 \<Longrightarrow> d + n \<le> expected \<Longrightarrow>
     yaz_group long szs expected n (push_bit k 0xFF) d i = Inr (d + n, i + n)"
proof (induction n arbitrary: k d i)
  case (Suc n)
  have "(0xFF :: u8) = mask 8" by (simp add: mask_eq_exp_minus_1)
  then have b: "bit (push_bit k 0xFF :: u8) 7"
    using Suc.prems(1) by (simp only: bit_push_bit_iff bit_mask_iff) simp
  have p: "push_bit 1 (push_bit k 0xFF :: u8) = push_bit (Suc k) 0xFF"
    by (simp only: push_bit_push_bit) simp
  show ?case
    unfolding yaz_group.simps literal_item [OF b] p
    using Suc.IH [of "Suc k" "d + 1" "i + 1"] Suc.prems by auto
qed simp

lemma literal_group:
  "d + 8 \<le> expected \<Longrightarrow> yaz_group long szs expected 8 0xFF d i = Inr (d + 8, i + 8)"
  using literal_group_aux [of 0 8 d expected long szs i] by simp

lemma yaz_loop_simulation:
  "yaz_loop long szs expected d i = (True, j) \<Longrightarrow>
     d \<le> expected \<and> i \<le> j \<and> j \<le> length szs \<and>
     (\<forall>out. length out = d \<longrightarrow>
        (\<exists>out'. yaz_decode long szs expected out i = Some out' \<and> length out' = expected))"
proof (induction long szs expected d i rule: yaz_loop.induct)
  case (1 long szs expected d i)
  show ?case
  proof (cases "d < expected")
    case False
    then show ?thesis using "1.prems"
      by (auto simp: yaz_loop.simps [of long szs expected d i] yaz_decode.simps split: if_splits)
  next
    case True
    then have i: "i < length szs" using "1.prems" by (auto simp: yaz_loop.simps split: if_splits)
    obtain d1 i1 where g: "yaz_group long szs expected 8 (szs ! i) d (i + 1) = Inr (d1, i1)"
      and IH: "d1 \<le> expected \<and> i1 \<le> j \<and> j \<le> length szs \<and>
        (\<forall>out. length out = d1 \<longrightarrow>
           (\<exists>out'. yaz_decode long szs expected out i1 = Some out' \<and> length out' = expected))"
    proof (cases "szs ! i = 0xFF")
      case ff: True
      then have "yaz_loop long szs expected (d + 8) (i + 1 + 8) = (True, j)"
        using "1.prems" True i by (simp add: yaz_loop.simps [of long szs expected d i])
      note IH = "1.IH"(1) [OF True _ ff this]
      then show ?thesis
        using that [of "d + 8" "i + 1 + 8"] literal_group [of d expected long szs "i + 1"] ff i by simp
    next
      case nff: False
      then obtain d1 i1 where g: "yaz_group long szs expected 8 (szs ! i) d (i + 1) = Inr (d1, i1)"
        and l: "yaz_loop long szs expected d1 i1 = (True, j)"
        using "1.prems" True i
        by (auto simp: yaz_loop.simps [of long szs expected d i] split: sum.splits prod.splits)
      show ?thesis using that [OF g] "1.IH"(2) [OF True _ nff g refl l] i by simp
    qed
    have i1: "i < i1" "i1 \<le> length szs" "d \<le> d1" using yaz_group_mono [OF g] IH by auto
    have "\<exists>out'. yaz_decode long szs expected out i = Some out' \<and> length out' = expected"
      if len: "length out = d" for out
    proof -
      obtain out1 where "dec_group long szs expected 8 (szs ! i) out (i + 1) = Some (out1, i1)"
        and "length out1 = d1" using group_simulation [OF g len i1(2)] by blast
      then show ?thesis using IH True i len by (auto simp: yaz_decode.simps [of long szs expected out i])
    qed
    then show ?thesis using IH True i1 by auto
  qed
qed

subsection \<open>Properties\<close>

lemma yaz_item_long_cong:
  "(\<And>b. b \<in> set szs \<Longrightarrow> f b = g b) \<Longrightarrow> yaz_item f szs flags d i = yaz_item g szs flags d i"
  by (simp add: yaz_item_def Let_def)

lemma yaz_group_long_cong:
  "(\<And>b. b \<in> set szs \<Longrightarrow> f b = g b) \<Longrightarrow>
     yaz_group f szs expected n flags d i = yaz_group g szs expected n flags d i"
  by (induction n arbitrary: flags d i)
     (simp_all add: yaz_item_long_cong [of szs f g] split: sum.splits)

lemma yaz_loop_long_cong:
  "(\<And>b. b \<in> set szs \<Longrightarrow> f b = g b) \<Longrightarrow> yaz_loop f szs expected d i = yaz_loop g szs expected d i"
proof (induction f szs expected d i rule: yaz_loop.induct)
  case (1 long szs expected d i)
  have grp: "yaz_group long szs expected 8 (szs ! i) d (i + 1) = yaz_group g szs expected 8 (szs ! i) d (i + 1)"
    by (rule yaz_group_long_cong) (rule "1.prems")
  show ?case
    using "1.IH" "1.prems" grp
    by (subst yaz_loop.simps, subst (2) yaz_loop.simps) (auto split: sum.splits)
qed

lemma byte_long_wide: "unat b \<le> 0xED \<Longrightarrow> byte_long b = wide_long b"
  by (simp add: byte_long_def wide_long_def unat_word_ariths)

text \<open>C23. When \<open>VerifyYaz1Data\<close> accepts a stream none of whose bytes exceeds \<open>0xED\<close> (so that the
  byte addition \<open>szsData[i] + 0x12\<close> does not wrap), the decompressor neither reads outside the
  stream nor before its output, and produces exactly the announced number of bytes; the reported
  position is inside the stream.\<close>

theorem VerifyYaz1Data_sound:
  assumes "VerifyYaz1Data szs expected 0 = (True, consumed)" and "list_all (\<lambda>b. unat b \<le> 0xED) szs"
  shows "consumed \<le> length szs \<and>
    (\<exists>out. yaz_decode wide_long szs expected [] 0 = Some out \<and> length out = expected)"
proof -
  have "byte_long b = wide_long b" if "b \<in> set szs" for b
    using assms(2) that by (simp add: list_all_iff byte_long_wide)
  then have "yaz_loop wide_long szs expected 0 0 = (True, consumed)"
    using assms(1) yaz_loop_long_cong [of szs byte_long wide_long] by (simp add: VerifyYaz1Data_def)
  from yaz_loop_simulation [OF this] show ?thesis by simp
qed

lemma group_numeral:
  "yaz_group long szs expected (numeral k) flags d i =
     (case yaz_item long szs flags d i of
        Inl j \<Rightarrow> Inl j
      | Inr (d', i') \<Rightarrow>
          if d' \<ge> expected then Inr (d', i')
          else yaz_group long szs expected (pred_numeral k) (push_bit 1 flags) d' i')"
  "dec_group long szs expected (numeral k) flags out i =
     (case dec_item long szs flags out i of
        None \<Rightarrow> None
      | Some (out', i') \<Rightarrow>
          if length out' \<ge> expected then Some (out', i')
          else dec_group long szs expected (pred_numeral k) (push_bit 1 flags) out' i')"
  by (simp_all add: numeral_eq_Suc)

lemma sample_stream: "VerifyYaz1Data [0x80, 7, 0, 0, 1] 20 0 = (True, 5)"
  by (simp add: VerifyYaz1Data_def yaz_loop.simps group_numeral yaz_item_def byte_long_def)

theorem VerifyYaz1Data_sound_witness:
  "(5::nat) \<le> length [0x80, 7, 0, 0, 1 :: u8] \<and>
    (\<exists>out. yaz_decode wide_long [0x80, 7, 0, 0, 1] 20 [] 0 = Some out \<and> length out = 20)"
  by (rule VerifyYaz1Data_sound [OF sample_stream]) simp

text \<open>The bound on the bytes cannot be dropped: the length of a three-byte copy is computed in a
  byte, so the verifier accepts a stream as 18 bytes long that the decompressor expands to 274,
  past the end of the announced buffer.\<close>

theorem VerifyYaz1Data_wraps:
  "VerifyYaz1Data [0x80, 7, 0, 0, 0xFF] 18 0 = (True, 5) \<and>
   map_option length (yaz_decode wide_long [0x80, 7, 0, 0, 0xFF] 18 [] 0) = Some 274"
  by (simp add: VerifyYaz1Data_def yaz_loop.simps group_numeral yaz_item_def byte_long_def
      yaz_decode.simps dec_item_def wide_long_def)

end
