(* ===== verification/RKG.thy ===== *)
theory RKG
  imports Mii Yaz1 GoCrypto
begin

text \<open>
  The Mario Kart Wii ghost file of \<open>common/mario_kart_wii.go\<close>: the identifier types and their ranges,
  the bit fields of the header, and the validation of an uploaded file. Reads through a getter panic
  when the file is too short, so getters are outcomes; \<open>IsRKGDFileValid_total\<close> shows that the
  validation never reaches such a read. Log messages (and with them \<open>moduleName\<close>) are not modelled.
\<close>

subsection \<open>Identifiers\<close>

text \<open>The \<open>iota\<close> constants the code compares with.\<close>

definition China :: int where "China = 7"
definition GBAShyGuyBeach :: int where "GBAShyGuyBeach = 0x1F"
definition LargeMiiOutfitBFemale :: int where "LargeMiiOutfitBFemale = 0x27"
definition Phantom_vehicle :: int where "Phantom_vehicle = 0x23"
definition GameCube :: int where "GameCube = 3"

definition region_IsValid :: "int \<Rightarrow> bool" where
  "region_IsValid r \<longleftrightarrow> 0 \<le> r \<and> r \<le> China"

definition course_IsValid :: "int \<Rightarrow> bool" where
  "course_IsValid c \<longleftrightarrow> 0 \<le> c \<and> c \<le> GBAShyGuyBeach"

text \<open>The third Mii outfit: \<open>SmallMiiOutfitCMale\<close>, \<open>SmallMiiOutfitCFemale\<close>, \<open>MediumMiiOutfitCMale\<close> and
  \<open>MediumMiiOutfitCFemale\<close>.\<close>

definition character_IsValid :: "int \<Rightarrow> bool" where
  "character_IsValid c \<longleftrightarrow> c \<notin> {0x1C, 0x1D, 0x22, 0x23} \<and> 0 \<le> c \<and> c \<le> LargeMiiOutfitBFemale"

datatype weight_class = LightWeight | MiddleWeight | HeavyWeight

text \<open>The code's result \<open>-1\<close> is \<open>None\<close>.\<close>

definition light_characters :: "int list" where
  "light_characters = [0x01, 0x04, 0x05, 0x06, 0x08, 0x0C, 0x0D, 0x0E, 0x18, 0x19, 0x1A, 0x1B, 0x1C, 0x1D]"

definition middle_characters :: "int list" where
  "middle_characters = [0x00, 0x07, 0x0A, 0x0F, 0x10, 0x11, 0x12, 0x14, 0x1E, 0x1F, 0x20, 0x21, 0x22, 0x23]"

definition heavy_characters :: "int list" where
  "heavy_characters = [0x02, 0x03, 0x0B, 0x09, 0x13, 0x15, 0x16, 0x17, 0x24, 0x25, 0x26, 0x27, 0x28, 0x29]"

definition character_GetWeightClass :: "int \<Rightarrow> weight_class option" where
  "character_GetWeightClass c =
     (if c \<in> set light_characters then Some LightWeight
      else if c \<in> set middle_characters then Some MiddleWeight
      else if c \<in> set heavy_characters then Some HeavyWeight
      else None)"

definition vehicle_IsValid :: "int \<Rightarrow> bool" where
  "vehicle_IsValid v \<longleftrightarrow> 0 \<le> v \<and> v \<le> Phantom_vehicle"

definition vehicle_GetWeightClass :: "int \<Rightarrow> weight_class option" where
  "vehicle_GetWeightClass v =
     (if v < 0 then None
      else Some (if v mod 3 = 0 then LightWeight else if v mod 3 = 1 then MiddleWeight else HeavyWeight))"

definition controller_IsValid :: "int \<Rightarrow> bool" where
  "controller_IsValid c \<longleftrightarrow> 0 \<le> c \<and> c \<le> GameCube"

subsection \<open>Bit fields\<close>

definition RKGDFileMaxSize :: nat where "RKGDFileMaxSize = 0x2800"
definition RKGDFileMinSize :: nat where "RKGDFileMinSize = 0x0088 + 0x0014 + 0x0004"

definition GetBits :: "bytes \<Rightarrow> nat \<Rightarrow> nat \<Rightarrow> nat \<Rightarrow> (unit, u32) outcome" where
  "GetBits rkgd byteOffset bitOffset bitLength =
     (if bitLength = 0 then Ret 0
      else
        let byteIndex = byteOffset + bitOffset div 8;
            bitIndex = bitOffset mod 8;
            byteCount = (bitLength + bitIndex + 7) div 8;
            endBitIndex = (bitIndex + bitLength) mod 8
        in if length rkgd < byteIndex + byteCount then Panic
           else
             let value = foldl (\<lambda>v i. v OR push_bit ((byteCount - i - 1) * 8) (ucast (rkgd ! (byteIndex + i))))
                           0 [0..<byteCount]
             in Ret (drop_bit ((8 - endBitIndex) mod 8) value AND (push_bit bitLength 1 - 1)))"

definition bits_int :: "bytes \<Rightarrow> nat \<Rightarrow> nat \<Rightarrow> nat \<Rightarrow> (unit, int) outcome" where
  "bits_int rkgd a b l = bind_outcome (GetBits rkgd a b l) (\<lambda>w. Ret (uint w))"

definition lap_bits :: "nat \<times> nat \<times> nat \<Rightarrow> nat \<times> nat \<Rightarrow> bytes \<Rightarrow> int \<Rightarrow> (unit, int) outcome" where
  "lap_bits total_field lap_field rkgd lap =
     (if lap = 0 then (case total_field of (a, b, l) \<Rightarrow> bits_int rkgd a b l)
      else if lap < 1 \<or> lap > 5 then Ret 0
      else case lap_field of (b, l) \<Rightarrow> bits_int rkgd (0x11 + nat (lap - 1) * 3) b l)"

definition GetMinutes :: "bytes \<Rightarrow> int \<Rightarrow> (unit, int) outcome" where
  "GetMinutes = lap_bits (0x04, 0, 7) (0, 7)"

definition GetSeconds :: "bytes \<Rightarrow> int \<Rightarrow> (unit, int) outcome" where
  "GetSeconds = lap_bits (0x04, 7, 7) (7, 7)"

definition GetMilliseconds :: "bytes \<Rightarrow> int \<Rightarrow> (unit, int) outcome" where
  "GetMilliseconds = lap_bits (0x05, 6, 10) (14, 10)"

definition GetTime :: "bytes \<Rightarrow> int \<Rightarrow> (unit, int) outcome" where
  "GetTime rkgd lap =
     bind_outcome (GetMinutes rkgd lap) (\<lambda>m.
     bind_outcome (GetSeconds rkgd lap) (\<lambda>s.
     bind_outcome (GetMilliseconds rkgd lap) (\<lambda>ms. Ret (m * 60000 + s * 1000 + ms))))"

definition GetCourse :: "bytes \<Rightarrow> (unit, int) outcome" where
  "GetCourse rkgd = bits_int rkgd 0x07 0 6"
definition GetVehicle :: "bytes \<Rightarrow> (unit, int) outcome" where
  "GetVehicle rkgd = bits_int rkgd 0x08 0 6"
definition GetCharacter :: "bytes \<Rightarrow> (unit, int) outcome" where
  "GetCharacter rkgd = bits_int rkgd 0x08 6 6"
definition GetYear :: "bytes \<Rightarrow> (unit, int) outcome" where
  "GetYear rkgd = bits_int rkgd 0x09 4 7"
definition GetMonth :: "bytes \<Rightarrow> (unit, int) outcome" where
  "GetMonth rkgd = bits_int rkgd 0x0A 3 4"
definition GetDay :: "bytes \<Rightarrow> (unit, int) outcome" where
  "GetDay rkgd = bits_int rkgd 0x0A 7 5"
definition GetController :: "bytes \<Rightarrow> (unit, int) outcome" where
  "GetController rkgd = bits_int rkgd 0x0B 4 4"
definition IsCompressed :: "bytes \<Rightarrow> (unit, bool) outcome" where
  "IsCompressed rkgd = bind_outcome (bits_int rkgd 0x0C 4 1) (\<lambda>b. Ret (b = 1))"
definition GetGhostType :: "bytes \<Rightarrow> (unit, int) outcome" where
  "GetGhostType rkgd = bits_int rkgd 0x0C 7 7"
definition GetDriftType :: "bytes \<Rightarrow> (unit, int) outcome" where
  "GetDriftType rkgd = bits_int rkgd 0x0D 6 1"
definition GetInputDataLength :: "bytes \<Rightarrow> (unit, u16) outcome" where
  "GetInputDataLength rkgd = bind_outcome (GetBits rkgd 0x0E 0 16) (\<lambda>w. Ret (ucast w))"
definition GetLapCount :: "bytes \<Rightarrow> (unit, int) outcome" where
  "GetLapCount rkgd = bits_int rkgd 0x10 0 8"
definition GetCountryCode :: "bytes \<Rightarrow> (unit, u8) outcome" where
  "GetCountryCode rkgd = bind_outcome (GetBits rkgd 0x34 0 8) (\<lambda>w. Ret (ucast w))"
definition GetStateCode :: "bytes \<Rightarrow> (unit, u8) outcome" where
  "GetStateCode rkgd = bind_outcome (GetBits rkgd 0x35 0 8) (\<lambda>w. Ret (ucast w))"
definition GetLocationCode :: "bytes \<Rightarrow> (unit, u16) outcome" where
  "GetLocationCode rkgd = bind_outcome (GetBits rkgd 0x36 0 16) (\<lambda>w. Ret (ucast w))"

subsection \<open>The Mii, the compressed data and the checksum\<close>

text \<open>A slice expression panics when its bounds are out of range.\<close>

definition go_slice :: "nat \<Rightarrow> nat \<Rightarrow> 'a list \<Rightarrow> (unit, 'a list) outcome" where
  "go_slice i j xs = (if i \<le> j \<and> j \<le> length xs then Ret (subslice i j xs) else Panic)"

definition GetMiiData :: "bytes \<Rightarrow> (unit, raw_mii) outcome" where
  "GetMiiData rkgd = bind_outcome (go_slice 0x3C (0x3C + 0x4C) rkgd) RawMiiFromBytes"

definition SetMiiData :: "bytes \<Rightarrow> raw_mii \<Rightarrow> (unit, bytes) outcome" where
  "SetMiiData rkgd m =
     bind_outcome (go_slice 0x3C (0x3C + 0x4C) rkgd) (\<lambda>_. Ret (copy_at 0x3C (Data m) rkgd))"

definition GetCompressedSize :: "bytes \<Rightarrow> (unit, u32) outcome" where
  "GetCompressedSize rkgd = bind_outcome (go_slice 0x88 0x8C rkgd) (\<lambda>b. Ret (word_be b))"

definition GetCompressedData :: "bytes \<Rightarrow> (unit, bytes) outcome" where
  "GetCompressedData rkgd =
     (if length rkgd < 4 then Panic else go_slice 0x8C (length rkgd - 4) rkgd)"

definition RecalculateCRC :: "bytes \<Rightarrow> (unit, bytes) outcome" where
  "RecalculateCRC rkgd =
     (if length rkgd < 4 then Panic
      else Ret (copy_at (length rkgd - 4) (be32 (crc32_ieee (take (length rkgd - 4) rkgd))) rkgd))"

subsection \<open>Validation\<close>

definition require :: "bool \<Rightarrow> (unit, bool) outcome \<Rightarrow> (unit, bool) outcome" where
  "require b k = (if b then k else Ret False)"

text \<open>The loop over the laps: \<open>laps\<close> still to do, from \<open>lap\<close>, with the score so far; \<open>None\<close> is a
  rejection.\<close>

fun check_laps :: "bytes \<Rightarrow> nat \<Rightarrow> int \<Rightarrow> int \<Rightarrow> (unit, int option) outcome" where
  "check_laps rkgd 0 lap lapScore = Ret (Some lapScore)"
| "check_laps rkgd (Suc k) lap lapScore =
     bind_outcome (GetTime rkgd lap) (\<lambda>t.
       if t = 0 then Ret None
       else
         bind_outcome (GetMinutes rkgd lap) (\<lambda>m.
         bind_outcome (GetSeconds rkgd lap) (\<lambda>s.
         bind_outcome (GetMilliseconds rkgd lap) (\<lambda>ms.
           if m > 5 \<or> s > 59 \<or> ms > 999 then Ret None
           else check_laps rkgd k (lap + 1) (if lap > 0 then lapScore + t else lapScore)))))"

definition check_header :: "bytes \<Rightarrow> int \<Rightarrow> int \<Rightarrow> (unit, bool) outcome \<Rightarrow> (unit, bool) outcome" where
  "check_header rkgd expectedCourse expectedScore k =
     bind_outcome (GetLapCount rkgd) (\<lambda>lapCount.
     require (lapCount = 3)
     (bind_outcome (check_laps rkgd (nat (lapCount + 1)) 0 0) (\<lambda>r.
      case r of None \<Rightarrow> Ret False
      | Some lapScore \<Rightarrow>
     bind_outcome (GetTime rkgd 0) (\<lambda>totalScore.
     require (\<not> (expectedScore \<noteq> -1 \<and> totalScore \<noteq> expectedScore))
     (require (\<not> (lapScore + 1 < totalScore \<or> lapScore - 1 > totalScore))
     (bind_outcome (GetCourse rkgd) (\<lambda>course.
     require (\<not> (expectedCourse \<noteq> -1 \<and> course \<noteq> expectedCourse))
     (require (course_IsValid course)
     (bind_outcome (GetCharacter rkgd) (\<lambda>character.
     require (character_IsValid character)
     (bind_outcome (GetVehicle rkgd) (\<lambda>vehicle.
     require (vehicle_IsValid vehicle)
     (bind_outcome (GetController rkgd) (\<lambda>controller.
     require (controller_IsValid controller) k))))))))))))))"

text \<open>The weight classes, the two size fields and the header padding are read and compared, but a
  difference is only logged.\<close>

definition check_yaz1 :: "bytes \<Rightarrow> bytes \<Rightarrow> (unit, bool) outcome" where
  "check_yaz1 rkgd szsData =
     bind_outcome (go_slice 0 4 szsData) (\<lambda>magic.
     require (magic = bytes_of ''Yaz1'')
     (bind_outcome (go_slice 4 8 szsData) (\<lambda>size.
      bind_outcome (GetInputDataLength rkgd) (\<lambda>_.
      bind_outcome (GetCompressedSize rkgd) (\<lambda>_.
      bind_outcome (go_slice 0x8 0x10 szsData) (\<lambda>_.
      case VerifyYaz1Data (drop 0x10 szsData) (unat (word_be size)) 0 of
        (valid, consumed) \<Rightarrow>
          require valid (require (\<not> (consumed + 3 < length szsData - 0x10)) (Ret True))))))))"

definition IsRKGDFileValid :: "bytes \<Rightarrow> int \<Rightarrow> int \<Rightarrow> (unit, bool) outcome" where
  "IsRKGDFileValid rkgd expectedCourse expectedScore =
     require (\<not> (length rkgd < RKGDFileMinSize \<or> length rkgd > RKGDFileMaxSize))
     (require (has_prefix rkgd (bytes_of ''RKGD''))
     (require (crc32_ieee (take (length rkgd - 4) rkgd) = word_be (drop (length rkgd - 4) rkgd))
     (check_header rkgd expectedCourse expectedScore
     (bind_outcome (GetMiiData rkgd) (\<lambda>mii.
      require (CalculateMiiCRC mii = 0)
     (bind_outcome (IsCompressed rkgd) (\<lambda>compressed.
      require compressed
     (bind_outcome (GetCompressedData rkgd) (check_yaz1 rkgd)))))))))"

text \<open>What the upload and the download handler do to a ghost before passing it on.\<close>

definition sanitise_ghost :: "bytes \<Rightarrow> (unit, bytes) outcome" where
  "sanitise_ghost rkgd =
     bind_outcome (GetMiiData rkgd) (\<lambda>mii.
     bind_outcome (SetMiiData rkgd (ClearMiiInfo mii)) RecalculateCRC)"

subsection \<open>No read is out of range\<close>

definition no_panic :: "('e, 'a) outcome \<Rightarrow> bool" where
  "no_panic r \<longleftrightarrow> r \<noteq> Panic"

lemma no_panic_Ret [simp]: "no_panic (Ret a)"
  by (simp add: no_panic_def)

lemma no_panic_bind [intro]:
  "no_panic m \<Longrightarrow> (\<And>a. m = Ret a \<Longrightarrow> no_panic (f a)) \<Longrightarrow> no_panic (bind_outcome m f)"
  unfolding no_panic_def by (rule bind_outcome_not_Panic)

lemma no_panic_require [intro]: "(b \<Longrightarrow> no_panic k) \<Longrightarrow> no_panic (require b k)"
  by (simp add: require_def)

lemma no_panic_GetBits:
  "a + b div 8 + (l + b mod 8 + 7) div 8 \<le> length rkgd \<Longrightarrow> no_panic (GetBits rkgd a b l)"
  by (simp add: GetBits_def no_panic_def Let_def)

lemma no_panic_bits_int:
  "a + b div 8 + (l + b mod 8 + 7) div 8 \<le> length rkgd \<Longrightarrow> no_panic (bits_int rkgd a b l)"
  unfolding bits_int_def by (intro no_panic_bind no_panic_GetBits) auto

lemma no_panic_lap:
  assumes "32 \<le> length rkgd" and "lap \<le> 5"
  shows "no_panic (GetMinutes rkgd lap)" "no_panic (GetSeconds rkgd lap)" "no_panic (GetMilliseconds rkgd lap)"
proof -
  have n: "nat (lap - 1) \<le> 4" using assms(2) by simp
  show "no_panic (GetMinutes rkgd lap)" "no_panic (GetSeconds rkgd lap)" "no_panic (GetMilliseconds rkgd lap)"
    using assms n
    by (auto simp: GetMinutes_def GetSeconds_def GetMilliseconds_def lap_bits_def intro!: no_panic_bits_int)
qed

lemma no_panic_GetTime: "32 \<le> length rkgd \<Longrightarrow> lap \<le> 5 \<Longrightarrow> no_panic (GetTime rkgd lap)"
  unfolding GetTime_def by (intro no_panic_bind no_panic_lap) auto

lemma no_panic_check_laps:
  "32 \<le> length rkgd \<Longrightarrow> lap + int k \<le> 6 \<Longrightarrow> no_panic (check_laps rkgd k lap s)"
proof (induction k arbitrary: lap s)
  case (Suc k)
  then show ?case
    by (auto intro!: no_panic_bind no_panic_lap no_panic_GetTime Suc.IH)
qed simp

lemmas ghost_getters = GetCourse_def GetVehicle_def GetCharacter_def GetController_def IsCompressed_def
  GetLapCount_def GetInputDataLength_def

lemma no_panic_check_header:
  assumes "32 \<le> length rkgd" and "no_panic k"
  shows "no_panic (check_header rkgd c s k)"
  unfolding check_header_def ghost_getters
  using assms
  by (auto intro!: no_panic_bind no_panic_require no_panic_bits_int no_panic_check_laps no_panic_GetTime
      split: option.split)

lemma no_panic_go_slice: "i \<le> j \<Longrightarrow> j \<le> length xs \<Longrightarrow> no_panic (go_slice i j xs)"
  by (simp add: go_slice_def)

lemma GetMiiData_Ret:
  "0x88 \<le> length rkgd \<Longrightarrow> GetMiiData rkgd = Ret \<lparr>Data = subslice 0x3C 0x88 rkgd\<rparr>"
  by (simp add: GetMiiData_def go_slice_def RawMiiFromBytes_def length_subslice)

lemma GetCompressedData_Ret:
  "0x90 \<le> length rkgd \<Longrightarrow> GetCompressedData rkgd = Ret (subslice 0x8C (length rkgd - 4) rkgd)"
  by (simp add: GetCompressedData_def go_slice_def)

lemma no_panic_check_yaz1:
  "0x8C \<le> length rkgd \<Longrightarrow> 16 \<le> length szs \<Longrightarrow> no_panic (check_yaz1 rkgd szs)"
  unfolding check_yaz1_def ghost_getters GetCompressedSize_def
  by (auto intro!: no_panic_bind no_panic_require no_panic_go_slice no_panic_GetBits split: prod.split)

lemma no_panic_IsRKGDFileValid: "no_panic (IsRKGDFileValid rkgd c s)"
proof -
  have min: "RKGDFileMinSize = 160" by (simp add: RKGDFileMinSize_def)
  show ?thesis
    unfolding IsRKGDFileValid_def IsCompressed_def min
    by (auto intro!: no_panic_require no_panic_check_header no_panic_bind no_panic_bits_int
        no_panic_check_yaz1 simp: GetMiiData_Ret GetCompressedData_Ret length_subslice)
qed

subsection \<open>Sanitising keeps a ghost valid\<close>

lemma GetBits_append:
  assumes "a + b div 8 + (l + b mod 8 + 7) div 8 \<le> length h"
  shows "GetBits (h @ r) a b l = GetBits h a b l"
proof -
  have "(h @ r) ! (a + b div 8 + i) = h ! (a + b div 8 + i)" if "i < (l + b mod 8 + 7) div 8" for i
    using that assms by (simp add: nth_append)
  then have "foldl (\<lambda>v i. v OR push_bit (n i) (ucast ((h @ r) ! (a + b div 8 + i)))) v [0..<(l + b mod 8 + 7) div 8] =
      foldl (\<lambda>v i. v OR push_bit (n i) (ucast (h ! (a + b div 8 + i)))) v [0..<(l + b mod 8 + 7) div 8]"
    for v :: u32 and n
    by (intro foldl_cong) simp_all
  then show ?thesis using assms by (simp add: GetBits_def Let_def)
qed

lemma bits_int_append:
  "a + b div 8 + (l + b mod 8 + 7) div 8 \<le> length h \<Longrightarrow> bits_int (h @ r) a b l = bits_int h a b l"
  by (simp add: bits_int_def GetBits_append)

lemma lap_append:
  assumes "32 \<le> length h" and "lap \<le> 5"
  shows "GetMinutes (h @ r) lap = GetMinutes h lap" "GetSeconds (h @ r) lap = GetSeconds h lap"
    "GetMilliseconds (h @ r) lap = GetMilliseconds h lap" "GetTime (h @ r) lap = GetTime h lap"
proof -
  have n: "nat (lap - 1) \<le> 4" using assms(2) by simp
  show "GetMinutes (h @ r) lap = GetMinutes h lap" "GetSeconds (h @ r) lap = GetSeconds h lap"
    "GetMilliseconds (h @ r) lap = GetMilliseconds h lap"
    using assms n by (auto simp: GetMinutes_def GetSeconds_def GetMilliseconds_def lap_bits_def bits_int_append)
  then show "GetTime (h @ r) lap = GetTime h lap" by (simp add: GetTime_def)
qed

lemma check_laps_append:
  "32 \<le> length h \<Longrightarrow> lap + int k \<le> 6 \<Longrightarrow> check_laps (h @ r) k lap s = check_laps h k lap s"
proof (induction k arbitrary: lap s)
  case (Suc k)
  then have l: "lap \<le> 5" by simp
  have IH: "check_laps (h @ r) k (lap + 1) s' = check_laps h k (lap + 1) s'" for s'
    using Suc by simp
  show ?case unfolding check_laps.simps lap_append [OF Suc.prems(1) l] IH ..
qed simp

lemma check_header_append:
  assumes "32 \<le> length h"
  shows "check_header (h @ r) c s k = check_header h c s k"
proof -
  have laps: "require (n = 3) (bind_outcome (check_laps (h @ r) (nat (n + 1)) 0 0) f) =
      require (n = 3) (bind_outcome (check_laps h (nat (n + 1)) 0 0) f)" for n f
    using assms by (auto simp: require_def check_laps_append)
  show ?thesis
    unfolding check_header_def ghost_getters laps
    using assms by (simp add: bits_int_append lap_append)
qed

lemma require_True [simp]: "require b k = Ret True \<longleftrightarrow> b \<and> k = Ret True"
  by (simp add: require_def)

lemma case_option_True:
  "(case r of None \<Rightarrow> Ret False | Some a \<Rightarrow> f a) = Ret True \<longleftrightarrow> (\<exists>a. r = Some a \<and> f a = Ret True)"
  by (cases r) simp_all

lemma check_header_True:
  "check_header h c s k = Ret True \<longleftrightarrow> check_header h c s (Ret True) = Ret True \<and> k = Ret True"
  unfolding check_header_def by (auto simp: case_option_True)

lemma IsCompressed_append: "32 \<le> length h \<Longrightarrow> IsCompressed (h @ r) = IsCompressed h"
  by (simp add: IsCompressed_def bits_int_append)

lemma GetBits_Ret:
  "a + b div 8 + (l + b mod 8 + 7) div 8 \<le> length rkgd \<Longrightarrow> \<exists>w. GetBits rkgd a b l = Ret w"
  by (simp add: GetBits_def Let_def)

lemma check_yaz1_file:
  assumes "0x8C \<le> length rkgd" and "0x8C \<le> length rkgd'"
  shows "check_yaz1 rkgd szs = check_yaz1 rkgd' szs"
proof -
  obtain w w' where "GetBits rkgd 0x0E 0 16 = Ret w" "GetBits rkgd' 0x0E 0 16 = Ret w'"
    using assms GetBits_Ret [of 14 0 16 rkgd] GetBits_Ret [of 14 0 16 rkgd'] by auto
  then show ?thesis
    using assms by (simp add: check_yaz1_def GetInputDataLength_def GetCompressedSize_def go_slice_def)
qed

text \<open>A file is a header, a Mii, the rest and four bytes of checksum.\<close>

lemma ghost_segments:
  assumes "160 \<le> length rkgd"
  obtains h m d t where "rkgd = h @ m @ d @ t" "length h = 0x3C" "length m = 0x4C" "20 \<le> length d" "length t = 4"
proof
  let ?n = "length rkgd - 4"
  show "rkgd = take 0x3C rkgd @ subslice 0x3C 0x88 rkgd @ subslice 0x88 ?n rkgd @ drop ?n rkgd"
  proof -
    have "drop i rkgd = subslice i j rkgd @ drop j rkgd" if "i \<le> j" for i j
      using that by (metis append_take_drop_id drop_drop subslice_def le_add_diff_inverse2)
    from this [of 60 136] this [of 136 ?n] show ?thesis
      using assms append_take_drop_id [of 60 rkgd] by simp
  qed
qed (use assms in \<open>simp_all add: subslice_def\<close>)

lemma word_be_be32: "word_be (be32 w) = w"
  by (simp add: word_be_def uint_be_be32)

definition with_crc :: "bytes \<Rightarrow> bytes" where
  "with_crc b = b @ be32 (crc32_ieee b)"

lemma sanitise_ghost_segments:
  assumes "length h = 0x3C" "length m = 0x4C" "20 \<le> length d" "length t = 4"
  shows "sanitise_ghost (h @ m @ d @ t) = Ret (with_crc (h @ Data (ClearMiiInfo \<lparr>Data = m\<rparr>) @ d))"
proof -
  define m' where "m' = Data (ClearMiiInfo \<lparr>Data = m\<rparr>)"
  have lm: "length m' = 0x4C" using ClearMiiInfo_ok [of "\<lparr>Data = m\<rparr>"] assms by (simp add: m'_def mii_ok_def)
  have get: "GetMiiData (h @ m @ d @ t) = Ret \<lparr>Data = m\<rparr>"
    using subslice_append [of h 60 m 136 "d @ t"] assms by (simp add: GetMiiData_Ret)
  have set: "SetMiiData (h @ m @ d @ t) (ClearMiiInfo \<lparr>Data = m\<rparr>) = Ret (h @ m' @ d @ t)"
    using assms lm copy_at_append [of h 60 m m' "d @ t"]
    by (simp add: SetMiiData_def go_slice_def m'_def)
  have "RecalculateCRC (h @ m' @ d @ t) = Ret (with_crc (h @ m' @ d))"
    using assms lm copy_at_append [of "h @ m' @ d" "length (h @ m' @ d)" t "be32 (crc32_ieee (h @ m' @ d))" "[]"]
    by (simp add: RecalculateCRC_def with_crc_def)
  then show ?thesis using get set by (simp add: sanitise_ghost_def m'_def)
qed

lemma IsRKGDFileValid_segments:
  assumes len: "length h = 0x3C" "length m = 0x4C" "20 \<le> length d" "length t = 4"
  shows "IsRKGDFileValid (h @ m @ d @ t) c s = Ret True \<longleftrightarrow>
    length d + 140 \<le> RKGDFileMaxSize \<and> has_prefix h (bytes_of ''RKGD'') \<and>
    crc32_ieee (h @ m @ d) = word_be t \<and> check_header h c s (Ret True) = Ret True \<and>
    CalculateMiiCRC \<lparr>Data = m\<rparr> = 0 \<and> IsCompressed h = Ret True \<and>
    check_yaz1 (replicate 0x8C 0) (drop 4 d) = Ret True"
proof -
  have get: "GetMiiData (h @ m @ d @ t) = Ret \<lparr>Data = m\<rparr>"
    using subslice_append [of h 60 m 136 "d @ t"] len by (simp add: GetMiiData_Ret)
  have comp: "GetCompressedData (h @ m @ d @ t) = Ret (drop 4 d)"
    using subslice_append [of "h @ m @ take 4 d" 140 "drop 4 d" "length (h @ m @ d)" t] len
    by (simp add: GetCompressedData_Ret) (metis append.assoc append_take_drop_id)
  have hdr: "check_header (h @ r) c s k = check_header h c s k" "IsCompressed (h @ r) = IsCompressed h" for r k
    using len by (simp_all add: check_header_append IsCompressed_append)
  have yz: "check_yaz1 (h @ m @ d @ t) y = check_yaz1 (replicate 0x8C 0) y" for y
    using len by (intro check_yaz1_file) simp_all
  have pre: "has_prefix (h @ r) (bytes_of ''RKGD'') = has_prefix h (bytes_of ''RKGD'')" for r
    using len by (simp add: has_prefix_def bytes_of_def)
  have min: "RKGDFileMinSize = 160" by (simp add: RKGDFileMinSize_def)
  show ?thesis
    using len unfolding IsRKGDFileValid_def require_True hdr get comp yz pre min
    by (subst check_header_True) (auto simp: hdr comp yz)
qed

lemma sanitise_ghost_valid:
  assumes "IsRKGDFileValid rkgd c s = Ret True"
  shows "\<exists>rkgd'. sanitise_ghost rkgd = Ret rkgd' \<and> length rkgd' = length rkgd \<and>
    IsRKGDFileValid rkgd' c s = Ret True \<and>
    (\<exists>m. GetMiiData rkgd = Ret m \<and> GetMiiData rkgd' = Ret (ClearMiiInfo m))"
proof -
  have "160 \<le> length rkgd"
    using assms by (auto simp: IsRKGDFileValid_def RKGDFileMinSize_def require_def split: if_splits)
  then obtain h m d t where r: "rkgd = h @ m @ d @ t"
    and len: "length h = 0x3C" "length m = 0x4C" "20 \<le> length d" "length t = 4"
    by (rule ghost_segments)
  define m' where "m' = Data (ClearMiiInfo \<lparr>Data = m\<rparr>)"
  let ?t = "be32 (crc32_ieee (h @ m' @ d))"
  have lm: "length m' = 0x4C" using ClearMiiInfo_ok [of "\<lparr>Data = m\<rparr>"] len by (simp add: m'_def mii_ok_def)
  have san: "sanitise_ghost rkgd = Ret (h @ m' @ d @ ?t)"
    unfolding r sanitise_ghost_segments [OF len] by (simp add: with_crc_def m'_def)
  note valid = assms [unfolded r IsRKGDFileValid_segments [OF len]]
  have mm: "\<lparr>Data = m'\<rparr> = ClearMiiInfo \<lparr>Data = m\<rparr>" by (simp add: m'_def)
  have crc: "CalculateMiiCRC \<lparr>Data = m'\<rparr> = 0"
    unfolding mm using valid len by (intro ClearMiiInfo_crc) (simp_all add: mii_ok_def)
  have "IsRKGDFileValid (h @ m' @ d @ ?t) c s = Ret True"
    using valid crc unfolding IsRKGDFileValid_segments [OF len(1) lm len(3) length_be(2)]
    by (simp add: word_be_be32)
  moreover have "GetMiiData rkgd = Ret \<lparr>Data = m\<rparr>" "GetMiiData (h @ m' @ d @ ?t) = Ret \<lparr>Data = m'\<rparr>"
    unfolding r using subslice_append [of h 60 m 136 "d @ t"] subslice_append [of h 60 m' 136 "d @ ?t"] len lm
    by (simp_all add: GetMiiData_Ret)
  ultimately show ?thesis using san len lm mm unfolding r by auto
qed

subsection \<open>Properties\<close>

text \<open>The validation of an uploaded ghost never panics, whatever bytes, course and score it is given:
  every header field, the Mii and the compressed data are read only after the length check that
  covers them, and the decompression check terminates on every stream.\<close>

theorem IsRKGDFileValid_total: "IsRKGDFileValid rkgd expectedCourse expectedScore \<noteq> Panic"
  using no_panic_IsRKGDFileValid by (simp add: no_panic_def)

definition sample_header :: bytes where
  "sample_header =
     [0x52, 0x4B, 0x47, 0x44, 0, 12, 3, 0, 0, 0, 0, 0, 8, 0, 0, 0,
      3, 0, 4, 1, 0, 4, 1, 0, 4, 1, 0, 0, 0, 0, 0, 0]"

definition sample_ghost :: bytes where
  "sample_ghost = with_crc ((sample_header @ replicate 28 0) @ Data (ClearMiiInfo \<lparr>Data = replicate 76 1\<rparr>) @
     [0, 0, 0, 0, 0x59, 0x61, 0x7A, 0x31, 0, 0, 0, 0, 0, 0, 0, 0, 0, 0, 0, 0])"

lemma short_upt: "[0..<Suc 0] = [0]" "[0..<2] = [0, 1]"
  by (simp_all add: upt_rec)

lemma sample_bits:
  "bits_int sample_header 4 0 7 = Ret 0" "bits_int sample_header 4 7 7 = Ret 3"
  "bits_int sample_header 5 6 10 = Ret 3"
  "bits_int sample_header 17 0 7 = Ret 0" "bits_int sample_header 17 7 7 = Ret 1"
  "bits_int sample_header 17 14 10 = Ret 1"
  "bits_int sample_header 20 0 7 = Ret 0" "bits_int sample_header 20 7 7 = Ret 1"
  "bits_int sample_header 20 14 10 = Ret 1"
  "bits_int sample_header 23 0 7 = Ret 0" "bits_int sample_header 23 7 7 = Ret 1"
  "bits_int sample_header 23 14 10 = Ret 1"
  "bits_int sample_header 7 0 6 = Ret 0" "bits_int sample_header 8 0 6 = Ret 0"
  "bits_int sample_header 8 6 6 = Ret 0" "bits_int sample_header 11 4 4 = Ret 0"
  "bits_int sample_header 12 4 1 = Ret 1" "bits_int sample_header 12 4 (Suc 0) = Ret 1"
  "bits_int sample_header 16 0 8 = Ret 3"
  by (simp_all add: bits_int_def GetBits_def sample_header_def Let_def short_upt)

lemma sample_times:
  "GetMinutes sample_header 0 = Ret 0" "GetSeconds sample_header 0 = Ret 3" "GetMilliseconds sample_header 0 = Ret 3"
  "GetMinutes sample_header 1 = Ret 0" "GetSeconds sample_header 1 = Ret 1" "GetMilliseconds sample_header 1 = Ret 1"
  "GetMinutes sample_header 2 = Ret 0" "GetSeconds sample_header 2 = Ret 1" "GetMilliseconds sample_header 2 = Ret 1"
  "GetMinutes sample_header 3 = Ret 0" "GetSeconds sample_header 3 = Ret 1" "GetMilliseconds sample_header 3 = Ret 1"
  by (simp_all add: GetMinutes_def GetSeconds_def GetMilliseconds_def lap_bits_def sample_bits)

lemma sample_laps: "check_laps sample_header 4 0 0 = Ret (Some 3003)"
proof -
  have "4 = Suc (Suc (Suc (Suc 0)))" by simp
  then show ?thesis by (simp only:) (simp add: GetTime_def sample_times)
qed

lemma sample_header_fields:
  "check_header sample_header 0 3003 (Ret True) = Ret True" "IsCompressed sample_header = Ret True"
  by (simp_all add: check_header_def ghost_getters sample_bits sample_laps GetTime_def sample_times
      course_IsValid_def character_IsValid_def vehicle_IsValid_def controller_IsValid_def
      GBAShyGuyBeach_def LargeMiiOutfitBFemale_def Phantom_vehicle_def GameCube_def)

lemma sample_ghost_valid: "IsRKGDFileValid sample_ghost 0 3003 = Ret True"
proof -
  let ?h = "sample_header @ replicate 28 0"
  let ?d = "[0, 0, 0, 0, 0x59, 0x61, 0x7A, 0x31, 0, 0, 0, 0, 0, 0, 0, 0, 0, 0, 0, 0] :: bytes"
  define m where "m = Data (ClearMiiInfo \<lparr>Data = replicate 76 1\<rparr>)"
  have len: "length ?h = 0x3C" "length m = 0x4C" "20 \<le> length ?d"
    using ClearMiiInfo_ok [of "\<lparr>Data = replicate 76 1\<rparr>"] sample_mii
    by (simp_all add: sample_header_def m_def mii_ok_def)
  have f1: "CalculateMiiCRC \<lparr>Data = m\<rparr> = 0"
    using ClearMiiInfo_crc [of "\<lparr>Data = replicate 76 1\<rparr>"] sample_mii
    by (simp add: m_def CalculateMiiCRC_def)
  have f2: "32 \<le> length sample_header" by (simp add: sample_header_def)
  have f3: "check_yaz1 (replicate 0x8C 0) (drop 4 ?d) = Ret True"
    by (simp add: check_yaz1_def go_slice_def GetInputDataLength_def GetBits_def GetCompressedSize_def
        bytes_of_def VerifyYaz1Data_def yaz_loop.simps subslice_def word_be_def uint_be_def Let_def)
  have f4: "has_prefix ?h (bytes_of ''RKGD'')"
    by (simp add: has_prefix_def bytes_of_def sample_header_def)
  have sg: "sample_ghost = ?h @ m @ ?d @ be32 (crc32_ieee (?h @ m @ ?d))"
    unfolding sample_ghost_def with_crc_def m_def by simp
  show ?thesis
    unfolding sg IsRKGDFileValid_segments [OF len length_be(2)]
    using sample_header_fields f1 f2 f3 f4
    by (simp add: check_header_append IsCompressed_append word_be_be32 RKGDFileMaxSize_def)
qed

text \<open>C8. A valid ghost stays valid for the same course and score when the server replaces its Mii by
  the sanitised one and recalculates the file's CRC-32, as both the upload and the download handler
  do: the length is unchanged, the second validation accepts, and the Mii in the stored file is the
  sanitised Mii.\<close>

theorem sanitised_ghost_stays_valid:
  assumes "IsRKGDFileValid rkgd course score = Ret True"
  shows "\<exists>rkgd'. sanitise_ghost rkgd = Ret rkgd' \<and> length rkgd' = length rkgd \<and>
    IsRKGDFileValid rkgd' course score = Ret True \<and>
    (\<exists>m. GetMiiData rkgd = Ret m \<and> GetMiiData rkgd' = Ret (ClearMiiInfo m))"
  by (rule sanitise_ghost_valid [OF assms])

theorem sanitised_ghost_stays_valid_witness:
  "\<exists>rkgd'. sanitise_ghost sample_ghost = Ret rkgd' \<and> length rkgd' = length sample_ghost \<and>
    IsRKGDFileValid rkgd' 0 3003 = Ret True \<and>
    (\<exists>m. GetMiiData sample_ghost = Ret m \<and> GetMiiData rkgd' = Ret (ClearMiiInfo m))"
  by (rule sanitised_ghost_stays_valid [OF sample_ghost_valid])

end
