(* ===== verification/StreamCipher.thy ===== *)
theory StreamCipher
  imports Prelude
begin

text \<open>
  The three stream ciphers of the server (the server browser's, the game statistics' repeated key
  and the DWC generator) exclusive-or each byte with a byte computed from a state. What they share
  is stated here once: a state that yields a key byte, and a next state computed from the plain and
  the encrypted byte.
\<close>

locale stream_cipher =
  fixes prepare :: "'s \<Rightarrow> 's"
    and keybyte :: "'s \<Rightarrow> u8"
    and absorb :: "u8 \<Rightarrow> u8 \<Rightarrow> 's \<Rightarrow> 's"
    and inv :: "'s \<Rightarrow> bool"
  assumes inv_prepare: "inv s \<Longrightarrow> inv (prepare s)"
    and inv_absorb: "inv s \<Longrightarrow> inv (absorb p c s)"
begin

fun encrypt :: "'s \<Rightarrow> bytes \<Rightarrow> 's \<times> bytes" where
  "encrypt s [] = (s, [])"
| "encrypt s (p # ps) =
     (let s' = prepare s; c = p XOR keybyte s'
      in map_prod id ((#) c) (encrypt (absorb p c s') ps))"

fun decrypt :: "'s \<Rightarrow> bytes \<Rightarrow> 's \<times> bytes" where
  "decrypt s [] = (s, [])"
| "decrypt s (c # cs) =
     (let s' = prepare s; p = c XOR keybyte s'
      in map_prod id ((#) p) (decrypt (absorb p c s') cs))"

lemma length_encrypt [simp]: "length (snd (encrypt s ps)) = length ps"
  by (induction s ps rule: encrypt.induct) (simp_all add: Let_def)

lemma decrypt_encrypt: "decrypt s (snd (encrypt s ps)) = (fst (encrypt s ps), ps)"
  by (induction s ps rule: encrypt.induct) (simp_all add: Let_def xor.assoc)

lemma inv_encrypt: "inv s \<Longrightarrow> inv (fst (encrypt s ps))"
  by (induction s ps rule: encrypt.induct) (simp_all add: Let_def inv_prepare inv_absorb)

lemma encrypt_append:
  "encrypt s (xs @ ys) =
     (let (s1, c1) = encrypt s xs; (s2, c2) = encrypt s1 ys in (s2, c1 @ c2))"
  by (induction s xs rule: encrypt.induct) (auto simp: Let_def split: prod.splits)

end

text \<open>A cipher whose key bytes do not depend on the data is its own inverse.\<close>

locale synchronous_cipher = stream_cipher +
  assumes absorb_ignores: "absorb p c s = absorb p' c' s"
begin

lemma decrypt_is_encrypt: "decrypt s ps = encrypt s ps"
proof (induction ps arbitrary: s)
  case (Cons c cs)
  have "absorb (c XOR keybyte (prepare s)) c (prepare s) = absorb c (c XOR keybyte (prepare s)) (prepare s)"
    by (rule absorb_ignores)
  then show ?case using Cons by (simp add: Let_def)
qed simp

lemma encrypt_twice: "snd (encrypt s (snd (encrypt s ps))) = ps"
  using decrypt_encrypt [of s ps] decrypt_is_encrypt by simp

end

end
