(* ===== verification/TypeX.thy ===== *)
theory TypeX
  imports StreamCipher "HOL-Library.Multiset"
begin

text \<open>
  \<open>serverbrowser/encryption.go\<close>: the cipher of the server list. The state is the 256 cards and five
  byte registers; indexing \<open>cards\<close> with a byte never panics. The two reads from \<open>crypto/rand\<close> are
  arguments (\<open>rnd\<close> of \<open>randLen\<close> and \<open>keybytes\<close> of \<open>keyLen\<close> bytes). The client's side, which the server
  does not contain, is \<open>DecryptTypeX\<close>: it keys the cipher as the server does, so what is proved with it is that a reply can be
  taken apart and undone, and not that the key stream is the one of the game's library.
\<close>

record crypt_state =
  cards :: bytes
  rotor :: u8
  ratchet :: u8
  avalanche :: u8
  lastPlain :: u8
  lastCipher :: u8

definition card :: "crypt_state \<Rightarrow> u8 \<Rightarrow> u8" where
  "card s i = cards s ! unat i"

definition put :: "u8 \<Rightarrow> u8 \<Rightarrow> crypt_state \<Rightarrow> crypt_state" where
  "put i v s = s\<lparr>cards := (cards s)[unat i := v]\<rparr>"

subsection \<open>Keying\<close>

function next_mask :: "nat \<Rightarrow> nat \<Rightarrow> nat" where
  "next_mask limit m = (if m < limit then next_mask limit (2 * m + 1) else m)"
  by auto
termination by (relation "measure (\<lambda>(limit, m). limit - m)") auto

declare next_mask.simps [simp del]

text \<open>The draw of \<open>keyrand\<close>, with \<open>k\<close> tries left before \<open>retries\<close> reaches 11.\<close>

fun keyrand_loop :: "nat \<Rightarrow> nat \<Rightarrow> nat \<Rightarrow> bytes \<Rightarrow> bytes \<Rightarrow> nat \<Rightarrow> nat \<Rightarrow> nat \<times> nat \<times> nat" where
  "keyrand_loop k limit m key cs rsum keyPos =
     (let r = unat (cs ! rsum + key ! keyPos) mod length cs;
          p = keyPos + 1;
          wrap = p \<ge> length key;
          r' = (if wrap then (r + length key) mod length cs else r);
          p' = (if wrap then 0 else p);
          u = r' AND m
      in case k of
           0 \<Rightarrow> (u mod limit, r', p')
         | Suc k' \<Rightarrow> if u \<le> limit then (u, r', p') else keyrand_loop k' limit m key cs r' p')"

declare keyrand_loop.simps [simp del]

definition keyrand :: "nat \<Rightarrow> bytes \<Rightarrow> bytes \<Rightarrow> nat \<Rightarrow> nat \<Rightarrow> nat \<times> nat \<times> nat" where
  "keyrand limit key cs rsum keyPos =
     (if limit = 0 then (0, rsum, keyPos)
      else keyrand_loop 11 limit (next_mask limit 1) key cs rsum keyPos)"

definition init_swap :: "bytes \<Rightarrow> nat \<Rightarrow> bytes \<times> nat \<times> nat \<Rightarrow> bytes \<times> nat \<times> nat" where
  "init_swap challenge i st = (case st of (cs, rsum, keyPos) \<Rightarrow>
     case keyrand i challenge cs rsum keyPos of (toswap, rsum', keyPos') \<Rightarrow>
       (cs[i := cs ! toswap, toswap := cs ! i], rsum', keyPos'))"

definition init :: "bytes \<Rightarrow> crypt_state" where
  "init challenge =
     (case fold (init_swap challenge) (rev [0..<256]) (map of_nat [0..<256], 0, 0) of
        (cs, rsum, keyPos) \<Rightarrow>
          \<lparr>cards = cs, rotor = cs ! 1, ratchet = cs ! 3, avalanche = cs ! 5, lastPlain = cs ! 7,
           lastCipher = cs ! rsum\<rparr>)"

text \<open>\<open>initKey\<close> scrambles the challenge in place; \<open>i % len(key)\<close> panics for an empty key or challenge.\<close>

definition scramble :: "bytes \<Rightarrow> bytes \<Rightarrow> nat \<Rightarrow> bytes \<Rightarrow> bytes" where
  "scramble key keybytes i challenge =
     (let j = (unat (key ! (i mod length key)) * i) mod length challenge
      in challenge[j := challenge ! j XOR (challenge ! (i mod length challenge) XOR keybytes ! i)])"

definition initKey :: "bytes \<Rightarrow> bytes \<Rightarrow> bytes \<Rightarrow> (unit, crypt_state) outcome" where
  "initKey key challenge keybytes =
     (if challenge = [] \<or> (key = [] \<and> keybytes \<noteq> []) then Panic
      else Ret (init (fold (scramble key keybytes) [0..<length keybytes] challenge)))"

definition randLen :: nat where "randLen = 5"
definition keyLen :: nat where "keyLen = 8"

definition CreateHeader :: "bytes \<Rightarrow> bytes \<Rightarrow> bytes" where
  "CreateHeader rnd keybytes =
     [of_nat (randLen + 2) XOR 0xEC, 0, 0] @ rnd @ [of_nat keyLen XOR 0xEA] @ keybytes"

subsection \<open>Encryption\<close>

text \<open>The part of \<open>encryptByte\<close> before the exclusive-or: the registers move, four cards rotate.\<close>

definition shuffle :: "crypt_state \<Rightarrow> crypt_state" where
  "shuffle s0 =
     (let s1 = s0\<lparr>ratchet := ratchet s0 + card s0 (rotor s0)\<rparr>;
          s2 = s1\<lparr>rotor := rotor s1 + 1\<rparr>;
          swaptemp = card s2 (lastCipher s2);
          s3 = put (lastCipher s2) (card s2 (ratchet s2)) s2;
          s4 = put (ratchet s3) (card s3 (lastPlain s3)) s3;
          s5 = put (lastPlain s4) (card s4 (rotor s4)) s4;
          s6 = put (rotor s5) swaptemp s5
      in s6\<lparr>avalanche := avalanche s6 + card s6 swaptemp\<rparr>)"

definition keystream :: "crypt_state \<Rightarrow> u8" where
  "keystream s =
     (let first = card s (card s (avalanche s) + card s (rotor s));
          second = card s (card s (card s (lastPlain s) + card s (lastCipher s) + card s (ratchet s)))
      in first XOR second)"

definition remember :: "u8 \<Rightarrow> u8 \<Rightarrow> crypt_state \<Rightarrow> crypt_state" where
  "remember plain ciphertext s = s\<lparr>lastCipher := ciphertext, lastPlain := plain\<rparr>"

definition encryptByte :: "crypt_state \<Rightarrow> u8 \<Rightarrow> crypt_state \<times> u8" where
  "encryptByte s d =
     (let s' = shuffle s; ciphertext = d XOR keystream s'
      in (remember d ciphertext s', ciphertext))"

fun Encrypt :: "crypt_state \<Rightarrow> bytes \<Rightarrow> crypt_state \<times> bytes" where
  "Encrypt s [] = (s, [])"
| "Encrypt s (d # ds) =
     (case encryptByte s d of (s', c) \<Rightarrow> map_prod id ((#) c) (Encrypt s' ds))"

definition EncryptTypeX :: "bytes \<Rightarrow> bytes \<Rightarrow> bytes \<Rightarrow> bytes \<Rightarrow> bytes \<Rightarrow> (unit, bytes) outcome" where
  "EncryptTypeX key challenge data rnd keybytes =
     bind_outcome (initKey key challenge keybytes)
       (\<lambda>s. Ret (CreateHeader rnd keybytes @ snd (Encrypt s data)))"

subsection \<open>The cards are always a permutation\<close>

definition permuted :: "crypt_state \<Rightarrow> bool" where
  "permuted s \<longleftrightarrow> length (cards s) = 256 \<and> distinct (cards s)"

lemma move_hole:
  assumes "x < length c" and "y < length c"
  shows "mset ((c[x := c ! y])[y := t]) = mset (c[x := t])"
proof -
  show ?thesis
    using assms mset_swap [of y "c[x := t]" x] by (cases "x = y") simp_all
qed

lemma unat_card_bound: "length (cards s) = 256 \<Longrightarrow> unat (i :: u8) < length (cards s)"
  using unsigned_less [of i, where ?'a = nat] by simp

lemma mset_rotate:
  fixes a b p r :: u8
  assumes "length c = 256"
  defines "c1 \<equiv> c[unat a := c ! unat b]"
  defines "c2 \<equiv> c1[unat b := c1 ! unat p]"
  defines "c3 \<equiv> c2[unat p := c2 ! unat r]"
  shows "mset (c3[unat r := c ! unat a]) = mset c"
proof -
  have u: "unat (x :: u8) < 256" for x using unsigned_less [of x, where ?'a = nat] by simp
  let ?t = "c ! unat a"
  have "mset (c3[unat r := ?t]) = mset (c2[unat p := ?t])"
    unfolding c3_def by (rule move_hole) (simp_all add: c1_def c2_def assms(1) u)
  also have "\<dots> = mset (c1[unat b := ?t])"
    unfolding c2_def by (rule move_hole) (simp_all add: c1_def assms(1) u)
  also have "\<dots> = mset (c[unat a := ?t])"
    unfolding c1_def by (rule move_hole) (simp_all add: assms(1) u)
  finally show ?thesis by simp
qed

lemma mset_shuffle: "length (cards s) = 256 \<Longrightarrow> mset (cards (shuffle s)) = mset (cards s)"
  using mset_rotate [of "cards s" "lastCipher s" "ratchet s + card s (rotor s)" "lastPlain s" "rotor s + 1"]
  by (simp add: shuffle_def put_def card_def Let_def)

lemma permuted_mset: "mset (cards s') = mset (cards s) \<Longrightarrow> permuted s \<Longrightarrow> permuted s'"
  unfolding permuted_def by (metis mset_eq_imp_distinct_iff size_mset)

lemma permuted_shuffle: "permuted s \<Longrightarrow> permuted (shuffle s)"
  by (rule permuted_mset) (simp_all add: permuted_def mset_shuffle)

lemma permuted_remember: "permuted s \<Longrightarrow> permuted (remember p c s)"
  by (simp add: permuted_def remember_def)

interpretation typex: stream_cipher shuffle keystream remember permuted
  by unfold_locales (simp_all add: permuted_shuffle permuted_remember)

lemma Encrypt_typex: "Encrypt s ds = typex.encrypt s ds"
  by (induction ds arbitrary: s) (simp_all add: encryptByte_def Let_def)

subsection \<open>Keying ends with a permutation\<close>

lemma keyrand_loop_bound:
  assumes "0 < limit"
  shows "fst (keyrand_loop k limit m key cs rsum keyPos) \<le> limit"
proof (induction k arbitrary: rsum keyPos)
  case 0
  then show ?case
    using assms mod_less_divisor [of limit] by (subst keyrand_loop.simps) (simp add: Let_def less_imp_le)
next
  case (Suc k)
  then show ?case by (subst keyrand_loop.simps) (simp add: Let_def)
qed

lemma keyrand_bound: "fst (keyrand limit key cs rsum keyPos) \<le> limit"
  by (simp add: keyrand_def keyrand_loop_bound)

lemma mset_init_swap:
  assumes "length cs = 256" and "i < 256"
  shows "mset (fst (init_swap challenge i (cs, rsum, keyPos))) = mset cs"
proof -
  obtain t r p where k: "keyrand i challenge cs rsum keyPos = (t, r, p)" by (metis prod_cases3)
  then have "t < 256" using keyrand_bound [of i challenge cs rsum keyPos] assms(2) by simp
  then show ?thesis using assms mset_swap [of t cs i] by (simp add: init_swap_def k)
qed

lemma mset_init_fold:
  assumes "list_all (\<lambda>i. i < 256) is" and "length (fst st) = 256"
  shows "mset (fst (fold (init_swap challenge) is st)) = mset (fst st)"
  using assms
proof (induction "is" arbitrary: st)
  case (Cons i "is")
  obtain cs r p where st: "st = (cs, r, p)" by (cases st)
  have m: "mset (fst (init_swap challenge i st)) = mset (fst st)"
    using Cons.prems mset_init_swap [of cs i challenge r p] by (simp add: st)
  then have "length (fst (init_swap challenge i st)) = 256"
    using Cons.prems(2) by (metis size_mset)
  then show ?case using Cons m by simp
qed simp

lemma distinct_all_bytes: "distinct (map (of_nat :: nat \<Rightarrow> u8) [0..<256])"
proof -
  have "inj_on (of_nat :: nat \<Rightarrow> u8) {0..<256}"
  proof (rule inj_onI)
    fix x y :: nat assume "x \<in> {0..<256}" "y \<in> {0..<256}" "(of_nat x :: u8) = of_nat y"
    then have "unat (of_nat x :: u8) = unat (of_nat y :: u8)" "x < 256" "y < 256" by simp_all
    then show "x = y" by (simp add: unat_of_nat)
  qed
  then show ?thesis by (simp add: distinct_map)
qed

lemma permuted_init: "permuted (init challenge)"
proof -
  obtain cs r p where f: "fold (init_swap challenge) (rev [0..<256]) (map of_nat [0..<256], 0, 0) = (cs, r, p)"
    by (metis prod_cases3)
  have "list_all (\<lambda>i. i < 256) (rev [0..<256])" by (simp add: list_all_iff)
  from mset_init_fold [OF this, of "(map of_nat [0..<256], 0, 0)" challenge]
  have "mset cs = mset (map of_nat [0..<256])" by (simp add: f)
  then have "length cs = 256" "distinct cs"
    using distinct_all_bytes mset_eq_imp_distinct_iff [of cs] size_mset [of cs] by (metis length_map length_upt diff_zero size_mset)+
  then show ?thesis by (simp add: init_def f permuted_def)
qed

subsection \<open>What the client does with a reply\<close>

definition DecryptTypeX :: "bytes \<Rightarrow> bytes \<Rightarrow> bytes \<Rightarrow> (unit, bytes) outcome" where
  "DecryptTypeX key challenge packet =
     bind_outcome (at packet 0) (\<lambda>n0.
      let skip = 1 + unat (n0 XOR 0xEC) in
      bind_outcome (at packet skip) (\<lambda>k0.
      let klen = unat (k0 XOR 0xEA); start = skip + 1 in
      if length packet < start + klen then Panic
      else bind_outcome (initKey key challenge (subslice start (start + klen) packet))
        (\<lambda>s. Ret (snd (typex.decrypt s (drop (start + klen) packet))))))"

lemma DecryptTypeX_EncryptTypeX:
  assumes "key \<noteq> []" and "challenge \<noteq> []" and "length rnd = randLen" and "length keybytes = keyLen"
  shows "\<exists>packet. EncryptTypeX key challenge data rnd keybytes = Ret packet \<and>
    length packet = length data + 17 \<and> DecryptTypeX key challenge packet = Ret data"
proof -
  obtain s where s: "initKey key challenge keybytes = Ret s"
    using assms(1,2) by (simp add: initKey_def)
  define packet where "packet = CreateHeader rnd keybytes @ snd (Encrypt s data)"
  have len: "length rnd = 5" "length keybytes = 8" using assms by (simp_all add: randLen_def keyLen_def)
  have p: "packet = 0xEB # 0 # 0 # rnd @ 0xE2 # keybytes @ snd (Encrypt s data)"
    by (simp add: packet_def CreateHeader_def randLen_def keyLen_def)
  have k: "packet ! 8 = 0xE2" "packet ! 0 = 0xEB"
    using len by (simp_all add: p nth_append)
  have sub: "subslice 9 17 packet = keybytes"
    using subslice_append [of "0xEB # 0 # 0 # rnd @ [0xE2]" 9 keybytes 17 "snd (Encrypt s data)"] len
    by (simp add: p)
  have d: "drop 17 packet = snd (Encrypt s data)" using len by (simp add: p)
  have l: "length packet = length data + 17" using len by (simp add: p Encrypt_typex)
  have "DecryptTypeX key challenge packet = Ret (snd (typex.decrypt s (snd (Encrypt s data))))"
    using s l by (simp add: DecryptTypeX_def at_def k sub d Let_def)
  then show ?thesis
    using s l by (simp add: EncryptTypeX_def packet_def Encrypt_typex typex.decrypt_encrypt)
qed

subsection \<open>Properties\<close>

text \<open>The 256 cards are a permutation of all byte values after keying with any challenge, and stay
  one however much data is encrypted, so no index into them is ever out of range.\<close>

theorem cards_stay_permuted:
  "permuted (fst (Encrypt (init challenge) data))"
  using typex.inv_encrypt [OF permuted_init] by (simp add: Encrypt_typex)

end
