(* ===== verification/SBFraming.thy ===== *)
theory SBFraming
  imports GoNumbers
begin

text \<open>
  \<open>serverbrowser/main.go\<close>: reassembly of the length-prefixed requests of a TCP connection. A
  connection's buffer is the table \<open>connBuffers\<close>; \<open>HandlePacket\<close> is called with whatever bytes
  arrived. The requests it hands on are \<open>sb_event\<close>s; what the two handlers that do something compute
  is the subject of another theory. The commands that are only logged are \<open>Logged\<close>.
\<close>

datatype sb_event =
    ServerListCall bytes
  | SendMessageCall bytes
  | Logged u8
  | CloseCall

type_synonym conn_buffers = "nat \<rightharpoonup> bytes"

definition ServerListRequest :: u8 where "ServerListRequest = 0"
definition SendMessageRequest :: u8 where "SendMessageRequest = 2"

definition dispatch_request :: "u8 \<Rightarrow> bytes \<Rightarrow> sb_event" where
  "dispatch_request cmd packet =
     (if cmd = ServerListRequest then ServerListCall packet
      else if cmd = SendMessageRequest then SendMessageCall packet
      else Logged cmd)"

definition packet_size :: "bytes \<Rightarrow> nat" where
  "packet_size b = uint_be (take 2 b)"

text \<open>The buffer is reached through a pointer. When the connection had none, the new one is stored by
  the deferred function unless \<open>buffer\<close> was set to \<open>nil\<close>; when it had one, the map's entry points to
  what is assigned through the pointer.\<close>

definition store_new :: "conn_buffers \<Rightarrow> nat \<Rightarrow> bytes \<Rightarrow> conn_buffers" where
  "store_new conns i b = conns(i \<mapsto> b)"

definition store_if_present :: "conn_buffers \<Rightarrow> nat \<Rightarrow> bytes \<Rightarrow> conn_buffers" where
  "store_if_present conns i b = (if conns i = None then conns else conns(i \<mapsto> b))"

definition buffer_of :: "conn_buffers \<Rightarrow> nat \<Rightarrow> bytes" where
  "buffer_of conns i = (case conns i of None \<Rightarrow> [] | Some b \<Rightarrow> b)"

definition HandlePacket :: "conn_buffers \<Rightarrow> nat \<Rightarrow> bytes \<Rightarrow> conn_buffers \<times> sb_event list" where
  "HandlePacket conns i data =
     (let old = buffer_of conns i in
      if length old + length data > 0x1000 then (conns, [CloseCall])
      else
        let b = old @ data in
        if length b < 2 then (store_new conns i b, [])
        else
          let size = packet_size b in
          if size < 3 \<or> size > 0x1000 then (store_if_present conns i b, [CloseCall])
          else if length b < size then (store_new conns i b, [])
          else
            let e = dispatch_request (b ! 2) (take size b) in
            if length b > size then (store_new conns i (drop size b), [e])
            else (store_if_present conns i [], [e]))"

definition CloseConnection :: "conn_buffers \<Rightarrow> nat \<Rightarrow> conn_buffers" where
  "CloseConnection conns i = conns(i := None)"

fun feed :: "conn_buffers \<Rightarrow> nat \<Rightarrow> bytes list \<Rightarrow> conn_buffers \<times> sb_event list" where
  "feed conns i [] = (conns, [])"
| "feed conns i (d # ds) =
     (let (conns', es) = HandlePacket conns i d; (conns'', es') = feed conns' i ds in (conns'', es @ es'))"

subsection \<open>Buffers\<close>

lemma buffer_of_store [simp]:
  "buffer_of (store_new conns i b) j = (if j = i then b else buffer_of conns j)"
  by (simp add: store_new_def buffer_of_def)

lemma buffer_of_store_empty [simp]: "buffer_of (store_if_present conns i []) i = []"
  by (simp add: store_if_present_def buffer_of_def)

lemma HandlePacket_other:
  "j \<noteq> i \<Longrightarrow> fst (HandlePacket conns i data) j = conns j"
  by (simp add: HandlePacket_def Let_def store_new_def store_if_present_def)

lemma HandlePacket_buffer_bound:
  assumes "length (buffer_of conns i) \<le> 0x1000"
  shows "length (buffer_of (fst (HandlePacket conns i data)) i) \<le> 0x1000"
proof (cases "length (buffer_of conns i) + length data > 0x1000")
  case True
  then show ?thesis using assms by (simp add: HandlePacket_def)
next
  case False
  have "length (buffer_of (store_if_present conns i (buffer_of conns i @ data)) i) \<le> 0x1000"
    using False assms by (cases "conns i") (simp_all add: store_if_present_def buffer_of_def)
  then show ?thesis using False by (auto simp: HandlePacket_def Let_def)
qed

subsection \<open>Reassembly\<close>

definition framed :: "bytes \<Rightarrow> bool" where
  "framed p \<longleftrightarrow> 3 \<le> length p \<and> length p \<le> 0x1000 \<and> packet_size p = length p"

lemma packet_size_prefix: "2 \<le> length b \<Longrightarrow> packet_size (b @ r) = packet_size b"
  by (simp add: packet_size_def)

lemma HandlePacket_incomplete:
  assumes "framed p" and "p = buffer_of conns i @ d @ r" and "r \<noteq> []"
  shows "HandlePacket conns i d = (store_new conns i (buffer_of conns i @ d), [])"
proof -
  let ?b = "buffer_of conns i @ d"
  have len: "length ?b < length p" "length p \<le> 0x1000" using assms by (auto simp: framed_def)
  have "packet_size ?b = length p" if "2 \<le> length ?b"
    using packet_size_prefix [OF that, of r] assms by (simp add: framed_def)
  then show ?thesis
    using len assms(1) by (simp add: HandlePacket_def Let_def framed_def)
qed

lemma HandlePacket_complete:
  assumes "framed p" and "p = buffer_of conns i @ d"
  shows "HandlePacket conns i d = (store_if_present conns i [], [dispatch_request (p ! 2) p])"
  using assms by (simp add: HandlePacket_def Let_def framed_def)

lemma feed_idle:
  "buffer_of conns i = [] \<Longrightarrow> concat ds = [] \<Longrightarrow>
     snd (feed conns i ds) = [] \<and> buffer_of (fst (feed conns i ds)) i = []"
  by (induction ds arbitrary: conns) (auto simp: HandlePacket_def Let_def split: prod.splits)

lemma feed_framed:
  assumes "framed p"
  shows "p = buffer_of conns i @ concat ds \<Longrightarrow> concat ds \<noteq> [] \<Longrightarrow>
    snd (feed conns i ds) = [dispatch_request (p ! 2) p] \<and> buffer_of (fst (feed conns i ds)) i = []"
proof (induction ds arbitrary: conns)
  case (Cons d ds)
  show ?case
  proof (cases "concat ds = []")
    case True
    then have h: "HandlePacket conns i d = (store_if_present conns i [], [dispatch_request (p ! 2) p])"
      using Cons.prems by (intro HandlePacket_complete assms) simp
    show ?thesis
      using feed_idle [OF buffer_of_store_empty [of conns i] True] h by (simp add: case_prod_beta)
  next
    case False
    then have h: "HandlePacket conns i d = (store_new conns i (buffer_of conns i @ d), [])"
      using Cons.prems(1) by (intro HandlePacket_incomplete [OF assms _ False]) simp
    show ?thesis
      using Cons.IH [of "store_new conns i (buffer_of conns i @ d)"] Cons.prems False h
      by (simp add: case_prod_beta)
  qed
qed simp

subsection \<open>Properties\<close>

text \<open>However a well-formed request (whose first two bytes are its length) is cut into segments, the
  connection hands on exactly one request, the whole of it, and is left with an empty buffer.\<close>

theorem request_reassembled:
  assumes "framed p" and "concat ds = p" and "buffer_of conns i = []"
  shows "snd (feed conns i ds) = [dispatch_request (p ! 2) p] \<and> buffer_of (fst (feed conns i ds)) i = []"
proof (rule feed_framed [OF assms(1)])
  show "p = buffer_of conns i @ concat ds" using assms by simp
  show "concat ds \<noteq> []" using assms by (auto simp: framed_def simp del: concat_eq_Nil_conv)
qed

theorem request_reassembled_witness:
  "snd (feed Map.empty 7 [[0], [5, 0], [], [1, 2]]) = [dispatch_request ([0, 5, 0, 1, 2] ! 2) [0, 5, 0, 1, 2]] \<and>
   buffer_of (fst (feed Map.empty 7 [[0], [5, 0], [], [1, 2]])) 7 = []"
  by (rule request_reassembled) (simp_all add: framed_def packet_size_def uint_be_def buffer_of_def)

text \<open>Two requests that arrive in one segment: only the first is handed on, the second stays in the
  buffer until some later segment arrives, because \<open>HandlePacket\<close> takes at most one request per call.\<close>

theorem coalesced_request_waits:
  assumes "framed p" and "framed q" and "length p + length q \<le> 0x1000" and "buffer_of conns i = []"
  shows "snd (HandlePacket conns i (p @ q)) = [dispatch_request (p ! 2) p] \<and>
    buffer_of (fst (HandlePacket conns i (p @ q))) i = q"
proof -
  have s: "packet_size (p @ q) = length p" and "3 \<le> length p" "q \<noteq> []"
    using assms packet_size_prefix [of p q] by (auto simp: framed_def)
  moreover have "(p @ q) ! 2 = p ! 2" using assms by (simp add: framed_def nth_append)
  ultimately show ?thesis using assms by (simp add: HandlePacket_def Let_def framed_def s)
qed

theorem coalesced_request_waits_witness:
  "snd (HandlePacket Map.empty 7 ([0, 3, 0] @ [0, 4, 2, 9])) = [dispatch_request ([0, 3, 0] ! 2) [0, 3, 0]] \<and>
   buffer_of (fst (HandlePacket Map.empty 7 ([0, 3, 0] @ [0, 4, 2, 9]))) 7 = [0, 4, 2, 9]"
  by (rule coalesced_request_waits) (simp_all add: framed_def packet_size_def uint_be_def buffer_of_def)

end
