(* ===== verification/GameList.thy ===== *)
theory GameList
  imports GoNumbers
begin

text \<open>
  \<open>common/game_list.go\<close>: the table of games and its two indexes. The rows are what \<open>encoding/csv\<close>
  returns for the embedded file. A row that is too short or a number that does not parse panics at
  start-up.
\<close>

record stats_info =
  Key :: string
  Multiplier :: u32
  Increment :: u32
  Modulus :: u32
  ChecksumMask :: u32

record game_info =
  ID :: int
  Name :: string
  SecretKey :: string
  Stats :: stats_info
  Description :: string

record game_list =
  gameList :: "game_info list"
  gameListIDLookup :: "int \<rightharpoonup> nat"
  gameListNameLookup :: "string \<rightharpoonup> nat"

definition optional_number :: "string \<Rightarrow> int \<Rightarrow> (unit, int) outcome" where
  "optional_number s d =
     (if s = [] then Ret d else case atoi s of None \<Rightarrow> Panic | Some i \<Rightarrow> Ret i)"

definition read_game :: "string list \<Rightarrow> (unit, game_info) outcome" where
  "read_game entry =
     (if length entry < 9 then Panic
      else
        bind_outcome (optional_number (entry ! 2) (- 1)) (\<lambda>i.
        bind_outcome (optional_number (entry ! 5) 0) (\<lambda>mul.
        bind_outcome (optional_number (entry ! 6) 0) (\<lambda>incr.
        bind_outcome (optional_number (entry ! 7) 0) (\<lambda>modu.
        bind_outcome (optional_number (entry ! 8) 0) (\<lambda>mask.
          Ret \<lparr>ID = i, Name = entry ! 1, SecretKey = entry ! 3,
               Stats = \<lparr>Key = entry ! 4, Multiplier = of_int mul, Increment = of_int incr,
                        Modulus = of_int modu, ChecksumMask = of_int mask\<rparr>,
               Description = entry ! 0\<rparr>))))))"

text \<open>One iteration of the loop: the game is appended and becomes the one its ID and name refer to.\<close>

definition add_game :: "game_info \<Rightarrow> game_list \<Rightarrow> game_list" where
  "add_game g gl =
     (let index = length (gameList gl)
      in gl\<lparr>gameList := gameList gl @ [g],
            gameListIDLookup :=
              (if ID g \<noteq> - 1 then (gameListIDLookup gl)(ID g \<mapsto> index) else gameListIDLookup gl),
            gameListNameLookup := (gameListNameLookup gl)(Name g \<mapsto> index)\<rparr>)"

definition empty_games :: game_list where
  "empty_games = \<lparr>gameList = [], gameListIDLookup = Map.empty, gameListNameLookup = Map.empty\<rparr>"

fun read_rows :: "string list list \<Rightarrow> game_list \<Rightarrow> (unit, game_list) outcome" where
  "read_rows [] gl = Ret gl"
| "read_rows (e # es) gl = bind_outcome (read_game e) (\<lambda>g. read_rows es (add_game g gl))"

definition ReadGameList :: "string list list \<Rightarrow> (unit, game_list) outcome" where
  "ReadGameList csvList = read_rows csvList empty_games"

definition GetGameInfoByID :: "game_list \<Rightarrow> int \<Rightarrow> game_info option" where
  "GetGameInfoByID gl gameId =
     (case gameListIDLookup gl gameId of
        Some index \<Rightarrow> if index < length (gameList gl) then Some (gameList gl ! index) else None
      | None \<Rightarrow> None)"

definition GetGameInfoByName :: "game_list \<Rightarrow> string \<Rightarrow> game_info option" where
  "GetGameInfoByName gl name =
     (case gameListNameLookup gl name of
        Some index \<Rightarrow> if index < length (gameList gl) then Some (gameList gl ! index) else None
      | None \<Rightarrow> None)"

definition GetGameID :: "game_list \<Rightarrow> string \<Rightarrow> int" where
  "GetGameID gl name = (case GetGameInfoByName gl name of None \<Rightarrow> - 1 | Some info \<Rightarrow> ID info)"

definition GetGameIDOrPanic :: "game_list \<Rightarrow> string \<Rightarrow> (unit, int) outcome" where
  "GetGameIDOrPanic gl name = (let i = GetGameID gl name in if i = - 1 then Panic else Ret i)"

definition GetExpectedUnitCode :: "string \<Rightarrow> u8" where
  "GetExpectedUnitCode gameName =
     (if has_suffix gameName ''wii'' \<or> has_suffix gameName ''wiiam'' then 1
      else if gameName \<in> {''sneezieswiiw'', ''wormswiiware'', ''wormswiiwaream''} then 1
      else if gameName \<in> {''jockracerna'', ''jockracereu'', ''sengo3wiijp''} then 1
      else if gameName \<in> {''mahjongkcds'', ''puyopuyo7ds'', ''puyopuyo20ds''} then 0xFF
      else 0)"

subsection \<open>The indexes\<close>

text \<open>The last game of the list with a name, or an ID.\<close>

definition last_game :: "(game_info \<Rightarrow> bool) \<Rightarrow> game_info list \<Rightarrow> game_info option" where
  "last_game p gs = find p (rev gs)"

definition indexed :: "game_list \<Rightarrow> bool" where
  "indexed gl \<longleftrightarrow>
     (\<forall>n. GetGameInfoByName gl n = last_game (\<lambda>g. Name g = n) (gameList gl)) \<and>
     (\<forall>i. GetGameInfoByID gl i = last_game (\<lambda>g. ID g = i \<and> i \<noteq> - 1) (gameList gl)) \<and>
     (\<forall>n i. gameListNameLookup gl n = Some i \<longrightarrow> i < length (gameList gl)) \<and>
     (\<forall>n i. gameListIDLookup gl n = Some i \<longrightarrow> i < length (gameList gl))"

lemma indexed_empty: "indexed empty_games"
  by (simp add: indexed_def empty_games_def GetGameInfoByName_def GetGameInfoByID_def last_game_def)

lemma last_game_snoc: "last_game p (gs @ [g]) = (if p g then Some g else last_game p gs)"
  by (simp add: last_game_def)

lemma lookups_add_game:
  assumes "\<And>n i. gameListNameLookup gl n = Some i \<Longrightarrow> i < length (gameList gl)"
    and "\<And>n i. gameListIDLookup gl n = Some i \<Longrightarrow> i < length (gameList gl)"
  shows "GetGameInfoByName (add_game g gl) n = (if Name g = n then Some g else GetGameInfoByName gl n)"
    and "GetGameInfoByID (add_game g gl) j = (if ID g = j \<and> j \<noteq> - 1 then Some g else GetGameInfoByID gl j)"
proof -
  show "GetGameInfoByName (add_game g gl) n = (if Name g = n then Some g else GetGameInfoByName gl n)"
    using assms(1) [of n]
    by (cases "gameListNameLookup gl n")
       (simp_all add: GetGameInfoByName_def add_game_def nth_append Let_def)
  show "GetGameInfoByID (add_game g gl) j = (if ID g = j \<and> j \<noteq> - 1 then Some g else GetGameInfoByID gl j)"
    using assms(2) [of j]
    by (cases "gameListIDLookup gl j")
       (simp_all add: GetGameInfoByID_def add_game_def nth_append Let_def)
qed

lemma indexed_add_game:
  assumes "indexed gl"
  shows "indexed (add_game g gl)"
proof -
  have b: "gameListNameLookup gl n = Some i \<Longrightarrow> i < length (gameList gl)"
    "gameListIDLookup gl j = Some i \<Longrightarrow> i < length (gameList gl)" for n i j
    using assms by (auto simp: indexed_def)
  have "gameList (add_game g gl) = gameList gl @ [g]" by (simp add: add_game_def Let_def)
  moreover have "gameListNameLookup (add_game g gl) n = Some i \<Longrightarrow> i < length (gameList gl @ [g])" for n i
    using b(1) [of n i] by (auto simp: add_game_def Let_def split: if_splits)
  moreover have "gameListIDLookup (add_game g gl) n = Some i \<Longrightarrow> i < length (gameList gl @ [g])" for n i
    using b(2) [of n i] by (auto simp: add_game_def Let_def split: if_splits)
  ultimately show ?thesis
    using assms lookups_add_game [of gl g, OF b] unfolding indexed_def by (simp add: last_game_snoc)
qed

lemma indexed_read_rows: "indexed gl \<Longrightarrow> read_rows es gl = Ret gl' \<Longrightarrow> indexed gl'"
proof (induction es arbitrary: gl)
  case (Cons e es)
  then obtain g where "read_rows es (add_game g gl) = Ret gl'" by auto
  then show ?case using Cons indexed_add_game by blast
qed simp

subsection \<open>Properties\<close>

text \<open>After the table is read, looking a game up by name finds the last row with that name, and by
  identifier the last row with it; a row without an identifier is never found under \<open>-1\<close>, so the
  identifier of an unknown game cannot be mistaken for a game.\<close>

theorem game_lookups:
  assumes "ReadGameList csvList = Ret gl"
  shows "GetGameInfoByName gl n = last_game (\<lambda>g. Name g = n) (gameList gl) \<and>
    GetGameInfoByID gl i = last_game (\<lambda>g. ID g = i \<and> i \<noteq> - 1) (gameList gl) \<and>
    GetGameInfoByID gl (- 1) = None"
proof -
  have "indexed gl" using assms indexed_read_rows [OF indexed_empty] by (simp add: ReadGameList_def)
  then show ?thesis by (auto simp: indexed_def last_game_def find_None_iff)
qed

definition sample_rows :: "string list list" where
  "sample_rows = [[''Sample'', ''samplewii'', ''7'', ''secret'', [], [], [], [], []]]"

theorem game_lookups_witness:
  "\<exists>gl. ReadGameList sample_rows = Ret gl \<and>
    GetGameInfoByName gl ''x'' = last_game (\<lambda>g. Name g = ''x'') (gameList gl) \<and>
    GetGameInfoByID gl 7 = last_game (\<lambda>g. ID g = 7 \<and> (7::int) \<noteq> - 1) (gameList gl) \<and>
    GetGameInfoByID gl (- 1) = None"
proof -
  obtain gl where gl: "ReadGameList sample_rows = Ret gl"
    by (simp add: ReadGameList_def sample_rows_def read_game_def optional_number_def atoi_def
        parse_int_def digit_val_def)
  then show ?thesis using game_lookups [OF gl] by blast
qed

end
