(* ===== verification/IpAddress.thy ===== *)
theory IpAddress
  imports GoNumbers
begin

text \<open>
  \<open>common/ip_address.go\<close>: IPv4 endpoints and the integer and text forms the protocols use for them.
  \<open>addr_String\<close> is \<open>net.UDPAddr.String\<close>; \<open>ParseAddr\<close> and \<open>ParseAddrPort\<close> are those of \<open>net/netip\<close> on
  dotted-decimal text. IPv6 text is not modelled: the server listens on IPv4 addresses. An address
  that does not parse makes \<open>AsSlice\<close> empty and \<open>binary.BigEndian.Uint32\<close> panic.
\<close>

record endpoint =
  IP :: u32
  Port :: u16

definition host_string :: "u32 \<Rightarrow> string" where
  "host_string ip = join_char CHR ''.'' (map (\<lambda>b. format_uint (unat b)) (be32 ip))"

definition addr_String :: "endpoint \<Rightarrow> string" where
  "addr_String a = host_string (IP a) @ CHR '':'' # format_uint (unat (Port a))"

definition parse_octet :: "string \<Rightarrow> u8 option" where
  "parse_octet s =
     (if s = [] \<or> (1 < length s \<and> hd s = CHR ''0'') then None
      else case parse_dec 0 s of
        None \<Rightarrow> None
      | Some n \<Rightarrow> if n \<le> 255 then Some (of_nat n) else None)"

definition ParseAddr :: "string \<Rightarrow> u32 option" where
  "ParseAddr s =
     (case map parse_octet (split_char CHR ''.'' s) of
        [Some a, Some b, Some c, Some d] \<Rightarrow> Some (of_nat (uint_be [a, b, c, d]))
      | _ \<Rightarrow> None)"

definition cut_last :: "char \<Rightarrow> string \<Rightarrow> (string \<times> string) option" where
  "cut_last c s =
     (let tail = rev (takeWhile (\<lambda>x. x \<noteq> c) (rev s))
      in if c \<in> set s then Some (take (length s - length tail - 1) s, tail) else None)"

definition ParseAddrPort :: "string \<Rightarrow> endpoint option" where
  "ParseAddrPort s =
     (case cut_last CHR '':'' s of
        None \<Rightarrow> None
      | Some (host, port) \<Rightarrow>
          (case (ParseAddr host, parse_uint 16 port) of
             (Some ip, Some p) \<Rightarrow> Some \<lparr>IP = ip, Port = of_nat p\<rparr>
           | _ \<Rightarrow> None))"

definition IPFormatToInt :: "string \<Rightarrow> (unit, u32 \<times> u16) outcome" where
  "IPFormatToInt ip =
     (case ParseAddrPort ip of
        Some ap \<Rightarrow> Ret (IP ap, Port ap)
      | None \<Rightarrow> (case ParseAddr ip of Some a \<Rightarrow> Ret (a, 0) | None \<Rightarrow> Panic))"

definition IPFormatToString :: "string \<Rightarrow> (unit, string \<times> string) outcome" where
  "IPFormatToString ip =
     bind_outcome (IPFormatToInt ip) (\<lambda>(intIP, intPort).
       Ret (format_int (sint intIP), format_int (uint intPort)))"

definition ReverseBytes32 :: "u32 \<Rightarrow> u32" where
  "ReverseBytes32 w = of_nat (uint_be (rev (be32 w)))"

definition IPFormatToStringLE :: "string \<Rightarrow> (unit, string \<times> string) outcome" where
  "IPFormatToStringLE ip =
     bind_outcome (IPFormatToInt ip) (\<lambda>(intIP, intPort).
       Ret (format_int (sint (ReverseBytes32 intIP)), format_int (uint intPort)))"

definition IPFormatBytes :: "string \<Rightarrow> bytes" where
  "IPFormatBytes ip =
     (case ParseAddrPort ip of
        Some ap \<Rightarrow> be32 (IP ap)
      | None \<Rightarrow> (case ParseAddr ip of Some a \<Rightarrow> be32 a | None \<Rightarrow> []))"

subsection \<open>Printing and parsing\<close>

lemma format_uint_hd: "0 < n \<Longrightarrow> hd (format_uint n) \<noteq> CHR ''0''"
proof (induction n rule: format_uint.induct)
  case (1 n)
  show ?case
  proof (cases "n < 10")
    case True
    have "digit_val (digit_char n) \<noteq> digit_val (CHR ''0'')"
      using True 1(2) by (simp add: digit_val_def [of "CHR ''0''"])
    then have "digit_char n \<noteq> CHR ''0''" by metis
    then show ?thesis using True by (subst format_uint.simps) simp
  next
    case False
    then show ?thesis using 1 by (subst format_uint.simps) simp
  qed
qed

lemma parse_octet_format: "parse_octet (format_uint (unat (b :: u8))) = Some b"
proof -
  have le: "unat b \<le> 255" using unsigned_less [of b, where ?'a = nat] by simp
  have "\<not> (1 < length (format_uint (unat b)) \<and> hd (format_uint (unat b)) = CHR ''0'')"
  proof (cases "unat b = 0")
    case True
    then show ?thesis by (simp add: format_uint.simps)
  next
    case False
    then show ?thesis using format_uint_hd [of "unat b"] by simp
  qed
  then show ?thesis using le by (simp add: parse_octet_def)
qed

lemma not_in_digits: "digit_val c = None \<Longrightarrow> c \<notin> set (format_uint n)"
  using format_uint_digits by blast

lemma no_dot_colon [simp]: "CHR ''.'' \<notin> set (format_uint n)" "CHR '':'' \<notin> set (format_uint n)"
  by (rule not_in_digits, simp add: digit_val_def)+

lemma ParseAddr_host [simp]: "ParseAddr (host_string ip) = Some ip"
proof -
  obtain a b c d where b: "be32 ip = [a, b, c, d]" by (simp add: be32_def)
  let ?ps = "map (\<lambda>b. format_uint (unat b)) (be32 ip)"
  have "split_char CHR ''.'' (join_char CHR ''.'' ?ps) = ?ps"
    by (rule split_join_char) (auto simp: b)
  then have "split_char CHR ''.'' (host_string ip) = ?ps" by (simp add: host_string_def)
  moreover have "of_nat (uint_be [a, b, c, d]) = ip" using uint_be_be32 [of ip] by (simp add: b)
  ultimately show ?thesis by (simp add: ParseAddr_def b parse_octet_format)
qed

lemma cut_last_append:
  assumes "c \<notin> set t"
  shows "cut_last c (h @ c # t) = Some (h, t)"
proof -
  have "takeWhile (\<lambda>x. x \<noteq> c) (rev t @ c # rev h) = rev t"
    using assms by (auto simp: takeWhile_append2 takeWhile_tail)
  then show ?thesis by (simp add: cut_last_def)
qed

lemma ParseAddrPort_String [simp]: "ParseAddrPort (addr_String a) = Some a"
proof -
  have "unat (Port a) < 2 ^ 16" using unsigned_less [of "Port a", where ?'a = nat] by simp
  then have "parse_uint 16 (format_uint (unat (Port a))) = Some (unat (Port a))"
    by (rule parse_uint_format_uint)
  then show ?thesis
    by (cases a) (simp add: ParseAddrPort_def addr_String_def cut_last_append)
qed

lemma IPFormatToInt_String [simp]: "IPFormatToInt (addr_String a) = Ret (IP a, Port a)"
  by (simp add: IPFormatToInt_def)

lemma addr_String_inject [simp]: "addr_String a = addr_String b \<longleftrightarrow> a = b"
  by (metis ParseAddrPort_String option.inject)

end
