(* ===== verification/Qr2.thy ===== *)
theory Qr2
  imports IpAddress GameList GoBase64
begin

text \<open>
  Package \<open>qr2\<close>: the table of game servers announced over UDP. \<open>handleConnection\<close> is the handler of
  one datagram; the goroutine that repeats a challenge is a value of \<open>challenger\<close> in the state and
  \<open>challenge_step\<close> one turn of its loop; \<open>now\<close> is \<open>time.Now().UTC().Unix()\<close> and \<open>rnd\<close> the random
  letters of a challenge. Datagrams sent and events logged are the output list. The receive buffer
  is a fresh array of 1024 bytes, so reading past a short datagram yields zeros. Each handler runs
  in one piece, which is what the session mutex gives the parts of it that touch the table.
\<close>

record session =
  SessionID :: u32
  Addr :: endpoint
  Challenge :: string
  Authenticated :: bool
  LastKeepAlive :: int
  Endianness :: u8
  SessionData :: "string \<rightharpoonup> string"
  PacketCount :: u32
  messageAckWaker :: bool

record challenger =
  ch_addr :: endpoint
  ch_lookup :: u64
  ch_response :: bytes
  ch_left :: nat

record qr2_state =
  sessions :: "u64 \<rightharpoonup> session"
  challengers :: "challenger list"

datatype qr2_out =
    SendTo endpoint bytes
  | ServerCreated u32 "string \<rightharpoonup> string" endpoint
  | ServerShutdown u32 "string \<rightharpoonup> string" endpoint

definition ClientLittleEndian :: u8 where "ClientLittleEndian = 0"
definition ClientBigEndian :: u8 where "ClientBigEndian = 1"
definition ClientNoEndian :: u8 where "ClientNoEndian = 2"

definition ChallengeRequest :: u8 where "ChallengeRequest = 1"
definition HeartbeatRequest :: u8 where "HeartbeatRequest = 3"
definition ClientMessageRequest :: u8 where "ClientMessageRequest = 6"
definition ClientMessageAckRequest :: u8 where "ClientMessageAckRequest = 7"
definition KeepAliveRequest :: u8 where "KeepAliveRequest = 8"
definition AvailableRequest :: u8 where "AvailableRequest = 9"
definition ClientRegisteredReply :: u8 where "ClientRegisteredReply = 0x0A"

definition createResponseHeader :: "u8 \<Rightarrow> u32 \<Rightarrow> bytes" where
  "createResponseHeader command sessionId = [0xFE, 0xFD, command] @ be32 sessionId"

subsection \<open>Sessions\<close>

definition lookup_of :: "endpoint \<Rightarrow> u64" where
  "lookup_of a = push_bit 32 (ucast (Port a)) OR ucast (IP a)"

definition makeLookupAddr :: "string \<Rightarrow> (unit, u64) outcome" where
  "makeLookupAddr addr =
     bind_outcome (IPFormatToInt addr) (\<lambda>(ip, port). Ret (push_bit 32 (ucast port) OR ucast ip))"

lemma makeLookupAddr_String [simp]: "makeLookupAddr (addr_String a) = Ret (lookup_of a)"
  by (simp add: makeLookupAddr_def lookup_of_def)

definition removeSession :: "u64 \<Rightarrow> qr2_state \<Rightarrow> qr2_state" where
  "removeSession addr st = st\<lparr>sessions := (sessions st)(addr := None)\<rparr>"

definition setSessionData ::
  "int \<Rightarrow> endpoint \<Rightarrow> u32 \<Rightarrow> (string \<rightharpoonup> string) \<Rightarrow> qr2_state \<Rightarrow> qr2_state \<times> session option" where
  "setSessionData now addr sessionId payload st =
     (let l = lookup_of addr in
      case sessions st l of
        Some s \<Rightarrow>
          if addr_String (Addr s) \<noteq> addr_String addr then (st, None)
          else
            let s' = s\<lparr>SessionData := payload, LastKeepAlive := now, SessionID := sessionId\<rparr>
            in (st\<lparr>sessions := (sessions st)(l \<mapsto> s')\<rparr>, Some s')
      | None \<Rightarrow>
          let s' = \<lparr>SessionID = sessionId, Addr = addr, Challenge = [], Authenticated = False,
                    LastKeepAlive = now, Endianness = ClientNoEndian, SessionData = payload,
                    PacketCount = 0, messageAckWaker = False\<rparr>
          in (st\<lparr>sessions := (sessions st)(l \<mapsto> s')\<rparr>, Some s'))"

text \<open>The sessions in the order the map iteration visits them; it returns the data of the fresh,
  authenticated ones and removes those not heard of for an hour.\<close>

definition fresh :: "int \<Rightarrow> session \<Rightarrow> bool" where
  "fresh now s \<longleftrightarrow> \<not> LastKeepAlive s < now - 60"

definition expired :: "int \<Rightarrow> session \<Rightarrow> bool" where
  "expired now s \<longleftrightarrow> LastKeepAlive s < now - 60 \<and> LastKeepAlive s < now - 60 * 60 * 1"

definition listed :: "int \<Rightarrow> qr2_state \<Rightarrow> u64 \<Rightarrow> bool" where
  "listed now st l = (case sessions st l of None \<Rightarrow> False | Some s \<Rightarrow> fresh now s \<and> Authenticated s)"

definition unreachable :: "int \<Rightarrow> qr2_state \<Rightarrow> u64 \<Rightarrow> bool" where
  "unreachable now st l = (case sessions st l of None \<Rightarrow> False | Some s \<Rightarrow> expired now s)"

definition GetSessionServers ::
  "int \<Rightarrow> u64 list \<Rightarrow> qr2_state \<Rightarrow> qr2_state \<times> (string \<rightharpoonup> string) list" where
  "GetSessionServers now order st =
     (fold removeSession (filter (unreachable now st) order) st,
      map (\<lambda>l. SessionData (the (sessions st l))) (filter (listed now st) order))"

subsection \<open>Challenges\<close>

definition hex_upper_digit :: "nat \<Rightarrow> char" where
  "hex_upper_digit n = (if n < 10 then char_of (48 + n) else char_of (55 + n))"

definition hex_upper :: "u8 \<Rightarrow> string" where
  "hex_upper b = [hex_upper_digit (unat b div 16), hex_upper_digit (unat b mod 16)]"

definition newChallenge :: "string \<Rightarrow> endpoint \<Rightarrow> string" where
  "newChallenge rnd addr =
     rnd @ ''00'' @ concat (map hex_upper (be32 (IP addr))) @ concat (map hex_upper (be16 (Port addr)))"

text \<open>\<open>sendChallenge\<close> gets a copy of the session; the new challenge is stored in the table.\<close>

definition sendChallenge :: "string \<Rightarrow> endpoint \<Rightarrow> session \<Rightarrow> u64 \<Rightarrow> qr2_state \<Rightarrow> qr2_state" where
  "sendChallenge rnd addr s l st =
     (let start = (\<lambda>challenge st'.
            st'\<lparr>challengers := challengers st' @
              [\<lparr>ch_addr = addr, ch_lookup = l,
                ch_response = createResponseHeader ChallengeRequest (SessionID s) @ bytes_of challenge @ [0],
                ch_left = 5\<rparr>]\<rparr>)
      in if Challenge s \<noteq> [] then start (Challenge s) st
         else case sessions st l of
           None \<Rightarrow> st
         | Some p \<Rightarrow>
             let challenge = newChallenge rnd addr
             in start challenge (st\<lparr>sessions := (sessions st)(l \<mapsto> p\<lparr>Challenge := challenge\<rparr>)\<rparr>))"

text \<open>One turn of the loop of a challenger: \<open>err\<close> tells whether \<open>WriteTo\<close> failed, \<open>now\<close> is the time after
  the second's sleep.\<close>

definition challenge_step ::
  "int \<Rightarrow> bool \<Rightarrow> challenger \<Rightarrow> qr2_state \<Rightarrow> qr2_state \<times> challenger option \<times> qr2_out list" where
  "challenge_step now err c st =
     (if ch_left c = 0 then (removeSession (ch_lookup c) st, None, [])
      else
        let out = (if err then [] else [SendTo (ch_addr c) (ch_response c)]);
            c' = c\<lparr>ch_left := ch_left c - 1\<rparr>
        in if err then (st, Some c', out)
           else case sessions st (ch_lookup c) of
             None \<Rightarrow> (st, None, out)
           | Some s \<Rightarrow>
               if Authenticated s \<or> LastKeepAlive s < now - 60 then (st, None, out)
               else (st, Some (c'\<lparr>ch_addr := Addr s\<rparr>), out))"

definition run_challenger :: "int \<Rightarrow> bool \<Rightarrow> nat \<Rightarrow> qr2_state \<Rightarrow> qr2_state \<times> qr2_out list" where
  "run_challenger now err i st =
     (if i < length (challengers st) then
        case challenge_step now err (challengers st ! i) st of
          (st', None, out) \<Rightarrow>
            (st'\<lparr>challengers := take i (challengers st') @ drop (Suc i) (challengers st')\<rparr>, out)
        | (st', Some c, out) \<Rightarrow> (st'\<lparr>challengers := (challengers st')[i := c]\<rparr>, out)
      else (st, []))"

text \<open>The keyed cipher of a challenge response. The key index is a byte taken modulo the key length as
  a byte.\<close>

definition qr2_swap :: "u8 \<Rightarrow> u8 \<Rightarrow> bytes \<Rightarrow> bytes" where
  "qr2_swap a b s = s[unat a := s ! unat b, unat b := s ! unat a]"

definition key_step :: "bytes \<Rightarrow> nat \<Rightarrow> bytes \<times> u8 \<times> u8 \<Rightarrow> bytes \<times> u8 \<times> u8" where
  "key_step key counter st = (case st of (s, x, y) \<Rightarrow>
     let y' = key ! unat x + s ! counter + y;
         x' = (x + 1) mod of_nat (length key)
     in (qr2_swap (of_nat counter) y' s, x', y'))"

fun cipher_bytes :: "bytes \<Rightarrow> u8 \<Rightarrow> u8 \<Rightarrow> bytes \<Rightarrow> bytes" where
  "cipher_bytes s x y [] = []"
| "cipher_bytes s x y (d # ds) =
     (let x' = x + d + 1;
          y' = s ! unat x' + y;
          s' = qr2_swap x' y' s;
          xorIdx = s' ! unat x' + s' ! unat y'
      in (d XOR s' ! unat xorIdx) # cipher_bytes s' x' y' ds)"

definition encrypt :: "bytes \<Rightarrow> bytes \<Rightarrow> (unit, bytes) outcome" where
  "encrypt key data =
     (if length key mod 256 = 0 then Panic
      else case fold (key_step key) [0..<256] (map of_nat [0..<256], 0, 0) of
        (s, _, _) \<Rightarrow> Ret (cipher_bytes s 0 0 data))"

definition encode :: "bytes \<Rightarrow> string" where
  "encode data =
     b64_encode StdEncoding (data @ replicate ((length data + 2) div 3 * 3 - length data) 0)"

definition challenge_response :: "game_info \<Rightarrow> session \<Rightarrow> (unit, string) outcome" where
  "challenge_response game s =
     bind_outcome (encrypt (bytes_of (SecretKey game)) (bytes_of (Challenge s))) (\<lambda>r. Ret (encode r))"

subsection \<open>Heartbeats\<close>

definition NUL :: char where "NUL = CHR 0x00"

fun payload_pairs :: "string list \<Rightarrow> (string \<rightharpoonup> string) \<Rightarrow> (string \<rightharpoonup> string)" where
  "payload_pairs (k # v # r) m = payload_pairs r (if k = [] then m else m(k \<mapsto> v))"
| "payload_pairs _ m = m"

definition padded :: "bytes \<Rightarrow> bytes" where
  "padded buffer = buffer @ replicate (1024 - length buffer) 0"

definition packet_session_id :: "bytes \<Rightarrow> u32" where
  "packet_session_id buffer = of_nat (uint_be (subslice 1 5 (padded buffer)))"

text \<open>The public address the client announced is compared with the one the datagram came from, in the
  byte order of the game's console; then it is replaced by the latter. \<open>None\<close> is a mismatch; the flag
  tells that no address was announced.\<close>

definition checked_payload ::
  "endpoint \<Rightarrow> (string \<rightharpoonup> string) \<Rightarrow> (unit, ((string \<rightharpoonup> string) \<times> bool) option) outcome" where
  "checked_payload addr payload =
     bind_outcome (IPFormatToString (addr_String addr)) (\<lambda>(realIP, realPort).
     bind_outcome (IPFormatToStringLE (addr_String addr)) (\<lambda>(realIPLE, realPortLE).
       let noIP = (payload ''publicip'' = None \<or> mget payload ''publicip'' = ''0'');
           clientEndianness = GetExpectedUnitCode (mget payload ''gamename'')
       in Ret (
         if \<not> noIP \<and> clientEndianness = ClientBigEndian \<and>
              (mget payload ''publicip'' \<noteq> realIP \<or> mget payload ''publicport'' \<noteq> realPort)
         then None
         else if \<not> noIP \<and> clientEndianness = ClientLittleEndian \<and>
              (mget payload ''publicip'' \<noteq> realIPLE \<or> mget payload ''publicport'' \<noteq> realPortLE)
         then None
         else Some (payload(''publicip'' \<mapsto> realIP, ''publicport'' \<mapsto> realPort), noIP))))"

definition announce ::
  "int \<Rightarrow> string \<Rightarrow> endpoint \<Rightarrow> u32 \<Rightarrow> (string \<rightharpoonup> string) \<Rightarrow> bool \<Rightarrow> u64 \<Rightarrow> qr2_state \<Rightarrow> qr2_state \<times> qr2_out list" where
  "announce now rnd addr sessionId payload noIP lookupAddr st =
     (if payload ''statechanged'' = Some ''2''
      then (removeSession lookupAddr st, [ServerShutdown sessionId payload addr])
      else case setSessionData now addr sessionId payload st of
        (st', None) \<Rightarrow> (st', [])
      | (st', Some s) \<Rightarrow>
          if \<not> Authenticated s \<or> noIP then (sendChallenge rnd addr s lookupAddr st', [])
          else (st', []))"

definition wire_payload :: "bytes \<Rightarrow> (string \<rightharpoonup> string)" where
  "wire_payload buffer = payload_pairs (split_char NUL (string_of (drop 5 buffer))) Map.empty"

definition heartbeat ::
  "int \<Rightarrow> string \<Rightarrow> endpoint \<Rightarrow> bytes \<Rightarrow> qr2_state \<Rightarrow> (unit, qr2_state \<times> qr2_out list) outcome" where
  "heartbeat now rnd addr buffer st =
     (if length buffer < 5 then Panic
      else
        bind_outcome
          (checked_payload addr (wire_payload buffer))
          (\<lambda>r. case r of
             None \<Rightarrow> Ret (st, [])
           | Some (payload, noIP) \<Rightarrow>
               bind_outcome (makeLookupAddr (addr_String addr)) (\<lambda>lookupAddr.
                 Ret (announce now rnd addr (packet_session_id buffer) payload noIP lookupAddr st))))"

subsection \<open>The datagram handler\<close>

definition authenticate ::
  "game_list \<Rightarrow> endpoint \<Rightarrow> bytes \<Rightarrow> u64 \<Rightarrow> session \<Rightarrow> qr2_state \<Rightarrow> (unit, qr2_state \<times> qr2_out list) outcome" where
  "authenticate gl addr buffer l s st =
     (if Challenge s = [] then Ret (st, [])
      else case GetGameInfoByName gl (mget (SessionData s) ''gamename'') of
        None \<Rightarrow> Ret (st, [])
      | Some game \<Rightarrow>
          if length buffer < 5 then Ret (st, [])
          else
            let challenge = trim_suffix (string_of (drop 5 buffer)) [NUL] in
            bind_outcome (challenge_response game s) (\<lambda>expected.
            if challenge \<noteq> expected then Ret (st, [])
            else
              Ret (st\<lparr>sessions := (sessions st)(l \<mapsto> s\<lparr>Authenticated := True\<rparr>)\<rparr>,
                   [ServerCreated (SessionID s) (SessionData s) addr,
                    SendTo addr (createResponseHeader ClientRegisteredReply (SessionID s))])))"

definition handleConnection ::
  "game_list \<Rightarrow> int \<Rightarrow> string \<Rightarrow> endpoint \<Rightarrow> bytes \<Rightarrow> qr2_state \<Rightarrow> (unit, qr2_state \<times> qr2_out list) outcome" where
  "handleConnection gl now rnd addr buffer st =
     bind_outcome (at buffer 0) (\<lambda>packetType.
     if packetType = HeartbeatRequest then heartbeat now rnd addr buffer st
     else if packetType = AvailableRequest
     then Ret (st, [SendTo addr (createResponseHeader AvailableRequest 0)])
     else
       bind_outcome (makeLookupAddr (addr_String addr)) (\<lambda>l.
       case sessions st l of
         None \<Rightarrow> Ret (st, [])
       | Some s0 \<Rightarrow>
           let s = s0\<lparr>SessionID := packet_session_id buffer\<rparr>;
               st1 = st\<lparr>sessions := (sessions st)(l \<mapsto> s)\<rparr>
           in if packetType = ChallengeRequest then authenticate gl addr buffer l s st1
              else if packetType = ClientMessageAckRequest then
                Ret (st1\<lparr>sessions := (sessions st1)(l \<mapsto> s\<lparr>messageAckWaker := True\<rparr>)\<rparr>, [])
              else if packetType = KeepAliveRequest then
                Ret (st1\<lparr>sessions := (sessions st1)(l \<mapsto> s\<lparr>LastKeepAlive := now\<rparr>)\<rparr>,
                     [SendTo addr (createResponseHeader KeepAliveRequest 0)])
              else Ret (st1, [])))"

subsection \<open>Messages between clients\<close>

definition match_command :: "bytes \<Rightarrow> bool" where
  "match_command message \<longleftrightarrow>
     has_prefix message (bytes_of ''SBCM'') \<or> has_prefix message [0xBB, 0x49, 0xCC, 0x4D]"

text \<open>The datagram to send to the receiver, until it is acknowledged.\<close>

definition SendClientMessage :: "endpoint \<Rightarrow> bytes \<Rightarrow> qr2_state \<Rightarrow> qr2_state \<times> qr2_out option" where
  "SendClientMessage dest message st =
     (case sessions st (lookup_of dest) of
        None \<Rightarrow> (st, None)
      | Some receiver \<Rightarrow>
          if \<not> Authenticated receiver then (st, None)
          else if match_command message \<and>
            (length message < 0x14 \<or> unat (message ! 9) + 0x14 \<noteq> length message) then (st, None)
          else
            let packetCount = PacketCount receiver + 1;
                r' = receiver\<lparr>PacketCount := packetCount, messageAckWaker := False\<rparr>;
                payload = createResponseHeader ClientMessageRequest (SessionID receiver) @
                          be32 packetCount @ message
            in (st\<lparr>sessions := (sessions st)(lookup_of dest \<mapsto> r')\<rparr>, Some (SendTo (Addr receiver) payload)))"

text \<open>The wait for the acknowledgement: each element says whether the sleeper was woken by the timer;
  the result is the number of times the datagram was sent, or \<open>None\<close> while it still waits.\<close>

fun send_rounds :: "nat \<Rightarrow> bool list \<Rightarrow> nat option" where
  "send_rounds timeOutCount [] = None"
| "send_rounds timeOutCount (timer # rest) =
     (if \<not> timer then Some 1
      else if timeOutCount + 1 \<le> 10 then map_option Suc (send_rounds (timeOutCount + 1) rest)
      else Some 1)"

subsection \<open>What holds of every session\<close>

definition real_ip :: "endpoint \<Rightarrow> string" where
  "real_ip a = format_int (sint (IP a))"

definition real_port :: "endpoint \<Rightarrow> string" where
  "real_port a = format_int (uint (Port a))"

text \<open>A session is stored under its own address, announces the address it was heard from, and can only
  be authenticated once it has been challenged.\<close>

definition session_ok :: "u64 \<Rightarrow> session \<Rightarrow> bool" where
  "session_ok l s \<longleftrightarrow> lookup_of (Addr s) = l \<and>
     SessionData s ''publicip'' = Some (real_ip (Addr s)) \<and>
     SessionData s ''publicport'' = Some (real_port (Addr s)) \<and>
     (Authenticated s \<longrightarrow> Challenge s \<noteq> [])"

definition sessions_ok :: "qr2_state \<Rightarrow> bool" where
  "sessions_ok st \<longleftrightarrow> all_ok session_ok (sessions st)"

lemma lookup_of_parts:
  "(ucast (lookup_of a) :: u32) = IP a" "(ucast (drop_bit 32 (lookup_of a)) :: u16) = Port a"
proof -
  show "(ucast (lookup_of a) :: u32) = IP a"
    by (rule bit_word_eqI) (auto simp: lookup_of_def bit_ucast_iff bit_or_iff bit_push_bit_iff)
  show "(ucast (drop_bit 32 (lookup_of a)) :: u16) = Port a"
    by (rule bit_word_eqI)
       (auto simp: lookup_of_def bit_ucast_iff bit_or_iff bit_push_bit_iff bit_drop_bit_eq dest: bit_imp_le_length)
qed

lemma lookup_of_inject: "lookup_of a = lookup_of b \<longleftrightarrow> a = b"
  using lookup_of_parts [of a] lookup_of_parts [of b] by (cases a, cases b) auto

lemma newChallenge_not_Nil [simp]: "newChallenge rnd addr \<noteq> []"
  by (simp add: newChallenge_def)

lemma IPFormatToString_String [simp]: "IPFormatToString (addr_String a) = Ret (real_ip a, real_port a)"
  by (simp add: IPFormatToString_def real_ip_def real_port_def)

lemma sessions_ok_remove [simp]: "sessions_ok st \<Longrightarrow> sessions_ok (removeSession l st)"
  by (auto simp: sessions_ok_def removeSession_def)

lemma sessions_ok_challengers [simp]: "sessions_ok (st\<lparr>challengers := cs\<rparr>) = sessions_ok st"
  by (simp add: sessions_ok_def)

lemma sessions_ok_upd:
  "sessions_ok st \<Longrightarrow> session_ok l s \<Longrightarrow> sessions_ok (st\<lparr>sessions := (sessions st)(l \<mapsto> s)\<rparr>)"
  by (auto simp: sessions_ok_def)

lemma sessions_okD: "sessions_ok st \<Longrightarrow> sessions st l = Some s \<Longrightarrow> session_ok l s"
  by (auto simp: sessions_ok_def dest: all_okD)

lemma setSessionData_ok:
  assumes "sessions_ok st"
    and "payload ''publicip'' = Some (real_ip addr)" "payload ''publicport'' = Some (real_port addr)"
  shows "sessions_ok (fst (setSessionData now addr sid payload st))"
    and "snd (setSessionData now addr sid payload st) \<noteq> None"
proof -
  let ?l = "lookup_of addr"
  show "sessions_ok (fst (setSessionData now addr sid payload st))"
  proof (cases "sessions st ?l")
    case None
    then show ?thesis
      using assms by (auto simp: setSessionData_def session_ok_def Let_def intro!: sessions_ok_upd)
  next
    case (Some s)
    then have "session_ok ?l s" using assms(1) by (rule sessions_okD [rotated])
    then show ?thesis
      using assms Some
      by (auto simp: setSessionData_def session_ok_def lookup_of_inject Let_def intro!: sessions_ok_upd)
  qed
  show "snd (setSessionData now addr sid payload st) \<noteq> None"
  proof (cases "sessions st ?l")
    case (Some s)
    then have "session_ok ?l s" using assms(1) by (rule sessions_okD [rotated])
    then show ?thesis using Some by (auto simp: setSessionData_def session_ok_def lookup_of_inject Let_def)
  qed (simp add: setSessionData_def Let_def)
qed

lemma sendChallenge_ok: "sessions_ok st \<Longrightarrow> sessions_ok (sendChallenge rnd addr s l st)"
  by (auto simp: sendChallenge_def Let_def session_ok_def split: option.splits
      intro!: sessions_ok_upd dest: sessions_okD)

lemma IPFormatToStringLE_Ret: "\<exists>r. IPFormatToStringLE (addr_String addr) = Ret r"
  by (simp add: IPFormatToStringLE_def)

lemma checked_payload_Ret:
  "\<exists>r. checked_payload addr p = Ret r \<and>
    (\<forall>payload noIP. r = Some (payload, noIP) \<longrightarrow>
       payload ''publicip'' = Some (real_ip addr) \<and> payload ''publicport'' = Some (real_port addr))"
proof -
  obtain a b where "IPFormatToStringLE (addr_String addr) = Ret (a, b)"
    using IPFormatToStringLE_Ret [of addr] by (metis prod.exhaust)
  then show ?thesis by (simp add: checked_payload_def Let_def)
qed

lemma heartbeat_cases:
  assumes "heartbeat now rnd addr buffer st = Ret (st', out)"
  obtains "st' = st"
  | payload noIP where "payload ''publicip'' = Some (real_ip addr)" "payload ''publicport'' = Some (real_port addr)"
      "st' = fst (announce now rnd addr (packet_session_id buffer) payload noIP (lookup_of addr) st)"
proof -
  obtain r where r: "checked_payload addr (wire_payload buffer) = Ret r"
    and p: "\<And>payload noIP. r = Some (payload, noIP) \<Longrightarrow>
       payload ''publicip'' = Some (real_ip addr) \<and> payload ''publicport'' = Some (real_port addr)"
    using checked_payload_Ret [of addr "wire_payload buffer"] by blast
  show ?thesis
  proof (cases r)
    case None
    then show ?thesis using assms r that(1) by (simp add: heartbeat_def split: if_splits)
  next
    case (Some x)
    then obtain payload noIP where x: "r = Some (payload, noIP)" by (cases x) auto
    then have "st' = fst (announce now rnd addr (packet_session_id buffer) payload noIP (lookup_of addr) st)"
      using assms r by (simp add: heartbeat_def split: if_splits)
    then show ?thesis using that(2) p [OF x] by blast
  qed
qed

lemma announce_cases:
  "fst (announce now rnd addr sid payload noIP l st) \<in>
     {removeSession l st, fst (setSessionData now addr sid payload st)} \<union>
     {sendChallenge rnd addr s l (fst (setSessionData now addr sid payload st)) | s. True}"
  by (auto simp: announce_def split: prod.splits option.splits)

lemma heartbeat_ok:
  assumes "sessions_ok st" and "heartbeat now rnd addr buffer st = Ret (st', out)"
  shows "sessions_ok st'"
  using assms(2)
proof (cases rule: heartbeat_cases)
  case (2 payload noIP)
  note s = setSessionData_ok(1) [OF assms(1) 2(1,2), of now "packet_session_id buffer"]
  show ?thesis
    using announce_cases [of now rnd addr "packet_session_id buffer" payload noIP "lookup_of addr" st]
      s sendChallenge_ok [OF s] assms(1) 2(3) by auto
qed (use assms in simp)

lemma authenticate_ok:
  assumes "sessions_ok st" and "session_ok l s" and "authenticate gl addr buffer l s st = Ret (st', out)"
  shows "sessions_ok st'"
  using assms
  by (auto simp: authenticate_def Let_def session_ok_def intro!: sessions_ok_upd split: if_splits option.splits)

lemma handleConnection_ok:
  assumes ok: "sessions_ok st" and run: "handleConnection gl now rnd addr buffer st = Ret (st', out)"
  shows "sessions_ok st'"
proof (cases "sessions st (lookup_of addr)")
  case None
  then show ?thesis
    using run ok heartbeat_ok [OF ok] by (auto simp: handleConnection_def split: if_splits)
next
  case (Some s0)
  define s where "s = s0\<lparr>SessionID := packet_session_id buffer\<rparr>"
  define st1 where "st1 = st\<lparr>sessions := (sessions st)(lookup_of addr \<mapsto> s)\<rparr>"
  have so: "session_ok (lookup_of addr) s"
    using sessions_okD [OF ok Some] by (simp add: session_ok_def s_def)
  then have st1: "sessions_ok st1" using ok by (auto simp: st1_def intro: sessions_ok_upd)
  have upd: "sessions_ok (st1\<lparr>sessions := (sessions st1)(lookup_of addr \<mapsto> s\<lparr>messageAckWaker := True\<rparr>)\<rparr>)"
    "sessions_ok (st1\<lparr>sessions := (sessions st1)(lookup_of addr \<mapsto> s\<lparr>LastKeepAlive := now\<rparr>)\<rparr>)"
    using st1 so by (auto intro!: sessions_ok_upd simp: session_ok_def)
  show ?thesis
    using run ok Some heartbeat_ok [OF ok] authenticate_ok [OF st1 so] st1 upd
    unfolding handleConnection_def Let_def s_def [symmetric] st1_def [symmetric]
    by (auto simp: s_def [symmetric] st1_def [symmetric] split: if_splits)
qed

lemma fold_removeSession:
  "sessions (fold removeSession ls st) = (\<lambda>l. if l \<in> set ls then None else sessions st l)"
  by (induction ls arbitrary: st) (auto simp: removeSession_def)

lemma GetSessionServers_ok: "sessions_ok st \<Longrightarrow> sessions_ok (fst (GetSessionServers now order st))"
  by (simp add: GetSessionServers_def sessions_ok_def fold_removeSession all_ok_def)

lemma challenge_step_ok:
  "sessions_ok st \<Longrightarrow> challenge_step now err c st = (st', r) \<Longrightarrow> sessions_ok st'"
  by (auto simp: challenge_step_def Let_def split: if_splits option.splits)

lemma run_challenger_ok: "sessions_ok st \<Longrightarrow> sessions_ok (fst (run_challenger now err i st))"
  by (auto simp: run_challenger_def split: prod.splits option.splits dest: challenge_step_ok)

lemma SendClientMessage_ok: "sessions_ok st \<Longrightarrow> sessions_ok (fst (SendClientMessage dest m st))"
  by (auto simp: SendClientMessage_def Let_def session_ok_def split: option.splits
      intro!: sessions_ok_upd dest: sessions_okD)

subsection \<open>The server as a state machine\<close>

inductive qr2_step :: "game_list \<Rightarrow> qr2_state \<Rightarrow> qr2_state \<Rightarrow> bool" for gl where
  datagram: "handleConnection gl now rnd addr buffer st = Ret (st', out) \<Longrightarrow> qr2_step gl st st'"
| challenger_turn: "qr2_step gl st (fst (run_challenger now err i st))"
| server_list: "qr2_step gl st (fst (GetSessionServers now order st))"
| client_message: "qr2_step gl st (fst (SendClientMessage dest m st))"

inductive qr2_reachable :: "game_list \<Rightarrow> qr2_state \<Rightarrow> bool" for gl where
  start: "qr2_reachable gl \<lparr>sessions = Map.empty, challengers = []\<rparr>"
| step: "qr2_reachable gl st \<Longrightarrow> qr2_step gl st st' \<Longrightarrow> qr2_reachable gl st'"

inductive_cases qr2_stepE: "qr2_step gl st st'"

lemma reachable_sessions_ok: "qr2_reachable gl st \<Longrightarrow> sessions_ok st"
proof (induction rule: qr2_reachable.induct)
  case start
  then show ?case by (simp add: sessions_ok_def)
next
  case (step st st')
  from step.hyps(2) show ?case
    by (rule qr2_stepE)
       (use step.IH in \<open>auto intro: handleConnection_ok run_challenger_ok GetSessionServers_ok SendClientMessage_ok\<close>)
qed

subsection \<open>Authentication\<close>

definition authenticated_at :: "qr2_state \<Rightarrow> u64 \<Rightarrow> bool" where
  "authenticated_at st l = (case sessions st l of None \<Rightarrow> False | Some s \<Rightarrow> Authenticated s)"

definition proves_challenge :: "game_list \<Rightarrow> bytes \<Rightarrow> session \<Rightarrow> bool" where
  "proves_challenge gl buffer s \<longleftrightarrow> Challenge s \<noteq> [] \<and>
     (\<exists>game. GetGameInfoByName gl (mget (SessionData s) ''gamename'') = Some game \<and>
        challenge_response game s = Ret (trim_suffix (string_of (drop 5 buffer)) [NUL]))"

lemma authenticated_remove: "authenticated_at (removeSession l st) k \<Longrightarrow> authenticated_at st k"
  by (simp add: authenticated_at_def removeSession_def split: if_splits option.splits)

lemma authenticated_setSessionData:
  "authenticated_at (fst (setSessionData now addr sid payload st)) k \<Longrightarrow> authenticated_at st k"
  by (auto simp: authenticated_at_def setSessionData_def Let_def split: if_splits option.splits)

lemma authenticated_sendChallenge:
  "authenticated_at (sendChallenge rnd addr s l st) k \<Longrightarrow> authenticated_at st k"
  by (auto simp: authenticated_at_def sendChallenge_def Let_def split: if_splits option.splits)

lemma authenticated_heartbeat:
  assumes "heartbeat now rnd addr buffer st = Ret (st', out)" and "authenticated_at st' k"
  shows "authenticated_at st k"
  using assms(1)
proof (cases rule: heartbeat_cases)
  case (2 payload noIP)
  show ?thesis
    using announce_cases [of now rnd addr "packet_session_id buffer" payload noIP "lookup_of addr" st]
      assms(2) [unfolded 2(3)]
    by (auto dest!: authenticated_remove authenticated_sendChallenge authenticated_setSessionData)
qed (use assms in simp)

lemma challenge_response_SessionID [simp]:
  "challenge_response game (s\<lparr>SessionID := i\<rparr>) = challenge_response game s"
  by (simp add: challenge_response_def)

lemma authenticated_authenticate:
  assumes "authenticate gl addr buffer l s st = Ret (st', out)" and "authenticated_at st' k"
    and "sessions st l = Some s"
  shows "authenticated_at st k \<or> (k = l \<and> proves_challenge gl buffer s)"
  using assms
  by (auto simp: authenticate_def authenticated_at_def proves_challenge_def Let_def
      split: if_splits option.splits)

lemma authenticated_handle:
  assumes run: "handleConnection gl now rnd addr buffer st = Ret (st', out)" and a: "authenticated_at st' k"
  shows "authenticated_at st k \<or>
    (buffer ! 0 = ChallengeRequest \<and> k = lookup_of addr \<and>
     (\<exists>s. sessions st k = Some s \<and> proves_challenge gl buffer s))"
proof (cases "sessions st (lookup_of addr)")
  case None
  then show ?thesis
    using run a authenticated_heartbeat by (auto simp: handleConnection_def split: if_splits)
next
  case (Some s0)
  define s where "s = s0\<lparr>SessionID := packet_session_id buffer\<rparr>"
  define st1 where "st1 = st\<lparr>sessions := (sessions st)(lookup_of addr \<mapsto> s)\<rparr>"
  have st1: "sessions st1 (lookup_of addr) = Some s" by (simp add: st1_def)
  have pc: "proves_challenge gl buffer s = proves_challenge gl buffer s0"
    by (simp add: proves_challenge_def s_def)
  have same: "authenticated_at st1 k = authenticated_at st k"
    "authenticated_at (st1\<lparr>sessions := (sessions st1)(lookup_of addr \<mapsto> s\<lparr>messageAckWaker := True\<rparr>)\<rparr>) k = authenticated_at st k"
    "authenticated_at (st1\<lparr>sessions := (sessions st1)(lookup_of addr \<mapsto> s\<lparr>LastKeepAlive := now\<rparr>)\<rparr>) k = authenticated_at st k"
    using Some by (auto simp: authenticated_at_def st1_def s_def split: option.splits)
  show ?thesis
    using run a Some authenticated_heartbeat authenticated_authenticate [OF _ _ st1, of gl addr buffer st' out k] same pc
    unfolding handleConnection_def Let_def s_def [symmetric] st1_def [symmetric]
    by (auto simp: s_def [symmetric] st1_def [symmetric] split: if_splits)
qed

subsection \<open>Panics\<close>

definition keys_usable :: "game_list \<Rightarrow> bool" where
  "keys_usable gl \<longleftrightarrow> list_all (\<lambda>g. length (SecretKey g) mod 256 \<noteq> 0) (gameList gl)"

lemma challenge_response_Ret:
  assumes "keys_usable gl" and "GetGameInfoByName gl n = Some game"
  shows "\<exists>r. challenge_response game s = Ret r"
proof -
  have "game \<in> set (gameList gl)"
    using assms(2) by (auto simp: GetGameInfoByName_def split: option.splits if_splits)
  then show ?thesis
    using assms(1) by (auto simp: keys_usable_def list_all_iff challenge_response_def encrypt_def split: prod.splits)
qed

lemma heartbeat_Panic: "heartbeat now rnd addr buffer st = Panic \<longleftrightarrow> length buffer < 5"
proof -
  obtain r where "checked_payload addr (wire_payload buffer) = Ret r"
    using checked_payload_Ret [of addr "wire_payload buffer"] by blast
  then show ?thesis by (simp add: heartbeat_def split: option.split)
qed

lemma authenticate_not_Panic:
  assumes "keys_usable gl"
  shows "authenticate gl addr buffer l s st \<noteq> Panic"
proof (cases "GetGameInfoByName gl (mget (SessionData s) ''gamename'')")
  case (Some game)
  then obtain r where "challenge_response game s = Ret r"
    using challenge_response_Ret [OF assms Some] by blast
  then show ?thesis by (simp add: authenticate_def Some Let_def)
qed (simp add: authenticate_def)

subsection \<open>Properties\<close>

text \<open>C28. In every state the query server can reach, each session is stored under the lookup value of its
  own address, carries that address as its public address and port whatever the client claimed, and
  is authenticated only after it has been challenged.\<close>

theorem qr2_sessions_invariant:
  assumes "qr2_reachable gl st"
  shows "all_ok session_ok (sessions st)"
  using reachable_sessions_ok [OF assms] by (simp add: sessions_ok_def)

theorem qr2_sessions_invariant_witness:
  "\<exists>st out. heartbeat 0 ''ABCDEF'' \<lparr>IP = 0x0A000001, Port = 4000\<rparr> [3, 0, 0, 0, 1]
      \<lparr>sessions = Map.empty, challengers = []\<rparr> = Ret (st, out) \<and> all_ok session_ok (sessions st)"
proof -
  let ?a = "\<lparr>IP = 0x0A000001, Port = 4000\<rparr>"
  let ?st0 = "\<lparr>sessions = Map.empty, challengers = []\<rparr>"
  obtain r where "checked_payload ?a (wire_payload [3, 0, 0, 0, 1]) = Ret (Some r)"
    using IPFormatToStringLE_Ret [of ?a]
    by (auto simp: checked_payload_def wire_payload_def string_of_def NUL_def Let_def)
  then have run: "handleConnection empty_games 0 ''ABCDEF'' ?a [3, 0, 0, 0, 1] ?st0 =
      Ret (announce 0 ''ABCDEF'' ?a (packet_session_id [3, 0, 0, 0, 1]) (fst r) (snd r) (lookup_of ?a) ?st0)"
    by (simp add: handleConnection_def heartbeat_def HeartbeatRequest_def split: prod.split)
  obtain st out where st: "announce 0 ''ABCDEF'' ?a (packet_session_id [3, 0, 0, 0, 1]) (fst r) (snd r)
      (lookup_of ?a) ?st0 = (st, out)" by (metis prod.exhaust)
  have "qr2_reachable empty_games st"
    by (rule qr2_reachable.step [OF qr2_reachable.start qr2_step.datagram [OF run [unfolded st]]])
  from qr2_sessions_invariant [OF this] have "all_ok session_ok (sessions st)" .
  moreover have "heartbeat 0 ''ABCDEF'' ?a [3, 0, 0, 0, 1] ?st0 = Ret (st, out)"
    using run by (simp add: handleConnection_def HeartbeatRequest_def st)
  ultimately show ?thesis by blast
qed

text \<open>C26. A datagram can only make a session authenticated if it is a challenge response from that
  session's address, the session has been challenged, its game is known, and the response is the
  encrypted challenge under the game's secret key.\<close>

theorem authentication_requires_response:
  assumes "handleConnection gl now rnd addr buffer st = Ret (st', out)"
    and "authenticated_at st' k" and "\<not> authenticated_at st k"
  shows "buffer ! 0 = ChallengeRequest \<and> k = lookup_of addr \<and>
    (\<exists>s. sessions st k = Some s \<and> proves_challenge gl buffer s)"
  using authenticated_handle [OF assms(1,2)] assms(3) by blast

definition sample_game :: game_info where
  "sample_game = \<lparr>ID = 7, Name = ''samplewii'', SecretKey = ''secret'',
     Stats = \<lparr>Key = [], Multiplier = 0, Increment = 0, Modulus = 0, ChecksumMask = 0\<rparr>, Description = []\<rparr>"

definition sample_session :: session where
  "sample_session = \<lparr>SessionID = 0, Addr = \<lparr>IP = 1, Port = 2\<rparr>, Challenge = ''ABC'', Authenticated = False,
     LastKeepAlive = 0, Endianness = ClientNoEndian, SessionData = [''gamename'' \<mapsto> ''samplewii''],
     PacketCount = 0, messageAckWaker = False\<rparr>"

theorem authentication_requires_response_witness:
  "\<exists>buffer st' out.
    handleConnection (add_game sample_game empty_games) 0 [] \<lparr>IP = 1, Port = 2\<rparr> buffer
      \<lparr>sessions = [lookup_of \<lparr>IP = 1, Port = 2\<rparr> \<mapsto> sample_session], challengers = []\<rparr> = Ret (st', out) \<and>
    buffer ! 0 = ChallengeRequest \<and> proves_challenge (add_game sample_game empty_games) buffer sample_session"
proof -
  let ?gl = "add_game sample_game empty_games"
  let ?a = "\<lparr>IP = 1, Port = 2\<rparr>"
  let ?st = "\<lparr>sessions = [lookup_of ?a \<mapsto> sample_session], challengers = []\<rparr>"
  have key: "length (SecretKey sample_game) mod 256 \<noteq> 0" by (simp add: sample_game_def)
  have g: "GetGameInfoByName ?gl ''samplewii'' = Some sample_game"
    by (simp add: GetGameInfoByName_def add_game_def empty_games_def sample_game_def)
  moreover have "keys_usable ?gl" using key by (simp add: keys_usable_def add_game_def empty_games_def)
  ultimately obtain r where r: "challenge_response sample_game sample_session = Ret r"
    using challenge_response_Ret by blast
  define buffer where "buffer = [1, 0, 0, 0, 0] @ bytes_of (r @ [NUL])"
  have b: "buffer \<noteq> []" "buffer ! 0 = 1" "\<not> length buffer < 5" by (simp_all add: buffer_def)
  have d: "trim_suffix (string_of (drop 5 buffer)) [NUL] = r"
    by (simp add: buffer_def trim_suffix_def has_suffix_def)
  have s: "Challenge sample_session \<noteq> []" "SessionData sample_session ''gamename'' = Some ''samplewii''"
    by (simp_all add: sample_session_def)
  obtain st' out where run: "handleConnection ?gl 0 [] ?a buffer ?st = Ret (st', out)"
    and auth: "authenticated_at st' (lookup_of ?a)"
    using r g d s b
    by (simp add: handleConnection_def authenticate_def HeartbeatRequest_def
        AvailableRequest_def ChallengeRequest_def mget_def authenticated_at_def at_def Let_def)
  have "\<not> authenticated_at ?st (lookup_of ?a)" by (simp add: authenticated_at_def sample_session_def)
  from authentication_requires_response [OF run auth this]
  show ?thesis using run by auto
qed

text \<open>The server list handed to the browser contains only data of sessions that are authenticated
  and were heard from in the last minute, and asking for it removes exactly the sessions silent for
  more than an hour.\<close>

theorem server_list_fresh:
  "set (snd (GetSessionServers now order st)) =
     {SessionData s | l s. l \<in> set order \<and> sessions st l = Some s \<and> Authenticated s \<and> now - 60 \<le> LastKeepAlive s} \<and>
   sessions (fst (GetSessionServers now order st)) =
     (\<lambda>l. if l \<in> set order \<and> unreachable now st l then None else sessions st l)"
proof
  show "set (snd (GetSessionServers now order st)) =
     {SessionData s | l s. l \<in> set order \<and> sessions st l = Some s \<and> Authenticated s \<and> now - 60 \<le> LastKeepAlive s}"
    by (force simp: GetSessionServers_def listed_def fresh_def split: option.splits)
  show "sessions (fst (GetSessionServers now order st)) =
     (\<lambda>l. if l \<in> set order \<and> unreachable now st l then None else sessions st l)"
    by (auto simp: GetSessionServers_def fold_removeSession)
qed

text \<open>Given games whose secret keys the cipher accepts, a non-empty datagram makes the handler panic
  exactly when it is a heartbeat of fewer than five bytes; as the handler runs in a goroutine of its
  own without a recover, one such datagram ends the server.\<close>

theorem datagram_panics_iff:
  assumes "keys_usable gl" and "buffer \<noteq> []"
  shows "handleConnection gl now rnd addr buffer st = Panic \<longleftrightarrow>
    buffer ! 0 = HeartbeatRequest \<and> length buffer < 5"
  using assms heartbeat_Panic authenticate_not_Panic [OF assms(1)]
  by (auto simp: handleConnection_def at_def Let_def split: option.splits)

theorem datagram_panics_iff_witness:
  "handleConnection empty_games 0 [] \<lparr>IP = 1, Port = 2\<rparr> [3] \<lparr>sessions = Map.empty, challengers = []\<rparr> = Panic"
  by (subst datagram_panics_iff) (simp_all add: keys_usable_def empty_games_def HeartbeatRequest_def)

subsection \<open>Restarts\<close>

text \<open>
  \<open>saveSessions\<close> writes the exported fields of every session, \<open>loadSessions\<close> reads them back and gives each session a new
  mutex and waker. Challenges in progress were goroutines of the process that ended.
\<close>

definition saveSessions :: "qr2_state \<Rightarrow> (u64 \<rightharpoonup> session)" where
  "saveSessions st = sessions st"

definition loadSessions :: "(u64 \<rightharpoonup> session) \<Rightarrow> qr2_state" where
  "loadSessions file = \<lparr>sessions = (\<lambda>k. map_option (\<lambda>s. s\<lparr>messageAckWaker := False\<rparr>) (file k)), challengers = []\<rparr>"

lemma qr2_restart:
  assumes "qr2_reachable gl st"
  shows "sessions_ok (loadSessions (saveSessions st)) \<and>
    (\<forall>k. map_option (\<lambda>s. s\<lparr>messageAckWaker := False\<rparr>) (sessions (loadSessions (saveSessions st)) k) =
         map_option (\<lambda>s. s\<lparr>messageAckWaker := False\<rparr>) (sessions st k))"
  using reachable_sessions_ok [OF assms]
  by (auto simp: loadSessions_def saveSessions_def sessions_ok_def all_ok_def session_ok_def option.map_comp comp_def)

end
