(* ===== verification/GoUtf8.thy ===== *)
theory GoUtf8
  imports GoStrings
begin

text \<open>
  Ranging over a Go string yields its code points: \<open>decode_rune\<close> is \<open>utf8.DecodeRune\<close> on a non-empty
  byte slice (an invalid sequence is the replacement character, one byte wide), and \<open>runes\<close> the pairs
  of byte index and code point that \<open>for i, r := range s\<close> visits.
\<close>

definition cont :: "nat \<Rightarrow> bool" where
  "cont b \<longleftrightarrow> 0x80 \<le> b \<and> b \<le> 0xBF"

text \<open>The range of the second byte after a first byte of a three or four byte sequence.\<close>

definition second_ok :: "nat \<Rightarrow> nat \<Rightarrow> bool" where
  "second_ok b0 b1 \<longleftrightarrow>
     (if b0 = 0xE0 then 0xA0 \<le> b1 \<and> b1 \<le> 0xBF
      else if b0 = 0xED then 0x80 \<le> b1 \<and> b1 \<le> 0x9F
      else if b0 = 0xF0 then 0x90 \<le> b1 \<and> b1 \<le> 0xBF
      else if b0 = 0xF4 then 0x80 \<le> b1 \<and> b1 \<le> 0x8F
      else cont b1)"

definition RuneError :: nat where "RuneError = 0xFFFD"

definition decode_rune :: "bytes \<Rightarrow> nat \<times> nat" where
  "decode_rune s =
     (case map unat s of
        [] \<Rightarrow> (RuneError, 0)
      | b0 # r \<Rightarrow>
          if b0 < 0x80 then (b0, 1)
          else if 0xC2 \<le> b0 \<and> b0 \<le> 0xDF then
            (case r of
               b1 # _ \<Rightarrow> if cont b1 then ((b0 - 0xC0) * 64 + (b1 - 0x80), 2) else (RuneError, 1)
             | _ \<Rightarrow> (RuneError, 1))
          else if 0xE0 \<le> b0 \<and> b0 \<le> 0xEF then
            (case r of
               b1 # b2 # _ \<Rightarrow>
                 if second_ok b0 b1 \<and> cont b2
                 then (((b0 - 0xE0) * 64 + (b1 - 0x80)) * 64 + (b2 - 0x80), 3) else (RuneError, 1)
             | _ \<Rightarrow> (RuneError, 1))
          else if 0xF0 \<le> b0 \<and> b0 \<le> 0xF4 then
            (case r of
               b1 # b2 # b3 # _ \<Rightarrow>
                 if second_ok b0 b1 \<and> cont b2 \<and> cont b3
                 then ((((b0 - 0xF0) * 64 + (b1 - 0x80)) * 64 + (b2 - 0x80)) * 64 + (b3 - 0x80), 4)
                 else (RuneError, 1)
             | _ \<Rightarrow> (RuneError, 1))
          else (RuneError, 1))"

lemma decode_rune_width:
  assumes "s \<noteq> []"
  shows "0 < snd (decode_rune s) \<and> snd (decode_rune s) \<le> length s"
proof -
  obtain b r where s: "s = b # r" using assms by (cases s) auto
  show ?thesis
    by (cases r rule: list.exhaust [case_product list.exhaust [of "tl r"], case_product list.exhaust [of "tl (tl r)"]])
       (auto simp: s decode_rune_def)
qed

lemma decode_rune_ascii [simp]: "unat b < 128 \<Longrightarrow> decode_rune (b # r) = (unat b, 1)"
  by (simp add: decode_rune_def)

function runes :: "nat \<Rightarrow> bytes \<Rightarrow> (nat \<times> nat) list" where
  "runes i [] = []"
| "runes i (b # s) =
     (case decode_rune (b # s) of (r, w) \<Rightarrow> (i, r) # runes (i + w) (drop w (b # s)))"
  by pat_completeness auto
termination
proof (relation "measure (\<lambda>(i, s). length s)")
  fix i b w and s :: bytes and r :: nat
  assume "(r, w) = decode_rune (b # s)"
  then have "0 < w" "w \<le> length (b # s)"
    using decode_rune_width [of "b # s"] by (metis list.distinct(1) snd_conv)+
  then show "((i + w, drop w (b # s)), i, b # s) \<in> measure (\<lambda>(i, s). length s)" by simp
qed simp

definition ascii :: "bytes \<Rightarrow> bool" where
  "ascii s = list_all (\<lambda>b. unat b < 128) s"

lemma runes_ascii: "ascii s \<Longrightarrow> runes i s = zip [i..<i + length s] (map unat s)"
proof (induction s arbitrary: i)
  case (Cons b s)
  then show ?case by (simp add: ascii_def upt_conv_Cons del: upt_Suc)
qed simp

end
