(* ===== verification/Encoding.thy ===== *)
theory Encoding
  imports GoUtf8 GoNumbers
begin

text \<open>
  The text helpers of \<open>common/encoding.go\<close> and \<open>common/strings.go\<close>: base 32 numbers, UTF-16 in either byte
  order with packages \<open>unicode/utf8\<close> and \<open>unicode/utf16\<close>, strings cut at a zero. Base64 is in \<open>GoBase64\<close>.
\<close>

subsection \<open>Code points\<close>

definition scalar :: "nat \<Rightarrow> bool" where
  "scalar c \<longleftrightarrow> c < 0xD800 \<or> (0xE000 \<le> c \<and> c \<le> 0x10FFFF)"

text \<open>\<open>utf8.AppendRune\<close>; what is not a scalar value becomes the replacement character.\<close>

definition encode_rune :: "nat \<Rightarrow> bytes" where
  "encode_rune c0 =
     (let c = (if scalar c0 then c0 else RuneError) in
      map of_nat
        (if c < 0x80 then [c]
         else if c < 0x800 then [0xC0 + c div 64, 0x80 + c mod 64]
         else if c < 0x10000 then [0xE0 + c div 4096, 0x80 + c div 64 mod 64, 0x80 + c mod 64]
         else [0xF0 + c div 262144, 0x80 + c div 4096 mod 64, 0x80 + c div 64 mod 64, 0x80 + c mod 64]))"

text \<open>\<open>[]rune(s)\<close> and \<open>string(runes)\<close>\<close>

definition code_points :: "bytes \<Rightarrow> nat list" where
  "code_points s = map snd (runes 0 s)"

definition from_code_points :: "nat list \<Rightarrow> bytes" where
  "from_code_points cs = concat (map encode_rune cs)"

lemma digits64: "c div 4096 * 64 + c div 64 mod 64 = (c :: nat) div 64"
  "c div 262144 * 64 + c div 4096 mod 64 = (c :: nat) div 4096"
  by (simp_all add: div_mult2_eq [of c 64 64, simplified] div_mult2_eq [of c 4096 64, simplified])

lemma unat_bytes: "list_all (\<lambda>n. n < 256) ns \<Longrightarrow> map unat (map of_nat ns :: bytes) = ns"
  by (induction ns) (simp_all add: unat_of_nat)

lemma unat_bytes_append:
  "s = map of_nat ns \<Longrightarrow> list_all (\<lambda>n. n < 256) ns \<Longrightarrow> map unat (s @ t :: bytes) = ns @ map unat t"
  by (simp only: map_append unat_bytes)

lemma mod64: "n mod 64 < (128 :: nat)" "n mod 64 \<le> (63 :: nat)"
  using mod_less_divisor [of 64 n] by linarith+

lemma decode_encode_rune:
  assumes "scalar c"
  shows "decode_rune (encode_rune c @ t) = (c, length (encode_rune c))"
proof -
  consider "c < 0x80" | "0x80 \<le> c" "c < 0x800" | "0x800 \<le> c" "c < 0x10000" | "0x10000 \<le> c" "c \<le> 0x10FFFF"
    using assms unfolding scalar_def by linarith
  then show ?thesis
  proof cases
    case 1
    then show ?thesis using assms by (simp add: encode_rune_def decode_rune_def unat_of_nat)
  next
    case 2
    then have "2 \<le> c div 64" "c div 64 < 32" by (simp_all add: less_eq_div_iff_mult_less_eq div_less_iff_less_mult)
    moreover have e: "encode_rune c = map of_nat [192 + c div 64, 128 + c mod 64]"
      using 2 assms by (simp add: encode_rune_def)
    ultimately have u: "map unat (encode_rune c @ t) = [192 + c div 64, 128 + c mod 64] @ map unat t"
      by (intro unat_bytes_append) (simp_all add: mod64)
    show ?thesis
      unfolding decode_rune_def u using \<open>2 \<le> c div 64\<close> \<open>c div 64 < 32\<close> by (simp add: cont_def e)
  next
    case 3
    then have b: "c div 4096 < 16" "c div 64 mod 64 < 64" "c mod 64 < 64" by (simp_all add: div_less_iff_less_mult)
    have s: "second_ok (224 + c div 4096) (128 + c div 64 mod 64)"
    proof -
      have "c div 4096 = 0 \<Longrightarrow> 32 \<le> c div 64 mod 64" using 3 by (simp add: div_eq_0_iff less_eq_div_iff_mult_less_eq)
      moreover have "c div 4096 = 13 \<Longrightarrow> c div 64 mod 64 < 32"
      proof -
        assume "c div 4096 = 13"
        then have "c < 0xD800" using assms 3 unfolding scalar_def by (cases "c < 0xD800") (auto simp: div_nat_eqI)
        then show ?thesis using \<open>c div 4096 = 13\<close> digits64(1) [of c] by (simp add: div_less_iff_less_mult)
      qed
      ultimately show ?thesis using b by (auto simp: second_ok_def cont_def)
    qed
    have e: "encode_rune c = map of_nat [224 + c div 4096, 128 + c div 64 mod 64, 128 + c mod 64]"
      using 3 assms by (simp add: encode_rune_def)
    have u: "map unat (encode_rune c @ t) = [224 + c div 4096, 128 + c div 64 mod 64, 128 + c mod 64] @ map unat t"
      using e b by (intro unat_bytes_append) (simp_all add: mod64)
    show ?thesis
      unfolding decode_rune_def u using s b digits64(1) [of c] by (simp add: cont_def e mod64)
  next
    case 4
    then have b: "c div 262144 < 5" "c div 4096 mod 64 < 64" "c div 64 mod 64 < 64" "c mod 64 < 64"
      by (simp_all add: div_less_iff_less_mult)
    have s: "second_ok (240 + c div 262144) (128 + c div 4096 mod 64)"
    proof -
      have "c div 262144 = 0 \<Longrightarrow> 16 \<le> c div 4096 mod 64" using 4 by (simp add: div_eq_0_iff less_eq_div_iff_mult_less_eq)
      moreover have "c div 262144 = 4 \<Longrightarrow> c div 4096 mod 64 < 16"
      proof -
        assume "c div 262144 = 4"
        moreover have "c div 4096 < 272" using 4 by (simp add: div_less_iff_less_mult)
        ultimately show ?thesis using digits64(2) [of c] by simp
      qed
      ultimately show ?thesis using b by (auto simp: second_ok_def cont_def)
    qed
    have e: "encode_rune c = map of_nat [240 + c div 262144, 128 + c div 4096 mod 64, 128 + c div 64 mod 64, 128 + c mod 64]"
      using 4 assms by (simp add: encode_rune_def)
    have u: "map unat (encode_rune c @ t) =
        [240 + c div 262144, 128 + c div 4096 mod 64, 128 + c div 64 mod 64, 128 + c mod 64] @ map unat t"
      using e b by (intro unat_bytes_append) (simp_all add: mod64)
    show ?thesis
      unfolding decode_rune_def u using s b digits64 [of c] by (simp add: cont_def e mod64)
  qed
qed

lemma encode_rune_Cons: "\<exists>b r. encode_rune c = b # r"
  by (simp add: encode_rune_def Let_def)

lemma runes_from_code_points:
  "list_all scalar cs \<Longrightarrow> map snd (runes i (from_code_points cs)) = cs"
proof (induction cs arbitrary: i)
  case (Cons c cs)
  obtain b r where br: "encode_rune c = b # r" using encode_rune_Cons by blast
  have "decode_rune (b # r @ from_code_points cs) = (c, length (b # r))"
    using decode_encode_rune [of c "from_code_points cs"] Cons.prems br by simp
  then have "runes i (b # r @ from_code_points cs) = (i, c) # runes (i + length (b # r)) (from_code_points cs)"
    by (simp add: drop_append)
  then show ?case using Cons br by (simp add: from_code_points_def)
qed (simp add: from_code_points_def)

lemma code_points_from: "list_all scalar cs \<Longrightarrow> code_points (from_code_points cs) = cs"
  by (simp add: code_points_def runes_from_code_points)

subsection \<open>UTF-16\<close>

datatype byte_order = BigEndian | LittleEndian

fun put16 :: "byte_order \<Rightarrow> u16 \<Rightarrow> bytes" where
  "put16 BigEndian v = be16 v"
| "put16 LittleEndian v = le16 v"

definition get16 :: "byte_order \<Rightarrow> u8 \<Rightarrow> u8 \<Rightarrow> nat" where
  "get16 ord a b = (case ord of BigEndian \<Rightarrow> uint_be [a, b] | LittleEndian \<Rightarrow> uint_be [b, a])"

text \<open>\<open>utf16.Encode\<close> and \<open>utf16.Decode\<close>\<close>

definition encode_unit :: "nat \<Rightarrow> nat list" where
  "encode_unit v =
     (if v < 0xD800 \<or> (0xE000 \<le> v \<and> v < 0x10000) then [v]
      else if 0x10000 \<le> v \<and> v \<le> 0x10FFFF
      then [0xD800 + (v - 0x10000) div 1024 mod 1024, 0xDC00 + (v - 0x10000) mod 1024]
      else [RuneError])"

fun decode_units :: "nat list \<Rightarrow> nat list" where
  "decode_units [] = []"
| "decode_units (r # rs) =
     (if r < 0xD800 \<or> 0xE000 \<le> r then r # decode_units rs
      else case rs of
        r2 # rs' \<Rightarrow>
          if r < 0xDC00 \<and> 0xDC00 \<le> r2 \<and> r2 < 0xE000
          then ((r - 0xD800) * 1024 + (r2 - 0xDC00) + 0x10000) # decode_units rs'
          else RuneError # decode_units rs
      | [] \<Rightarrow> RuneError # decode_units rs)"

definition UTF16Encode :: "bytes \<Rightarrow> byte_order \<Rightarrow> bytes" where
  "UTF16Encode s ord = concat (map (\<lambda>v. put16 ord (of_nat v)) (concat (map encode_unit (code_points s))))"

text \<open>The units before the first zero; an odd last byte is ignored.\<close>

fun units :: "byte_order \<Rightarrow> bytes \<Rightarrow> nat list" where
  "units ord (a # b # u) = (let v = get16 ord a b in if v = 0 then [] else v # units ord u)"
| "units ord u = []"

definition UTF16Decode :: "bytes \<Rightarrow> byte_order \<Rightarrow> bytes" where
  "UTF16Decode u ord = from_code_points (decode_units (units ord u))"

lemma put16_units: "v \<noteq> 0 \<Longrightarrow> v < 65536 \<Longrightarrow> units ord (put16 ord (of_nat v) @ u) = v # units ord u"
  using uint_be_be16 [of "of_nat v"]
  by (cases ord) (auto simp: be16_def le16_def get16_def Let_def unat_of_nat)

lemma units_concat:
  "list_all (\<lambda>v. v \<noteq> 0 \<and> v < 65536) vs \<Longrightarrow>
     units ord (concat (map (\<lambda>v. put16 ord (of_nat v)) vs)) = vs"
  by (induction vs) (simp_all add: put16_units)

lemma encode_unit_range:
  assumes "scalar v" and "v \<noteq> 0"
  shows "list_all (\<lambda>u. u \<noteq> 0 \<and> u < 65536) (encode_unit v)"
proof -
  have m: "n mod 1024 < (1024 :: nat)" for n by simp
  then have "0xD800 + n mod 1024 < (65536 :: nat)" "0xDC00 + n mod 1024 < (65536 :: nat)" for n
    using m [of n] by linarith+
  then show ?thesis using assms by (simp add: encode_unit_def RuneError_def)
qed

lemma decode_encode_unit: "scalar v \<Longrightarrow> decode_units (encode_unit v @ us) = v # decode_units us"
proof -
  assume s: "scalar v"
  show ?thesis
  proof (cases "v < 0x10000")
    case True
    then show ?thesis using s by (auto simp: encode_unit_def scalar_def)
  next
    case False
    let ?w = "v - 0x10000"
    have w: "?w div 1024 < 1024" using s False by (simp add: scalar_def div_less_iff_less_mult)
    have m: "?w mod 1024 < 1024" by simp
    have "(?w div 1024) * 1024 + ?w mod 1024 = ?w" by simp
    then show ?thesis using s False w m by (simp add: encode_unit_def scalar_def)
  qed
qed

lemma decode_units_encode: "list_all scalar cs \<Longrightarrow> decode_units (concat (map encode_unit cs)) = cs"
  by (induction cs) (simp_all add: decode_encode_unit)

text \<open>The names and word lists clients send are read as they were written: text without a zero character
  survives the encoding to UTF-16 and back in either byte order, surrogate pairs included.\<close>

theorem utf16_roundtrip:
  assumes "list_all (\<lambda>c. scalar c \<and> c \<noteq> 0) cs"
  shows "UTF16Decode (UTF16Encode (from_code_points cs) ord) ord = from_code_points cs"
proof -
  have s: "list_all scalar cs" using assms by (simp add: list_all_iff)
  have "list_all (\<lambda>v. v \<noteq> 0 \<and> v < 65536) (concat (map encode_unit cs))"
    using assms encode_unit_range by (induction cs) auto
  then show ?thesis
    by (simp add: UTF16Decode_def UTF16Encode_def code_points_from s units_concat decode_units_encode)
qed

theorem utf16_roundtrip_witness:
  "UTF16Decode (UTF16Encode (from_code_points [0x4D, 0xE9, 0x30DE, 0x1F600]) BigEndian) BigEndian =
     from_code_points [0x4D, 0xE9, 0x30DE, 0x1F600]"
  by (rule utf16_roundtrip) (simp add: scalar_def)

subsection \<open>Numbers in base 32\<close>

definition alpha32 :: string where
  "alpha32 = ''0123456789abcdefghijklmnopqrstuv''"

function base32_digits :: "u64 \<Rightarrow> string" where
  "base32_digits value =
     (if value = 0 then []
      else alpha32 ! unat (value AND 0x1F) # base32_digits (drop_bit 5 value))"
  by pat_completeness auto
termination
proof (relation "measure unat")
  fix v :: u64
  assume "v \<noteq> 0"
  then show "(drop_bit 5 v, v) \<in> measure unat"
    by (simp add: unat_drop_div unat_gt_0 div_less_dividend)
qed simp

declare base32_digits.simps [simp del]

definition Base32Encode :: "u64 \<Rightarrow> string" where
  "Base32Encode value = rev (base32_digits value)"

subsection \<open>Strings in byte arrays\<close>

definition NullTerminatedString :: "bytes \<Rightarrow> bytes" where
  "NullTerminatedString u = takeWhile (\<lambda>b. b \<noteq> 0) u"

definition GetString :: "bytes \<Rightarrow> string option" where
  "GetString buf = (if 0 \<in> set buf then Some (string_of (takeWhile (\<lambda>b. b \<noteq> 0) buf)) else None)"

definition UTF16ToByteArray :: "u16 list \<Rightarrow> bytes" where
  "UTF16ToByteArray ws = concat (map be16 ws)"

fun wide_units :: "byte_order \<Rightarrow> bytes \<Rightarrow> nat list" where
  "wide_units ord (a # b # u) = (if a = 0 \<and> b = 0 then [] else get16 ord a b # wide_units ord u)"
| "wide_units ord u = []"

definition GetWideString :: "bytes \<Rightarrow> byte_order \<Rightarrow> bytes" where
  "GetWideString buf ord = from_code_points (decode_units (wide_units ord buf))"

definition IsUppercaseAlphanumeric :: "string \<Rightarrow> bool" where
  "IsUppercaseAlphanumeric str \<longleftrightarrow> str \<noteq> [] \<and>
     list_all (\<lambda>c. let n = of_char c in (48 \<le> n \<and> n \<le> (57 :: nat)) \<or> (65 \<le> n \<and> n \<le> 90)) str"

lemma wide_units_eq: "wide_units ord u = units ord u"
proof (induction ord u rule: units.induct)
  case (1 ord a b u)
  have "get16 ord a b = 0 \<longleftrightarrow> a = 0 \<and> b = 0"
    by (cases ord) (auto simp: get16_def uint_be_def unat_eq_zero)
  then show ?case using 1 by (simp add: Let_def)
qed simp_all

text \<open>The two readers of UTF-16 agree on all inputs.\<close>

lemma GetWideString_eq: "GetWideString u ord = UTF16Decode u ord"
  by (simp add: GetWideString_def UTF16Decode_def wide_units_eq)

text \<open>Reading a number back.\<close>

definition base32_value :: "string \<Rightarrow> nat" where
  "base32_value s = foldl (\<lambda>a c. 32 * a + length (takeWhile (\<lambda>x. x \<noteq> c) alpha32)) 0 s"

lemma alpha32_position: "n < 32 \<Longrightarrow> length (takeWhile (\<lambda>x. x \<noteq> alpha32 ! n) alpha32) = n"
proof -
  have d: "distinct alpha32" "length alpha32 = 32" by (simp_all add: alpha32_def)
  assume n: "n < 32"
  have "takeWhile (\<lambda>x. x \<noteq> alpha32 ! n) alpha32 = take n alpha32"
  proof (rule takeWhile_eq_take_P_nth)
    fix i assume "i < n" "i < length alpha32"
    then show "alpha32 ! i \<noteq> alpha32 ! n" using d n by (simp add: nth_eq_iff_index_eq)
  qed (use n d in simp)
  then show ?thesis using n d by simp
qed

lemma base32_digits_value: "base32_value (rev (base32_digits v)) = unat v"
proof (induction v rule: base32_digits.induct)
  case (1 v)
  have m: "unat (v AND 0x1F) = unat v mod 32"
  proof -
    have "v AND 0x1F = take_bit 5 v" by (simp add: take_bit_eq_mask mask_eq_exp_minus_1)
    then show ?thesis by (simp only: unsigned_take_bit_eq) (simp add: take_bit_eq_mod)
  qed
  show ?case
  proof (cases "v = 0")
    case True
    then show ?thesis by (subst base32_digits.simps) (simp add: base32_value_def)
  next
    case False
    then have "base32_value (rev (base32_digits (drop_bit 5 v))) = unat v div 32"
      using 1 by (simp add: unat_drop_div)
    then show ?thesis
      using False by (subst base32_digits.simps) (simp add: base32_value_def m alpha32_position)
  qed
qed

text \<open>A user's number can be read off the nickname the server shows for it: the base 32 text is a number in
  that base with the user's number as its value, so different users have different texts.\<close>

theorem base32_injective: "base32_value (Base32Encode v) = unat v \<and> inj Base32Encode"
proof -
  have v: "base32_value (Base32Encode v) = unat v" for v
    by (simp add: Base32Encode_def base32_digits_value)
  then have "inj Base32Encode" by (metis injI word_unat_eq_iff)
  then show ?thesis using v by blast
qed

end
