(* ===== verification/NatNeg.thy ===== *)
theory NatNeg
  imports IpAddress Encoding
begin

text \<open>
  Package \<open>natneg\<close>: NAT negotiation sessions. \<open>handleConnection\<close> is the handler of one datagram. The
  goroutines that repeat connect requests are the \<open>negotiators\<close> of a session, pairs of client
  indexes, and \<open>connect_tick\<close> is one turn of their loop; the 30 second timer is \<open>closeSession\<close>. Go
  visits a map in any order, so the orders of the two loops over the clients are arguments. A
  datagram lies in a fresh array of 1024 bytes: a slice expression may reach past its end (into
  zeros), an index may not.
\<close>

definition NNInitRequest :: u8 where "NNInitRequest = 0x00"
definition NNInitReply :: u8 where "NNInitReply = 0x01"
definition NNErtTestRequest :: u8 where "NNErtTestRequest = 0x02"
definition NNConnectRequest :: u8 where "NNConnectRequest = 0x05"
definition NNConnectReply :: u8 where "NNConnectReply = 0x06"
definition NNAddressCheckRequest :: u8 where "NNAddressCheckRequest = 0x0A"
definition NNAddressCheckReply :: u8 where "NNAddressCheckReply = 0x0B"
definition NNNatifyRequest :: u8 where "NNNatifyRequest = 0x0C"
definition NNReportRequest :: u8 where "NNReportRequest = 0x0D"
definition NNReportReply :: u8 where "NNReportReply = 0x0E"
definition NNPreInitRequest :: u8 where "NNPreInitRequest = 0x0F"
definition NNPreInitReply :: u8 where "NNPreInitReply = 0x10"

definition PortTypeGamePort :: u8 where "PortTypeGamePort = 0"
definition PortTypeNATNEG2 :: u8 where "PortTypeNATNEG2 = 2"
definition PortTypeNATNEG3 :: u8 where "PortTypeNATNEG3 = 3"

record nn_client =
  ClientCookie :: u32
  Index :: u8
  ConnectingIndex :: u8
  ConnectAck :: bool
  ClientResult :: "u8 \<rightharpoonup> u8"
  NegotiateIP :: string
  LocalIP :: string
  ServerIP :: string
  GameName :: string

record nn_session =
  Open :: bool
  Version :: u8
  Cookie :: u32
  Clients :: "u8 \<rightharpoonup> nn_client"
  negotiators :: "(u8 \<times> u8) list"

type_synonym nn_state = "u32 \<rightharpoonup> nn_session"

text \<open>The socket a reply leaves from: the server's own, or a new one on the probe address and a port.\<close>

datatype nn_socket = MainSocket | ProbeSocket nat

datatype nn_out =
    Send nn_socket bytes endpoint
  | NatnegEvent bool string string

definition isMapped :: "nn_client \<Rightarrow> bool" where
  "isMapped c \<longleftrightarrow> \<not> (NegotiateIP c = [] \<or> ServerIP c = [])"

definition magic :: bytes where
  "magic = [0xFD, 0xFC, 0x1E, 0x66, 0x6A, 0xB2]"

definition createPacketHeader :: "u8 \<Rightarrow> u8 \<Rightarrow> u32 \<Rightarrow> bytes" where
  "createPacketHeader version command cookie = magic @ [version, command] @ be32 cookie"

definition wire :: "bytes \<Rightarrow> nat \<Rightarrow> nat \<Rightarrow> bytes" where
  "wire buffer i j = subslice i j (buffer @ replicate (j - length buffer) 0)"

subsection \<open>Connect requests\<close>

definition try_pair :: "u8 \<Rightarrow> u8 \<Rightarrow> nn_session \<Rightarrow> nn_session" where
  "try_pair id0 destID s =
     (case (Clients s id0, Clients s destID) of
        (Some sender, Some destination) \<Rightarrow>
          if id0 = destID \<or> \<not> isMapped destination \<or> ConnectingIndex destination \<noteq> destID \<or>
             ClientResult destination id0 \<noteq> None
          then s
          else s\<lparr>Clients := (Clients s)
                   (id0 \<mapsto> sender\<lparr>ConnectingIndex := destID, ConnectAck := False\<rparr>,
                    destID \<mapsto> destination\<lparr>ConnectingIndex := id0, ConnectAck := False\<rparr>),
                 negotiators := negotiators s @ [(id0, destID)]\<rparr>
      | _ \<Rightarrow> s)"

definition connect_from :: "(u8 \<Rightarrow> u8 list) \<Rightarrow> u8 \<Rightarrow> nn_session \<Rightarrow> nn_session" where
  "connect_from inner id0 s =
     (case Clients s id0 of
        None \<Rightarrow> s
      | Some sender \<Rightarrow>
          if \<not> isMapped sender \<or> ConnectingIndex sender \<noteq> id0 then s
          else fold (try_pair id0) (inner id0) s)"

definition sendConnectRequests :: "u8 list \<Rightarrow> (u8 \<Rightarrow> u8 list) \<Rightarrow> nn_session \<Rightarrow> nn_session" where
  "sendConnectRequests ids inner s = fold (connect_from inner) ids s"

text \<open>\<open>sendConnectRequestPacket\<close>: what \<open>client\<close> sends to \<open>destination\<close>. \<open>ResolveUDPAddr\<close> and the
  parsing of the game address panic on text that is no address.\<close>

definition sendConnectRequestPacket :: "nn_client \<Rightarrow> nn_client \<Rightarrow> u8 \<Rightarrow> (unit, nn_out) outcome" where
  "sendConnectRequestPacket client destination version =
     bind_outcome (IPFormatToInt (ServerIP client)) (\<lambda>(_, port).
     case ParseAddrPort (NegotiateIP destination) of
       None \<Rightarrow> Panic
     | Some dest \<Rightarrow>
         Ret (Send MainSocket
           (createPacketHeader version NNConnectRequest (ClientCookie destination) @
            IPFormatBytes (ServerIP client) @ be16 port @ [0x42, 0x00]) dest))"

text \<open>One turn of a negotiator; the flag tells whether it goes on.\<close>

definition connect_tick :: "u8 \<Rightarrow> u8 \<Rightarrow> nn_session \<Rightarrow> (unit, bool \<times> nn_out list) outcome" where
  "connect_tick i j s =
     (case (Clients s i, Clients s j) of
        (Some sender, Some destination) \<Rightarrow>
          if \<not> Open s then Ret (False, [])
          else
            let c1 = (\<not> ConnectAck destination \<and> ConnectingIndex destination = Index sender);
                c2 = (\<not> ConnectAck sender \<and> ConnectingIndex sender = Index destination)
            in
            bind_outcome
              (if c1 then bind_outcome (sendConnectRequestPacket sender destination (Version s)) (\<lambda>p. Ret [p])
               else Ret [])
              (\<lambda>out1.
            bind_outcome
              (if c2 then bind_outcome (sendConnectRequestPacket destination sender (Version s)) (\<lambda>p. Ret [p])
               else Ret [])
              (\<lambda>out2. Ret (c1 \<or> c2, out1 @ out2)))
      | _ \<Rightarrow> Panic)"

subsection \<open>Handlers\<close>

definition handlePreinit :: "endpoint \<Rightarrow> bytes \<Rightarrow> u8 \<Rightarrow> nn_session \<Rightarrow> (unit, nn_session \<times> nn_out list) outcome" where
  "handlePreinit addr buffer version s =
     (if length buffer < 6 then Ret (s, [])
      else Ret (s, [Send MainSocket
             (createPacketHeader version NNPreInitReply (Cookie s) @ take 6 (buffer[1 := 0x02])) addr]))"

text \<open>The requests an \<open>INIT\<close> is rejected for, after its game name was read.\<close>

definition init_valid :: "u8 \<Rightarrow> u8 \<Rightarrow> bool" where
  "init_valid portType useGamePort \<longleftrightarrow>
     \<not> portType > 0x03 \<and> \<not> useGamePort > 1 \<and> \<not> (useGamePort = 0 \<and> portType = PortTypeGamePort)"

definition new_client :: "nn_session \<Rightarrow> u8 \<Rightarrow> nn_client" where
  "new_client s clientIndex =
     \<lparr>ClientCookie = Cookie s, Index = clientIndex, ConnectingIndex = clientIndex, ConnectAck = False,
      ClientResult = Map.empty, NegotiateIP = [], LocalIP = [], ServerIP = [], GameName = []\<rparr>"

definition local_ip_string :: "bytes \<Rightarrow> u16 \<Rightarrow> string" where
  "local_ip_string b localPort =
     join_char CHR ''.'' (map (\<lambda>x. format_uint (unat x)) b) @ CHR '':'' # format_uint (unat localPort)"

text \<open>What an \<open>INIT\<close> records of its sender.\<close>

definition init_client :: "endpoint \<Rightarrow> bytes \<Rightarrow> string \<Rightarrow> nn_client \<Rightarrow> nn_client" where
  "init_client addr buffer gameName sender =
     (let portType = buffer ! 0; useGamePort = buffer ! 2;
          localPort = of_nat (uint_be (subslice 7 9 buffer));
          s1 = sender\<lparr>GameName := gameName\<rparr>;
          s2 = (if portType \<noteq> PortTypeGamePort then s1\<lparr>NegotiateIP := addr_String addr\<rparr> else s1);
          s3 = (if localPort \<noteq> 0 then s2\<lparr>LocalIP := local_ip_string (subslice 3 7 buffer) localPort\<rparr> else s2)
      in if useGamePort = 0 \<or> portType = PortTypeGamePort then s3\<lparr>ServerIP := addr_String addr\<rparr> else s3)"

text \<open>The part of \<open>handleInit\<close> after the acknowledgement was sent.\<close>

definition record_init ::
  "u8 list \<Rightarrow> (u8 \<Rightarrow> u8 list) \<Rightarrow> endpoint \<Rightarrow> bytes \<Rightarrow> string \<Rightarrow> nn_session \<Rightarrow> nn_session" where
  "record_init ids inner addr buffer gameName s =
     (let clientIndex = buffer ! 1;
          mismatch = list_ex (\<lambda>i. case Clients s i of None \<Rightarrow> False | Some c \<Rightarrow> GameName c \<noteq> gameName) ids
      in if Clients s clientIndex = None \<and> mismatch then s
         else
           let sender = (case Clients s clientIndex of None \<Rightarrow> new_client s clientIndex | Some c \<Rightarrow> c);
               sender' = init_client addr buffer gameName sender;
               s' = s\<lparr>Clients := (Clients s)(clientIndex \<mapsto> sender')\<rparr>
           in if isMapped sender' then sendConnectRequests ids inner s' else s')"

definition handleInit ::
  "u8 list \<Rightarrow> (u8 \<Rightarrow> u8 list) \<Rightarrow> bool \<Rightarrow> endpoint \<Rightarrow> bytes \<Rightarrow> u8 \<Rightarrow> nn_session \<Rightarrow> (unit, nn_session \<times> nn_out list) outcome" where
  "handleInit ids inner writeOk addr buffer version s =
     (if length buffer < 10 then Ret (s, [])
      else case GetString (drop 9 buffer) of
        None \<Rightarrow> Ret (s, [])
      | Some gameName \<Rightarrow>
          if \<not> init_valid (buffer ! 0) (buffer ! 2) then Ret (s, [])
          else
            let ack = createPacketHeader version NNInitReply (Cookie s) @ [buffer ! 0, buffer ! 1] @
                      [0xFF, 0xFF, 0x6D, 0x16, 0xB5, 0x7D, 0xEA];
                out = [Send MainSocket ack addr]
            in if \<not> writeOk then Ret (s, out)
               else Ret (record_init ids inner addr buffer gameName s, out))"

definition handleConnectReply :: "bytes \<Rightarrow> nn_session \<Rightarrow> (unit, nn_session \<times> nn_out list) outcome" where
  "handleConnectReply buffer s =
     bind_outcome (at buffer 1) (\<lambda>clientIndex.
     case Clients s clientIndex of
       None \<Rightarrow> Ret (s, [])
     | Some client \<Rightarrow> Ret (s\<lparr>Clients := (Clients s)(clientIndex \<mapsto> client\<lparr>ConnectAck := True\<rparr>)\<rparr>, []))"

definition handleAddressCheck :: "endpoint \<Rightarrow> bytes \<Rightarrow> u8 \<Rightarrow> nn_session \<Rightarrow> (unit, nn_session \<times> nn_out list) outcome" where
  "handleAddressCheck addr buffer version s =
     (if length buffer < 1 then Ret (s, [])
      else if buffer ! 0 > 0x03 then Ret (s, [])
      else case ParseAddrPort (addr_String addr) of
        None \<Rightarrow> Panic
      | Some ap \<Rightarrow>
          Ret (s, [Send MainSocket
            (createPacketHeader version NNAddressCheckReply (Cookie s) @ [buffer ! 0, 0, 0] @
             be32 (IP ap) @ be16 (Port ap)) addr]))"

text \<open>\<open>listenOk\<close> tells whether the probe socket could be opened; otherwise \<open>ShouldNotError\<close> panics.\<close>

definition handleNatify :: "bool \<Rightarrow> endpoint \<Rightarrow> bytes \<Rightarrow> u8 \<Rightarrow> nn_session \<Rightarrow> (unit, nn_session \<times> nn_out list) outcome" where
  "handleNatify listenOk addr buffer version s =
     (if length buffer < 1 then Ret (s, [])
      else if buffer ! 0 > 0x03 then Ret (s, [])
      else
        let portType = buffer ! 0;
            probe = (portType = PortTypeNATNEG2 \<or> portType = PortTypeNATNEG3);
            socket = (if probe then ProbeSocket (if portType = PortTypeNATNEG3 then 0 else 27091) else MainSocket)
        in if probe \<and> \<not> listenOk then Panic
           else Ret (s, [Send socket
                  (createPacketHeader version NNErtTestRequest (Cookie s) @ [portType] @ replicate 8 0) addr]))"

definition record_report :: "u8 \<Rightarrow> u8 \<Rightarrow> nn_session \<Rightarrow> (unit, nn_session \<times> nn_out list) outcome" where
  "record_report clientIndex result s =
     (case Clients s clientIndex of
        None \<Rightarrow> Ret (s, [])
      | Some client \<Rightarrow>
          let c1 = client\<lparr>ClientResult := (ClientResult client)(ConnectingIndex client \<mapsto> result)\<rparr>;
              clients1 = (Clients s)(clientIndex \<mapsto> c1)
          in case clients1 (ConnectingIndex client) of
               None \<Rightarrow> Panic
             | Some connecting \<Rightarrow>
                 let c2 = c1\<lparr>ConnectingIndex := clientIndex, ConnectAck := False\<rparr>;
                     s' = s\<lparr>Clients := clients1(clientIndex \<mapsto> c2)\<rparr>
                 in case ClientResult connecting clientIndex of
                      None \<Rightarrow> Ret (s', [])
                    | Some otherResult \<Rightarrow>
                        let result' = (if otherResult \<noteq> 1 then otherResult else result)
                        in Ret (s', [NatnegEvent (result' = 1) (ServerIP client) (ServerIP connecting)]))"

definition handleReport ::
  "u8 list \<Rightarrow> (u8 \<Rightarrow> u8 list) \<Rightarrow> endpoint \<Rightarrow> bytes \<Rightarrow> u8 \<Rightarrow> nn_session \<Rightarrow> (unit, nn_session \<times> nn_out list) outcome" where
  "handleReport ids inner addr buffer version s =
     (if length buffer < 2 then Ret (s, [])
      else
        let response = (createPacketHeader version NNReportReply (Cookie s) @ wire buffer 0 9)[14 := 0] in
        bind_outcome (at buffer 2) (\<lambda>result.
        bind_outcome (record_report (buffer ! 1) result s) (\<lambda>(s', out).
          Ret (sendConnectRequests ids inner s', Send MainSocket response addr # out))))"

definition new_session :: "u8 \<Rightarrow> u32 \<Rightarrow> nn_session" where
  "new_session version cookie =
     \<lparr>Open = True, Version = version, Cookie = cookie, Clients = Map.empty, negotiators = []\<rparr>"

record nn_env =
  env_ids :: "u8 list"
  env_inner :: "u8 \<Rightarrow> u8 list"
  env_writeOk :: bool
  env_listenOk :: bool

definition dispatch ::
  "nn_env \<Rightarrow> endpoint \<Rightarrow> u8 \<Rightarrow> bytes \<Rightarrow> u8 \<Rightarrow> nn_session \<Rightarrow> (unit, nn_session \<times> nn_out list) outcome" where
  "dispatch env addr command buffer version s =
     (if command = NNInitRequest
      then handleInit (env_ids env) (env_inner env) (env_writeOk env) addr buffer version s
      else if command = NNConnectReply then handleConnectReply buffer s
      else if command = NNAddressCheckRequest then handleAddressCheck addr buffer version s
      else if command = NNNatifyRequest then handleNatify (env_listenOk env) addr buffer version s
      else if command = NNReportRequest then handleReport (env_ids env) (env_inner env) addr buffer version s
      else if command = NNPreInitRequest then handlePreinit addr buffer version s
      else Ret (s, []))"

definition handleConnection :: "nn_env \<Rightarrow> endpoint \<Rightarrow> bytes \<Rightarrow> nn_state \<Rightarrow> (unit, nn_state \<times> nn_out list) outcome" where
  "handleConnection env addr buffer st =
     (if length buffer < 12 \<or> \<not> has_prefix buffer magic then Ret (st, [])
      else
        let version = buffer ! 6; command = buffer ! 7;
            cookie = of_nat (uint_be (subslice 8 12 buffer));
            s = (case st cookie of None \<Rightarrow> new_session version cookie | Some s \<Rightarrow> s);
            st1 = st(cookie \<mapsto> s)
        in if Version s \<noteq> version then Ret (st1, [])
           else
             bind_outcome (dispatch env addr command (drop 12 buffer) version s) (\<lambda>(s', out).
               Ret (st1(cookie \<mapsto> s'), out)))"

text \<open>The clients still in a negotiation are told to give up, in the order \<open>ids\<close>.\<close>

fun disconnect_all :: "nn_session \<Rightarrow> u8 list \<Rightarrow> (unit, nn_out list) outcome" where
  "disconnect_all s [] = Ret []"
| "disconnect_all s (i # is) =
     (case Clients s i of
        None \<Rightarrow> disconnect_all s is
      | Some client \<Rightarrow>
          if ConnectingIndex client = Index client then disconnect_all s is
          else case ParseAddrPort (NegotiateIP client) of
            None \<Rightarrow> Panic
          | Some addr \<Rightarrow>
              bind_outcome (disconnect_all s is) (\<lambda>out.
                Ret (Send MainSocket
                  (createPacketHeader (Version s) NNReportReply (Cookie s) @
                   [0x00, Index client, 0x00] @ [0x00, 0x00, 0x00, 0x06, 0x00, 0x00]) addr # out)))"

definition closeSession :: "u8 list \<Rightarrow> u32 \<Rightarrow> nn_state \<Rightarrow> (unit, nn_state \<times> nn_out list) outcome" where
  "closeSession ids cookie st =
     (case st cookie of
        None \<Rightarrow> Ret (st, [])
      | Some s \<Rightarrow>
          bind_outcome (disconnect_all (s\<lparr>Open := False\<rparr>) ids) (\<lambda>out.
            Ret (st(cookie := None), out)))"

subsection \<open>What holds of every session\<close>

definition addr_text :: "string \<Rightarrow> bool" where
  "addr_text s \<longleftrightarrow> s = [] \<or> ParseAddrPort s \<noteq> None"

text \<open>A client is stored under its index, refers to a client of the session, has addresses that parse,
  and is fully mapped while it negotiates; so are both ends of every negotiator.\<close>

definition client_ok :: "u8 set \<Rightarrow> u8 \<Rightarrow> nn_client \<Rightarrow> bool" where
  "client_ok D i c \<longleftrightarrow> Index c = i \<and> ConnectingIndex c \<in> D \<and> (ConnectingIndex c \<noteq> i \<longrightarrow> isMapped c) \<and>
     addr_text (NegotiateIP c) \<and> addr_text (ServerIP c)"

definition mapped_at :: "nn_session \<Rightarrow> u8 \<Rightarrow> bool" where
  "mapped_at s i = (case Clients s i of None \<Rightarrow> False | Some c \<Rightarrow> isMapped c)"

definition nn_ok :: "nn_session \<Rightarrow> bool" where
  "nn_ok s \<longleftrightarrow> Open s \<and> all_ok (client_ok (dom (Clients s))) (Clients s) \<and>
     list_all (\<lambda>(i, j). mapped_at s i \<and> mapped_at s j) (negotiators s)"

definition state_ok :: "nn_state \<Rightarrow> bool" where
  "state_ok st \<longleftrightarrow> all_ok (\<lambda>k s. nn_ok s \<and> Cookie s = k) st"

lemma addr_text_String [simp]: "addr_text (addr_String a)" "addr_text []"
  by (simp_all add: addr_text_def)

lemma addr_String_not_Nil [simp]: "addr_String a \<noteq> []"
  by (simp add: addr_String_def)

lemma Nil_not_addr_String [simp]: "[] \<noteq> addr_String a"
  by (simp add: addr_String_def)

lemma nn_okD: "nn_ok s \<Longrightarrow> Clients s i = Some c \<Longrightarrow> client_ok (dom (Clients s)) i c"
  by (auto simp: nn_ok_def dest: all_okD)

lemma client_ok_mono: "client_ok D i c \<Longrightarrow> D \<subseteq> E \<Longrightarrow> client_ok E i c"
  by (auto simp: client_ok_def)

text \<open>Updating a client: the addresses may be filled in, never removed.\<close>

lemma nn_ok_update:
  assumes ok: "nn_ok s" and c: "client_ok (insert i (dom (Clients s))) i c"
    and m: "mapped_at s i \<Longrightarrow> isMapped c"
  shows "nn_ok (s\<lparr>Clients := (Clients s)(i \<mapsto> c)\<rparr>)"
proof -
  let ?s' = "s\<lparr>Clients := (Clients s)(i \<mapsto> c)\<rparr>"
  have "mapped_at ?s' j" if "mapped_at s j" for j
    using m that by (cases "j = i") (simp_all add: mapped_at_def)
  then have "list_all (\<lambda>(j, k). mapped_at ?s' j \<and> mapped_at ?s' k) (negotiators s)"
    using ok unfolding nn_ok_def list_all_iff by fast
  then show ?thesis
    using ok c unfolding nn_ok_def
    by (auto intro!: all_ok_upd elim!: all_ok_mono client_ok_mono)
qed

lemma nn_ok_negotiator:
  "nn_ok s \<Longrightarrow> mapped_at s i \<Longrightarrow> mapped_at s j \<Longrightarrow> nn_ok (s\<lparr>negotiators := negotiators s @ [(i, j)]\<rparr>)"
  by (simp add: nn_ok_def mapped_at_def)

lemma mapped_at_negotiators [simp]: "mapped_at (s\<lparr>negotiators := n\<rparr>) i = mapped_at s i"
  by (simp add: mapped_at_def)

lemma try_pair_ok:
  assumes "nn_ok s" and "mapped_at s id0"
  shows "nn_ok (try_pair id0 d s) \<and> mapped_at (try_pair id0 d s) id0 \<and> dom (Clients (try_pair id0 d s)) = dom (Clients s)
    \<and> Cookie (try_pair id0 d s) = Cookie s \<and> Version (try_pair id0 d s) = Version s"
proof (cases "\<exists>sender destination. Clients s id0 = Some sender \<and> Clients s d = Some destination \<and>
    id0 \<noteq> d \<and> isMapped destination \<and> ConnectingIndex destination = d \<and> ClientResult destination id0 = None")
  case True
  then obtain sender destination where c: "Clients s id0 = Some sender" "Clients s d = Some destination"
    "id0 \<noteq> d" "isMapped destination" "ConnectingIndex destination = d" "ClientResult destination id0 = None"
    by blast
  have ms: "isMapped sender" using assms(2) c by (simp add: mapped_at_def)
  let ?sd = "sender\<lparr>ConnectingIndex := d, ConnectAck := False\<rparr>"
  let ?de = "destination\<lparr>ConnectingIndex := id0, ConnectAck := False\<rparr>"
  let ?s1 = "s\<lparr>Clients := (Clients s)(id0 \<mapsto> ?sd)\<rparr>"
  let ?s2 = "?s1\<lparr>Clients := (Clients ?s1)(d \<mapsto> ?de)\<rparr>"
  have m: "isMapped ?sd" "isMapped ?de" using ms c by (simp_all add: isMapped_def)
  have k: "client_ok (dom (Clients s)) id0 sender" "client_ok (dom (Clients s)) d destination"
    using nn_okD [OF assms(1)] c by auto
  have s1: "nn_ok ?s1"
    using k c m by (intro nn_ok_update [OF assms(1)]) (auto simp: client_ok_def domI)
  have s2: "nn_ok ?s2"
    using k c m by (intro nn_ok_update [OF s1]) (auto simp: client_ok_def domI)
  have "try_pair id0 d s = ?s2\<lparr>negotiators := negotiators ?s2 @ [(id0, d)]\<rparr>"
    using c by (simp add: try_pair_def)
  moreover have "mapped_at ?s2 id0" "mapped_at ?s2 d" using c m by (simp_all add: mapped_at_def)
  moreover have "dom (Clients ?s2) = dom (Clients s)" using c by auto
  ultimately show ?thesis using nn_ok_negotiator [OF s2] by simp
next
  case False
  then have "try_pair id0 d s = s"
    by (cases "Clients s id0"; cases "Clients s d") (auto simp: try_pair_def)
  then show ?thesis using assms by simp
qed

definition kept :: "nn_session \<Rightarrow> nn_session \<Rightarrow> bool" where
  "kept s s' \<longleftrightarrow> nn_ok s' \<and> dom (Clients s') = dom (Clients s) \<and> Cookie s' = Cookie s \<and> Version s' = Version s"

lemma kept_refl: "nn_ok s \<Longrightarrow> kept s s"
  by (simp add: kept_def)

lemma kept_trans: "kept s s' \<Longrightarrow> kept s' s'' \<Longrightarrow> kept s s''"
  by (simp add: kept_def)

lemma fold_try_pair_ok:
  "nn_ok s \<Longrightarrow> mapped_at s id0 \<Longrightarrow> kept s (fold (try_pair id0) ds s)"
proof (induction ds arbitrary: s)
  case (Cons d ds)
  then show ?case using try_pair_ok [of s id0 d] Cons.IH [of "try_pair id0 d s"] by (simp add: kept_def)
qed (simp add: kept_refl)

lemma connect_from_ok: "nn_ok s \<Longrightarrow> kept s (connect_from inner i s)"
  by (auto simp: connect_from_def kept_refl mapped_at_def split: option.split intro: fold_try_pair_ok)

lemma sendConnectRequests_ok: "nn_ok s \<Longrightarrow> kept s (sendConnectRequests ids inner s)"
  unfolding sendConnectRequests_def
proof (induction ids arbitrary: s)
  case (Cons i ids)
  then have "kept s (connect_from inner i s)" by (intro connect_from_ok)
  moreover from this have "nn_ok (connect_from inner i s)" by (simp add: kept_def)
  ultimately show ?case using Cons.IH kept_trans by fastforce
qed (simp add: kept_refl)

lemma record_init_ok:
  assumes ok: "nn_ok s"
  shows "nn_ok (record_init ids inner addr buffer gameName s) \<and>
    Cookie (record_init ids inner addr buffer gameName s) = Cookie s \<and>
    Version (record_init ids inner addr buffer gameName s) = Version s"
proof -
  let ?i = "buffer ! 1"
  define sender where "sender = (case Clients s ?i of None \<Rightarrow> new_client s ?i | Some c \<Rightarrow> c)"
  have so: "client_ok (insert ?i (dom (Clients s))) ?i sender"
    using nn_okD [OF ok, of ?i]
    by (cases "Clients s ?i") (auto simp: sender_def new_client_def client_ok_def isMapped_def)
  have sm: "mapped_at s ?i \<Longrightarrow> isMapped sender"
    by (simp add: mapped_at_def sender_def split: option.splits)
  define c where "c = init_client addr buffer gameName sender"
  have c: "Index c = Index sender" "ConnectingIndex c = ConnectingIndex sender"
    "NegotiateIP c = NegotiateIP sender \<or> NegotiateIP c = addr_String addr"
    "ServerIP c = ServerIP sender \<or> ServerIP c = addr_String addr"
    by (simp_all add: c_def init_client_def Let_def)
  have m: "isMapped sender \<Longrightarrow> isMapped c" using c(3,4) by (auto simp: isMapped_def)
  have upd: "nn_ok (s\<lparr>Clients := (Clients s)(?i \<mapsto> c)\<rparr>)"
  proof (rule nn_ok_update [OF ok])
    show "client_ok (insert ?i (dom (Clients s))) ?i c" using so c m by (auto simp: client_ok_def)
    show "mapped_at s ?i \<Longrightarrow> isMapped c" using sm m by blast
  qed
  show ?thesis
    unfolding record_init_def Let_def sender_def [symmetric] c_def [symmetric]
    using ok upd sendConnectRequests_ok [OF upd] by (simp add: kept_def)
qed

lemma handleInit_ok:
  "nn_ok s \<Longrightarrow> handleInit ids inner w addr buffer v s = Ret (s', out) \<Longrightarrow>
     nn_ok s' \<and> Cookie s' = Cookie s \<and> Version s' = Version s"
  by (auto simp: handleInit_def Let_def record_init_ok split: if_splits option.splits)

lemma record_report_ok:
  assumes ok: "nn_ok s"
  shows "\<exists>s' out. record_report i r s = Ret (s', out) \<and> kept s s'"
proof (cases "Clients s i")
  case None
  then show ?thesis using ok by (simp add: record_report_def kept_refl)
next
  case (Some client)
  let ?c1 = "client\<lparr>ClientResult := (ClientResult client)(ConnectingIndex client \<mapsto> r)\<rparr>"
  let ?c2 = "?c1\<lparr>ConnectingIndex := i, ConnectAck := False\<rparr>"
  let ?s' = "s\<lparr>Clients := (Clients s)(i \<mapsto> ?c2)\<rparr>"
  have co: "client_ok (dom (Clients s)) i client" using nn_okD [OF ok Some] .
  then have "ConnectingIndex client \<in> dom ((Clients s)(i \<mapsto> ?c1))" by (auto simp: client_ok_def)
  then obtain connecting where con: "((Clients s)(i \<mapsto> ?c1)) (ConnectingIndex client) = Some connecting"
    by blast
  have "nn_ok ?s'"
    using co Some by (intro nn_ok_update [OF ok]) (auto simp: client_ok_def mapped_at_def isMapped_def)
  then have k: "kept s ?s'" using Some by (auto simp: kept_def)
  show ?thesis
  proof (cases "ClientResult connecting i")
    case None
    have "record_report i r s = Ret (?s', [])"
      unfolding record_report_def Let_def Some option.case con None fun_upd_upd ..
    then show ?thesis using k by blast
  next
    case (Some other)
    have "\<exists>out. record_report i r s = Ret (?s', out)"
      unfolding record_report_def Let_def \<open>Clients s i = Some client\<close> option.case con Some fun_upd_upd by blast
    then show ?thesis using k by blast
  qed
qed

lemma handleReport_ok:
  assumes ok: "nn_ok s" and run: "handleReport ids inner addr buffer v s = Ret (s', out)"
  shows "kept s s'"
proof -
  obtain s1 o1 where r: "record_report (buffer ! 1) (buffer ! 2) s = Ret (s1, o1)" and k: "kept s s1"
    using record_report_ok [OF ok] by blast
  then have "kept s1 (sendConnectRequests ids inner s1)" by (intro sendConnectRequests_ok) (simp add: kept_def)
  then show ?thesis
    using run r k ok kept_trans [of s s1 "sendConnectRequests ids inner s1"]
    by (auto simp: handleReport_def kept_refl split: if_splits)
qed

lemma handleConnectReply_ok:
  assumes ok: "nn_ok s" and run: "handleConnectReply buffer s = Ret (s', out)"
  shows "kept s s'"
proof (cases "Clients s (buffer ! 1)")
  case None
  then show ?thesis using run ok by (auto simp: handleConnectReply_def kept_refl)
next
  case (Some client)
  have "nn_ok (s\<lparr>Clients := (Clients s)(buffer ! 1 \<mapsto> client\<lparr>ConnectAck := True\<rparr>)\<rparr>)"
    using nn_okD [OF ok Some] Some
    by (intro nn_ok_update [OF ok]) (auto simp: client_ok_def mapped_at_def isMapped_def)
  moreover have "s' = s\<lparr>Clients := (Clients s)(buffer ! 1 \<mapsto> client\<lparr>ConnectAck := True\<rparr>)\<rparr>"
    using run Some by (auto simp: handleConnectReply_def)
  ultimately show ?thesis using Some by (auto simp: kept_def)
qed

lemma dispatch_ok:
  assumes "nn_ok s" and "dispatch env addr command buffer v s = Ret (s', out)"
  shows "nn_ok s' \<and> Cookie s' = Cookie s \<and> Version s' = Version s"
  using assms handleInit_ok [OF assms(1)] handleReport_ok [OF assms(1)] handleConnectReply_ok [OF assms(1)]
  by (auto simp: dispatch_def handleAddressCheck_def handleNatify_def handlePreinit_def kept_def Let_def
      split: if_splits)

lemma nn_ok_new [simp]: "nn_ok (new_session v c)"
  by (simp add: nn_ok_def new_session_def)

lemma nn_handleConnection_ok:
  assumes ok: "state_ok st" and run: "handleConnection env addr buffer st = Ret (st', out)"
  shows "state_ok st'"
proof -
  define cookie :: u32 where "cookie = of_nat (uint_be (subslice 8 12 buffer))"
  define s where "s = (case st cookie of None \<Rightarrow> new_session (buffer ! 6) cookie | Some s \<Rightarrow> s)"
  have so: "nn_ok s \<and> Cookie s = cookie"
    using ok all_okD [of _ st cookie] by (auto simp: s_def state_ok_def new_session_def [of "buffer ! 6" cookie] split: option.split)
       (simp_all add: new_session_def [symmetric])
  then have upd: "state_ok (st(cookie \<mapsto> s'))" if "nn_ok s'" "Cookie s' = cookie" for s'
    using ok that by (auto simp: state_ok_def)
  show ?thesis
    using run so ok upd dispatch_ok
    unfolding handleConnection_def Let_def cookie_def [symmetric] s_def [symmetric]
    by (auto split: if_splits)
qed

subsection \<open>The timers never panic\<close>

lemma addr_text_parses: "addr_text s \<Longrightarrow> s \<noteq> [] \<Longrightarrow> \<exists>a. ParseAddrPort s = Some a"
  by (auto simp: addr_text_def)

lemma mapped_client:
  assumes "nn_ok s" and "mapped_at s i"
  obtains c a b where "Clients s i = Some c" and "ParseAddrPort (NegotiateIP c) = Some a"
    and "ParseAddrPort (ServerIP c) = Some b" and "Index c = i"
proof -
  obtain c where c: "Clients s i = Some c" "isMapped c"
    using assms(2) by (auto simp: mapped_at_def split: option.splits)
  then have "client_ok (dom (Clients s)) i c" using nn_okD [OF assms(1)] by blast
  then have "Index c = i" and "\<exists>a. ParseAddrPort (NegotiateIP c) = Some a" "\<exists>b. ParseAddrPort (ServerIP c) = Some b"
    using c by (auto simp: client_ok_def isMapped_def dest: addr_text_parses)
  then show ?thesis using that c by blast
qed

definition connect_packet :: "u8 \<Rightarrow> u32 \<Rightarrow> endpoint \<Rightarrow> bytes" where
  "connect_packet version cookie a =
     createPacketHeader version NNConnectRequest cookie @ be32 (IP a) @ be16 (Port a) @ [0x42, 0x00]"

lemma sendConnectRequestPacket_Ret:
  assumes "ParseAddrPort (ServerIP c) = Some a" and "ParseAddrPort (NegotiateIP d) = Some b"
  shows "sendConnectRequestPacket c d v = Ret (Send MainSocket (connect_packet v (ClientCookie d) a) b)"
  using assms by (simp add: sendConnectRequestPacket_def IPFormatToInt_def IPFormatBytes_def connect_packet_def)

lemma connect_tick_not_Panic:
  assumes ok: "nn_ok s" and n: "(i, j) \<in> set (negotiators s)"
  shows "connect_tick i j s \<noteq> Panic"
proof -
  have "mapped_at s i" "mapped_at s j" using ok n by (auto simp: nn_ok_def list_all_iff)
  then obtain c d ca cb da db where
    "Clients s i = Some c" "ParseAddrPort (NegotiateIP c) = Some ca" "ParseAddrPort (ServerIP c) = Some cb"
    "Clients s j = Some d" "ParseAddrPort (NegotiateIP d) = Some da" "ParseAddrPort (ServerIP d) = Some db"
    by (metis mapped_client [OF ok])
  then show ?thesis by (simp add: connect_tick_def sendConnectRequestPacket_Ret Let_def)
qed

lemma disconnect_all_not_Panic: "nn_ok s \<Longrightarrow> disconnect_all (s\<lparr>Open := False\<rparr>) ids \<noteq> Panic"
proof (induction ids)
  case (Cons i ids)
  then show ?case
  proof (cases "Clients s i")
    case (Some c)
    then have c: "client_ok (dom (Clients s)) i c" using Cons.prems nn_okD by blast
    then have "ConnectingIndex c \<noteq> Index c \<Longrightarrow> \<exists>a. ParseAddrPort (NegotiateIP c) = Some a"
      by (auto simp: client_ok_def isMapped_def dest: addr_text_parses)
    then show ?thesis using Some Cons by (auto simp: bind_outcome_Panic_iff)
  qed simp
qed simp

lemma state_okD: "state_ok st \<Longrightarrow> st k = Some s \<Longrightarrow> nn_ok s \<and> Cookie s = k"
  unfolding state_ok_def by (rule all_okD)

lemma closeSession_not_Panic: "state_ok st \<Longrightarrow> closeSession ids cookie st \<noteq> Panic"
  by (auto simp: closeSession_def bind_outcome_Panic_iff disconnect_all_not_Panic dest: state_okD
      split: option.split)

lemma closeSession_ok: "state_ok st \<Longrightarrow> closeSession ids cookie st = Ret (st', out) \<Longrightarrow> state_ok st'"
  by (auto simp: closeSession_def state_ok_def split: option.splits)

subsection \<open>The server as a state machine\<close>

text \<open>Datagrams and expiring sessions change the table; a turn of a negotiator only sends.\<close>

inductive nn_step :: "nn_state \<Rightarrow> nn_state \<Rightarrow> bool" where
  datagram: "handleConnection env addr buffer st = Ret (st', out) \<Longrightarrow> nn_step st st'"
| expiry: "closeSession ids cookie st = Ret (st', out) \<Longrightarrow> nn_step st st'"

inductive nn_reachable :: "nn_state \<Rightarrow> bool" where
  start: "nn_reachable Map.empty"
| step: "nn_reachable st \<Longrightarrow> nn_step st st' \<Longrightarrow> nn_reachable st'"

inductive_cases nn_stepE: "nn_step st st'"

lemma reachable_state_ok: "nn_reachable st \<Longrightarrow> state_ok st"
proof (induction rule: nn_reachable.induct)
  case start
  then show ?case by (simp add: state_ok_def)
next
  case (step st st')
  then show ?case by (auto elim!: nn_stepE intro: nn_handleConnection_ok closeSession_ok)
qed

subsection \<open>Which datagrams panic\<close>

lemma handleReport_Panic:
  assumes "nn_ok s"
  shows "handleReport ids inner addr buffer v s = Panic \<longleftrightarrow> length buffer = 2"
proof -
  obtain s1 o1 where "record_report (buffer ! 1) (buffer ! 2) s = Ret (s1, o1)"
    using record_report_ok [OF assms] by blast
  then show ?thesis by (simp add: handleReport_def at_def)
qed

lemma handleConnectReply_Panic: "handleConnectReply buffer s = Panic \<longleftrightarrow> length buffer < 2"
  by (auto simp: handleConnectReply_def at_def split: option.split)

lemma handleNatify_Panic:
  "handleNatify listenOk addr buffer v s = Panic \<longleftrightarrow>
     buffer \<noteq> [] \<and> buffer ! 0 \<in> {PortTypeNATNEG2, PortTypeNATNEG3} \<and> \<not> listenOk"
  by (cases buffer) (auto simp: handleNatify_def PortTypeNATNEG2_def PortTypeNATNEG3_def Let_def)

lemma others_not_Panic:
  "handleInit ids inner w addr buffer v s \<noteq> Panic" "handleAddressCheck addr buffer v s \<noteq> Panic"
  "handlePreinit addr buffer v s \<noteq> Panic"
  by (auto simp: handleInit_def handleAddressCheck_def handlePreinit_def Let_def split: option.split)

lemma dispatch_Panic:
  assumes "nn_ok s"
  shows "dispatch env addr command buffer v s = Panic \<longleftrightarrow>
    (command = NNConnectReply \<and> length buffer < 2) \<or> (command = NNReportRequest \<and> length buffer = 2) \<or>
    (command = NNNatifyRequest \<and> buffer \<noteq> [] \<and> buffer ! 0 \<in> {PortTypeNATNEG2, PortTypeNATNEG3} \<and> \<not> env_listenOk env)"
  using others_not_Panic
  by (auto simp: dispatch_def handleReport_Panic [OF assms] handleConnectReply_Panic handleNatify_Panic
      NNConnectReply_def NNReportRequest_def NNNatifyRequest_def NNInitRequest_def NNAddressCheckRequest_def)

subsection \<open>A sample run: two clients of the session 9 introduce themselves\<close>

definition init_datagram :: "u8 \<Rightarrow> bytes" where
  "init_datagram i = magic @ [2, 0, 0, 0, 0, 9, 1, i, 0, 10, 0, 0, 1, 0, 0, 97, 0]"

definition sample_env :: nn_env where
  "sample_env = \<lparr>env_ids = [0, 1], env_inner = (\<lambda>_. [0, 1]), env_writeOk = True, env_listenOk = False\<rparr>"

definition sample_client :: "u8 \<Rightarrow> endpoint \<Rightarrow> nn_client" where
  "sample_client i a = \<lparr>ClientCookie = 9, Index = i, ConnectingIndex = i, ConnectAck = False,
     ClientResult = Map.empty, NegotiateIP = addr_String a, LocalIP = [], ServerIP = addr_String a, GameName = ''a''\<rparr>"

definition one_client :: "endpoint \<Rightarrow> nn_session" where
  "one_client a = \<lparr>Open = True, Version = 2, Cookie = 9, Clients = [0 \<mapsto> sample_client 0 a], negotiators = []\<rparr>"

definition two_clients :: "endpoint \<Rightarrow> endpoint \<Rightarrow> nn_session" where
  "two_clients a b = \<lparr>Open = True, Version = 2, Cookie = 9,
     Clients = [0 \<mapsto> (sample_client 0 a)\<lparr>ConnectingIndex := 1\<rparr>, 1 \<mapsto> (sample_client 1 b)\<lparr>ConnectingIndex := 0\<rparr>],
     negotiators = [(0, 1)]\<rparr>"

lemma init_header:
  "length (init_datagram i) = 23" "has_prefix (init_datagram i) magic" "init_datagram i ! 6 = 2"
  "init_datagram i ! 7 = 0" "of_nat (uint_be (subslice 8 12 (init_datagram i))) = (9 :: u32)"
  "drop 12 (init_datagram i) = [1, i, 0, 10, 0, 0, 1, 0, 0, 97, 0]"
  by (simp_all add: init_datagram_def magic_def has_prefix_def subslice_def uint_be_def)

lemma char_of_a: "char_of (97 :: nat) = CHR ''a''"
  by code_simp

lemma init_body:
  "handleInit [0, 1] (\<lambda>_. [0, 1]) True a [1, i, 0, 10, 0, 0, 1, 0, 0, 97, 0] v s =
     Ret (record_init [0, 1] (\<lambda>_. [0, 1]) a [1, i, 0, 10, 0, 0, 1, 0, 0, 97, 0] ''a'' s,
       [Send MainSocket (createPacketHeader v NNInitReply (Cookie s) @ [1, i, 0xFF, 0xFF, 0x6D, 0x16, 0xB5, 0x7D, 0xEA]) a])"
  by (simp add: handleInit_def GetString_def string_of_def init_valid_def PortTypeGamePort_def char_of_a)

lemma init_first:
  "record_init [0, 1] (\<lambda>_. [0, 1]) a [1, 0, 0, 10, 0, 0, 1, 0, 0, 97, 0] ''a'' (new_session 2 9) = one_client a"
  by (simp add: record_init_def new_client_def init_client_def isMapped_def new_session_def one_client_def
      sample_client_def sendConnectRequests_def connect_from_def try_pair_def Let_def PortTypeGamePort_def
      subslice_def uint_be_def)

lemma init_second:
  "record_init [0, 1] (\<lambda>_. [0, 1]) b [1, 1, 0, 10, 0, 0, 1, 0, 0, 97, 0] ''a'' (one_client a) = two_clients a b"
  by (simp add: record_init_def new_client_def init_client_def isMapped_def two_clients_def one_client_def
      sample_client_def sendConnectRequests_def connect_from_def try_pair_def Let_def PortTypeGamePort_def
      subslice_def uint_be_def fun_eq_iff)

lemma two_clients_reachable: "nn_reachable [9 \<mapsto> two_clients a b]"
proof -
  have "handleConnection sample_env a (init_datagram 0) Map.empty = Ret ([9 \<mapsto> one_client a],
      [Send MainSocket (createPacketHeader 2 NNInitReply 9 @ [1, 0, 0xFF, 0xFF, 0x6D, 0x16, 0xB5, 0x7D, 0xEA]) a])"
    unfolding handleConnection_def Let_def init_header
    by (simp add: init_header dispatch_def NNInitRequest_def sample_env_def init_body init_first) (simp add: new_session_def)
  then have "nn_reachable [9 \<mapsto> one_client a]"
    by (rule nn_reachable.step [OF nn_reachable.start nn_step.datagram])
  moreover have "handleConnection sample_env b (init_datagram 1) [9 \<mapsto> one_client a] = Ret ([9 \<mapsto> two_clients a b],
      [Send MainSocket (createPacketHeader 2 NNInitReply 9 @ [1, 1, 0xFF, 0xFF, 0x6D, 0x16, 0xB5, 0x7D, 0xEA]) b])"
    unfolding handleConnection_def Let_def init_header
    by (simp add: init_header dispatch_def NNInitRequest_def sample_env_def init_body init_second) (simp add: one_client_def)
  ultimately show ?thesis by (blast intro: nn_reachable.step nn_step.datagram)
qed

subsection \<open>Properties\<close>

text \<open>C27. In every state the NAT negotiation server can reach, a session is open and stored under its
  cookie; its clients are stored under their index, refer to a client of the same session, and are
  only ever paired once both of their addresses are known and parse.\<close>

theorem natneg_sessions_invariant:
  assumes "nn_reachable st"
  shows "all_ok (\<lambda>cookie s. Cookie s = cookie \<and> Open s \<and>
      all_ok (\<lambda>i c. Index c = i \<and> ConnectingIndex c \<in> dom (Clients s) \<and>
        (ConnectingIndex c \<noteq> i \<longrightarrow> isMapped c) \<and> addr_text (NegotiateIP c) \<and> addr_text (ServerIP c))
      (Clients s)) st"
  using reachable_state_ok [OF assms] by (simp add: state_ok_def nn_ok_def client_ok_def all_ok_def)

theorem natneg_sessions_invariant_witness:
  "all_ok (\<lambda>cookie s. Cookie s = cookie \<and> Open s \<and>
      all_ok (\<lambda>i c. Index c = i \<and> ConnectingIndex c \<in> dom (Clients s) \<and>
        (ConnectingIndex c \<noteq> i \<longrightarrow> isMapped c) \<and> addr_text (NegotiateIP c) \<and> addr_text (ServerIP c))
      (Clients s)) [9 \<mapsto> two_clients \<lparr>IP = 1, Port = 2\<rparr> \<lparr>IP = 3, Port = 4\<rparr>]"
  by (rule natneg_sessions_invariant [OF two_clients_reachable])

text \<open>No datagram can lead to a state in which the connect goroutines or the session timer panic.\<close>

theorem natneg_timers_never_panic:
  assumes "nn_reachable st"
  shows "closeSession ids cookie st \<noteq> Panic \<and>
    (\<forall>s i j. st cookie = Some s \<longrightarrow> (i, j) \<in> set (negotiators s) \<longrightarrow> connect_tick i j s \<noteq> Panic)"
  using reachable_state_ok [OF assms] closeSession_not_Panic connect_tick_not_Panic state_okD by blast

theorem natneg_timers_never_panic_witness:
  "closeSession [0, 1] 9 [9 \<mapsto> two_clients \<lparr>IP = 1, Port = 2\<rparr> \<lparr>IP = 3, Port = 4\<rparr>] \<noteq> Panic \<and>
   connect_tick 0 1 (two_clients \<lparr>IP = 1, Port = 2\<rparr> \<lparr>IP = 3, Port = 4\<rparr>) \<noteq> Panic"
  using natneg_timers_never_panic [OF two_clients_reachable
      [of "\<lparr>IP = 1, Port = 2\<rparr>" "\<lparr>IP = 3, Port = 4\<rparr>"], of "[0, 1]" 9]
  by (simp add: two_clients_def)

text \<open>A datagram makes the handler panic exactly when its header is valid for the session and it is
  a connect reply of fewer than two bytes, a report of two bytes, or a natify probe from an address the
  server cannot listen on.\<close>

theorem natneg_datagram_panics_iff:
  assumes "nn_reachable st"
  shows "handleConnection env addr buffer st = Panic \<longleftrightarrow>
    12 \<le> length buffer \<and> has_prefix buffer magic \<and>
    (case st (of_nat (uint_be (subslice 8 12 buffer))) of None \<Rightarrow> True | Some s \<Rightarrow> Version s = buffer ! 6) \<and>
    ((buffer ! 7 = NNConnectReply \<and> length buffer < 14) \<or> (buffer ! 7 = NNReportRequest \<and> length buffer = 14) \<or>
     (buffer ! 7 = NNNatifyRequest \<and> 12 < length buffer \<and>
      buffer ! 12 \<in> {PortTypeNATNEG2, PortTypeNATNEG3} \<and> \<not> env_listenOk env))"
proof -
  define cookie :: u32 where "cookie = of_nat (uint_be (subslice 8 12 buffer))"
  define s where "s = (case st cookie of None \<Rightarrow> new_session (buffer ! 6) cookie | Some s \<Rightarrow> s)"
  have ok: "nn_ok s"
    using state_okD [OF reachable_state_ok [OF assms], of cookie] by (simp add: s_def split: option.split)
  have v: "Version s = buffer ! 6 \<longleftrightarrow> (case st cookie of None \<Rightarrow> True | Some s \<Rightarrow> Version s = buffer ! 6)"
    by (simp add: s_def new_session_def split: option.split)
  have "handleConnection env addr buffer st = Panic \<longleftrightarrow> \<not> (length buffer < 12 \<or> \<not> has_prefix buffer magic) \<and>
      Version s = buffer ! 6 \<and> dispatch env addr (buffer ! 7) (drop 12 buffer) (buffer ! 6) s = Panic"
    unfolding handleConnection_def Let_def cookie_def [symmetric] s_def [symmetric]
    by (auto simp: bind_outcome_Panic_iff)
  then show ?thesis
    unfolding cookie_def [symmetric] v dispatch_Panic [OF ok] by (cases "length buffer < 12") auto
qed

theorem natneg_datagram_panics_iff_witness:
  "handleConnection sample_env \<lparr>IP = 5, Port = 6\<rparr> (magic @ [2, 6, 0, 0, 0, 9])
     [9 \<mapsto> two_clients \<lparr>IP = 1, Port = 2\<rparr> \<lparr>IP = 3, Port = 4\<rparr>] = Panic"
  unfolding natneg_datagram_panics_iff [OF two_clients_reachable]
  by (simp add: magic_def has_prefix_def subslice_def uint_be_def two_clients_def NNConnectReply_def)

text \<open>C34. When the two clients of a session are both mapped and free and the peer has not reported on
  the other, a pass over the clients (that visits \<open>i\<close> first) pairs them with each other and starts one
  negotiator, whose turns send each of them the game address of the other.\<close>

theorem two_clients_are_introduced:
  assumes "i \<noteq> j" and "Clients s = [i \<mapsto> c, j \<mapsto> d]"
    and "isMapped c" "isMapped d" "ConnectingIndex c = i" "ConnectingIndex d = j"
    and "ClientResult c j = None" "ClientResult d i = None"
    and "(ids, inner i) \<in> {([i, j], [i, j]), ([i, j], [j, i])}"
    and "Index c = i" "Index d = j" "Open s"
    and "ParseAddrPort (ServerIP c) = Some ca" "ParseAddrPort (ServerIP d) = Some da"
    and "ParseAddrPort (NegotiateIP c) = Some cn" "ParseAddrPort (NegotiateIP d) = Some dn"
  shows "let s' = sendConnectRequests ids inner s in
    map_option ConnectingIndex (Clients s' i) = Some j \<and> map_option ConnectingIndex (Clients s' j) = Some i \<and>
    negotiators s' = negotiators s @ [(i, j)] \<and>
    connect_tick i j s' = Ret (True,
      [Send MainSocket (connect_packet (Version s) (ClientCookie d) ca) dn,
       Send MainSocket (connect_packet (Version s) (ClientCookie c) da) cn])"
proof -
  define c' where "c' = c\<lparr>ConnectingIndex := j, ConnectAck := False\<rparr>"
  define d' where "d' = d\<lparr>ConnectingIndex := i, ConnectAck := False\<rparr>"
  define s' where "s' = s\<lparr>Clients := (Clients s)(i \<mapsto> c', j \<mapsto> d'), negotiators := negotiators s @ [(i, j)]\<rparr>"
  have pair: "try_pair i j s = s'" and self: "try_pair i i s = s" "try_pair i i s' = s'"
    using assms by (simp_all add: try_pair_def c'_def d'_def s'_def)
  have "connect_from inner i s = s'"
    using assms pair self by (auto simp: connect_from_def)
  moreover have "connect_from inner j s' = s'"
    using assms by (simp add: connect_from_def s'_def d'_def)
  ultimately have run: "sendConnectRequests ids inner s = s'"
    using assms(9) by (auto simp: sendConnectRequests_def)
  have "connect_tick i j s' = Ret (True,
      [Send MainSocket (connect_packet (Version s) (ClientCookie d) ca) dn,
       Send MainSocket (connect_packet (Version s) (ClientCookie c) da) cn])"
    using assms by (simp add: connect_tick_def s'_def c'_def d'_def sendConnectRequestPacket_Ret Let_def)
  then show ?thesis unfolding run using assms by (simp add: s'_def c'_def d'_def)
qed

definition two_free_clients :: nn_session where
  "two_free_clients = \<lparr>Open = True, Version = 2, Cookie = 9,
     Clients = [0 \<mapsto> sample_client 0 \<lparr>IP = 1, Port = 2\<rparr>, 1 \<mapsto> sample_client 1 \<lparr>IP = 3, Port = 4\<rparr>], negotiators = []\<rparr>"

theorem two_clients_are_introduced_witness:
  "connect_tick 0 1 (sendConnectRequests [0, 1] (\<lambda>_. [1, 0]) two_free_clients) = Ret (True,
      [Send MainSocket (connect_packet 2 9 \<lparr>IP = 1, Port = 2\<rparr>) \<lparr>IP = 3, Port = 4\<rparr>,
       Send MainSocket (connect_packet 2 9 \<lparr>IP = 3, Port = 4\<rparr>) \<lparr>IP = 1, Port = 2\<rparr>])"
  using two_clients_are_introduced [of 0 1 two_free_clients "sample_client 0 \<lparr>IP = 1, Port = 2\<rparr>"
      "sample_client 1 \<lparr>IP = 3, Port = 4\<rparr>" "[0, 1]" "\<lambda>_. [1, 0]"
      "\<lparr>IP = 1, Port = 2\<rparr>" "\<lparr>IP = 3, Port = 4\<rparr>" "\<lparr>IP = 1, Port = 2\<rparr>" "\<lparr>IP = 3, Port = 4\<rparr>"]
  by (simp add: two_free_clients_def sample_client_def isMapped_def Let_def)

text \<open>A report of a client that is paired with another ends its side of the pairing and records one
  event exactly when the other has reported on it already; the event is a success exactly when both
  results are 1, and nothing else of the session changes.\<close>

theorem report_event:
  assumes "Clients s i = Some c" and "ConnectingIndex c = j" and "Clients s j = Some d" and "i \<noteq> j"
  shows "\<exists>c'. record_report i result s =
      Ret (s\<lparr>Clients := (Clients s)(i \<mapsto> c')\<rparr>,
        case ClientResult d i of None \<Rightarrow> []
        | Some other \<Rightarrow> [NatnegEvent (other = 1 \<and> result = 1) (ServerIP c) (ServerIP d)]) \<and>
    ClientResult c' j = Some result \<and> ConnectingIndex c' = i \<and> NegotiateIP c' = NegotiateIP c \<and> ServerIP c' = ServerIP c"
  using assms by (auto simp: record_report_def Let_def split: option.split)

theorem report_event_witness:
  "\<exists>s'. record_report 0 1 (two_clients \<lparr>IP = 1, Port = 2\<rparr> \<lparr>IP = 3, Port = 4\<rparr>) = Ret (s', [])"
  using report_event [of "two_clients \<lparr>IP = 1, Port = 2\<rparr> \<lparr>IP = 3, Port = 4\<rparr>" 0
      "(sample_client 0 \<lparr>IP = 1, Port = 2\<rparr>)\<lparr>ConnectingIndex := 1\<rparr>" 1
      "(sample_client 1 \<lparr>IP = 3, Port = 4\<rparr>)\<lparr>ConnectingIndex := 0\<rparr>" 1]
  by (auto simp: two_clients_def sample_client_def)

text \<open>A pass pairs the client it visits first with every free client, as its own index is not checked
  again: with three clients it ends up naming the last one only, while the client in between still
  names it and is skipped by every later pass until it reports.\<close>

theorem third_client_left_behind:
  assumes "distinct [i, j, k]" and "Clients s = [i \<mapsto> c, j \<mapsto> d, k \<mapsto> e]"
    and "isMapped c" "isMapped d" "isMapped e" "ConnectingIndex c = i" "ConnectingIndex d = j" "ConnectingIndex e = k"
    and "ClientResult d i = None" "ClientResult e i = None"
  shows "map_option ConnectingIndex \<circ> Clients (sendConnectRequests [i, j, k] (\<lambda>_. [i, j, k]) s) =
    [i \<mapsto> k, j \<mapsto> i, k \<mapsto> i]"
proof -
  define s1 where "s1 = s\<lparr>Clients := (Clients s)(i \<mapsto> c\<lparr>ConnectingIndex := j, ConnectAck := False\<rparr>,
      j \<mapsto> d\<lparr>ConnectingIndex := i, ConnectAck := False\<rparr>), negotiators := negotiators s @ [(i, j)]\<rparr>"
  define s2 where "s2 = s1\<lparr>Clients := (Clients s1)(i \<mapsto> c\<lparr>ConnectingIndex := k, ConnectAck := False\<rparr>,
      k \<mapsto> e\<lparr>ConnectingIndex := i, ConnectAck := False\<rparr>), negotiators := negotiators s1 @ [(i, k)]\<rparr>"
  have ne: "i \<noteq> j" "j \<noteq> i" "i \<noteq> k" "k \<noteq> i" "j \<noteq> k" "k \<noteq> j" using assms(1) by auto
  have "try_pair i i s = s" "try_pair i j s = s1" "try_pair i k s1 = s2"
    using assms ne by (simp_all add: try_pair_def s1_def s2_def)
  then have "connect_from (\<lambda>_. [i, j, k]) i s = s2"
    using assms by (simp add: connect_from_def)
  moreover have "connect_from (\<lambda>_. [i, j, k]) j s2 = s2" "connect_from (\<lambda>_. [i, j, k]) k s2 = s2"
    using assms ne by (simp_all add: connect_from_def s2_def s1_def)
  ultimately show ?thesis
    using assms by (auto simp: sendConnectRequests_def s2_def s1_def fun_eq_iff)
qed

definition three_free_clients :: nn_session where
  "three_free_clients = two_free_clients\<lparr>Clients := (Clients two_free_clients)(2 \<mapsto> sample_client 2 \<lparr>IP = 5, Port = 6\<rparr>)\<rparr>"

theorem third_client_left_behind_witness:
  "map_option ConnectingIndex \<circ> Clients (sendConnectRequests [0, 1, 2] (\<lambda>_. [0, 1, 2]) three_free_clients) =
    [0 \<mapsto> 2, 1 \<mapsto> 0, 2 \<mapsto> 0]"
  using third_client_left_behind [of 0 1 2 three_free_clients "sample_client 0 \<lparr>IP = 1, Port = 2\<rparr>"
      "sample_client 1 \<lparr>IP = 3, Port = 4\<rparr>" "sample_client 2 \<lparr>IP = 5, Port = 6\<rparr>"]
  by (simp add: three_free_clients_def two_free_clients_def sample_client_def isMapped_def)

subsection \<open>Restarts\<close>

text \<open>
  \<open>Shutdown\<close> writes the sessions, \<open>StartServer\<close> reads them back and starts the timer of each anew. The goroutines that repeat
  connect requests belonged to the process that ended and are not started again.
\<close>

definition saveNatneg :: "nn_state \<Rightarrow> nn_state" where
  "saveNatneg st = st"

definition loadNatneg :: "nn_state \<Rightarrow> nn_state" where
  "loadNatneg file = (\<lambda>k. map_option (\<lambda>s. s\<lparr>negotiators := []\<rparr>) (file k))"

lemma natneg_restart:
  assumes "nn_reachable st"
  shows "state_ok (loadNatneg (saveNatneg st)) \<and> closeSession ids cookie (loadNatneg (saveNatneg st)) \<noteq> Panic"
proof -
  have "nn_ok (s\<lparr>negotiators := []\<rparr>)" if "nn_ok s" for s
    using that by (simp add: nn_ok_def)
  then have "state_ok (loadNatneg (saveNatneg st))"
    using reachable_state_ok [OF assms]
    by (auto simp: loadNatneg_def saveNatneg_def state_ok_def all_ok_def)
  then show ?thesis using closeSession_not_Panic by blast
qed

text \<open>So two clients that were being introduced stay marked as connecting, and nobody sends them connect requests any more.\<close>

lemma restart_forgets_introductions:
  assumes "st cookie = Some s" and "Clients s i = Some c" and "ConnectingIndex c \<noteq> i"
  shows "\<exists>s'. loadNatneg (saveNatneg st) cookie = Some s' \<and> Clients s' i = Some c \<and> negotiators s' = []"
  using assms by (simp add: loadNatneg_def saveNatneg_def)

end
