(* ===== verification/Database.thy ===== *)
theory Database
  imports KeyValues GoNumbers "HOL-Library.AList"
begin

text \<open>
  Package \<open>database\<close> on the tables of \<open>schema.sql\<close>: users, profiles, friends, persistent game data and
  rankings. A table is the list of its rows, those with a primary key with the key in front; a query
  that returns several rows returns them in this order (SQL promises none). Each method is the statement it executes, with the constraints of the schema: unique keys, foreign
  keys, column ranges. \<open>up\<close> is false when the server cannot be reached, then every method fails.
  \<open>now\<close> is \<open>UTC_TIMESTAMP\<close> in seconds.
\<close>

datatype db_error =
    ErrNoRows
  | ErrDupEntry
  | ErrNoReferencedRow2
  | ErrBadField
  | ErrDataRange
  | ErrParseSQL
  | ErrUserIDInUse
  | ErrMACInUse
  | ErrSerialNumberInUse
  | ErrUnreachable

record user =
  UserID :: u64
  UnitCode :: int
  MacAddress :: string
  Password :: int
  SerialNumber :: string
  Banned :: bool

record user_row =
  u_unitcd :: int
  u_macadr :: string
  u_passwd :: "int option"
  u_csnum :: "string option"
  u_banned :: bool
  u_name :: "string option"

record profile =
  ProfileID :: u32
  WFCID :: u64
  GsbrCode :: string
  FirstName :: string
  LastName :: string

record profile_row =
  p_wfcid :: u64
  p_gsbrcd :: string
  p_firstname :: "string option"
  p_lastname :: string

record friend_row =
  f_sender :: u32
  f_recipient :: u32
  f_authorized :: bool
  f_created :: int

record persist_row =
  pd_data :: string
  pd_modified :: int

record ranking_row =
  r_gamename :: string
  r_pid :: u32
  r_region :: int
  r_category :: int
  r_score :: int
  r_data :: bytes
  r_updated :: int

record db =
  up :: bool
  users :: "(u64 \<times> user_row) list"
  profiles :: "(u32 \<times> profile_row) list"
  next_profile :: u32
  friends :: "friend_row list"
  persistdata :: "((u32 \<times> int \<times> int) \<times> persist_row) list"
  rankings :: "ranking_row list"

definition empty_db :: db where
  "empty_db = \<lparr>up = True, users = [], profiles = [], next_profile = 1, friends = [],
     persistdata = [], rankings = []\<rparr>"

text \<open>Equality of text under the collation \<open>ascii_general_ci\<close>: case and trailing spaces do not count.\<close>

definition collate :: "string \<Rightarrow> string" where
  "collate s = rev (dropWhile (\<lambda>c. c = CHR '' '') (rev (to_upper s)))"

definition online :: "db \<Rightarrow> (db_error, unit) outcome" where
  "online d = (if up d then Ret () else Err ErrUnreachable)"

lemma online_Ret [simp]: "online d = Ret u \<longleftrightarrow> up d"
  by (simp add: online_def)

subsection \<open>Users\<close>

definition IsWii :: "user \<Rightarrow> bool" where
  "IsWii u \<longleftrightarrow> UnitCode u = 1"

definition mac_in_use :: "db \<Rightarrow> string \<Rightarrow> bool" where
  "mac_in_use d mac \<longleftrightarrow> list_ex (\<lambda>(_, r). collate (u_macadr r) = collate mac) (users d)"

definition serial_in_use :: "db \<Rightarrow> string \<Rightarrow> bool" where
  "serial_in_use d cs \<longleftrightarrow>
     list_ex (\<lambda>(_, r). map_option collate (u_csnum r) = Some (collate cs)) (users d)"

text \<open>What the columns hold: \<open>char(12)\<close>, \<open>char(11)\<close>, \<open>smallint\<close>, \<open>tinyint unsigned\<close>.\<close>

definition user_columns_ok :: "user \<Rightarrow> bool" where
  "user_columns_ok u \<longleftrightarrow> 0 \<le> UnitCode u \<and> UnitCode u \<le> 255 \<and> length (MacAddress u) \<le> 12 \<and>
     (if IsWii u then length (SerialNumber u) \<le> 11 else - 32768 \<le> Password u \<and> Password u \<le> 32767)"

definition CreateUser :: "user \<Rightarrow> db \<Rightarrow> (db_error, db) outcome" where
  "CreateUser u d =
     bind_outcome (online d) (\<lambda>_.
     if map_of (users d) (UserID u) \<noteq> None then Err ErrUserIDInUse
     else if mac_in_use d (MacAddress u) then Err ErrMACInUse
     else if IsWii u \<and> serial_in_use d (SerialNumber u) then Err ErrSerialNumberInUse
     else if \<not> user_columns_ok u then Err ErrDataRange
     else Ret (d\<lparr>users := AList.update (UserID u)
       \<lparr>u_unitcd = UnitCode u, u_macadr = MacAddress u,
        u_passwd = (if IsWii u then None else Some (Password u)),
        u_csnum = (if IsWii u then Some (SerialNumber u) else None),
        u_banned = False, u_name = None\<rparr> (users d)\<rparr>))"

text \<open>Any error counts as a missing user.\<close>

definition GetUser :: "u64 \<Rightarrow> db \<Rightarrow> user option" where
  "GetUser userId d =
     (if \<not> up d then None
      else case map_of (users d) userId of
        None \<Rightarrow> None
      | Some r \<Rightarrow> Some \<lparr>UserID = userId, UnitCode = u_unitcd r, MacAddress = u_macadr r,
          Password = (case u_passwd r of None \<Rightarrow> 0 | Some p \<Rightarrow> p),
          SerialNumber = (case u_csnum r of None \<Rightarrow> [] | Some c \<Rightarrow> c), Banned = u_banned r\<rparr>)"

definition UpdateUserName :: "u64 \<Rightarrow> string \<Rightarrow> db \<Rightarrow> (db_error, db) outcome" where
  "UpdateUserName userId name d =
     bind_outcome (online d) (\<lambda>_.
     case map_of (users d) userId of
       None \<Rightarrow> Ret d
     | Some r \<Rightarrow>
         if length name > 255 then Err ErrDataRange
         else Ret (d\<lparr>users := AList.update userId (r\<lparr>u_name := Some name\<rparr>) (users d)\<rparr>))"

subsection \<open>Profiles\<close>

text \<open>\<open>None\<close> is the null that \<open>sql.NullString\<close> reads as the empty string.\<close>

definition profile_of :: "u32 \<Rightarrow> profile_row \<Rightarrow> profile" where
  "profile_of i r = \<lparr>ProfileID = i, WFCID = p_wfcid r, GsbrCode = p_gsbrcd r,
     FirstName = (case p_firstname r of None \<Rightarrow> [] | Some s \<Rightarrow> s), LastName = p_lastname r\<rparr>"

definition same_account :: "u64 \<Rightarrow> string \<Rightarrow> profile_row \<Rightarrow> bool" where
  "same_account wfcId gsbrcd r \<longleftrightarrow> p_wfcid r = wfcId \<and> collate (p_gsbrcd r) = collate gsbrcd"

text \<open>The identifier is the next of \<open>AUTO_INCREMENT\<close>, which stays at its last value.\<close>

definition CreateProfile :: "u64 \<Rightarrow> string \<Rightarrow> db \<Rightarrow> (db_error, db \<times> u32) outcome" where
  "CreateProfile wfcId gsbrcd d =
     bind_outcome (online d) (\<lambda>_.
     if length gsbrcd > 11 then Err ErrDataRange
     else if list_ex (\<lambda>(_, r). same_account wfcId gsbrcd r) (profiles d) then Err ErrDupEntry
     else if map_of (users d) wfcId = None then Err ErrNoReferencedRow2
     else
       let i = next_profile d in
       if map_of (profiles d) i \<noteq> None then Err ErrDupEntry
       else Ret (d\<lparr>profiles := AList.update i
              \<lparr>p_wfcid = wfcId, p_gsbrcd = gsbrcd, p_firstname = None, p_lastname = []\<rparr> (profiles d),
             next_profile := (if i = - 1 then i else i + 1)\<rparr>, i))"

definition GetProfile :: "u32 \<Rightarrow> db \<Rightarrow> (db_error, profile) outcome" where
  "GetProfile profileId d =
     bind_outcome (online d) (\<lambda>_.
     case map_of (profiles d) profileId of None \<Rightarrow> Err ErrNoRows | Some r \<Rightarrow> Ret (profile_of profileId r))"

definition GetProfileID :: "u64 \<Rightarrow> string \<Rightarrow> db \<Rightarrow> (db_error, u32) outcome" where
  "GetProfileID wfcId gsbrcd d =
     bind_outcome (online d) (\<lambda>_.
     case find (\<lambda>(_, r). same_account wfcId gsbrcd r) (profiles d) of
       None \<Rightarrow> Err ErrNoRows
     | Some (i, _) \<Rightarrow> Ret i)"

definition tinytext_ok :: "string \<Rightarrow> bool" where
  "tinytext_ok s \<longleftrightarrow> length s \<le> 255 \<and> list_all (\<lambda>c. (of_char c :: nat) < 128) s"

definition UpdateProfile :: "profile \<Rightarrow> db \<Rightarrow> (db_error, db) outcome" where
  "UpdateProfile p d =
     bind_outcome (online d) (\<lambda>_.
     case map_of (profiles d) (ProfileID p) of
       None \<Rightarrow> Ret d
     | Some r \<Rightarrow>
         if \<not> tinytext_ok (FirstName p) \<or> \<not> tinytext_ok (LastName p) then Err ErrDataRange
         else Ret (d\<lparr>profiles := AList.update (ProfileID p)
           (r\<lparr>p_firstname := (if FirstName p \<noteq> [] then Some (FirstName p) else p_firstname r),
              p_lastname := (if LastName p \<noteq> [] then LastName p else p_lastname r)\<rparr>) (profiles d)\<rparr>))"

text \<open>A filter naming something that is no column of the table is an error of the database.\<close>

definition profile_column :: "string \<Rightarrow> u32 \<times> profile_row \<Rightarrow> string option" where
  "profile_column field r =
     (if field = ''id'' then Some (format_uint (unat (fst r)))
      else if field = ''wfcid'' then Some (format_uint (unat (p_wfcid (snd r))))
      else if field = ''gsbrcd'' then Some (p_gsbrcd (snd r))
      else if field = ''firstname'' then p_firstname (snd r)
      else if field = ''lastname'' then Some (p_lastname (snd r))
      else None)"

definition profile_columns :: "string list" where
  "profile_columns = [''id'', ''wfcid'', ''gsbrcd'', ''firstname'', ''lastname'']"

definition SearchProfile :: "(string \<times> string) list \<Rightarrow> db \<Rightarrow> (db_error, u32 list) outcome" where
  "SearchProfile filters d =
     bind_outcome (online d) (\<lambda>_.
     if filters = [] then Err ErrParseSQL
     else if \<not> list_all (\<lambda>(f, _). f \<in> set profile_columns) filters then Err ErrBadField
     else Ret (map fst (filter
       (\<lambda>r. list_all (\<lambda>(f, v). map_option collate (profile_column f r) = Some (collate v)) filters)
       (profiles d))))"

subsection \<open>Friends\<close>

record friend_info =
  FriendID :: u32
  Authorized :: bool
  Created :: int

text \<open>\<open>getFriends\<close> joins the rows to their reverse; the joined columns are not selected, and a row without
  a reverse is kept.\<close>

definition reverse_rows :: "friend_row list \<Rightarrow> friend_row \<Rightarrow> friend_row list" where
  "reverse_rows fs f = filter (\<lambda>r. f_sender r = f_recipient f \<and> f_recipient r = f_sender f) fs"

definition left_join_reverse :: "friend_row list \<Rightarrow> (friend_row \<times> friend_row option) list" where
  "left_join_reverse fs =
     concat (map (\<lambda>f. case reverse_rows fs f of [] \<Rightarrow> [(f, None)] | rs \<Rightarrow> map (\<lambda>r. (f, Some r)) rs) fs)"

definition GetFriends :: "u32 \<Rightarrow> bool \<Rightarrow> db \<Rightarrow> (db_error, friend_info list) outcome" where
  "GetFriends profileId outgoing d =
     bind_outcome (online d) (\<lambda>_. Ret
       (if outgoing
        then map (\<lambda>f. \<lparr>FriendID = f_recipient f, Authorized = f_authorized f, Created = f_created f\<rparr>)
               (filter (\<lambda>f. f_sender f = profileId) (friends d))
        else map (\<lambda>(f, _). \<lparr>FriendID = f_sender f, Authorized = f_authorized f, Created = f_created f\<rparr>)
               (filter (\<lambda>(f, _). f_recipient f = profileId) (left_join_reverse (friends d)))))"

definition edge :: "u32 \<Rightarrow> u32 \<Rightarrow> friend_row \<Rightarrow> bool" where
  "edge sender recipient f \<longleftrightarrow> f_sender f = sender \<and> f_recipient f = recipient"

definition GetFriendAuth :: "u32 \<Rightarrow> u32 \<Rightarrow> db \<Rightarrow> (db_error, bool) outcome" where
  "GetFriendAuth sender recipient d =
     bind_outcome (online d) (\<lambda>_.
     case find (edge sender recipient) (friends d) of
       None \<Rightarrow> Err ErrNoRows
     | Some f \<Rightarrow> Ret (f_authorized f))"

definition AuthFriend :: "u32 \<Rightarrow> u32 \<Rightarrow> db \<Rightarrow> (db_error, db) outcome" where
  "AuthFriend sender recipient d =
     bind_outcome (online d) (\<lambda>_.
       Ret (d\<lparr>friends := map (\<lambda>f. if edge sender recipient f then f\<lparr>f_authorized := True\<rparr> else f) (friends d)\<rparr>))"

definition AddFriend :: "int \<Rightarrow> u32 \<Rightarrow> u32 \<Rightarrow> db \<Rightarrow> (db_error, db) outcome" where
  "AddFriend now sender recipient d =
     bind_outcome (online d) (\<lambda>_.
     if list_ex (edge sender recipient) (friends d) then Err ErrDupEntry
     else if map_of (profiles d) sender = None \<or> map_of (profiles d) recipient = None
     then Err ErrNoReferencedRow2
     else Ret (d\<lparr>friends := friends d @
       [\<lparr>f_sender = sender, f_recipient = recipient, f_authorized = False, f_created = now\<rparr>]\<rparr>))"

definition RemoveFriend :: "u32 \<Rightarrow> u32 \<Rightarrow> db \<Rightarrow> (db_error, db \<times> bool) outcome" where
  "RemoveFriend sender recipient d =
     bind_outcome (online d) (\<lambda>_.
       Ret (d\<lparr>friends := filter (\<lambda>f. \<not> edge sender recipient f) (friends d)\<rparr>,
            list_ex (edge sender recipient) (friends d)))"

subsection \<open>Persistent game data\<close>

text \<open>The key is \<open>(pid, ptype, dindex)\<close>. \<open>getPersistData\<close> asks for \<open>pid\<close>, \<open>dindex\<close> and \<open>ptype\<close> in this
  order and is given \<open>profileId\<close>, \<open>ptype\<close> and \<open>dindex\<close>.\<close>

definition GetGameStatsPersistData :: "u32 \<Rightarrow> int \<Rightarrow> int \<Rightarrow> db \<Rightarrow> (db_error, string \<times> int) outcome" where
  "GetGameStatsPersistData profileId ptype dindex d =
     bind_outcome (online d) (\<lambda>_.
       let where_dindex = ptype; where_ptype = dindex in
       case map_of (persistdata d) (profileId, where_ptype, where_dindex) of
         None \<Rightarrow> Err ErrNoRows
       | Some r \<Rightarrow> Ret (pd_data r, pd_modified r))"

definition persist_columns_ok :: "int \<Rightarrow> int \<Rightarrow> string \<Rightarrow> bool" where
  "persist_columns_ok ptype dindex data \<longleftrightarrow>
     0 \<le> ptype \<and> ptype \<le> 255 \<and> 0 \<le> dindex \<and> dindex < 2 ^ 32 \<and> length data \<le> 65535"

definition SetGameStatsPersistData ::
  "int \<Rightarrow> u32 \<Rightarrow> int \<Rightarrow> int \<Rightarrow> string \<Rightarrow> db \<Rightarrow> (db_error, db \<times> int) outcome" where
  "SetGameStatsPersistData now profileId ptype dindex data d =
     bind_outcome (online d) (\<lambda>_.
     if \<not> persist_columns_ok ptype dindex data then Err ErrDataRange
     else if map_of (profiles d) profileId = None then Err ErrNoReferencedRow2
     else Ret (d\<lparr>persistdata := AList.update (profileId, ptype, dindex)
                  \<lparr>pd_data = data, pd_modified = now\<rparr> (persistdata d)\<rparr>, now))"

text \<open>\<open>time.Time{}.Unix()\<close>\<close>

definition zero_time :: int where "zero_time = - 62135596800"

text \<open>\<open>keys\<close> is \<open>None\<close> for a nil slice: then no key/value pairs are returned at all.\<close>

definition GetGameStatsPersistDataKV ::
  "u32 \<Rightarrow> int \<Rightarrow> int \<Rightarrow> string list option \<Rightarrow> db \<Rightarrow> (db_error, key_values \<times> int) outcome" where
  "GetGameStatsPersistDataKV profileId ptype dindex keys d =
     bind_outcome
       (case GetGameStatsPersistData profileId ptype dindex d of
          Err ErrNoRows \<Rightarrow> Ret ([], zero_time)
        | r \<Rightarrow> r)
       (\<lambda>(data, modified). Ret
         ((case keys of
             None \<Rightarrow> []
           | Some ks \<Rightarrow> filter (\<lambda>x. kv_K x \<in> set ks) (KeyValuesFromString data)), modified))"

fun set_all :: "key_values \<Rightarrow> key_values \<Rightarrow> key_values" where
  "set_all [] data = data"
| "set_all (x # kvs) data = set_all kvs (Set (kv_K x) (kv_V x) data)"

definition SetGameStatsPersistDataKV ::
  "int \<Rightarrow> u32 \<Rightarrow> int \<Rightarrow> int \<Rightarrow> key_values \<Rightarrow> db \<Rightarrow> (db_error, db \<times> int) outcome" where
  "SetGameStatsPersistDataKV now profileId ptype dindex kvs d =
     bind_outcome (GetGameStatsPersistDataKV profileId ptype dindex None d) (\<lambda>(data, _).
       SetGameStatsPersistData now profileId ptype dindex (Encode (set_all kvs data)) d)"

subsection \<open>Rankings\<close>

record ranking_entry =
  e_ProfileID :: u32
  e_Region :: int
  e_Category :: int
  e_Score :: int
  e_Data :: bytes
  e_Created :: int
  e_Order :: int

datatype rank_mode = DwcRankOrder | DwcRankTop | DwcRankNear | DwcRankFriends | DwcRankNearHigh | DwcRankNearLow

definition entry_of :: "ranking_row \<Rightarrow> ranking_entry" where
  "entry_of r = \<lparr>e_ProfileID = r_pid r, e_Region = r_region r, e_Category = r_category r, e_Score = r_score r,
     e_Data = r_data r, e_Created = r_updated r, e_Order = 0\<rparr>"

definition in_board :: "string \<Rightarrow> int \<Rightarrow> int \<Rightarrow> int \<Rightarrow> ranking_row \<Rightarrow> bool" where
  "in_board gamename region category since r \<longleftrightarrow>
     collate (r_gamename r) = collate gamename \<and> r_region r AND region \<noteq> 0 \<and>
     r_category r = category \<and> since \<le> r_updated r"

text \<open>What the columns hold: \<open>tinytext\<close> in ASCII, \<open>int unsigned\<close>, \<open>int\<close> and \<open>blob\<close>.\<close>

definition ranking_columns_ok :: "string \<Rightarrow> int \<Rightarrow> int \<Rightarrow> int \<Rightarrow> bytes \<Rightarrow> bool" where
  "ranking_columns_ok gamename region category score data \<longleftrightarrow>
     tinytext_ok gamename \<and> 0 \<le> region \<and> region < 2 ^ 32 \<and> 0 \<le> category \<and> category < 2 ^ 32 \<and>
     - (2 ^ 31) \<le> score \<and> score < 2 ^ 31 \<and> length data \<le> 65535"

definition InsertDwcRanking ::
  "int \<Rightarrow> string \<Rightarrow> u32 \<Rightarrow> int \<Rightarrow> int \<Rightarrow> int \<Rightarrow> bytes \<Rightarrow> db \<Rightarrow> (db_error, db) outcome" where
  "InsertDwcRanking now gamename pid region category score data d =
     bind_outcome (online d) (\<lambda>_.
     if \<not> ranking_columns_ok gamename region category score data then Err ErrDataRange
     else if map_of (profiles d) pid = None then Err ErrNoReferencedRow2
     else Ret (d\<lparr>rankings :=
       filter (\<lambda>r. \<not> (collate (r_gamename r) = collate gamename \<and> r_pid r = pid \<and>
                    r_region r = region \<and> r_category r = category)) (rankings d) @
       [\<lparr>r_gamename = gamename, r_pid = pid, r_region = region, r_category = category, r_score = score,
         r_data = data, r_updated = now\<rparr>]\<rparr>))"

definition GetDwcRanking ::
  "string \<Rightarrow> u32 \<Rightarrow> int \<Rightarrow> int \<Rightarrow> bool \<Rightarrow> int \<Rightarrow> db \<Rightarrow> (db_error, ranking_entry) outcome" where
  "GetDwcRanking gamename pid region category desc since d =
     bind_outcome (online d) (\<lambda>_.
     case find (\<lambda>r. r_pid r = pid \<and> in_board gamename region category since r) (rankings d) of
       None \<Rightarrow> Err ErrNoRows
     | Some own \<Rightarrow>
         let better = (\<lambda>r. in_board gamename region category since r \<and>
                        (if desc then r_score own < r_score r else r_score r < r_score own))
         in Ret ((entry_of own)\<lparr>e_Order := int (length (filter better (rankings d))) + 1\<rparr>))"

text \<open>The rows of the main query, and the number its \<open>ORDER BY\<close> sorts them by; the replacement of \<open>score\<close>
  leaves the direction as it is.\<close>

definition rank_selected ::
  "string \<Rightarrow> u32 \<Rightarrow> int \<Rightarrow> int \<Rightarrow> rank_mode \<Rightarrow> int \<Rightarrow> int \<Rightarrow> u32 list \<Rightarrow> ranking_row \<Rightarrow> bool" where
  "rank_selected gamename pid region category mode since own pids r \<longleftrightarrow>
     in_board gamename region category since r \<and>
     (mode \<notin> {DwcRankOrder, DwcRankTop} \<longrightarrow> r_pid r \<noteq> pid) \<and>
     (mode = DwcRankNearHigh \<longrightarrow> own \<le> r_score r) \<and> (mode = DwcRankNearLow \<longrightarrow> r_score r \<le> own) \<and>
     (mode = DwcRankFriends \<longrightarrow> r_pid r \<in> set pids)"

definition rank_key :: "rank_mode \<Rightarrow> bool \<Rightarrow> int \<Rightarrow> ranking_row \<Rightarrow> int" where
  "rank_key mode desc own r =
     (let k = (if mode = DwcRankNear then \<bar>own - r_score r\<bar> else r_score r) in if desc then - k else k)"

definition GetDwcRankings ::
  "string \<Rightarrow> u32 \<Rightarrow> int \<Rightarrow> int \<Rightarrow> rank_mode \<Rightarrow> bool \<Rightarrow> int \<Rightarrow> int \<Rightarrow> u32 list \<Rightarrow> db
     \<Rightarrow> (db_error, ranking_entry list \<times> nat) outcome" where
  "GetDwcRankings gamename pid region category mode desc since limit pids d =
     (let with_own = (mode \<notin> {DwcRankOrder, DwcRankTop}) in
      bind_outcome
        (if with_own
         then bind_outcome (GetDwcRanking gamename pid region category desc since d) (\<lambda>e. Ret [e])
         else Ret [])
        (\<lambda>entries.
      let own = (case entries of [] \<Rightarrow> 0 | e # _ \<Rightarrow> e_Score e);
          limit' = (if with_own then limit - 1 else limit) in
      bind_outcome (online d) (\<lambda>_.
      if mode = DwcRankFriends \<and> pids = [] then Err ErrParseSQL
      else
        let rows = filter (rank_selected gamename pid region category mode since own pids) (rankings d);
            cnt = length rows
        in if mode = DwcRankOrder
           then bind_outcome (GetDwcRanking gamename pid region category desc since d) (\<lambda>e. Ret ([e], cnt))
           else if limit' < 0 then Err ErrParseSQL
           else Ret (entries @ map entry_of (take (nat limit') (sort_key (rank_key mode desc own) rows)), cnt))))"

subsection \<open>Integrity\<close>

definition friend_key :: "friend_row \<Rightarrow> u32 \<times> u32" where
  "friend_key f = (f_sender f, f_recipient f)"

definition ranking_key :: "ranking_row \<Rightarrow> string \<times> u32 \<times> int \<times> int" where
  "ranking_key r = (collate (r_gamename r), r_pid r, r_region r, r_category r)"

definition mac_key :: "user_row \<Rightarrow> string" where "mac_key r = collate (u_macadr r)"

text \<open>The serial numbers of the consoles that have one; a DS has none.\<close>

definition serial_keys :: "(u64 \<times> user_row) list \<Rightarrow> string list" where
  "serial_keys us = List.map_filter (\<lambda>(_, r). map_option collate (u_csnum r)) us"

definition account_key :: "profile_row \<Rightarrow> u64 \<times> string" where
  "account_key r = (p_wfcid r, collate (p_gsbrcd r))"

definition has_profile :: "db \<Rightarrow> u32 \<Rightarrow> bool" where
  "has_profile d i \<longleftrightarrow> map_of (profiles d) i \<noteq> None"

definition users_ok :: "db \<Rightarrow> bool" where
  "users_ok d \<longleftrightarrow> distinct (map fst (users d)) \<and> distinct (map (mac_key \<circ> snd) (users d)) \<and>
     distinct (serial_keys (users d))"

definition profiles_ok :: "db \<Rightarrow> bool" where
  "profiles_ok d \<longleftrightarrow> distinct (map fst (profiles d)) \<and> distinct (map (account_key \<circ> snd) (profiles d)) \<and>
     (\<forall>r \<in> snd ` set (profiles d). map_of (users d) (p_wfcid r) \<noteq> None)"

definition friends_ok :: "db \<Rightarrow> bool" where
  "friends_ok d \<longleftrightarrow> distinct (map friend_key (friends d)) \<and>
     (\<forall>f \<in> set (friends d). has_profile d (f_sender f) \<and> has_profile d (f_recipient f))"

definition persist_ok :: "db \<Rightarrow> bool" where
  "persist_ok d \<longleftrightarrow> distinct (map fst (persistdata d)) \<and>
     (\<forall>k \<in> fst ` set (persistdata d). has_profile d (fst k))"

definition rankings_ok :: "db \<Rightarrow> bool" where
  "rankings_ok d \<longleftrightarrow> distinct (map ranking_key (rankings d)) \<and> (\<forall>r \<in> set (rankings d). has_profile d (r_pid r))"

definition db_ok :: "db \<Rightarrow> bool" where
  "db_ok d \<longleftrightarrow> users_ok d \<and> profiles_ok d \<and> friends_ok d \<and> persist_ok d \<and> rankings_ok d"

lemma update_absent: "map_of al k = None \<Longrightarrow> AList.update k v al = al @ [(k, v)]"
  by (induction al) (auto split: if_splits)

lemma update_column:
  "map_of al k = Some r \<Longrightarrow> g v = g r \<Longrightarrow> map (g \<circ> snd) (AList.update k v al) = map (g \<circ> snd) al"
  by (induction al) (auto split: if_splits)

lemma update_keys: "map_of al k \<noteq> None \<Longrightarrow> map fst (AList.update k v al) = map fst al"
  by (induction al) (auto split: if_splits)

lemma update_rows: "set (AList.update k v al) \<subseteq> insert (k, v) (set al)"
  by (induction al) auto

lemma has_profile_mono:
  "has_profile d i \<Longrightarrow> profiles d' = AList.update k v (profiles d) \<Longrightarrow> has_profile d' i"
  by (simp add: has_profile_def update_conv')

lemma has_profile_cong: "profiles d' = profiles d \<Longrightarrow> has_profile d' i = has_profile d i"
  by (simp add: has_profile_def)

lemma has_profile_update [simp]:
  "has_profile (d\<lparr>friends := fs\<rparr>) = has_profile d" "has_profile (d\<lparr>persistdata := ps\<rparr>) = has_profile d"
  "has_profile (d\<lparr>rankings := rs\<rparr>) = has_profile d" "has_profile (d\<lparr>up := b\<rparr>) = has_profile d"
  by (simp_all add: has_profile_def fun_eq_iff)

lemma other_tables [simp]:
  "users_ok (d\<lparr>friends := fs\<rparr>) = users_ok d" "profiles_ok (d\<lparr>friends := fs\<rparr>) = profiles_ok d"
  "persist_ok (d\<lparr>friends := fs\<rparr>) = persist_ok d" "rankings_ok (d\<lparr>friends := fs\<rparr>) = rankings_ok d"
  "users_ok (d\<lparr>persistdata := ps\<rparr>) = users_ok d" "profiles_ok (d\<lparr>persistdata := ps\<rparr>) = profiles_ok d"
  "friends_ok (d\<lparr>persistdata := ps\<rparr>) = friends_ok d" "rankings_ok (d\<lparr>persistdata := ps\<rparr>) = rankings_ok d"
  "users_ok (d\<lparr>rankings := rs\<rparr>) = users_ok d" "profiles_ok (d\<lparr>rankings := rs\<rparr>) = profiles_ok d"
  "friends_ok (d\<lparr>rankings := rs\<rparr>) = friends_ok d" "persist_ok (d\<lparr>rankings := rs\<rparr>) = persist_ok d"
  "users_ok (d\<lparr>up := b\<rparr>) = users_ok d" "profiles_ok (d\<lparr>up := b\<rparr>) = profiles_ok d"
  "friends_ok (d\<lparr>up := b\<rparr>) = friends_ok d" "persist_ok (d\<lparr>up := b\<rparr>) = persist_ok d"
  "rankings_ok (d\<lparr>up := b\<rparr>) = rankings_ok d"
  by (simp_all add: users_ok_def profiles_ok_def friends_ok_def persist_ok_def rankings_ok_def)

lemma dependents_mono:
  assumes "\<And>i. has_profile d i \<Longrightarrow> has_profile d' i"
    and "friends d' = friends d" "persistdata d' = persistdata d" "rankings d' = rankings d"
    and "friends_ok d \<and> persist_ok d \<and> rankings_ok d"
  shows "friends_ok d' \<and> persist_ok d' \<and> rankings_ok d'"
  using assms by (simp add: friends_ok_def persist_ok_def rankings_ok_def)

lemma serial_keys_append: "serial_keys (xs @ ys) = serial_keys xs @ serial_keys ys"
  by (simp add: serial_keys_def List.map_filter_def)

lemma serial_keys_one: "serial_keys [(i, r)] = (case u_csnum r of None \<Rightarrow> [] | Some c \<Rightarrow> [collate c])"
  by (simp add: serial_keys_def List.map_filter_def split: option.split)

lemma serial_keys_in_use: "collate c \<in> set (serial_keys (users d)) \<longleftrightarrow> serial_in_use d c"
  by (force simp: serial_keys_def List.map_filter_def serial_in_use_def list_ex_iff)

lemma serial_keys_update:
  "map_of us i = Some r \<Longrightarrow> u_csnum r' = u_csnum r \<Longrightarrow> serial_keys (AList.update i r' us) = serial_keys us"
  by (induction us) (auto simp: serial_keys_def List.map_filter_simps split: if_splits option.split)

lemma CreateUser_ok: "db_ok d \<Longrightarrow> CreateUser u d = Ret d' \<Longrightarrow> db_ok d'"
proof -
  assume ok: "db_ok d" and run: "CreateUser u d = Ret d'"
  then obtain r where d': "d' = d\<lparr>users := AList.update (UserID u) r (users d)\<rparr>"
    and new: "map_of (users d) (UserID u) = None" and mac: "\<not> mac_in_use d (MacAddress u)"
    and r: "u_macadr r = MacAddress u"
    and serial: "u_csnum r = None \<or> u_csnum r = Some (SerialNumber u) \<and> \<not> serial_in_use d (SerialNumber u)"
    by (auto simp: CreateUser_def split: if_splits)
  have u: "users d' = users d @ [(UserID u, r)]" using d' update_absent [OF new] by simp
  have "distinct (serial_keys (users d'))"
    using ok serial by (auto simp: u serial_keys_append serial_keys_one serial_keys_in_use users_ok_def db_ok_def)
  then have "users_ok d'" "\<And>i. map_of (users d) i \<noteq> None \<Longrightarrow> map_of (users d') i \<noteq> None"
    using ok new mac u
    by (auto simp: users_ok_def db_ok_def mac_key_def r mac_in_use_def list_ex_iff map_of_eq_None_iff image_iff map_add_def)
  then show ?thesis
    using ok d' dependents_mono [of d d'] has_profile_cong [of d' d] unfolding db_ok_def profiles_ok_def by auto
qed

lemma UpdateUserName_ok: "db_ok d \<Longrightarrow> UpdateUserName i n d = Ret d' \<Longrightarrow> db_ok d'"
proof -
  assume ok: "db_ok d" and run: "UpdateUserName i n d = Ret d'"
  show ?thesis
  proof (cases "map_of (users d) i")
    case None
    then show ?thesis using run ok by (auto simp: UpdateUserName_def)
  next
    case (Some r)
    then have d': "d' = d\<lparr>users := AList.update i (r\<lparr>u_name := Some n\<rparr>) (users d)\<rparr>"
      using run by (auto simp: UpdateUserName_def split: if_splits)
    have "users_ok d'"
      using ok update_keys [of "users d" i] update_column [OF Some, of mac_key "r\<lparr>u_name := Some n\<rparr>"] Some
        serial_keys_update [OF Some, of "r\<lparr>u_name := Some n\<rparr>"]
      by (simp add: d' users_ok_def db_ok_def mac_key_def)
    then show ?thesis
      using ok dependents_mono [of d d'] has_profile_cong [of d' d] d'
      unfolding db_ok_def profiles_ok_def by (auto simp: update_conv')
  qed
qed

lemma CreateProfile_ok: "db_ok d \<Longrightarrow> CreateProfile w g d = Ret (d', i) \<Longrightarrow> db_ok d' \<and> has_profile d' i \<and> \<not> has_profile d i"
proof -
  assume ok: "db_ok d" and run: "CreateProfile w g d = Ret (d', i)"
  define r where "r = \<lparr>p_wfcid = w, p_gsbrcd = g, p_firstname = None, p_lastname = []\<rparr>"
  define n where "n = (if i = - 1 then i else i + 1)"
  have r: "p_wfcid r = w" "p_gsbrcd r = g" by (simp_all add: r_def)
  have new: "map_of (profiles d) i = None" and acc: "\<not> list_ex (\<lambda>(_, r). same_account w g r) (profiles d)"
    and u: "map_of (users d) w \<noteq> None"
    and d': "d' = d\<lparr>profiles := AList.update i r (profiles d), next_profile := n\<rparr>"
    using run unfolding CreateProfile_def Let_def r_def n_def by (auto split: if_splits)
  have p: "profiles d' = profiles d @ [(i, r)]" "users d' = users d" using d' update_absent [OF new] by simp_all
  have "account_key r \<notin> (account_key \<circ> snd) ` set (profiles d)"
    using acc r by (auto simp: list_ex_iff same_account_def account_key_def)
  moreover have "i \<notin> fst ` set (profiles d)" using new by (simp add: map_of_eq_None_iff)
  ultimately have "profiles_ok d'"
    using ok u r unfolding profiles_ok_def db_ok_def p by simp
  then show ?thesis
    using ok dependents_mono [of d d'] has_profile_mono [of d _ d' i r] d' new
    unfolding db_ok_def users_ok_def by (simp add: has_profile_def update_conv')
qed

lemma UpdateProfile_ok: "db_ok d \<Longrightarrow> UpdateProfile p d = Ret d' \<Longrightarrow> db_ok d'"
proof -
  assume ok: "db_ok d" and run: "UpdateProfile p d = Ret d'"
  let ?i = "ProfileID p"
  show ?thesis
  proof (cases "map_of (profiles d) ?i")
    case None
    then show ?thesis using run ok by (auto simp: UpdateProfile_def)
  next
    case (Some r)
    then obtain r' where d': "d' = d\<lparr>profiles := AList.update ?i r' (profiles d)\<rparr>"
      and r': "p_wfcid r' = p_wfcid r" "account_key r' = account_key r"
      using run by (auto simp: UpdateProfile_def account_key_def split: if_splits)
    have "map (p_wfcid \<circ> snd) (profiles d') = map (p_wfcid \<circ> snd) (profiles d)"
      using update_column [OF Some, of p_wfcid r'] r' d' by simp
    then have "(\<forall>x \<in> set (map (p_wfcid \<circ> snd) (profiles d')). map_of (users d) x \<noteq> None)"
      using ok by (auto simp: db_ok_def profiles_ok_def)
    then have "profiles_ok d'"
      using ok update_keys [of "profiles d" ?i] update_column [OF Some, of account_key r'] Some r'
      by (auto simp: d' profiles_ok_def db_ok_def)
    then show ?thesis
      using ok dependents_mono [of d d'] has_profile_mono [of d _ d' ?i r'] d'
      unfolding db_ok_def users_ok_def by simp
  qed
qed

lemma AuthFriend_ok: "db_ok d \<Longrightarrow> AuthFriend s r d = Ret d' \<Longrightarrow> db_ok d'"
proof -
  assume ok: "db_ok d" and run: "AuthFriend s r d = Ret d'"
  define g where "g f = (if edge s r f then f\<lparr>f_authorized := True\<rparr> else f)" for f
  have k: "friend_key (g f) = friend_key f" "f_sender (g f) = f_sender f" "f_recipient (g f) = f_recipient f" for f
    by (simp_all add: friend_key_def g_def)
  have "map friend_key (map g fs) = map friend_key fs" for fs using k by simp
  then have "friends_ok (d\<lparr>friends := map g (friends d)\<rparr>)"
    using ok k by (simp add: friends_ok_def db_ok_def comp_def)
  moreover have "d' = d\<lparr>friends := map g (friends d)\<rparr>"
    using run by (simp add: AuthFriend_def g_def [abs_def])
  ultimately show ?thesis using ok by (simp add: db_ok_def)
qed

lemma AddFriend_ok: "db_ok d \<Longrightarrow> AddFriend now s r d = Ret d' \<Longrightarrow> db_ok d'"
proof -
  assume ok: "db_ok d" and run: "AddFriend now s r d = Ret d'"
  then obtain f where d': "d' = d\<lparr>friends := friends d @ [f]\<rparr>" and f: "f_sender f = s" "f_recipient f = r"
    and new: "\<not> list_ex (edge s r) (friends d)" "has_profile d s" "has_profile d r"
    by (auto simp: AddFriend_def has_profile_def split: if_splits)
  have "friend_key f \<notin> friend_key ` set (friends d)"
    using new(1) f by (auto simp: friend_key_def list_ex_iff edge_def)
  then have "friends_ok (d\<lparr>friends := friends d @ [f]\<rparr>)"
    using ok new f by (simp add: friends_ok_def db_ok_def)
  then show ?thesis using ok d' by (simp add: db_ok_def)
qed

lemma RemoveFriend_ok: "db_ok d \<Longrightarrow> RemoveFriend s r d = Ret (d', b) \<Longrightarrow> db_ok d'"
  by (auto simp: RemoveFriend_def db_ok_def friends_ok_def distinct_map_filter)

lemma SetGameStatsPersistData_ok:
  "db_ok d \<Longrightarrow> SetGameStatsPersistData now p t i x d = Ret (d', m) \<Longrightarrow> db_ok d'"
proof -
  assume ok: "db_ok d" and run: "SetGameStatsPersistData now p t i x d = Ret (d', m)"
  then obtain v where d': "d' = d\<lparr>persistdata := AList.update (p, t, i) v (persistdata d)\<rparr>" and p: "has_profile d p"
    by (auto simp: SetGameStatsPersistData_def has_profile_def split: if_splits)
  have "fst ` set (AList.update (p, t, i) v (persistdata d)) \<subseteq> insert (p, t, i) (fst ` set (persistdata d))"
    using update_rows [of "(p, t, i)" v "persistdata d"] by force
  then have "persist_ok d'"
    using ok p distinct_update by (fastforce simp: persist_ok_def db_ok_def d')
  then show ?thesis using ok d' by (simp add: db_ok_def)
qed

lemma InsertDwcRanking_ok: "db_ok d \<Longrightarrow> InsertDwcRanking now g p r c s x d = Ret d' \<Longrightarrow> db_ok d'"
proof -
  assume ok: "db_ok d" and run: "InsertDwcRanking now g p r c s x d = Ret d'"
  let ?key = "(collate g, p, r, c)"
  let ?row = "\<lparr>r_gamename = g, r_pid = p, r_region = r, r_category = c, r_score = s, r_data = x, r_updated = now\<rparr>"
  have d': "d' = d\<lparr>rankings := filter (\<lambda>x. ranking_key x \<noteq> ?key) (rankings d) @ [?row]\<rparr>" and p: "has_profile d p"
    using run by (auto simp: InsertDwcRanking_def has_profile_def ranking_key_def split: if_splits)
  have "ranking_key ?row = ?key" by (simp add: ranking_key_def)
  then have "distinct (map ranking_key (filter (\<lambda>x. ranking_key x \<noteq> ?key) (rankings d) @ [?row]))"
    using ok by (auto simp: rankings_ok_def db_ok_def distinct_map_filter)
  then have "rankings_ok d'"
    using ok p by (simp add: rankings_ok_def db_ok_def d')
  then show ?thesis using ok d' by (simp add: db_ok_def)
qed

inductive db_step :: "db \<Rightarrow> db \<Rightarrow> bool" where
  create_user: "CreateUser u d = Ret d' \<Longrightarrow> db_step d d'"
| rename_user: "UpdateUserName i n d = Ret d' \<Longrightarrow> db_step d d'"
| create_profile: "CreateProfile w g d = Ret (d', i) \<Longrightarrow> db_step d d'"
| update_profile: "UpdateProfile p d = Ret d' \<Longrightarrow> db_step d d'"
| auth_friend: "AuthFriend s r d = Ret d' \<Longrightarrow> db_step d d'"
| add_friend: "AddFriend now s r d = Ret d' \<Longrightarrow> db_step d d'"
| remove_friend: "RemoveFriend s r d = Ret (d', b) \<Longrightarrow> db_step d d'"
| set_data: "SetGameStatsPersistData now p t i x d = Ret (d', m) \<Longrightarrow> db_step d d'"
| insert_ranking: "InsertDwcRanking now g p r c s x d = Ret d' \<Longrightarrow> db_step d d'"
| outage: "db_step d (d\<lparr>up := b\<rparr>)"

lemma db_ok_up [simp]: "db_ok (d\<lparr>up := b\<rparr>) = db_ok d"
  by (simp add: db_ok_def)

lemma db_step_ok:
  assumes "db_step d d'" and ok: "db_ok d"
  shows "db_ok d'"
  using assms(1)
proof cases
  case create_user
  then show ?thesis by (rule CreateUser_ok [OF ok])
next
  case rename_user
  then show ?thesis by (rule UpdateUserName_ok [OF ok])
next
  case create_profile
  then show ?thesis using CreateProfile_ok [OF ok] by blast
next
  case update_profile
  then show ?thesis by (rule UpdateProfile_ok [OF ok])
next
  case auth_friend
  then show ?thesis by (rule AuthFriend_ok [OF ok])
next
  case add_friend
  then show ?thesis by (rule AddFriend_ok [OF ok])
next
  case remove_friend
  then show ?thesis by (rule RemoveFriend_ok [OF ok])
next
  case set_data
  then show ?thesis by (rule SetGameStatsPersistData_ok [OF ok])
next
  case insert_ranking
  then show ?thesis by (rule InsertDwcRanking_ok [OF ok])
next
  case outage
  then show ?thesis using ok by simp
qed

inductive db_reachable :: "db \<Rightarrow> bool" where
  start: "db_reachable empty_db"
| step: "db_reachable d \<Longrightarrow> db_step d d' \<Longrightarrow> db_reachable d'"

lemma reachable_db_ok: "db_reachable d \<Longrightarrow> db_ok d"
proof (induction rule: db_reachable.induct)
  case start
  then show ?case
    by (simp add: db_ok_def users_ok_def profiles_ok_def friends_ok_def persist_ok_def rankings_ok_def empty_db_def
        serial_keys_def List.map_filter_simps)
qed (rule db_step_ok)

subsection \<open>What queries return\<close>

lemma filter_key_single:
  "distinct (map g xs) \<Longrightarrow> length (filter (\<lambda>x. g x = k) xs) \<le> 1"
proof (induction xs)
  case (Cons x xs)
  show ?case
  proof (cases "g x = k")
    case True
    have "g y \<noteq> k" if "y \<in> set xs" for y
      using Cons.prems True imageI [OF that, of g] by auto
    then have "filter (\<lambda>x. g x = k) xs = []" by simp
    then show ?thesis by simp
  next
    case False
    then show ?thesis using Cons by simp
  qed
qed simp

lemma left_join_reverse_rows:
  assumes "distinct (map friend_key fs)"
  shows "map fst (left_join_reverse fs) = fs"
proof -
  have one: "map fst (case reverse_rows fs f of [] \<Rightarrow> [(f, None)] | rs \<Rightarrow> map (\<lambda>r. (f, Some r)) rs) = [f]" for f
  proof -
    have "reverse_rows fs f = filter (\<lambda>r. friend_key r = (f_recipient f, f_sender f)) fs"
      by (simp add: reverse_rows_def friend_key_def)
    then have "length (reverse_rows fs f) \<le> 1" using filter_key_single [OF assms] by simp
    then obtain r where "reverse_rows fs f = [] \<or> reverse_rows fs f = [r]"
      by (cases "reverse_rows fs f" rule: list.exhaust [case_product list.exhaust [of "tl (reverse_rows fs f)"]]) auto
    then show ?thesis by auto
  qed
  show ?thesis by (simp add: left_join_reverse_def map_concat comp_def one)
qed

lemma map_filter_fst: "map (g \<circ> fst) (filter (p \<circ> fst) xs) = map g (filter p (map fst xs))"
  by (induction xs) auto

lemma sort_key_split:
  assumes "take n (sort_key k xs) = ys"
  shows "sorted (map k ys) \<and> length ys = min n (length xs) \<and>
    (\<forall>x \<in> set xs - set ys. \<forall>y \<in> set ys. k y \<le> k x)"
proof -
  let ?s = "sort_key k xs"
  have "sorted (map k (take n ?s) @ map k (drop n ?s))"
    by (simp only: map_append [symmetric] append_take_drop_id sorted_sort_key)
  then have "sorted (map k ys)" "\<forall>y \<in> set ys. \<forall>x \<in> set (drop n ?s). k y \<le> k x"
    using assms by (auto simp: sorted_append)
  moreover have "set xs = set (take n ?s) \<union> set (drop n ?s)"
    by (metis append_take_drop_id set_append set_sort)
  then have "set xs - set ys \<subseteq> set (drop n ?s)" using assms by blast
  moreover have "length ys = min n (length xs)" using assms by auto
  ultimately show ?thesis by blast
qed

subsection \<open>Properties\<close>

text \<open>C16. Whatever sequence of methods is called and whenever the database is unreachable: identifiers of users and of
  profiles are unique, no two users have the same MAC address and no two consoles the same serial number, no two
  profiles the same account and game, every profile belongs to a user, a friendship is stored at most once and
  between existing profiles, and a player has at most one block of data of each type and index and at most one
  ranking of each game, region and category.\<close>

theorem database_integrity:
  assumes "db_reachable d"
  shows "distinct (map fst (users d)) \<and> distinct (map (\<lambda>(_, r). collate (u_macadr r)) (users d)) \<and>
    distinct (map (\<lambda>(_, r). collate (the (u_csnum r))) (filter (\<lambda>(_, r). u_csnum r \<noteq> None) (users d))) \<and>
    distinct (map fst (profiles d)) \<and> distinct (map (\<lambda>(_, r). (p_wfcid r, collate (p_gsbrcd r))) (profiles d)) \<and>
    (\<forall>(_, r) \<in> set (profiles d). map_of (users d) (p_wfcid r) \<noteq> None) \<and>
    distinct (map (\<lambda>f. (f_sender f, f_recipient f)) (friends d)) \<and>
    (\<forall>f \<in> set (friends d). has_profile d (f_sender f) \<and> has_profile d (f_recipient f)) \<and>
    distinct (map fst (persistdata d)) \<and> (\<forall>k \<in> fst ` set (persistdata d). has_profile d (fst k)) \<and>
    distinct (map (\<lambda>r. (collate (r_gamename r), r_pid r, r_region r, r_category r)) (rankings d)) \<and>
    (\<forall>r \<in> set (rankings d). has_profile d (r_pid r))"
proof -
  have keys: "map (\<lambda>(_, r). collate (u_macadr r)) us = map (mac_key \<circ> snd) us"
    "map (\<lambda>(_, r). collate (the (u_csnum r))) (filter (\<lambda>(_, r). u_csnum r \<noteq> None) us) = serial_keys us"
    for us :: "(u64 \<times> user_row) list"
    by (induction us) (auto simp: mac_key_def serial_keys_def List.map_filter_simps split: option.split)
  have accounts: "map (\<lambda>(_, r). (p_wfcid r, collate (p_gsbrcd r))) ps = map (account_key \<circ> snd) ps"
    for ps :: "(u32 \<times> profile_row) list"
    by (induction ps) (auto simp: account_key_def)
  have rows: "(\<lambda>f. (f_sender f, f_recipient f)) = friend_key"
    "(\<lambda>r. (collate (r_gamename r), r_pid r, r_region r, r_category r)) = ranking_key"
    by (simp_all add: friend_key_def ranking_key_def fun_eq_iff)
  note ok = reachable_db_ok [OF assms, unfolded db_ok_def users_ok_def profiles_ok_def friends_ok_def persist_ok_def rankings_ok_def]
  have "\<forall>(_, r) \<in> set (profiles d). map_of (users d) (p_wfcid r) \<noteq> None" using ok by fastforce
  with ok show ?thesis unfolding keys accounts rows by blast
qed

definition sample_user :: user where
  "sample_user = \<lparr>UserID = 5, UnitCode = 1, MacAddress = ''0017ab000001'', Password = 0,
     SerialNumber = ''LU100000001'', Banned = False\<rparr>"

text \<open>A user with two profiles who are friends.\<close>

definition sample_db :: db where
  "sample_db = \<lparr>up = True,
     users = [(5, \<lparr>u_unitcd = 1, u_macadr = ''0017ab000001'', u_passwd = None, u_csnum = Some ''LU100000001'',
                u_banned = False, u_name = None\<rparr>)],
     profiles = [(1, \<lparr>p_wfcid = 5, p_gsbrcd = ''RMCJ'', p_firstname = None, p_lastname = []\<rparr>),
                 (2, \<lparr>p_wfcid = 5, p_gsbrcd = ''RSBE'', p_firstname = None, p_lastname = []\<rparr>)],
     next_profile = 3,
     friends = [\<lparr>f_sender = 1, f_recipient = 2, f_authorized = False, f_created = 7\<rparr>],
     persistdata = [], rankings = []\<rparr>"

lemma sample_collate: "collate ''RMCJ'' = ''RMCJ''" "collate ''RSBE'' = ''RSBE''"
  by code_simp+

lemma sample_db_reachable: "db_reachable sample_db"
proof -
  define d1 where "d1 = sample_db\<lparr>profiles := [], next_profile := 1, friends := []\<rparr>"
  define d2 where "d2 = sample_db\<lparr>profiles := take 1 (profiles sample_db), next_profile := 2, friends := []\<rparr>"
  define d3 where "d3 = sample_db\<lparr>friends := []\<rparr>"
  have "CreateUser sample_user empty_db = Ret d1"
    by (simp add: CreateUser_def empty_db_def sample_user_def d1_def sample_db_def mac_in_use_def
        serial_in_use_def user_columns_ok_def IsWii_def)
  then have "db_reachable d1" by (rule db_reachable.step [OF db_reachable.start db_step.create_user])
  moreover have "CreateProfile 5 ''RMCJ'' d1 = Ret (d2, 1)"
    by (simp add: CreateProfile_def d1_def d2_def sample_db_def)
  ultimately have "db_reachable d2" by (blast intro: db_reachable.step db_step.create_profile)
  moreover have "CreateProfile 5 ''RSBE'' d2 = Ret (d3, 2)"
    by (simp add: CreateProfile_def d2_def d3_def sample_db_def same_account_def sample_collate)
  ultimately have "db_reachable d3" by (blast intro: db_reachable.step db_step.create_profile)
  moreover have "AddFriend 7 1 2 d3 = Ret sample_db"
    by (simp add: AddFriend_def d3_def sample_db_def)
  ultimately show ?thesis by (blast intro: db_reachable.step db_step.add_friend)
qed

theorem database_integrity_witness:
  "distinct (map (\<lambda>f. (f_sender f, f_recipient f)) (friends sample_db)) \<and> distinct (map fst (profiles sample_db)) \<and>
   list_all (\<lambda>f. has_profile sample_db (f_sender f) \<and> has_profile sample_db (f_recipient f)) (friends sample_db)"
  using database_integrity [OF sample_db_reachable] unfolding list_all_iff by blast

text \<open>The join of \<open>GetFriends\<close> neither drops nor repeats a row: the incoming friends of a profile are
  exactly the rows with it as recipient, one entry each.\<close>

theorem incoming_friends:
  assumes "db_reachable d" and "up d"
  shows "GetFriends profileId False d = Ret
    (map (\<lambda>f. \<lparr>FriendID = f_sender f, Authorized = f_authorized f, Created = f_created f\<rparr>)
      (filter (\<lambda>f. f_recipient f = profileId) (friends d)))"
proof -
  have j: "map fst (left_join_reverse (friends d)) = friends d"
    using reachable_db_ok [OF assms(1)] by (intro left_join_reverse_rows) (simp add: db_ok_def friends_ok_def)
  show ?thesis
    using map_filter_fst [of "\<lambda>f. \<lparr>FriendID = f_sender f, Authorized = f_authorized f, Created = f_created f\<rparr>"
        "\<lambda>f. f_recipient f = profileId" "left_join_reverse (friends d)"] assms(2)
    by (simp add: GetFriends_def online_def j comp_def case_prod_unfold)
qed

theorem incoming_friends_witness:
  "GetFriends 2 False sample_db = Ret [\<lparr>FriendID = 1, Authorized = False, Created = 7\<rparr>]"
  by (subst incoming_friends [OF sample_db_reachable]) (simp_all add: sample_db_def)

text \<open>Data stored under a type and an index is found again exactly when type and index are exchanged;
  every other request sees what it saw before, so reading back with the same arguments finds the
  stored data only if the two are equal.\<close>

theorem persist_data_crossed:
  assumes "SetGameStatsPersistData now p t i x d = Ret (d', m)"
  shows "GetGameStatsPersistData p' t' i' d' =
    (if p' = p \<and> t' = i \<and> i' = t then Ret (x, now) else GetGameStatsPersistData p' t' i' d)"
  using assms by (auto simp: SetGameStatsPersistData_def GetGameStatsPersistData_def update_conv' online_def
      bind_outcome_Panic_iff split: if_splits)

theorem persist_data_crossed_witness:
  "\<exists>d'. SetGameStatsPersistData 9 1 3 0 ''x'' sample_db = Ret (d', 9) \<and>
     GetGameStatsPersistData 1 3 0 d' = GetGameStatsPersistData 1 3 0 sample_db \<and>
     GetGameStatsPersistData 1 0 3 d' = Ret (''x'', 9)"
proof -
  obtain d' where d': "SetGameStatsPersistData 9 1 3 0 ''x'' sample_db = Ret (d', 9)"
    by (simp add: SetGameStatsPersistData_def sample_db_def persist_columns_ok_def)
  show ?thesis
    using d' persist_data_crossed [OF d', of 1 3 0] persist_data_crossed [OF d', of 1 0 3] by simp
qed

text \<open>Updating keys of stored data discards all the others: the new content depends on the update
  alone, not on what was stored.\<close>

theorem kv_update_forgets:
  assumes "SetGameStatsPersistDataKV now p t i kvs d = Ret (d', m)"
  shows "map_of (persistdata d') (p, t, i) = Some \<lparr>pd_data = Encode (set_all kvs []), pd_modified = now\<rparr>"
  using assms
  by (auto simp: SetGameStatsPersistDataKV_def GetGameStatsPersistDataKV_def SetGameStatsPersistData_def
      update_conv' split: if_splits)

theorem kv_update_forgets_witness:
  "\<exists>d'. SetGameStatsPersistDataKV 9 1 3 3 [\<lparr>kv_K = ''b'', kv_V = ''2''\<rparr>]
          (sample_db\<lparr>persistdata := [((1, 3, 3), \<lparr>pd_data = [], pd_modified = 0\<rparr>)]\<rparr>) = Ret (d', 9) \<and>
     map_of (persistdata d') (1, 3, 3) = Some \<lparr>pd_data = Encode [\<lparr>kv_K = ''b'', kv_V = ''2''\<rparr>], pd_modified = 9\<rparr>"
proof -
  let ?d = "sample_db\<lparr>persistdata := [((1, 3, 3), \<lparr>pd_data = [], pd_modified = 0\<rparr>)]\<rparr>"
  obtain d' where d': "SetGameStatsPersistDataKV 9 1 3 3 [\<lparr>kv_K = ''b'', kv_V = ''2''\<rparr>] ?d = Ret (d', 9)"
    by (simp add: SetGameStatsPersistDataKV_def GetGameStatsPersistDataKV_def GetGameStatsPersistData_def
        SetGameStatsPersistData_def sample_db_def persist_columns_ok_def Let_def online_def)
  then show ?thesis using kv_update_forgets [OF d'] by simp
qed

text \<open>The top of a ranking board is sorted, has as many entries as asked for or as the board has, comes
  with the size of the board, and no entry left out is better than one returned.\<close>

theorem top_ranking:
  assumes "GetDwcRankings gamename pid region category DwcRankTop desc since limit pids d = Ret (es, cnt)"
  shows "\<exists>rows. es = map entry_of rows \<and>
    sorted (map (\<lambda>r. if desc then - r_score r else r_score r) rows) \<and>
    cnt = length (filter (in_board gamename region category since) (rankings d)) \<and>
    length es = min (nat limit) cnt \<and>
    (\<forall>r \<in> set (rankings d) - set rows. in_board gamename region category since r \<longrightarrow>
       (\<forall>x \<in> set rows. if desc then r_score r \<le> r_score x else r_score x \<le> r_score r))"
proof -
  let ?sel = "filter (in_board gamename region category since) (rankings d)"
  let ?rows = "take (nat limit) (sort_key (rank_key DwcRankTop desc 0) ?sel)"
  have f: "filter (rank_selected gamename pid region category DwcRankTop since 0 pids) (rankings d) = ?sel"
    by (rule filter_cong) (auto simp: rank_selected_def)
  have run: "es = map entry_of ?rows \<and> cnt = length ?sel"
    using assms by (auto simp: GetDwcRankings_def Let_def f split: if_splits)
  have k: "rank_key DwcRankTop desc 0 = (\<lambda>r. if desc then - r_score r else r_score r)"
    by (simp add: rank_key_def fun_eq_iff)
  have "sorted (map (rank_key DwcRankTop desc 0) ?rows) \<and> length ?rows = min (nat limit) (length ?sel) \<and>
    (\<forall>x \<in> set ?sel - set ?rows. \<forall>y \<in> set ?rows. rank_key DwcRankTop desc 0 y \<le> rank_key DwcRankTop desc 0 x)"
    by (rule sort_key_split [OF refl])
  then show ?thesis unfolding k using run by (intro exI [of _ ?rows]) (auto simp: k split: if_splits)
qed

definition ranked_db :: db where
  "ranked_db = sample_db\<lparr>rankings := map (\<lambda>(p, s). \<lparr>r_gamename = ''g'', r_pid = p, r_region = 1, r_category = 0,
     r_score = s, r_data = [], r_updated = 7\<rparr>) [(1, 50), (2, 40), (3, 45), (4, 90)]\<rparr>"

lemma g_collate: "collate ''g'' = ''G''"
  by code_simp

lemma ranked_board:
  "filter (in_board ''g'' 1 0 0) (rankings ranked_db) = rankings ranked_db"
  by (simp add: ranked_db_def in_board_def g_collate)

theorem top_ranking_witness:
  "\<exists>rows. GetDwcRankings ''g'' 1 1 0 DwcRankTop False 0 2 [] ranked_db = Ret (map entry_of rows, 4) \<and>
     sorted (map r_score rows) \<and> length rows = 2"
proof -
  have r: "filter (rank_selected ''g'' 1 1 0 DwcRankTop 0 0 []) (rankings ranked_db) = rankings ranked_db"
    by (simp add: ranked_db_def rank_selected_def in_board_def g_collate)
  obtain es where es: "GetDwcRankings ''g'' 1 1 0 DwcRankTop False 0 2 [] ranked_db = Ret (es, 4)"
    unfolding GetDwcRankings_def Let_def
    by (simp add: r online_def) (simp add: ranked_db_def sample_db_def)
  show ?thesis using top_ranking [OF es] es by (auto simp: ranked_board)
qed

text \<open>Asked in descending order for the scores nearest to a player's own, the server returns the player
  followed by the scores furthest from it, and leaves out the nearest.\<close>

theorem near_descending_is_furthest:
  assumes "GetDwcRankings gamename pid region category DwcRankNear True since limit pids d = Ret (es, cnt)"
  shows "\<exists>own rows. es = own # map entry_of rows \<and>
    sorted (map (\<lambda>r. - \<bar>e_Score own - r_score r\<bar>) rows) \<and>
    (\<forall>r \<in> set (rankings d) - set rows. in_board gamename region category since r \<and> r_pid r \<noteq> pid \<longrightarrow>
       (\<forall>x \<in> set rows. \<bar>e_Score own - r_score r\<bar> \<le> \<bar>e_Score own - r_score x\<bar>))"
proof -
  obtain own where own: "GetDwcRanking gamename pid region category True since d = Ret own"
    using assms by (auto simp: GetDwcRankings_def Let_def)
  let ?sel = "filter (\<lambda>r. in_board gamename region category since r \<and> r_pid r \<noteq> pid) (rankings d)"
  let ?k = "\<lambda>r. - \<bar>e_Score own - r_score r\<bar>"
  let ?rows = "take (nat (limit - 1)) (sort_key ?k ?sel)"
  have f: "filter (rank_selected gamename pid region category DwcRankNear since (e_Score own) pids) (rankings d) = ?sel"
    by (rule filter_cong) (auto simp: rank_selected_def)
  have k: "rank_key DwcRankNear True (e_Score own) = ?k"
    by (simp add: rank_key_def fun_eq_iff)
  have run: "es = own # map entry_of ?rows"
    using assms own by (auto simp: GetDwcRankings_def Let_def f k split: if_splits)
  have "sorted (map ?k ?rows) \<and> length ?rows = min (nat (limit - 1)) (length ?sel) \<and>
    (\<forall>x \<in> set ?sel - set ?rows. \<forall>y \<in> set ?rows. ?k y \<le> ?k x)"
    by (rule sort_key_split [OF refl])
  then show ?thesis using run by (intro exI [of _ own] exI [of _ ?rows]) auto
qed

theorem near_descending_is_furthest_witness:
  "\<exists>own r. GetDwcRankings ''g'' 1 1 0 DwcRankNear True 0 2 [] ranked_db = Ret ([own, entry_of r], 3) \<and>
     \<bar>e_Score own - 45\<bar> \<le> \<bar>e_Score own - r_score r\<bar>"
proof -
  have r: "filter (rank_selected ''g'' 1 1 0 DwcRankNear 0 50 []) (rankings ranked_db) = tl (rankings ranked_db)"
    by (simp add: ranked_db_def rank_selected_def in_board_def g_collate)
  obtain own where own: "GetDwcRanking ''g'' 1 1 0 True 0 ranked_db = Ret own" "e_Score own = 50"
    by (simp add: GetDwcRanking_def in_board_def ranked_db_def g_collate online_def sample_db_def entry_of_def Let_def)
  obtain row where row: "take 1 (sort_key (rank_key DwcRankNear True 50) (tl (rankings ranked_db))) = [row]"
    by (simp add: ranked_db_def rank_key_def)
  have run: "GetDwcRankings ''g'' 1 1 0 DwcRankNear True 0 2 [] ranked_db = Ret ([own, entry_of row], 3)"
    unfolding GetDwcRankings_def Let_def own bind_outcome.simps
    using row by (simp add: own r online_def) (simp add: ranked_db_def sample_db_def)
  obtain own' rows where e: "[own, entry_of row] = own' # map entry_of rows" and
    n': "\<forall>r \<in> set (rankings ranked_db) - set rows. in_board ''g'' 1 0 0 r \<and> r_pid r \<noteq> 1 \<longrightarrow>
       (\<forall>x \<in> set rows. \<bar>e_Score own' - r_score r\<bar> \<le> \<bar>e_Score own' - r_score x\<bar>)"
    using near_descending_is_furthest [OF run] by (elim exE conjE) (erule that, assumption)
  from e have "own' = own" and e': "[entry_of row] = map entry_of rows" by simp_all
  note n = n' [unfolded \<open>own' = own\<close>]
  from e' obtain x where x: "rows = [x]" "entry_of row = entry_of x" by (cases rows) auto
  then have "r_score x = r_score row" by (simp add: entry_of_def)
  let ?r3 = "\<lparr>r_gamename = ''g'', r_pid = 3, r_region = 1, r_category = 0, r_score = 45, r_data = [], r_updated = 7\<rparr>"
  have m: "?r3 \<in> set (rankings ranked_db)" "in_board ''g'' 1 0 0 ?r3"
    by (simp_all add: ranked_db_def in_board_def g_collate)
  have "\<bar>e_Score own - 45\<bar> \<le> \<bar>e_Score own - r_score row\<bar>"
  proof (cases "?r3 = x")
    case True
    then show ?thesis using \<open>r_score x = r_score row\<close> by auto
  next
    case False
    then show ?thesis using n m x(1) \<open>r_score x = r_score row\<close> by fastforce
  qed
  then show ?thesis using run by blast
qed

end
