(* ===== verification/Aes.thy ===== *)
theory Aes
  imports Prelude
begin

text \<open>
  The block cipher behind \<open>crypto/aes\<close> with a key of 16 bytes (AES-128), and the chaining mode of
  \<open>crypto/cipher\<close> that the server's tokens use. \<open>block_cipher\<close> is what a mode of operation relies on: a
  block encrypted and decrypted under the same key is unchanged. A block is a list of 16 bytes, by
  columns.
\<close>

definition aes_sbox :: bytes where
  "aes_sbox =
    [0x63, 0x7C, 0x77, 0x7B, 0xF2, 0x6B, 0x6F, 0xC5, 0x30, 0x01, 0x67, 0x2B, 0xFE, 0xD7, 0xAB, 0x76,
     0xCA, 0x82, 0xC9, 0x7D, 0xFA, 0x59, 0x47, 0xF0, 0xAD, 0xD4, 0xA2, 0xAF, 0x9C, 0xA4, 0x72, 0xC0,
     0xB7, 0xFD, 0x93, 0x26, 0x36, 0x3F, 0xF7, 0xCC, 0x34, 0xA5, 0xE5, 0xF1, 0x71, 0xD8, 0x31, 0x15,
     0x04, 0xC7, 0x23, 0xC3, 0x18, 0x96, 0x05, 0x9A, 0x07, 0x12, 0x80, 0xE2, 0xEB, 0x27, 0xB2, 0x75,
     0x09, 0x83, 0x2C, 0x1A, 0x1B, 0x6E, 0x5A, 0xA0, 0x52, 0x3B, 0xD6, 0xB3, 0x29, 0xE3, 0x2F, 0x84,
     0x53, 0xD1, 0x00, 0xED, 0x20, 0xFC, 0xB1, 0x5B, 0x6A, 0xCB, 0xBE, 0x39, 0x4A, 0x4C, 0x58, 0xCF,
     0xD0, 0xEF, 0xAA, 0xFB, 0x43, 0x4D, 0x33, 0x85, 0x45, 0xF9, 0x02, 0x7F, 0x50, 0x3C, 0x9F, 0xA8,
     0x51, 0xA3, 0x40, 0x8F, 0x92, 0x9D, 0x38, 0xF5, 0xBC, 0xB6, 0xDA, 0x21, 0x10, 0xFF, 0xF3, 0xD2,
     0xCD, 0x0C, 0x13, 0xEC, 0x5F, 0x97, 0x44, 0x17, 0xC4, 0xA7, 0x7E, 0x3D, 0x64, 0x5D, 0x19, 0x73,
     0x60, 0x81, 0x4F, 0xDC, 0x22, 0x2A, 0x90, 0x88, 0x46, 0xEE, 0xB8, 0x14, 0xDE, 0x5E, 0x0B, 0xDB,
     0xE0, 0x32, 0x3A, 0x0A, 0x49, 0x06, 0x24, 0x5C, 0xC2, 0xD3, 0xAC, 0x62, 0x91, 0x95, 0xE4, 0x79,
     0xE7, 0xC8, 0x37, 0x6D, 0x8D, 0xD5, 0x4E, 0xA9, 0x6C, 0x56, 0xF4, 0xEA, 0x65, 0x7A, 0xAE, 0x08,
     0xBA, 0x78, 0x25, 0x2E, 0x1C, 0xA6, 0xB4, 0xC6, 0xE8, 0xDD, 0x74, 0x1F, 0x4B, 0xBD, 0x8B, 0x8A,
     0x70, 0x3E, 0xB5, 0x66, 0x48, 0x03, 0xF6, 0x0E, 0x61, 0x35, 0x57, 0xB9, 0x86, 0xC1, 0x1D, 0x9E,
     0xE1, 0xF8, 0x98, 0x11, 0x69, 0xD9, 0x8E, 0x94, 0x9B, 0x1E, 0x87, 0xE9, 0xCE, 0x55, 0x28, 0xDF,
     0x8C, 0xA1, 0x89, 0x0D, 0xBF, 0xE6, 0x42, 0x68, 0x41, 0x99, 0x2D, 0x0F, 0xB0, 0x54, 0xBB, 0x16]"

definition aes_inv_sbox :: bytes where
  "aes_inv_sbox =
    [0x52, 0x09, 0x6A, 0xD5, 0x30, 0x36, 0xA5, 0x38, 0xBF, 0x40, 0xA3, 0x9E, 0x81, 0xF3, 0xD7, 0xFB,
     0x7C, 0xE3, 0x39, 0x82, 0x9B, 0x2F, 0xFF, 0x87, 0x34, 0x8E, 0x43, 0x44, 0xC4, 0xDE, 0xE9, 0xCB,
     0x54, 0x7B, 0x94, 0x32, 0xA6, 0xC2, 0x23, 0x3D, 0xEE, 0x4C, 0x95, 0x0B, 0x42, 0xFA, 0xC3, 0x4E,
     0x08, 0x2E, 0xA1, 0x66, 0x28, 0xD9, 0x24, 0xB2, 0x76, 0x5B, 0xA2, 0x49, 0x6D, 0x8B, 0xD1, 0x25,
     0x72, 0xF8, 0xF6, 0x64, 0x86, 0x68, 0x98, 0x16, 0xD4, 0xA4, 0x5C, 0xCC, 0x5D, 0x65, 0xB6, 0x92,
     0x6C, 0x70, 0x48, 0x50, 0xFD, 0xED, 0xB9, 0xDA, 0x5E, 0x15, 0x46, 0x57, 0xA7, 0x8D, 0x9D, 0x84,
     0x90, 0xD8, 0xAB, 0x00, 0x8C, 0xBC, 0xD3, 0x0A, 0xF7, 0xE4, 0x58, 0x05, 0xB8, 0xB3, 0x45, 0x06,
     0xD0, 0x2C, 0x1E, 0x8F, 0xCA, 0x3F, 0x0F, 0x02, 0xC1, 0xAF, 0xBD, 0x03, 0x01, 0x13, 0x8A, 0x6B,
     0x3A, 0x91, 0x11, 0x41, 0x4F, 0x67, 0xDC, 0xEA, 0x97, 0xF2, 0xCF, 0xCE, 0xF0, 0xB4, 0xE6, 0x73,
     0x96, 0xAC, 0x74, 0x22, 0xE7, 0xAD, 0x35, 0x85, 0xE2, 0xF9, 0x37, 0xE8, 0x1C, 0x75, 0xDF, 0x6E,
     0x47, 0xF1, 0x1A, 0x71, 0x1D, 0x29, 0xC5, 0x89, 0x6F, 0xB7, 0x62, 0x0E, 0xAA, 0x18, 0xBE, 0x1B,
     0xFC, 0x56, 0x3E, 0x4B, 0xC6, 0xD2, 0x79, 0x20, 0x9A, 0xDB, 0xC0, 0xFE, 0x78, 0xCD, 0x5A, 0xF4,
     0x1F, 0xDD, 0xA8, 0x33, 0x88, 0x07, 0xC7, 0x31, 0xB1, 0x12, 0x10, 0x59, 0x27, 0x80, 0xEC, 0x5F,
     0x60, 0x51, 0x7F, 0xA9, 0x19, 0xB5, 0x4A, 0x0D, 0x2D, 0xE5, 0x7A, 0x9F, 0x93, 0xC9, 0x9C, 0xEF,
     0xA0, 0xE0, 0x3B, 0x4D, 0xAE, 0x2A, 0xF5, 0xB0, 0xC8, 0xEB, 0xBB, 0x3C, 0x83, 0x53, 0x99, 0x61,
     0x17, 0x2B, 0x04, 0x7E, 0xBA, 0x77, 0xD6, 0x26, 0xE1, 0x69, 0x14, 0x63, 0x55, 0x21, 0x0C, 0x7D]"

definition sub :: "bytes \<Rightarrow> u8 \<Rightarrow> u8" where
  "sub table b = table ! unat b"

definition xtime :: "u8 \<Rightarrow> u8" where
  "xtime b = (if bit b 7 then push_bit 1 b XOR 0x1B else push_bit 1 b)"

definition xor_bytes :: "bytes \<Rightarrow> bytes \<Rightarrow> bytes" where
  "xor_bytes a b = map2 (XOR) a b"

definition permute :: "nat list \<Rightarrow> bytes \<Rightarrow> bytes" where
  "permute p b = map ((!) b) p"

definition shift_rows :: "nat list" where
  "shift_rows = [0, 5, 10, 15, 4, 9, 14, 3, 8, 13, 2, 7, 12, 1, 6, 11]"

definition unshift_rows :: "nat list" where
  "unshift_rows = [0, 13, 10, 7, 4, 1, 14, 11, 8, 5, 2, 15, 12, 9, 6, 3]"

text \<open>Products with the constants of the two matrices.\<close>

definition mul3 :: "u8 \<Rightarrow> u8" where "mul3 b = xtime b XOR b"
definition mul9 :: "u8 \<Rightarrow> u8" where "mul9 b = xtime (xtime (xtime b)) XOR b"
definition mul11 :: "u8 \<Rightarrow> u8" where "mul11 b = xtime (xtime (xtime b)) XOR (xtime b XOR b)"
definition mul13 :: "u8 \<Rightarrow> u8" where "mul13 b = xtime (xtime (xtime b)) XOR (xtime (xtime b) XOR b)"
definition mul14 :: "u8 \<Rightarrow> u8" where "mul14 b = xtime (xtime (xtime b)) XOR (xtime (xtime b) XOR xtime b)"

fun mix_columns :: "bytes \<Rightarrow> bytes" where
  "mix_columns (a # b # c # d # r) =
     [xtime a XOR mul3 b XOR c XOR d, a XOR xtime b XOR mul3 c XOR d,
      a XOR b XOR xtime c XOR mul3 d, mul3 a XOR b XOR c XOR xtime d] @ mix_columns r"
| "mix_columns r = r"

fun unmix_columns :: "bytes \<Rightarrow> bytes" where
  "unmix_columns (a # b # c # d # r) =
     [mul14 a XOR mul11 b XOR mul13 c XOR mul9 d, mul9 a XOR mul14 b XOR mul11 c XOR mul13 d,
      mul13 a XOR mul9 b XOR mul14 c XOR mul11 d, mul11 a XOR mul13 b XOR mul9 c XOR mul14 d] @ unmix_columns r"
| "unmix_columns r = r"

subsection \<open>Keys\<close>

definition next_key :: "u8 \<Rightarrow> bytes \<Rightarrow> bytes" where
  "next_key rcon k =
     (let t = map (sub aes_sbox) [k ! 13, k ! 14, k ! 15, k ! 12];
          w0 = xor_bytes (take 4 k) (t[0 := t ! 0 XOR rcon]);
          w1 = xor_bytes (take 4 (drop 4 k)) w0;
          w2 = xor_bytes (take 4 (drop 8 k)) w1;
          w3 = xor_bytes (take 4 (drop 12 k)) w2
      in w0 @ w1 @ w2 @ w3)"

fun round_keys :: "nat \<Rightarrow> u8 \<Rightarrow> bytes \<Rightarrow> bytes list" where
  "round_keys 0 rcon k = [k]"
| "round_keys (Suc n) rcon k = k # round_keys n (xtime rcon) (next_key rcon k)"

subsection \<open>Blocks\<close>

fun enc_rounds :: "bytes list \<Rightarrow> bytes \<Rightarrow> bytes" where
  "enc_rounds [] b = b"
| "enc_rounds [k] b = xor_bytes (permute shift_rows (map (sub aes_sbox) b)) k"
| "enc_rounds (k # ks) b =
     enc_rounds ks (xor_bytes (mix_columns (permute shift_rows (map (sub aes_sbox) b))) k)"

fun dec_rounds :: "bytes list \<Rightarrow> bytes \<Rightarrow> bytes" where
  "dec_rounds [] b = b"
| "dec_rounds [k] b = map (sub aes_inv_sbox) (permute unshift_rows (xor_bytes b k))"
| "dec_rounds (k # ks) b =
     map (sub aes_inv_sbox) (permute unshift_rows (unmix_columns (xor_bytes (dec_rounds ks b) k)))"

definition aes_encrypt :: "bytes \<Rightarrow> bytes \<Rightarrow> bytes" where
  "aes_encrypt key b = (case round_keys 10 1 key of [] \<Rightarrow> b | k # ks \<Rightarrow> enc_rounds ks (xor_bytes b k))"

definition aes_decrypt :: "bytes \<Rightarrow> bytes \<Rightarrow> bytes" where
  "aes_decrypt key b = (case round_keys 10 1 key of [] \<Rightarrow> b | k # ks \<Rightarrow> xor_bytes (dec_rounds ks b) k)"

subsection \<open>Every step is inverted\<close>

lemma sbox_inverse_table:
  "list_all (\<lambda>i. aes_inv_sbox ! unat (aes_sbox ! i) = of_nat i) [0..<256]"
  by code_simp

lemma sub_inverse [simp]: "sub aes_inv_sbox (sub aes_sbox b) = b"
proof -
  have "unat b \<in> set [0..<256]" using unsigned_less [of b, where ?'a = nat] by simp
  then have "aes_inv_sbox ! unat (aes_sbox ! unat b) = of_nat (unat b)"
    using sbox_inverse_table by (simp only: list_all_iff)
  then show ?thesis by (simp add: sub_def)
qed

lemma xtime_xor: "xtime (a XOR b) = xtime a XOR xtime b"
  unfolding xtime_def bit_xor_iff push_bit_xor by (auto simp: ac_simps)

lemma xor_bytes_cancel [simp]: "length a \<le> length b \<Longrightarrow> xor_bytes (xor_bytes a b) b = a"
  by (induction a b rule: list_induct2') (simp_all add: xor_bytes_def xor.assoc)

lemma length_xor_bytes [simp]: "length (xor_bytes a b) = min (length a) (length b)"
  by (simp add: xor_bytes_def)

lemma length_permute [simp]: "length (permute p b) = length p"
  by (simp add: permute_def)

lemma length_shift_rows [simp]: "length shift_rows = 16"
  by (simp add: shift_rows_def)

lemma unshift_shift [simp]: "length b = 16 \<Longrightarrow> permute unshift_rows (permute shift_rows b) = b"
  by (rule nth_equalityI) (auto simp: permute_def shift_rows_def unshift_rows_def less_Suc_eq numeral_eq_Suc)

lemmas muls = mul3_def mul9_def mul11_def mul13_def mul14_def

lemma unmix_mix [simp]: "unmix_columns (mix_columns b) = b"
  by (induction b rule: mix_columns.induct) (simp_all add: muls xtime_xor ac_simps)

lemma length_mix [simp]: "length (mix_columns b) = length b"
  by (induction b rule: mix_columns.induct) simp_all

lemma length_next_key: "length k = 16 \<Longrightarrow> length (next_key rcon k) = 16"
  by (simp add: next_key_def Let_def)

lemma length_round_keys: "length k = 16 \<Longrightarrow> list_all (\<lambda>r. length r = 16) (round_keys n rcon k)"
  by (induction n arbitrary: rcon k) (simp_all add: length_next_key)

lemma dec_enc_rounds:
  "list_all (\<lambda>r. length r = 16) ks \<Longrightarrow> length b = 16 \<Longrightarrow>
     dec_rounds ks (enc_rounds ks b) = b \<and> length (enc_rounds ks b) = 16"
proof (induction ks b rule: enc_rounds.induct)
  case (2 k b)
  then show ?case by (simp add: comp_def)
next
  case (3 k k2 ks b)
  then show ?case by (simp add: comp_def)
qed simp

lemma aes_decrypt_encrypt:
  assumes "length key = 16" and "length b = 16"
  shows "aes_decrypt key (aes_encrypt key b) = b \<and> length (aes_encrypt key b) = 16"
proof -
  obtain k ks where k: "round_keys 10 1 key = k # ks"
    by (cases "round_keys 10 1 key") (auto simp: numeral_eq_Suc)
  then have l: "list_all (\<lambda>r. length r = 16) (k # ks)" using length_round_keys [OF assms(1)] by metis
  then show ?thesis
    using dec_enc_rounds [of ks "xor_bytes b k"] assms by (simp add: aes_encrypt_def aes_decrypt_def k)
qed

subsection \<open>Modes of operation\<close>

locale block_cipher =
  fixes enc :: "bytes \<Rightarrow> bytes"
    and dec :: "bytes \<Rightarrow> bytes"
  assumes dec_enc: "length b = 16 \<Longrightarrow> dec (enc b) = b"
    and length_enc: "length b = 16 \<Longrightarrow> length (enc b) = 16"
begin

text \<open>\<open>CryptBlocks\<close> of \<open>NewCBCEncrypter\<close> and \<open>NewCBCDecrypter\<close> on \<open>n\<close> blocks.\<close>

fun cbc_encrypt :: "nat \<Rightarrow> bytes \<Rightarrow> bytes \<Rightarrow> bytes" where
  "cbc_encrypt 0 iv b = []"
| "cbc_encrypt (Suc n) iv b =
     (let c = enc (xor_bytes (take 16 b) iv) in c @ cbc_encrypt n c (drop 16 b))"

fun cbc_decrypt :: "nat \<Rightarrow> bytes \<Rightarrow> bytes \<Rightarrow> bytes" where
  "cbc_decrypt 0 iv b = []"
| "cbc_decrypt (Suc n) iv b =
     xor_bytes (dec (take 16 b)) iv @ cbc_decrypt n (take 16 b) (drop 16 b)"

lemma length_cbc_encrypt:
  "length iv = 16 \<Longrightarrow> length b = 16 * n \<Longrightarrow> length (cbc_encrypt n iv b) = 16 * n"
  by (induction n iv b rule: cbc_encrypt.induct) (auto simp: Let_def length_enc)

lemma cbc_decrypt_encrypt:
  "length iv = 16 \<Longrightarrow> length b = 16 * n \<Longrightarrow> cbc_decrypt n iv (cbc_encrypt n iv b) = b"
proof (induction n iv b rule: cbc_encrypt.induct)
  case (2 n iv b)
  define c where "c = enc (xor_bytes (take 16 b) iv)"
  have l: "length (xor_bytes (take 16 b) iv) = 16" using 2 by simp
  then have c: "length c = 16" "dec c = xor_bytes (take 16 b) iv" by (simp_all add: c_def length_enc dec_enc)
  have "cbc_decrypt n c (cbc_encrypt n c (drop 16 b)) = drop 16 b"
    using 2 c by (simp add: c_def)
  then show ?case using 2 c by (simp add: c_def [symmetric] Let_def)
qed simp

end

text \<open>The cipher for a key; an argument of another length is not a key.\<close>

definition aes_key :: "bytes \<Rightarrow> bytes" where
  "aes_key k = take 16 (k @ replicate 16 0)"

lemma length_aes_key [simp]: "length (aes_key k) = 16"
  by (simp add: aes_key_def)

interpretation aes: block_cipher "aes_encrypt (aes_key k)" "aes_decrypt (aes_key k)" for k
  by unfold_locales (simp_all add: aes_decrypt_encrypt)

end
