(* ===== verification/AuthToken.thy ===== *)
theory AuthToken
  imports Aes GoBase64
begin

text \<open>
  \<open>common/auth_token.go\<close>: the two kinds of tokens the server hands out and takes back, encrypted under
  keys drawn at start-up. \<open>token_env\<close> is the key material of one kind; \<open>now\<close> is \<open>time.Now()\<close> in
  nanoseconds. A token is the little-endian image of its struct, padded to whole blocks.
\<close>

datatype token_error = ErrTokenMagic | ErrTokenExpired | ErrTokenLength | ErrBase64

record token_env =
  env_key :: bytes
  env_iv :: bytes
  env_magic :: bytes

record NASAuthToken =
  IssueTime :: u64
  token_WFCID :: u64
  token_ProfileID :: u32
  ConsoleFriendCode :: u64
  Region :: u8
  Lang :: u8
  token_UnitCode :: u8
  GameCode :: bytes
  token_Challenge :: bytes
  InGameScreenName :: bytes
  Magic :: bytes

definition token_bytes :: "NASAuthToken \<Rightarrow> bytes" where
  "token_bytes t =
     le64 (IssueTime t) @ le64 (token_WFCID t) @ le32 (token_ProfileID t) @ le64 (ConsoleFriendCode t) @
     [Region t, Lang t, token_UnitCode t] @ GameCode t @ token_Challenge t @ InGameScreenName t @ Magic t"

definition read_token :: "bytes \<Rightarrow> NASAuthToken" where
  "read_token b =
     \<lparr>IssueTime = of_nat (uint_be (rev (subslice 0 8 b))), token_WFCID = of_nat (uint_be (rev (subslice 8 16 b))),
      token_ProfileID = of_nat (uint_be (rev (subslice 16 20 b))),
      ConsoleFriendCode = of_nat (uint_be (rev (subslice 20 28 b))),
      Region = b ! 28, Lang = b ! 29, token_UnitCode = b ! 30,
      GameCode = subslice 31 35 b, token_Challenge = subslice 35 43 b,
      InGameScreenName = subslice 43 107 b, Magic = subslice 107 115 b\<rparr>"

definition nasAuthTokenSize :: nat where "nasAuthTokenSize = 128"
definition gpcmLoginTicketSize :: nat where "gpcmLoginTicketSize = 16"

definition unix :: "int \<Rightarrow> int" where
  "unix now = now div 10 ^ 9"

definition second :: int where "second = 10 ^ 9"

definition marshal_token :: "token_env \<Rightarrow> int \<Rightarrow> NASAuthToken \<Rightarrow> string" where
  "marshal_token env now t =
     (let t' = t\<lparr>IssueTime := of_int (unix now), Magic := env_magic env\<rparr>;
          data = token_bytes t' @ replicate (nasAuthTokenSize - length (token_bytes t')) 0
      in ''NDS'' @ b64_encode Base64DwcEncoding
           (aes.cbc_encrypt (env_key env) (length data div 16) (env_iv env) data))"

text \<open>The checks of the issue time, with the time a token lives.\<close>

definition expired :: "int \<Rightarrow> int \<Rightarrow> u64 \<Rightarrow> bool" where
  "expired now lifetime issue \<longleftrightarrow> sint issue * second < now - lifetime \<or> sint issue * second > now"

definition unmarshal_token :: "token_env \<Rightarrow> int \<Rightarrow> string \<Rightarrow> (token_error, NASAuthToken) outcome" where
  "unmarshal_token env now data =
     (if \<not> has_prefix data ''NDS'' then Err ErrTokenLength
      else case b64_decode Base64DwcEncoding (drop 3 data) of
        None \<Rightarrow> Err ErrBase64
      | Some blob \<Rightarrow>
          if length blob \<noteq> nasAuthTokenSize then Err ErrTokenLength
          else
            let t = read_token (aes.cbc_decrypt (env_key env) (length blob div 16) (env_iv env) blob) in
            if Magic t \<noteq> env_magic env then Err ErrTokenMagic
            else if expired now (10 * 60 * second) (IssueTime t) then Err ErrTokenExpired
            else Ret t)"

record GPCMLoginTicket =
  ticket_IssueTime :: u64
  ticket_ProfileID :: u32
  ticket_Magic :: bytes

definition ticket_bytes :: "GPCMLoginTicket \<Rightarrow> bytes" where
  "ticket_bytes t = le64 (ticket_IssueTime t) @ le32 (ticket_ProfileID t) @ ticket_Magic t"

definition read_ticket :: "bytes \<Rightarrow> GPCMLoginTicket" where
  "read_ticket b =
     \<lparr>ticket_IssueTime = of_nat (uint_be (rev (subslice 0 8 b))),
      ticket_ProfileID = of_nat (uint_be (rev (subslice 8 12 b))), ticket_Magic = subslice 12 16 b\<rparr>"

definition marshal_ticket :: "token_env \<Rightarrow> int \<Rightarrow> GPCMLoginTicket \<Rightarrow> string" where
  "marshal_ticket env now t =
     (let t' = t\<lparr>ticket_IssueTime := of_int (unix now), ticket_Magic := env_magic env\<rparr>;
          data = ticket_bytes t' @ replicate (gpcmLoginTicketSize - length (ticket_bytes t')) 0
      in b64_encode StdEncoding (aes.cbc_encrypt (env_key env) (length data div 16) (env_iv env) data))"

definition unmarshal_ticket :: "token_env \<Rightarrow> int \<Rightarrow> string \<Rightarrow> (token_error, GPCMLoginTicket) outcome" where
  "unmarshal_ticket env now ticket =
     (case b64_decode StdEncoding ticket of
        None \<Rightarrow> Err ErrBase64
      | Some blob \<Rightarrow>
          if length blob \<noteq> gpcmLoginTicketSize then Err ErrTokenLength
          else
            let t = read_ticket (aes.cbc_decrypt (env_key env) (length blob div 16) (env_iv env) blob) in
            if ticket_Magic t \<noteq> env_magic env then Err ErrTokenMagic
            else if expired now (48 * 60 * 60 * second) (ticket_IssueTime t) then Err ErrTokenExpired
            else Ret t)"

subsection \<open>Images of the structs\<close>

text \<open>The arrays of the structs have their declared lengths.\<close>

definition token_ok :: "NASAuthToken \<Rightarrow> bool" where
  "token_ok t \<longleftrightarrow> length (GameCode t) = 4 \<and> length (token_Challenge t) = 8 \<and>
     length (InGameScreenName t) = 64 \<and> length (Magic t) = 8"

lemma length_token_bytes: "token_ok t \<Longrightarrow> length (token_bytes t) = 115"
  by (simp add: token_bytes_def token_ok_def)

lemma read_token_bytes:
  assumes "token_ok t"
  shows "read_token (token_bytes t @ pad) = t"
proof -
  let ?b = "token_bytes t @ pad"
  have l: "length (GameCode t) = 4" "length (token_Challenge t) = 8" "length (InGameScreenName t) = 64"
    "length (Magic t) = 8" using assms by (simp_all add: token_ok_def)
  have "subslice 0 8 ?b = le64 (IssueTime t)" "subslice 8 16 ?b = le64 (token_WFCID t)"
    "subslice 16 20 ?b = le32 (token_ProfileID t)" "subslice 20 28 ?b = le64 (ConsoleFriendCode t)"
    "subslice 31 35 ?b = GameCode t" "subslice 35 43 ?b = token_Challenge t"
    "subslice 43 107 ?b = InGameScreenName t" "subslice 107 115 ?b = Magic t"
    by (simp_all add: token_bytes_def subslice_def l)
  moreover have "?b ! 28 = Region t" "?b ! 29 = Lang t" "?b ! 30 = token_UnitCode t"
    by (simp_all add: token_bytes_def nth_append)
  ultimately show ?thesis by (simp add: read_token_def)
qed

lemma read_ticket_bytes:
  "length (ticket_Magic t) = 4 \<Longrightarrow> read_ticket (ticket_bytes t @ pad) = t"
  by (simp add: read_ticket_def ticket_bytes_def subslice_def)

subsection \<open>Properties\<close>

text \<open>The lifetime test, when issue and use are moments of the same clock before the year 292277026596.\<close>

lemma not_expired:
  assumes "0 \<le> now" and "unix now < 2 ^ 63" and "now \<le> later" and "later \<le> now + lifetime - second"
  shows "\<not> expired later lifetime (of_int (unix now))"
proof -
  have "0 \<le> unix now" using assms(1) by (simp add: unix_def pos_imp_zdiv_nonneg_iff)
  then have "sint (of_int (unix now) :: u64) = unix now"
    using assms(2) by (simp add: signed_of_int signed_take_bit_int_eq_self)
  moreover have "unix now * second \<le> now" "now - second < unix now * second"
    using pos_mod_bound [of "10 ^ 9" now] pos_mod_sign [of "10 ^ 9" now] minus_mod_eq_div_mult [of now "10 ^ 9"]
    by (simp_all add: unix_def second_def)
  ultimately show ?thesis using assms(3,4) by (simp add: expired_def)
qed

lemma unmarshal_marshal_token:
  assumes "token_ok t" and "length (env_magic env) = 8" and "length (env_iv env) = 16"
    and "0 \<le> now" and "unix now < 2 ^ 63" and "now \<le> later" and "later \<le> now + 10 * 60 * second - second"
  shows "unmarshal_token env later (marshal_token env now t) =
    Ret (t\<lparr>IssueTime := of_int (unix now), Magic := env_magic env\<rparr>)"
proof -
  define t' where "t' = t\<lparr>IssueTime := of_int (unix now), Magic := env_magic env\<rparr>"
  define data where "data = token_bytes t' @ replicate (nasAuthTokenSize - length (token_bytes t')) 0"
  have ok: "token_ok t'" using assms(1,2) by (simp add: token_ok_def t'_def)
  have l: "length data = 16 * 8" using length_token_bytes [OF ok] by (simp add: data_def nasAuthTokenSize_def)
  let ?blob = "aes.cbc_encrypt (env_key env) 8 (env_iv env) data"
  have m: "marshal_token env now t = ''NDS'' @ b64_encode Base64DwcEncoding ?blob"
    unfolding marshal_token_def Let_def t'_def [symmetric] data_def [symmetric] l by simp
  have "length ?blob = 128" using aes.length_cbc_encrypt [OF assms(3) l] by simp
  moreover have "read_token (aes.cbc_decrypt (env_key env) 8 (env_iv env) ?blob) = t'"
    using aes.cbc_decrypt_encrypt [OF assms(3) l] read_token_bytes [OF ok] by (simp add: data_def)
  moreover have "Magic t' = env_magic env" "IssueTime t' = of_int (unix now)" by (simp_all add: t'_def)
  ultimately show ?thesis
    unfolding m unmarshal_token_def
    using not_expired [OF assms(4,5,6,7)]
    by (simp add: has_prefix_def b64_dwc.decode_encode nasAuthTokenSize_def Let_def t'_def [symmetric])
qed

text \<open>C22. An authentication token the server issued is accepted during the next ten minutes, less the second
  its issue time is rounded to, and gives back every field that was put in it.\<close>

theorem token_roundtrip:
  assumes "token_ok t" and "length (env_magic env) = 8" and "length (env_iv env) = 16"
    and "0 \<le> now" and "unix now < 2 ^ 63" and "now \<le> later" and "later \<le> now + 10 * 60 * second - second"
  shows "unmarshal_token env later (marshal_token env now t) =
    Ret (t\<lparr>IssueTime := of_int (unix now), Magic := env_magic env\<rparr>)"
  using assms by (rule unmarshal_marshal_token)

definition sample_env :: token_env where
  "sample_env = \<lparr>env_key = replicate 16 1, env_iv = replicate 16 2, env_magic = replicate 8 3\<rparr>"

definition sample_token :: NASAuthToken where
  "sample_token = \<lparr>IssueTime = 0, token_WFCID = 5, token_ProfileID = 1, ConsoleFriendCode = 0, Region = 1, Lang = 1,
     token_UnitCode = 1, GameCode = [82, 77, 67, 74], token_Challenge = [65, 66, 67, 68, 69, 70, 71, 72],
     InGameScreenName = replicate 64 0, Magic = replicate 8 0\<rparr>"

lemma sample_token_ok: "token_ok sample_token"
  by (simp add: token_ok_def sample_token_def)

lemma sample_unmarshal:
  "unmarshal_token sample_env (1001 * second) (marshal_token sample_env (1000 * second) sample_token) =
     Ret (sample_token\<lparr>IssueTime := 1000, Magic := replicate 8 3\<rparr>)"
  by (subst unmarshal_marshal_token) (simp_all add: sample_token_ok sample_env_def unix_def second_def)

theorem token_roundtrip_witness:
  "\<exists>t. unmarshal_token sample_env (1001 * second) (marshal_token sample_env (1000 * second) sample_token) = Ret t \<and>
     token_ProfileID t = 1"
  by (subst token_roundtrip) (simp_all add: token_ok_def sample_token_def sample_env_def unix_def second_def)

text \<open>A token is accepted only if it decrypts to a struct with the server's magic that was issued within
  the last ten minutes and not in the future.\<close>

theorem token_accepted:
  assumes "unmarshal_token env now data = Ret t"
  shows "\<exists>blob. has_prefix data ''NDS'' \<and> b64_decode Base64DwcEncoding (drop 3 data) = Some blob \<and>
    length blob = nasAuthTokenSize \<and> t = read_token (aes.cbc_decrypt (env_key env) 8 (env_iv env) blob) \<and>
    Magic t = env_magic env \<and> now - 600 * second \<le> sint (IssueTime t) * second \<and> sint (IssueTime t) * second \<le> now"
  using assms
  by (auto simp: unmarshal_token_def expired_def nasAuthTokenSize_def Let_def
      split: if_splits option.splits)

theorem token_accepted_witness:
  "\<exists>t. unmarshal_token sample_env (1001 * second) (marshal_token sample_env (1000 * second) sample_token) = Ret t \<and>
     Magic t = replicate 8 3"
  using token_accepted [OF sample_unmarshal] sample_unmarshal by (auto simp: sample_env_def)

lemma unmarshal_marshal_ticket:
  assumes "length (env_magic env) = 4" and "length (env_iv env) = 16"
    and "0 \<le> now" and "unix now < 2 ^ 63" and "now \<le> later" and "later \<le> now + 48 * 60 * 60 * second - second"
  shows "unmarshal_ticket env later (marshal_ticket env now t) =
    Ret (t\<lparr>ticket_IssueTime := of_int (unix now), ticket_Magic := env_magic env\<rparr>)"
proof -
  define t' where "t' = t\<lparr>ticket_IssueTime := of_int (unix now), ticket_Magic := env_magic env\<rparr>"
  define data where "data = ticket_bytes t'"
  have l: "length data = 16 * 1" using assms(1) by (simp add: data_def ticket_bytes_def t'_def)
  let ?blob = "aes.cbc_encrypt (env_key env) 1 (env_iv env) data"
  have m: "marshal_ticket env now t = b64_encode StdEncoding ?blob"
    using l by (simp add: marshal_ticket_def t'_def [symmetric] data_def [symmetric] Let_def gpcmLoginTicketSize_def)
  have "length ?blob = 16" using aes.length_cbc_encrypt [OF assms(2) l] by simp
  moreover have "read_ticket (aes.cbc_decrypt (env_key env) 1 (env_iv env) ?blob) = t'"
    using aes.cbc_decrypt_encrypt [OF assms(2) l] read_ticket_bytes [of t' "[]"] assms(1)
    by (simp add: data_def t'_def del: One_nat_def)
  moreover have "ticket_Magic t' = env_magic env" "ticket_IssueTime t' = of_int (unix now)" by (simp_all add: t'_def)
  ultimately show ?thesis
    unfolding m unmarshal_ticket_def
    using not_expired [OF assms(3,4,5,6)]
    by (simp add: b64_std.decode_encode gpcmLoginTicketSize_def Let_def t'_def [symmetric] del: One_nat_def)
qed

text \<open>A login ticket is accepted for two days and names the profile it was issued to.\<close>

theorem ticket_roundtrip:
  assumes "length (env_magic env) = 4" and "length (env_iv env) = 16"
    and "0 \<le> now" and "unix now < 2 ^ 63" and "now \<le> later" and "later \<le> now + 48 * 60 * 60 * second - second"
  shows "unmarshal_ticket env later (marshal_ticket env now t) =
    Ret (t\<lparr>ticket_IssueTime := of_int (unix now), ticket_Magic := env_magic env\<rparr>)"
  using assms by (rule unmarshal_marshal_ticket)

theorem ticket_roundtrip_witness:
  "\<exists>t. unmarshal_ticket (sample_env\<lparr>env_magic := replicate 4 3\<rparr>) (90000 * second)
       (marshal_ticket (sample_env\<lparr>env_magic := replicate 4 3\<rparr>) (1000 * second)
         \<lparr>ticket_IssueTime = 0, ticket_ProfileID = 7, ticket_Magic = []\<rparr>) = Ret t \<and> ticket_ProfileID t = 7"
  by (subst ticket_roundtrip) (simp_all add: sample_env_def unix_def second_def)

end
