(* ===== verification/GpError.thy ===== *)
theory GpError
  imports GsMessage
begin

text \<open>
  \<open>gpcm/error.go\<close>: the errors of the GameSpy protocol, which the servers for profiles, searches and
  statistics share, and the message that tells a client of one. A handler of a request returns one
  of them or some other error; only the former are sent.
\<close>

record GPError =
  ErrorCode :: int
  ErrorString :: string
  Fatal :: bool

definition MakeGPError :: "int \<Rightarrow> string \<Rightarrow> bool \<Rightarrow> GPError" where
  "MakeGPError errorCode errorString fatal = \<lparr>ErrorCode = errorCode, ErrorString = errorString, Fatal = fatal\<rparr>"

definition ErrNone :: GPError where
  "ErrNone = MakeGPError 0xFFFF ''No error.'' False"

definition ErrGeneral :: GPError where
  "ErrGeneral = MakeGPError 0x0000 ''There was an unknown error.'' True"

definition ErrParse :: GPError where
  "ErrParse = MakeGPError 0x0001 ''There was an error parsing an incoming request.'' True"

definition ErrNotLoggedIn :: GPError where
  "ErrNotLoggedIn = MakeGPError 0x0002 ''This request cannot be processed because you are not logged in.'' True"

definition ErrBadSessionKey :: GPError where
  "ErrBadSessionKey = MakeGPError 0x0003 ''This request cannot be processed because the session key is invalid.'' True"

definition ErrDatabase :: GPError where
  "ErrDatabase = MakeGPError 0x0004 ''This request cannot be processed because of a database error.'' True"

definition ErrNetwork :: GPError where
  "ErrNetwork = MakeGPError 0x0005 ''There was an error connecting a network socket.'' True"

definition ErrForcedDisconnect :: GPError where
  "ErrForcedDisconnect = MakeGPError 0x0006 ''This profile has been disconnected by another login.'' True"

definition ErrConnectionClosed :: GPError where
  "ErrConnectionClosed = MakeGPError 0x0007 ''The server has closed the connection.'' True"

definition ErrUDPLayer :: GPError where
  "ErrUDPLayer = MakeGPError 0x0008 ''There was a problem with the UDP layer.'' True"

definition ErrLogin :: GPError where
  "ErrLogin = MakeGPError 0x0100 ''There was an error logging in to the GP backend.'' True"

definition ErrLoginTimeout :: GPError where
  "ErrLoginTimeout = MakeGPError 0x0101 ''The login attempt timed out.'' True"

definition ErrLoginBadNickname :: GPError where
  "ErrLoginBadNickname = MakeGPError 0x0102 ''The nickname provided was incorrect.'' True"

definition ErrLoginBadEmail :: GPError where
  "ErrLoginBadEmail = MakeGPError 0x0103 ''The email address provided was incorrect.'' True"

definition ErrLoginBadPassword :: GPError where
  "ErrLoginBadPassword = MakeGPError 0x0104 ''The password provided is incorrect.'' True"

definition ErrLoginBadProfile :: GPError where
  "ErrLoginBadProfile = MakeGPError 0x0105 ''The profile provided was incorrect.'' True"

definition ErrLoginProfileDeleted :: GPError where
  "ErrLoginProfileDeleted = MakeGPError 0x0106 ''The profile has been deleted.'' True"

definition ErrLoginConnectionFailed :: GPError where
  "ErrLoginConnectionFailed = MakeGPError 0x0107 ''The server has refused the connection.'' True"

definition ErrLoginServerAuthFailed :: GPError where
  "ErrLoginServerAuthFailed = MakeGPError 0x0108 ''The server could not be authenticated.'' True"

definition ErrLoginBadUniqueNick :: GPError where
  "ErrLoginBadUniqueNick = MakeGPError 0x0109 ''The uniquenick provided is incorrect.'' True"

definition ErrLoginBadPreAuth :: GPError where
  "ErrLoginBadPreAuth = MakeGPError 0x010A ''There was an error validating the pre-authentication.'' True"

definition ErrLoginLoginTicketInvalid :: GPError where
  "ErrLoginLoginTicketInvalid = MakeGPError 0x010B ''The login ticket was unable to be validated.'' True"

definition ErrLoginLoginTicketExpired :: GPError where
  "ErrLoginLoginTicketExpired = MakeGPError 0x010C ''The login ticket had expired and could not be used.'' True"

definition ErrNewUser :: GPError where
  "ErrNewUser = MakeGPError 0x0200 ''There was an error creating a new user.'' True"

definition ErrNewUserBadNickname :: GPError where
  "ErrNewUserBadNickname = MakeGPError 0x0201 ''A profile with that nick already exists.'' True"

definition ErrNewUserBadPassword :: GPError where
  "ErrNewUserBadPassword = MakeGPError 0x0202 ''The password does not match the email address.'' True"

definition ErrNewUserUniqueNickInvalid :: GPError where
  "ErrNewUserUniqueNickInvalid = MakeGPError 0x0203 ''The uniquenick is invalid.'' True"

definition ErrNewUserUniqueNickInUse :: GPError where
  "ErrNewUserUniqueNickInUse = MakeGPError 0x0204 ''The uniquenick is already in use.'' True"

definition ErrUpdateUserInfo :: GPError where
  "ErrUpdateUserInfo = MakeGPError 0x0300 ''There was an error updating the user information.'' False"

definition ErrUpdateUserInfoBadEmail :: GPError where
  "ErrUpdateUserInfoBadEmail = MakeGPError 0x0301 ''A user with the email address provided already exists.'' False"

definition ErrNewProfile :: GPError where
  "ErrNewProfile = MakeGPError 0x0400 ''There was an error creating a new profile.'' False"

definition ErrNewProfileBadNickname :: GPError where
  "ErrNewProfileBadNickname = MakeGPError 0x0401 ''The nickname to be replaced does not exist.'' False"

definition ErrNewProfileBadOldNickname :: GPError where
  "ErrNewProfileBadOldNickname = MakeGPError 0x0402 ''A profile with the nickname provided already exists.'' False"

definition ErrUpdateProfile :: GPError where
  "ErrUpdateProfile = MakeGPError 0x0500 ''There was an error updating the profile information.'' False"

definition ErrUpdateProfileBadNickname :: GPError where
  "ErrUpdateProfileBadNickname = MakeGPError 0x0501 ''A user with the nickname provided already exists.'' False"

definition ErrAddFriend :: GPError where
  "ErrAddFriend = MakeGPError 0x0600 ''There was an error adding a buddy.'' False"

definition ErrAddFriendBadFrom :: GPError where
  "ErrAddFriendBadFrom = MakeGPError 0x0601 ''The profile requesting to add a buddy is invalid.'' False"

definition ErrAddFriendBadNew :: GPError where
  "ErrAddFriendBadNew = MakeGPError 0x0602 ''The profile requested is invalid.'' False"

definition ErrAddFriendAlreadyFriends :: GPError where
  "ErrAddFriendAlreadyFriends = MakeGPError 0x0603 ''The profile requested is already a buddy.'' False"

definition ErrAddFriendLocalBlock :: GPError where
  "ErrAddFriendLocalBlock = MakeGPError 0x0604 ''The profile requested is on the local profile's block list.'' False"

definition ErrAddFriendBlocked :: GPError where
  "ErrAddFriendBlocked = MakeGPError 0x0605 ''The profile requested is blocking you.'' False"

definition ErrAuthAdd :: GPError where
  "ErrAuthAdd = MakeGPError 0x0700 ''There was an error authorizing an add buddy request.'' False"

definition ErrAuthAddBadFrom :: GPError where
  "ErrAuthAddBadFrom = MakeGPError 0x0701 ''The profile being authorized is invalid.'' False"

definition ErrAuthAddBadSignature :: GPError where
  "ErrAuthAddBadSignature = MakeGPError 0x0702 ''The signature for the authorization is invalid.'' False"

definition ErrAuthAddLocalBlock :: GPError where
  "ErrAuthAddLocalBlock = MakeGPError 0x0703 ''The profile requesting authorization is on a block list.'' False"

definition ErrAuthAddBlocked :: GPError where
  "ErrAuthAddBlocked = MakeGPError 0x0704 ''The profile requested is blocking you.'' False"

definition ErrStatus :: GPError where
  "ErrStatus = MakeGPError 0x0800 ''There was an error with the status string.'' False"

definition ErrMessage :: GPError where
  "ErrMessage = MakeGPError 0x0900 ''There was an error sending a buddy message.'' False"

definition ErrMessageNotFriends :: GPError where
  "ErrMessageNotFriends = MakeGPError 0x0901 ''The profile the message was to be sent to is not a buddy.'' False"

definition ErrMessageExtInfoNotSupported :: GPError where
  "ErrMessageExtInfoNotSupported = MakeGPError 0x0902 ''The profile does not support extended info keys.'' False"

definition ErrMessageFriendOffline :: GPError where
  "ErrMessageFriendOffline = MakeGPError 0x0903 ''The buddy to send a message to is offline.'' False"

definition ErrGetProfile :: GPError where
  "ErrGetProfile = MakeGPError 0x0A00 ''There was an error getting profile info.'' False"

definition ErrGetProfileBadProfile :: GPError where
  "ErrGetProfileBadProfile = MakeGPError 0x0A01 ''The profile info was requested on is invalid.'' False"

definition ErrDeleteFriend :: GPError where
  "ErrDeleteFriend = MakeGPError 0x0B00 ''There was an error deleting the buddy.'' False"

definition ErrDeleteFriendNotFriends :: GPError where
  "ErrDeleteFriendNotFriends = MakeGPError 0x0B01 ''The buddy to be deleted is not a buddy.'' False"

definition ErrDeleteProfile :: GPError where
  "ErrDeleteProfile = MakeGPError 0x0C00 ''There was an error deleting the profile.'' False"

definition ErrDeleteProfileLastProfile :: GPError where
  "ErrDeleteProfileLastProfile = MakeGPError 0x0C01 ''The last profile cannot be deleted.'' False"

definition ErrSearch :: GPError where
  "ErrSearch = MakeGPError 0x0D00 ''There was an error searching for a profile.'' False"

definition ErrSearchConnectFailed :: GPError where
  "ErrSearchConnectFailed = MakeGPError 0x0D01 ''The search attempt failed to connect to the server.'' False"

definition ErrSearchTimedOut :: GPError where
  "ErrSearchTimedOut = MakeGPError 0x0D02 ''The search did not return in a timely fashion.'' False"

definition ErrCheck :: GPError where
  "ErrCheck = MakeGPError 0x0E00 ''There was an error checking the user account.'' False"

definition ErrCheckBadEmail :: GPError where
  "ErrCheckBadEmail = MakeGPError 0x0E01 ''No account exists with the provided email address.'' False"

definition ErrCheckBadNickname :: GPError where
  "ErrCheckBadNickname = MakeGPError 0x0E02 ''No such profile exists for the provided email address.'' False"

definition ErrCheckBadPassword :: GPError where
  "ErrCheckBadPassword = MakeGPError 0x0E03 ''The password is incorrect.'' False"

definition ErrRevoke :: GPError where
  "ErrRevoke = MakeGPError 0x0F00 ''There was an error revoking the buddy.'' False"

definition ErrRevokeNotFriends :: GPError where
  "ErrRevokeNotFriends = MakeGPError 0x0F01 ''You are not a buddy of the profile.'' False"

definition ErrRegisterUniqueNick :: GPError where
  "ErrRegisterUniqueNick = MakeGPError 0x1000 ''There was an error registering the uniquenick.'' False"

definition ErrRegisterUniqueNickTaken :: GPError where
  "ErrRegisterUniqueNickTaken = MakeGPError 0x1001 ''The uniquenick is already taken.'' False"

definition ErrRegisterUniqueNickReserved :: GPError where
  "ErrRegisterUniqueNickReserved = MakeGPError 0x1002 ''The uniquenick is reserved.'' False"

definition ErrRegisterUniqueNickBadNamespace :: GPError where
  "ErrRegisterUniqueNickBadNamespace = MakeGPError 0x1003 ''Tried to register a nick with no namespace set.'' False"

definition ErrRegisterCDKey :: GPError where
  "ErrRegisterCDKey = MakeGPError 0x1100 ''There was an error registering the cdkey.'' False"

definition ErrRegisterCDKeyBadKey :: GPError where
  "ErrRegisterCDKeyBadKey = MakeGPError 0x1101 ''The cdkey is invalid.'' False"

definition ErrRegisterCDKeyAlreadySet :: GPError where
  "ErrRegisterCDKeyAlreadySet = MakeGPError 0x1102 ''The profile has already been registered with a different cdkey.'' False"

definition ErrRegisterCDKeyAlreadyTaken :: GPError where
  "ErrRegisterCDKeyAlreadyTaken = MakeGPError 0x1103 ''The cdkey has already been registered to another profile.'' False"

definition ErrAddBlock :: GPError where
  "ErrAddBlock = MakeGPError 0x1200 ''There was an error adding the player to the blocked list.'' False"

definition ErrAddBlockAlreadyBlocked :: GPError where
  "ErrAddBlockAlreadyBlocked = MakeGPError 0x1201 ''The profile specified is already blocked.'' False"

definition ErrRemoveBlock :: GPError where
  "ErrRemoveBlock = MakeGPError 0x1300 ''There was an error removing the player from the blocked list.'' False"

definition ErrRemoveBlockNotBlocked :: GPError where
  "ErrRemoveBlockNotBlocked = MakeGPError 0x1301 ''The profile specified was not a member of the blocked list.'' False"

definition all_errors :: "GPError list" where
  "all_errors =
    [ErrNone, ErrGeneral, ErrParse, ErrNotLoggedIn, ErrBadSessionKey, ErrDatabase,
     ErrNetwork, ErrForcedDisconnect, ErrConnectionClosed, ErrUDPLayer, ErrLogin,
     ErrLoginTimeout, ErrLoginBadNickname, ErrLoginBadEmail, ErrLoginBadPassword,
     ErrLoginBadProfile, ErrLoginProfileDeleted, ErrLoginConnectionFailed,
     ErrLoginServerAuthFailed, ErrLoginBadUniqueNick, ErrLoginBadPreAuth,
     ErrLoginLoginTicketInvalid, ErrLoginLoginTicketExpired, ErrNewUser,
     ErrNewUserBadNickname, ErrNewUserBadPassword, ErrNewUserUniqueNickInvalid,
     ErrNewUserUniqueNickInUse, ErrUpdateUserInfo, ErrUpdateUserInfoBadEmail,
     ErrNewProfile, ErrNewProfileBadNickname, ErrNewProfileBadOldNickname,
     ErrUpdateProfile, ErrUpdateProfileBadNickname, ErrAddFriend, ErrAddFriendBadFrom,
     ErrAddFriendBadNew, ErrAddFriendAlreadyFriends, ErrAddFriendLocalBlock,
     ErrAddFriendBlocked, ErrAuthAdd, ErrAuthAddBadFrom, ErrAuthAddBadSignature,
     ErrAuthAddLocalBlock, ErrAuthAddBlocked, ErrStatus, ErrMessage, ErrMessageNotFriends,
     ErrMessageExtInfoNotSupported, ErrMessageFriendOffline, ErrGetProfile,
     ErrGetProfileBadProfile, ErrDeleteFriend, ErrDeleteFriendNotFriends, ErrDeleteProfile,
     ErrDeleteProfileLastProfile, ErrSearch, ErrSearchConnectFailed, ErrSearchTimedOut,
     ErrCheck, ErrCheckBadEmail, ErrCheckBadNickname, ErrCheckBadPassword, ErrRevoke,
     ErrRevokeNotFriends, ErrRegisterUniqueNick, ErrRegisterUniqueNickTaken,
     ErrRegisterUniqueNickReserved, ErrRegisterUniqueNickBadNamespace, ErrRegisterCDKey,
     ErrRegisterCDKeyBadKey, ErrRegisterCDKeyAlreadySet, ErrRegisterCDKeyAlreadyTaken,
     ErrAddBlock, ErrAddBlockAlreadyBlocked, ErrRemoveBlock, ErrRemoveBlockNotBlocked]"

lemmas error_defs = MakeGPError_def
  ErrNone_def ErrGeneral_def ErrParse_def ErrNotLoggedIn_def ErrBadSessionKey_def
  ErrDatabase_def ErrNetwork_def ErrForcedDisconnect_def ErrConnectionClosed_def ErrUDPLayer_def
  ErrLogin_def ErrLoginTimeout_def ErrLoginBadNickname_def ErrLoginBadEmail_def ErrLoginBadPassword_def
  ErrLoginBadProfile_def ErrLoginProfileDeleted_def ErrLoginConnectionFailed_def ErrLoginServerAuthFailed_def ErrLoginBadUniqueNick_def
  ErrLoginBadPreAuth_def ErrLoginLoginTicketInvalid_def ErrLoginLoginTicketExpired_def ErrNewUser_def ErrNewUserBadNickname_def
  ErrNewUserBadPassword_def ErrNewUserUniqueNickInvalid_def ErrNewUserUniqueNickInUse_def ErrUpdateUserInfo_def ErrUpdateUserInfoBadEmail_def
  ErrNewProfile_def ErrNewProfileBadNickname_def ErrNewProfileBadOldNickname_def ErrUpdateProfile_def ErrUpdateProfileBadNickname_def
  ErrAddFriend_def ErrAddFriendBadFrom_def ErrAddFriendBadNew_def ErrAddFriendAlreadyFriends_def ErrAddFriendLocalBlock_def
  ErrAddFriendBlocked_def ErrAuthAdd_def ErrAuthAddBadFrom_def ErrAuthAddBadSignature_def ErrAuthAddLocalBlock_def
  ErrAuthAddBlocked_def ErrStatus_def ErrMessage_def ErrMessageNotFriends_def ErrMessageExtInfoNotSupported_def
  ErrMessageFriendOffline_def ErrGetProfile_def ErrGetProfileBadProfile_def ErrDeleteFriend_def ErrDeleteFriendNotFriends_def
  ErrDeleteProfile_def ErrDeleteProfileLastProfile_def ErrSearch_def ErrSearchConnectFailed_def ErrSearchTimedOut_def
  ErrCheck_def ErrCheckBadEmail_def ErrCheckBadNickname_def ErrCheckBadPassword_def ErrRevoke_def
  ErrRevokeNotFriends_def ErrRegisterUniqueNick_def ErrRegisterUniqueNickTaken_def ErrRegisterUniqueNickReserved_def ErrRegisterUniqueNickBadNamespace_def
  ErrRegisterCDKey_def ErrRegisterCDKeyBadKey_def ErrRegisterCDKeyAlreadySet_def ErrRegisterCDKeyAlreadyTaken_def ErrAddBlock_def
  ErrAddBlockAlreadyBlocked_def ErrRemoveBlock_def ErrRemoveBlockNotBlocked_def

datatype handler_error = GP GPError | OtherError

definition error_fields :: "GPError \<Rightarrow> field list" where
  "error_fields e =
     [(''error'', GString []), (''err'', GInt 64 (ErrorCode e)), (''errmsg'', GString (ErrorString e)),
      (''fatal,omitzero'', GBool (Fatal e))]"

definition GetMessage :: "GPError \<Rightarrow> (gs_error, string) outcome" where
  "GetMessage e = Marshal (Some (error_fields e))"

subsection \<open>What a client reads\<close>

lemma error_strings: "list_all (\<lambda>e. backslash \<notin> set (ErrorString e)) all_errors"
  by (simp add: all_errors_def error_defs backslash_def)

lemma error_codes: "distinct (map ErrorCode all_errors)"
  by (simp add: all_errors_def error_defs)

lemma error_code_range: "list_all (\<lambda>e. 0 \<le> ErrorCode e \<and> ErrorCode e < 2 ^ 63) all_errors"
  by (simp add: all_errors_def error_defs)

text \<open>The error messages are unambiguous: no two errors share a code, and a client that reads the
  message of an error gets back its code, its text and whether it ends the connection.\<close>

theorem error_messages:
  assumes "e \<in> set all_errors"
  shows "distinct (map ErrorCode all_errors) \<and>
    (\<exists>msg. GetMessage e = Ret msg \<and> Unmarshal (zero_struct (error_fields e)) msg = Ret (error_fields e))"
proof -
  have "backslash \<notin> set (ErrorString e)" "0 \<le> ErrorCode e" "ErrorCode e < 2 ^ 63"
    using assms error_strings error_code_range by (auto simp: list_all_iff)
  then have ok: "struct_ok (error_fields e)"
    by (simp add: struct_ok_def error_fields_def field_ok_def tag_key_def tag_split_def backslash_def)
  then obtain msg where msg: "GetMessage e = Ret msg"
    by (auto simp: GetMessage_def struct_ok_def marshalStruct_kvs)
  then have "Unmarshal (zero_struct (error_fields e)) msg = Ret (error_fields e)"
    unfolding GetMessage_def by (rule Unmarshal_Marshal [OF ok])
  then show ?thesis using msg error_codes by blast
qed

theorem error_messages_witness:
  "\<exists>msg. GetMessage ErrLogin = Ret msg \<and>
     Unmarshal (zero_struct (error_fields ErrLogin)) msg = Ret (error_fields ErrLogin)"
proof -
  have "ErrLogin \<in> set all_errors" by (simp add: all_errors_def)
  from error_messages [OF this] show ?thesis by blast
qed

end
