(* ===== verification/MessageServer.thy ===== *)
theory MessageServer
  imports GpError
begin

text \<open>
  What the GameSpy servers over TCP share: requests end in \<open>\final\\<close>, several may arrive in one segment and
  one may arrive in several. The locale \<open>message_server\<close> is the contract of a \<open>HandlePacket\<close> that keeps
  the unfinished part in the session; the profile and the statistics servers are its instances. A call
  into the outside is a value of \<open>gs_out\<close>.
\<close>

datatype gs_out =
    Packet u64 bytes
  | CloseConn u64
  | Event string "(string \<times> string) list"

text \<open>A handler of a request type, for \<open>Handle\<close>.\<close>

type_synonym 's handler = "'s \<Rightarrow> field list \<Rightarrow> 's \<times> (handler_error, field list option) outcome"

definition maxBuffer :: nat where "maxBuffer = 0x4000"

text \<open>The non-empty pieces of \<open>strings.SplitAfter\<close>, and the name of the command of a piece.\<close>

definition messages_of :: "bytes \<Rightarrow> string list" where
  "messages_of buffer = filter (\<lambda>m. m \<noteq> []) (split_after (string_of buffer) EndDelimiter)"

definition command_of :: "string \<Rightarrow> string" where
  "command_of message = fst (cut (trim_prefix message [backslash]) [backslash])"

definition complete :: "bytes \<Rightarrow> bool" where
  "complete buffer \<longleftrightarrow> has_suffix buffer (bytes_of EndDelimiter)"

text \<open>Fields of a request by their key; the schema of the request fixes their types.\<close>

definition field_of :: "field list \<Rightarrow> string \<Rightarrow> gval" where
  "field_of fs key = (case find (\<lambda>(tag, _). tag_key tag = key) fs of None \<Rightarrow> GString [] | Some (_, v) \<Rightarrow> v)"

definition get_string :: "field list \<Rightarrow> string \<Rightarrow> string" where
  "get_string fs key = (case field_of fs key of GString s \<Rightarrow> s | _ \<Rightarrow> [])"

definition get_int :: "field list \<Rightarrow> string \<Rightarrow> int" where
  "get_int fs key = (case field_of fs key of GInt _ i \<Rightarrow> i | GUint _ n \<Rightarrow> int n | _ \<Rightarrow> 0)"

definition get_bool :: "field list \<Rightarrow> string \<Rightarrow> bool" where
  "get_bool fs key = (case field_of fs key of GBool b \<Rightarrow> b | _ \<Rightarrow> False)"

locale message_server =
  fixes buffer :: "'s \<Rightarrow> bytes"
    and store :: "bytes \<Rightarrow> 's \<Rightarrow> 's"
    and handle :: "bytes \<Rightarrow> 's \<Rightarrow> 's \<times> 'o list"
  assumes buffer_store: "buffer (store b s) = b"
    and store_store: "store b (store b' s) = store b s"
    and store_buffer: "store (buffer s) s = s"
    and handle_overflow: "maxBuffer < length (buffer s @ data) \<Longrightarrow> handle data s = (s, [])"
    and handle_incomplete:
      "length (buffer s @ data) \<le> maxBuffer \<Longrightarrow> \<not> complete (buffer s @ data) \<Longrightarrow>
         handle data s = (store (buffer s @ data) s, [])"
    and handle_joined:
      "length (buffer s @ data) \<le> maxBuffer \<Longrightarrow> handle data s = handle (buffer s @ data) (store [] s)"
begin

fun receive :: "bytes list \<Rightarrow> 's \<Rightarrow> 's \<times> 'o list" where
  "receive [] s = (s, [])"
| "receive (d # ds) s = (let (s', out) = handle d s; (s'', out') = receive ds s' in (s'', out @ out'))"

text \<open>The segments join to a request that no earlier cut completes.\<close>

fun uncut :: "bytes \<Rightarrow> bytes list \<Rightarrow> bool" where
  "uncut b [] = True"
| "uncut b [d] = True"
| "uncut b (d # ds) = (\<not> complete (b @ d) \<and> uncut (b @ d) ds)"

lemma receive_uncut:
  assumes "ds \<noteq> []" and "uncut (buffer s) ds" and "length (buffer s @ concat ds) \<le> maxBuffer"
  shows "receive ds s = handle (buffer s @ concat ds) (store [] s)"
  using assms
proof (induction ds arbitrary: s)
  case (Cons d ds)
  note prems = Cons.prems and IH = Cons.IH
  show ?case
  proof (cases ds)
    case Nil
    then show ?thesis using prems handle_joined [of s d] by (simp add: case_prod_beta)
  next
    case (Cons e es)
    let ?s1 = "store (buffer s @ d) s"
    have h: "handle d s = (?s1, [])" using prems Cons by (intro handle_incomplete) simp_all
    have "receive ds ?s1 = handle (buffer ?s1 @ concat ds) (store [] ?s1)"
      using prems Cons by (intro IH) (simp_all add: buffer_store)
    then show ?thesis by (simp add: h buffer_store store_store)
  qed
qed simp

lemma receive_segments:
  assumes "ds \<noteq> []" and "uncut [] ds" and "length (concat ds) \<le> maxBuffer" and "buffer s = []"
  shows "receive ds s = handle (concat ds) s"
  using receive_uncut [of ds s] assms store_buffer [of s] by simp

text \<open>A connection whose buffer is full and does not end a request never recovers.\<close>

lemma full_buffer_stuck:
  assumes "length (buffer s) = maxBuffer" and "list_all (\<lambda>d. d \<noteq> []) ds"
  shows "receive ds s = (s, [])"
  using assms(2)
proof (induction ds)
  case (Cons d ds)
  then have "0 < length d" by simp
  then have "handle d s = (s, [])" using assms(1) by (intro handle_overflow) (simp only: length_append)
  then show ?case using Cons by simp
qed simp

end

end
