(* ===== verification/GsCrypt.thy ===== *)
theory GsCrypt
  imports GoUtf8 GoNumbers GoCrypto GoBase64 StreamCipher GameList
begin

text \<open>
  The two ciphers of the statistics server: \<open>crypt\<close> of \<open>gamestats/main.go\<close>, which combines a message with
  a repeated key, and \<open>gamestats/dwc_crypt.go\<close>, which combines it with the output of a linear
  congruential generator under a checksum. Both are synchronous ciphers, so encrypting twice is the
  identity; the first only where the text is ASCII, as it visits code points and not bytes.
\<close>

subsection \<open>Messages\<close>

definition gs_key :: bytes where
  "gs_key = bytes_of ''GameSpy3D''"

definition position_key :: "nat \<Rightarrow> u8" where
  "position_key i = gs_key ! (i mod length gs_key)"

definition crypt :: "bytes \<Rightarrow> bytes" where
  "crypt s = map (\<lambda>(i, r). of_nat r XOR position_key i) (runes 0 s)"

interpretation xor3d: synchronous_cipher "\<lambda>i. i" position_key "\<lambda>_ _. Suc" "\<lambda>_. True"
  by unfold_locales simp_all

lemma crypt_cipher:
  assumes "ascii s"
  shows "crypt s = snd (xor3d.encrypt 0 s)"
proof -
  have "map (\<lambda>(i, r). of_nat r XOR position_key i) (runes i s) = snd (xor3d.encrypt i s)" for i
    using assms
  proof (induction s arbitrary: i)
    case (Cons b s)
    have "ascii s" "unat b < 128" using Cons.prems by (simp_all add: ascii_def)
    then show ?case using Cons.IH [of "Suc i"] by (simp add: Let_def)
  qed simp
  then show ?thesis by (simp add: crypt_def)
qed

lemma xor_below_128:
  assumes "unat (a :: u8) < 128" and "unat b < 128"
  shows "unat (a XOR b) < 128"
proof -
  have "take_bit 7 a = a" "take_bit 7 b = b"
    using assms by (simp_all add: word_unat_eq_iff unsigned_take_bit_eq take_bit_nat_eq_self)
  then have "take_bit 7 (a XOR b) = a XOR b" by (simp only: take_bit_xor)
  then have "unat (a XOR b) = take_bit 7 (unat (a XOR b))" by (metis unsigned_take_bit_eq)
  then show ?thesis using take_bit_nat_less_exp [of 7 "unat (a XOR b)"] by simp
qed

lemma gs_key_nth: "unat (position_key i) < 128"
proof -
  have "list_all (\<lambda>b. unat b < 128) gs_key" by (simp add: gs_key_def bytes_of_def)
  moreover have "i mod length gs_key < length gs_key" by (simp add: gs_key_def)
  ultimately show ?thesis by (simp add: position_key_def list_all_length)
qed

lemma ascii_encrypt: "ascii s \<Longrightarrow> ascii (snd (xor3d.encrypt i s))"
proof (induction s arbitrary: i)
  case (Cons b s)
  then show ?case using xor_below_128 [OF _ gs_key_nth] by (simp add: ascii_def Let_def)
qed simp

lemma crypt_twice: "ascii s \<Longrightarrow> crypt (crypt s) = s \<and> ascii (crypt s) \<and> length (crypt s) = length s"
  using ascii_encrypt [of s 0] xor3d.encrypt_twice [of 0 s] by (simp add: crypt_cipher xor3d.length_encrypt)

subsection \<open>Requests of the ranking library\<close>

datatype dwc_error = ErrBadChecksum | ErrBadPID | ErrBadLength | ErrNoToken | ErrBadToken | ErrBadHash

fun dwc_error_text :: "dwc_error \<Rightarrow> string" where
  "dwc_error_text ErrBadChecksum = ''error: check sum      ''"
| "dwc_error_text ErrBadPID = ''error: pid            ''"
| "dwc_error_text ErrBadLength = ''error: data length    ''"
| "dwc_error_text ErrNoToken = ''error: token not found''"
| "dwc_error_text ErrBadToken = ''error: token expired  ''"
| "dwc_error_text ErrBadHash = ''error: incorrect hash ''"

definition makeDwcToken :: "string \<Rightarrow> string \<Rightarrow> string \<Rightarrow> string \<Rightarrow> string" where
  "makeDwcToken webSalt gamename endpoint pid =
     take 32 (b64_encode URLEncoding (sha256_sum (bytes_of (webSalt @ gamename @ endpoint @ pid))))"

definition verifyDwcHash :: "string \<Rightarrow> string \<Rightarrow> string \<Rightarrow> bool" where
  "verifyDwcHash key token hash \<longleftrightarrow> hex_encode (sha1_sum (bytes_of (key @ token))) = hash"

definition makeDwcProof :: "string \<Rightarrow> bytes \<Rightarrow> string" where
  "makeDwcProof key data =
     hex_encode (sha1_sum (bytes_of (key @ b64_encode URLEncoding data @ key)))"

text \<open>One step of the generator, and the byte it gives.\<close>

definition lcg_step :: "stats_info \<Rightarrow> u32 \<Rightarrow> u32" where
  "lcg_step keys seed = (seed * Multiplier keys + Increment keys) mod Modulus keys"

definition lcg_byte :: "u32 \<Rightarrow> u8" where
  "lcg_byte seed = ucast (drop_bit 16 seed)"

fun dwc_decode :: "stats_info \<Rightarrow> u32 \<Rightarrow> bytes \<Rightarrow> bytes" where
  "dwc_decode keys seed [] = []"
| "dwc_decode keys seed (b # bs) =
     (let seed' = lcg_step keys seed in (b XOR lcg_byte seed') # dwc_decode keys seed' bs)"

definition byte_sum :: "bytes \<Rightarrow> u32" where
  "byte_sum bs = foldl (\<lambda>a b. a + ucast b) 0 bs"

definition dwc_seed :: "u32 \<Rightarrow> u32" where
  "dwc_seed checksum = (let s = checksum AND 0xFFFF in s OR push_bit 16 s)"

text \<open>A modulus of zero is a division by zero.\<close>

definition decryptDwc :: "stats_info \<Rightarrow> bytes \<Rightarrow> (dwc_error, u32 \<times> bytes \<times> bool) outcome" where
  "decryptDwc keys data =
     (if length data < 8 then Err ErrBadLength
      else if Modulus keys = 0 then Panic
      else
        let checksum = of_nat (uint_be (take 4 data)) XOR ChecksumMask keys;
            decoded = dwc_decode keys (dwc_seed checksum) (drop 4 data)
        in if byte_sum decoded \<noteq> checksum then Err ErrBadChecksum
           else
             let pid = of_nat (uint_be (rev (take 4 decoded))) in
             if 8 \<le> length decoded \<and> uint_be (rev (subslice 4 8 decoded)) = length decoded - 8
             then Ret (pid, drop 8 decoded, True)
             else Ret (pid, drop 4 decoded, False))"

interpretation lcg: synchronous_cipher "lcg_step keys" lcg_byte "\<lambda>_ _ s. s" "\<lambda>_. True" for keys
  by unfold_locales simp_all

lemma dwc_decode_cipher: "dwc_decode keys seed bs = snd (lcg.encrypt keys seed bs)"
  by (induction keys seed bs rule: dwc_decode.induct) (simp_all add: Let_def)

text \<open>What a client sends: the old form, and the new one that asks for a proof.\<close>

definition dwc_plain :: "u32 \<Rightarrow> bytes \<Rightarrow> bool \<Rightarrow> bytes" where
  "dwc_plain pid data new = le32 pid @ (if new then le32 (of_nat (length data)) else []) @ data"

definition encryptDwc :: "stats_info \<Rightarrow> u32 \<Rightarrow> bytes \<Rightarrow> bool \<Rightarrow> bytes" where
  "encryptDwc keys pid data new =
     (let plain = dwc_plain pid data new; checksum = byte_sum plain
      in be32 (checksum XOR ChecksumMask keys) @ dwc_decode keys (dwc_seed checksum) plain)"

definition old_form :: "bytes \<Rightarrow> bool" where
  "old_form data \<longleftrightarrow> 4 \<le> length data \<and> uint_be (rev (take 4 data)) \<noteq> length data - 4"

lemma decryptDwc_encryptDwc:
  assumes m: "Modulus keys \<noteq> 0" and new: "new \<Longrightarrow> length data < 2 ^ 32" and old: "\<not> new \<Longrightarrow> old_form data"
  shows "decryptDwc keys (encryptDwc keys pid data new) = Ret (pid, data, new)"
proof -
  define plain where "plain = dwc_plain pid data new"
  define checksum where "checksum = byte_sum plain"
  define body where "body = dwc_decode keys (dwc_seed checksum) plain"
  have e: "encryptDwc keys pid data new = be32 (checksum XOR ChecksumMask keys) @ body"
    by (simp add: encryptDwc_def Let_def plain_def checksum_def body_def)
  have len: "length body = length plain" by (simp add: body_def dwc_decode_cipher lcg.length_encrypt)
  have l8: "8 \<le> length plain"
    using old by (cases new) (auto simp: plain_def dwc_plain_def old_form_def)
  have c: "of_nat (uint_be (take 4 (be32 (checksum XOR ChecksumMask keys) @ body))) XOR ChecksumMask keys = checksum"
    by (simp add: uint_be_be32 xor.assoc)
  have d: "dwc_decode keys (dwc_seed checksum) (drop 4 (be32 (checksum XOR ChecksumMask keys) @ body)) = plain"
    by (simp add: body_def dwc_decode_cipher lcg.encrypt_twice)
  have "decryptDwc keys (encryptDwc keys pid data new) =
      (if 8 \<le> length plain \<and> uint_be (rev (subslice 4 8 plain)) = length plain - 8
       then Ret (of_nat (uint_be (rev (take 4 plain))), drop 8 plain, True)
       else Ret (of_nat (uint_be (rev (take 4 plain))), drop 4 plain, False))"
    unfolding e decryptDwc_def Let_def c d checksum_def [symmetric] using m len l8 by simp
  moreover have "of_nat (uint_be (rev (take 4 plain))) = pid"
    by (simp add: plain_def dwc_plain_def)
  moreover have "new \<Longrightarrow> uint_be (rev (subslice 4 8 plain)) = length plain - 8"
    using new by (simp add: plain_def dwc_plain_def subslice_def le32_def uint_be_be32 unat_of_nat)
  moreover have "\<not> new \<Longrightarrow> uint_be (rev (subslice 4 8 plain)) \<noteq> length plain - 8"
    using old by (simp add: plain_def dwc_plain_def subslice_def old_form_def)
  ultimately show ?thesis using l8 by (cases new) (simp_all add: plain_def dwc_plain_def)
qed

end
