(* ===== verification/GameStats.thy ===== *)
theory GameStats
  imports MessageServer GsCrypt AuthToken Database
begin

text \<open>
  The statistics server (\<open>gamestats/\<close>): the connection handler of \<open>main.go\<close> with its requests \<open>auth\<close>,
  \<open>authp\<close>, \<open>getpd\<close> and \<open>setpd\<close>. A session is mutable state behind a pointer in the code; here each
  handler returns the session and the database it leaves, also when it fails. \<open>gs_env\<close> is what a call reads
  from elsewhere: the game list, the token keys, the clock, the random number and whether the RPC to the
  front end succeeds.
\<close>

record gs_env =
  games :: game_list
  tokens :: token_env
  now :: int               \<comment> \<open>nanoseconds\<close>
  rnd :: nat               \<comment> \<open>\<open>rand.Int31n(290000000)\<close>\<close>
  rnd_challenge :: string  \<comment> \<open>\<open>common.RandomString(10)\<close>\<close>
  send_ok :: bool
  webSalt :: string

record gs_session =
  ConnIndex :: u64
  RemoteAddr :: string
  ModuleName :: string
  Challenge :: string
  SessionKey :: int
  GameName :: string
  gameInfo :: "game_info option"
  Authenticated :: bool
  LocalID :: int
  Profile :: profile
  ReadBuffer :: bytes
  WriteBuffer :: bytes

type_synonym gs_state = "gs_session \<times> db"

definition zero_profile :: profile where
  "zero_profile = \<lparr>ProfileID = 0, WFCID = 0, GsbrCode = [], FirstName = [], LastName = []\<rparr>"

definition PrivateRead :: int where "PrivateRead = 0"
definition PrivateReadWrite :: int where "PrivateReadWrite = 1"
definition PublicRead :: int where "PublicRead = 2"
definition PublicReadWrite :: int where "PublicReadWrite = 3"

subsection \<open>Logging in\<close>

definition challenge_number :: "string \<Rightarrow> u32" where
  "challenge_number challenge = foldl (\<lambda>num b. num * of_int (- 1664117991) + ucast b) 0 (bytes_of challenge)"

definition AuthRequest :: "field list" where
  "AuthRequest = [(''auth'', GString []), (''gamename'', GString []), (''response'', GString []),
     (''port'', GUint 16 0), (''id'', GInt 64 0)]"

definition AuthResponse :: "int \<Rightarrow> int \<Rightarrow> string \<Rightarrow> int \<Rightarrow> field list" where
  "AuthResponse command sesskey prf i =
     [(''lc'', GInt 64 command), (''sesskey'', GInt 32 sesskey), (''proof'', GString prf), (''id'', GInt 64 i)]"

definition auth_response :: "string \<Rightarrow> string \<Rightarrow> string" where
  "auth_response challenge secret =
     hex_encode (md5_sum (bytes_of (format_int (sint (challenge_number challenge))) @ bytes_of secret))"

definition auth :: "gs_env \<Rightarrow> gs_state handler" where
  "auth env st req = (case st of (s, d) \<Rightarrow>
     case GetGameInfoByName (games env) (get_string req ''gamename'') of
       None \<Rightarrow> (st, Err (GP ErrDatabase))
     | Some game \<Rightarrow>
         if get_string req ''response'' \<noteq> auth_response (Challenge s) (SecretKey game)
         then (st, Err (GP ErrLoginBadPreAuth))
         else
           let key = int (rnd env) + 10000000
           in ((s\<lparr>SessionKey := key, GameName := get_string req ''gamename'', gameInfo := Some game\<rparr>, d),
               Ret (Some (AuthResponse 2 key ''0'' (get_int req ''id'')))))"

definition AuthProfileRequest :: "field list" where
  "AuthProfileRequest = [(''authp'', GString []), (''authtoken'', GString []), (''resp'', GString []),
     (''lid'', GInt 64 0)]"

definition AuthProfileResponse :: "u32 \<Rightarrow> int \<Rightarrow> string \<Rightarrow> field list" where
  "AuthProfileResponse command lid msg =
     [(''pauthr'', GUint 32 (unat command)), (''lid'', GInt 64 lid), (''errmsg,omitzero'', GString msg)]"

text \<open>On an error of the database the profile of the session is the zero value, but a session that was
  authenticated stays so.\<close>

definition authProfile :: "gs_env \<Rightarrow> gs_state handler" where
  "authProfile env st req = (case st of (s, d) \<Rightarrow>
     let lid = get_int req ''lid'';
         errMsg = AuthProfileResponse 0 lid ''Invalid Validation'';
         s = s\<lparr>LocalID := lid\<rparr>
     in case unmarshal_token (tokens env) (now env) (get_string req ''authtoken'') of
          Err _ \<Rightarrow> ((s, d), Ret (Some errMsg))
        | Panic \<Rightarrow> ((s, d), Panic)
        | Ret t \<Rightarrow>
            (case GetProfile (token_ProfileID t) d of
               Err _ \<Rightarrow> ((s\<lparr>Profile := zero_profile\<rparr>, d), Ret (Some errMsg))
             | Panic \<Rightarrow> ((s, d), Panic)
             | Ret p \<Rightarrow>
                 ((s\<lparr>Profile := p, ModuleName := ''GSTATS:'' @ format_uint (unat (ProfileID p)),
                     Authenticated := True\<rparr>, d),
                  Ret (Some (AuthProfileResponse (ProfileID p) lid [])))))"

subsection \<open>Persistent data\<close>

definition GetPersistDataRequest :: "field list" where
  "GetPersistDataRequest = [(''getpd'', GString []), (''pid'', GUint 32 0), (''ptype'', GInt 64 0),
     (''dindex'', GInt 64 0), (''kv'', GBool False), (''keys'', GString []), (''lid'', GInt 64 0),
     (''mod'', GInt 64 0)]"

definition GetPersistDataResponse :: "bool \<Rightarrow> int \<Rightarrow> u32 \<Rightarrow> int \<Rightarrow> string \<Rightarrow> field list" where
  "GetPersistDataResponse success lid pid modified data =
     [(''getpdr'', GBool success), (''lid'', GInt 64 lid), (''pid'', GUint 32 (unat pid)),
      (''mod'', GInt 64 modified), (''length'', GInt 64 (int (length data))), (''data,raw'', GString data)]"

definition pid_of :: "field list \<Rightarrow> u32" where
  "pid_of req = of_int (get_int req ''pid'')"

text \<open>The failure response; the success response does not set the local identifier.\<close>

definition persist_read :: "field list \<Rightarrow> db \<Rightarrow> (db_error, string \<times> int) outcome" where
  "persist_read req d =
     (if get_bool req ''kv''
      then bind_outcome
             (GetGameStatsPersistDataKV (pid_of req) (get_int req ''ptype'') (get_int req ''dindex'')
               (Some (split_char (char_of (1 :: nat)) (get_string req ''keys''))) d)
             (\<lambda>(kvs, modified). Ret (Encode kvs, modified))
      else GetGameStatsPersistData (pid_of req) (get_int req ''ptype'') (get_int req ''dindex'') d)"

definition getPersistData :: "gs_env \<Rightarrow> gs_state handler" where
  "getPersistData env st req = (case st of (s, d) \<Rightarrow>
     let ptype = get_int req ''ptype'';
         errMsg = GetPersistDataResponse False (get_int req ''lid'') (pid_of req) 0 []
     in if \<not> Authenticated s then (st, Err (GP ErrNotLoggedIn))
        else if 3 < ptype \<or> (ptype \<noteq> PublicReadWrite \<and> ptype \<noteq> PrivateReadWrite) then (st, Ret (Some errMsg))
        else if (ptype = PrivateRead \<or> ptype = PrivateReadWrite) \<and> pid_of req \<noteq> ProfileID (Profile s)
        then (st, Ret (Some errMsg))
        else case persist_read req d of
          Err _ \<Rightarrow> (st, Ret (Some errMsg))
        | Panic \<Rightarrow> (st, Panic)
        | Ret (data, modified) \<Rightarrow>
            let data' = (if get_int req ''mod'' \<noteq> 0 \<and> modified < get_int req ''mod'' then [] else data)
            in (st, Ret (Some (GetPersistDataResponse True 0 (pid_of req) modified data'))))"

definition SetPersistDataRequest :: "field list" where
  "SetPersistDataRequest = [(''setpd'', GString []), (''pid'', GUint 32 0), (''ptype'', GInt 64 0),
     (''dindex'', GInt 64 0), (''kv'', GBool False), (''lid'', GInt 64 0), (''length'', GInt 64 0),
     (''data,raw'', GString [])]"

definition SetPersistDataResponse :: "bool \<Rightarrow> int \<Rightarrow> u32 \<Rightarrow> int \<Rightarrow> field list" where
  "SetPersistDataResponse success lid pid modified =
     [(''setpdr'', GBool success), (''lid'', GInt 64 lid), (''pid'', GUint 32 (unat pid)),
      (''mod'', GInt 64 modified)]"

definition nul :: char where "nul = char_of (0 :: nat)"

definition persist_write :: "int \<Rightarrow> u32 \<Rightarrow> field list \<Rightarrow> string \<Rightarrow> db \<Rightarrow> (db_error, db \<times> int) outcome" where
  "persist_write t pid req data d =
     (if get_bool req ''kv''
      then SetGameStatsPersistDataKV t pid (get_int req ''ptype'') (get_int req ''dindex'') (KeyValuesFromString data) d
      else SetGameStatsPersistData t pid (get_int req ''ptype'') (get_int req ''dindex'') data d)"

definition setPersistData :: "gs_env \<Rightarrow> gs_state handler" where
  "setPersistData env st req = (case st of (s, d) \<Rightarrow>
     let ptype = get_int req ''ptype'';
         errMsg = SetPersistDataResponse False (get_int req ''lid'') (pid_of req) 0;
         data = trim_suffix (get_string req ''data'') [nul]
     in if \<not> Authenticated s then (st, Err (GP ErrNotLoggedIn))
        else if pid_of req \<noteq> ProfileID (Profile s) then (st, Ret (Some errMsg))
        else if ptype \<noteq> PublicReadWrite \<and> ptype \<noteq> PrivateReadWrite then (st, Ret (Some errMsg))
        else if nul \<in> set data then (st, Ret (Some errMsg))
        else case persist_write (unix (now env)) (ProfileID (Profile s)) req data d of
          Err _ \<Rightarrow> (st, Ret (Some errMsg))
        | Panic \<Rightarrow> (st, Panic)
        | Ret (d', modified) \<Rightarrow>
            ((s, d'), Ret (Some (SetPersistDataResponse True (get_int req ''lid'') (pid_of req) modified))))"

subsection \<open>Dispatch\<close>

text \<open>
  \<open>handlers["ka"]\<close> is the keep-alive of the profile server: after the request is decoded, the assertion
  that the state is that server's session fails, a panic.
\<close>

definition keepAlive :: "gs_env \<Rightarrow> gs_state handler" where
  "keepAlive env st req = (st, Panic)"

definition KARequest :: "field list" where
  "KARequest = [(''ka'', GString [])]"

definition handlers ::
  "gs_env \<Rightarrow> string \<Rightarrow> (gs_state \<Rightarrow> string \<Rightarrow> gs_state \<times> (handler_error, string) outcome) option" where
  "handlers env command =
     (if command = ''ka'' then Some (Handle KARequest (keepAlive env) (\<lambda>_. OtherError))
      else if command = ''auth'' then Some (Handle AuthRequest (auth env) (\<lambda>_. OtherError))
      else if command = ''authp'' then Some (Handle AuthProfileRequest (authProfile env) (\<lambda>_. OtherError))
      else if command = ''getpd'' then Some (Handle GetPersistDataRequest (getPersistData env) (\<lambda>_. OtherError))
      else if command = ''setpd'' then Some (Handle SetPersistDataRequest (setPersistData env) (\<lambda>_. OtherError))
      else None)"

definition crypt_text :: "string \<Rightarrow> string" where
  "crypt_text s = string_of (crypt (bytes_of s))"

definition read_message :: "string \<Rightarrow> string" where
  "read_message s = crypt_text (trim_suffix s EndDelimiter) @ EndDelimiter"

definition write_message :: "string \<Rightarrow> gs_session \<Rightarrow> gs_session" where
  "write_message msg s =
     s\<lparr>WriteBuffer := WriteBuffer s @ bytes_of (crypt_text (trim_suffix msg EndDelimiter) @ EndDelimiter)\<rparr>"

text \<open>Error messages are sent at once and in the clear.\<close>

definition replyError :: "gs_env \<Rightarrow> gs_session \<Rightarrow> GPError \<Rightarrow> gs_out list" where
  "replyError env s e =
     (case GetMessage e of
        Ret msg \<Rightarrow> Packet (ConnIndex s) (bytes_of msg) #
          (if Fatal e \<or> \<not> send_ok env then [CloseConn (ConnIndex s)] else [])
      | _ \<Rightarrow> [])"

text \<open>One message of the loop, and the loop; the last component tells that it panicked.\<close>

definition one_message :: "gs_env \<Rightarrow> string \<Rightarrow> gs_state \<Rightarrow> gs_state \<times> gs_out list \<times> bool" where
  "one_message env message st =
     (let message = read_message message in
      case handlers env (command_of message) of
        None \<Rightarrow> (st, [], False)
      | Some handler \<Rightarrow>
          (case handler st message of
             (st', Ret resp) \<Rightarrow> ((write_message resp (fst st'), snd st'), [], False)
           | (st', Err (GP e)) \<Rightarrow> (st', replyError env (fst st') e, False)
           | (st', Err OtherError) \<Rightarrow> (st', [], False)
           | (st', Panic) \<Rightarrow> (st', [], True)))"

fun all_messages :: "gs_env \<Rightarrow> string list \<Rightarrow> gs_state \<Rightarrow> gs_state \<times> gs_out list \<times> bool" where
  "all_messages env [] st = (st, [], False)"
| "all_messages env (m # ms) st =
     (case one_message env m st of
        (st', out, True) \<Rightarrow> (st', out, True)
      | (st', out, False) \<Rightarrow>
          (case all_messages env ms st' of (st'', out', p) \<Rightarrow> (st'', out @ out', p)))"

definition store_buffer :: "bytes \<Rightarrow> gs_state \<Rightarrow> gs_state" where
  "store_buffer b st = (fst st\<lparr>ReadBuffer := b\<rparr>, snd st)"

definition flush :: "gs_env \<Rightarrow> gs_state \<Rightarrow> gs_state \<times> gs_out list" where
  "flush env st =
     (let s = fst st in
      if WriteBuffer s = [] then (st, [])
      else ((if send_ok env then s\<lparr>WriteBuffer := []\<rparr> else s, snd st), [Packet (ConnIndex s) (WriteBuffer s)]))"

text \<open>\<open>HandlePacket\<close> for a session that exists. A panic is logged by the deferred function and leaves both
  buffers as they are.\<close>

definition handle_data :: "gs_env \<Rightarrow> bytes \<Rightarrow> gs_state \<Rightarrow> gs_state \<times> gs_out list" where
  "handle_data env data st =
     (let joined = ReadBuffer (fst st) @ data in
      if maxBuffer < length joined then (st, [])
      else
        let st = store_buffer joined st in
        if \<not> complete joined then (st, [])
        else case all_messages env (messages_of joined) st of
          (st', out, True) \<Rightarrow> (st', out)
        | (st', out, False) \<Rightarrow> (case flush env (store_buffer [] st') of (st'', out') \<Rightarrow> (st'', out @ out')))"

record gs_server =
  sessionsByConnIndex :: "u64 \<rightharpoonup> gs_session"
  database :: db

definition HandlePacket :: "gs_env \<Rightarrow> u64 \<Rightarrow> bytes \<Rightarrow> gs_server \<Rightarrow> gs_server \<times> gs_out list" where
  "HandlePacket env index data srv =
     (case sessionsByConnIndex srv index of
        None \<Rightarrow> (srv, [])
      | Some s \<Rightarrow>
          (case handle_data env data (s, database srv) of
             ((s', d'), out) \<Rightarrow>
               (srv\<lparr>sessionsByConnIndex := (sessionsByConnIndex srv)(index \<mapsto> s'), database := d'\<rparr>, out)))"

definition ChallengeRequest :: "int \<Rightarrow> string \<Rightarrow> int \<Rightarrow> field list" where
  "ChallengeRequest command challenge i =
     [(''lc'', GInt 64 command), (''challenge'', GString challenge), (''id'', GInt 64 i)]"

definition new_session :: "gs_env \<Rightarrow> u64 \<Rightarrow> string \<Rightarrow> gs_session" where
  "new_session env index address =
     \<lparr>ConnIndex = index, RemoteAddr = address, ModuleName = ''GSTATS:'' @ address, Challenge = rnd_challenge env,
      SessionKey = 0, GameName = [], gameInfo = None, Authenticated = False, LocalID = 0,
      Profile = zero_profile, ReadBuffer = [], WriteBuffer = []\<rparr>"

definition NewConnection :: "gs_env \<Rightarrow> u64 \<Rightarrow> string \<Rightarrow> gs_server \<Rightarrow> gs_server \<times> gs_out list" where
  "NewConnection env index address srv =
     (let s = new_session env index address in
      case Marshal (Some (ChallengeRequest 1 (Challenge s) 1)) of
        Ret msg \<Rightarrow>
          (srv\<lparr>sessionsByConnIndex := (sessionsByConnIndex srv)(index \<mapsto> s)\<rparr>,
           [Packet index (WriteBuffer (write_message msg s))])
      | _ \<Rightarrow> (srv, []))"

definition CloseConnection :: "u64 \<Rightarrow> gs_server \<Rightarrow> gs_server" where
  "CloseConnection index srv = srv\<lparr>sessionsByConnIndex := (sessionsByConnIndex srv)(index := None)\<rparr>"

subsection \<open>Segments\<close>

interpretation gs: message_server "\<lambda>st. ReadBuffer (fst st)" store_buffer "handle_data env" for env
proof unfold_locales
  fix b b' :: bytes and st :: gs_state
  show "ReadBuffer (fst (store_buffer b st)) = b" by (simp add: store_buffer_def)
  show "store_buffer b (store_buffer b' st) = store_buffer b st" by (simp add: store_buffer_def)
  show "store_buffer (ReadBuffer (fst st)) st = st" by (simp add: store_buffer_def)
next
  fix st :: gs_state and data :: bytes
  show "maxBuffer < length (ReadBuffer (fst st) @ data) \<Longrightarrow> handle_data env data st = (st, [])"
    by (simp only: handle_data_def Let_def if_True)
  show "length (ReadBuffer (fst st) @ data) \<le> maxBuffer \<Longrightarrow> \<not> complete (ReadBuffer (fst st) @ data) \<Longrightarrow>
      handle_data env data st = (store_buffer (ReadBuffer (fst st) @ data) st, [])"
    by (simp add: handle_data_def Let_def)
  show "length (ReadBuffer (fst st) @ data) \<le> maxBuffer \<Longrightarrow>
      handle_data env data st = handle_data env (ReadBuffer (fst st) @ data) (store_buffer [] st)"
    by (simp add: handle_data_def Let_def store_buffer_def)
qed

subsection \<open>A keep-alive\<close>

definition ka_request :: bytes where
  "ka_request = bytes_of (crypt_text (backslash # ''ka'' @ [backslash]) @ EndDelimiter)"

lemma ka_request_eq: "ka_request = [0x1B, 0x0A, 0x0C, 0x39, 0x5C, 0x66, 0x69, 0x6E, 0x61, 0x6C, 0x5C]"
  by code_simp

lemma ka_delimiter: "index_of (string_of ka_request) EndDelimiter = Some 4"
  by code_simp

lemma ka_first: "messages_of (ka_request @ t) = string_of ka_request # messages_of t"
proof -
  have i: "index_of (string_of ka_request @ string_of t) EndDelimiter = Some 4"
    using ka_delimiter by (rule index_of_append)
  have l: "length (string_of ka_request) = 4 + length EndDelimiter" "EndDelimiter \<noteq> []"
    by (simp_all add: ka_request_eq string_of_def EndDelimiter_def)
  have "split_after (string_of ka_request @ string_of t) EndDelimiter =
      string_of ka_request # split_after (string_of t) EndDelimiter"
    by (subst split_after.simps) (simp add: i l(2) l(1) [symmetric])
  then show ?thesis by (simp add: messages_of_def string_of_append) (simp add: ka_request_eq string_of_def)
qed

lemma ka_message:
  "command_of (read_message (string_of ka_request)) = ''ka''"
  "Unmarshal KARequest (read_message (string_of ka_request)) = Ret KARequest"
  by code_simp+

lemma ka_panics: "one_message env (string_of ka_request) st = (st, [], True)"
  by (simp add: one_message_def Let_def ka_message handlers_def Handle_def keepAlive_def)

lemma wedged:
  assumes "ReadBuffer (fst st) @ data = ka_request @ t"
  shows "handle_data env data st = (if maxBuffer < length (ka_request @ t) then st else store_buffer (ka_request @ t) st, [])"
  unfolding handle_data_def Let_def assms ka_first all_messages.simps ka_panics by simp

lemma wedged_run:
  "ReadBuffer (fst st) = ka_request @ t \<Longrightarrow>
     \<exists>t'. gs.receive env ds st = (store_buffer (ka_request @ t') st, [])"
proof (induction ds arbitrary: st t)
  case Nil
  then have "store_buffer (ka_request @ t) st = st" using gs.store_buffer [of st] by simp
  then show ?case by (auto intro: exI [of _ t])
next
  case (Cons d ds)
  have h: "handle_data env d st = (if maxBuffer < length (ka_request @ t @ d) then st else store_buffer (ka_request @ t @ d) st, [])"
    using Cons.prems by (intro wedged) simp
  show ?case
  proof (cases "maxBuffer < length (ka_request @ t @ d)")
    case True
    then show ?thesis using Cons.IH [OF Cons.prems] h by auto
  next
    case False
    let ?st = "store_buffer (ka_request @ t @ d) st"
    have "ReadBuffer (fst ?st) = ka_request @ t @ d" by (rule gs.buffer_store)
    from Cons.IH [OF this] obtain t' where "gs.receive env ds ?st = (store_buffer (ka_request @ t') ?st, [])" by blast
    then show ?thesis using h False by (auto simp: gs.store_store)
  qed
qed

text \<open>A keep-alive ends the service of a statistics connection: the handler table sends it to the
  profile server's handler, which panics on the session of another type, and as the buffer is only
  emptied after the loop every later segment meets the same request again. Nothing is ever answered
  on the connection any more, and nothing but its buffer changes.\<close>

theorem keep_alive_wedges:
  assumes "ReadBuffer (fst st) = []"
  shows "\<exists>t. gs.receive env (ka_request # ds) st = (store_buffer (ka_request @ t) st, [])"
proof -
  let ?st = "store_buffer ka_request st"
  have "handle_data env ka_request st = (?st, [])"
    using wedged [of st ka_request "[]" env] assms by (simp add: ka_request_eq maxBuffer_def)
  moreover have "ReadBuffer (fst ?st) = ka_request @ []" using gs.buffer_store by simp
  ultimately show ?thesis
    using wedged_run [of ?st "[]" env ds] by (auto simp: gs.store_store)
qed

lemma persist_read_total: "persist_read req d \<noteq> Panic"
  by (auto simp: persist_read_def GetGameStatsPersistDataKV_def GetGameStatsPersistData_def online_def
      bind_outcome_Panic_iff split: if_splits option.splits outcome.splits db_error.splits)

text \<open>What one request can do to the database.\<close>

definition own_row :: "db \<Rightarrow> gs_session \<Rightarrow> u32 \<times> int \<times> int \<Rightarrow> bool" where
  "own_row d s k \<longleftrightarrow> has_profile d (fst k) \<and> Authenticated s \<and> fst k = ProfileID (Profile s) \<and> fst (snd k) \<in> {PrivateReadWrite, PublicReadWrite}"

definition only_rows :: "(u32 \<times> int \<times> int \<Rightarrow> bool) \<Rightarrow> db \<Rightarrow> db \<Rightarrow> bool" where
  "only_rows p d d' \<longleftrightarrow> d' = d\<lparr>persistdata := persistdata d'\<rparr> \<and>
     (\<forall>k. \<not> p k \<longrightarrow> map_of (persistdata d') k = map_of (persistdata d) k)"

lemma only_rows_refl [simp]: "only_rows p d d"
  by (simp add: only_rows_def)

lemma only_rows_trans: "only_rows p d d' \<Longrightarrow> only_rows p d' d'' \<Longrightarrow> only_rows p d d''"
  unfolding only_rows_def by (metis (no_types, lifting) db.surjective db.update_convs(6))

lemma only_rows_mono: "only_rows p d d' \<Longrightarrow> (\<And>k. p k \<Longrightarrow> q k) \<Longrightarrow> only_rows q d d'"
  unfolding only_rows_def by blast

lemma persist_write_rows:
  assumes "persist_write t pid req data d = Ret (d', m)"
  shows "only_rows (\<lambda>k. has_profile d pid \<and> k = (pid, get_int req ''ptype'', get_int req ''dindex'')) d d'"
  using assms
  by (auto simp: persist_write_def SetGameStatsPersistDataKV_def SetGameStatsPersistData_def only_rows_def update_conv has_profile_def
      split: if_splits)

lemma setPersistData_rows:
  assumes "setPersistData env (s, d) req = ((s', d'), r)"
  shows "s' = s \<and> only_rows (own_row d s) d d'"
  using assms
  by (auto simp: setPersistData_def Let_def own_row_def split: if_splits outcome.splits
      intro!: only_rows_mono [OF persist_write_rows])

lemma other_handlers_db:
  "auth env (s, d) req = ((s', d'), r) \<Longrightarrow> d' = d"
  "getPersistData env (s, d) req = ((s', d'), r) \<Longrightarrow> s' = s \<and> d' = d"
  "authProfile env (s, d) req = ((s', d'), r) \<Longrightarrow> d' = d"
  by (auto simp: auth_def getPersistData_def authProfile_def Let_def split: if_splits outcome.splits option.splits)

lemma auth_identity:
  "auth env (s, d) req = ((s', d'), r) \<Longrightarrow> Authenticated s' = Authenticated s \<and> Profile s' = Profile s"
  by (auto simp: auth_def Let_def split: if_splits option.splits)

definition proves_profile :: "gs_env \<Rightarrow> string \<Rightarrow> u32 \<Rightarrow> bool" where
  "proves_profile env message pid \<longleftrightarrow>
     command_of (read_message message) = ''authp'' \<and>
     (case Unmarshal AuthProfileRequest (read_message message) of
        Ret req \<Rightarrow>
          (case unmarshal_token (tokens env) (now env) (get_string req ''authtoken'') of
             Ret t \<Rightarrow> token_ProfileID t = pid
           | _ \<Rightarrow> False)
      | _ \<Rightarrow> False)"

definition identity :: "gs_session \<Rightarrow> u32 option" where
  "identity s = (if Authenticated s then Some (ProfileID (Profile s)) else None)"

lemma identity_authProfile:
  assumes "authProfile env (s, d) req = ((s', d'), r)"
  shows "identity s' = identity s \<or> identity s' = None \<or> identity s' = Some 0 \<or>
    (\<exists>t. unmarshal_token (tokens env) (now env) (get_string req ''authtoken'') = Ret t \<and> identity s' = Some (token_ProfileID t))"
  using assms
  by (auto simp: authProfile_def Let_def identity_def zero_profile_def GetProfile_def profile_of_def
      split: outcome.splits option.splits if_splits)

lemma identity_auth: "auth env (s, d) req = ((s', d'), r) \<Longrightarrow> identity s' = identity s"
  by (auto simp: auth_def Let_def identity_def split: if_splits option.splits)

lemma Handle_cases:
  assumes "Handle schema h l st msg = (st', r)"
  obtains "st' = st" | req r' where "Unmarshal schema msg = Ret req" "h st req = (st', r')"
  using assms by (auto simp: Handle_def split: outcome.splits prod.splits)

definition allowed :: "gs_env \<Rightarrow> string list \<Rightarrow> db \<Rightarrow> gs_session \<Rightarrow> u32 \<times> int \<times> int \<Rightarrow> bool" where
  "allowed env ms d s k \<longleftrightarrow> has_profile d (fst k) \<and> fst (snd k) \<in> {PrivateReadWrite, PublicReadWrite} \<and>
     (identity s = Some (fst k) \<or> fst k = 0 \<or> list_ex (\<lambda>m. proves_profile env m (fst k)) ms)"

definition gs_effect :: "gs_env \<Rightarrow> string list \<Rightarrow> gs_state \<Rightarrow> gs_state \<Rightarrow> bool" where
  "gs_effect env ms st st' \<longleftrightarrow> only_rows (allowed env ms (snd st) (fst st)) (snd st) (snd st') \<and>
     identity (fst st') \<in> {identity (fst st), None, Some 0} \<union> {Some pid |pid. list_ex (\<lambda>m. proves_profile env m pid) ms}"

lemma gs_effect_refl [simp]: "gs_effect env ms st st"
  by (simp add: gs_effect_def)

lemma only_rows_has_profile: "only_rows p d d' \<Longrightarrow> has_profile d' = has_profile d"
  unfolding only_rows_def by (intro ext) (metis db.select_convs(3) db.surjective db.update_convs(6) has_profile_cong)

lemma gs_effect_trans:
  assumes "gs_effect env ms st st'" and "gs_effect env ns st' st''"
  shows "gs_effect env (ms @ ns) st st''"
proof -
  have e: "has_profile (snd st') = has_profile (snd st)"
    using assms(1) by (auto simp: gs_effect_def only_rows_has_profile)
  have "only_rows (allowed env (ms @ ns) (snd st) (fst st)) (snd st) (snd st')"
    using assms(1) unfolding gs_effect_def by (auto elim!: only_rows_mono simp: allowed_def)
  moreover have "only_rows (allowed env (ms @ ns) (snd st) (fst st)) (snd st') (snd st'')"
    using assms unfolding gs_effect_def
    by (auto elim!: only_rows_mono simp: allowed_def e)
  ultimately show ?thesis
    using assms only_rows_trans unfolding gs_effect_def by auto
qed

lemma Handle_effect:
  assumes "Handle schema h l st msg = (st', r)"
    and "\<And>req r'. Unmarshal schema msg = Ret req \<Longrightarrow> h st req = (st', r') \<Longrightarrow> gs_effect env ms st st'"
  shows "gs_effect env ms st st'"
  using assms(1) by (rule Handle_cases) (use assms(2) in auto)

lemma own_row_allowed: "only_rows (own_row d s) d d' \<Longrightarrow> only_rows (allowed env ms d s) d d'"
  by (erule only_rows_mono) (auto simp: own_row_def allowed_def identity_def)

lemma handler_effect:
  assumes c: "handlers env (command_of (read_message m)) = Some h" and h: "h st (read_message m) = (st', r)"
  shows "gs_effect env [m] st st'"
proof -
  obtain s d s' d' where st: "st = (s, d)" "st' = (s', d')" by (metis surj_pair)
  note cmds = c [unfolded handlers_def]
  consider "h = Handle KARequest (keepAlive env) (\<lambda>_. OtherError)"
    | "h = Handle AuthRequest (auth env) (\<lambda>_. OtherError)"
    | "command_of (read_message m) = ''authp''" "h = Handle AuthProfileRequest (authProfile env) (\<lambda>_. OtherError)"
    | "h = Handle GetPersistDataRequest (getPersistData env) (\<lambda>_. OtherError)"
    | "h = Handle SetPersistDataRequest (setPersistData env) (\<lambda>_. OtherError)"
    using cmds by (auto split: if_splits)
  then show ?thesis
  proof cases
    case 1
    then show ?thesis using h by (auto elim!: Handle_effect simp: keepAlive_def)
  next
    case 2
    have "gs_effect env [m] st st'" if "auth env st req = (st', r')" for req r'
      using that st other_handlers_db(1) [of env s d req s' d' r'] identity_auth [of env s d req s' d' r']
      by (auto simp: gs_effect_def)
    then show ?thesis using h 2 by (auto elim!: Handle_effect)
  next
    case 3
    have "gs_effect env [m] st st'" if "Unmarshal AuthProfileRequest (read_message m) = Ret req"
      and "authProfile env st req = (st', r')" for req r'
      using that 3 identity_authProfile [of env s d req s' d' r'] other_handlers_db(3) [of env s d req s' d' r'] st
      by (auto simp: gs_effect_def proves_profile_def)
    then show ?thesis using h 3 by (auto elim!: Handle_effect)
  next
    case 4
    have "gs_effect env [m] st st'" if "getPersistData env st req = (st', r')" for req r'
      using that st other_handlers_db(2) [of env s d req s' d' r'] by (auto simp: gs_effect_def)
    then show ?thesis using h 4 by (auto elim!: Handle_effect)
  next
    case 5
    have "gs_effect env [m] st st'" if "setPersistData env st req = (st', r')" for req r'
      using setPersistData_rows [of env s d req s' d' r'] that st by (auto simp: gs_effect_def own_row_allowed)
    then show ?thesis using h 5 by (auto elim!: Handle_effect)
  qed
qed

lemma identity_buffers [simp]:
  "identity (s\<lparr>ReadBuffer := b\<rparr>) = identity s" "identity (s\<lparr>WriteBuffer := b\<rparr>) = identity s"
  by (simp_all add: identity_def)

lemma allowed_buffer [simp]: "allowed env ms d (s\<lparr>ReadBuffer := b\<rparr>) = allowed env ms d s"
  by (simp add: allowed_def fun_eq_iff)

lemma gs_effect_buffers:
  "gs_effect env ms (store_buffer b st) st' = gs_effect env ms st st'"
  "gs_effect env ms st (store_buffer b st') = gs_effect env ms st st'"
  "gs_effect env ms st (fst (flush env st')) = gs_effect env ms st st'"
  by (simp_all add: gs_effect_def store_buffer_def flush_def Let_def)

lemma one_message_effect:
  assumes "one_message env m st = (st', out, p)"
  shows "gs_effect env [m] st st'"
proof (cases "handlers env (command_of (read_message m))")
  case None
  then show ?thesis using assms by (simp add: one_message_def)
next
  case (Some h)
  obtain st1 r where h: "h st (read_message m) = (st1, r)" by (metis surj_pair)
  have e: "gs_effect env [m] st st1" using Some h by (rule handler_effect)
  then have w: "gs_effect env [m] st (write_message msg (fst st1), snd st1)" for msg
    by (simp add: gs_effect_def write_message_def)
  show ?thesis
    using assms e w Some h
    by (auto simp: one_message_def Let_def split: outcome.splits handler_error.splits)
qed

lemma all_messages_effect: "all_messages env ms st = (st', out, p) \<Longrightarrow> gs_effect env ms st st'"
proof (induction ms arbitrary: st out)
  case (Cons m ms)
  obtain st1 out1 p1 where m: "one_message env m st = (st1, out1, p1)" by (metis prod_cases3)
  then have e: "gs_effect env [m] st st1" by (rule one_message_effect)
  show ?case
  proof (cases p1)
    case True
    then have "st' = st1" using m Cons.prems by simp
    then show ?thesis using gs_effect_trans [OF e, of ms st1] by simp
  next
    case False
    then obtain out2 where "all_messages env ms st1 = (st', out2, p)"
      using m Cons.prems by (auto split: prod.splits)
    from gs_effect_trans [OF e Cons.IH [OF this]] show ?thesis by simp
  qed
qed simp

lemma handle_data_effect:
  assumes "handle_data env data st = (st', out)"
  shows "gs_effect env (messages_of (ReadBuffer (fst st) @ data)) st st'"
proof -
  let ?joined = "ReadBuffer (fst st) @ data"
  let ?st = "store_buffer ?joined st"
  obtain st1 out1 p where a: "all_messages env (messages_of ?joined) ?st = (st1, out1, p)" by (metis prod_cases3)
  then have e: "gs_effect env (messages_of ?joined) st st1"
    using all_messages_effect gs_effect_buffers(1) by metis
  obtain st2 out2 where f: "flush env (store_buffer [] st1) = (st2, out2)" by (metis surj_pair)
  then have "gs_effect env (messages_of ?joined) st st2" using e gs_effect_buffers(2,3) by (metis fst_conv)
  then show ?thesis
    using assms e a f by (auto simp: handle_data_def Let_def gs_effect_buffers split: if_splits bool.splits)
qed

text \<open>C15. Only the owner changes stored statistics: a row that one packet changes holds private or public
  data of the profile its connection is authenticated for, or of a profile for which the packet
  itself presents a valid token.\<close>

theorem persist_rows_protected:
  assumes "HandlePacket env index data srv = (srv', out)" and "\<not> has_profile (database srv) 0"
    and "map_of (persistdata (database srv')) (pid, t, i) \<noteq> map_of (persistdata (database srv)) (pid, t, i)"
  shows "\<exists>s. sessionsByConnIndex srv index = Some s \<and> t \<in> {PrivateReadWrite, PublicReadWrite} \<and>
    (identity s = Some pid \<or> list_ex (\<lambda>m. proves_profile env m pid) (messages_of (ReadBuffer s @ data)))"
proof -
  obtain s where s: "sessionsByConnIndex srv index = Some s"
    using assms(1,3) by (cases "sessionsByConnIndex srv index") (auto simp: HandlePacket_def)
  obtain s' d' out' where h: "handle_data env data (s, database srv) = ((s', d'), out')" by (metis prod.collapse)
  have d': "database srv' = d'" using assms(1) s h by (auto simp: HandlePacket_def)
  have "only_rows (allowed env (messages_of (ReadBuffer s @ data)) (database srv) s) (database srv) d'"
    using handle_data_effect [OF h] by (simp add: gs_effect_def)
  then have "allowed env (messages_of (ReadBuffer s @ data)) (database srv) s (pid, t, i)"
    using assms(3) d' unfolding only_rows_def by metis
  then show ?thesis using s assms(2) by (auto simp: allowed_def)
qed

definition set_fields :: "u32 \<Rightarrow> int \<Rightarrow> int \<Rightarrow> string \<Rightarrow> field list" where
  "set_fields pid ptype dindex data =
     [(''setpd'', GString []), (''pid'', GUint 32 (unat pid)), (''ptype'', GInt 64 ptype),
      (''dindex'', GInt 64 dindex), (''kv'', GBool False), (''lid'', GInt 64 0),
      (''length'', GInt 64 (int (length data))), (''data,raw'', GString data)]"

definition get_fields :: "u32 \<Rightarrow> int \<Rightarrow> int \<Rightarrow> field list" where
  "get_fields pid ptype dindex =
     [(''getpd'', GString []), (''pid'', GUint 32 (unat pid)), (''ptype'', GInt 64 ptype),
      (''dindex'', GInt 64 dindex), (''kv'', GBool False), (''keys'', GString []), (''lid'', GInt 64 0),
      (''mod'', GInt 64 0)]"

lemma tag_keys [simp]:
  "tag_key ''pid'' = ''pid''" "tag_key ''ptype'' = ''ptype''" "tag_key ''dindex'' = ''dindex''"
  "tag_key ''kv'' = ''kv''" "tag_key ''lid'' = ''lid''" "tag_key ''mod'' = ''mod''" "tag_key ''length'' = ''length''"
  "tag_key ''data,raw'' = ''data''" "tag_key ''setpd'' = ''setpd''" "tag_key ''getpd'' = ''getpd''"
  "tag_key ''keys'' = ''keys''" "tag_key ''setpdr'' = ''setpdr''"
  by (simp_all add: tag_key_def tag_split_def)

lemmas field_getters = get_string_def get_int_def get_bool_def field_of_def pid_of_def

lemma set_fields_simps [simp]:
  "pid_of (set_fields pid t i x) = pid" "get_int (set_fields pid t i x) ''ptype'' = t"
  "get_int (set_fields pid t i x) ''dindex'' = i" "get_int (set_fields pid t i x) ''lid'' = 0"
  "get_string (set_fields pid t i x) ''data'' = x" "get_bool (set_fields pid t i x) ''kv'' = False"
  by (simp_all add: set_fields_def field_getters)

lemma get_fields_simps [simp]:
  "pid_of (get_fields pid t i) = pid" "get_int (get_fields pid t i) ''ptype'' = t"
  "get_int (get_fields pid t i) ''dindex'' = i" "get_int (get_fields pid t i) ''lid'' = 0"
  "get_int (get_fields pid t i) ''mod'' = 0" "get_bool (get_fields pid t i) ''kv'' = False"
  by (simp_all add: get_fields_def field_getters)

lemma trim_nul: "c \<notin> set s \<Longrightarrow> trim_suffix s [c] = s"
  using in_set_dropD [of c "length s - 1" s] by (auto simp: trim_suffix_def has_suffix_def)

text \<open>The check that keeps private data private is ineffective: what a profile stores as private under
  index 3 is handed, as its public data under index 1, to every authenticated session.\<close>

theorem private_data_leaks:
  assumes "up d" and "has_profile d (ProfileID (Profile s))" and "Authenticated s" and "Authenticated s2"
    and "length data \<le> 65535" and "nul \<notin> set data"
  shows "\<exists>d'. setPersistData env (s, d) (set_fields (ProfileID (Profile s)) PrivateReadWrite 3 data) =
      ((s, d'), Ret (Some (SetPersistDataResponse True 0 (ProfileID (Profile s)) (unix (now env))))) \<and>
    getPersistData env (s2, d') (get_fields (ProfileID (Profile s)) PublicReadWrite 1) =
      ((s2, d'), Ret (Some (GetPersistDataResponse True 0 (ProfileID (Profile s)) (unix (now env)) data)))"
  using assms
  by (auto simp: setPersistData_def getPersistData_def Let_def trim_nul persist_write_def persist_read_def
      SetGameStatsPersistData_def GetGameStatsPersistData_def persist_columns_ok_def has_profile_def
      PublicReadWrite_def PrivateReadWrite_def PrivateRead_def update_conv online_def)

text \<open>How TCP cuts a request into segments does not matter to the statistics server: as long as no cut
  falls behind a delimiter and the request fits the buffer, the segments have the effect and the
  answers of the whole.\<close>

theorem gs_segments:
  assumes "ds \<noteq> []" and "gs.uncut [] ds" and "length (concat ds) \<le> maxBuffer" and "ReadBuffer (fst st) = []"
  shows "gs.receive env ds st = handle_data env (concat ds) st"
  using assms by (rule gs.receive_segments)

text \<open>A server with one session that is logged in.\<close>

definition sample_gs_env :: gs_env where
  "sample_gs_env = \<lparr>games = empty_games, tokens = \<lparr>env_key = [], env_iv = [], env_magic = []\<rparr>, now = 5 * second,
     rnd = 0, rnd_challenge = ''ABCDEFGHIJ'', send_ok = True, webSalt = []\<rparr>"

definition sample_session :: gs_session where
  "sample_session = (new_session sample_gs_env 9 ''10.0.0.1:1234'')\<lparr>Authenticated := True,
     Profile := \<lparr>ProfileID = 1, WFCID = 5, GsbrCode = ''RMCJ'', FirstName = [], LastName = []\<rparr>\<rparr>"

definition sample_gs :: gs_server where
  "sample_gs = \<lparr>sessionsByConnIndex = [9 \<mapsto> sample_session], database = sample_db\<rparr>"

definition sample_setpd :: string where
  "sample_setpd = [backslash] @ ''setpd'' @ [backslash, backslash] @ ''pid'' @ [backslash] @ ''1'' @ [backslash] @
     ''ptype'' @ [backslash] @ ''3''"

definition sample_packet :: bytes where
  "sample_packet = bytes_of (crypt_text sample_setpd @ EndDelimiter)"

lemma sample_packet_eq:
  "sample_packet = [0x1b, 0x12, 0x8, 0x11, 0x23, 0x14, 0x25, 0x6f, 0x34, 0x2e, 0x5, 0x31, 0x54, 0xf, 0x0, 0xd,
     0x4a, 0x34, 0x22, 0x3d, 0x5e, 0x5c, 0x66, 0x69, 0x6e, 0x61, 0x6c, 0x5c]"
  by code_simp

lemma sample_message: "messages_of sample_packet = [string_of sample_packet]" "complete sample_packet"
  unfolding sample_packet_eq by code_simp+

lemma sample_read: "read_message (string_of sample_packet) = sample_setpd @ EndDelimiter"
proof -
  have "ascii (bytes_of sample_setpd)" by code_simp
  then have "crypt_text (crypt_text sample_setpd) = sample_setpd" by (simp add: crypt_text_def crypt_twice)
  then show ?thesis by (simp add: read_message_def sample_packet_def)
qed

lemma sample_command: "command_of (sample_setpd @ EndDelimiter) = ''setpd''"
  by code_simp

lemma sample_kvs:
  "cut_suffix (sample_setpd @ EndDelimiter) EndDelimiter = Some sample_setpd"
  "KeyValuesFromString sample_setpd = [\<lparr>kv_K = ''setpd'', kv_V = []\<rparr>, \<lparr>kv_K = ''pid'', kv_V = ''1''\<rparr>, \<lparr>kv_K = ''ptype'', kv_V = ''3''\<rparr>]"
  "field_text sample_setpd kvs ''data,raw'' = sample_setpd"
  by (simp add: cut_suffix_def has_suffix_def, code_simp, code_simp)

lemma sample_fields:
  "Unmarshal SetPersistDataRequest (sample_setpd @ EndDelimiter) =
     Ret [(''setpd'', GString []), (''pid'', GUint 32 1), (''ptype'', GInt 64 3), (''dindex'', GInt 64 0),
       (''kv'', GBool False), (''lid'', GInt 64 0), (''length'', GInt 64 0), (''data,raw'', GString sample_setpd)]"
  unfolding Unmarshal_def sample_kvs(1) option.case sample_kvs(2) SetPersistDataRequest_def
  by (simp only: unmarshal_fields.simps sample_kvs(3) Let_def) (simp add: field_text_def tag_split_def tag_key_def parse_uint_def parse_int_def digit_val_def sample_setpd_def)

lemma sample_set:
  "persistdata (database (fst (HandlePacket sample_gs_env 9 sample_packet sample_gs))) =
     [((1, 3, 0), \<lparr>pd_data = sample_setpd, pd_modified = 5\<rparr>)]"
proof -
  have h: "handlers env ''setpd'' = Some (Handle SetPersistDataRequest (setPersistData env) (\<lambda>_. OtherError))" for env
    by (simp add: handlers_def)
  have n: "nul \<notin> set sample_setpd" by code_simp
  have l: "length sample_setpd = 21" by code_simp
  have b: "\<not> maxBuffer < length sample_packet" by (simp add: maxBuffer_def sample_packet_eq)
  have m: "fst (snd (one_message sample_gs_env (string_of sample_packet) (s, sample_db))) = [] \<and>
      snd (snd (one_message sample_gs_env (string_of sample_packet) (s, sample_db))) = False \<and>
      persistdata (snd (fst (one_message sample_gs_env (string_of sample_packet) (s, sample_db)))) =
        [((1, 3, 0), \<lparr>pd_data = sample_setpd, pd_modified = 5\<rparr>)]" if "Authenticated s" "ProfileID (Profile s) = 1" for s
    unfolding one_message_def Let_def sample_read sample_command h option.case Handle_def sample_fields outcome.case
    using that n l
    by (simp add: setPersistData_def Let_def field_getters persist_write_def SetGameStatsPersistData_def
        sample_db_def PublicReadWrite_def PrivateReadWrite_def persist_columns_ok_def trim_nul online_def
        sample_gs_env_def unix_def second_def SetPersistDataResponse_def tag_key_def tag_split_def)
  show ?thesis
    using m [of "fst (store_buffer sample_packet (sample_session, sample_db))"] b sample_message
    by (auto simp: HandlePacket_def handle_data_def Let_def sample_gs_def sample_session_def new_session_def
        store_buffer_def flush_def split: prod.splits)
qed

theorem private_data_leaks_witness:
  "\<exists>d'. setPersistData sample_gs_env (sample_session, sample_db) (set_fields 1 PrivateReadWrite 3 ''x'') =
      ((sample_session, d'), Ret (Some (SetPersistDataResponse True 0 1 5))) \<and>
    getPersistData sample_gs_env (sample_session, d') (get_fields 1 PublicReadWrite 1) =
      ((sample_session, d'), Ret (Some (GetPersistDataResponse True 0 1 5 ''x'')))"
  using private_data_leaks [of sample_db sample_session sample_session "''x''" sample_gs_env]
  by (simp add: sample_db_def has_profile_def sample_session_def nul_def sample_gs_env_def unix_def second_def
      char_of_eq_iff)

theorem gs_segments_witness:
  "gs.receive sample_gs_env [take 3 ka_request, drop 3 ka_request] (new_session sample_gs_env 9 [], sample_db) =
     handle_data sample_gs_env ka_request (new_session sample_gs_env 9 [], sample_db)"
  using gs_segments [of "[take 3 ka_request, drop 3 ka_request]" "(new_session sample_gs_env 9 [], sample_db)" sample_gs_env]
  by (simp add: ka_request_eq new_session_def maxBuffer_def complete_def has_suffix_def bytes_of_def EndDelimiter_def)

theorem keep_alive_wedges_witness:
  "\<exists>t. gs.receive sample_gs_env (ka_request # [sample_packet]) (sample_session, sample_db) =
     (store_buffer (ka_request @ t) (sample_session, sample_db), [])"
  by (rule keep_alive_wedges) (simp add: sample_session_def new_session_def)

theorem persist_rows_protected_witness:
  "\<exists>s. sessionsByConnIndex sample_gs 9 = Some s \<and> 3 \<in> {PrivateReadWrite, PublicReadWrite} \<and>
    (identity s = Some 1 \<or> list_ex (\<lambda>m. proves_profile sample_gs_env m 1) (messages_of (ReadBuffer s @ sample_packet)))"
proof (rule persist_rows_protected)
  show "HandlePacket sample_gs_env 9 sample_packet sample_gs =
    (fst (HandlePacket sample_gs_env 9 sample_packet sample_gs), snd (HandlePacket sample_gs_env 9 sample_packet sample_gs))"
    by simp
  show "\<not> has_profile (database sample_gs) 0"
    by (simp add: sample_gs_def has_profile_def sample_db_def)
  show "map_of (persistdata (database (fst (HandlePacket sample_gs_env 9 sample_packet sample_gs)))) (1, 3, 0) \<noteq>
      map_of (persistdata (database sample_gs)) (1, 3, 0)"
    unfolding sample_set by (simp add: sample_gs_def sample_db_def)
qed

subsection \<open>Restarts\<close>

text \<open>
  \<open>Shutdown\<close> writes all sessions. \<open>StartServer\<close> reads them back and looks up the game of each by its name; a session whose game
  is unknown, as one that has not authenticated yet, is closed and forgotten.
\<close>

definition saveGameStats :: "gs_server \<Rightarrow> (u64 \<rightharpoonup> gs_session)" where
  "saveGameStats srv = sessionsByConnIndex srv"

definition loadGameStats :: "game_list \<Rightarrow> (u64 \<rightharpoonup> gs_session) \<Rightarrow> db \<Rightarrow> gs_server" where
  "loadGameStats gl file d =
     \<lparr>sessionsByConnIndex = (\<lambda>i. case file i of
          None \<Rightarrow> None
        | Some s \<Rightarrow> (case GetGameInfoByName gl (GameName s) of
            None \<Rightarrow> None
          | Some info \<Rightarrow> Some (s\<lparr>gameInfo := Some info\<rparr>))),
      database = d\<rparr>"

definition closed_on_load :: "game_list \<Rightarrow> (u64 \<rightharpoonup> gs_session) \<Rightarrow> u64 \<Rightarrow> bool" where
  "closed_on_load gl file i \<longleftrightarrow>
     (case file i of None \<Rightarrow> False | Some s \<Rightarrow> GetGameInfoByName gl (GameName s) = None)"

text \<open>A session that knows its game is the same after a restart; every other connection is closed.\<close>

lemma gamestats_restart:
  assumes "sessionsByConnIndex srv i = Some s" and "gameInfo s = GetGameInfoByName gl (GameName s)"
  shows "sessionsByConnIndex (loadGameStats gl (saveGameStats srv) d) i = (if gameInfo s = None then None else Some s) \<and>
    (closed_on_load gl (saveGameStats srv) i \<longleftrightarrow> gameInfo s = None)"
  using assms by (auto simp: loadGameStats_def saveGameStats_def closed_on_load_def split: option.splits)

end
