(* ===== verification/DwcRankings.thy ===== *)
theory DwcRankings
  imports GameStats
begin

text \<open>
  The ranking library of the statistics server (\<open>gamestats/dwc.go\<close>, \<open>gamestats/web.go\<close>): requests over HTTP
  that carry a token, a proof that the client knows the game's key, and an encrypted body. A response is
  the list of its bytes, empty where the code returns nil.
\<close>

record dwc_request =
  q_gamename :: string   \<comment> \<open>\<open>PathValue\<close>\<close>
  q_endpoint :: string
  q_pid :: string        \<comment> \<open>\<open>FormValue\<close>\<close>
  q_hash :: string
  q_data :: string

type_synonym dwc_handler = "game_info \<Rightarrow> u32 \<Rightarrow> bytes \<Rightarrow> db \<Rightarrow> db \<times> bytes"

definition error_bytes :: "dwc_error \<Rightarrow> bytes" where
  "error_bytes e = bytes_of (dwc_error_text e)"

definition handleDwc ::
  "gs_env \<Rightarrow> dwc_handler \<Rightarrow> dwc_request \<Rightarrow> game_info \<Rightarrow> db \<Rightarrow> (dwc_error, db \<times> bytes) outcome" where
  "handleDwc env handler r game d =
     (if q_hash r = [] \<and> q_data r \<noteq> [] then Ret (d, error_bytes ErrNoToken)
      else
        let token = makeDwcToken (webSalt env) (q_gamename r) (q_endpoint r) (q_pid r) in
        if q_hash r = [] then Ret (d, bytes_of token)
        else if \<not> verifyDwcHash (Key (Stats game)) token (q_hash r) then Ret (d, error_bytes ErrBadHash)
        else case b64_decode URLEncoding (q_data r) of
          None \<Rightarrow> Ret (d, [])
        | Some data \<Rightarrow>
            (case decryptDwc (Stats game) data of
               Panic \<Rightarrow> Panic
             | Err e \<Rightarrow> Ret (d, error_bytes e)
             | Ret (pid, data, needsProof) \<Rightarrow>
                 if format_uint (unat pid) \<noteq> q_pid r then Ret (d, error_bytes ErrBadPID)
                 else case handler game pid data d of
                   (d', response) \<Rightarrow>
                     Ret (d', response @ (if needsProof then bytes_of (makeDwcProof (Key (Stats game)) response) else []))))"

subsection \<open>Reading a ranking\<close>

text \<open>\<open>binary.Read\<close> of one number: at the end of the data the variable keeps its value, 0.\<close>

definition read_le32 :: "nat \<Rightarrow> bytes \<Rightarrow> u32" where
  "read_le32 i data = (case get_le32 (drop (4 * i) data) of None \<Rightarrow> 0 | Some w \<Rightarrow> w)"

definition rank_mode_of :: "u32 \<Rightarrow> rank_mode option" where
  "rank_mode_of w =
     (if w = 0 then Some DwcRankOrder else if w = 1 then Some DwcRankTop else if w = 2 then Some DwcRankNear
      else if w = 3 then Some DwcRankFriends else if w = 4 then Some DwcRankNearHigh
      else if w = 5 then Some DwcRankNearLow else None)"

definition minute :: int where "minute = 60 * second"

text \<open>\<open>time.Now().Add(-time.Minute * time.Duration(since))\<close>, the product in 64 bits, as the first whole second
  that is not before it; the columns it is compared with hold whole seconds.\<close>

definition since_time :: "int \<Rightarrow> u32 \<Rightarrow> int" where
  "since_time t since =
     (if since = 0 then zero_time
      else - ((- (t + sint (of_int (- minute * int (unat since)) :: u64))) div second))"

text \<open>The friends that follow in the request are read into a slice of length 0 and so never arrive.\<close>

definition rank_args :: "rank_mode \<Rightarrow> bytes \<Rightarrow> u32 \<times> u32 \<times> u32 \<times> u32 list" where
  "rank_args mode data =
     (if mode = DwcRankOrder then (read_le32 4 data, 0, read_le32 5 data, [])
      else (read_le32 4 data, read_le32 5 data, read_le32 6 data, []))"

definition entry_bytes :: "int \<Rightarrow> ranking_entry \<Rightarrow> bytes" where
  "entry_bytes t e =
     (let padding = (4 - length (e_Data e) mod 4) mod 4 in
      le32 (of_int (e_Order e)) @ le32 (e_ProfileID e) @ le32 (of_int (e_Score e)) @ le32 (of_int (e_Region e)) @
      le32 (of_int (max ((t - e_Created e * second) div minute) 0)) @
      le32 (of_nat (length (e_Data e) + padding)) @ e_Data e @ replicate padding 0)"

definition rank_body :: "int \<Rightarrow> rank_mode \<Rightarrow> ranking_entry list \<Rightarrow> nat \<Rightarrow> bytes" where
  "rank_body t mode entries cnt =
     (if mode = DwcRankOrder then le32 (of_int (e_Order (hd entries))) @ le32 (of_nat cnt)
      else le32 (of_nat (length entries)) @ le32 (of_nat cnt) @ concat (map (entry_bytes t) entries))"

definition dwcRankGet :: "gs_env \<Rightarrow> dwc_handler" where
  "dwcRankGet env game pid data d =
     (if length data < 16 then (d, [])
      else
        let region = read_le32 0 data; category = read_le32 1 data; code = read_le32 2 data in
        case rank_mode_of code of
          None \<Rightarrow> (d, [])
        | Some mode \<Rightarrow>
            (case rank_args mode data of
               (srt, limit, since, pids) \<Rightarrow>
                 if mode \<noteq> DwcRankOrder \<and> (limit < 1 \<or> 30 < limit) then (d, [])
                 else case GetDwcRankings (Name game) pid (uint region) (uint category) mode (srt = 1)
                             (since_time (now env) since) (uint limit) (filter (\<lambda>p. p \<noteq> 0) pids) d of
                   Ret (entries, cnt) \<Rightarrow>
                     let body = rank_body (now env) mode entries cnt
                     in (d, le32 (of_nat (length body)) @ le32 code @ body)
                 | _ \<Rightarrow> (d, [])))"

subsection \<open>Writing a ranking\<close>

definition dwcRankPut :: "gs_env \<Rightarrow> dwc_handler" where
  "dwcRankPut env game pid data d =
     (if length data < 16 then (d, [])
      else
        let region = read_le32 0 data; category = read_le32 1 data; score = read_le32 2 data;
            dataLen = unat (read_le32 3 data)
        in if length (drop 16 data) < dataLen then (d, [])
           else case InsertDwcRanking (unix (now env)) (Name game) pid (uint region) (uint category) (sint score)
                       (take dataLen (drop 16 data)) d of
             Ret d' \<Rightarrow> (d', bytes_of ''done'')
           | _ \<Rightarrow> (d, []))"

text \<open>\<open>HandleWebRequest\<close>: the body of the response, or the status 404.\<close>

definition HandleWebRequest :: "gs_env \<Rightarrow> dwc_request \<Rightarrow> db \<Rightarrow> (dwc_error, db \<times> bytes option) outcome" where
  "HandleWebRequest env r d =
     (case GetGameInfoByName (games env) (q_gamename r) of
        None \<Rightarrow> Ret (d, None)
      | Some game \<Rightarrow>
          let reply = (\<lambda>handler. bind_outcome (handleDwc env handler r game d) (\<lambda>(d', b). Ret (d', Some b)))
          in if q_endpoint r \<in> {''web/client/get.asp'', ''web/client/get2.asp''} then reply (dwcRankGet env)
             else if q_endpoint r \<in> {''web/client/put.asp'', ''web/client/put2.asp''} then reply (dwcRankPut env)
             else Ret (d, Some []))"

subsection \<open>A client\<close>

definition dwc_client :: "gs_env \<Rightarrow> string \<Rightarrow> game_info \<Rightarrow> u32 \<Rightarrow> bytes \<Rightarrow> bool \<Rightarrow> dwc_request" where
  "dwc_client env endpoint game pid data new =
     (let who = format_uint (unat pid); token = makeDwcToken (webSalt env) (Name game) endpoint who
      in \<lparr>q_gamename = Name game, q_endpoint = endpoint, q_pid = who,
          q_hash = hex_encode (sha1_sum (bytes_of (Key (Stats game) @ token))),
          q_data = b64_encode URLEncoding (encryptDwc (Stats game) pid data new)\<rparr>)"

lemma hex_encode_length: "length (hex_encode b) = 2 * length b"
  by (induction b) (simp_all add: hex_encode_def)

text \<open>A client that computes the hash from the token the server gave it and encrypts its request with the
  game's parameters is served: the handler sees the profile and the data that were sent, and the new form
  of the request gets the proof appended to the answer.\<close>

theorem dwc_client_served:
  assumes "Modulus (Stats game) \<noteq> 0" and "new \<Longrightarrow> length data < 2 ^ 32" and "\<not> new \<Longrightarrow> old_form data"
  shows "handleDwc env handler (dwc_client env endpoint game pid data new) game d =
    (case handler game pid data d of (d', response) \<Rightarrow>
       Ret (d', response @ (if new then bytes_of (makeDwcProof (Key (Stats game)) response) else [])))"
proof -
  let ?r = "dwc_client env endpoint game pid data new"
  have "length (q_hash ?r) = 40" by (simp add: dwc_client_def Let_def hex_encode_length)
  then have h: "q_hash ?r \<noteq> []" by auto
  have v: "verifyDwcHash (Key (Stats game)) (makeDwcToken (webSalt env) (q_gamename ?r) (q_endpoint ?r) (q_pid ?r)) (q_hash ?r)"
    by (simp add: dwc_client_def Let_def verifyDwcHash_def)
  have d: "b64_decode URLEncoding (q_data ?r) = Some (encryptDwc (Stats game) pid data new)"
    by (simp add: dwc_client_def Let_def b64_url.decode_encode)
  have p: "q_pid ?r = format_uint (unat pid)" by (simp add: dwc_client_def Let_def)
  show ?thesis
    using h v d p decryptDwc_encryptDwc [OF assms] by (simp add: handleDwc_def Let_def split: prod.splits)
qed

definition sample_stats :: stats_info where
  "sample_stats = \<lparr>Key = ''9Bz'', Multiplier = 0x41C64E6D, Increment = 0x3039, Modulus = 0x7FFFFFFF, ChecksumMask = 0x2B7E\<rparr>"

definition sample_game :: game_info where
  "sample_game = \<lparr>ID = 7, Name = ''mariokartwii'', SecretKey = ''9r3Rmy'', Stats = sample_stats, Description = []\<rparr>"

theorem dwc_client_served_witness:
  "handleDwc sample_gs_env (dwcRankGet sample_gs_env)
      (dwc_client sample_gs_env ''web/client/get.asp'' sample_game 1 (replicate 16 0) False) sample_game sample_db =
    (case dwcRankGet sample_gs_env sample_game 1 (replicate 16 0) sample_db of (d', response) \<Rightarrow> Ret (d', response))"
proof -
  have "old_form (replicate 16 0)" by code_simp
  moreover have "Modulus (Stats sample_game) \<noteq> 0" by (simp add: sample_game_def sample_stats_def)
  ultimately show ?thesis
    using dwc_client_served [of sample_game False "replicate 16 0" sample_gs_env "dwcRankGet sample_gs_env"
      "''web/client/get.asp''" 1 sample_db] by simp
qed

subsection \<open>What the requests do\<close>

definition put_data :: "u32 \<Rightarrow> u32 \<Rightarrow> u32 \<Rightarrow> bytes \<Rightarrow> bytes" where
  "put_data region category score body =
     le32 region @ le32 category @ le32 score @ le32 (of_nat (length body)) @ body"

lemma read_le32_nth: "length p = 4 * i \<Longrightarrow> read_le32 i (p @ le32 w @ s) = w"
  by (simp add: read_le32_def)

lemma put_fields:
  "read_le32 0 (put_data region category score body) = region"
  "read_le32 (Suc 0) (put_data region category score body) = category"
  "read_le32 2 (put_data region category score body) = score"
  "read_le32 3 (put_data region category score body) = of_nat (length body)"
  using read_le32_nth [of "[]" 0 region] read_le32_nth [of "le32 region" 1 category]
    read_le32_nth [of "le32 region @ le32 category" 2 score]
    read_le32_nth [of "le32 region @ le32 category @ le32 score" 3 "of_nat (length body)" body]
  by (simp_all add: put_data_def)

lemma drop_put_data: "drop 16 (put_data region category score body) = body"
  by (simp add: put_data_def)

text \<open>A score a client submits is stored: the request for the path \<open>put.asp\<close> is answered with \<open>done\<close> and
  the proof, and the board then has exactly one row of the player in that region and category, with the
  submitted score and data; rows of other players, games and categories stay.\<close>

theorem dwc_put_recorded:
  assumes g: "GetGameInfoByName (games env) (Name game) = Some game" and m: "Modulus (Stats game) \<noteq> 0"
    and d: "up d" "has_profile d pid" and l: "length body \<le> 65535" and nm: "tinytext_ok (Name game)"
  shows "\<exists>d'. HandleWebRequest env (dwc_client env ''web/client/put.asp'' game pid (put_data region category score body) True) d =
      Ret (d', Some (bytes_of ''done'' @ bytes_of (makeDwcProof (Key (Stats game)) (bytes_of ''done'')))) \<and>
    filter (\<lambda>r. collate (r_gamename r) = collate (Name game) \<and> r_pid r = pid \<and>
        r_region r = uint region \<and> r_category r = uint category) (rankings d') =
      [\<lparr>r_gamename = Name game, r_pid = pid, r_region = uint region, r_category = uint category,
        r_score = sint score, r_data = body, r_updated = unix (now env)\<rparr>] \<and>
    (\<forall>r. \<not> (collate (r_gamename r) = collate (Name game) \<and> r_pid r = pid \<and> r_region r = uint region \<and>
        r_category r = uint category) \<longrightarrow> (r \<in> set (rankings d') \<longleftrightarrow> r \<in> set (rankings d)))"
proof -
  let ?data = "put_data region category score body"
  let ?row = "\<lparr>r_gamename = Name game, r_pid = pid, r_region = uint region, r_category = uint category,
    r_score = sint score, r_data = body, r_updated = unix (now env)\<rparr>"
  let ?same = "\<lambda>r. collate (r_gamename r) = collate (Name game) \<and> r_pid r = pid \<and>
    r_region r = uint region \<and> r_category r = uint category"
  let ?d = "d\<lparr>rankings := filter (\<lambda>r. \<not> ?same r) (rankings d) @ [?row]\<rparr>"
  have len: "length ?data = 16 + length body" by (simp add: put_data_def)
  have n: "unat (of_nat (length body) :: u32) = length body" using l by (simp add: unat_of_nat)
  have cols: "ranking_columns_ok (Name game) (uint region) (uint category) (sint score) body"
    using l nm unsigned_less [of region, where ?'a = int] unsigned_less [of category, where ?'a = int] sint_lt [of score] sint_greater_eq [of score]
    by (simp add: ranking_columns_ok_def)
  have put: "dwcRankPut env game pid ?data d = (?d, bytes_of ''done'')"
    using d len n cols
    by (auto simp: dwcRankPut_def put_fields drop_put_data Let_def InsertDwcRanking_def has_profile_def online_def)
  have "handleDwc env (dwcRankPut env) (dwc_client env ''web/client/put.asp'' game pid ?data True) game d =
      Ret (?d, bytes_of ''done'' @ bytes_of (makeDwcProof (Key (Stats game)) (bytes_of ''done'')))"
    using dwc_client_served [of game True ?data env "dwcRankPut env" "''web/client/put.asp''" pid d] m l len put by simp
  then have "HandleWebRequest env (dwc_client env ''web/client/put.asp'' game pid ?data True) d =
      Ret (?d, Some (bytes_of ''done'' @ bytes_of (makeDwcProof (Key (Stats game)) (bytes_of ''done''))))"
    using g by (simp add: HandleWebRequest_def dwc_client_def Let_def)
  then show ?thesis by (intro exI [of _ ?d]) auto
qed

definition sample_games :: game_list where
  "sample_games = add_game sample_game empty_games"

theorem dwc_put_recorded_witness:
  "\<exists>d'. HandleWebRequest (sample_gs_env\<lparr>games := sample_games\<rparr>)
      (dwc_client (sample_gs_env\<lparr>games := sample_games\<rparr>) ''web/client/put.asp'' sample_game 1 (put_data 1 0 77 [5, 6]) True) sample_db =
      Ret (d', Some (bytes_of ''done'' @ bytes_of (makeDwcProof (Key (Stats sample_game)) (bytes_of ''done''))))"
  using dwc_put_recorded [of "sample_gs_env\<lparr>games := sample_games\<rparr>" sample_game sample_db 1 "[5, 6]" 1 0 77]
  by (auto simp: sample_games_def add_game_def empty_games_def GetGameInfoByName_def sample_game_def sample_stats_def
      sample_db_def has_profile_def tinytext_ok_def)

text \<open>No client ever gets the ranking of its friends: the profiles it sends are not read, so that the query
  is built with an empty list, which is an error, and the response is empty.\<close>

theorem friends_ranking_unavailable:
  assumes "read_le32 2 data = 3"
  shows "dwcRankGet env game pid data d = (d, [])"
  using assms
  by (auto simp: dwcRankGet_def Let_def rank_mode_of_def rank_args_def GetDwcRankings_def
      split: outcome.splits if_splits)

theorem friends_ranking_unavailable_witness:
  "dwcRankGet sample_gs_env sample_game 1 (le32 1 @ le32 0 @ le32 3 @ le32 16 @ le32 1 @ le32 10 @ le32 0 @ le32 2) sample_db =
     (sample_db, [])"
  by (rule friends_ranking_unavailable) (use read_le32_nth [of "le32 1 @ le32 0" 2 3] in simp)

end
