(* ===== verification/Gpcm.thy ===== *)
theory Gpcm
  imports MessageServer AuthToken Database Encoding IpAddress GameList GoCrypto
begin

text \<open>
  The profile server (\<open>gpcm/\<close>): sessions, logging in and out, friends, status and messages. The code keeps
  a session behind a pointer that two tables share, so the state has a heap of sessions with \<open>fresh\<close> its
  next free address. Handlers take the address of their session and return the state with the packets
  and events they send, in order. \<open>gp_env\<close> is what they read from elsewhere; \<open>meanwhile\<close> is what the rest of
  the server does during one of the sleeps of a login that waits for another connection to end. The
  text in front of log lines (\<open>ModuleName\<close>) is left out.
\<close>

record gp_session =
  ConnIndex :: u64
  RemoteAddr :: string
  Profile :: profile
  LoggedIn :: bool
  Challenge :: string
  AuthToken :: string
  LoginTicket :: string
  SessionKey :: int
  LoginInfoSet :: bool
  GameName :: string
  s_GameCode :: string
  s_Region :: u8
  Language :: u8
  InGameName :: string
  s_ConsoleFriendCode :: u64
  HostPlatform :: string
  UnitCode :: u8
  Status :: string
  LocString :: string
  ReadBuffer :: bytes
  WriteBuffer :: string

record gpcm =
  heap :: "nat \<Rightarrow> gp_session"
  fresh :: nat
  sessions :: "u32 \<rightharpoonup> nat"
  sessionsByConnIndex :: "u64 \<rightharpoonup> nat"
  database :: db

type_synonym gp_state = "gpcm \<times> gs_out list"

record gp_env =
  tokens :: token_env
  tickets :: token_env
  now :: int               \<comment> \<open>nanoseconds\<close>
  rnd :: nat               \<comment> \<open>\<open>rand.Int31n(290000000)\<close>\<close>
  rnd_challenge :: string  \<comment> \<open>\<open>common.RandomString(10)\<close>\<close>
  rnd_sig :: string        \<comment> \<open>\<open>common.RandomHexString(32)\<close>\<close>
  send_ok :: "u64 \<Rightarrow> bool"
  meanwhile :: "gp_state \<Rightarrow> gp_state"

definition upd_session :: "nat \<Rightarrow> (gp_session \<Rightarrow> gp_session) \<Rightarrow> gp_state \<Rightarrow> gp_state" where
  "upd_session p f st = ((fst st)\<lparr>heap := (heap (fst st))(p := f (heap (fst st) p))\<rparr>, snd st)"

definition emit :: "gs_out list \<Rightarrow> gp_state \<Rightarrow> gp_state" where
  "emit os st = (fst st, snd st @ os)"

definition session :: "nat \<Rightarrow> gp_state \<Rightarrow> gp_session" where
  "session p st = heap (fst st) p"

definition gdb :: "gp_state \<Rightarrow> db" where
  "gdb st = database (fst st)"

definition set_db :: "db \<Rightarrow> gp_state \<Rightarrow> gp_state" where
  "set_db d st = ((fst st)\<lparr>database := d\<rparr>, snd st)"

definition zero_profile :: profile where
  "zero_profile = \<lparr>ProfileID = 0, WFCID = 0, GsbrCode = [], FirstName = [], LastName = []\<rparr>"

definition pid_at :: "nat \<Rightarrow> gp_state \<Rightarrow> u32" where
  "pid_at p st = ProfileID (Profile (session p st))"

definition show_pid :: "u32 \<Rightarrow> string" where
  "show_pid pid = format_uint (unat pid)"

text \<open>\<open>database/profile.go\<close>\<close>

definition UniqueNick :: "profile \<Rightarrow> string" where
  "UniqueNick p = Base32Encode (WFCID p) @ GsbrCode p"

definition Email :: "profile \<Rightarrow> string" where
  "Email p = UniqueNick p @ ''@nds''"

subsection \<open>Sending\<close>

definition replyError :: "gp_env \<Rightarrow> nat \<Rightarrow> GPError \<Rightarrow> gp_state \<Rightarrow> gp_state" where
  "replyError env p e st =
     (let i = ConnIndex (session p st) in
      case GetMessage e of
        Ret msg \<Rightarrow> emit
          ([Packet i (bytes_of msg)] @ (if Fatal e \<or> \<not> send_ok env i then [CloseConn i] else []) @
           [Event ''gpcm_returned_error''
              [(''profile_id'', show_pid (pid_at p st)), (''error_code'', format_int (ErrorCode e)),
               (''error_string'', ErrorString e), (''fatal'', if Fatal e then ''true'' else ''false'')]]) st
      | _ \<Rightarrow> st)"

definition BuddyMessage :: int where "BuddyMessage = 1"
definition BuddyRequest :: int where "BuddyRequest = 2"
definition BuddyReply :: int where "BuddyReply = 3"
definition BuddyAuth :: int where "BuddyAuth = 4"
definition BuddyUTM :: int where "BuddyUTM = 5"
definition BuddyRevoke :: int where "BuddyRevoke = 6"
definition BuddyStatus :: int where "BuddyStatus = 100"

definition addFriendMessage :: string where
  "addFriendMessage = map char_of [13, 10, 13, 10 :: nat] @ ''|signed|00000000000000000000000000000000''"

definition bm1AuthMessage :: string where
  "bm1AuthMessage = ''I have authorized your request to add me to your list''"

definition offlineMessage :: string where
  "offlineMessage = ''|s|0|ss|Offline|ls||ip|0|p|0|qm|0''"

definition buddy_fields :: "int \<Rightarrow> u32 \<Rightarrow> string \<Rightarrow> field list" where
  "buddy_fields msgType sender msg =
     [(''bm'', GInt 64 msgType), (''f'', GUint 32 (unat sender)), (''msg'', GString msg)]"

definition buddy_text :: "int \<Rightarrow> u32 \<Rightarrow> string \<Rightarrow> string" where
  "buddy_text msgType sender msg =
     (case Marshal (Some (buddy_fields msgType sender msg)) of Ret s \<Rightarrow> s | _ \<Rightarrow> [])"

text \<open>\<open>sendMessage\<close> to the session at \<open>p\<close>.\<close>

definition sendMessage :: "gp_env \<Rightarrow> nat \<Rightarrow> int \<Rightarrow> u32 \<Rightarrow> string \<Rightarrow> bool \<Rightarrow> gp_state \<Rightarrow> gp_state" where
  "sendMessage env p msgType sender msg buffer st =
     (let message = buddy_text msgType sender msg; i = ConnIndex (session p st) in
      if buffer then upd_session p (\<lambda>s. s\<lparr>WriteBuffer := WriteBuffer s @ message\<rparr>) st
      else emit (Packet i (bytes_of message) # (if send_ok env i then [] else [CloseConn i])) st)"

text \<open>The session of a profile that is logged in, if there is one.\<close>

definition online_session :: "u32 \<Rightarrow> gp_state \<Rightarrow> nat option" where
  "online_session pid st =
     (case sessions (fst st) pid of
        Some q \<Rightarrow> if LoggedIn (session q st) then Some q else None
      | None \<Rightarrow> None)"

definition sendFriendStatus :: "gp_env \<Rightarrow> nat \<Rightarrow> u32 \<Rightarrow> bool \<Rightarrow> gp_state \<Rightarrow> gp_state" where
  "sendFriendStatus env p pid buffer st =
     (case online_session pid st of
        None \<Rightarrow> st
      | Some q \<Rightarrow>
          if has_prefix (s_GameCode (session q st)) ''RMC'' \<and> 0x14 < length (LocString (session p st)) then st
          else sendMessage env q BuddyStatus (pid_at p st) (Status (session p st)) buffer st)"

fun logout_loop :: "gp_env \<Rightarrow> nat \<Rightarrow> friend_info list \<Rightarrow> gp_state \<Rightarrow> gp_state" where
  "logout_loop env p [] st = st"
| "logout_loop env p (f # fs) st =
     (if \<not> Authorized f then logout_loop env p fs st
      else case online_session (FriendID f) st of
        None \<Rightarrow> st
      | Some q \<Rightarrow> logout_loop env p fs (sendMessage env q BuddyStatus (pid_at p st) offlineMessage False st))"

definition sendLogoutStatus :: "gp_env \<Rightarrow> nat \<Rightarrow> gp_state \<Rightarrow> gp_state" where
  "sendLogoutStatus env p st =
     (case GetFriends (pid_at p st) False (gdb st) of
        Ret fs \<Rightarrow> logout_loop env p fs st
      | _ \<Rightarrow> st)"

definition outgoing_info :: "gp_env \<Rightarrow> nat \<Rightarrow> friend_info \<Rightarrow> gp_state \<Rightarrow> gp_state" where
  "outgoing_info env p f st =
     (if Authorized f then st else sendMessage env p BuddyStatus (FriendID f) offlineMessage True st)"

definition incoming_info :: "gp_env \<Rightarrow> nat \<Rightarrow> friend_info \<Rightarrow> gp_state \<Rightarrow> gp_state" where
  "incoming_info env p f st =
     (if \<not> Authorized f then sendMessage env p BuddyRequest (FriendID f) addFriendMessage True st
      else case online_session (FriendID f) st of
        None \<Rightarrow> sendMessage env p BuddyStatus (FriendID f) offlineMessage True st
      | Some q \<Rightarrow> sendFriendStatus env q (pid_at p st) False st)"

definition sendFriendsInfo :: "gp_env \<Rightarrow> nat \<Rightarrow> gp_state \<Rightarrow> gp_state" where
  "sendFriendsInfo env p st =
     (let st1 = (case GetFriends (pid_at p st) True (gdb st) of
                   Ret fs \<Rightarrow> fold (outgoing_info env p) fs st
                 | _ \<Rightarrow> st)
      in case GetFriends (pid_at p st1) False (gdb st1) of
           Ret fs \<Rightarrow> fold (incoming_info env p) fs st1
         | _ \<Rightarrow> st1)"

definition flushBuffer :: "gp_env \<Rightarrow> nat \<Rightarrow> gp_state \<Rightarrow> gp_state" where
  "flushBuffer env p st =
     (let s = session p st in
      if WriteBuffer s = [] then st
      else (if send_ok env (ConnIndex s) then upd_session p (\<lambda>s. s\<lparr>WriteBuffer := []\<rparr>) else id)
             (emit [Packet (ConnIndex s) (bytes_of (WriteBuffer s))] st))"

subsection \<open>Logging in\<close>

definition generateResponse :: "string \<Rightarrow> string \<Rightarrow> string \<Rightarrow> string \<Rightarrow> string" where
  "generateResponse gpcmChallenge nasChallenge authToken clientChallenge =
     (let h = hex_encode (md5_sum (bytes_of nasChallenge))
      in hex_encode (md5_sum (bytes_of
           (h @ replicate 48 CHR '' '' @ authToken @ clientChallenge @ gpcmChallenge @ h))))"

definition generateProof :: "string \<Rightarrow> string \<Rightarrow> string \<Rightarrow> string \<Rightarrow> string" where
  "generateProof gpcmChallenge nasChallenge authToken clientChallenge =
     generateResponse clientChallenge nasChallenge authToken gpcmChallenge"

definition LoginRequest :: "field list" where
  "LoginRequest = [(''login'', GString []), (''challenge'', GString []), (''authtoken'', GString []),
     (''response'', GString []), (''firewall'', GBool False), (''port'', GUint 16 0), (''productid'', GInt 64 0),
     (''gamename'', GString []), (''namespaceid'', GInt 64 0), (''id'', GInt 64 0)]"

definition LoginResponse :: "int \<Rightarrow> string \<Rightarrow> profile \<Rightarrow> string \<Rightarrow> int \<Rightarrow> field list" where
  "LoginResponse sesskey prf p ticket i =
     [(''lc'', GInt 64 2), (''sesskey'', GInt 32 sesskey), (''proof'', GString prf),
      (''userid'', GUint 32 (unat (ProfileID p))), (''profileid'', GUint 32 (unat (ProfileID p))),
      (''uniquenick'', GString (UniqueNick p)), (''lt'', GString ticket), (''id'', GInt 64 i)]"

text \<open>What the token says about the console.\<close>

definition set_login_info :: "string \<Rightarrow> NASAuthToken \<Rightarrow> gp_session \<Rightarrow> gp_session" where
  "set_login_info gameName t s =
     (let wii = (token_UnitCode t = 1) in
      s\<lparr>GameName := gameName, s_GameCode := string_of (NullTerminatedString (GameCode t)),
        s_Region := Region t, Language := Lang t, s_ConsoleFriendCode := ConsoleFriendCode t,
        UnitCode := token_UnitCode t,
        InGameName := string_of (UTF16Decode (InGameScreenName t) (if wii then BigEndian else LittleEndian)),
        HostPlatform := (if wii then ''Wii'' else ''DS''), LoginInfoSet := True\<rparr>)"

definition login_info_event :: "NASAuthToken \<Rightarrow> gp_session \<Rightarrow> gs_out" where
  "login_info_event t s = Event ''received_login_info''
     [(''wfc_id'', format_uint (unat (token_WFCID t))), (''game_name'', GameName s),
      (''wii_number'', format_uint (unat (s_ConsoleFriendCode s))), (''in_game_name'', InGameName s),
      (''unit_code'', format_uint (unat (UnitCode s))), (''ip_address'', RemoteAddr s)]"

definition unit_code_ok :: "gp_session \<Rightarrow> bool" where
  "unit_code_ok s =
     (let expected = GetExpectedUnitCode (GameName s)
      in UnitCode s \<in> {0, 1} \<and> (UnitCode s = expected \<or> expected = 0xFF))"

text \<open>
  The wait for another session of the profile to go: 21 sleeps, after each a look at the table. The result
  tells whether the entry is gone.
\<close>

primrec wait_gone :: "gp_env \<Rightarrow> u32 \<Rightarrow> nat \<Rightarrow> gp_state \<Rightarrow> gp_state \<times> bool" where
  "wait_gone env pid 0 st = (st, False)"
| "wait_gone env pid (Suc n) st =
     (let st' = meanwhile env st
      in if sessions (fst st') pid = None then (st', True) else wait_gone env pid n st')"

definition take_over :: "gp_env \<Rightarrow> u32 \<Rightarrow> gp_state \<Rightarrow> gp_state \<times> bool" where
  "take_over env pid st =
     (case sessions (fst st) pid of
        None \<Rightarrow> (st, True)
      | Some q \<Rightarrow> wait_gone env pid 21 (replyError env q ErrForcedDisconnect st))"

definition finish_login :: "gp_env \<Rightarrow> nat \<Rightarrow> string \<Rightarrow> gp_state \<Rightarrow> gp_state" where
  "finish_login env p authToken st =
     (let pid = pid_at p st;
          ticket = marshal_ticket (tickets env) (now env) \<lparr>ticket_IssueTime = 0, ticket_ProfileID = pid, ticket_Magic = []\<rparr>;
          g = (fst st)\<lparr>sessions := (sessions (fst st))(pid \<mapsto> p)\<rparr>;
          st' = upd_session p (\<lambda>s. s\<lparr>AuthToken := authToken, LoginTicket := ticket,
                  SessionKey := int (rnd env) + 10000000, LoggedIn := True\<rparr>) (g, snd st);
          s = session p st'
      in emit [Event ''logged_in'' [(''profile_id'', show_pid pid), (''game_name'', GameName s),
                 (''in_game_name'', InGameName s), (''ip_address'', RemoteAddr s)]] st')"

text \<open>After the token has been accepted.\<close>

definition login_token :: "gp_env \<Rightarrow> nat \<Rightarrow> field list \<Rightarrow> NASAuthToken \<Rightarrow> gp_state
    \<Rightarrow> gp_state \<times> (handler_error, field list option) outcome" where
  "login_token env p req t st0 =
     (let st1 = upd_session p (set_login_info (get_string req ''gamename'') t) st0;
          st = emit [login_info_event t (session p st1)] st1;
          s = session p st;
          nasChallenge = string_of (NullTerminatedString (token_Challenge t));
          authToken = get_string req ''authtoken''; clientChallenge = get_string req ''challenge''
      in if \<not> unit_code_ok s then (st, Err (GP ErrLogin))
         else if generateResponse (Challenge s) nasChallenge authToken clientChallenge \<noteq> get_string req ''response''
         then (st, Err (GP ErrLogin))
         else case GetProfile (token_ProfileID t) (gdb st) of
           Err _ \<Rightarrow> (upd_session p (\<lambda>s. s\<lparr>Profile := zero_profile\<rparr>) st, Err (GP ErrLogin))
         | Panic \<Rightarrow> (st, Panic)
         | Ret pr \<Rightarrow>
             let st = upd_session p (\<lambda>s. s\<lparr>Profile := pr\<rparr>) st in
             if length (GsbrCode pr) < 4 then (st, Panic)
             else case take_over env (ProfileID pr) st of
               (st, False) \<Rightarrow> (st, Err (GP ErrForcedDisconnect))
             | (st, True) \<Rightarrow>
                 let st = finish_login env p authToken st; s = session p st
                 in (st, Ret (Some (LoginResponse (SessionKey s)
                       (generateProof (Challenge s) nasChallenge authToken clientChallenge)
                       (Profile s) (LoginTicket s) (get_int req ''id'')))))"

definition login :: "gp_env \<Rightarrow> nat \<Rightarrow> gp_state handler" where
  "login env p st req =
     (if LoggedIn (session p st) then (st, Err (GP ErrLogin))
      else case unmarshal_token (tokens env) (now env) (get_string req ''authtoken'') of
        Err ErrTokenExpired \<Rightarrow> (st, Err (GP ErrLoginLoginTicketExpired))
      | Err _ \<Rightarrow> (st, Err (GP ErrLogin))
      | Panic \<Rightarrow> (st, Panic)
      | Ret t \<Rightarrow> login_token env p req t st)"

definition LogoutRequest :: "field list" where
  "LogoutRequest = [(''logout'', GString []), (''sesskey'', GInt 32 0)]"

definition logout :: "gp_env \<Rightarrow> nat \<Rightarrow> gp_state handler" where
  "logout env p st req = (upd_session p (\<lambda>s. s\<lparr>LoggedIn := False\<rparr>) st, Ret None)"

definition VerifySessionKey :: "u32 \<Rightarrow> int \<Rightarrow> gpcm \<Rightarrow> bool" where
  "VerifySessionKey pid sessionKey g =
     (case sessions g pid of
        None \<Rightarrow> False
      | Some p \<Rightarrow> LoggedIn (heap g p) \<and> SessionKey (heap g p) = sessionKey)"

subsection \<open>Friends\<close>

definition isFriendAuthorized :: "nat \<Rightarrow> u32 \<Rightarrow> gp_state \<Rightarrow> bool" where
  "isFriendAuthorized p pid st = (case GetFriendAuth (pid_at p st) pid (gdb st) of Ret b \<Rightarrow> b | _ \<Rightarrow> False)"

definition isBm1AuthMessageNeeded :: "gp_session \<Rightarrow> bool" where
  "isBm1AuthMessageNeeded s \<longleftrightarrow>
     UnitCode s = 0 \<or> UnitCode s = 0xFF \<or> GameName s \<in> {''jissenpachwii'', ''drmariowii'', ''pokebattlewii''}"

text \<open>The first four characters of the game code are taken for a log line, which panics when it is shorter.\<close>

definition code_missing :: "nat \<Rightarrow> gp_state \<Rightarrow> bool" where
  "code_missing p st \<longleftrightarrow> length (GsbrCode (Profile (session p st))) < 4"

definition AddBuddyRequest :: "field list" where
  "AddBuddyRequest = [(''addbuddy'', GString []), (''sesskey'', GInt 32 0), (''newprofileid'', GUint 32 0),
     (''reason'', GString [])]"

definition get_pid :: "field list \<Rightarrow> string \<Rightarrow> u32" where
  "get_pid req key = of_int (get_int req key)"

definition addBuddy :: "gp_env \<Rightarrow> nat \<Rightarrow> gp_state handler" where
  "addBuddy env p st req =
     (let new = get_pid req ''newprofileid'' in
      if \<not> LoggedIn (session p st) then (st, Err (GP ErrNotLoggedIn))
      else if new = pid_at p st then (st, Err (GP ErrAddFriendBadNew))
      else if code_missing p st then (st, Panic)
      else case AddFriend (unix (now env)) (pid_at p st) new (gdb st) of
        Err ErrDupEntry \<Rightarrow> (st, Err (GP ErrAddFriendAlreadyFriends))
      | Err ErrNoReferencedRow2 \<Rightarrow> (st, Err (GP ErrAddFriendBadNew))
      | Err _ \<Rightarrow> (st, Err (GP ErrAddFriend))
      | Panic \<Rightarrow> (st, Panic)
      | Ret d \<Rightarrow>
          let st = set_db d st in
          case online_session new st of
            None \<Rightarrow> (st, Ret None)
          | Some q \<Rightarrow> (sendMessage env q BuddyRequest (pid_at p st) addFriendMessage False st, Ret None))"

definition DelBuddyRequest :: "field list" where
  "DelBuddyRequest = [(''delbuddy'', GString []), (''sesskey'', GInt 32 0), (''delprofileid'', GUint 32 0)]"

definition deleteBuddy :: "gp_env \<Rightarrow> nat \<Rightarrow> gp_state handler" where
  "deleteBuddy env p st req =
     (let del = get_pid req ''delprofileid'' in
      if \<not> LoggedIn (session p st) then (st, Err (GP ErrNotLoggedIn))
      else if code_missing p st then (st, Panic)
      else
        let authorized = isFriendAuthorized p del st in
        case RemoveFriend (pid_at p st) del (gdb st) of
          Err _ \<Rightarrow> (st, Err (GP ErrDeleteFriend))
        | Panic \<Rightarrow> (st, Panic)
        | Ret (d, revoked) \<Rightarrow>
            let st = set_db d st in
            if \<not> revoked then (st, Err (GP ErrRevokeNotFriends))
            else case online_session del st of
              None \<Rightarrow> (st, Ret None)
            | Some q \<Rightarrow>
                if \<not> authorized then (st, Ret None)
                else (sendMessage env q BuddyRevoke (pid_at p st) [] False st, Ret None))"

definition AuthAddRequest :: "field list" where
  "AuthAddRequest = [(''authadd'', GString []), (''sesskey'', GInt 32 0), (''fromprofileid'', GUint 32 0),
     (''sig'', GString []), (''autoSync'', GBool False)]"

definition authAdd :: "gp_env \<Rightarrow> nat \<Rightarrow> gp_state handler" where
  "authAdd env p st req =
     (let requester = get_pid req ''fromprofileid'' in
      if \<not> LoggedIn (session p st) then (st, Err (GP ErrNotLoggedIn))
      else case AuthFriend requester (pid_at p st) (gdb st) of
        Err _ \<Rightarrow> (st, Err (GP ErrAuthAddBadFrom))
      | Panic \<Rightarrow> (st, Panic)
      | Ret d \<Rightarrow>
          let st = set_db d st in
          case online_session requester st of
            None \<Rightarrow> (st, Ret None)
          | Some q \<Rightarrow>
              let st = sendFriendStatus env p (pid_at q st) False st;
                  st = sendMessage env q BuddyAuth (pid_at p st) [] False st
              in (if isBm1AuthMessageNeeded (session q st)
                  then sendMessage env q BuddyMessage (pid_at p st) bm1AuthMessage False st else st, Ret None))"

definition StatusRequest :: "field list" where
  "StatusRequest = [(''status'', GInt 64 0), (''sesskey'', GInt 32 0), (''statstring'', GString []),
     (''locstring'', GString [])]"

definition status_text :: "int \<Rightarrow> string \<Rightarrow> string \<Rightarrow> string \<Rightarrow> string" where
  "status_text command stat loc ip =
     ''|s|'' @ format_int command @ ''|ss|'' @ stat @ ''|ls|'' @ loc @ ''|ip|'' @ ip @ ''|p|0|qm|0''"

definition friend_status :: "gp_env \<Rightarrow> nat \<Rightarrow> friend_info \<Rightarrow> gp_state \<Rightarrow> gp_state" where
  "friend_status env p f st = (if Authorized f then sendFriendStatus env p (FriendID f) False st else st)"

definition status :: "gp_env \<Rightarrow> nat \<Rightarrow> gp_state handler" where
  "status env p st req =
     (let stat = get_string req ''statstring''; loc = get_string req ''locstring'' in
      if \<not> LoggedIn (session p st) then (st, Err (GP ErrNotLoggedIn))
      else if 256 \<le> length stat then (st, Err (GP ErrStatus))
      else if 256 \<le> length loc then (st, Err (GP ErrStatus))
      else
        let st = upd_session p (\<lambda>s. s\<lparr>LocString := loc\<rparr>) st in
        case IPFormatToString (RemoteAddr (session p st)) of
          Ret (ip, _) \<Rightarrow>
            let st = upd_session p (\<lambda>s. s\<lparr>Status := status_text (get_int req ''status'') stat loc ip\<rparr>) st in
            (case GetFriends (pid_at p st) False (gdb st) of
               Ret fs \<Rightarrow> (fold (friend_status env p) fs st, Ret None)
             | _ \<Rightarrow> (st, Err OtherError))
        | _ \<Rightarrow> (st, Panic))"

subsection \<open>Messages and profiles\<close>

text \<open>The regular expression \<open>^GPCM\d+vMAT\<close>\<close>

definition isDWCMatchCommand :: "string \<Rightarrow> bool" where
  "isDWCMatchCommand msg \<longleftrightarrow>
     has_prefix msg ''GPCM'' \<and>
     (let r = drop 4 msg; digits = takeWhile (\<lambda>c. digit_val c \<noteq> None) r
      in digits \<noteq> [] \<and> has_prefix (drop (length digits) r) ''vMAT'')"

definition match_parameters_ok :: "string \<Rightarrow> bool" where
  "match_parameters_ok msg \<longleftrightarrow> list_all (\<lambda>segment. length segment \<le> 10) (tl (split_char CHR ''/'' msg))"

definition BuddyMessageRequest :: "field list" where
  "BuddyMessageRequest = [(''bm'', GInt 64 0), (''sesskey'', GInt 32 0), (''t'', GUint 32 0), (''msg'', GString [])]"

definition buddyMessage :: "gp_env \<Rightarrow> nat \<Rightarrow> gp_state handler" where
  "buddyMessage env p st req =
     (let target = get_pid req ''t''; msg = get_string req ''msg'' in
      if \<not> LoggedIn (session p st) then (st, Err (GP ErrNotLoggedIn))
      else if get_int req ''bm'' \<noteq> BuddyMessage then (st, Ret None)
      else if \<not> isFriendAuthorized p target st then (st, Err (GP ErrMessageNotFriends))
      else if isDWCMatchCommand msg \<and> \<not> match_parameters_ok msg then (st, Err (GP ErrMessage))
      else case online_session target st of
        None \<Rightarrow> (st, Err (GP ErrMessageFriendOffline))
      | Some q \<Rightarrow>
          if GameName (session q st) \<noteq> GameName (session p st) then (st, Err (GP ErrMessage))
          else (sendMessage env q BuddyMessage (pid_at p st) msg False st, Ret None))"

definition GetProfileRequest :: "field list" where
  "GetProfileRequest = [(''getprofile'', GString []), (''sesskey'', GInt 32 0), (''profileid'', GUint 32 0),
     (''id'', GInt 64 0)]"

definition GetProfileResponse :: "gp_env \<Rightarrow> profile \<Rightarrow> string \<Rightarrow> int \<Rightarrow> field list" where
  "GetProfileResponse env p locstring i =
     [(''pi'', GString []), (''profileid'', GUint 32 (unat (ProfileID p))), (''nick'', GString (UniqueNick p)),
      (''userid'', GUint 32 (unat (ProfileID p))), (''email'', GString (Email p)), (''sig'', GString (rnd_sig env)),
      (''uniquenick'', GString (UniqueNick p)), (''firstname'', GString (FirstName p)),
      (''lastname'', GString (LastName p)), (''pid'', GInt 64 11), (''lon'', GString ''0.000000''),
      (''lat'', GString ''0.000000''), (''loc'', GString locstring), (''id'', GInt 64 i)]"

definition getProfile :: "gp_env \<Rightarrow> nat \<Rightarrow> gp_state handler" where
  "getProfile env p st req =
     (let pid = get_pid req ''profileid'' in
      if \<not> LoggedIn (session p st) then (st, Err (GP ErrNotLoggedIn))
      else case online_session pid st of
        Some q \<Rightarrow>
          (st, Ret (Some (GetProfileResponse env (Profile (session q st)) (LocString (session q st)) (get_int req ''id''))))
      | None \<Rightarrow>
          (case GetProfile pid (gdb st) of
             Ret pr \<Rightarrow> (st, Ret (Some (GetProfileResponse env pr [] (get_int req ''id''))))
           | Err _ \<Rightarrow> (st, Err (GP ErrGetProfileBadProfile))
           | Panic \<Rightarrow> (st, Panic)))"

definition UpdateProfileRequest :: "field list" where
  "UpdateProfileRequest = [(''firstname'', GString []), (''lastname'', GString [])]"

text \<open>The error of the database is dropped.\<close>

definition updateProfile :: "gp_env \<Rightarrow> nat \<Rightarrow> gp_state handler" where
  "updateProfile env p st req =
     (if \<not> LoggedIn (session p st) then (st, Err (GP ErrNotLoggedIn))
      else
        let st = upd_session p (\<lambda>s. s\<lparr>Profile := (Profile s)\<lparr>FirstName := get_string req ''firstname'',
                   LastName := get_string req ''lastname''\<rparr>\<rparr>) st
        in case UpdateProfile (Profile (session p st)) (gdb st) of
             Ret d \<Rightarrow> (set_db d st, Ret None)
           | _ \<Rightarrow> (st, Ret None))"

definition KARequestResponse :: "field list" where
  "KARequestResponse = [(''ka'', GString [])]"

definition KeepAlive :: "gp_env \<Rightarrow> nat \<Rightarrow> gp_state handler" where
  "KeepAlive env p st req = (st, Ret (Some KARequestResponse))"

subsection \<open>Connections\<close>

definition request_types :: "(string \<times> field list \<times> (gp_env \<Rightarrow> nat \<Rightarrow> gp_state handler)) list" where
  "request_types =
     [(''ka'', KARequestResponse, KeepAlive), (''login'', LoginRequest, login), (''logout'', LogoutRequest, logout),
      (''updatepro'', UpdateProfileRequest, updateProfile), (''status'', StatusRequest, status),
      (''authadd'', AuthAddRequest, authAdd), (''addbuddy'', AddBuddyRequest, addBuddy),
      (''delbuddy'', DelBuddyRequest, deleteBuddy), (''bm'', BuddyMessageRequest, buddyMessage),
      (''getprofile'', GetProfileRequest, getProfile)]"

definition handlers ::
  "gp_env \<Rightarrow> nat \<Rightarrow> string \<Rightarrow> (gp_state \<Rightarrow> string \<Rightarrow> gp_state \<times> (handler_error, string) outcome) option" where
  "handlers env p command =
     map_option (\<lambda>(schema, h). Handle schema (h env p) (\<lambda>_. OtherError)) (map_of request_types command)"

text \<open>One message, and the loop; the flag tells that it panicked.\<close>

definition one_message :: "gp_env \<Rightarrow> nat \<Rightarrow> string \<Rightarrow> gp_state \<Rightarrow> gp_state \<times> bool" where
  "one_message env p message st =
     (let command = command_of message in
      case handlers env p command of
        None \<Rightarrow> (st, False)
      | Some handler \<Rightarrow>
          (case handler st message of
             (st', Ret resp) \<Rightarrow>
               let st' = upd_session p (\<lambda>s. s\<lparr>WriteBuffer := WriteBuffer s @ resp\<rparr>) st'
               in (if command = ''login'' then sendFriendsInfo env p (flushBuffer env p st') else st', False)
           | (st', Err (GP e)) \<Rightarrow> (replyError env p e st', False)
           | (st', Err OtherError) \<Rightarrow> (st', False)
           | (st', Panic) \<Rightarrow> (st', True)))"

fun all_messages :: "gp_env \<Rightarrow> nat \<Rightarrow> string list \<Rightarrow> gp_state \<Rightarrow> gp_state \<times> bool" where
  "all_messages env p [] st = (st, False)"
| "all_messages env p (m # ms) st =
     (case one_message env p m st of
        (st', True) \<Rightarrow> (st', True)
      | (st', False) \<Rightarrow> all_messages env p ms st')"

definition store_buffer :: "nat \<Rightarrow> bytes \<Rightarrow> gpcm \<Rightarrow> gpcm" where
  "store_buffer p b g = g\<lparr>heap := (heap g)(p := (heap g p)\<lparr>ReadBuffer := b\<rparr>)\<rparr>"

definition handle_data :: "gp_env \<Rightarrow> nat \<Rightarrow> bytes \<Rightarrow> gpcm \<Rightarrow> gpcm \<times> gs_out list" where
  "handle_data env p data g =
     (let joined = ReadBuffer (heap g p) @ data in
      if maxBuffer < length joined then (g, [])
      else
        let g = store_buffer p joined g in
        if \<not> complete joined then (g, [])
        else case all_messages env p (messages_of joined) (g, []) of
          (st, True) \<Rightarrow> st
        | (st, False) \<Rightarrow> flushBuffer env p (store_buffer p [] (fst st), snd st))"

definition HandlePacket :: "gp_env \<Rightarrow> u64 \<Rightarrow> bytes \<Rightarrow> gpcm \<Rightarrow> gpcm \<times> gs_out list" where
  "HandlePacket env index data g =
     (case sessionsByConnIndex g index of
        None \<Rightarrow> (g, [CloseConn index])
      | Some p \<Rightarrow> handle_data env p data g)"

definition new_session :: "gp_env \<Rightarrow> u64 \<Rightarrow> string \<Rightarrow> gp_session" where
  "new_session env index address =
     \<lparr>ConnIndex = index, RemoteAddr = address, Profile = zero_profile, LoggedIn = False, Challenge = rnd_challenge env,
      AuthToken = [], LoginTicket = [], SessionKey = 0, LoginInfoSet = False, GameName = [], s_GameCode = [],
      s_Region = 0, Language = 0, InGameName = [], s_ConsoleFriendCode = 0, HostPlatform = [], UnitCode = 0,
      Status = [], LocString = [], ReadBuffer = [], WriteBuffer = []\<rparr>"

definition ChallengeRequest :: "int \<Rightarrow> string \<Rightarrow> int \<Rightarrow> field list" where
  "ChallengeRequest command challenge i =
     [(''lc'', GInt 64 command), (''challenge'', GString challenge), (''id'', GInt 64 i)]"

definition NewConnection :: "gp_env \<Rightarrow> u64 \<Rightarrow> string \<Rightarrow> gpcm \<Rightarrow> gpcm \<times> gs_out list" where
  "NewConnection env index address g =
     (case Marshal (Some (ChallengeRequest 1 (rnd_challenge env) 1)) of
        Ret msg \<Rightarrow>
          if \<not> send_ok env index then (g, [Packet index (bytes_of msg), CloseConn index])
          else (g\<lparr>heap := (heap g)(fresh g := new_session env index address), fresh := fresh g + 1,
                 sessionsByConnIndex := (sessionsByConnIndex g)(index \<mapsto> fresh g)\<rparr>,
                [Packet index (bytes_of msg)])
      | _ \<Rightarrow> (g, []))"

definition CloseConnection :: "gp_env \<Rightarrow> u64 \<Rightarrow> gpcm \<Rightarrow> gpcm \<times> gs_out list" where
  "CloseConnection env index g =
     (case sessionsByConnIndex g index of
        None \<Rightarrow> (g, [])
      | Some p \<Rightarrow>
          if \<not> LoggedIn (heap g p) then (g, [])
          else
            let st = emit [Event ''logged_out'' [(''profile_id'', show_pid (pid_at p (g, [])))]]
                       (sendLogoutStatus env p (g, []));
                st = upd_session p (\<lambda>s. s\<lparr>LoggedIn := False\<rparr>) st
            in ((fst st)\<lparr>sessions := (sessions (fst st))(pid_at p st := None)\<rparr>, snd st))"

subsection \<open>Segments\<close>

interpretation gp: message_server "\<lambda>g. ReadBuffer (heap g p)" "store_buffer p" "handle_data env p" for env p
proof unfold_locales
  fix b b' :: bytes and g :: gpcm and data :: bytes
  show "ReadBuffer (heap (store_buffer p b g) p) = b" by (simp add: store_buffer_def)
  show "store_buffer p b (store_buffer p b' g) = store_buffer p b g" by (simp add: store_buffer_def)
  show "store_buffer p (ReadBuffer (heap g p)) g = g" by (simp add: store_buffer_def)
  show "maxBuffer < length (ReadBuffer (heap g p) @ data) \<Longrightarrow> handle_data env p data g = (g, [])"
    by (simp only: handle_data_def Let_def if_True)
  show "length (ReadBuffer (heap g p) @ data) \<le> maxBuffer \<Longrightarrow> \<not> complete (ReadBuffer (heap g p) @ data) \<Longrightarrow>
      handle_data env p data g = (store_buffer p (ReadBuffer (heap g p) @ data) g, [])"
    by (simp add: handle_data_def Let_def)
  show "length (ReadBuffer (heap g p) @ data) \<le> maxBuffer \<Longrightarrow>
      handle_data env p data g = handle_data env p (ReadBuffer (heap g p) @ data) (store_buffer p [] g)"
    by (simp add: handle_data_def Let_def store_buffer_def)
qed

end
