(* ===== verification/GpcmSessions.thy ===== *)
theory GpcmSessions
  imports Gpcm
begin

text \<open>
  What the operations of the profile server do to the table of sessions, as an abstract step relation. A
  step belongs to one session, a login included, whose entry must be free at that moment; the sessions in
  \<open>B\<close> do not step. A packet refines a sequence of such steps, whatever steps of other sessions happen while
  it waits. Invariants are proved for the steps.
\<close>

inductive table_step :: "nat set \<Rightarrow> gpcm \<Rightarrow> gpcm \<Rightarrow> bool" for B where
  update: "p \<notin> B \<Longrightarrow>
     (LoggedIn s \<Longrightarrow> LoggedIn (heap g p) \<and> ProfileID (Profile s) = ProfileID (Profile (heap g p))) \<Longrightarrow>
     table_step B g (g\<lparr>heap := (heap g)(p := s)\<rparr>)"
| login: "p \<notin> B \<Longrightarrow> \<not> LoggedIn (heap g p) \<Longrightarrow> sessions g (ProfileID (Profile s)) = None \<Longrightarrow>
     table_step B g (g\<lparr>heap := (heap g)(p := s), sessions := (sessions g)(ProfileID (Profile s) \<mapsto> p)\<rparr>)"
| connect: "fresh g \<notin> B \<Longrightarrow> \<not> LoggedIn s \<Longrightarrow>
     table_step B g (g\<lparr>heap := (heap g)(fresh g := s), fresh := fresh g + 1,
       sessionsByConnIndex := (sessionsByConnIndex g)(index \<mapsto> fresh g)\<rparr>)"
| close: "p \<notin> B \<Longrightarrow> LoggedIn (heap g p) \<Longrightarrow> \<not> LoggedIn s \<Longrightarrow> ProfileID (Profile s) = ProfileID (Profile (heap g p)) \<Longrightarrow>
     table_step B g (g\<lparr>heap := (heap g)(p := s), sessions := (sessions g)(ProfileID (Profile s) := None)\<rparr>)"
| store: "table_step B g (g\<lparr>database := d\<rparr>)"

abbreviation table_steps :: "nat set \<Rightarrow> gpcm \<Rightarrow> gpcm \<Rightarrow> bool" where
  "table_steps B \<equiv> (table_step B)\<^sup>*\<^sup>*"

definition gp_ok :: "gpcm \<Rightarrow> bool" where
  "gp_ok g \<longleftrightarrow> (\<forall>p. LoggedIn (heap g p) \<longrightarrow> sessions g (ProfileID (Profile (heap g p))) = Some p)"

lemma gp_okD: "gp_ok g \<Longrightarrow> LoggedIn (heap g p) \<Longrightarrow> sessions g (ProfileID (Profile (heap g p))) = Some p"
  by (simp add: gp_ok_def)

lemma table_step_ok:
  assumes "table_step B g g'" and "gp_ok g"
  shows "gp_ok g'"
  using assms(1)
proof cases
  case (close p s)
  show ?thesis
    unfolding gp_ok_def
  proof (intro allI impI)
    fix q assume q: "LoggedIn (heap g' q)"
    then have "q \<noteq> p" "LoggedIn (heap g q)" using close by (auto split: if_splits)
    then have "sessions g (ProfileID (Profile (heap g q))) = Some q" "sessions g (ProfileID (Profile (heap g p))) = Some p"
      using assms(2) close(3) by (auto intro: gp_okD)
    then show "sessions g' (ProfileID (Profile (heap g' q))) = Some q" using close \<open>q \<noteq> p\<close> by auto
  qed
next
  case (login p s)
  show ?thesis
    unfolding gp_ok_def
  proof (intro allI impI)
    fix q assume q: "LoggedIn (heap g' q)"
    show "sessions g' (ProfileID (Profile (heap g' q))) = Some q"
    proof (cases "q = p")
      case True
      then show ?thesis using login by simp
    next
      case False
      then have "LoggedIn (heap g q)" using login q by simp
      then have "sessions g (ProfileID (Profile (heap g q))) = Some q" using assms(2) gp_okD by blast
      then show ?thesis using login False by auto
    qed
  qed
next
  case (update p s)
  show ?thesis using assms(2) update unfolding gp_ok_def by auto
qed (use assms(2) in \<open>auto simp: gp_ok_def\<close>)

lemma table_steps_ok: "table_steps B g g' \<Longrightarrow> gp_ok g \<Longrightarrow> gp_ok g'"
  by (induction rule: rtranclp_induct) (auto intro: table_step_ok)

lemma table_step_blocked: "table_step B g g' \<Longrightarrow> p \<in> B \<Longrightarrow> heap g' p = heap g p"
  by (induction rule: table_step.induct) auto

lemma table_steps_blocked: "table_steps B g g' \<Longrightarrow> p \<in> B \<Longrightarrow> heap g' p = heap g p"
  by (induction rule: rtranclp_induct) (auto dest: table_step_blocked)

lemma table_step_mono: "table_step B g g' \<Longrightarrow> C \<subseteq> B \<Longrightarrow> table_step C g g'"
  by (induction rule: table_step.induct) (blast intro: table_step.intros)+

lemma table_steps_mono: "table_steps B g g' \<Longrightarrow> C \<subseteq> B \<Longrightarrow> table_steps C g g'"
  by (induction rule: rtranclp_induct) (auto intro: table_step_mono rtranclp.rtrancl_into_rtrancl)

subsection \<open>Operations that leave the table alone\<close>

lemma session_simps [simp]:
  "fst (emit os st) = fst st" "session q (emit os st) = session q st" "pid_at q (emit os st) = pid_at q st"
  "gdb (emit os st) = gdb st" "online_session i (emit os st) = online_session i st"
  "session p (upd_session p f st) = f (session p st)"
  by (simp_all add: emit_def session_def pid_at_def gdb_def online_session_def upd_session_def cong: option.case_cong)

lemma replyError_fst [simp]: "fst (replyError env q e st) = fst st"
  by (simp add: replyError_def Let_def split: outcome.splits)

lemma sendMessage_fst [simp]: "fst (sendMessage env q t i m False st) = fst st"
  by (simp add: sendMessage_def Let_def)

lemma sendFriendStatus_fst [simp]: "fst (sendFriendStatus env q i False st) = fst st"
  by (simp add: sendFriendStatus_def split: option.splits)

lemma logout_loop_fst [simp]: "fst (logout_loop env p fs st) = fst st"
  by (induction env p fs st rule: logout_loop.induct) (auto split: option.splits)

lemma sendLogoutStatus_fst [simp]: "fst (sendLogoutStatus env p st) = fst st"
  by (simp add: sendLogoutStatus_def split: outcome.splits)

lemma fold_fst: "(\<And>x s. fst (f x s) = fst s) \<Longrightarrow> fst (fold f xs st) = fst st"
  by (induction xs arbitrary: st) auto

lemma friend_status_fst [simp]: "fst (friend_status env p f st) = fst st"
  by (simp add: friend_status_def)

subsection \<open>A packet is a sequence of steps\<close>

text \<open>\<open>gp_run B st st'\<close>: the state goes by steps; the output grows.\<close>

definition gp_run :: "nat set \<Rightarrow> gp_state \<Rightarrow> gp_state \<Rightarrow> bool" where
  "gp_run B st st' \<longleftrightarrow> table_steps B (fst st) (fst st')"

lemma gp_run_refl [simp, intro]: "gp_run B st st"
  by (simp add: gp_run_def)

lemma gp_run_trans: "gp_run B st st' \<Longrightarrow> gp_run B st' st'' \<Longrightarrow> gp_run B st st''"
  by (simp add: gp_run_def)

lemma gp_run_fst: "fst st' = fst st \<Longrightarrow> gp_run B st st'"
  by (simp add: gp_run_def)

definition keeps_login :: "(gp_session \<Rightarrow> gp_session) \<Rightarrow> gp_session \<Rightarrow> bool" where
  "keeps_login f s \<longleftrightarrow> (LoggedIn (f s) \<longrightarrow> LoggedIn s \<and> ProfileID (Profile (f s)) = ProfileID (Profile s))"

lemma gp_run_upd: "p \<notin> B \<Longrightarrow> keeps_login f (session p st) \<Longrightarrow> gp_run B st (upd_session p f st)"
  unfolding gp_run_def upd_session_def fst_conv keeps_login_def session_def
  by (rule r_into_rtranclp) (rule table_step.update; simp)

lemma gp_run_set_db: "gp_run B st (set_db d st)"
  unfolding gp_run_def set_db_def fst_conv by (rule r_into_rtranclp) (rule table_step.store)

lemma gp_run_fold: "(\<And>x s. x \<in> set xs \<Longrightarrow> gp_run B s (f x s)) \<Longrightarrow> gp_run B st (fold f xs st)"
proof (induction xs arbitrary: st)
  case (Cons x xs)
  have "gp_run B st (f x st)" "gp_run B (f x st) (fold f xs (f x st))" using Cons by auto
  then show ?case by (auto intro: gp_run_trans)
qed simp

lemma gp_run_send: "p \<notin> B \<Longrightarrow> gp_run B st (sendMessage env p t i m b st)"
  by (cases b) (auto simp: gp_run_fst sendMessage_def Let_def keeps_login_def intro: gp_run_upd gp_run_fst)

lemma gp_run_flush: "p \<notin> B \<Longrightarrow> gp_run B st (flushBuffer env p st)"
proof -
  assume p: "p \<notin> B"
  have "gp_run B st (emit os st)" for os by (rule gp_run_fst) simp
  moreover have "gp_run B (emit os st) (upd_session p (\<lambda>s. s\<lparr>WriteBuffer := []\<rparr>) (emit os st))" for os
    using p by (rule gp_run_upd) (simp add: keeps_login_def)
  ultimately show ?thesis by (auto simp: flushBuffer_def Let_def intro: gp_run_trans)
qed

lemma gp_run_info: "p \<notin> B \<Longrightarrow> gp_run B st (sendFriendsInfo env p st)"
proof -
  assume p: "p \<notin> B"
  have o: "gp_run B s (outgoing_info env p f s)" for f s
    using p by (auto simp: outgoing_info_def gp_run_send)
  have i: "gp_run B s (incoming_info env p f s)" for f s
    using p by (auto simp: incoming_info_def gp_run_send gp_run_fst split: option.splits)
  show ?thesis
    by (auto simp: sendFriendsInfo_def Let_def gp_run_fold o i
        intro: gp_run_trans [OF gp_run_fold gp_run_fold] split: outcome.splits)
qed

text \<open>The steps that others make during a sleep are not those of the session that waits.\<close>

definition fair :: "gp_env \<Rightarrow> nat \<Rightarrow> nat set \<Rightarrow> bool" where
  "fair env p B \<longleftrightarrow> p \<notin> B \<and> (\<forall>st. gp_run (insert p B) st (meanwhile env st))"

lemma wait_gone_run:
  assumes "fair env p B" and "wait_gone env pid n st = (st', gone)"
  shows "gp_run (insert p B) st st' \<and> (gone \<longrightarrow> sessions (fst st') pid = None)"
  using assms(2)
proof (induction n arbitrary: st)
  case (Suc n)
  have m: "gp_run (insert p B) st (meanwhile env st)" using assms(1) unfolding fair_def by blast
  show ?case
  proof (cases "sessions (fst (meanwhile env st)) pid = None")
    case True
    then show ?thesis using Suc.prems m by (auto simp: Let_def)
  next
    case False
    then have "wait_gone env pid n (meanwhile env st) = (st', gone)" using Suc.prems by (auto simp: Let_def)
    from Suc.IH [OF this] m show ?thesis by (auto intro: gp_run_trans)
  qed
qed simp

lemma take_over_run:
  assumes "fair env p B" and "take_over env pid st = (st', gone)"
  shows "gp_run (insert p B) st st' \<and> (gone \<longrightarrow> sessions (fst st') pid = None)"
proof (cases "sessions (fst st) pid")
  case None
  then show ?thesis using assms(2) by (auto simp: take_over_def)
next
  case (Some q)
  then have "wait_gone env pid 21 (replyError env q ErrForcedDisconnect st) = (st', gone)"
    using assms(2) by (simp add: take_over_def)
  from wait_gone_run [OF assms(1) this] show ?thesis unfolding gp_run_def by simp
qed

lemma gp_run_mono: "gp_run B st st' \<Longrightarrow> C \<subseteq> B \<Longrightarrow> gp_run C st st'"
  unfolding gp_run_def by (rule table_steps_mono)

lemma gp_run_blocked: "gp_run B st st' \<Longrightarrow> p \<in> B \<Longrightarrow> session p st' = session p st"
  unfolding gp_run_def session_def by (rule table_steps_blocked)

lemma finish_login_run:
  assumes "p \<notin> B" and "\<not> LoggedIn (session p st)" and "sessions (fst st) (pid_at p st) = None"
  shows "gp_run B st (finish_login env p tok st)"
proof -
  define s where "s = session p (finish_login env p tok st)"
  have s: "LoggedIn s" "ProfileID (Profile s) = pid_at p st"
    by (simp_all add: s_def finish_login_def Let_def session_def upd_session_def emit_def pid_at_def)
  have "fst (finish_login env p tok st) =
      (fst st)\<lparr>heap := (heap (fst st))(p := s), sessions := (sessions (fst st))(ProfileID (Profile s) \<mapsto> p)\<rparr>"
    using s by (simp add: s_def finish_login_def Let_def session_def upd_session_def emit_def)
  then show ?thesis
    unfolding gp_run_def using table_step.login [of p B "fst st" s] assms s
    by (auto simp: session_def)
qed

lemma login_token_run:
  assumes f: "fair env p B" and nl: "\<not> LoggedIn (session p st0)"
    and l: "login_token env p req t st0 = (st', r)"
  shows "gp_run B st0 st'"
proof -
  have p: "p \<notin> B" using f by (simp add: fair_def)
  define st1 where "st1 = upd_session p (set_login_info (get_string req ''gamename'') t) st0"
  define st2 where "st2 = emit [login_info_event t (session p st1)] st1"
  have k: "keeps_login h s" if "\<not> LoggedIn (h s)" for h s
    using that by (simp add: keeps_login_def)
  have "gp_run B st0 st1"
    unfolding st1_def using nl by (intro gp_run_upd p k) (simp add: set_login_info_def Let_def)
  then have r2: "gp_run B st0 st2" using gp_run_fst [of st2 st1 B] by (auto simp: st2_def intro: gp_run_trans)
  have nl2: "\<not> LoggedIn (session p st2)" using nl by (simp add: st2_def st1_def set_login_info_def Let_def)
  have r3: "gp_run B st2 (upd_session p (\<lambda>s. s\<lparr>Profile := pr\<rparr>) st2)" for pr
    using nl2 by (intro gp_run_upd p k) simp
  have r4: "gp_run B st2 (finish_login env p tok st4)"
    if "take_over env (ProfileID pr) (upd_session p (\<lambda>s. s\<lparr>Profile := pr\<rparr>) st2) = (st4, True)" for pr st4 tok
  proof -
    let ?st3 = "upd_session p (\<lambda>s. s\<lparr>Profile := pr\<rparr>) st2"
    have t: "gp_run (insert p B) ?st3 st4" "sessions (fst st4) (ProfileID pr) = None"
      using take_over_run [OF f that] by auto
    then have s: "session p st4 = (session p st2)\<lparr>Profile := pr\<rparr>"
      using gp_run_blocked [of "insert p B" ?st3 st4 p] by simp
    have "gp_run B st4 (finish_login env p tok st4)"
      using p nl2 t(2) by (intro finish_login_run) (simp_all add: s pid_at_def)
    then show ?thesis using r3 [of pr] gp_run_mono [OF t(1), of B] by (auto intro: gp_run_trans)
  qed
  have r5: "gp_run B st2 st4"
    if "take_over env (ProfileID pr) (upd_session p (\<lambda>s. s\<lparr>Profile := pr\<rparr>) st2) = (st4, b)" for pr st4 b
  proof -
    have "gp_run (insert p B) (upd_session p (\<lambda>s. s\<lparr>Profile := pr\<rparr>) st2) st4"
      using take_over_run [OF f that] by (rule conjunct1)
    then have "gp_run B (upd_session p (\<lambda>s. s\<lparr>Profile := pr\<rparr>) st2) st4" by (rule gp_run_mono) blast
    with r3 [of pr] show ?thesis by (rule gp_run_trans)
  qed
  have "gp_run B st2 st'"
    using l r3 r4 r5
    unfolding login_token_def st1_def [symmetric] Let_def st2_def [symmetric]
    by (auto split: if_splits outcome.splits prod.splits bool.splits)
  with r2 show ?thesis by (rule gp_run_trans)
qed

lemma login_run: "fair env p B \<Longrightarrow> login env p st req = (st', r) \<Longrightarrow> gp_run B st st'"
  using login_token_run [of env p B st req _ st' r]
  by (auto simp: login_def split: if_splits outcome.splits token_error.splits)

lemma gp_run_db_send: "gp_run B st (sendMessage env q t i m False (set_db d st))"
  by (rule gp_run_trans [OF gp_run_set_db gp_run_fst]) simp

lemma simple_handler_run:
  assumes "p \<notin> B"
  shows "logout env p st req = (st', r) \<Longrightarrow> gp_run B st st'"
    "addBuddy env p st req = (st', r) \<Longrightarrow> gp_run B st st'"
    "deleteBuddy env p st req = (st', r) \<Longrightarrow> gp_run B st st'"
    "buddyMessage env p st req = (st', r) \<Longrightarrow> gp_run B st st'"
    "getProfile env p st req = (st', r) \<Longrightarrow> gp_run B st st'"
    "KeepAlive env p st req = (st', r) \<Longrightarrow> gp_run B st st'"
    using assms
    by (auto simp: logout_def addBuddy_def deleteBuddy_def buddyMessage_def getProfile_def KeepAlive_def Let_def
        keeps_login_def gp_run_upd gp_run_set_db gp_run_db_send
        intro: gp_run_fst gp_run_trans [OF gp_run_set_db gp_run_fst]
        split: if_splits outcome.splits option.splits db_error.splits)

lemma authAdd_run:
  assumes "p \<notin> B"
  shows "authAdd env p st req = (st', r) \<Longrightarrow> gp_run B st st'"
  by (auto simp: authAdd_def Let_def gp_run_set_db
      intro: gp_run_fst gp_run_trans [OF gp_run_set_db gp_run_fst]
      split: if_splits outcome.splits option.splits)

lemma status_run:
  assumes "p \<notin> B" and "status env p st req = (st', r)"
  shows "gp_run B st st'"
proof -
  have u: "gp_run B s (upd_session p f s)" if "keeps_login f (session p s)" for f s
    using assms(1) that by (rule gp_run_upd)
  define st1 where "st1 = upd_session p (\<lambda>s. s\<lparr>LocString := get_string req ''locstring''\<rparr>) st"
  have u1: "gp_run B st st1" unfolding st1_def by (rule u) (simp add: keeps_login_def)
  have u2: "gp_run B st (upd_session p (\<lambda>s. s\<lparr>Status := l\<rparr>) st1)" for l
    by (rule gp_run_trans [OF u1], rule u) (simp add: keeps_login_def)
  have f: "gp_run B st (fold (friend_status env p) fs (upd_session p (\<lambda>s. s\<lparr>Status := l\<rparr>) st1))" for fs l
    by (rule gp_run_trans [OF u2], rule gp_run_fold, rule gp_run_fst) simp
  show ?thesis
    using assms(2) u1 u2 f
    unfolding status_def Let_def st1_def [symmetric]
    by (auto split: if_splits outcome.splits)
qed

lemma updateProfile_run:
  assumes "p \<notin> B" and "updateProfile env p st req = (st', r)"
  shows "gp_run B st st'"
proof -
  let ?f = "\<lambda>s. s\<lparr>Profile := (Profile s)\<lparr>FirstName := get_string req ''firstname'', LastName := get_string req ''lastname''\<rparr>\<rparr>"
  have u: "gp_run B st (upd_session p ?f st)"
    using assms(1) by (rule gp_run_upd) (simp add: keeps_login_def)
  show ?thesis
    using assms(2) u gp_run_trans [OF u gp_run_set_db]
    by (auto simp: updateProfile_def Let_def split: if_splits outcome.splits)
qed

lemma Handle_run:
  assumes "Handle schema h l st msg = (st', r)" and "\<And>req r'. h st req = (st', r') \<Longrightarrow> gp_run B st st'"
  shows "gp_run B st st'"
  using assms by (auto simp: Handle_def split: outcome.splits prod.splits)

lemma handler_run:
  assumes f: "fair env p B" and h: "handlers env p command = Some h" and r: "h st msg = (st', r)"
  shows "gp_run B st st'"
proof -
  have p: "p \<notin> B" using f by (simp add: fair_def)
  obtain schema hd where m: "map_of request_types command = Some (schema, hd)"
    and hh: "h = Handle schema (hd env p) (\<lambda>_. OtherError)"
    using h by (auto simp: handlers_def)
  have "hd \<in> {KeepAlive, login, logout, updateProfile, status, authAdd, addBuddy, deleteBuddy, buddyMessage, getProfile}"
    using map_of_SomeD [OF m] by (auto simp: request_types_def)
  then have "gp_run B st st'" if "hd env p st req = (st', r')" for req r'
    using that login_run [OF f, of st req st' r'] simple_handler_run [OF p, of env st req st' r']
      authAdd_run [OF p, of env st req st' r'] status_run [OF p, of env st req st' r']
      updateProfile_run [OF p, of env st req st' r']
    by fastforce
  then show ?thesis using Handle_run [OF r [unfolded hh]] by blast
qed

lemma one_message_run:
  assumes f: "fair env p B" and m: "one_message env p msg st = (st', b)"
  shows "gp_run B st st'"
proof (cases "handlers env p (command_of msg)")
  case None
  then show ?thesis using m by (simp add: one_message_def Let_def)
next
  case (Some h)
  have p: "p \<notin> B" using f by (simp add: fair_def)
  obtain st1 r where h: "h st msg = (st1, r)" by (metis surj_pair)
  have r1: "gp_run B st st1" using f Some h by (rule handler_run)
  have w: "gp_run B st1 (upd_session p (\<lambda>s. s\<lparr>WriteBuffer := WriteBuffer s @ t\<rparr>) st1)" for t
    using p by (rule gp_run_upd) (simp add: keeps_login_def)
  note w2 = gp_run_trans [OF gp_run_trans [OF w gp_run_flush [OF p]] gp_run_info [OF p]]
  have "gp_run B st1 st'"
    using m Some h w w2
    by (auto simp: one_message_def Let_def intro: gp_run_fst split: outcome.splits handler_error.splits if_splits)
  with r1 show ?thesis by (rule gp_run_trans)
qed

lemma all_messages_run:
  "fair env p B \<Longrightarrow> all_messages env p ms st = (st', b) \<Longrightarrow> gp_run B st st'"
proof (induction ms arbitrary: st)
  case (Cons m ms)
  obtain st1 b1 where m: "one_message env p m st = (st1, b1)" by (metis surj_pair)
  have r: "gp_run B st st1" using Cons.prems(1) m by (rule one_message_run)
  show ?case
  proof (cases b1)
    case True
    then show ?thesis using r m Cons.prems by simp
  next
    case False
    then have "all_messages env p ms st1 = (st', b)" using m Cons.prems by simp
    from gp_run_trans [OF r Cons.IH [OF Cons.prems(1) this]] show ?thesis .
  qed
qed simp

lemma handle_data_run:
  assumes f: "fair env p B"
  shows "table_steps B g (fst (handle_data env p data g))"
proof -
  have p: "p \<notin> B" using f by (simp add: fair_def)
  let ?joined = "ReadBuffer (heap g p) @ data"
  have s: "gp_run B (g', os) (store_buffer p b g', os')" for b g' os os'
    unfolding gp_run_def store_buffer_def fst_conv
    by (rule r_into_rtranclp) (rule table_step.update [OF p]; simp)
  obtain st b where a: "all_messages env p (messages_of ?joined) (store_buffer p ?joined g, []) = (st, b)"
    by (metis surj_pair)
  have r: "gp_run B (g, []) st"
    using s all_messages_run [OF f a] by (rule gp_run_trans)
  have r2: "gp_run B (g, []) (flushBuffer env p (store_buffer p [] (fst st), snd st))"
    using gp_run_trans [OF gp_run_trans [OF r s [of "fst st" "snd st", simplified]] gp_run_flush [OF p]] .
  show ?thesis
    using r r2 s [of g "[]" ?joined] a
    unfolding handle_data_def Let_def by (auto simp: gp_run_def split: bool.splits)
qed

subsection \<open>Properties of the session table\<close>

text \<open>C1. The profile server refines the abstract table of sessions: whatever a packet contains, and whatever
  other sessions do while a login in it waits, it changes the state by steps of its own session in which a
  login happens only while the profile has no entry; opening and closing a connection are such steps too.\<close>

theorem server_refines_table:
  assumes "\<forall>p. sessionsByConnIndex g index = Some p \<longrightarrow> fair env p B"
  shows "table_steps B g (fst (HandlePacket env index data g)) \<and>
    table_steps B g (fst (CloseConnection env index g)) \<and>
    (fresh g \<notin> B \<longrightarrow> table_steps B g (fst (NewConnection env index address g)))"
proof (intro conjI impI)
  show "table_steps B g (fst (HandlePacket env index data g))"
    using assms handle_data_run by (auto simp: HandlePacket_def split: option.splits)
  show "table_steps B g (fst (CloseConnection env index g))"
  proof (cases "sessionsByConnIndex g index")
    case (Some p)
    then have p: "p \<notin> B" using assms by (simp add: fair_def)
    show ?thesis
    proof (cases "LoggedIn (heap g p)")
      case True
      have "table_step B g (g\<lparr>heap := (heap g)(p := (heap g p)\<lparr>LoggedIn := False\<rparr>),
          sessions := (sessions g)(ProfileID (Profile ((heap g p)\<lparr>LoggedIn := False\<rparr>)) := None)\<rparr>)"
        using p True by (rule table_step.close) simp_all
      then show ?thesis using Some True
        by (auto simp: CloseConnection_def Let_def upd_session_def pid_at_def session_def)
    qed (use Some in \<open>simp add: CloseConnection_def\<close>)
  qed (simp add: CloseConnection_def)
  assume "fresh g \<notin> B"
  then have "table_step B g (g\<lparr>heap := (heap g)(fresh g := new_session env index address), fresh := fresh g + 1,
      sessionsByConnIndex := (sessionsByConnIndex g)(index \<mapsto> fresh g)\<rparr>)"
    by (rule table_step.connect) (simp add: new_session_def)
  then show "table_steps B g (fst (NewConnection env index address g))"
    by (auto simp: NewConnection_def split: outcome.splits)
qed

definition start_state :: "db \<Rightarrow> gpcm" where
  "start_state d = \<lparr>heap = \<lambda>_. \<lparr>ConnIndex = 0, RemoteAddr = [], Profile = zero_profile, LoggedIn = False, Challenge = [],
      AuthToken = [], LoginTicket = [], SessionKey = 0, LoginInfoSet = False, GameName = [], s_GameCode = [],
      s_Region = 0, Language = 0, InGameName = [], s_ConsoleFriendCode = 0, HostPlatform = [], UnitCode = 0,
      Status = [], LocString = [], ReadBuffer = [], WriteBuffer = []\<rparr>,
     fresh = 0, sessions = Map.empty, sessionsByConnIndex = Map.empty, database = d\<rparr>"

lemma start_ok: "gp_ok (start_state d)"
  by (simp add: gp_ok_def start_state_def)

text \<open>C2. A profile is logged in on at most one connection at a time, and the session key that other servers
  accept for it is the key of that connection.\<close>

theorem one_session_per_profile:
  assumes "table_steps {} (start_state d) g" and "LoggedIn (heap g p)"
  shows "(\<forall>q. LoggedIn (heap g q) \<and> ProfileID (Profile (heap g q)) = ProfileID (Profile (heap g p)) \<longrightarrow> q = p) \<and>
    (\<forall>key. VerifySessionKey (ProfileID (Profile (heap g p))) key g \<longleftrightarrow> key = SessionKey (heap g p))"
proof -
  have ok: "gp_ok g" using assms(1) start_ok by (rule table_steps_ok)
  have p: "sessions g (ProfileID (Profile (heap g p))) = Some p" using ok assms(2) by (rule gp_okD)
  moreover have "q = p" if "LoggedIn (heap g q)" "ProfileID (Profile (heap g q)) = ProfileID (Profile (heap g p))" for q
    using gp_okD [OF ok that(1)] that(2) p by simp
  ultimately show ?thesis using assms(2) by (auto simp: VerifySessionKey_def)
qed

definition stale :: "u32 \<Rightarrow> nat \<Rightarrow> gpcm \<Rightarrow> bool" where
  "stale pid p g \<longleftrightarrow> gp_ok g \<and> sessions g pid = Some p \<and> \<not> LoggedIn (heap g p)"

lemma stale_step:
  assumes "table_step {p} g g'" and "stale pid p g"
  shows "stale pid p g'"
proof -
  have ok: "gp_ok g'" using assms table_step_ok by (auto simp: stale_def)
  have "sessions g' pid = Some p"
    using assms(1)
  proof cases
    case (close q s)
    then have "sessions g (ProfileID (Profile (heap g q))) = Some q"
      using assms(2) by (auto simp: stale_def intro: gp_okD)
    then show ?thesis using close assms(2) by (auto simp: stale_def)
  qed (use assms(2) in \<open>auto simp: stale_def\<close>)
  then show ?thesis using ok assms(2) table_step_blocked [OF assms(1), of p] by (simp add: stale_def)
qed

lemma stale_steps: "table_steps {p} g g' \<Longrightarrow> stale pid p g \<Longrightarrow> stale pid p g'"
  by (induction rule: rtranclp_induct) (auto intro: stale_step)

text \<open>Logging out locks a profile out: the request leaves its entry in the table, closing the connection
  afterwards does not remove it, and from then on no connection is ever logged in with the profile,
  whatever the others do.\<close>

theorem logout_is_final:
  assumes "table_steps {} (start_state d) g" and "LoggedIn (heap g p)" and "sessionsByConnIndex g index = Some p"
    and "table_steps {p} (fst (CloseConnection env index (fst (fst (logout env p (g, []) req))))) g'"
  shows "\<not> (LoggedIn (heap g' q) \<and> ProfileID (Profile (heap g' q)) = ProfileID (Profile (heap g p)))"
proof -
  have ok: "gp_ok g" using assms(1) start_ok by (rule table_steps_ok)
  let ?g1 = "fst (fst (logout env p (g, []) req))"
  have g1: "?g1 = g\<lparr>heap := (heap g)(p := (heap g p)\<lparr>LoggedIn := False\<rparr>)\<rparr>"
    by (simp add: logout_def upd_session_def)
  have "table_step {} g ?g1" unfolding g1 by (rule table_step.update) simp_all
  then have "stale (ProfileID (Profile (heap g p))) p ?g1"
    using gp_okD [OF ok assms(2)] table_step_ok [OF _ ok] by (auto simp: stale_def g1)
  moreover have "fst (CloseConnection env index ?g1) = ?g1"
    using assms(3) by (simp add: CloseConnection_def g1)
  ultimately have "stale (ProfileID (Profile (heap g p))) p g'"
    using assms(4) stale_steps by simp
  then show ?thesis by (auto simp: stale_def dest: gp_okD)
qed

subsection \<open>Logging in\<close>

text \<open>C17. Nobody logs in without proof: a successful login presented a token that the server's key opens and
  that is not expired, answered the challenge of this very connection with it, and names a console and a profile
  that fit; the session then carries the profile of the token.\<close>

theorem login_needs_proof:
  assumes "login env p st req = (st', Ret r)" and "fair env p B"
  shows "\<exists>t. unmarshal_token (tokens env) (now env) (get_string req ''authtoken'') = Ret t \<and>
    get_string req ''response'' = generateResponse (Challenge (session p st))
      (string_of (NullTerminatedString (token_Challenge t))) (get_string req ''authtoken'') (get_string req ''challenge'') \<and>
    unit_code_ok (set_login_info (get_string req ''gamename'') t (session p st)) \<and>
    has_profile (gdb st) (token_ProfileID t) \<and>
    LoggedIn (session p st') \<and> pid_at p st' = token_ProfileID t"
proof -
  obtain t where t: "unmarshal_token (tokens env) (now env) (get_string req ''authtoken'') = Ret t"
    and l: "login_token env p req t st = (st', Ret r)"
    using assms(1) by (auto simp: login_def split: if_splits outcome.splits token_error.splits)
  define st1 where "st1 = upd_session p (set_login_info (get_string req ''gamename'') t) st"
  define st2 where "st2 = emit [login_info_event t (session p st1)] st1"
  have s2: "session p st2 = set_login_info (get_string req ''gamename'') t (session p st)" "gdb st2 = gdb st"
    by (simp_all add: st2_def st1_def) (simp add: gdb_def upd_session_def)
  obtain pr st4 where pr: "GetProfile (token_ProfileID t) (gdb st2) = Ret pr"
    and tk: "take_over env (ProfileID pr) (upd_session p (\<lambda>s. s\<lparr>Profile := pr\<rparr>) st2) = (st4, True)"
    and st': "st' = finish_login env p (get_string req ''authtoken'') st4"
    and u: "unit_code_ok (session p st2)"
    and g: "generateResponse (Challenge (session p st2)) (string_of (NullTerminatedString (token_Challenge t)))
        (get_string req ''authtoken'') (get_string req ''challenge'') = get_string req ''response''"
    using l unfolding login_token_def st1_def [symmetric] Let_def st2_def [symmetric]
    by (auto split: if_splits outcome.splits prod.splits bool.splits)
  have "gp_run (insert p B) (upd_session p (\<lambda>s. s\<lparr>Profile := pr\<rparr>) st2) st4"
    using take_over_run [OF assms(2) tk] by (rule conjunct1)
  then have "Profile (session p st4) = pr"
    using gp_run_blocked [of "insert p B" _ st4 p] by simp
  then have "LoggedIn (session p st')" "pid_at p st' = ProfileID pr"
    unfolding st' by (simp_all add: finish_login_def Let_def session_def upd_session_def emit_def pid_at_def)
  moreover have "ProfileID pr = token_ProfileID t" "has_profile (gdb st) (token_ProfileID t)"
    using pr s2 by (auto simp: GetProfile_def has_profile_def profile_of_def split: option.splits)
  ultimately show ?thesis using t u g s2 by (intro exI [of _ t]) (simp add: set_login_info_def Let_def)
qed

subsection \<open>A run of the server\<close>

definition sample_gp_env :: gp_env where
  "sample_gp_env = \<lparr>tokens = sample_env, tickets = sample_env, now = 1001 * second, rnd = 0, rnd_challenge = ''ABCDEFGHIJ'',
     rnd_sig = [], send_ok = \<lambda>_. True, meanwhile = \<lambda>st. st\<rparr>"

lemma sample_fair: "p \<notin> B \<Longrightarrow> fair sample_gp_env p B"
  by (simp add: fair_def sample_gp_env_def)

definition sample_token_text :: string where
  "sample_token_text = marshal_token sample_env (1000 * second) sample_token"

definition sample_login :: "field list" where
  "sample_login = [(''login'', GString []), (''challenge'', GString ''client''), (''authtoken'', GString sample_token_text),
     (''response'', GString (generateResponse ''ABCDEFGHIJ'' ''ABCDEFGH'' sample_token_text ''client'')),
     (''firewall'', GBool False), (''port'', GUint 16 0), (''productid'', GInt 64 0),
     (''gamename'', GString ''mariokartwii''), (''namespaceid'', GInt 64 0), (''id'', GInt 64 1)]"

definition connected :: gpcm where
  "connected = (start_state sample_db)\<lparr>heap := (heap (start_state sample_db))(0 := new_session sample_gp_env 9 ''10.0.0.1:50000''),
     fresh := 1, sessionsByConnIndex := [9 \<mapsto> 0]\<rparr>"

lemma sample_login_fields [simp]:
  "get_string sample_login ''authtoken'' = sample_token_text" "get_string sample_login ''challenge'' = ''client''"
  "get_string sample_login ''gamename'' = ''mariokartwii''"
  "get_string sample_login ''response'' = generateResponse ''ABCDEFGHIJ'' ''ABCDEFGH'' sample_token_text ''client''"
  by (simp_all add: sample_login_def get_string_def field_of_def tag_key_def tag_split_def)

lemma sample_challenge: "string_of (NullTerminatedString (token_Challenge sample_token)) = ''ABCDEFGH''"
  by code_simp

lemma sample_unit_code: "GameName s = ''mariokartwii'' \<Longrightarrow> UnitCode s = 1 \<Longrightarrow> unit_code_ok s"
proof -
  have "GetExpectedUnitCode ''mariokartwii'' = 1" by code_simp
  then show "GameName s = ''mariokartwii'' \<Longrightarrow> UnitCode s = 1 \<Longrightarrow> unit_code_ok s" by (simp add: unit_code_ok_def)
qed

lemma sample_profile: "GetProfile 1 sample_db =
    Ret \<lparr>ProfileID = 1, WFCID = 5, GsbrCode = ''RMCJ'', FirstName = [], LastName = []\<rparr>"
  by (simp add: GetProfile_def sample_db_def profile_of_def online_def)

lemma sample_login_runs:
  "\<exists>st r. login sample_gp_env 0 (connected, []) sample_login = (st, Ret r) \<and> LoggedIn (heap (fst st) 0) \<and>
     ProfileID (Profile (heap (fst st) 0)) = 1 \<and> sessionsByConnIndex (fst st) 9 = Some 0"
proof -
  let ?t = "sample_token\<lparr>IssueTime := 1000, Magic := replicate 8 3\<rparr>"
  have u: "unmarshal_token (tokens sample_gp_env) (now sample_gp_env) sample_token_text = Ret ?t"
    using sample_unmarshal by (simp add: sample_gp_env_def sample_token_text_def)
  have f: "token_UnitCode ?t = 1" "token_ProfileID ?t = 1" "token_Challenge ?t = token_Challenge sample_token"
    by (simp_all add: sample_token_def)
  have "\<not> LoggedIn (session 0 (connected, []))" by (simp add: session_def connected_def new_session_def)
  then show ?thesis
    unfolding login_def sample_login_fields u token_error.case outcome.case login_token_def Let_def
    by (simp add: sample_unit_code f sample_challenge gdb_def upd_session_def emit_def session_def
        connected_def start_state_def new_session_def sample_gp_env_def set_login_info_def sample_profile
        take_over_def finish_login_def pid_at_def)
qed

definition logged_in :: gpcm where
  "logged_in = fst (fst (login sample_gp_env 0 (connected, []) sample_login))"

lemma logged_in:
  "LoggedIn (heap logged_in 0)" "ProfileID (Profile (heap logged_in 0)) = 1" "sessionsByConnIndex logged_in 9 = Some 0"
  using sample_login_runs by (auto simp: logged_in_def)

lemma logged_in_reachable: "table_steps {} (start_state sample_db) logged_in"
proof -
  have "table_step {} (start_state sample_db) connected"
    unfolding connected_def
    using table_step.connect [of "start_state sample_db" "{}" "new_session sample_gp_env 9 ''10.0.0.1:50000''" 9]
    by (simp add: start_state_def new_session_def)
  moreover have "table_steps {} connected logged_in"
    using login_run [OF sample_fair [of 0 "{}"]] by (fastforce simp: gp_run_def logged_in_def prod_eq_iff)
  ultimately show ?thesis by (rule converse_rtranclp_into_rtranclp)
qed

theorem server_refines_table_witness:
  "table_steps {} connected (fst (HandlePacket sample_gp_env 9 [92, 107] connected)) \<and>
   table_steps {} connected (fst (CloseConnection sample_gp_env 9 connected))"
  using server_refines_table [of connected 9 sample_gp_env "{}"] sample_fair by auto

theorem one_session_per_profile_witness:
  "\<forall>key. VerifySessionKey 1 key logged_in \<longleftrightarrow> key = SessionKey (heap logged_in 0)"
  using one_session_per_profile [OF logged_in_reachable logged_in(1)] logged_in(2) by simp

theorem logout_is_final_witness:
  "\<forall>q. \<not> (LoggedIn (heap (fst (CloseConnection sample_gp_env 9 (fst (fst (logout sample_gp_env 0 (logged_in, []) []))))) q) \<and>
      ProfileID (Profile (heap (fst (CloseConnection sample_gp_env 9 (fst (fst (logout sample_gp_env 0 (logged_in, []) []))))) q)) = 1)"
  using logout_is_final [OF logged_in_reachable logged_in(1,3) rtranclp.rtrancl_refl, of sample_gp_env "[]"]
    logged_in(2) by simp

theorem login_needs_proof_witness:
  "\<exists>st r t. login sample_gp_env 0 (connected, []) sample_login = (st, Ret r) \<and>
     unmarshal_token sample_env (1001 * second) sample_token_text = Ret t \<and> pid_at 0 st = token_ProfileID t"
proof -
  obtain st r where l: "login sample_gp_env 0 (connected, []) sample_login = (st, Ret r)"
    using sample_login_runs by blast
  from login_needs_proof [OF this sample_fair [of 0 "{}"]] l show ?thesis by (auto simp: sample_gp_env_def)
qed

subsection \<open>Restarts\<close>

text \<open>
  \<open>saveState\<close> writes the table of logged in profiles. \<open>loadState\<close> reads it into new sessions and makes the table by
  connection from them; the list is the order the loop visits the table in. Saving forgets the connections that no
  profile has logged in on, and loading two entries that were one session makes two.
\<close>

definition saveState :: "gpcm \<Rightarrow> (u32 \<rightharpoonup> gp_session)" where
  "saveState g = (\<lambda>pid. map_option (heap g) (sessions g pid))"

fun load_session :: "(u32 \<rightharpoonup> gp_session) \<Rightarrow> u32 \<Rightarrow> gpcm \<Rightarrow> gpcm" where
  "load_session saved pid g = (case saved pid of
      None \<Rightarrow> g
    | Some s \<Rightarrow> g\<lparr>heap := (heap g)(fresh g := s), fresh := fresh g + 1, sessions := (sessions g)(pid \<mapsto> fresh g),
        sessionsByConnIndex := (sessionsByConnIndex g)(ConnIndex s \<mapsto> fresh g)\<rparr>)"

definition loadState :: "(u32 \<rightharpoonup> gp_session) \<Rightarrow> u32 list \<Rightarrow> db \<Rightarrow> gpcm" where
  "loadState saved order d = fold (load_session saved) order (start_state d)"

definition loaded :: "(u32 \<rightharpoonup> gp_session) \<Rightarrow> u32 set \<Rightarrow> gpcm \<Rightarrow> bool" where
  "loaded saved D g \<longleftrightarrow>
     (\<forall>pid. if pid \<in> D then map_option (heap g) (sessions g pid) = saved pid else sessions g pid = None) \<and>
     (\<forall>pid p. sessions g pid = Some p \<longrightarrow> p < fresh g) \<and>
     (\<forall>i p. sessionsByConnIndex g i = Some p \<longrightarrow> (\<exists>pid. sessions g pid = Some p \<and> ConnIndex (heap g p) = i)) \<and>
     (\<forall>pid p. sessions g pid = Some p \<longrightarrow> sessionsByConnIndex g (ConnIndex (heap g p)) \<noteq> None)"

lemma load_session_loaded:
  assumes "loaded saved D g" and "pid \<notin> D"
  shows "loaded saved (insert pid D) (load_session saved pid g)"
proof (cases "saved pid")
  case None
  then show ?thesis using assms by (auto simp: loaded_def)
next
  case (Some s)
  have lt: "p < fresh g" if "sessions g q = Some p" for q p using assms(1) that by (simp add: loaded_def)
  have free: "sessions g pid = None" using assms by (simp add: loaded_def)
  have saved: "map_option (heap g) (sessions g q) = (if q \<in> D then saved q else None)" for q
    using assms(1) by (auto simp: loaded_def)
  have other: "map_option ((heap g)(fresh g := s)) (sessions g q) = map_option (heap g) (sessions g q)" for q
    using lt [of q] by (cases "sessions g q") auto
  have conn: "\<exists>q. sessions g q = Some p \<and> ConnIndex (heap g p) = i" if "sessionsByConnIndex g i = Some p" for i p
    using assms(1) that by (simp add: loaded_def)
  have again: "\<exists>p'. sessionsByConnIndex g (ConnIndex (heap g p)) = Some p'" if "sessions g q = Some p" for q p
    using assms(1) that by (auto simp: loaded_def)
  let ?g = "load_session saved pid g"
  have g: "heap ?g = (heap g)(fresh g := s)" "fresh ?g = fresh g + 1" "sessions ?g = (sessions g)(pid \<mapsto> fresh g)"
    "sessionsByConnIndex ?g = (sessionsByConnIndex g)(ConnIndex s \<mapsto> fresh g)"
    using Some by simp_all
  have 1: "if q \<in> insert pid D then map_option (heap ?g) (sessions ?g q) = saved q else sessions ?g q = None" for q
    using other [of q] saved [of q] Some unfolding g by (cases "q = pid") (auto split: if_splits)
  have 2: "p < fresh ?g" if "sessions ?g q = Some p" for q p
    using that lt unfolding g by (fastforce split: if_splits)
  have 3: "\<exists>q. sessions ?g q = Some p \<and> ConnIndex (heap ?g p) = i" if "sessionsByConnIndex ?g i = Some p" for i p
  proof (cases "i = ConnIndex s")
    case True
    then show ?thesis using that unfolding g by (intro exI [of _ pid]) simp
  next
    case False
    have "sessionsByConnIndex g i = Some p" using that False unfolding g by simp
    then obtain q where q: "sessions g q = Some p" "ConnIndex (heap g p) = i" using conn by blast
    then show ?thesis using free lt [OF q(1)] unfolding g by (intro exI [of _ q]) auto
  qed
  have 4: "sessionsByConnIndex ?g (ConnIndex (heap ?g p)) \<noteq> None" if "sessions ?g q = Some p" for q p
    using that again [of q p] lt [of q p] unfolding g by (auto split: if_splits)
  show ?thesis unfolding loaded_def using 1 2 3 4 by blast
qed

lemma load_sessions_loaded:
  "distinct order \<Longrightarrow> set order \<inter> D = {} \<Longrightarrow> loaded saved D g \<Longrightarrow> loaded saved (D \<union> set order) (fold (load_session saved) order g)"
proof (induction order arbitrary: D g)
  case (Cons pid order)
  have "loaded saved (insert pid D \<union> set order) (fold (load_session saved) order (load_session saved pid g))"
    using Cons.prems by (intro Cons.IH load_session_loaded) auto
  then show ?case by (simp del: load_session.simps)
qed simp

lemma loadState_loaded:
  "distinct order \<Longrightarrow> set order = dom saved \<Longrightarrow> loaded saved (dom saved) (loadState saved order d)"
  using load_sessions_loaded [of order "{}" saved "start_state d"]
  by (simp add: loadState_def loaded_def start_state_def)

text \<open>
  Every profile that was logged in has the same session after a restart, with the same key, in whatever order the
  loop runs; its connection finds a session again, and a connection without a profile finds none.
\<close>

lemma gpcm_restart:
  fixes d :: db
  assumes "distinct order" and "set order = dom (sessions g)"
  defines "g' \<equiv> loadState (saveState g) order d"
  shows "saveState g' = saveState g \<and> (\<forall>pid key. VerifySessionKey pid key g' \<longleftrightarrow> VerifySessionKey pid key g) \<and>
    (\<forall>i. sessionsByConnIndex g' i = None \<longleftrightarrow> (\<forall>pid s. saveState g pid = Some s \<longrightarrow> ConnIndex s \<noteq> i))"
proof -
  have dom: "set order = dom (saveState g)" using assms(2) by (auto simp: saveState_def)
  have l: "loaded (saveState g) (dom (saveState g)) g'"
    unfolding g'_def using assms(1) dom by (rule loadState_loaded)
  have same: "saveState g' pid = saveState g pid" for pid
    using l by (cases "pid \<in> dom (saveState g)") (auto simp: loaded_def saveState_def)
  have key: "VerifySessionKey pid key h \<longleftrightarrow> (\<exists>s. saveState h pid = Some s \<and> LoggedIn s \<and> SessionKey s = key)" for pid key h
    by (auto simp: VerifySessionKey_def saveState_def split: option.splits)
  have "(\<exists>p. sessionsByConnIndex g' i = Some p) \<longleftrightarrow> (\<exists>pid s. saveState g' pid = Some s \<and> ConnIndex s = i)" for i
    using l unfolding loaded_def saveState_def by fastforce
  then show ?thesis using same key by (metis ext not_Some_eq)
qed

end
