(* ===== verification/GpcmFriends.thy ===== *)
theory GpcmFriends
  imports GpcmSessions
begin

text \<open>
  What the requests of the profile server about friends, status and messages let through, on every branch.
\<close>

subsection \<open>Messages\<close>

text \<open>What a text sent to a session is: the packet, and the connection closed when it cannot be sent.\<close>

definition delivery :: "gp_env \<Rightarrow> gp_session \<Rightarrow> string \<Rightarrow> gs_out list" where
  "delivery env s text =
     Packet (ConnIndex s) (bytes_of text) # (if send_ok env (ConnIndex s) then [] else [CloseConn (ConnIndex s)])"

lemma sendMessage_delivery:
  "sendMessage env q t i m False st = emit (delivery env (session q st) (buddy_text t i m)) st"
  by (simp add: sendMessage_def Let_def delivery_def)

lemma delivery_packet: "Packet i b \<in> set (delivery env s text) \<longleftrightarrow> i = ConnIndex s \<and> b = bytes_of text"
  by (auto simp: delivery_def)

lemma snd_emit [simp]: "snd (emit os st) = snd st @ os"
  by (simp add: emit_def)

lemma online_session_Some:
  "online_session pid st = Some q \<longleftrightarrow> sessions (fst st) pid = Some q \<and> LoggedIn (session q st)"
  by (auto simp: online_session_def split: option.splits)

subsection \<open>Status\<close>

definition sent_by :: "gp_state \<Rightarrow> gp_state \<Rightarrow> gs_out list" where
  "sent_by st st' = drop (length (snd st)) (snd st')"

definition may_see :: "nat \<Rightarrow> gp_state \<Rightarrow> u32 \<Rightarrow> u64 \<Rightarrow> bool" where
  "may_see p st fid i \<longleftrightarrow>
     (case online_session fid st of
        None \<Rightarrow> False
      | Some q \<Rightarrow> ConnIndex (session q st) = i \<and>
          (has_prefix (s_GameCode (session q st)) ''RMC'' \<longrightarrow> length (LocString (session p st)) \<le> 0x14))"

lemma online_session_fst: "fst st' = fst st \<Longrightarrow> online_session i st' = online_session i st"
  by (simp add: online_session_def session_def cong: option.case_cong)

lemma session_fst: "fst st' = fst st \<Longrightarrow> session q st' = session q st"
  by (simp add: session_def)

lemma sendFriendStatus_out:
  "\<exists>os. snd (sendFriendStatus env p fid False st) = snd st @ os \<and> (\<forall>i b. Packet i b \<in> set os \<longrightarrow> may_see p st fid i)"
proof (cases "online_session fid st")
  case None
  then show ?thesis by (simp add: sendFriendStatus_def)
next
  case (Some q)
  show ?thesis
  proof (cases "has_prefix (s_GameCode (session q st)) ''RMC'' \<and> 0x14 < length (LocString (session p st))")
    case True
    then show ?thesis using Some by (simp add: sendFriendStatus_def)
  next
    case False
    then have "snd (sendFriendStatus env p fid False st) =
        snd st @ delivery env (session q st) (buddy_text BuddyStatus (pid_at p st) (Status (session p st)))"
      using Some by (auto simp: sendFriendStatus_def sendMessage_delivery)
    then show ?thesis using False Some by (auto simp: may_see_def delivery_packet)
  qed
qed

lemma friend_status_one:
  "\<exists>os. snd (friend_status env p f st) = snd st @ os \<and>
     (\<forall>i b. Packet i b \<in> set os \<longrightarrow> Authorized f \<and> may_see p st (FriendID f) i)"
  using sendFriendStatus_out [of env p "FriendID f" st] by (simp add: friend_status_def)

lemma friend_status_out:
  "fst st = fst st0 \<Longrightarrow> \<exists>os. snd (fold (friend_status env p) fs st) = snd st @ os \<and>
     (\<forall>i b. Packet i b \<in> set os \<longrightarrow> (\<exists>f \<in> set fs. Authorized f \<and> may_see p st0 (FriendID f) i))"
proof (induction fs arbitrary: st)
  case (Cons f fs)
  let ?st1 = "friend_status env p f st"
  have m: "may_see p st fid i = may_see p st0 fid i" for fid i
    by (simp add: may_see_def online_session_fst [OF Cons.prems] session_fst [OF Cons.prems] cong: option.case_cong)
  have "\<exists>os. snd ?st1 = snd st @ os \<and> (\<forall>i b. Packet i b \<in> set os \<longrightarrow> Authorized f \<and> may_see p st0 (FriendID f) i)"
    using friend_status_one [of env p f st] by (simp only: m)
  then obtain os where os: "snd ?st1 = snd st @ os"
    "\<forall>i b. Packet i b \<in> set os \<longrightarrow> Authorized f \<and> may_see p st0 (FriendID f) i"
    by (elim exE conjE) (rule that)
  have "fst ?st1 = fst st0" using Cons.prems by simp
  from Cons.IH [OF this] obtain os' where "snd (fold (friend_status env p) fs ?st1) = snd ?st1 @ os'"
    "\<forall>i b. Packet i b \<in> set os' \<longrightarrow> (\<exists>f \<in> set fs. Authorized f \<and> may_see p st0 (FriendID f) i)" by blast
  with os have "snd (fold (friend_status env p) (f # fs) st) = snd st @ os @ os'" by simp
  moreover have "\<forall>i b. Packet i b \<in> set (os @ os') \<longrightarrow>
      (\<exists>f \<in> set (f # fs). Authorized f \<and> may_see p st0 (FriendID f) i)"
    using os(2) \<open>\<forall>i b. Packet i b \<in> set os' \<longrightarrow> (\<exists>f \<in> set fs. Authorized f \<and> may_see p st0 (FriendID f) i)\<close>
    by (metis Un_iff list.set_intros set_append)
  ultimately show ?case by blast
qed simp

text \<open>A status is shown only to authorized friends who are online, and a location text longer than 20
  characters, which overflows a buffer of Mario Kart Wii, never reaches a session of that game.\<close>

theorem status_audience:
  assumes "status env p st req = (st', r)" and "Packet i b \<in> set (sent_by st st')"
  shows "\<exists>fs f q. GetFriends (pid_at p st) False (gdb st) = Ret fs \<and> f \<in> set fs \<and> Authorized f \<and>
    online_session (FriendID f) st' = Some q \<and> ConnIndex (session q st') = i \<and>
    (has_prefix (s_GameCode (session q st')) ''RMC'' \<longrightarrow> length (get_string req ''locstring'') \<le> 20)"
proof -
  define st1 where "st1 = upd_session p (\<lambda>s. s\<lparr>LocString := get_string req ''locstring''\<rparr>) st"
  have keep: "pid_at p (upd_session p (\<lambda>s. s\<lparr>Status := l\<rparr>) st1) = pid_at p st"
    "gdb (upd_session p (\<lambda>s. s\<lparr>Status := l\<rparr>) st1) = gdb st" "snd (upd_session p (\<lambda>s. s\<lparr>Status := l\<rparr>) st1) = snd st" for l
    by (simp_all add: st1_def upd_session_def pid_at_def session_def gdb_def)
  have other: "snd st' \<noteq> snd st" "snd st1 = snd st"
    using assms(2) by (auto simp: sent_by_def st1_def upd_session_def)
  obtain l fs where fs: "GetFriends (pid_at p st) False (gdb st) = Ret fs"
    and st': "st' = fold (friend_status env p) fs (upd_session p (\<lambda>s. s\<lparr>Status := l\<rparr>) st1)"
  proof -
    have "\<exists>l fs. GetFriends (pid_at p st) False (gdb st) = Ret fs \<and>
        st' = fold (friend_status env p) fs (upd_session p (\<lambda>s. s\<lparr>Status := l\<rparr>) st1)"
      using assms(1) other
      unfolding status_def Let_def st1_def [symmetric] keep
      by (auto simp: keep split: if_splits outcome.splits)
    then show ?thesis using that by blast
  qed
  let ?st2 = "upd_session p (\<lambda>s. s\<lparr>Status := l\<rparr>) st1"
  obtain os where os: "snd st' = snd ?st2 @ os"
    "\<forall>i b. Packet i b \<in> set os \<longrightarrow> (\<exists>f \<in> set fs. Authorized f \<and> may_see p ?st2 (FriendID f) i)"
    using friend_status_out [of ?st2 ?st2 env p fs] st' by auto
  have "sent_by st st' = os" using os(1) by (simp add: sent_by_def upd_session_def st1_def)
  then obtain f where f: "f \<in> set fs" "Authorized f" "may_see p ?st2 (FriendID f) i" using os(2) assms(2) by blast
  have e: "fst st' = fst ?st2" unfolding st' by (rule fold_fst) simp
  then have "may_see p st' (FriendID f) i" using f(3) by (simp add: may_see_def online_session_fst [OF e] session_fst [OF e] cong: option.case_cong)
  moreover have "LocString (session p st') = get_string req ''locstring''"
    using e by (simp add: session_fst [OF e]) (simp add: st1_def)
  ultimately show ?thesis using fs f by (auto simp: may_see_def split: option.splits)
qed

subsection \<open>Friend requests\<close>

text \<open>Anyone can claim to accept a request that was never made: the update affects no row, which is no
  error, so the request succeeds, the database stays as it is, and the alleged sender, if online, is told that
  its friend request has been accepted.\<close>

theorem unrequested_authorization:
  assumes "LoggedIn (session p st)" and "up (gdb st)"
    and "\<not> list_ex (edge (get_pid req ''fromprofileid'') (pid_at p st)) (friends (gdb st))"
    and "online_session (get_pid req ''fromprofileid'') st = Some q"
  shows "\<exists>st'. authAdd env p st req = (st', Ret None) \<and> fst st' = fst st \<and>
    Packet (ConnIndex (session q st)) (bytes_of (buddy_text BuddyAuth (pid_at p st) [])) \<in> set (snd st')"
proof -
  let ?from = "get_pid req ''fromprofileid''"
  have "AuthFriend ?from (pid_at p st) (gdb st) = Ret (gdb st)"
    using assms(2,3) by (auto simp: AuthFriend_def online_def list_ex_iff intro!: db.equality map_idI)
  moreover have "set_db (gdb st) st = st" by (simp add: set_db_def gdb_def)
  ultimately show ?thesis
    using assms(1,4)
    by (auto simp: authAdd_def Let_def sendMessage_def emit_def session_fst [of "sendFriendStatus env p _ False st"]
        pid_at_def)
qed

lemma befriended:
  assumes "LoggedIn (session p st)" and "LoggedIn (session q st)" and "up (gdb st)" and "pid_at p st \<noteq> pid_at q st"
    and "has_profile (gdb st) (pid_at p st)" and "has_profile (gdb st) (pid_at q st)"
    and "\<not> list_ex (edge (pid_at p st) (pid_at q st)) (friends (gdb st))"
    and "\<not> code_missing p st"
    and "get_pid add_req ''newprofileid'' = pid_at q st" and "get_pid auth_req ''fromprofileid'' = pid_at p st"
  shows "\<exists>st1 st2 d1 d2. addBuddy env p st add_req = (st1, Ret None) \<and> fst st1 = (fst st)\<lparr>database := d1\<rparr> \<and>
    \<not> isFriendAuthorized p (pid_at q st) st1 \<and> authAdd env q st1 auth_req = (st2, Ret None) \<and>
    fst st2 = (fst st)\<lparr>database := d2\<rparr> \<and> isFriendAuthorized p (pid_at q st) st2"
proof -
  let ?row = "\<lparr>f_sender = pid_at p st, f_recipient = pid_at q st, f_authorized = False, f_created = unix (now env)\<rparr>"
  let ?d1 = "(gdb st)\<lparr>friends := friends (gdb st) @ [?row]\<rparr>"
  have add: "AddFriend (unix (now env)) (pid_at p st) (pid_at q st) (gdb st) = Ret ?d1"
    using assms(3,5,6,7) by (simp add: AddFriend_def has_profile_def online_def)
  obtain st1 where st1: "addBuddy env p st add_req = (st1, Ret None)" "fst st1 = (fst st)\<lparr>database := ?d1\<rparr>"
    using assms add
    by (cases "online_session (pid_at q st) (set_db ?d1 st)") (auto simp: addBuddy_def Let_def set_db_def)
  have s1: "session x st1 = session x st" "gdb st1 = ?d1" "pid_at x st1 = pid_at x st" for x
    using st1(2) by (simp_all add: session_def gdb_def pid_at_def)
  have f1: "find (edge (pid_at p st) (pid_at q st)) (friends (gdb st)) = None"
    using assms(7) by (auto simp: find_None_iff list_ex_iff)
  have find_app: "find P (xs @ ys) = (case find P xs of None \<Rightarrow> find P ys | Some x \<Rightarrow> Some x)" for P and xs ys :: "friend_row list"
    by (induction xs) auto
  have n1: "\<not> isFriendAuthorized p (pid_at q st) st1"
    using f1 assms(3) by (simp add: isFriendAuthorized_def s1 GetFriendAuth_def find_app edge_def online_def)
  let ?d2 = "?d1\<lparr>friends := map (\<lambda>f. if edge (pid_at p st) (pid_at q st) f then f\<lparr>f_authorized := True\<rparr> else f) (friends ?d1)\<rparr>"
  have auth: "AuthFriend (pid_at p st) (pid_at q st) (gdb st1) = Ret ?d2"
    using assms(3) by (simp add: AuthFriend_def s1 online_def)
  obtain st2 where st2: "authAdd env q st1 auth_req = (st2, Ret None)" "fst st2 = (fst st1)\<lparr>database := ?d2\<rparr>"
    using assms(2,10) auth
    by (cases "online_session (pid_at p st) (set_db ?d2 st1)") (auto simp: authAdd_def Let_def s1 set_db_def)
  have s2: "gdb st2 = ?d2" "pid_at p st2 = pid_at p st"
    using st2(2) st1(2) by (simp_all add: gdb_def pid_at_def session_def)
  have m: "map (\<lambda>f. if edge (pid_at p st) (pid_at q st) f then f\<lparr>f_authorized := True\<rparr> else f) (friends (gdb st)) = friends (gdb st)"
    using assms(7) by (auto simp: list_ex_iff intro: map_idI)
  have "friends ?d2 = friends (gdb st) @ [?row\<lparr>f_authorized := True\<rparr>]" using m by (simp add: edge_def)
  then have "GetFriendAuth (pid_at p st) (pid_at q st) ?d2 = Ret True"
    using f1 assms(3) by (simp add: GetFriendAuth_def find_app online_def) (simp add: edge_def)
  then have "isFriendAuthorized p (pid_at q st) st2" by (simp add: isFriendAuthorized_def s2)
  moreover have "fst st2 = (fst st)\<lparr>database := ?d2\<rparr>" using st1(2) st2(2) by simp
  ultimately show ?thesis using st1 n1 st2(1) by blast
qed

text \<open>Two profiles become friends in two steps: after one has asked and the other has accepted, the first
  one's messages to the second pass the friendship check, and before the acceptance they do not.\<close>

theorem friendship:
  assumes "LoggedIn (session p st)" and "LoggedIn (session q st)" and "up (gdb st)" and "pid_at p st \<noteq> pid_at q st"
    and "has_profile (gdb st) (pid_at p st)" and "has_profile (gdb st) (pid_at q st)"
    and "\<not> list_ex (edge (pid_at p st) (pid_at q st)) (friends (gdb st))"
    and "\<not> code_missing p st"
    and "get_pid add_req ''newprofileid'' = pid_at q st" and "get_pid auth_req ''fromprofileid'' = pid_at p st"
  shows "\<exists>st1 st2. addBuddy env p st add_req = (st1, Ret None) \<and> \<not> isFriendAuthorized p (pid_at q st) st1 \<and>
    authAdd env q st1 auth_req = (st2, Ret None) \<and> isFriendAuthorized p (pid_at q st) st2"
  using befriended [OF assms, of env] by blast

subsection \<open>Messages\<close>

text \<open>The text of a match command: a header with the version of the protocol, then parameters between slashes.\<close>

definition match_text :: "string \<Rightarrow> string \<Rightarrow> string list \<Rightarrow> string" where
  "match_text version command params =
     ''GPCM'' @ version @ ''vMAT'' @ command @ concat (map (\<lambda>x. CHR ''/'' # x) params)"

lemma split_char_app: "c \<notin> set h \<Longrightarrow> split_char c (h @ c # r) = h # split_char c r"
  by (induction h) auto

lemma split_char_params:
  "c \<notin> set h \<Longrightarrow> list_all (\<lambda>x. c \<notin> set x) params \<Longrightarrow> split_char c (h @ concat (map (\<lambda>x. c # x) params)) = h # params"
  by (induction params arbitrary: h) (simp_all add: split_char_no_sep split_char_app)

lemma match_text_recognised:
  assumes "version \<noteq> []" and "list_all (\<lambda>c. digit_val c \<noteq> None) version"
  shows "isDWCMatchCommand (match_text version command params)"
proof -
  have v: "digit_val (CHR ''v'') = None" by (simp add: digit_val_def)
  have "takeWhile (\<lambda>c. digit_val c \<noteq> None) (version @ ''vMAT'' @ r) = version" for r
    using assms(2) v by (subst takeWhile_append2) (auto simp: list_all_iff)
  then show ?thesis
    using assms(1) by (simp add: isDWCMatchCommand_def match_text_def Let_def has_prefix_def)
qed

lemma match_text_parameters:
  assumes "list_all (\<lambda>c. digit_val c \<noteq> None) version" and "CHR ''/'' \<notin> set command"
    and "list_all (\<lambda>x. CHR ''/'' \<notin> set x) params"
  shows "match_parameters_ok (match_text version command params) \<longleftrightarrow> (\<forall>x \<in> set params. length x \<le> 10)"
proof -
  have "digit_val (CHR ''/'') = None" by (simp add: digit_val_def)
  then have "CHR ''/'' \<notin> set (''GPCM'' @ version @ ''vMAT'' @ command)" using assms(1,2) by (auto simp: list_all_iff)
  then have "split_char CHR ''/'' ((''GPCM'' @ version @ ''vMAT'' @ command) @ concat (map (\<lambda>x. CHR ''/'' # x) params)) =
      (''GPCM'' @ version @ ''vMAT'' @ command) # params"
    using assms(3) by (rule split_char_params)
  then show ?thesis by (simp add: match_parameters_ok_def match_text_def list_all_iff)
qed

text \<open>C36. An invitation reaches a player only after two steps. Of two players who are logged in and play the same game, and of
  whom the first never asked the second, the first one's match command is refused; it is refused still after the first
  has asked to be friends; once the second has accepted, it is sent, once, to the second one's connection as from the
  first, if each of its parameters has at most ten characters (the game copies them into 16 bytes), and refused as soon
  as one has more. No refusal changes the state or sends anything.\<close>

theorem message_delivery:
  assumes "LoggedIn (session p st)" and "LoggedIn (session q st)" and "up (gdb st)" and "pid_at p st \<noteq> pid_at q st"
    and "has_profile (gdb st) (pid_at p st)" and "has_profile (gdb st) (pid_at q st)"
    and "\<not> list_ex (edge (pid_at p st) (pid_at q st)) (friends (gdb st))"
    and "\<not> code_missing p st"
    and "get_pid add_req ''newprofileid'' = pid_at q st" and "get_pid auth_req ''fromprofileid'' = pid_at p st"
    and "sessions (fst st) (pid_at q st) = Some q" and "GameName (session p st) = GameName (session q st)"
    and "get_int req ''bm'' = BuddyMessage" "get_pid req ''t'' = pid_at q st"
        "get_string req ''msg'' = match_text version command params"
    and "version \<noteq> []" "list_all (\<lambda>c. digit_val c \<noteq> None) version"
        "CHR ''/'' \<notin> set command" "list_all (\<lambda>x. CHR ''/'' \<notin> set x) params"
  shows "buddyMessage env p st req = (st, Err (GP ErrMessageNotFriends)) \<and>
    (\<exists>st1 st2. addBuddy env p st add_req = (st1, Ret None) \<and>
       buddyMessage env p st1 req = (st1, Err (GP ErrMessageNotFriends)) \<and>
       authAdd env q st1 auth_req = (st2, Ret None) \<and>
       buddyMessage env p st2 req =
         (if \<forall>x \<in> set params. length x \<le> 10
          then (emit (delivery env (session q st)
                 (buddy_text BuddyMessage (pid_at p st) (match_text version command params))) st2, Ret None)
          else (st2, Err (GP ErrMessage))))"
proof -
  obtain st1 st2 d1 d2 where st: "addBuddy env p st add_req = (st1, Ret None)" "fst st1 = (fst st)\<lparr>database := d1\<rparr>"
    "\<not> isFriendAuthorized p (pid_at q st) st1" "authAdd env q st1 auth_req = (st2, Ret None)"
    "fst st2 = (fst st)\<lparr>database := d2\<rparr>" "isFriendAuthorized p (pid_at q st) st2"
    using befriended [OF assms(1-10), of env] by blast
  have s: "session x st1 = session x st" "session x st2 = session x st" "pid_at x st2 = pid_at x st" for x
    using st(2,5) by (simp_all add: session_def pid_at_def)
  have online: "online_session (pid_at q st) st2 = Some q"
    using st(5) assms(2,11) by (simp add: online_session_Some s)
  have "find (edge (pid_at p st) (pid_at q st)) (friends (gdb st)) = None"
    using assms(7) by (auto simp: find_None_iff list_ex_iff)
  then have "\<not> isFriendAuthorized p (pid_at q st) st"
    using assms(3) by (simp add: isFriendAuthorized_def GetFriendAuth_def online_def)
  then have "buddyMessage env p st req = (st, Err (GP ErrMessageNotFriends))"
    using assms(1,13,14) by (simp add: buddyMessage_def Let_def)
  moreover have "buddyMessage env p st1 req = (st1, Err (GP ErrMessageNotFriends))"
    using assms(1,13,14) st(3) by (simp add: buddyMessage_def Let_def s)
  moreover have "buddyMessage env p st2 req = (if \<forall>x \<in> set params. length x \<le> 10
      then (emit (delivery env (session q st) (buddy_text BuddyMessage (pid_at p st) (match_text version command params))) st2, Ret None)
      else (st2, Err (GP ErrMessage)))"
    using assms(1,12-15) st(6) online match_text_recognised [OF assms(16,17), of command params]
      match_text_parameters [OF assms(17-19)]
    by (simp add: buddyMessage_def Let_def s sendMessage_delivery)
  ultimately show ?thesis using st(1,4) by blast
qed

subsection \<open>Two players\<close>

definition player :: "u32 \<Rightarrow> u64 \<Rightarrow> gp_session" where
  "player pid index = (new_session sample_gp_env index ''10.0.0.1:50000'')\<lparr>LoggedIn := True, GameName := ''mariokartwii'',
     s_GameCode := ''RMCJ'', UnitCode := 1,
     Profile := \<lparr>ProfileID = pid, WFCID = 5, GsbrCode = ''RMCJ'', FirstName = [], LastName = []\<rparr>\<rparr>"

definition duo :: "friend_row list \<Rightarrow> gp_state" where
  "duo fs = ((start_state (sample_db\<lparr>friends := fs\<rparr>))\<lparr>heap := (heap (start_state sample_db))(0 := player 1 9, 1 := player 2 10),
     sessions := [1 \<mapsto> 0, 2 \<mapsto> 1], fresh := 2\<rparr>, [])"

lemma duo_simps [simp]:
  "session 0 (duo fs) = player 1 9" "session 1 (duo fs) = player 2 10" "session (Suc 0) (duo fs) = player 2 10"
  "gdb (duo fs) = sample_db\<lparr>friends := fs\<rparr>"
  "online_session 1 (duo fs) = Some 0" "online_session 2 (duo fs) = Some 1" "snd (duo fs) = []"
  by (simp_all add: duo_def session_def gdb_def start_state_def online_session_def player_def)

lemma player_simps [simp]:
  "LoggedIn (player i c)" "Profile (player i c) = \<lparr>ProfileID = i, WFCID = 5, GsbrCode = ''RMCJ'', FirstName = [], LastName = []\<rparr>"
  "ConnIndex (player i c) = c" "RemoteAddr (player i c) = ''10.0.0.1:50000''"
  by (simp_all add: player_def new_session_def)

lemma duo_pids [simp]: "pid_at 0 (duo fs) = 1" "pid_at (Suc 0) (duo fs) = 2" "pid_at 1 (duo fs) = 2"
  by (simp_all add: pid_at_def)

lemma duo_db [simp]: "up (sample_db\<lparr>friends := fs\<rparr>)" "has_profile (sample_db\<lparr>friends := fs\<rparr>) 1"
  "has_profile (sample_db\<lparr>friends := fs\<rparr>) 2" "has_profile sample_db 1" "has_profile sample_db 2"
  by (simp_all add: sample_db_def has_profile_def)

definition from_request :: "u32 \<Rightarrow> field list" where
  "from_request pid = [(''fromprofileid'', GUint 32 (unat pid))]"

definition new_request :: "u32 \<Rightarrow> field list" where
  "new_request pid = [(''newprofileid'', GUint 32 (unat pid))]"

lemma request_pids [simp]: "get_pid (from_request i) ''fromprofileid'' = i" "get_pid (new_request i) ''newprofileid'' = i"
  by (simp_all add: from_request_def new_request_def get_pid_def get_int_def field_of_def tag_key_def tag_split_def)

theorem unrequested_authorization_witness:
  "\<exists>st'. authAdd sample_gp_env 0 (duo []) (from_request 2) = (st', Ret None) \<and> fst st' = fst (duo []) \<and>
    Packet 10 (bytes_of (buddy_text BuddyAuth 1 [])) \<in> set (snd st')"
  using unrequested_authorization [of 0 "duo []" "from_request 2" 1 sample_gp_env] by simp

theorem friendship_witness:
  "\<exists>st1 st2. addBuddy sample_gp_env 0 (duo []) (new_request 2) = (st1, Ret None) \<and> \<not> isFriendAuthorized 0 2 st1 \<and>
    authAdd sample_gp_env 1 st1 (from_request 1) = (st2, Ret None) \<and> isFriendAuthorized 0 2 st2"
  using friendship [of 0 "duo []" 1 "new_request 2" "from_request 1" sample_gp_env]
  by (simp add: code_missing_def)

definition invitation :: "string list \<Rightarrow> field list" where
  "invitation params = [(''bm'', GInt 64 BuddyMessage), (''sesskey'', GInt 32 0), (''t'', GUint 32 2),
     (''msg'', GString (match_text ''11'' [CHR 0x02] params))]"

lemma invitation_simps [simp]:
  "get_int (invitation ps) ''bm'' = BuddyMessage" "get_pid (invitation ps) ''t'' = 2"
  "get_string (invitation ps) ''msg'' = match_text ''11'' [CHR 0x02] ps"
  by (simp_all add: invitation_def get_int_def get_pid_def get_string_def field_of_def tag_key_def tag_split_def)

theorem message_delivery_witness:
  "\<exists>st1 st2. addBuddy sample_gp_env 0 (duo []) (new_request 2) = (st1, Ret None) \<and>
     authAdd sample_gp_env 1 st1 (from_request 1) = (st2, Ret None) \<and>
     buddyMessage sample_gp_env 0 st2 (invitation [''0123456789'']) =
       (emit (delivery sample_gp_env (player 2 10) (buddy_text BuddyMessage 1 (match_text ''11'' [CHR 0x02] [''0123456789'']))) st2,
        Ret None)"
proof -
  have d: "list_all (\<lambda>c. digit_val c \<noteq> None) ''11''" by (simp add: digit_val_def)
  have s: "sessions (fst (duo [])) 2 = Some 1" "GameName (player 1 9) = GameName (player 2 10)"
    by (simp_all add: duo_def player_def)
  from message_delivery [of 0 "duo []" 1 "new_request 2" "from_request 1" "invitation [''0123456789'']" "''11''" "[CHR 0x02]"
      "[''0123456789'']" sample_gp_env]
  show ?thesis using d s by (simp add: code_missing_def) blast
qed

definition friends_row :: friend_row where
  "friends_row = \<lparr>f_sender = 2, f_recipient = 1, f_authorized = True, f_created = 0\<rparr>"

definition status_request :: "field list" where
  "status_request = [(''status'', GInt 64 1), (''statstring'', GString ''Online''), (''locstring'', GString ''x'')]"

lemma status_request_simps [simp]:
  "get_int status_request ''status'' = 1" "get_string status_request ''statstring'' = ''Online''"
  "get_string status_request ''locstring'' = ''x''"
  by (simp_all add: status_request_def get_int_def get_string_def field_of_def tag_key_def tag_split_def)

lemma sample_address: "IPFormatToString ''10.0.0.1:50000'' = Ret (''167772161'', ''50000'')"
proof -
  have o: "parse_octet ''10'' = Some 10" "parse_octet ''0'' = Some 0" "parse_octet ''1'' = Some 1"
    by (simp_all add: parse_octet_def digit_val_def)
  have "ParseAddrPort ''10.0.0.1:50000'' = Some \<lparr>IP = 167772161, Port = 50000\<rparr>"
    by (simp add: ParseAddrPort_def cut_last_def ParseAddr_def o uint_be_def parse_uint_def digit_val_def)
  then show ?thesis
    by (simp add: IPFormatToString_def IPFormatToInt_def) (simp add: format_int_def format_uint.simps digit_chars)
qed

lemma sample_status:
  "\<exists>st' b. status sample_gp_env 0 (duo [friends_row]) status_request = (st', Ret None) \<and>
     Packet 10 b \<in> set (sent_by (duo [friends_row]) st')"
proof -
  let ?st = "duo [friends_row]"
  have f: "GetFriends 1 False (sample_db\<lparr>friends := [friends_row]\<rparr>) = Ret [\<lparr>FriendID = 2, Authorized = True, Created = 0\<rparr>]"
    by (simp add: GetFriends_def online_def left_join_reverse_def reverse_rows_def friends_row_def sample_db_def)
  define st2 where "st2 = upd_session 0 (\<lambda>s. s\<lparr>Status := status_text 1 ''Online'' ''x'' ''167772161''\<rparr>)
      (upd_session 0 (\<lambda>s. s\<lparr>LocString := ''x''\<rparr>) ?st)"
  have s2: "gdb st2 = gdb ?st" "pid_at 0 st2 = 1" "online_session 2 st2 = Some 1" "snd st2 = []"
    "session 0 st2 = (player 1 9)\<lparr>LocString := ''x'', Status := status_text 1 ''Online'' ''x'' ''167772161''\<rparr>"
    "session 1 st2 = player 2 10" "session (Suc 0) st2 = player 2 10"
    by (simp_all add: st2_def upd_session_def gdb_def pid_at_def online_session_def session_def duo_def start_state_def)
  have "status sample_gp_env 0 ?st status_request = (fold (friend_status sample_gp_env 0) [\<lparr>FriendID = 2, Authorized = True, Created = 0\<rparr>] st2, Ret None)"
    unfolding status_def Let_def status_request_simps
    using s2 by (simp add: sample_address st2_def [symmetric] f)
  then show ?thesis
    by (auto simp: friend_status_def sendFriendStatus_def s2 sendMessage_delivery delivery_def sent_by_def)
qed

theorem status_audience_witness:
  "\<exists>st' fs f. status sample_gp_env 0 (duo [friends_row]) status_request = (st', Ret None) \<and>
     GetFriends 1 False (sample_db\<lparr>friends := [friends_row]\<rparr>) = Ret fs \<and> f \<in> set fs \<and> Authorized f \<and>
     online_session (FriendID f) st' \<noteq> None"
proof -
  obtain st' b where s: "status sample_gp_env 0 (duo [friends_row]) status_request = (st', Ret None)"
    "Packet 10 b \<in> set (sent_by (duo [friends_row]) st')" using sample_status by blast
  from status_audience [OF this] s(1) show ?thesis by auto
qed

text \<open>How TCP cuts a request into segments does not matter to the profile server: as long as no cut falls
  behind a delimiter and the request fits the buffer, the segments have the effect and the answers of the
  whole.\<close>

theorem gp_segments:
  assumes "ds \<noteq> []" and "gp.uncut [] ds" and "length (concat ds) \<le> maxBuffer" and "ReadBuffer (heap g p) = []"
  shows "gp.receive env p ds g = handle_data env p (concat ds) g"
  using assms by (rule gp.receive_segments)

theorem gp_segments_witness:
  "gp.receive sample_gp_env 0 [[92, 107, 97, 92, 92, 102, 105], [110, 97, 108, 92]] connected =
     handle_data sample_gp_env 0 [92, 107, 97, 92, 92, 102, 105, 110, 97, 108, 92] connected"
  using gp_segments [of "[[92, 107, 97, 92, 92, 102, 105], [110, 97, 108, 92]]" connected 0 sample_gp_env]
  by (simp add: connected_def new_session_def maxBuffer_def complete_def has_suffix_def bytes_of_def EndDelimiter_def)

end
