(* ===== verification/Gpsp.thy ===== *)
theory Gpsp
  imports GpcmFriends
begin

text \<open>
  The search server (\<open>gpsp/\<close>). Its handlers take a session of the profile server, which \<open>HandlePacket\<close> passes
  as nil; the table of sessions is the profile server's and only read. There is no recovery from a panic, so
  a panic ends the backend; \<open>HandlePacket\<close> returns what was sent before and whether that happened.
\<close>

subsection \<open>Requests\<close>

type_synonym search_handler = "gpcm \<Rightarrow> field list \<Rightarrow> (handler_error, field list option) outcome"

definition OthersListRequest :: "field list" where
  "OthersListRequest = [(''otherslist'', GString []), (''sesskey'', GInt 32 0), (''profileid'', GUint 32 0),
     (''numopids'', GInt 64 0), (''opids'', GString [])]"

definition OthersListEntry :: "profile \<Rightarrow> field list" where
  "OthersListEntry p = [(''o'', GUint 32 (unat (ProfileID p))), (''uniquenick'', GString (UniqueNick p))]"

definition OthersListResponse :: "profile list \<Rightarrow> field list" where
  "OthersListResponse ps =
     [(''otherslist'', GString []), ('''', GSlice (map OthersListEntry ps)), (''oldone'', GString [])]"

fun parse_opids :: "string list \<Rightarrow> u32 list option" where
  "parse_opids [] = Some []"
| "parse_opids (s # ss) =
     (case atoi s of
        None \<Rightarrow> None
      | Some i \<Rightarrow> map_option ((#) (of_int i)) (parse_opids ss))"

text \<open>The profiles of one of the listed players, one for each of its requests to \<open>pid\<close>.\<close>

fun others_rows :: "db \<Rightarrow> u32 \<Rightarrow> u32 \<Rightarrow> friend_info list \<Rightarrow> (db_error, profile list) outcome" where
  "others_rows d pid opid [] = Ret []"
| "others_rows d pid opid (f # fs) =
     (if FriendID f \<noteq> pid then others_rows d pid opid fs
      else bind_outcome (GetProfile opid d) (\<lambda>p. bind_outcome (others_rows d pid opid fs) (\<lambda>ps. Ret (p # ps))))"

fun others_of :: "db \<Rightarrow> u32 \<Rightarrow> u32 list \<Rightarrow> (db_error, profile list) outcome" where
  "others_of d pid [] = Ret []"
| "others_of d pid (opid # opids) =
     bind_outcome (GetFriends opid False d) (\<lambda>fs.
     bind_outcome (others_rows d pid opid fs) (\<lambda>ps.
     bind_outcome (others_of d pid opids) (\<lambda>qs. Ret (ps @ qs))))"

definition othersList :: search_handler where
  "othersList g req =
     (let pid = get_pid req ''profileid'' in
      if \<not> VerifySessionKey pid (get_int req ''sesskey'') g then Err (GP ErrSearch)
      else if get_int req ''numopids'' = 0 then Ret (Some [(''otherslist'', GString []), ('''', GSlice []), (''oldone'', GString [])])
      else case parse_opids (split_char CHR ''|'' (get_string req ''opids'')) of
        None \<Rightarrow> Err (GP ErrSearch)
      | Some opids \<Rightarrow>
          if int (length opids) \<noteq> get_int req ''numopids'' then Err (GP ErrSearch)
          else case others_of (database g) pid opids of
            Ret ps \<Rightarrow> Ret (Some (OthersListResponse ps))
          | Err _ \<Rightarrow> Err (GP ErrSearch)
          | Panic \<Rightarrow> Panic)"

definition SearchRequest :: "field list" where
  "SearchRequest = [(''search'', GString []), (''sesskey'', GInt 32 0), (''profileid'', GUint 32 0),
     (''namespaceid'', GInt 64 0), (''partnerid'', GInt 64 0), (''nick'', GString []), (''uniquenick'', GString []),
     (''email'', GString []), (''firstname'', GString []), (''lastname'', GString []), (''icquin'', GInt 64 0),
     (''skip'', GInt 64 0)]"

definition searched_fields :: "string list" where
  "searched_fields = [''nick'', ''uniquenick'', ''email'', ''firstname'', ''lastname'']"

definition search_filter :: "field list \<Rightarrow> (string \<times> string) list" where
  "search_filter req = map (\<lambda>key. (key, get_string req key)) searched_fields"

definition SearchEntry :: "profile \<Rightarrow> field list" where
  "SearchEntry p = [(''bsr'', GUint 32 (unat (ProfileID p))), (''nick'', GString []),
     (''uniquenick'', GString (UniqueNick p)), (''email'', GString (Email p)),
     (''firstname'', GString (FirstName p)), (''lastname'', GString (LastName p))]"

fun get_profiles :: "db \<Rightarrow> u32 list \<Rightarrow> (db_error, profile list) outcome" where
  "get_profiles d [] = Ret []"
| "get_profiles d (i # js) = bind_outcome (GetProfile i d) (\<lambda>p. bind_outcome (get_profiles d js) (\<lambda>ps. Ret (p # ps)))"

definition search :: search_handler where
  "search g req =
     (if \<not> VerifySessionKey (get_pid req ''profileid'') (get_int req ''sesskey'') g then Err (GP ErrSearch)
      else case bind_outcome (SearchProfile (search_filter req) (database g)) (get_profiles (database g)) of
        Err _ \<Rightarrow> Err (GP ErrSearch)
      | Panic \<Rightarrow> Panic
      | Ret ps \<Rightarrow> Ret (Some [('''', GSlice (map SearchEntry ps)), (''bsrdone'', GString [])]))"

subsection \<open>Packets\<close>

text \<open>A handler applied to a pointer: \<open>Handle\<close> asserts the type of the state, which fails for nil.\<close>

definition asserted :: "gpcm \<Rightarrow> search_handler \<Rightarrow> nat option handler" where
  "asserted g h st req = (case st of None \<Rightarrow> (st, Panic) | Some p \<Rightarrow> (st, h g req))"

definition KARequest :: "field list" where
  "KARequest = [(''ka'', GString [])]"

definition request_types :: "(string \<times> field list \<times> search_handler) list" where
  "request_types =
     [(''ka'', KARequest, \<lambda>g req. Ret (Some KARequest)), (''otherslist'', OthersListRequest, othersList),
      (''search'', SearchRequest, search)]"

definition replyError :: "(u64 \<Rightarrow> bool) \<Rightarrow> u64 \<Rightarrow> GPError \<Rightarrow> gs_out list" where
  "replyError ok index e =
     (case GetMessage e of
        Ret msg \<Rightarrow> Packet index (bytes_of msg) # (if Fatal e \<or> \<not> ok index then [CloseConn index] else [])
      | _ \<Rightarrow> [])"

text \<open>For an unknown command the error is sent and then the nil function called.\<close>

definition one_message :: "(u64 \<Rightarrow> bool) \<Rightarrow> u64 \<Rightarrow> gpcm \<Rightarrow> string \<Rightarrow> gs_out list \<times> bool" where
  "one_message ok index g message =
     (case map_of request_types (command_of message) of
        None \<Rightarrow> (replyError ok index ErrParse, True)
      | Some (schema, h) \<Rightarrow>
          (case snd (Handle schema (asserted g h) (\<lambda>_. OtherError) None message) of
             Err (GP e) \<Rightarrow> (replyError ok index e, False)
           | Err OtherError \<Rightarrow> ([], False)
           | Panic \<Rightarrow> ([], True)
           | Ret resp \<Rightarrow> ([Packet index (bytes_of resp)], False)))"

fun all_messages :: "(u64 \<Rightarrow> bool) \<Rightarrow> u64 \<Rightarrow> gpcm \<Rightarrow> string list \<Rightarrow> gs_out list \<times> bool" where
  "all_messages ok index g [] = ([], False)"
| "all_messages ok index g (m # ms) =
     (case one_message ok index g m of
        (out, True) \<Rightarrow> (out, True)
      | (out, False) \<Rightarrow> (case all_messages ok index g ms of (out', p) \<Rightarrow> (out @ out', p)))"

definition HandlePacket :: "(u64 \<Rightarrow> bool) \<Rightarrow> u64 \<Rightarrow> bytes \<Rightarrow> gpcm \<Rightarrow> gs_out list \<times> bool" where
  "HandlePacket ok index data g = all_messages ok index g (messages_of data)"

subsection \<open>What clients get\<close>

text \<open>A message that is not skipped: its command is unknown, or its fields can be decoded.\<close>

definition crashes :: "string \<Rightarrow> bool" where
  "crashes message \<longleftrightarrow>
     (case map_of request_types (command_of message) of
        None \<Rightarrow> True
      | Some (schema, h) \<Rightarrow> (case Unmarshal schema message of Err _ \<Rightarrow> False | _ \<Rightarrow> True))"

lemma one_message_crashes: "snd (one_message ok index g m) = crashes m"
  by (auto simp: one_message_def crashes_def Handle_def asserted_def split: option.splits outcome.splits)

lemma one_message_silent: "\<not> crashes m \<Longrightarrow> one_message ok index g m = ([], False)"
  by (auto simp: one_message_def crashes_def Handle_def asserted_def split: option.splits outcome.splits)

text \<open>The search server serves nobody: a packet whose messages are all undecodable is ignored, and any other
  packet brings the whole backend down at the first decodable or unknown request, because the handlers assert
  that the nil they are given is a session. All that is ever sent is the parse error for an unknown command,
  right before.\<close>

theorem search_server_crashes:
  "snd (HandlePacket ok index data g) = list_ex crashes (messages_of data) \<and>
   fst (HandlePacket ok index data g) \<in> {[], replyError ok index ErrParse} \<and>
   (fst (HandlePacket ok index data g) = [] \<or> snd (HandlePacket ok index data g))"
proof -
  have one: "fst (one_message ok index g m) \<in> {[], replyError ok index ErrParse}" for m
    by (auto simp: one_message_def Handle_def asserted_def split: option.splits outcome.splits)
  have "snd (all_messages ok index g ms) = list_ex crashes ms \<and>
      fst (all_messages ok index g ms) \<in> {[], replyError ok index ErrParse} \<and>
      (fst (all_messages ok index g ms) = [] \<or> snd (all_messages ok index g ms))" for ms
  proof (induction ms)
    case (Cons m ms)
    show ?case
    proof (cases "crashes m")
      case True
      then obtain out where "one_message ok index g m = (out, True)"
        using one_message_crashes [of ok index g m] by (cases "one_message ok index g m") auto
      then show ?thesis using True one [of m] by simp
    next
      case False
      then show ?thesis using Cons by (auto simp: one_message_silent split: prod.splits)
    qed
  qed simp
  from this [of "messages_of data"] show ?thesis unfolding HandlePacket_def .
qed

text \<open>Even for a valid session a search by name fails whatever is looked for: the query names columns that
  the table of profiles does not have.\<close>

theorem search_always_fails: "search g req = Err (GP ErrSearch)"
  by (auto simp: search_def search_filter_def searched_fields_def SearchProfile_def profile_columns_def online_def
      split: if_splits)

lemma others_rows_ids:
  "others_rows d pid opid fs = Ret ps \<Longrightarrow> map ProfileID ps = map (\<lambda>_. opid) (filter (\<lambda>f. FriendID f = pid) fs)"
  by (induction d pid opid fs arbitrary: ps rule: others_rows.induct)
    (auto simp: GetProfile_def profile_of_def split: option.splits if_splits)

lemma others_of_ids:
  assumes "others_of d pid opids = Ret ps"
  shows "set (map ProfileID ps) = {opid \<in> set opids. list_ex (edge pid opid) (friends d)}"
  using assms
proof (induction d pid opids arbitrary: ps rule: others_of.induct)
  case (2 d pid opid opids)
  then obtain fs rs qs where fs: "GetFriends opid False d = Ret fs" and rs: "others_rows d pid opid fs = Ret rs"
    and qs: "others_of d pid opids = Ret qs" and ps: "ps = rs @ qs" by auto
  have "(\<exists>f \<in> set fs. FriendID f = pid) \<longleftrightarrow> list_ex (edge pid opid) (friends d)"
  proof -
    have "fs = map (\<lambda>(f, _). \<lparr>FriendID = f_sender f, Authorized = f_authorized f, Created = f_created f\<rparr>)
        (filter (\<lambda>(f, _). f_recipient f = opid) (left_join_reverse (friends d)))"
      using fs by (simp add: GetFriends_def)
    moreover have "fst ` set (left_join_reverse (friends d)) = set (friends d)"
      by (force simp: left_join_reverse_def reverse_rows_def image_iff split: list.splits)
    ultimately show ?thesis by (force simp: edge_def list_ex_iff image_iff)
  qed
  moreover have "set (map ProfileID rs) = {opid. \<exists>f \<in> set fs. FriendID f = pid} \<inter> {opid}"
    using others_rows_ids [OF rs] by auto
  ultimately show ?case using 2 fs rs qs ps by auto
qed simp

end
