(* ===== verification/FilterScanner.thy ===== *)
theory FilterScanner
  imports GoUtf8 GoNumbers
begin

text \<open>
  \<open>filter/scanner.go\<close> and \<open>filter/scanner_helper.go\<close>: the scanner of the search expressions. A code
  point is an \<open>int\<close>, so that the end of the input is -1 as in the code; \<open>uc\<close> stands for the tables of
  package \<open>unicode\<close> beyond Latin-1, whose part in Latin-1 is written out. The scanner's fields \<open>curr\<close> and
  \<open>safebackup\<close>, which nothing reads, are left out.
\<close>

subsection \<open>Classes of code points\<close>

record unicode =
  Letter :: "nat \<Rightarrow> bool"
  Digit :: "nat \<Rightarrow> bool"
  Number :: "nat \<Rightarrow> bool"

definition eof :: int where "eof = -1"

definition rune :: "char \<Rightarrow> int" where "rune c = int (of_char c)"

definition ascii_letter :: "int \<Rightarrow> bool" where
  "ascii_letter r \<longleftrightarrow> 65 \<le> r \<and> r \<le> 90 \<or> 97 \<le> r \<and> r \<le> 122"

definition ascii_digit :: "int \<Rightarrow> bool" where "ascii_digit r \<longleftrightarrow> 48 \<le> r \<and> r \<le> 57"

text \<open>\<open>unicode.IsLetter\<close>, \<open>unicode.IsDigit\<close>, \<open>unicode.IsNumber\<close>\<close>

definition IsLetter :: "unicode \<Rightarrow> int \<Rightarrow> bool" where
  "IsLetter uc r \<longleftrightarrow>
     (if r < 0 then False
      else if r < 256 then
        ascii_letter r \<or> r = 0xAA \<or> r = 0xB5 \<or> r = 0xBA \<or> 0xC0 \<le> r \<and> r \<noteq> 0xD7 \<and> r \<noteq> 0xF7
      else Letter uc (nat r))"

definition IsDigit :: "unicode \<Rightarrow> int \<Rightarrow> bool" where
  "IsDigit uc r \<longleftrightarrow> (if r < 0 then False else if r < 256 then ascii_digit r else Digit uc (nat r))"

definition IsUnicodeNumber :: "unicode \<Rightarrow> int \<Rightarrow> bool" where
  "IsUnicodeNumber uc r \<longleftrightarrow>
     (if r < 0 then False
      else if r < 256 then ascii_digit r \<or> r = 0xB2 \<or> r = 0xB3 \<or> r = 0xB9 \<or> 0xBC \<le> r \<and> r \<le> 0xBE
      else Number uc (nat r))"

definition IsSpace :: "int \<Rightarrow> bool" where "IsSpace r \<longleftrightarrow> r = rune CHR '' '' \<or> r = rune CHR 0x09"

definition IsNumber :: "unicode \<Rightarrow> int \<Rightarrow> bool" where
  "IsNumber uc r \<longleftrightarrow> IsDigit uc r \<or> r = rune CHR ''.''"

text \<open>\<open>strings.ContainsRune(charValidString, r)\<close>\<close>

definition valid_char :: "int \<Rightarrow> bool" where "valid_char r \<longleftrightarrow> r = rune CHR ''_''"

definition IsAlphaNumeric :: "unicode \<Rightarrow> int \<Rightarrow> bool" where
  "IsAlphaNumeric uc r \<longleftrightarrow> IsLetter uc r \<or> IsDigit uc r \<or> valid_char r"

lemma eof_classes [simp]:
  "\<not> IsLetter uc eof" "\<not> IsDigit uc eof" "\<not> IsUnicodeNumber uc eof" "\<not> IsSpace eof" "\<not> IsNumber uc eof"
  "\<not> IsAlphaNumeric uc eof" "\<not> valid_char eof"
  by (simp_all add: eof_def IsLetter_def IsDigit_def IsUnicodeNumber_def IsSpace_def IsNumber_def
      IsAlphaNumeric_def valid_char_def rune_def)

subsection \<open>Scanner\<close>

record scanner =
  input :: bytes
  start :: nat
  pos :: nat
  width :: nat
  prevState :: "nat \<times> nat \<times> nat"

definition NewScanner :: "string \<Rightarrow> scanner" where
  "NewScanner template = \<lparr>input = bytes_of template, start = 0, pos = 0, width = 0, prevState = (0, 0, 0)\<rparr>"

definition SaveState :: "scanner \<Rightarrow> nat \<times> nat \<times> nat" where
  "SaveState s = (start s, pos s, width s)"

definition LoadState :: "nat \<times> nat \<times> nat \<Rightarrow> scanner \<Rightarrow> scanner" where
  "LoadState state s = (case state of (a, p, w) \<Rightarrow> s\<lparr>start := a, pos := p, width := w\<rparr>)"

text \<open>Slicing the input panics when the start lies behind the position.\<close>

definition Commit :: "scanner \<Rightarrow> ('e, string \<times> scanner) outcome" where
  "Commit s =
     (if start s \<le> pos s \<and> pos s \<le> length (input s) then
        (let s' = s\<lparr>start := pos s\<rparr>
         in Ret (string_of (subslice (start s) (pos s) (input s)), s'\<lparr>prevState := SaveState s'\<rparr>))
      else Panic)"

definition IsEOF :: "scanner \<Rightarrow> bool" where "IsEOF s \<longleftrightarrow> length (input s) \<le> pos s"

definition Next :: "scanner \<Rightarrow> int \<times> scanner" where
  "Next s =
     (if IsEOF s then (eof, s\<lparr>width := 0\<rparr>)
      else (case decode_rune (drop (pos s) (input s)) of
        (r, w) \<Rightarrow> (int r, s\<lparr>width := w, pos := pos s + w\<rparr>)))"

text \<open>Every \<open>Backup\<close> of the code follows a \<open>Next\<close>, so the difference is not negative.\<close>

definition Backup :: "scanner \<Rightarrow> scanner" where "Backup s = s\<lparr>pos := pos s - width s\<rparr>"

definition Peek :: "scanner \<Rightarrow> int \<times> scanner" where
  "Peek s = (case Next s of (r, s') \<Rightarrow> (r, Backup s'))"

definition Rollback :: "scanner \<Rightarrow> scanner" where "Rollback s = LoadState (prevState s) s"

definition Ignore :: "scanner \<Rightarrow> scanner" where "Ignore s = s\<lparr>start := pos s\<rparr>"

definition Accept :: "string \<Rightarrow> scanner \<Rightarrow> bool \<times> scanner" where
  "Accept valid s =
     (case Next s of (r, s') \<Rightarrow> if r \<in> rune ` set valid then (True, s') else (False, Backup s'))"

definition Prefix :: "string \<Rightarrow> scanner \<Rightarrow> bool \<times> scanner" where
  "Prefix pre s =
     (if has_prefix (drop (pos s) (input s)) (bytes_of pre) then (True, s\<lparr>pos := pos s + length pre\<rparr>)
      else (False, s))"

text \<open>
  The loops call \<open>Next\<close> as long as its result is valid. No predicate they are called with holds at the
  end of the input.
\<close>

lemma Next_input [simp]: "input (snd (Next s)) = input s" "start (snd (Next s)) = start s"
  "prevState (snd (Next s)) = prevState s"
  by (simp_all add: Next_def split: prod.splits)

lemma Next_advances:
  assumes "Next s = (r, s')" and "r \<noteq> eof"
  shows "pos s < pos s' \<and> pos s' \<le> length (input s) \<and> input s' = input s \<and> width s' = pos s' - pos s
    \<and> start s' = start s \<and> prevState s' = prevState s"
proof -
  from assms have ne: "drop (pos s) (input s) \<noteq> []" and "\<not> IsEOF s"
    by (auto simp: Next_def IsEOF_def split: if_splits)
  with decode_rune_width [OF ne] assms show ?thesis
    by (auto simp: Next_def split: prod.splits)
qed

function next_while :: "(int \<Rightarrow> bool) \<Rightarrow> scanner \<Rightarrow> scanner" where
  "next_while valid s =
     (case Next s of (r, s') \<Rightarrow> if r \<noteq> eof \<and> valid r then next_while valid s' else s')"
  by pat_completeness auto
termination
  by (relation "measure (\<lambda>(valid, s). length (input s) - pos s)") (auto dest!: Next_advances [OF sym])

declare next_while.simps [simp del]

definition SkipSpaces :: "scanner \<Rightarrow> scanner" where
  "SkipSpaces s = Ignore (Backup (next_while IsSpace s))"

definition Scan :: "(int \<Rightarrow> bool) \<Rightarrow> scanner \<Rightarrow> bool \<times> scanner" where
  "Scan valid s = (valid (fst (Next s)), Backup (next_while valid s))"

definition ScanWord :: "unicode \<Rightarrow> scanner \<Rightarrow> bool \<times> scanner" where
  "ScanWord uc s =
     (case Next s of (r, s1) \<Rightarrow>
        if IsLetter uc r \<or> valid_char r then (True, Backup (next_while (IsAlphaNumeric uc) s1))
        else (False, Backup s1))"

definition ScanNumber :: "unicode \<Rightarrow> scanner \<Rightarrow> bool \<times> scanner" where
  "ScanNumber uc s =
     (case Next s of (r, s1) \<Rightarrow>
        if IsDigit uc r then
          (case Scan (IsNumber uc) s1 of (found, s2) \<Rightarrow> (True, s2))
        else if r = rune CHR ''-'' \<or> r = rune CHR ''.'' then
          (case Next s1 of (r', s2) \<Rightarrow>
             if \<not> IsDigit uc r' then (False, LoadState (SaveState s) s2)
             else (case Scan (IsNumber uc) s2 of (found, s3) \<Rightarrow> (True, s3)))
        else (False, Backup s1))"

subsection \<open>Positions stay inside the input\<close>

definition positions :: "nat \<times> nat \<times> nat \<Rightarrow> nat \<Rightarrow> bool" where
  "positions state n \<longleftrightarrow> (case state of (a, p, w) \<Rightarrow> a \<le> p \<and> p \<le> n)"

definition scanner_ok :: "scanner \<Rightarrow> bool" where
  "scanner_ok s \<longleftrightarrow> start s \<le> pos s \<and> pos s \<le> length (input s) \<and> positions (prevState s) (length (input s))"

text \<open>\<open>moved s s'\<close>: the position of \<open>s'\<close> is not before that of \<open>s\<close>, nothing was committed.\<close>

definition moved :: "scanner \<Rightarrow> scanner \<Rightarrow> bool" where
  "moved s s' \<longleftrightarrow> scanner_ok s' \<and> input s' = input s \<and> prevState s' = prevState s \<and> pos s \<le> pos s'"

lemma moved_refl [simp]: "scanner_ok s \<Longrightarrow> moved s s"
  by (simp add: moved_def)

lemma moved_trans: "moved s s' \<Longrightarrow> moved s' s'' \<Longrightarrow> moved s s''"
  by (auto simp: moved_def)

lemma moved_on: "moved s q \<Longrightarrow> pos s < pos q \<Longrightarrow> moved q t \<Longrightarrow> moved s t \<and> pos s < pos t"
  by (auto simp: moved_def)

lemma Next_cases:
  assumes "scanner_ok s" and "Next s = (r, s')"
  obtains (eof) "r = eof" "IsEOF s" "s' = s\<lparr>width := 0\<rparr>"
  | (rune) "r \<noteq> eof" "\<not> IsEOF s" "moved s s'" "pos s < pos s'" "start s' = start s"
      "moved s (Backup s')" "pos (Backup s') = pos s" "start (Backup s') = start s"
proof (cases "IsEOF s")
  case True
  then show ?thesis using assms(2) by (intro that(1)) (auto simp: Next_def)
next
  case False
  then have r: "r \<noteq> eof" using assms(2) by (auto simp: Next_def eof_def split: prod.splits)
  from Next_advances [OF assms(2) r] assms(1) have m: "moved s s'" "pos s < pos s'" "start s' = start s"
    by (simp_all add: moved_def scanner_ok_def)
  have "Backup s' = s\<lparr>width := width s'\<rparr>"
    using assms(2) False by (auto simp: Next_def Backup_def split: prod.splits)
  then have "moved s (Backup s')" "pos (Backup s') = pos s" "start (Backup s') = start s"
    using assms(1) by (simp_all add: moved_def scanner_ok_def)
  with False r m that(2) show ?thesis by blast
qed

lemma moved_width [simp]: "moved s (s'\<lparr>width := w\<rparr>) = moved s s'" "moved (s\<lparr>width := w\<rparr>) s' = moved s s'"
  "scanner_ok (s\<lparr>width := w\<rparr>) = scanner_ok s"
  by (simp_all add: moved_def scanner_ok_def)

lemma moved_ok: "moved s s' \<Longrightarrow> scanner_ok s'"
  by (simp add: moved_def)

lemma next_while_moved:
  "scanner_ok s \<Longrightarrow> moved s (Backup (next_while valid s)) \<and> start (next_while valid s) = start s"
proof (induction valid s rule: next_while.induct)
  case (1 valid s)
  obtain r s' where n: "Next s = (r, s')" by fastforce
  from 1(2) n show ?case
  proof (cases rule: Next_cases)
    case eof
    then show ?thesis using n 1(2) by (subst (1 2) next_while.simps) (simp add: Backup_def moved_def scanner_ok_def)
  next
    case rune
    show ?thesis
    proof (cases "valid r")
      case True
      have "moved s' (Backup (next_while valid s')) \<and> start (next_while valid s') = start s'"
        using 1(1) [OF n [symmetric]] rune True moved_ok by blast
      with rune True n show ?thesis
        by (subst (1 2) next_while.simps) (auto intro: moved_trans [OF \<open>moved s s'\<close>])
    next
      case False
      with rune n 1(2) show ?thesis by (subst (1 2) next_while.simps) simp
    qed
  qed
qed

lemma next_while_ok:
  "scanner_ok s \<Longrightarrow> moved s (Backup (next_while valid s))"
  "scanner_ok s \<Longrightarrow> start (next_while valid s) = start s"
  using next_while_moved by blast+

lemma SkipSpaces_moved: "scanner_ok s \<Longrightarrow> moved s (SkipSpaces s)"
  using next_while_ok [of s IsSpace] by (auto simp: SkipSpaces_def Ignore_def moved_def scanner_ok_def)

lemma Peek_moved:
  assumes "scanner_ok s" and "Peek s = (r, s')"
  shows "moved s s' \<and> moved s' s \<and> pos s' = pos s \<and> start s' = start s"
proof -
  obtain q where n: "Next s = (r, q)" and s': "s' = Backup q" using assms(2) by (auto simp: Peek_def split: prod.splits)
  from assms(1) n show ?thesis
    by (cases rule: Next_cases) (use assms(1) s' in \<open>simp_all add: Backup_def moved_def scanner_ok_def\<close>)
qed

lemma ScanWord_cases:
  assumes "scanner_ok s" and "ScanWord uc s = (b, s')"
  shows "moved s s' \<and> (b \<longrightarrow> pos s < pos s') \<and> (\<not> b \<longrightarrow> pos s' = pos s)"
proof -
  obtain r q where n: "Next s = (r, q)" by fastforce
  from assms(1) n show ?thesis
  proof (cases rule: Next_cases)
    case eof
    then show ?thesis using assms n by (auto simp: ScanWord_def Backup_def moved_def scanner_ok_def)
  next
    case rune
    have "moved q (Backup (next_while (IsAlphaNumeric uc) q))"
      using rune moved_ok next_while_ok by blast
    then have "moved s (Backup (next_while (IsAlphaNumeric uc) q))" "pos s < pos (Backup (next_while (IsAlphaNumeric uc) q))"
      using moved_on [OF rune(3,4)] by blast+
    then show ?thesis
      using assms n rune by (auto simp: ScanWord_def split: if_splits)
  qed
qed

lemma ScanNumber_cases:
  assumes "scanner_ok s" and "ScanNumber uc s = (b, s')"
  shows "moved s s' \<and> (b \<longrightarrow> pos s < pos s') \<and> (\<not> b \<longrightarrow> pos s' = pos s)"
proof -
  obtain r q where n: "Next s = (r, q)" by fastforce
  from assms(1) n show ?thesis
  proof (cases rule: Next_cases)
    case eof
    then have "r \<noteq> rune CHR ''-''" "r \<noteq> rune CHR ''.''" by (simp_all add: eof_def rune_def)
    then show ?thesis using assms n eof by (auto simp: ScanNumber_def Backup_def moved_def scanner_ok_def)
  next
    case rune
    have ok: "scanner_ok q" using rune moved_ok by blast
    obtain r' t where n': "Next q = (r', t)" by fastforce
    have w: "moved s (Backup (next_while (IsNumber uc) q))" "pos s < pos (Backup (next_while (IsNumber uc) q))"
      using moved_on [OF rune(3,4) next_while_ok(1) [OF ok]] by simp_all
    have d: "moved s (Backup (next_while (IsNumber uc) t)) \<and> pos s < pos (Backup (next_while (IsNumber uc) t))"
      if "IsDigit uc r'"
    proof -
      from ok n' have "moved q t"
        by (cases rule: Next_cases) (use that in auto)
      from moved_on [OF rune(3,4) moved_trans [OF this next_while_ok(1) [OF moved_ok [OF this]]]]
      show ?thesis .
    qed
    have l: "moved s (LoadState (SaveState s) t)" "pos (LoadState (SaveState s) t) = pos s"
    proof -
      have "input t = input s" "prevState t = prevState s"
        using Next_input [of q] n' rune unfolding moved_def by auto
      then show "moved s (LoadState (SaveState s) t)" "pos (LoadState (SaveState s) t) = pos s"
        using assms(1) by (simp_all add: LoadState_def SaveState_def moved_def scanner_ok_def)
    qed
    have "(b, s') = (if IsDigit uc r then (True, Backup (next_while (IsNumber uc) q))
        else if r = FilterScanner.rune CHR ''-'' \<or> r = FilterScanner.rune CHR ''.'' then
          (if IsDigit uc r' then (True, Backup (next_while (IsNumber uc) t)) else (False, LoadState (SaveState s) t))
        else (False, Backup q))"
      by (simp add: assms(2) [symmetric] ScanNumber_def Scan_def n n')
    then show ?thesis using w d l rune by (metis prod.inject)
  qed
qed

lemma Prefix_cases:
  assumes "scanner_ok s" and "Prefix pre s = (b, s')"
  shows "moved s s' \<and> start s' = start s \<and> (b \<longrightarrow> pos s' = pos s + length pre) \<and> (\<not> b \<longrightarrow> s' = s)"
proof (cases b)
  case True
  then have h: "has_prefix (drop (pos s) (input s)) (bytes_of pre)" and s': "s' = s\<lparr>pos := pos s + length pre\<rparr>"
    using assms(2) by (auto simp: Prefix_def split: if_splits)
  from h obtain t where "drop (pos s) (input s) = bytes_of pre @ t" by (auto simp: has_prefix_iff)
  then have "length (drop (pos s) (input s)) = length pre + length t" by simp
  then have "pos s + length pre \<le> length (input s)" using assms(1) by (auto simp: scanner_ok_def)
  with True s' assms(1) show ?thesis by (simp add: moved_def scanner_ok_def)
next
  case False
  with assms show ?thesis by (auto simp: Prefix_def split: if_splits)
qed

lemma Commit_ok: "scanner_ok s \<Longrightarrow> \<exists>t. Commit s = Ret (t, s\<lparr>start := pos s, prevState := (pos s, pos s, width s)\<rparr>)"
  by (simp add: Commit_def scanner_ok_def SaveState_def Let_def)

end
