(* ===== verification/FilterTree.thy ===== *)
theory FilterTree
  imports FilterScanner
begin

text \<open>
  \<open>filter/tokens.go\<close> and \<open>filter/treenode.go\<close>: tokens, operators and the tree a parser builds. A \<open>TreeNode\<close>
  of the code points to its parent, and the parser holds a pointer \<open>curr\<close> into the tree. It moves that
  pointer only to a node it has just added, to one it has just pushed onto the last child, or to the
  parent, so \<open>curr\<close> is always the last child of its parent: \<open>cursor\<close> is the node it points to together
  with its ancestors, the innermost first, each with the children before the one on the path.
\<close>

subsection \<open>Tokens\<close>

datatype token =
    EmptyToken
  | NumberToken int
  | IdentityToken string
  | FuncToken string "tree list"
  | OperatorToken string
  | LRFuncToken string
  | GroupToken string
  | TextToken string
and tree = TreeNode (TValue: token) (TItems: "tree list")

datatype category = CatOther | CatFunction | CatValue

fun Category :: "token \<Rightarrow> category" where
  "Category EmptyToken = CatOther"
| "Category (NumberToken v) = CatValue"
| "Category (IdentityToken nm) = CatValue"
| "Category (FuncToken nm args) = CatFunction"
| "Category (OperatorToken op) = CatFunction"
| "Category (LRFuncToken nm) = CatFunction"
| "Category (GroupToken g) = CatOther"
| "Category (TextToken t) = CatValue"

definition operators :: "string list list" where
  "operators =
     [[''*'', ''/'', ''%''], [''+'', ''-'', ''&'', ''^'', ''|''],
      [''=='', ''='', ''!='', ''>='', ''<='', ''>'', ''<''], [''&&'', ''and''], [''||'', ''or'', ''like'']]"

definition operatorList :: "string list" where "operatorList = concat operators"

fun level_from :: "int \<Rightarrow> string list list \<Rightarrow> string \<Rightarrow> int" where
  "level_from l [] op = -1"
| "level_from l (ops # r) op = (if to_lower op \<in> set ops then l else level_from (l - 1) r op)"

definition Level :: "string \<Rightarrow> int" where "Level op = level_from 5 operators op"

text \<open>The panics of the parser, all of them strings, which its \<open>recover\<close> turns into an error.\<close>

datatype parse_error =
    BadNumber string
  | UnexpectedToken int
  | BracketsNotClosed
  | NoValueBefore string
  | InvalidOperator string
  | MissingQuote
  | MissingOpenBracket
  | MissingFunction
  | ArgumentsNotClosed
  | InvalidArgument int
  | NotParsed string
  | OutOfFuel

definition NewNumberToken :: "string \<Rightarrow> (parse_error, token) outcome" where
  "NewNumberToken v = (case parse_int 64 v of None \<Rightarrow> Err (BadNumber v) | Some i \<Rightarrow> Ret (NumberToken i))"

definition NewOperatorToken :: "string \<Rightarrow> (parse_error, token) outcome" where
  "NewOperatorToken op = (if Level op < 0 then Err (InvalidOperator op) else Ret (OperatorToken op))"

definition Precedence :: "string \<Rightarrow> string \<Rightarrow> int" where
  "Precedence current op = (if Level op = Level current then 0 else if Level current < Level op then 1 else -1)"

subsection \<open>The tree under construction\<close>

datatype cursor = Cursor (focus: tree) (path: "(token \<times> tree list) list")

fun Parent :: "cursor \<Rightarrow> cursor option" where
  "Parent (Cursor t []) = None"
| "Parent (Cursor t ((v, ts) # p)) = Some (Cursor (TreeNode v (ts @ [t])) p)"

fun root_from :: "tree \<Rightarrow> (token \<times> tree list) list \<Rightarrow> tree" where
  "root_from t [] = t"
| "root_from t ((v, ts) # p) = root_from (TreeNode v (ts @ [t])) p"

definition Root :: "cursor \<Rightarrow> tree" where "Root c = root_from (focus c) (path c)"

text \<open>\<open>curr.Add(token)\<close>, with \<open>curr\<close> left where it is and with \<open>curr\<close> moved to the new node\<close>

definition Add :: "token \<Rightarrow> cursor \<Rightarrow> cursor" where
  "Add v c = Cursor (TreeNode (TValue (focus c)) (TItems (focus c) @ [TreeNode v []])) (path c)"

definition AddMove :: "token \<Rightarrow> cursor \<Rightarrow> cursor" where
  "AddMove v c = Cursor (TreeNode v []) ((TValue (focus c), TItems (focus c)) # path c)"

text \<open>\<open>curr = curr.Push(token)\<close> and \<open>curr = curr.LastElement().Push(token)\<close>\<close>

definition Push :: "token \<Rightarrow> cursor \<Rightarrow> cursor" where
  "Push v c = Cursor (TreeNode v [focus c]) (path c)"

definition LastElement :: "cursor \<Rightarrow> tree option" where
  "LastElement c = (if TItems (focus c) = [] then None else Some (last (TItems (focus c))))"

definition PushLast :: "token \<Rightarrow> cursor \<Rightarrow> cursor" where
  "PushLast v c =
     Cursor (TreeNode v [last (TItems (focus c))]) ((TValue (focus c), butlast (TItems (focus c))) # path c)"

text \<open>\<open>ftoken.AddArgument(arg)\<close> for the function token in focus\<close>

definition AddArgument :: "tree \<Rightarrow> cursor \<Rightarrow> cursor" where
  "AddArgument arg c =
     (case TValue (focus c) of
        FuncToken nm args \<Rightarrow> Cursor (TreeNode (FuncToken nm (args @ [arg])) (TItems (focus c))) (path c)
      | _ \<Rightarrow> c)"

subsection \<open>The root of the tree stays\<close>

definition root_token :: "cursor \<Rightarrow> token" where
  "root_token c = (if path c = [] then TValue (focus c) else fst (last (path c)))"

text \<open>\<open>rooted\<close>: the path leads to the root of an expression or of an argument.\<close>

definition rooted :: "cursor \<Rightarrow> bool" where
  "rooted c \<longleftrightarrow> root_token c = EmptyToken \<or> root_token c = GroupToken ''''"

lemma root_token_Parent: "Parent c = Some c' \<Longrightarrow> root_token c' = root_token c"
  by (cases c rule: Parent.cases) (auto simp: root_token_def)

lemma root_token_add [simp]: "root_token (Add v c) = root_token c" "root_token (AddMove v c) = root_token c"
  by (auto simp: root_token_def Add_def AddMove_def)

lemma root_token_PushLast [simp]: "root_token (PushLast v c) = root_token c"
  by (auto simp: root_token_def PushLast_def)

lemma root_token_Push: "path c \<noteq> [] \<Longrightarrow> root_token (Push v c) = root_token c"
  by (auto simp: root_token_def Push_def)

lemma rooted_ops:
  "rooted (Add v c) = rooted c" "rooted (AddMove v c) = rooted c" "rooted (PushLast v c) = rooted c"
  "path c \<noteq> [] \<Longrightarrow> rooted (Push v c) = rooted c" "Parent c = Some c' \<Longrightarrow> rooted c' = rooted c"
  by (simp_all add: rooted_def root_token_Push root_token_Parent)

lemma Parent_None: "Parent c = None \<longleftrightarrow> path c = []"
  by (cases c rule: Parent.cases) auto

lemma rooted_inner: "rooted c \<Longrightarrow> TValue (focus c) \<noteq> EmptyToken \<Longrightarrow> TValue (focus c) \<noteq> GroupToken '''' \<Longrightarrow> path c \<noteq> []"
  by (auto simp: rooted_def root_token_def split: if_splits)

end
