(* ===== verification/FilterParse.thy ===== *)
theory FilterParse
  imports FilterTree
begin

text \<open>
  \<open>filter/parse.go\<close> and \<open>filter/parse_branches.go\<close>: the parser as a state machine. A state function of the
  code that returns the next one is a step from a \<open>state\<close>; \<open>None\<close> is a nil state. The loops that call
  state functions are \<open>run\<close> and \<open>arguments\<close>, with fuel that \<open>Parse\<close> takes from the length of its input and
  that is always enough. A result \<open>Panic\<close> is a run-time panic whose value is not a string: the deferred
  \<open>recover\<close> asserts \<open>str.(string)\<close> and panics again.
\<close>

datatype state = ValuePart | AfterWord | FunctionArguments | OperatorPart

record parser =
  scan :: scanner
  curr :: cursor

fun accept_operators ::
  "unicode \<Rightarrow> nat \<times> nat \<times> nat \<Rightarrow> string list \<Rightarrow> scanner \<Rightarrow> bool \<times> scanner" where
  "accept_operators uc state [] s = (False, s)"
| "accept_operators uc state (op # ops) s =
     (let (lower, s1) = Prefix op s;
          (found, s2) = (if lower then (True, s1) else Prefix (to_upper op) s1)
      in if found then
           (case Peek s2 of (p, s3) \<Rightarrow>
              if IsLetter uc (rune (hd op)) \<and> (IsLetter uc p \<or> IsUnicodeNumber uc p \<or> valid_char p)
              then accept_operators uc state ops (LoadState state s3)
              else (True, s3))
         else accept_operators uc state ops s2)"

definition AcceptOperator :: "unicode \<Rightarrow> scanner \<Rightarrow> bool \<times> scanner" where
  "AcceptOperator uc s = accept_operators uc (SaveState s) operatorList s"

definition parseOpenBracket :: "parser \<Rightarrow> (parse_error, parser) outcome" where
  "parseOpenBracket p =
     bind_outcome (Commit (scan p)) (\<lambda>(_, s). Ret \<lparr>scan = s, curr = AddMove (GroupToken ''()'') (curr p)\<rparr>)"

text \<open>The climb to the group that the bracket closes; \<open>None\<close> when there is no parent left.\<close>

function closing_group :: "cursor \<Rightarrow> cursor option" where
  "closing_group c =
     (if TValue (focus c) = GroupToken ''()'' \<or> TValue (focus c) = GroupToken '''' then Some c
      else case Parent c of None \<Rightarrow> None | Some c' \<Rightarrow> closing_group c')"
  by pat_completeness auto
termination
proof (relation "measure (\<lambda>c. length (path c))")
  fix c c' assume "Parent c = Some c'"
  then show "(c', c) \<in> measure (\<lambda>c. length (path c))" by (cases c rule: Parent.cases) auto
qed simp

declare closing_group.simps [simp del]

definition parseCloseBracket :: "parser \<Rightarrow> (parse_error, state option \<times> parser) outcome" where
  "parseCloseBracket p =
     (case closing_group (curr p) of
        None \<Rightarrow> Err BracketsNotClosed
      | Some c \<Rightarrow>
          if TValue (focus c) = GroupToken ''()'' then
            bind_outcome (Commit (scan p)) (\<lambda>(_, s).
              case Parent c of None \<Rightarrow> Panic | Some c' \<Rightarrow> Ret (Some OperatorPart, \<lparr>scan = s, curr = c'\<rparr>))
          else Ret (None, \<lparr>scan = Backup (scan p), curr = c\<rparr>))"

text \<open>The climb past the operators above; \<open>Panic\<close> when a parent is missing.\<close>

function climb_operators :: "cursor \<Rightarrow> (parse_error, cursor) outcome" where
  "climb_operators c =
     (case Parent c of
        None \<Rightarrow> Panic
      | Some c' \<Rightarrow>
          (case TValue (focus c') of
             OperatorToken op \<Rightarrow> if 0 \<le> Level op then climb_operators c' else Ret c
           | _ \<Rightarrow> Ret c))"
  by pat_completeness auto
termination
proof (relation "measure (\<lambda>c. length (path c))")
  fix c c' assume "Parent c = Some c'"
  then show "(c', c) \<in> measure (\<lambda>c. length (path c))" by (cases c rule: Parent.cases) auto
qed simp

declare climb_operators.simps [simp del]

definition push_operator :: "string \<Rightarrow> cursor \<Rightarrow> (parse_error, cursor) outcome" where
  "push_operator operator c =
     (case TValue (focus c) of
       OperatorToken op \<Rightarrow>
         if op = operator then Ret c
         else if 0 < Precedence op operator \<and> LastElement c \<noteq> None then
           bind_outcome (NewOperatorToken operator) (\<lambda>v. Ret (PushLast v c))
         else
           bind_outcome (if Precedence op operator < 0 then climb_operators c else Ret c) (\<lambda>c'.
           bind_outcome (NewOperatorToken operator) (\<lambda>v. Ret (Push v c')))
     | _ \<Rightarrow>
         if LastElement c \<noteq> None then bind_outcome (NewOperatorToken operator) (\<lambda>v. Ret (PushLast v c))
         else Err (NoValueBefore operator))"

definition parseOperator :: "parser \<Rightarrow> (parse_error, parser) outcome" where
  "parseOperator p =
     bind_outcome (Commit (scan p)) (\<lambda>(operator, s).
     bind_outcome (push_operator operator (curr p)) (\<lambda>c. Ret \<lparr>scan = s, curr = c\<rparr>))"

definition parseLRFunc :: "parser \<Rightarrow> (parse_error, parser) outcome" where
  "parseLRFunc p =
     bind_outcome (Commit (scan p)) (\<lambda>(lrfunc, s).
       if LastElement (curr p) \<noteq> None then Ret \<lparr>scan = s, curr = PushLast (LRFuncToken lrfunc) (curr p)\<rparr>
       else Err (NoValueBefore lrfunc))"

text \<open>\<open>ParseText\<close>: the loop looks for the closing quote.\<close>

function find_quote :: "int \<Rightarrow> scanner \<Rightarrow> (parse_error, scanner) outcome" where
  "find_quote q s =
     (case Next s of (r, s') \<Rightarrow>
        if r = q then Ret s' else if IsEOF s' then Err MissingQuote else find_quote q s')"
  by pat_completeness auto
termination
proof (relation "measure (\<lambda>(q, s). length (input s) - pos s)")
  fix q s r s' assume a: "(r, s') = Next s" "r \<noteq> (q :: int)" "\<not> IsEOF s'"
  then have "r \<noteq> eof" by (auto simp: Next_def IsEOF_def eof_def split: if_splits prod.splits)
  with Next_advances [OF a(1) [symmetric]] show "((q, s'), q, s) \<in> measure (\<lambda>(q, s). length (input s) - pos s)"
    by auto
qed simp

declare find_quote.simps [simp del]

definition ParseText :: "scanner \<Rightarrow> (parse_error, string \<times> scanner) outcome" where
  "ParseText s =
     (case Next s of (r, s1) \<Rightarrow>
        if r = rune CHR 0x22 \<or> r = rune CHR 0x27 then
          bind_outcome (find_quote r (Ignore s1)) (\<lambda>s2.
          bind_outcome (Commit (Backup s2)) (\<lambda>(txt, s3).
          Ret (txt, Ignore (snd (Next s3)))))
        else Ret ([], s1))"

subsection \<open>The states\<close>

definition branchExpressionValuePart ::
  "unicode \<Rightarrow> parser \<Rightarrow> (parse_error, state option \<times> parser) outcome" where
  "branchExpressionValuePart uc p =
     (let s = SkipSpaces (scan p) in
      if IsEOF s then Ret (None, p\<lparr>scan := s\<rparr>)
      else (case ScanNumber uc s of (number, s1) \<Rightarrow>
        if number then
          bind_outcome (Commit s1) (\<lambda>(txt, s2).
          bind_outcome (NewNumberToken txt) (\<lambda>v. Ret (Some OperatorPart, \<lparr>scan = s2, curr = Add v (curr p)\<rparr>)))
        else (case ScanWord uc s1 of (word, s2) \<Rightarrow>
          if word then Ret (Some AfterWord, p\<lparr>scan := s2\<rparr>)
          else (case Next s2 of (c, s3) \<Rightarrow>
            if c = rune CHR 0x22 \<or> c = rune CHR 0x27 then
              bind_outcome (ParseText (Backup s3)) (\<lambda>(txt, s4).
              Ret (Some OperatorPart, \<lparr>scan = s4, curr = Add (TextToken txt) (curr p)\<rparr>))
            else if c = rune CHR ''('' then
              bind_outcome (parseOpenBracket (p\<lparr>scan := s3\<rparr>)) (\<lambda>p'. Ret (Some ValuePart, p'))
            else Err (UnexpectedToken c)))))"

definition branchExpressionAfterWord :: "parser \<Rightarrow> (parse_error, state option \<times> parser) outcome" where
  "branchExpressionAfterWord p =
     (case Peek (scan p) of (r, s) \<Rightarrow>
        bind_outcome (Commit s) (\<lambda>(txt, s').
        if r = rune CHR ''('' then Ret (Some FunctionArguments, \<lparr>scan = s', curr = AddMove (FuncToken txt []) (curr p)\<rparr>)
        else Ret (Some OperatorPart, \<lparr>scan = s', curr = Add (IdentityToken txt) (curr p)\<rparr>)))"

definition branchExpressionOperatorPart ::
  "unicode \<Rightarrow> parser \<Rightarrow> (parse_error, state option \<times> parser) outcome" where
  "branchExpressionOperatorPart uc p =
     (let s = SkipSpaces (scan p) in
      if IsEOF s then Ret (None, p\<lparr>scan := s\<rparr>)
      else (case AcceptOperator uc s of (operator, s1) \<Rightarrow>
        if operator then
          bind_outcome (parseOperator (p\<lparr>scan := s1\<rparr>)) (\<lambda>p'. Ret (Some ValuePart, p'))
        else (case Accept ''='' s1 of (equals, s2) \<Rightarrow>
          if equals then
            bind_outcome (parseLRFunc (p\<lparr>scan := s2\<rparr>)) (\<lambda>p'.
            Ret (Some ValuePart, p'\<lparr>curr := AddMove (GroupToken '''') (curr p')\<rparr>))
          else (case Next s2 of (c, s3) \<Rightarrow>
            if c = rune CHR '')'' then parseCloseBracket (p\<lparr>scan := s3\<rparr>)
            else Ret (None, p\<lparr>scan := Rollback s3\<rparr>)))))"

text \<open>What \<open>branchFunctionArguments\<close> does before its loop.\<close>

definition open_arguments :: "parser \<Rightarrow> (parse_error, parser) outcome" where
  "open_arguments p =
     (case Next (scan p) of (r, s) \<Rightarrow>
        if r \<noteq> rune CHR ''('' then Err MissingOpenBracket
        else (case TValue (focus (curr p)) of
          FuncToken nm args \<Rightarrow> Ret (p\<lparr>scan := s\<rparr>)
        | _ \<Rightarrow> Err MissingFunction))"

definition step :: "unicode \<Rightarrow> state \<Rightarrow> parser \<Rightarrow> (parse_error, state option \<times> parser) outcome" where
  "step uc st p =
     (case st of
        ValuePart \<Rightarrow> branchExpressionValuePart uc p
      | AfterWord \<Rightarrow> branchExpressionAfterWord p
      | FunctionArguments \<Rightarrow> bind_outcome (open_arguments p) (\<lambda>p'. Ret (Some FunctionArguments, p'))
      | OperatorPart \<Rightarrow> branchExpressionOperatorPart uc p)"

text \<open>
  \<open>run\<close> is the loop over the states, \<open>arguments\<close> the loop of \<open>branchFunctionArguments\<close> with \<open>z\<close> for
  \<open>currnode\<close>: each argument is parsed in a tree of its own.
\<close>

fun run :: "unicode \<Rightarrow> nat \<Rightarrow> state option \<Rightarrow> parser \<Rightarrow> (parse_error, parser) outcome"
and arguments :: "unicode \<Rightarrow> nat \<Rightarrow> cursor \<Rightarrow> state option \<Rightarrow> parser \<Rightarrow> (parse_error, parser) outcome" where
  "run uc 0 st p = Err OutOfFuel"
| "run uc (Suc n) None p = Ret p"
| "run uc (Suc n) (Some st) p =
     bind_outcome (step uc st p) (\<lambda>(st', p').
       if st = FunctionArguments then
         bind_outcome (arguments uc n (curr p') (Some ValuePart) p') (\<lambda>p''. run uc n (Some OperatorPart) p'')
       else run uc n st' p')"
| "arguments uc 0 z st p = Err OutOfFuel"
| "arguments uc (Suc n) z st p =
     bind_outcome (run uc n st (p\<lparr>curr := Cursor (TreeNode (GroupToken '''') []) []\<rparr>)) (\<lambda>p'.
       case Next (scan p') of (r, s) \<Rightarrow>
         if r = rune CHR '' '' then arguments uc n z None (p'\<lparr>scan := Ignore s\<rparr>)
         else if r = rune CHR '','' then
           arguments uc n (AddArgument (Root (curr p')) z) (Some ValuePart) (p'\<lparr>scan := Ignore s\<rparr>)
         else if r = rune CHR '')'' then
           (case Parent (AddArgument (Root (curr p')) z) of
              None \<Rightarrow> Panic
            | Some c \<Rightarrow> Ret \<lparr>scan = Ignore s, curr = c\<rparr>)
         else if IsEOF s then Err ArgumentsNotClosed
         else Err (InvalidArgument r))"

definition fuel_for :: "string \<Rightarrow> nat" where "fuel_for txt = 2 * length txt + 2"

definition pumpExpression :: "unicode \<Rightarrow> nat \<Rightarrow> parser \<Rightarrow> (parse_error, parser) outcome" where
  "pumpExpression uc n p =
     bind_outcome (run uc n (Some ValuePart) p) (\<lambda>p'.
     bind_outcome (Commit (scan p')) (\<lambda>(endo, s).
       if endo \<noteq> [] \<or> \<not> IsEOF s then Err (NotParsed endo) else Ret (p'\<lparr>scan := s\<rparr>)))"

definition Parse :: "unicode \<Rightarrow> string \<Rightarrow> (parse_error, tree) outcome" where
  "Parse uc inp =
     bind_outcome
       (pumpExpression uc (fuel_for inp) \<lparr>scan = NewScanner inp, curr = Cursor (TreeNode EmptyToken []) []\<rparr>)
       (\<lambda>p. Ret (Root (curr p)))"

subsection \<open>The parser ends and does not panic\<close>

text \<open>
  A rollback goes back to the last commit: \<open>committed b\<close> says that this is not before position \<open>b\<close>.
\<close>

definition committed :: "nat \<Rightarrow> scanner \<Rightarrow> bool" where
  "committed b s \<longleftrightarrow> b \<le> fst (snd (prevState s))"

text \<open>A step forward, and a commit at the position it reaches.\<close>

definition forward :: "scanner \<Rightarrow> scanner \<Rightarrow> bool" where
  "forward s s' \<longleftrightarrow> scanner_ok s' \<and> input s' = input s \<and> pos s \<le> pos s'
     \<and> (\<forall>b. committed b s \<and> b \<le> pos s \<longrightarrow> committed b s')"

lemma forward_refl [simp]: "scanner_ok s \<Longrightarrow> forward s s"
  by (simp add: forward_def)

lemma moved_forward: "moved s s' \<Longrightarrow> forward s s'"
  by (simp add: moved_def forward_def committed_def)

lemma forward_trans: "forward s s' \<Longrightarrow> forward s' s'' \<Longrightarrow> forward s s''"
  by (auto simp: forward_def)

lemma forward_ok: "forward s s' \<Longrightarrow> scanner_ok s'"
  by (simp add: forward_def)

lemma Commit_forward:
  assumes "Commit s = Ret (txt, s')" and "scanner_ok s"
  shows "forward s s' \<and> pos s' = pos s \<and> committed (pos s) s'"
  using assms by (auto simp: Commit_def Let_def SaveState_def scanner_ok_def positions_def forward_def committed_def split: if_splits)

lemma Commit_not_Panic: "scanner_ok s \<Longrightarrow> Commit s \<noteq> Panic"
  by (simp add: Commit_def scanner_ok_def Let_def)

lemma Ignore_forward: "scanner_ok s \<Longrightarrow> forward s (Ignore s) \<and> pos (Ignore s) = pos s"
  by (simp add: forward_def Ignore_def scanner_ok_def committed_def)

lemma LoadState_moved:
  assumes "moved s s'"
  shows "scanner_ok s \<Longrightarrow> moved s (LoadState (SaveState s) s') \<and> pos (LoadState (SaveState s) s') = pos s"
  using assms by (auto simp: LoadState_def SaveState_def moved_def scanner_ok_def)

lemma operatorList_nonempty: "list_all (\<lambda>op. op \<noteq> []) operatorList"
  by (simp add: operatorList_def operators_def)

lemma accept_operators_moved:
  assumes "accept_operators uc (SaveState s0) ops s = (b, s')" and "moved s0 s" and "pos s = pos s0"
    and "scanner_ok s0" and "list_all (\<lambda>op. op \<noteq> []) ops"
  shows "moved s0 s' \<and> (b \<longrightarrow> pos s0 < pos s') \<and> (\<not> b \<longrightarrow> pos s' = pos s0)"
  using assms
proof (induction ops arbitrary: s)
  case (Cons op ops)
  obtain lower s1 where l: "Prefix op s = (lower, s1)" by fastforce
  obtain found s2 where f: "(if lower then (True, s1) else Prefix (to_upper op) s1) = (found, s2)" by fastforce
  obtain r s3 where k: "Peek s2 = (r, s3)" by fastforce
  have ok: "scanner_ok s" using Cons.prems moved_ok by blast
  have len: "0 < length op" "length (to_upper op) = length op" using Cons.prems by (simp_all add: to_upper_def)
  have two: "moved s s2 \<and> (found \<longrightarrow> pos s < pos s2) \<and> (\<not> found \<longrightarrow> s2 = s)"
    using Prefix_cases [OF ok l] Prefix_cases [of s "to_upper op" found s2] f ok len
    by (cases lower) (auto split: if_splits)
  have three: "moved s2 s3" "pos s3 = pos s2"
    using Peek_moved [OF moved_ok k] two by blast+
  have eq: "accept_operators uc (SaveState s0) (op # ops) s =
      (if found then
         if IsLetter uc (rune (hd op)) \<and> (IsLetter uc r \<or> IsUnicodeNumber uc r \<or> valid_char r)
         then accept_operators uc (SaveState s0) ops (LoadState (SaveState s0) s3) else (True, s3)
       else accept_operators uc (SaveState s0) ops s2)"
    using l f k by simp
  have m3: "moved s0 s3" using Cons.prems(2) two three moved_trans by blast
  from LoadState_moved [OF m3 Cons.prems(4)]
  have bk: "moved s0 (LoadState (SaveState s0) s3)" "pos (LoadState (SaveState s0) s3) = pos s0" by blast+
  show ?case
  proof (cases "found \<and> \<not> (IsLetter uc (rune (hd op)) \<and> (IsLetter uc r \<or> IsUnicodeNumber uc r \<or> valid_char r))")
    case True
    then have "b" "s' = s3" using Cons.prems(1) eq by auto
    then show ?thesis using m3 two three Cons.prems(3) True by auto
  next
    case False
    then show ?thesis
      using Cons.IH [of "LoadState (SaveState s0) s3"] Cons.IH [of s2] Cons.prems eq bk two
      by (cases found) auto
  qed
qed simp

lemma AcceptOperator_moved:
  "scanner_ok s \<Longrightarrow> AcceptOperator uc s = (b, s') \<Longrightarrow>
     moved s s' \<and> (b \<longrightarrow> pos s < pos s') \<and> (\<not> b \<longrightarrow> pos s' = pos s)"
  unfolding AcceptOperator_def
  by (rule accept_operators_moved [OF _ _ _ _ operatorList_nonempty]) simp_all

lemma Accept_moved:
  assumes "scanner_ok s" and "Accept valid s = (b, s')"
  shows "moved s s' \<and> (b \<longrightarrow> pos s < pos s') \<and> (\<not> b \<longrightarrow> pos s' = pos s)"
proof -
  obtain r q where n: "Next s = (r, q)" by fastforce
  have e: "r \<in> rune ` set valid \<Longrightarrow> r \<noteq> eof" by (auto simp: rune_def eof_def)
  from assms(1) n show ?thesis
  proof (cases rule: Next_cases)
    case eof
    then show ?thesis using assms n e by (auto simp: Accept_def Backup_def split: if_splits)
  next
    case rune
    then show ?thesis using assms n by (auto simp: Accept_def split: if_splits)
  qed
qed

lemma bind_outcome_Err_iff:
  "bind_outcome m f = Err e \<longleftrightarrow> m = Err e \<or> (\<exists>a. m = Ret a \<and> f a = Err e)"
  by (cases m) auto

lemma closing_group_rooted:
  "closing_group c = Some c' \<Longrightarrow> rooted c \<Longrightarrow>
     rooted c' \<and> (TValue (focus c') = GroupToken ''()'' \<or> TValue (focus c') = GroupToken '''')"
proof (induction c rule: closing_group.induct)
  case (1 c)
  show ?case
  proof (cases "TValue (focus c) = GroupToken ''()'' \<or> TValue (focus c) = GroupToken ''''")
    case True
    with 1(2,3) show ?thesis by (subst (asm) closing_group.simps) auto
  next
    case False
    then obtain d where "Parent c = Some d" "closing_group d = Some c'"
      using 1(2) by (subst (asm) closing_group.simps) (auto split: option.splits)
    then show ?thesis using 1 False rooted_ops(5) by blast
  qed
qed

lemma climb_operators_rooted:
  assumes "rooted c" and "TValue (focus c) = OperatorToken op"
  shows "\<exists>c'. climb_operators c = Ret c' \<and> rooted c' \<and> path c' \<noteq> []"
  using assms
proof (induction c arbitrary: op rule: climb_operators.induct)
  case (1 c)
  have "path c \<noteq> []" using 1(2,3) rooted_inner by auto
  then obtain c' where c': "Parent c = Some c'" using Parent_None by (cases "Parent c") auto
  then have r: "rooted c'" using 1(2) rooted_ops by blast
  show ?case
  proof (cases "\<exists>op'. TValue (focus c') = OperatorToken op' \<and> 0 \<le> Level op'")
    case True
    then obtain op' where "TValue (focus c') = OperatorToken op'" "0 \<le> Level op'" by blast
    then show ?thesis using 1(1) [OF c' _ _ r] c' by (subst climb_operators.simps) simp
  next
    case False
    then have "climb_operators c = Ret c"
      using c' by (subst climb_operators.simps) (auto split: token.splits)
    then show ?thesis using 1(2) \<open>path c \<noteq> []\<close> by blast
  qed
qed

lemma push_operator_rooted:
  assumes "rooted c"
  shows "push_operator operator c \<noteq> Panic" and "push_operator operator c = Ret c' \<Longrightarrow> rooted c'"
proof -
  have new: "NewOperatorToken operator \<noteq> Panic" by (simp add: NewOperatorToken_def)
  show "push_operator operator c \<noteq> Panic"
    using climb_operators_rooted [OF assms] new
    by (auto simp: push_operator_def bind_outcome_Panic_iff split: token.splits)
  have p: "path c \<noteq> []" if "TValue (focus c) = OperatorToken op" for op
    using rooted_inner [OF assms] that by simp
  show "rooted c'" if "push_operator operator c = Ret c'"
    using that climb_operators_rooted [OF assms] p assms
    by (auto simp: push_operator_def rooted_ops split: token.splits if_splits)
qed

lemma climb_operators_no_error: "climb_operators c \<noteq> Err e"
proof (induction c rule: climb_operators.induct)
  case (1 c)
  then show ?case by (subst climb_operators.simps) (auto split: option.splits token.splits)
qed

lemma push_operator_fuel: "push_operator operator c \<noteq> Err OutOfFuel"
  using climb_operators_no_error
  by (auto simp: push_operator_def bind_outcome_Err_iff NewOperatorToken_def split: token.splits)

lemma find_quote_moved:
  assumes "scanner_ok s" and "q \<noteq> eof"
  shows "find_quote q s \<noteq> Panic \<and> find_quote q s \<noteq> Err OutOfFuel
    \<and> (find_quote q s = Ret s' \<longrightarrow> moved s (Backup s'))"
  using assms
proof (induction q s rule: find_quote.induct)
  case (1 q s)
  obtain r t where n: "Next s = (r, t)" by fastforce
  have eq: "find_quote q s = (if r = q then Ret t else if IsEOF t then Err MissingQuote else find_quote q t)"
    using n by (subst find_quote.simps) simp
  from 1(2) n show ?case
  proof (cases rule: Next_cases)
    case eof
    then show ?thesis using 1(3) eq by (auto simp: IsEOF_def)
  next
    case rune
    then have "r \<noteq> q \<Longrightarrow> \<not> IsEOF t \<Longrightarrow> find_quote q t \<noteq> Panic \<and> find_quote q t \<noteq> Err OutOfFuel
        \<and> (find_quote q t = Ret s' \<longrightarrow> moved t (Backup s'))"
      using 1(1) [OF n [symmetric]] 1(3) moved_ok by blast
    with rune eq show ?thesis by (auto intro: moved_trans)
  qed
qed

lemma bind_Commit:
  assumes "scanner_ok s"
  obtains u s' where "(Commit s :: (parse_error, _) outcome) = Ret (u, s')" "forward s s'" "pos s' = pos s" "committed (pos s) s'"
proof -
  obtain u s' where c: "(Commit s :: (parse_error, _) outcome) = Ret (u, s')" using Commit_ok [OF assms] by blast
  with Commit_forward [OF c assms] that show ?thesis by blast
qed

lemma forward_committed: "forward s s' \<Longrightarrow> committed b s \<Longrightarrow> b \<le> pos s \<Longrightarrow> committed b s'"
  by (simp add: forward_def)

lemma ParseText_forward:
  assumes "scanner_ok s" and "Next s = (r, t)" and "r = rune CHR 0x22 \<or> r = rune CHR 0x27"
  shows "ParseText s \<noteq> Panic \<and> ParseText s \<noteq> Err OutOfFuel
    \<and> (ParseText s = Ret (txt, s') \<longrightarrow> forward s s' \<and> pos s < pos s' \<and> committed (pos s) s')"
proof -
  have ne: "r \<noteq> eof" using assms(3) by (auto simp: rune_def eof_def)
  from assms(1,2) have t: "moved s t" "pos s < pos t" by (cases rule: Next_cases; use ne in simp)+
  have i: "scanner_ok (Ignore t)" "forward s (Ignore t)" "pos (Ignore t) = pos t"
    using moved_forward [OF t(1)] Ignore_forward [OF moved_ok [OF t(1)]] forward_trans forward_ok by blast+
  have eq: "ParseText s = bind_outcome (find_quote r (Ignore t)) (\<lambda>s2.
      bind_outcome (Commit (Backup s2)) (\<lambda>(txt, s3). Ret (txt, Ignore (snd (Next s3)))))"
    using assms(2,3) by (auto simp: ParseText_def)
  note q = find_quote_moved [OF i(1) ne]
  show ?thesis
  proof (cases "find_quote r (Ignore t)")
    case (Ret s2)
    then have m: "moved (Ignore t) (Backup s2)" using q by blast
    obtain u s3 where c: "(Commit (Backup s2) :: (parse_error, _) outcome) = Ret (u, s3)" "forward (Backup s2) s3" "pos s3 = pos (Backup s2)"
      "committed (pos (Backup s2)) s3" using bind_Commit [OF moved_ok [OF m]] by blast
    have f3: "forward s s3" "pos s < pos s3" "committed (pos s) s3"
      using forward_trans [OF i(2) forward_trans [OF moved_forward [OF m] c(2)]] t i(3) m c(3,4)
      by (auto simp: moved_def committed_def)
    obtain r4 s4 where n4: "Next s3 = (r4, s4)" by fastforce
    from forward_ok [OF f3(1)] n4 have f4: "forward s3 s4 \<and> pos s3 \<le> pos s4 \<and> prevState s4 = prevState s3"
      using forward_ok [OF f3(1)]
      by (cases rule: Next_cases) (auto simp: forward_def scanner_ok_def committed_def moved_def)
    moreover from this have "forward s4 (Ignore s4)" "pos (Ignore s4) = pos s4" "prevState (Ignore s4) = prevState s4"
      using Ignore_forward forward_ok by (auto simp: Ignore_def)
    ultimately have "forward s (Ignore s4) \<and> pos s < pos (Ignore s4) \<and> committed (pos s) (Ignore s4)"
      using f3 forward_trans by (auto simp: committed_def intro: forward_trans)
    then show ?thesis using eq Ret c n4 by auto
  qed (use eq q in auto)
qed

text \<open>\<open>kept\<close>: a rollback may go back, but not before a position that is committed.\<close>

definition kept :: "scanner \<Rightarrow> scanner \<Rightarrow> bool" where
  "kept s s' \<longleftrightarrow> scanner_ok s' \<and> input s' = input s \<and>
     (\<forall>b. committed b s \<and> b \<le> pos s \<longrightarrow> committed b s' \<and> b \<le> pos s')"

lemma forward_imp_kept: "forward s s' \<Longrightarrow> kept s s'"
  by (auto simp: forward_def kept_def)

lemma scan_kept_trans: "kept s s' \<Longrightarrow> kept s' s'' \<Longrightarrow> kept s s''"
  by (auto simp: kept_def)

lemma forward_kept: "forward s s1 \<Longrightarrow> committed (pos s) s1 \<Longrightarrow> kept s1 s2 \<Longrightarrow> forward s s2"
  by (auto simp: kept_def forward_def)

lemma Rollback_kept: "scanner_ok s \<Longrightarrow> kept s (Rollback s)"
  by (auto simp: Rollback_def LoadState_def kept_def scanner_ok_def positions_def committed_def split: prod.splits)

text \<open>What a step guarantees, for each state.\<close>

definition step_ok :: "state \<Rightarrow> parser \<Rightarrow> state option \<Rightarrow> parser \<Rightarrow> bool" where
  "step_ok st p st' p' \<longleftrightarrow> rooted (curr p') \<and>
     (case st of
        ValuePart \<Rightarrow> forward (scan p) (scan p') \<and>
          (st' = None \<or> pos (scan p) < pos (scan p') \<and>
             (st' = Some OperatorPart \<and> committed (pos (scan p)) (scan p') \<or> st' = Some ValuePart \<or> st' = Some AfterWord))
      | AfterWord \<Rightarrow> forward (scan p) (scan p') \<and> pos (scan p') = pos (scan p) \<and> committed (pos (scan p)) (scan p') \<and>
          (st' = Some OperatorPart \<or> st' = Some FunctionArguments)
      | FunctionArguments \<Rightarrow> forward (scan p) (scan p') \<and> pos (scan p) < pos (scan p') \<and>
          (\<exists>nm args. TValue (focus (curr p')) = FuncToken nm args)
      | OperatorPart \<Rightarrow> kept (scan p) (scan p') \<and>
          (st' = None \<or> pos (scan p) < pos (scan p') \<and> (st' = Some ValuePart \<or> st' = Some OperatorPart)))"

definition outcome_ok :: "state \<Rightarrow> parser \<Rightarrow> (parse_error, state option \<times> parser) outcome \<Rightarrow> bool" where
  "outcome_ok st p m \<longleftrightarrow> m \<noteq> Panic \<and> m \<noteq> Err OutOfFuel \<and> (\<forall>st' p'. m = Ret (st', p') \<longrightarrow> step_ok st p st' p')"

lemma outcome_ok_simps [simp]:
  "outcome_ok st p (Ret (st', p')) = step_ok st p st' p'" "\<not> outcome_ok st p Panic"
  "outcome_ok st p (Err e) = (e \<noteq> OutOfFuel)"
  by (simp_all add: outcome_ok_def)

lemma AfterWord_ok:
  assumes "scanner_ok (scan p)" and "rooted (curr p)"
  shows "outcome_ok AfterWord p (branchExpressionAfterWord p)"
proof -
  obtain r s where k: "Peek (scan p) = (r, s)" by fastforce
  have m: "moved (scan p) s" "pos s = pos (scan p)" using Peek_moved [OF assms(1) k] by blast+
  obtain u s' where c: "(Commit s :: (parse_error, _) outcome) = Ret (u, s')" "forward s s'" "pos s' = pos s" "committed (pos s) s'"
    using bind_Commit [OF moved_ok [OF m(1)]] by blast
  have "forward (scan p) s'" using forward_trans [OF moved_forward [OF m(1)] c(2)] .
  then show ?thesis
    using k c m assms by (simp add: branchExpressionAfterWord_def step_ok_def rooted_ops)
qed

lemma FunctionArguments_ok:
  assumes "scanner_ok (scan p)" and "rooted (curr p)"
  shows "outcome_ok FunctionArguments p (step uc FunctionArguments p)"
proof -
  obtain r s where n: "Next (scan p) = (r, s)" by fastforce
  from assms(1) n show ?thesis
  proof (cases rule: Next_cases)
    case eof
    then show ?thesis using n by (simp add: step_def open_arguments_def eof_def rune_def)
  next
    case rune
    then show ?thesis using n assms moved_forward [OF rune(3)]
      by (auto simp: step_def open_arguments_def step_ok_def split: token.splits)
  qed
qed

lemma ValuePart_ok:
  assumes "scanner_ok (scan p)" and "rooted (curr p)"
  shows "outcome_ok ValuePart p (branchExpressionValuePart uc p)"
proof -
  define s where "s = SkipSpaces (scan p)"
  have s: "moved (scan p) s" using SkipSpaces_moved [OF assms(1)] by (simp add: s_def)
  obtain number s1 where n1: "ScanNumber uc s = (number, s1)" by fastforce
  obtain word s2 where w: "ScanWord uc s1 = (word, s2)" by fastforce
  obtain c s3 where n3: "Next s2 = (c, s3)" by fastforce
  note sn = ScanNumber_cases [OF moved_ok [OF s] n1]
  have s1: "moved (scan p) s1" using s sn moved_trans by blast
  note sw = ScanWord_cases [OF moved_ok [OF s1] w]
  have s2: "moved (scan p) s2" using s1 sw moved_trans by blast
  have le: "pos (scan p) \<le> pos s" "\<not> number \<Longrightarrow> pos s1 = pos s" "\<not> word \<Longrightarrow> pos s2 = pos s1"
    using s sn sw by (simp_all add: moved_def)
  have eq: "branchExpressionValuePart uc p =
     (if IsEOF s then Ret (None, p\<lparr>scan := s\<rparr>)
      else if number then bind_outcome (Commit s1) (\<lambda>(txt, s2).
          bind_outcome (NewNumberToken txt) (\<lambda>v. Ret (Some OperatorPart, \<lparr>scan = s2, curr = Add v (curr p)\<rparr>)))
      else if word then Ret (Some AfterWord, p\<lparr>scan := s2\<rparr>)
      else if c = rune CHR 0x22 \<or> c = rune CHR 0x27 then
        bind_outcome (ParseText (Backup s3)) (\<lambda>(txt, s4).
        Ret (Some OperatorPart, \<lparr>scan = s4, curr = Add (TextToken txt) (curr p)\<rparr>))
      else if c = rune CHR ''('' then
        bind_outcome (parseOpenBracket (p\<lparr>scan := s3\<rparr>)) (\<lambda>p'. Ret (Some ValuePart, p'))
      else Err (UnexpectedToken c))"
    by (simp only: branchExpressionValuePart_def Let_def s_def [symmetric] n1 w n3 prod.case)
  consider "IsEOF s" | "\<not> IsEOF s" number | "\<not> IsEOF s" "\<not> number" word
    | "\<not> IsEOF s" "\<not> number" "\<not> word" "c = rune CHR 0x22 \<or> c = rune CHR 0x27"
    | "\<not> IsEOF s" "\<not> number" "\<not> word" "c \<noteq> rune CHR 0x22" "c \<noteq> rune CHR 0x27" by blast
  then show ?thesis
  proof cases
    case 1
    then show ?thesis using eq s assms moved_forward by (simp add: step_ok_def)
  next
    case 2
    obtain u t where t: "(Commit s1 :: (parse_error, _) outcome) = Ret (u, t)" "forward s1 t" "pos t = pos s1" "committed (pos s1) t"
      using bind_Commit [OF moved_ok [OF s1]] by blast
    have "forward (scan p) t" using forward_trans [OF moved_forward [OF s1] t(2)] .
    moreover have "pos (scan p) < pos t" "committed (pos (scan p)) t"
      using t(3,4) sn 2 le by (auto simp: committed_def)
    ultimately show ?thesis
      using 2 eq t assms by (auto simp: NewNumberToken_def step_ok_def rooted_ops split: option.splits)
  next
    case 3
    then have "forward (scan p) s2" "pos (scan p) < pos s2" using sw le sn moved_forward [OF s2] by auto
    then show ?thesis using 3 eq assms by (simp add: step_ok_def)
  next
    case 4
    have ne: "c \<noteq> eof" using 4 by (auto simp: eof_def rune_def)
    from moved_ok [OF s2] n3 have b: "moved s2 (Backup s3)" "pos (Backup s3) = pos s2" "fst (Next (Backup s3)) = c"
      by (cases rule: Next_cases; use ne n3 in \<open>auto simp: Next_def IsEOF_def Backup_def split: prod.splits if_splits\<close>)+
    obtain t where t: "Next (Backup s3) = (c, t)" using b(3) by (cases "Next (Backup s3)") auto
    have f: "forward (scan p) (Backup s3)" using moved_forward [OF s2] moved_forward [OF b(1)] forward_trans by blast
    have le': "pos (scan p) \<le> pos (Backup s3)" using le 4 b by simp
    note q = ParseText_forward [OF moved_ok [OF b(1)] t 4(4)]
    have eq4: "branchExpressionValuePart uc p = bind_outcome (ParseText (Backup s3)) (\<lambda>(txt, s4).
        Ret (Some OperatorPart, \<lparr>scan = s4, curr = Add (TextToken txt) (curr p)\<rparr>))"
      using eq 4 by simp
    show ?thesis
    proof (cases "ParseText (Backup s3)")
      case (Ret a)
      obtain u s4 where a: "a = (u, s4)" by fastforce
      then have "forward (Backup s3) s4" "pos (Backup s3) < pos s4" "committed (pos (Backup s3)) s4"
        using q [of u s4] Ret by blast+
      then have "forward (scan p) s4" "pos (scan p) < pos s4" "committed (pos (scan p)) s4"
        using f forward_trans le' by (auto simp: committed_def)
      then show ?thesis using eq4 Ret a assms by (simp add: step_ok_def rooted_ops)
    next
      case (Err e)
      then show ?thesis using eq4 q [of "[]" s] by auto
    next
      case Panic
      then show ?thesis using q [of "[]" s] by blast
    qed
  next
    case 5
    show ?thesis
    proof (cases "c = rune CHR ''(''")
      case True
      then have ne: "c \<noteq> eof" by (simp add: eof_def rune_def)
      from moved_ok [OF s2] n3 have b: "moved s2 s3" "pos s2 < pos s3"
        by (cases rule: Next_cases; use ne in simp)+
      obtain u t where t: "(Commit s3 :: (parse_error, _) outcome) = Ret (u, t)" "forward s3 t" "pos t = pos s3" "committed (pos s3) t"
        using bind_Commit [OF moved_ok [OF b(1)]] by blast
      have "forward (scan p) t" using forward_trans moved_forward s2 b(1) t(2) by blast
      moreover have "pos (scan p) < pos t" using le b 5 t by simp
      ultimately show ?thesis
        using 5 eq t assms True by (auto simp: parseOpenBracket_def step_ok_def rooted_ops)
    next
      case False
      then show ?thesis using 5 eq by simp
    qed
  qed
qed

lemma OperatorPart_ok:
  assumes "scanner_ok (scan p)" and "rooted (curr p)"
  shows "outcome_ok OperatorPart p (branchExpressionOperatorPart uc p)"
proof -
  define s where "s = SkipSpaces (scan p)"
  have s: "moved (scan p) s" using SkipSpaces_moved [OF assms(1)] by (simp add: s_def)
  obtain operator s1 where n1: "AcceptOperator uc s = (operator, s1)" by fastforce
  obtain equals s2 where a: "Accept ''='' s1 = (equals, s2)" by fastforce
  obtain c s3 where n3: "Next s2 = (c, s3)" by fastforce
  note so = AcceptOperator_moved [OF moved_ok [OF s] n1]
  have s1: "moved (scan p) s1" using s so moved_trans by blast
  note sa = Accept_moved [OF moved_ok [OF s1] a]
  have s2: "moved (scan p) s2" using s1 sa moved_trans by blast
  from moved_ok [OF s2] n3 have s3: "forward s2 s3" "c \<noteq> eof \<Longrightarrow> moved s2 s3" "c \<noteq> eof \<Longrightarrow> pos s2 < pos s3"
      "c \<noteq> eof \<Longrightarrow> moved s2 (Backup s3)"
    by (cases rule: Next_cases; auto simp: forward_def scanner_ok_def committed_def moved_def)+
  have le: "pos (scan p) \<le> pos s" "\<not> operator \<Longrightarrow> pos s1 = pos s" "\<not> equals \<Longrightarrow> pos s2 = pos s1"
    using s so sa by (simp_all add: moved_def)
  have eq: "branchExpressionOperatorPart uc p =
     (if IsEOF s then Ret (None, p\<lparr>scan := s\<rparr>)
      else if operator then bind_outcome (parseOperator (p\<lparr>scan := s1\<rparr>)) (\<lambda>p'. Ret (Some ValuePart, p'))
      else if equals then bind_outcome (parseLRFunc (p\<lparr>scan := s2\<rparr>)) (\<lambda>p'.
            Ret (Some ValuePart, p'\<lparr>curr := AddMove (GroupToken '''') (curr p')\<rparr>))
      else if c = rune CHR '')'' then parseCloseBracket (p\<lparr>scan := s3\<rparr>)
      else Ret (None, p\<lparr>scan := Rollback s3\<rparr>))"
    by (simp only: branchExpressionOperatorPart_def Let_def s_def [symmetric] n1 a n3 prod.case)
  obtain u1 t1 where t1: "(Commit s1 :: (parse_error, _) outcome) = Ret (u1, t1)" "forward s1 t1" "pos t1 = pos s1" "committed (pos s1) t1"
    using bind_Commit [OF moved_ok [OF s1]] by blast
  obtain u2 t2 where t2: "(Commit s2 :: (parse_error, _) outcome) = Ret (u2, t2)" "forward s2 t2" "pos t2 = pos s2" "committed (pos s2) t2"
    using bind_Commit [OF moved_ok [OF s2]] by blast
  have k1: "kept (scan p) t1" "kept (scan p) t2" "kept (scan p) s"
    using forward_imp_kept forward_trans moved_forward s s1 s2 t1(2) t2(2) by blast+
  consider "IsEOF s" | "\<not> IsEOF s" operator | "\<not> IsEOF s" "\<not> operator" equals
    | "\<not> IsEOF s" "\<not> operator" "\<not> equals" "c = rune CHR '')''"
    | "\<not> IsEOF s" "\<not> operator" "\<not> equals" "c \<noteq> rune CHR '')''" by blast
  then show ?thesis
  proof cases
    case 1
    then show ?thesis using eq k1 assms by (simp add: step_ok_def)
  next
    case 2
    have "pos (scan p) < pos t1" using so 2 le t1 by simp
    then show ?thesis
      using 2 eq t1 k1 push_operator_rooted [OF assms(2), of u1] push_operator_fuel [of u1 "curr p"]
      by (cases "push_operator u1 (curr p)") (auto simp: parseOperator_def step_ok_def)
  next
    case 3
    have "pos (scan p) < pos t2" using sa 3 le t2 by simp
    then show ?thesis
      using 3 eq t2 k1 assms by (auto simp: parseLRFunc_def step_ok_def rooted_ops)
  next
    case 4
    have ne: "c \<noteq> eof" using 4 by (simp add: eof_def rune_def)
    have m3: "moved (scan p) s3" "moved (scan p) (Backup s3)" "pos (scan p) < pos s3"
      using s2 s3 ne moved_trans le 4 by (auto simp: moved_def)
    obtain u t where t: "(Commit s3 :: (parse_error, _) outcome) = Ret (u, t)" "forward s3 t" "pos t = pos s3" "committed (pos s3) t"
      using bind_Commit [OF moved_ok [OF m3(1)]] by blast
    have k: "kept (scan p) t" "kept (scan p) (Backup s3)"
      using forward_imp_kept forward_trans moved_forward m3 t(2) by blast+
    have pc: "branchExpressionOperatorPart uc p = parseCloseBracket (p\<lparr>scan := s3\<rparr>)" using eq 4 by simp
    show ?thesis
    proof (cases "closing_group (curr p)")
      case None
      then show ?thesis using pc by (simp add: parseCloseBracket_def)
    next
      case (Some d)
      note cg = closing_group_rooted [OF Some assms(2)]
      show ?thesis
      proof (cases "TValue (focus d) = GroupToken ''()''")
        case True
        then have "path d \<noteq> []" using cg rooted_inner by auto
        then obtain d' where d': "Parent d = Some d'" using Parent_None by (cases "Parent d") auto
        then have "rooted d'" using cg rooted_ops(5) by blast
        with d' pc Some True t k m3 show ?thesis by (simp add: parseCloseBracket_def step_ok_def)
      next
        case False
        with pc Some k cg show ?thesis by (simp add: parseCloseBracket_def step_ok_def)
      qed
    qed
  next
    case 5
    have "kept (scan p) (Rollback s3)"
      using scan_kept_trans forward_imp_kept forward_trans moved_forward s2 s3(1) Rollback_kept forward_ok by blast
    then show ?thesis using 5 eq assms by (simp add: step_ok_def)
  qed
qed

lemma step_outcome_ok: "scanner_ok (scan p) \<Longrightarrow> rooted (curr p) \<Longrightarrow> outcome_ok st p (step uc st p)"
  using ValuePart_ok AfterWord_ok FunctionArguments_ok OperatorPart_ok by (cases st) (auto simp: step_def)

text \<open>The fuel each state needs for what is left of the input.\<close>

definition left :: "scanner \<Rightarrow> nat" where "left s = length (input s) - pos s"

definition need :: "state option \<Rightarrow> scanner \<Rightarrow> nat" where
  "need st s = (case st of None \<Rightarrow> 1 | Some AfterWord \<Rightarrow> 2 * left s + 3 | Some _ \<Rightarrow> 2 * left s + 2)"

definition run_ok :: "state option \<Rightarrow> scanner \<Rightarrow> (parse_error, parser) outcome \<Rightarrow> bool" where
  "run_ok st s m \<longleftrightarrow> m \<noteq> Panic \<and> m \<noteq> Err OutOfFuel \<and>
     (\<forall>p'. m = Ret p' \<longrightarrow> rooted (curr p') \<and> kept s (scan p') \<and>
        (st \<noteq> Some OperatorPart \<and> st \<noteq> Some FunctionArguments \<longrightarrow> forward s (scan p')))"

lemma run_ok_simps [simp]:
  "\<not> run_ok st s Panic" "run_ok st s (Err e) = (e \<noteq> OutOfFuel)"
  by (simp_all add: run_ok_def)

lemma run_ok_Ret: "run_ok st s m \<Longrightarrow> m = Ret p' \<Longrightarrow> rooted (curr p') \<and> kept s (scan p')"
  by (simp add: run_ok_def)

lemma forward_left: "forward s s' \<Longrightarrow> pos s < pos s' \<Longrightarrow> left s' < left s"
  by (auto simp: forward_def scanner_ok_def left_def)

lemma kept_left: "kept s s' \<Longrightarrow> pos s < pos s' \<Longrightarrow> left s' < left s"
  by (auto simp: kept_def scanner_ok_def left_def)

lemma forward_left_le: "forward s s' \<Longrightarrow> left s' \<le> left s"
  by (auto simp: forward_def left_def)

lemma AddArgument_rooted: "rooted (AddArgument t c) = rooted c"
proof -
  have "path (AddArgument t c) = path c"
    "path c = [] \<Longrightarrow> root_token (AddArgument t c) = root_token c \<or>
      (\<exists>nm args. root_token c = FuncToken nm args \<and> root_token (AddArgument t c) = FuncToken nm (args @ [t]))"
    by (auto simp: AddArgument_def root_token_def split: token.splits)
  then show ?thesis by (cases "path c = []") (auto simp: rooted_def root_token_def)
qed

lemma AddArgument_func: "TValue (focus c) = FuncToken nm args \<Longrightarrow>
  TValue (focus (AddArgument t c)) = FuncToken nm (args @ [t])"
  by (simp add: AddArgument_def)

lemma rooted_argument: "rooted (Cursor (TreeNode (GroupToken '''') []) [])"
  by (simp add: rooted_def root_token_def)

lemma run_arguments_ok:
  shows "scanner_ok (scan p) \<Longrightarrow> rooted (curr p) \<Longrightarrow> need st (scan p) \<le> n \<Longrightarrow> run_ok st (scan p) (run uc n st p)"
    and "scanner_ok (scan p) \<Longrightarrow> rooted z \<Longrightarrow> TValue (focus z) = FuncToken nm args \<Longrightarrow> st = None \<or> st = Some ValuePart
      \<Longrightarrow> 2 * left (scan p) + 3 \<le> n \<Longrightarrow> run_ok None (scan p) (arguments uc n z st p)
        \<and> (\<forall>p'. arguments uc n z st p = Ret p' \<longrightarrow> pos (scan p) < pos (scan p'))"
proof (induction n arbitrary: st p z nm args)
  case 0
  {
    case 1
    then show ?case by (cases st rule: option.exhaust; cases "the st") (simp_all add: need_def)
  next
    case 2
    then show ?case by simp
  }
next
  case (Suc n)
  {
    case 1
    show ?case
    proof (cases st)
      case None
      then show ?thesis using 1 by (simp add: run_ok_def kept_def forward_def)
    next
      case (Some s)
      have ok: "outcome_ok s p (step uc s p)" using step_outcome_ok 1 by blast
      show ?thesis
      proof (cases "step uc s p")
        case (Ret a)
        obtain st' p' where a: "a = (st', p')" by fastforce
        have so: "step_ok s p st' p'" using ok Ret a by simp
        then have sc: "scanner_ok (scan p')" "rooted (curr p')"
          by (auto simp: step_ok_def kept_def forward_def split: state.splits)
        show ?thesis
        proof (cases "s = FunctionArguments")
          case False
          have eq: "run uc (Suc n) st p = run uc n st' p'" using Some Ret a False by simp
          have need: "need st' (scan p') \<le> n"
            using so 1(3) Some False forward_left [of "scan p" "scan p'"] kept_left [of "scan p" "scan p'"]
              forward_left_le [of "scan p" "scan p'"]
            by (cases s) (auto simp: step_ok_def need_def)
          note ih = Suc.IH(1) [OF sc need]
          have st': "s \<noteq> OperatorPart \<Longrightarrow> st' = Some OperatorPart \<or> st' = Some FunctionArguments \<Longrightarrow>
              committed (pos (scan p)) (scan p')"
            "s \<noteq> OperatorPart \<Longrightarrow> forward (scan p) (scan p')" "kept (scan p) (scan p')"
            using so False forward_imp_kept by (auto simp: step_ok_def split: state.splits)
          show ?thesis
          proof (cases "run uc n st' p'")
            case (Ret q)
            then have k: "rooted (curr q)" "kept (scan p') (scan q)" using run_ok_Ret [OF ih] by blast+
            have "forward (scan p) (scan q)" if "s \<noteq> OperatorPart"
            proof (cases "st' = Some OperatorPart \<or> st' = Some FunctionArguments")
              case True
              then show ?thesis using forward_kept st' k(2) that by blast
            next
              case False
              then have "forward (scan p') (scan q)" using ih Ret by (simp add: run_ok_def)
              then show ?thesis using forward_trans st' that by blast
            qed
            then show ?thesis unfolding eq using Ret Some False k scan_kept_trans [OF st'(3) k(2)] by (simp add: run_ok_def)
          qed (unfold eq, use ih in auto)
        next
          case True
          then obtain nm args where f: "TValue (focus (curr p')) = FuncToken nm args"
            and fw: "forward (scan p) (scan p')" "pos (scan p) < pos (scan p')"
            using so by (auto simp: step_ok_def)
          have l: "2 * left (scan p') + 3 \<le> n" using 1(3) Some True forward_left [OF fw] by (simp add: need_def)
          note ia = Suc.IH(2) [OF sc f _ l, of "Some ValuePart"]
          have eq: "run uc (Suc n) st p =
              bind_outcome (arguments uc n (curr p') (Some ValuePart) p') (\<lambda>q. run uc n (Some OperatorPart) q)"
            using Some Ret a True by simp
          show ?thesis
          proof (cases "arguments uc n (curr p') (Some ValuePart) p'")
            case (Ret q)
            then have q: "rooted (curr q)" "kept (scan p') (scan q)" "pos (scan p') < pos (scan q)"
              using ia by (auto simp: run_ok_def)
            have "need (Some OperatorPart) (scan q) \<le> n"
              using l kept_left [OF q(2,3)] by (simp add: need_def)
            moreover have "scanner_ok (scan q)" using q(2) by (simp add: kept_def)
            ultimately have ih: "run_ok (Some OperatorPart) (scan q) (run uc n (Some OperatorPart) q)"
              using Suc.IH(1) q(1) by blast
            have "kept (scan p) (scan q)" using scan_kept_trans forward_imp_kept fw(1) q(2) by blast
            then show ?thesis
              using ih eq Ret Some True scan_kept_trans unfolding run_ok_def by (auto intro: scan_kept_trans)
          qed (use eq ia in auto)
        qed
      next
        case (Err e)
        then show ?thesis using ok Some by simp
      next
        case Panic
        then show ?thesis using ok by simp
      qed
    qed
  next
    case 2
    let ?p = "p\<lparr>curr := Cursor (TreeNode (GroupToken '''') []) []\<rparr>"
    have "need st (scan ?p) \<le> n" using 2(4,5) by (auto simp: need_def)
    then have ir: "run_ok st (scan p) (run uc n st ?p)"
      using Suc.IH(1) [of ?p st] 2(1) rooted_argument by simp
    show ?case
    proof (cases "run uc n st ?p")
      case (Ret p')
      then have f: "forward (scan p) (scan p')" using ir 2(4) by (auto simp: run_ok_def)
      obtain r s where nx: "Next (scan p') = (r, s)" by fastforce
      have eq: "arguments uc (Suc n) z st p =
        (if r = rune CHR '' '' then arguments uc n z None (p'\<lparr>scan := Ignore s\<rparr>)
         else if r = rune CHR '','' then
           arguments uc n (AddArgument (Root (curr p')) z) (Some ValuePart) (p'\<lparr>scan := Ignore s\<rparr>)
         else if r = rune CHR '')'' then
           (case Parent (AddArgument (Root (curr p')) z) of
              None \<Rightarrow> Panic
            | Some c \<Rightarrow> Ret \<lparr>scan = Ignore s, curr = c\<rparr>)
         else if IsEOF s then Err ArgumentsNotClosed
         else Err (InvalidArgument r))"
        using Ret nx by simp
      show ?thesis
      proof (cases "r = eof")
        case True
        then show ?thesis unfolding eq by (simp add: eof_def rune_def)
      next
        case False
        from forward_ok [OF f] nx have m: "moved (scan p') s" "pos (scan p') < pos s"
          by (cases rule: Next_cases; use False in simp)+
        note ig = Ignore_forward [OF moved_ok [OF m(1)]]
        have fw: "forward (scan p) (Ignore s)"
          using forward_trans [OF f forward_trans [OF moved_forward [OF m(1)]]] ig by blast
        moreover have "pos (scan p) \<le> pos (scan p')" using f by (simp add: forward_def)
        ultimately have fw: "forward (scan p) (Ignore s)" "pos (scan p) < pos (Ignore s)" "scanner_ok (Ignore s)"
          using m(2) ig forward_ok by simp_all
        have l: "2 * left (Ignore s) + 3 \<le> n" using forward_left [OF fw(1,2)] 2(5) by simp
        let ?z = "AddArgument (Root (curr p')) z"
        have z: "rooted ?z" "TValue (focus ?z) = FuncToken nm (args @ [Root (curr p')])"
          using 2(2,3) AddArgument_rooted AddArgument_func by auto
        have lift: "run_ok None (scan p) m \<and> (\<forall>q. m = Ret q \<longrightarrow> pos (scan p) < pos (scan q))"
          if "run_ok None (Ignore s) m \<and> (\<forall>q. m = Ret q \<longrightarrow> pos (Ignore s) < pos (scan q))" for m
          using that fw forward_trans [OF fw(1)] forward_imp_kept unfolding run_ok_def by fastforce
        consider "r = rune CHR '' ''" | "r = rune CHR '',''" "r \<noteq> rune CHR '' ''"
          | "r = rune CHR '')''" "r \<noteq> rune CHR '' ''" "r \<noteq> rune CHR '',''"
          | "r \<noteq> rune CHR '' ''" "r \<noteq> rune CHR '',''" "r \<noteq> rune CHR '')''" by blast
        then show ?thesis
        proof cases
          case 1
          have "run_ok None (Ignore s) (arguments uc n z None (p'\<lparr>scan := Ignore s\<rparr>)) \<and>
              (\<forall>q. arguments uc n z None (p'\<lparr>scan := Ignore s\<rparr>) = Ret q \<longrightarrow> pos (Ignore s) < pos (scan q))"
            using Suc.IH(2) [of "p'\<lparr>scan := Ignore s\<rparr>" z nm args None] 2(2,3) fw(3) l by simp
          from lift [OF this] show ?thesis unfolding eq using 1 by simp
        next
          case b: 2
          have "run_ok None (Ignore s) (arguments uc n ?z (Some ValuePart) (p'\<lparr>scan := Ignore s\<rparr>)) \<and>
              (\<forall>q. arguments uc n ?z (Some ValuePart) (p'\<lparr>scan := Ignore s\<rparr>) = Ret q \<longrightarrow> pos (Ignore s) < pos (scan q))"
            using Suc.IH(2) [of "p'\<lparr>scan := Ignore s\<rparr>" ?z nm "args @ [Root (curr p')]" "Some ValuePart"] z fw(3) l
            by simp
          from lift [OF this] show ?thesis unfolding eq using b by simp
        next
          case 3
          have "path ?z \<noteq> []" using z rooted_inner by auto
          then obtain c where c: "Parent ?z = Some c" using Parent_None by (cases "Parent ?z") auto
          then have "rooted c" using z rooted_ops(5) by blast
          then show ?thesis unfolding eq using 3 c fw forward_imp_kept by (auto simp: run_ok_def)
        next
          case 4
          then show ?thesis unfolding eq by simp
        qed
      qed
    qed (use ir in auto)
  }
qed

lemma pumpExpression_ok:
  assumes "scanner_ok (scan p)" and "rooted (curr p)" and "2 * left (scan p) + 2 \<le> n"
  shows "pumpExpression uc n p \<noteq> Panic \<and> pumpExpression uc n p \<noteq> Err OutOfFuel"
proof -
  have "need (Some ValuePart) (scan p) \<le> n" using assms(3) by (simp add: need_def)
  then have r: "run_ok (Some ValuePart) (scan p) (run uc n (Some ValuePart) p)"
    using run_arguments_ok(1) assms(1,2) by blast
  show ?thesis
  proof (cases "run uc n (Some ValuePart) p")
    case (Ret q)
    then have "scanner_ok (scan q)" using r by (simp add: run_ok_def kept_def)
    then obtain u t where "(Commit (scan q) :: (parse_error, _) outcome) = Ret (u, t)" using bind_Commit by blast
    then show ?thesis
      using Ret by (auto simp: pumpExpression_def)
  qed (use r in \<open>auto simp: pumpExpression_def\<close>)
qed

text \<open>C37. The parser of search expressions is total: on every input, well formed or not, it returns a tree or
  one of its own errors. It never runs out of fuel, so the loops of the code end, and it never raises a
  run-time error (a nil parent, a slice out of range), which its deferred recover would turn into a
  second panic and the end of the server.
\<close>

theorem Parse_total: "Parse uc inp \<noteq> Panic \<and> Parse uc inp \<noteq> Err OutOfFuel"
proof -
  let ?p = "\<lparr>scan = NewScanner inp, curr = Cursor (TreeNode EmptyToken []) []\<rparr>"
  have "scanner_ok (scan ?p)" "rooted (curr ?p)" "2 * left (scan ?p) + 2 \<le> fuel_for inp"
    by (simp_all add: NewScanner_def scanner_ok_def positions_def rooted_def root_token_def left_def fuel_for_def)
  from pumpExpression_ok [OF this] show ?thesis
    by (simp add: Parse_def bind_outcome_Panic_iff bind_outcome_Err_iff)
qed

end
