(* ===== verification/FilterEval.thy ===== *)
theory FilterEval
  imports FilterParse Encoding
begin

text \<open>
  \<open>filter/eval.go\<close> and \<open>serverbrowser/filter.go\<close>: the value of a search expression on the pairs a game server
  has announced, and the servers an expression selects. Numbers are \<open>int64\<close>, written as \<open>int\<close> with the
  wrap-around spelled out. \<open>Err\<close> is a panic with a string, which \<open>Eval\<close> recovers from; \<open>Panic\<close> is a panic
  with another value (the error of \<open>strconv.ParseInt\<close>, a failed type assertion, a negative shift), for
  which the assertion \<open>str.(string)\<close> of the deferred function panics again.
\<close>

type_synonym server = "string \<rightharpoonup> string"

datatype eval_error =
    EvalFailed
  | InvalidNode
  | NotSupported string
  | MissingArguments
  | UnexpectedGroup
  | UnexpectedValue
  | TooManyArguments
  | BadPatternChar nat

type_synonym 'a eval_result = "(eval_error, 'a) outcome"

definition wrap64 :: "int \<Rightarrow> int" where
  "wrap64 i = (i + 2 ^ 63) mod 2 ^ 64 - 2 ^ 63"

definition of_bool64 :: "bool \<Rightarrow> int" where "of_bool64 b = (if b then 1 else 0)"

subsection \<open>Operators on numbers\<close>

definition evalMathPlus :: "int \<Rightarrow> int \<Rightarrow> int eval_result" where "evalMathPlus a b = Ret (wrap64 (a + b))"
definition evalMathMinus :: "int \<Rightarrow> int \<Rightarrow> int eval_result" where "evalMathMinus a b = Ret (wrap64 (a - b))"
definition evalMathGreater :: "int \<Rightarrow> int \<Rightarrow> int eval_result" where "evalMathGreater a b = Ret (of_bool64 (b < a))"
definition evalMathLess :: "int \<Rightarrow> int \<Rightarrow> int eval_result" where "evalMathLess a b = Ret (of_bool64 (a < b))"
definition evalMathGreaterOrEqual :: "int \<Rightarrow> int \<Rightarrow> int eval_result" where
  "evalMathGreaterOrEqual a b = Ret (of_bool64 (b \<le> a))"
definition evalMathLessOrEqual :: "int \<Rightarrow> int \<Rightarrow> int eval_result" where
  "evalMathLessOrEqual a b = Ret (of_bool64 (a \<le> b))"
definition evalMathAnd :: "int \<Rightarrow> int \<Rightarrow> int eval_result" where "evalMathAnd a b = Ret (a AND b)"
definition evalMathOr :: "int \<Rightarrow> int \<Rightarrow> int eval_result" where "evalMathOr a b = Ret (a OR b)"
definition evalMathXor :: "int \<Rightarrow> int \<Rightarrow> int eval_result" where "evalMathXor a b = Ret (a XOR b)"

text \<open>Shifting by a negative amount panics at run time.\<close>

definition evalMathLShift :: "int \<Rightarrow> int \<Rightarrow> int eval_result" where
  "evalMathLShift a b = (if b < 0 then Panic else Ret (if b < 64 then wrap64 (push_bit (nat b) a) else 0))"
definition evalMathRShift :: "int \<Rightarrow> int \<Rightarrow> int eval_result" where
  "evalMathRShift a b = (if b < 0 then Panic else Ret (drop_bit (min 63 (nat b)) a))"

definition math_operator :: "string \<Rightarrow> (int \<Rightarrow> int \<Rightarrow> int eval_result) option" where
  "math_operator op =
     map_of [(''>'', evalMathGreater), (''<'', evalMathLess), (''>='', evalMathGreaterOrEqual),
       (''<='', evalMathLessOrEqual), (''+'', evalMathPlus), (''-'', evalMathMinus), (''&'', evalMathAnd),
       (''|'', evalMathOr), (''^'', evalMathXor), (''<<'', evalMathLShift), (''>>'', evalMathRShift)] op"

text \<open>
  The operators take the results of their arguments, from left to right; what comes after an early
  return of the code is not looked at.
\<close>

fun fold_numbers ::
  "(int \<Rightarrow> int \<Rightarrow> int eval_result) \<Rightarrow> int \<Rightarrow> int eval_result list \<Rightarrow> int eval_result" where
  "fold_numbers fn answ [] = Ret answ"
| "fold_numbers fn answ (r # rs) = bind_outcome r (\<lambda>v. bind_outcome (fn answ v) (\<lambda>a. fold_numbers fn a rs))"

text \<open>The override for the rating of Mario Kart Wii.\<close>

definition rating_field :: "string \<Rightarrow> token \<Rightarrow> bool" where
  "rating_field game v \<longleftrightarrow>
     game = ''mariokartwii'' \<and> (v = IdentityToken ''ev'' \<or> v = IdentityToken ''eb'')"

definition evalMathOperator ::
  "string \<Rightarrow> (int \<Rightarrow> int \<Rightarrow> int eval_result) \<Rightarrow> tree list \<Rightarrow> int eval_result list \<Rightarrow> int eval_result" where
  "evalMathOperator game fn args numbers =
     (case numbers of
        r # r' # rs \<Rightarrow>
          if rs = [] \<and> rating_field game (TValue (hd args)) then Ret 1
          else bind_outcome r (\<lambda>a. fold_numbers fn a (r' # rs))
      | _ \<Rightarrow> Err MissingArguments)"

subsection \<open>Operators on strings\<close>

definition regional :: "string \<Rightarrow> bool" where
  "regional s \<longleftrightarrow> length s = 4 \<and> (has_prefix s ''vs_'' \<or> has_prefix s ''bt_'')
     \<and> (48 :: nat) \<le> of_char (s ! 3) \<and> of_char (s ! 3) < (54 :: nat)"

definition worldwide :: "string \<Rightarrow> string" where
  "worldwide s = (if regional s then take 2 s else s)"

definition evalEqualsRK :: "server \<Rightarrow> string \<Rightarrow> int" where
  "evalEqualsRK ctx v = of_bool64 (worldwide (mget ctx ''rk'') = worldwide v)"

text \<open>The loops over the further arguments: \<open>1\<close> when none of them stops the loop.\<close>

fun until_string :: "(string \<Rightarrow> bool) \<Rightarrow> int \<Rightarrow> int \<Rightarrow> string eval_result list \<Rightarrow> int eval_result" where
  "until_string stop found other [] = Ret other"
| "until_string stop found other (r # rs) =
     bind_outcome r (\<lambda>s. if stop s then Ret found else until_string stop found other rs)"

definition evalEquals ::
  "server \<Rightarrow> string \<Rightarrow> tree list \<Rightarrow> string eval_result list \<Rightarrow> int eval_result" where
  "evalEquals ctx game args strings =
     (case strings of
        r # r' # rs \<Rightarrow>
          if rs = [] \<and> TValue (hd args) = IdentityToken ''rk'' \<and> game = ''mariokartwii'' then
            bind_outcome r' (\<lambda>v. Ret (evalEqualsRK ctx v))
          else bind_outcome r (\<lambda>arg. until_string (\<lambda>s. arg \<noteq> s) 0 1 (r' # rs))
      | _ \<Rightarrow> Err MissingArguments)"

definition evalNotEquals :: "string eval_result list \<Rightarrow> int eval_result" where
  "evalNotEquals strings =
     (case strings of
        r # r' # rs \<Rightarrow> bind_outcome r (\<lambda>arg. until_string (\<lambda>s. arg = s) 0 1 (r' # rs))
      | _ \<Rightarrow> Err MissingArguments)"

definition evalAnd :: "string eval_result list \<Rightarrow> int eval_result" where
  "evalAnd strings =
     (if length strings < 2 then Err MissingArguments else until_string (\<lambda>s. s = ''0'') 0 1 strings)"

definition evalOr :: "string eval_result list \<Rightarrow> int eval_result" where
  "evalOr strings =
     (if length strings < 2 then Err MissingArguments else until_string (\<lambda>s. s \<noteq> ''0'') 1 0 strings)"

subsection \<open>LIKE\<close>

text \<open>
  The code writes a regular expression between \<open>^\<close> and \<open>$\<close>; these are its atoms: a literal code point,
  \<open>.\<close> and \<open>.*\<close>. A dot matches everything but a newline.
\<close>

datatype atom = Literal nat | AnyRune | AnyString

definition allowedCharacters :: string where
  "allowedCharacters = ''abcdefghijklmnopqrstuvwxyzABCDEFGHIJKLMNOPQRSTUVWXYZ0123456789_%'' @ [CHR 0x5C]"

definition backslash :: nat where "backslash = 0x5C"

definition atoms_of :: "bytes \<Rightarrow> nat \<Rightarrow> nat \<Rightarrow> atom list" where
  "atoms_of val2 i c =
     (if i \<noteq> 0 \<and> unat (val2 ! (i - 1)) = backslash then [Literal c]
      else if c = of_char CHR ''%'' then [AnyString]
      else if c = of_char CHR ''_'' then [AnyRune]
      else if c = backslash then []
      else [Literal c])"

fun like_atoms :: "bytes \<Rightarrow> (nat \<times> nat) list \<Rightarrow> atom list eval_result" where
  "like_atoms val2 [] = Ret []"
| "like_atoms val2 ((i, c) # r) =
     (if c \<notin> of_char ` set allowedCharacters then Err (BadPatternChar c)
      else bind_outcome (like_atoms val2 r) (\<lambda>as. Ret (atoms_of val2 i c @ as)))"

fun regexp_matches :: "atom list \<Rightarrow> nat list \<Rightarrow> bool" where
  "regexp_matches [] s \<longleftrightarrow> s = []"
| "regexp_matches (Literal c # as) s \<longleftrightarrow> (case s of [] \<Rightarrow> False | x # r \<Rightarrow> x = c \<and> regexp_matches as r)"
| "regexp_matches (AnyRune # as) s \<longleftrightarrow> (case s of [] \<Rightarrow> False | x # r \<Rightarrow> x \<noteq> 10 \<and> regexp_matches as r)"
| "regexp_matches (AnyString # as) s \<longleftrightarrow>
     regexp_matches as s \<or> (case s of [] \<Rightarrow> False | x # r \<Rightarrow> x \<noteq> 10 \<and> regexp_matches (AnyString # as) r)"

definition evalLikeSingle :: "string \<Rightarrow> string \<Rightarrow> int eval_result" where
  "evalLikeSingle val1 val2 =
     bind_outcome (like_atoms (bytes_of val2) (runes 0 (bytes_of val2))) (\<lambda>as.
       Ret (of_bool64 (regexp_matches as (code_points (bytes_of val1)))))"

definition evalLike :: "string eval_result list \<Rightarrow> int eval_result" where
  "evalLike strings =
     (case strings of
        [r, r'] \<Rightarrow> bind_outcome r (\<lambda>val1. bind_outcome r' (\<lambda>val2. evalLikeSingle val1 val2))
      | _ # _ # _ \<Rightarrow> Err TooManyArguments
      | _ \<Rightarrow> Err MissingArguments)"

subsection \<open>Nodes\<close>

definition toInt64 :: "string \<Rightarrow> int eval_result" where
  "toInt64 v = (case parse_int 64 v of None \<Rightarrow> Panic | Some i \<Rightarrow> Ret i)"

text \<open>\<open>switchFunction\<close>, given what \<open>getString\<close> and \<open>getNumber\<close> return for a node\<close>

definition apply_operator ::
  "server \<Rightarrow> string \<Rightarrow> string \<Rightarrow> tree list \<Rightarrow> (tree \<Rightarrow> string eval_result) \<Rightarrow> (tree \<Rightarrow> int eval_result)
     \<Rightarrow> int eval_result" where
  "apply_operator ctx game operator args getString getNumber =
     (let op = to_lower operator in
      if op = ''='' \<or> op = ''=='' then evalEquals ctx game args (map getString args)
      else if op = ''!='' then evalNotEquals (map getString args)
      else if op = ''and'' \<or> op = ''&&'' then evalAnd (map getString args)
      else if op = ''or'' \<or> op = ''||'' then evalOr (map getString args)
      else if op = ''like'' then evalLike (map getString args)
      else case math_operator op of
        Some fn \<Rightarrow> evalMathOperator game fn args (map getNumber args)
      | None \<Rightarrow> Err (NotSupported operator))"

lemma apply_operator_cong [fundef_cong]:
  assumes "args = args'" and "\<And>t. t \<in> set args' \<Longrightarrow> gs t = gs' t" and "\<And>t. t \<in> set args' \<Longrightarrow> gn t = gn' t"
  shows "apply_operator ctx game operator args gs gn = apply_operator ctx game operator args' gs' gn'"
proof -
  have "map gs args' = map gs' args'" "map gn args' = map gn' args'" using assms by (auto intro: map_cong)
  then show ?thesis using assms(1) by (simp only: apply_operator_def)
qed

function eval :: "server \<Rightarrow> string \<Rightarrow> tree \<Rightarrow> int eval_result"
and switchFunction :: "server \<Rightarrow> string \<Rightarrow> tree \<Rightarrow> int eval_result"
and getString :: "server \<Rightarrow> string \<Rightarrow> tree \<Rightarrow> string eval_result"
and getNumber :: "server \<Rightarrow> string \<Rightarrow> tree \<Rightarrow> int eval_result" where
  "eval ctx game t =
     (case TItems t of
        [] \<Rightarrow> Err EvalFailed
      | node # _ \<Rightarrow>
          (case Category (TValue node) of
             CatFunction \<Rightarrow> switchFunction ctx game node
           | CatValue \<Rightarrow> getNumber ctx game node
           | CatOther \<Rightarrow>
               if TValue node = GroupToken ''()'' then eval ctx game node else Err InvalidNode))"
| "switchFunction ctx game t =
     (case TValue t of
        OperatorToken operator \<Rightarrow>
          apply_operator ctx game operator (TItems t) (\<lambda>n. getString ctx game n) (\<lambda>n. getNumber ctx game n)
      | _ \<Rightarrow> Panic)"
| "getString ctx game t =
     (case TValue t of
        NumberToken v \<Rightarrow> Ret (format_int v)
      | IdentityToken nm \<Rightarrow> Ret (mget ctx nm)
      | OperatorToken _ \<Rightarrow> bind_outcome (switchFunction ctx game t) (\<lambda>v. Ret (format_int v))
      | GroupToken g \<Rightarrow>
          if g = ''()'' then bind_outcome (eval ctx game t) (\<lambda>v. Ret (format_int v)) else Err UnexpectedGroup
      | TextToken s \<Rightarrow> Ret s
      | _ \<Rightarrow> Err UnexpectedValue)"
| "getNumber ctx game t =
     (case TValue t of
        NumberToken v \<Rightarrow> Ret v
      | IdentityToken nm \<Rightarrow> toInt64 (mget ctx nm)
      | OperatorToken _ \<Rightarrow> switchFunction ctx game t
      | GroupToken g \<Rightarrow> if g = ''()'' then eval ctx game t else Err UnexpectedGroup
      | TextToken s \<Rightarrow> toInt64 s
      | _ \<Rightarrow> Err UnexpectedValue)"
  by pat_completeness auto

lemma size_item: "n \<in> set (TItems t) \<Longrightarrow> size n < size t"
  using size_list_estimation' [of n "TItems t" "size n" size] by (cases t) simp

lemma size_first: "TItems t = n # ns \<Longrightarrow> size n < size t"
  using size_item [of n t] by simp

termination eval
  by (relation "measure (\<lambda>x. case x of
        Inl (Inl (_, _, t)) \<Rightarrow> 2 * size t | Inl (Inr (_, _, t)) \<Rightarrow> 2 * size t
      | Inr (Inl (_, _, t)) \<Rightarrow> 2 * size t + 1 | Inr (Inr (_, _, t)) \<Rightarrow> 2 * size t + 1)")
    (auto dest: size_item size_first)

declare eval.simps [simp del] switchFunction.simps [simp del] getString.simps [simp del] getNumber.simps [simp del]

definition Eval :: "tree \<Rightarrow> server \<Rightarrow> string \<Rightarrow> int eval_result" where
  "Eval basenode ctx game = eval ctx game basenode"

subsection \<open>The servers an expression selects\<close>

fun filter_loop :: "tree \<Rightarrow> string \<Rightarrow> server list \<Rightarrow> server list \<Rightarrow> (unit, server list) outcome" where
  "filter_loop t game [] filtered = Ret filtered"
| "filter_loop t game (server # servers) filtered =
     (if mget server ''gamename'' \<noteq> game then filter_loop t game servers filtered
      else case Eval t server game of
        Panic \<Rightarrow> Panic
      | Err _ \<Rightarrow> Ret []
      | Ret ret \<Rightarrow> filter_loop t game servers (if ret \<noteq> 0 then filtered @ [server] else filtered))"

definition filterServers ::
  "unicode \<Rightarrow> server list \<Rightarrow> string \<Rightarrow> string \<Rightarrow> (unit, server list) outcome" where
  "filterServers uc servers game expr =
     (case Parse uc expr of
        Panic \<Rightarrow> Panic
      | Err _ \<Rightarrow> Ret []
      | Ret t \<Rightarrow> filter_loop t game servers [])"

end
