(* ===== verification/FilterSearch.thy ===== *)
theory FilterSearch
  imports FilterEval
begin

text \<open>
  What the server browser's search expressions mean. The game library writes them in one form: comparisons
  joined by \<open>and\<close> (or by \<open>or\<close>), with groups in parentheses. \<open>operand\<close>, \<open>clause\<close> and \<open>chain\<close> are the abstract
  syntax of that form and \<open>render_chain\<close> its text; \<open>chain_value\<close> is its meaning. The parser and the
  evaluator are related to them for every expression of the form.
\<close>

subsection \<open>Abstract syntax\<close>

datatype connective = Conj | Disj

datatype comparison = Eq | Ne | Ge | Le | Gt | Lt | Plus | Minus | BitAnd | BitOr | BitXor

datatype operand = Num int | Var string | Str string | Sub connective chain
and chain = First clause | Then chain clause
and clause = One operand | Cmp operand comparison operand

fun connective_word :: "connective \<Rightarrow> string" where
  "connective_word Conj = ''and''"
| "connective_word Disj = ''or''"

fun spelling :: "comparison \<Rightarrow> string" where
  "spelling Eq = ''=''" | "spelling Ne = ''!=''" | "spelling Ge = ''>=''" | "spelling Le = ''<=''"
| "spelling Gt = ''>''" | "spelling Lt = ''<''" | "spelling Plus = ''+''" | "spelling Minus = ''-''"
| "spelling BitAnd = ''&''" | "spelling BitOr = ''|''" | "spelling BitXor = ''^''"

primrec render_operand :: "operand \<Rightarrow> string"
and render_chain :: "chain \<Rightarrow> connective \<Rightarrow> string"
and render_clause :: "clause \<Rightarrow> string" where
  "render_operand (Num i) = format_int i"
| "render_operand (Var x) = x"
| "render_operand (Str s) = CHR 0x27 # s @ [CHR 0x27]"
| "render_operand (Sub k ch) = CHR ''('' # render_chain ch k @ '')''"
| "render_chain (First c) = (\<lambda>k. render_clause c)"
| "render_chain (Then ch c) = (\<lambda>k. render_chain ch k @ '' '' @ connective_word k @ '' '' @ render_clause c)"
| "render_clause (One a) = render_operand a"
| "render_clause (Cmp a q b) = render_operand a @ '' '' @ spelling q @ '' '' @ render_operand b"

definition ascii_char :: "char \<Rightarrow> bool" where "ascii_char c \<longleftrightarrow> of_char c < (128 :: nat)"

definition letter_char :: "char \<Rightarrow> bool" where "letter_char c \<longleftrightarrow> ascii_letter (rune c) \<or> c = CHR ''_''"

definition word_char :: "char \<Rightarrow> bool" where "word_char c \<longleftrightarrow> letter_char c \<or> ascii_digit (rune c)"

text \<open>Names are words, texts are ASCII without their quote, numbers fit in 64 bits.\<close>

primrec operand_ok :: "operand \<Rightarrow> bool" and chain_ok :: "chain \<Rightarrow> bool" and clause_ok :: "clause \<Rightarrow> bool" where
  "operand_ok (Num i) \<longleftrightarrow> - (2 ^ 63) \<le> i \<and> i < 2 ^ 63"
| "operand_ok (Var x) \<longleftrightarrow> x \<noteq> [] \<and> letter_char (hd x) \<and> list_all word_char x"
| "operand_ok (Str s) \<longleftrightarrow> list_all ascii_char s \<and> CHR 0x27 \<notin> set s"
| "operand_ok (Sub k ch) \<longleftrightarrow> chain_ok ch"
| "chain_ok (First c) \<longleftrightarrow> clause_ok c"
| "chain_ok (Then ch c) \<longleftrightarrow> chain_ok ch \<and> clause_ok c"
| "clause_ok (One a) \<longleftrightarrow> operand_ok a"
| "clause_ok (Cmp a q b) \<longleftrightarrow> operand_ok a \<and> operand_ok b"

subsection \<open>Its tree\<close>

text \<open>
  A connective after a single operand goes on filling the node of the connective; after a comparison it
  becomes a new node above the whole expression so far.
\<close>

fun ends_in_operand :: "chain \<Rightarrow> bool" where
  "ends_in_operand (Then ch (One a)) \<longleftrightarrow> True"
| "ends_in_operand _ \<longleftrightarrow> False"

definition prior :: "chain \<Rightarrow> tree \<Rightarrow> tree list" where
  "prior ch t = (if ends_in_operand ch then TItems t else [t])"

primrec operand_tree :: "operand \<Rightarrow> tree"
and chain_tree :: "chain \<Rightarrow> connective \<Rightarrow> tree"
and clause_tree :: "clause \<Rightarrow> tree" where
  "operand_tree (Num i) = TreeNode (NumberToken i) []"
| "operand_tree (Var x) = TreeNode (IdentityToken x) []"
| "operand_tree (Str s) = TreeNode (TextToken s) []"
| "operand_tree (Sub k ch) = TreeNode (GroupToken ''()'') [chain_tree ch k]"
| "chain_tree (First c) = (\<lambda>k. clause_tree c)"
| "chain_tree (Then ch c) = (\<lambda>k.
     TreeNode (OperatorToken (connective_word k)) (prior ch (chain_tree ch k) @ [clause_tree c]))"
| "clause_tree (One a) = operand_tree a"
| "clause_tree (Cmp a q b) = TreeNode (OperatorToken (spelling q)) [operand_tree a, operand_tree b]"

text \<open>Where the parser stands after a clause and after a chain.\<close>

fun clause_cursor :: "clause \<Rightarrow> token \<Rightarrow> tree list \<Rightarrow> (token \<times> tree list) list \<Rightarrow> cursor" where
  "clause_cursor (One a) v items p = Cursor (TreeNode v (items @ [operand_tree a])) p"
| "clause_cursor (Cmp a q b) v items p = Cursor (clause_tree (Cmp a q b)) ((v, items) # p)"

fun chain_cursor :: "connective \<Rightarrow> chain \<Rightarrow> token \<Rightarrow> (token \<times> tree list) list \<Rightarrow> cursor" where
  "chain_cursor k (First c) v p = clause_cursor c v [] p"
| "chain_cursor k (Then ch c) v p =
     clause_cursor c (OperatorToken (connective_word k)) (prior ch (chain_tree ch k)) ((v, []) # p)"

subsection \<open>Scanning ASCII text\<close>

text \<open>\<open>at s r\<close>: what is left to scan is the ASCII text \<open>r\<close>.\<close>

definition at_text :: "scanner \<Rightarrow> string \<Rightarrow> bool" where
  "at_text s r \<longleftrightarrow> scanner_ok s \<and> drop (pos s) (input s) = bytes_of r \<and> list_all ascii_char r"

lemma bytes_of_Cons: "bytes_of (c # r) = of_char c # bytes_of r"
  by (simp add: bytes_of_def)

lemma bytes_of_append: "bytes_of (a @ b) = bytes_of a @ bytes_of b"
  by (simp add: bytes_of_def)

lemma bytes_of_Nil [simp]: "bytes_of [] = []"
  by (simp add: bytes_of_def)

lemma has_prefix_bytes [simp]: "has_prefix (bytes_of a) (bytes_of b) = has_prefix a b"
proof -
  have "inj (of_char :: char \<Rightarrow> u8)" by (rule injI) (metis of_char_eq_iff unat_of_char_u8)
  then show ?thesis
    by (auto simp: has_prefix_def bytes_of_def take_map dest: inj_map_eq_map [THEN iffD1, rotated])
qed

lemma Next_at:
  assumes "at_text s (c # r)"
  shows "Next s = (rune c, s\<lparr>width := 1, pos := pos s + 1\<rparr>)"
proof -
  have d: "drop (pos s) (input s) = of_char c # bytes_of r" and "(of_char c :: nat) < 128"
    using assms by (simp_all add: at_text_def bytes_of_Cons ascii_char_def)
  then have "decode_rune (drop (pos s) (input s)) = (of_char c, 1)" by simp
  moreover have "\<not> IsEOF s" using d by (auto simp: IsEOF_def)
  ultimately show ?thesis by (simp add: Next_def rune_def)
qed

lemma Next_at_end: "at_text s [] \<Longrightarrow> Next s = (eof, s\<lparr>width := 0\<rparr>)"
  by (simp add: at_text_def Next_def IsEOF_def)

lemma at_text_EOF: "at_text s r \<Longrightarrow> IsEOF s \<longleftrightarrow> r = []"
proof -
  assume "at_text s r"
  then have "length (drop (pos s) (input s)) = length r" by (simp add: at_text_def)
  then show ?thesis by (auto simp: IsEOF_def)
qed

lemma at_text_width [simp]: "at_text (s\<lparr>width := w\<rparr>) r = at_text s r"
  "at_text (s\<lparr>width := w, pos := n\<rparr>) r = at_text (s\<lparr>pos := n\<rparr>) r"
  by (simp_all add: at_text_def scanner_ok_def)

lemma at_text_advance:
  assumes "at_text s (w @ r)"
  shows "at_text (s\<lparr>pos := pos s + length w\<rparr>) r"
proof -
  have d: "drop (pos s) (input s) = bytes_of w @ bytes_of r" using assms by (simp add: at_text_def bytes_of_append)
  then have "drop (pos s + length w) (input s) = bytes_of r"
    by (metis add.commute append_eq_conv_conj drop_drop length_bytes_of)
  moreover have "pos s + length w \<le> length (input s)"
    using arg_cong [OF d, of length] assms by (auto simp: at_text_def scanner_ok_def)
  ultimately show ?thesis using assms by (auto simp: at_text_def scanner_ok_def)
qed

lemma scanner_swap: "s\<lparr>width := w, pos := n\<rparr> = s\<lparr>pos := n, width := w\<rparr>" for s :: scanner
  by (cases s) simp

lemma next_while_at:
  assumes "at_text s (w @ r)" and "list_all (\<lambda>c. valid (rune c)) w" and "r = [] \<or> \<not> valid (rune (hd r))"
  shows "\<exists>k. Backup (next_while valid s) = s\<lparr>pos := pos s + length w, width := k\<rparr>"
  using assms
proof (induction w arbitrary: s)
  case Nil
  show ?case
  proof (cases r)
    case Nil
    then have "Next s = (eof, s\<lparr>width := 0\<rparr>)" using \<open>at_text s ([] @ r)\<close> by (intro Next_at_end) simp
    then have "Backup (next_while valid s) = s\<lparr>pos := pos s, width := 0\<rparr>"
      by (subst next_while.simps) (simp add: Backup_def)
    then show ?thesis by auto
  next
    case (Cons c r')
    then have "Next s = (rune c, s\<lparr>width := 1, pos := pos s + 1\<rparr>)" "\<not> valid (rune c)"
      using Nil.prems Next_at by auto
    then have "Backup (next_while valid s) = s\<lparr>pos := pos s, width := 1\<rparr>"
      by (subst next_while.simps) (simp add: Backup_def)
    then show ?thesis by auto
  qed
next
  case (Cons c w)
  let ?t = "s\<lparr>width := 1, pos := pos s + 1\<rparr>"
  have n: "Next s = (rune c, ?t)" using Cons.prems(1) Next_at by simp
  have at: "at_text ?t (w @ r)"
    using at_text_advance [of s "[c]" "w @ r"] Cons.prems(1) by simp
  obtain k where "Backup (next_while valid ?t) = ?t\<lparr>pos := pos ?t + length w, width := k\<rparr>"
    using Cons.IH [OF at] Cons.prems by auto
  moreover have "rune c \<noteq> eof" by (simp add: rune_def eof_def)
  ultimately have "Backup (next_while valid s) = s\<lparr>pos := pos s + length (c # w), width := k\<rparr>"
    using n Cons.prems(2) by (subst next_while.simps) simp
  then show ?case by blast
qed

lemma Commit_at:
  assumes "at_text s (w @ r)" and "start s = pos s"
  shows "\<exists>s'. Commit (s\<lparr>pos := pos s + length w, width := k\<rparr>) = Ret (w, s') \<and> at_text s' r"
proof -
  let ?t = "s\<lparr>pos := pos s + length w, width := k\<rparr>"
  have t: "at_text ?t r" using at_text_advance [OF assms(1)] at_text_width(1) [where s = "s\<lparr>pos := pos s + length w\<rparr>"] by simp
  have "subslice (pos s) (pos s + length w) (input s) = bytes_of w"
    using assms(1) by (simp add: subslice_def at_text_def bytes_of_append)
  moreover have "start ?t \<le> pos ?t" "pos ?t \<le> length (input ?t)" using t assms(2) by (simp_all add: at_text_def scanner_ok_def)
  ultimately show ?thesis
    using t assms(2) by (simp add: Commit_def Let_def SaveState_def at_text_def scanner_ok_def positions_def)
qed

lemma SkipSpaces_at:
  assumes "at_text s (sp @ r)" and "sp = [] \<or> sp = '' ''" and "r = [] \<or> \<not> IsSpace (rune (hd r))"
  shows "at_text (SkipSpaces s) r \<and> start (SkipSpaces s) = pos (SkipSpaces s)"
proof -
  have "list_all (\<lambda>c. IsSpace (rune c)) sp" using assms(2) by (auto simp: IsSpace_def)
  with next_while_at [where valid = IsSpace, OF assms(1) _ assms(3)] obtain k where
    k: "Backup (next_while IsSpace s) = s\<lparr>pos := pos s + length sp, width := k\<rparr>" by blast
  have "at_text (s\<lparr>pos := pos s + length sp, width := k\<rparr>) r"
    using at_text_advance [OF assms(1)] at_text_width(1) [where s = "s\<lparr>pos := pos s + length sp\<rparr>"] by simp
  then show ?thesis by (simp add: SkipSpaces_def k Ignore_def at_text_def scanner_ok_def)
qed

subsection \<open>Tokens\<close>

definition delimited :: "string \<Rightarrow> bool" where
  "delimited r \<longleftrightarrow> r = [] \<or> hd r = CHR '' '' \<or> hd r = CHR '')''"

lemma rune_bounds: "0 \<le> rune c" "ascii_char c \<Longrightarrow> rune c < 128"
  by (simp_all add: rune_def ascii_char_def)

lemma ascii_classes:
  assumes "ascii_char c"
  shows "IsLetter uc (rune c) \<longleftrightarrow> ascii_letter (rune c)" and "IsDigit uc (rune c) \<longleftrightarrow> ascii_digit (rune c)"
    and "IsUnicodeNumber uc (rune c) \<longleftrightarrow> ascii_digit (rune c)"
  using rune_bounds [of c] assms by (auto simp: IsLetter_def IsDigit_def IsUnicodeNumber_def)

lemma rune_eq [simp]: "rune c = rune d \<longleftrightarrow> c = d"
  by (simp add: rune_def)

lemma valid_char_rune [simp]: "valid_char (rune c) \<longleftrightarrow> c = CHR ''_''"
  by (simp only: valid_char_def rune_eq)

lemma IsSpace_rune [simp]: "IsSpace (rune c) \<longleftrightarrow> c = CHR '' '' \<or> c = CHR 0x09"
  by (simp only: IsSpace_def rune_eq)

lemma word_char_ascii: "word_char c \<Longrightarrow> ascii_char c"
  by (auto simp: word_char_def letter_char_def ascii_letter_def ascii_digit_def ascii_char_def rune_def)

lemma word_char_alnum: "word_char c \<Longrightarrow> IsAlphaNumeric uc (rune c)"
  using word_char_ascii [of c] by (auto simp: word_char_def letter_char_def IsAlphaNumeric_def ascii_classes)

lemma delimiter_classes:
  "\<not> IsAlphaNumeric uc (rune CHR '' '')" "\<not> IsAlphaNumeric uc (rune CHR '')'')"
  "\<not> IsNumber uc (rune CHR '' '')" "\<not> IsNumber uc (rune CHR '')'')"
  by (simp_all add: IsAlphaNumeric_def IsNumber_def ascii_classes ascii_char_def ascii_letter_def ascii_digit_def)
    (simp_all add: rune_def)

lemma delimited_not:
  "delimited r \<Longrightarrow> r = [] \<or> \<not> IsAlphaNumeric uc (rune (hd r))"
  "delimited r \<Longrightarrow> r = [] \<or> \<not> IsNumber uc (rune (hd r))"
  using delimiter_classes by (auto simp: delimited_def)

lemma digit_ascii: "digit_val c \<noteq> None \<Longrightarrow> ascii_char c \<and> ascii_digit (rune c)"
  by (auto simp: digit_val_def ascii_char_def ascii_digit_def rune_def Let_def split: if_splits)

lemma digit_IsNumber: "digit_val c \<noteq> None \<Longrightarrow> IsNumber uc (rune c) \<and> IsDigit uc (rune c)"
  using digit_ascii [of c] by (simp add: IsNumber_def ascii_classes)

lemma ScanNumber_digits:
  assumes "at_text s (w @ r)" and "w \<noteq> []" and "\<forall>c \<in> set w. digit_val c \<noteq> None" and "delimited r"
  shows "\<exists>k. snd (Scan (IsNumber uc) (s\<lparr>width := 1, pos := pos s + 1\<rparr>)) = s\<lparr>pos := pos s + length w, width := k\<rparr>"
proof -
  obtain c ds where w: "w = c # ds" using assms(2) by (cases w) auto
  let ?t = "s\<lparr>width := 1, pos := pos s + 1\<rparr>"
  have at: "at_text ?t (ds @ r)" using at_text_advance [of s "[c]" "ds @ r"] assms(1) w by simp
  have "list_all (\<lambda>c. IsNumber uc (rune c)) ds" using assms(3) w digit_IsNumber by (auto simp: list_all_iff)
  from next_while_at [where valid = "IsNumber uc", OF at this delimited_not(2) [OF assms(4)]]
  show ?thesis using w by (auto simp: Scan_def)
qed

lemma ScanNumber_at:
  assumes "at_text s (format_int i @ r)" and "delimited r"
  shows "\<exists>k. ScanNumber uc s = (True, s\<lparr>pos := pos s + length (format_int i), width := k\<rparr>)"
proof -
  have digits: "\<forall>c \<in> set (format_uint n). digit_val c \<noteq> None" for n by (rule format_uint_digits)
  show ?thesis
  proof (cases "i < 0")
    case False
    obtain d ds where w: "format_uint (nat i) = d # ds" by (cases "format_uint (nat i)") auto
    have n: "Next s = (rune d, s\<lparr>width := 1, pos := pos s + 1\<rparr>)"
      using assms(1) w False by (intro Next_at) (simp add: format_int_def)
    have "IsDigit uc (rune d)" using digits [of "nat i"] w digit_IsNumber by simp
    moreover have "\<exists>k. snd (Scan (IsNumber uc) (s\<lparr>width := 1, pos := pos s + 1\<rparr>)) =
        s\<lparr>pos := pos s + length (format_int i), width := k\<rparr>"
      using ScanNumber_digits [of s "format_uint (nat i)" r uc] assms False digits
      by (simp add: format_int_def)
    ultimately show ?thesis using n by (auto simp: ScanNumber_def split: prod.splits)
  next
    case True
    obtain d ds where w: "format_uint (nat (- i)) = d # ds" by (cases "format_uint (nat (- i))") auto
    let ?t = "s\<lparr>width := 1, pos := pos s + 1\<rparr>"
    have n: "Next s = (rune CHR ''-'', ?t)"
      using assms(1) True by (intro Next_at) (simp add: format_int_def)
    have at: "at_text ?t (format_uint (nat (- i)) @ r)"
      using at_text_advance [of s "''-''" "format_uint (nat (- i)) @ r"] assms(1) True by (simp add: format_int_def)
    then have n2: "Next ?t = (rune d, ?t\<lparr>width := 1, pos := pos ?t + 1\<rparr>)" using w by (intro Next_at) simp
    have "IsDigit uc (rune d)" using digits [of "nat (- i)"] w digit_IsNumber by simp
    moreover have "\<not> IsDigit uc (rune CHR ''-'')"
      by (simp add: ascii_classes ascii_char_def ascii_digit_def) (simp add: rune_def)
    moreover have "\<exists>k. snd (Scan (IsNumber uc) (?t\<lparr>width := 1, pos := pos ?t + 1\<rparr>)) =
        s\<lparr>pos := pos s + length (format_int i), width := k\<rparr>"
      using ScanNumber_digits [OF at, of uc] assms(2) True digits by (simp add: format_int_def)
    ultimately show ?thesis using n n2 by (auto simp: ScanNumber_def split: prod.splits)
  qed
qed

lemma Next_Backup_at: "at_text s (c # r) \<Longrightarrow> Backup (snd (Next s)) = s\<lparr>width := 1\<rparr>"
  by (simp add: Next_at Backup_def)

definition starts_number :: "char \<Rightarrow> bool" where
  "starts_number c \<longleftrightarrow> ascii_digit (rune c) \<or> c = CHR ''-'' \<or> c = CHR ''.''"

lemma ScanNumber_other:
  assumes "at_text s (c # r)" and "\<not> starts_number c"
  shows "ScanNumber uc s = (False, s\<lparr>width := 1\<rparr>)"
proof -
  have "ascii_char c" using assms(1) by (simp add: at_text_def)
  then show ?thesis
    using assms by (simp add: ScanNumber_def Next_at Backup_def starts_number_def ascii_classes)
qed

lemma ScanWord_other:
  assumes "at_text s (c # r)" and "\<not> letter_char c"
  shows "ScanWord uc s = (False, s\<lparr>width := 1\<rparr>)"
proof -
  have "ascii_char c" using assms(1) by (simp add: at_text_def)
  then show ?thesis
    using assms by (simp add: ScanWord_def Next_at Backup_def letter_char_def ascii_classes)
qed

lemma ScanWord_at:
  assumes "at_text s (c # w @ r)" and "letter_char c" and "list_all word_char w" and "delimited r"
  shows "\<exists>k. ScanWord uc s = (True, s\<lparr>pos := pos s + length (c # w), width := k\<rparr>)"
proof -
  let ?t = "s\<lparr>width := 1, pos := pos s + 1\<rparr>"
  have c: "IsLetter uc (rune c) \<or> valid_char (rune c)"
    using assms(1,2) by (auto simp: at_text_def letter_char_def ascii_classes)
  have at: "at_text ?t (w @ r)" using at_text_advance [of s "[c]" "w @ r"] assms(1) by simp
  have "list_all (\<lambda>c. IsAlphaNumeric uc (rune c)) w" using assms(3) word_char_alnum by (auto simp: list_all_iff)
  from next_while_at [where valid = "IsAlphaNumeric uc", OF at this delimited_not(1) [OF assms(4)]]
  obtain k where "Backup (next_while (IsAlphaNumeric uc) ?t) = ?t\<lparr>pos := pos ?t + length w, width := k\<rparr>" by blast
  then have "ScanWord uc s = (True, s\<lparr>pos := pos s + length (c # w), width := k\<rparr>)"
    using Next_at [OF assms(1)] c by (simp add: ScanWord_def)
  then show ?thesis by blast
qed

lemma find_quote_at:
  assumes "at_text s (w @ CHR 0x27 # r)" and "CHR 0x27 \<notin> set w"
  shows "find_quote (rune CHR 0x27) s = Ret (s\<lparr>width := 1, pos := pos s + length w + 1\<rparr>)"
  using assms
proof (induction w arbitrary: s)
  case Nil
  then show ?case by (subst find_quote.simps) (simp add: Next_at)
next
  case (Cons c w)
  let ?t = "s\<lparr>width := 1, pos := pos s + 1\<rparr>"
  have at: "at_text ?t (w @ CHR 0x27 # r)" using at_text_advance [of s "[c]" "w @ CHR 0x27 # r"] Cons.prems(1) by simp
  have n: "Next s = (rune c, ?t)" using Next_at Cons.prems(1) by simp
  have "\<not> IsEOF ?t" using at_text_EOF [OF at] by simp
  then show ?case
    using n Cons.IH [OF at] Cons.prems(2) by (subst find_quote.simps) auto
qed

lemma ParseText_at:
  assumes "at_text s (CHR 0x27 # w @ CHR 0x27 # r)" and "CHR 0x27 \<notin> set w"
  shows "\<exists>s'. ParseText s = Ret (w, s') \<and> at_text s' r"
proof -
  let ?t = "s\<lparr>width := 1, pos := pos s + 1\<rparr>"
  define i where "i = Ignore ?t"
  have at: "at_text i (w @ CHR 0x27 # r)" and si: "start i = pos i"
    using at_text_advance [of s "[CHR 0x27]" "w @ CHR 0x27 # r"] assms(1)
    by (auto simp: i_def Ignore_def at_text_def scanner_ok_def)
  have q: "find_quote (rune CHR 0x27) i = Ret (i\<lparr>width := 1, pos := pos i + length w + 1\<rparr>)"
    using find_quote_at [OF at assms(2)] .
  have b: "Backup (i\<lparr>width := 1, pos := pos i + length w + 1\<rparr>) = i\<lparr>pos := pos i + length w, width := 1\<rparr>"
    by (simp add: Backup_def)
  obtain s3 where c: "(Commit (i\<lparr>pos := pos i + length w, width := 1\<rparr>) :: (parse_error, _) outcome) = Ret (w, s3)"
    and s3: "at_text s3 (CHR 0x27 # r)" using Commit_at [OF at si] by blast
  have "at_text (Ignore (snd (Next s3))) r"
    using Next_at [OF s3] at_text_advance [of s3 "[CHR 0x27]" r] s3
    by (auto simp: Ignore_def at_text_def scanner_ok_def)
  then show ?thesis
    using Next_at [OF assms(1)] q b c by (simp add: ParseText_def i_def)
qed

subsection \<open>Operators\<close>

lemma Prefix_at:
  assumes "at_text s r"
  shows "Prefix w s = (if has_prefix r w then (True, s\<lparr>pos := pos s + length w\<rparr>) else (False, s))"
  using assms by (simp add: Prefix_def at_text_def)

lemma Peek_at: "at_text s (c # r) \<Longrightarrow> Peek s = (rune c, s\<lparr>width := 1\<rparr>)"
  by (simp add: Peek_def Next_at Backup_def)

definition query_operator :: "string \<Rightarrow> bool" where
  "query_operator op \<longleftrightarrow> op = ''and'' \<or> op = ''or'' \<or> (\<exists>q. op = spelling q)"

lemma accept_operators_skip:
  assumes "at_text s r" and "list_all (\<lambda>op. \<not> has_prefix r op \<and> \<not> has_prefix r (to_upper op)) ops"
  shows "accept_operators uc st (ops @ rest) s = accept_operators uc st rest s"
  using assms by (induction ops) (simp_all add: Prefix_at)

lemma accept_operators_hit:
  assumes "at_text s (op @ c # r)" and "\<not> IsLetter uc (rune c)" and "\<not> IsUnicodeNumber uc (rune c)" and "c \<noteq> CHR ''_''"
  shows "accept_operators uc st (op # rest) s = (True, s\<lparr>pos := pos s + length op, width := 1\<rparr>)"
proof -
  have "Prefix op s = (True, s\<lparr>pos := pos s + length op\<rparr>)" using assms(1) by (simp add: Prefix_at)
  moreover have "Peek (s\<lparr>pos := pos s + length op\<rparr>) = (rune c, s\<lparr>pos := pos s + length op\<rparr>\<lparr>width := 1\<rparr>)"
    using Peek_at [OF at_text_advance [OF assms(1)]] by simp
  ultimately show ?thesis using assms(2-4) by simp
qed

lemma has_prefix_Cons [simp]: "has_prefix (c # s) (d # p) \<longleftrightarrow> c = d \<and> has_prefix s p" "has_prefix s []"
  "\<not> has_prefix [] (d # p)"
  by (auto simp: has_prefix_def)

definition before_operator :: "string \<Rightarrow> string list" where
  "before_operator op = takeWhile (\<lambda>w. w \<noteq> op) operatorList"

lemma before_operator_split: "op \<in> set operatorList \<Longrightarrow> \<exists>rest. operatorList = before_operator op @ op # rest"
proof -
  assume "op \<in> set operatorList"
  then obtain ys zs where l: "operatorList = ys @ op # zs" "op \<notin> set ys" using split_list_first by fast
  then have "takeWhile (\<lambda>w. w \<noteq> op) (ys @ op # zs) = ys" by (subst takeWhile_append2) auto
  with l show ?thesis by (auto simp: before_operator_def)
qed

lemma upper_operators:
  "to_upper ''and'' = ''AND''" "to_upper ''or'' = ''OR''" "to_upper ''like'' = ''LIKE''" "to_upper ''*'' = ''*''"
  "to_upper ''/'' = ''/''" "to_upper ''%'' = ''%''" "to_upper ''+'' = ''+''" "to_upper ''-'' = ''-''"
  "to_upper ''&'' = ''&''" "to_upper ''^'' = ''^''" "to_upper ''|'' = ''|''" "to_upper ''=='' = ''==''"
  "to_upper ''='' = ''=''" "to_upper ''!='' = ''!=''" "to_upper ''>='' = ''>=''" "to_upper ''<='' = ''<=''"
  "to_upper ''>'' = ''>''" "to_upper ''<'' = ''<''" "to_upper ''&&'' = ''&&''" "to_upper ''||'' = ''||''"
  by code_simp+

lemma before_operator_misses:
  assumes "query_operator op"
  shows "list_all (\<lambda>w. \<not> has_prefix (op @ '' '' @ r) w \<and> \<not> has_prefix (op @ '' '' @ r) (to_upper w)) (before_operator op)"
    and "op \<in> set operatorList" and "op \<noteq> []"
proof -
  have q: "op = ''and'' \<or> op = ''or'' \<or> op = ''='' \<or> op = ''!='' \<or> op = ''>='' \<or> op = ''<='' \<or> op = ''>''
      \<or> op = ''<'' \<or> op = ''+'' \<or> op = ''-'' \<or> op = ''&'' \<or> op = ''|'' \<or> op = ''^''"
  proof -
    have "spelling q \<in> {''='', ''!='', ''>='', ''<='', ''>'', ''<'', ''+'', ''-'', ''&'', ''|'', ''^''}" for q
      by (cases q) simp_all
    then show ?thesis using assms unfolding query_operator_def by fast
  qed
  then show "list_all (\<lambda>w. \<not> has_prefix (op @ '' '' @ r) w \<and> \<not> has_prefix (op @ '' '' @ r) (to_upper w)) (before_operator op)"
    by (elim disjE) (simp_all add: before_operator_def operatorList_def operators_def upper_operators)
  show "op \<in> set operatorList" "op \<noteq> []" using q by (auto simp: operatorList_def operators_def)
qed

lemma AcceptOperator_at:
  assumes "at_text s (op @ '' '' @ r)" and "query_operator op"
  shows "AcceptOperator uc s = (True, s\<lparr>pos := pos s + length op, width := 1\<rparr>)"
proof -
  obtain rest where l: "operatorList = before_operator op @ op # rest"
    using before_operator_split before_operator_misses(2) [OF assms(2)] by blast
  have sp: "\<not> IsLetter uc (rune CHR '' '')" "\<not> IsUnicodeNumber uc (rune CHR '' '')"
    by (simp_all add: ascii_classes ascii_char_def ascii_letter_def ascii_digit_def) (simp_all add: rune_def)
  show ?thesis
    unfolding AcceptOperator_def l
    using accept_operators_skip [OF assms(1) before_operator_misses(1) [OF assms(2)]]
      accept_operators_hit [of s op "CHR '' ''" r] assms(1) sp by simp
qed

lemma AcceptOperator_bracket:
  assumes "at_text s (CHR '')'' # r)"
  shows "AcceptOperator uc s = (False, s)"
proof -
  have "list_all (\<lambda>w. \<not> has_prefix (CHR '')'' # r) w \<and> \<not> has_prefix (CHR '')'' # r) (to_upper w)) operatorList"
    by (simp add: operatorList_def operators_def upper_operators)
  from accept_operators_skip [OF assms this, of uc "SaveState s" "[]"] show ?thesis
    by (simp add: AcceptOperator_def)
qed

subsection \<open>Runs of the parser\<close>

inductive leads :: "unicode \<Rightarrow> nat \<Rightarrow> state \<times> parser \<Rightarrow> state \<times> parser \<Rightarrow> bool" for uc where
  leads_refl: "leads uc 0 x x"
| leads_step: "step uc st p = Ret (Some st', p') \<Longrightarrow> st \<noteq> FunctionArguments \<Longrightarrow> leads uc k (st', p') y
     \<Longrightarrow> leads uc (Suc k) (st, p) y"

definition reaches :: "unicode \<Rightarrow> state \<times> parser \<Rightarrow> state \<times> parser \<Rightarrow> bool" where
  "reaches uc x y \<longleftrightarrow> (\<exists>k. leads uc k x y)"

lemma leads_trans: "leads uc k x y \<Longrightarrow> leads uc m y z \<Longrightarrow> leads uc (k + m) x z"
  by (induction rule: leads.induct) (auto intro: leads_step)

lemma reaches_refl [simp]: "reaches uc x x"
  using leads_refl unfolding reaches_def by blast

lemma reaches_trans [trans]: "reaches uc x y \<Longrightarrow> reaches uc y z \<Longrightarrow> reaches uc x z"
  unfolding reaches_def using leads_trans by blast

lemma reaches_step: "step uc st p = Ret (Some st', p') \<Longrightarrow> st \<noteq> FunctionArguments \<Longrightarrow> reaches uc (st, p) (st', p')"
  unfolding reaches_def using leads_step leads_refl by blast

lemma leads_run:
  "leads uc k (st, p) (st', p') \<Longrightarrow>
     run uc (k + n) (Some st) p = run uc n (Some st') p' \<and> (m < k \<longrightarrow> run uc m (Some st) p = Err OutOfFuel)"
proof (induction k "(st, p)" "(st', p')" arbitrary: st p m rule: leads.induct)
  case (leads_step st p st1 p1 k)
  then show ?case by (cases m) auto
qed simp

text \<open>The last step: the end of the input after an operand.\<close>

lemma Parse_reaches:
  assumes "reaches uc (ValuePart, \<lparr>scan = NewScanner inp, curr = Cursor (TreeNode EmptyToken []) []\<rparr>) (OperatorPart, p)"
    and "at_text (scan p) []"
  shows "Parse uc inp = Ret (Root (curr p))"
proof -
  let ?p0 = "\<lparr>scan = NewScanner inp, curr = Cursor (TreeNode EmptyToken []) []\<rparr>"
  let ?F = "fuel_for inp"
  obtain k where k: "leads uc k (ValuePart, ?p0) (OperatorPart, p)" using assms(1) reaches_def by blast
  define s where "s = SkipSpaces (scan p)"
  have s: "at_text s []" "start s = pos s"
    using SkipSpaces_at [of "scan p" "[]" "[]"] assms(2) by (simp_all add: s_def)
  then have st: "step uc OperatorPart p = Ret (None, p\<lparr>scan := s\<rparr>)"
    using at_text_EOF [OF s(1)] by (simp add: step_def branchExpressionOperatorPart_def Let_def s_def)
  then have fin: "run uc (Suc (Suc n)) (Some OperatorPart) p = Ret (p\<lparr>scan := s\<rparr>)" for n by simp
  have ok: "run uc ?F (Some ValuePart) ?p0 \<noteq> Err OutOfFuel"
    using Parse_total [of uc inp] by (auto simp: Parse_def pumpExpression_def)
  have "\<not> ?F < k" using leads_run [OF k, of _ ?F] ok by blast
  then obtain n where n: "?F = k + n" using le_Suc_ex [of k ?F] by auto
  then have r: "run uc ?F (Some ValuePart) ?p0 = run uc n (Some OperatorPart) p" using leads_run [OF k] by simp
  obtain n' where "n = Suc (Suc n')"
    using ok r st by (cases n rule: nat.exhaust; cases "n - 1" rule: nat.exhaust) auto
  then have r: "run uc ?F (Some ValuePart) ?p0 = Ret (p\<lparr>scan := s\<rparr>)" using r fin by simp
  have "(Commit s :: (parse_error, _) outcome) = Ret ([], s\<lparr>prevState := (pos s, pos s, width s)\<rparr>)"
    using s by (simp add: Commit_def Let_def SaveState_def at_text_def scanner_ok_def subslice_def string_of_def)
  moreover have "IsEOF (s\<lparr>prevState := (pos s, pos s, width s)\<rparr>)"
    using at_text_EOF [OF s(1)] by (simp add: IsEOF_def)
  ultimately have "pumpExpression uc ?F ?p0 = Ret (p\<lparr>scan := s\<lparr>prevState := (pos s, pos s, width s)\<rparr>\<rparr>)"
    unfolding pumpExpression_def r by simp
  then show ?thesis by (simp add: Parse_def)
qed

subsection \<open>Values\<close>

lemma AfterWord_at:
  assumes "at_text s (w @ r)" and "start s = pos s" and "delimited r"
  shows "\<exists>p'. step uc AfterWord \<lparr>scan = s\<lparr>pos := pos s + length w, width := k\<rparr>, curr = c\<rparr> = Ret (Some OperatorPart, p')
    \<and> at_text (scan p') r \<and> curr p' = Add (IdentityToken w) c"
proof -
  let ?t = "s\<lparr>pos := pos s + length w, width := k\<rparr>"
  have t: "at_text ?t r" using at_text_advance [OF assms(1)] at_text_width(1) [where s = "s\<lparr>pos := pos s + length w\<rparr>"] by simp
  obtain j where pk: "Peek ?t = (if r = [] then eof else rune (hd r), ?t\<lparr>width := j\<rparr>)"
  proof (cases r)
    case Nil
    then have "Peek ?t = (eof, ?t\<lparr>width := 0\<rparr>)" using t by (simp add: Peek_def Next_at_end Backup_def)
    then show thesis using that [of 0] Nil by simp
  next
    case (Cons d r')
    then show thesis using Peek_at [of ?t d r'] t that [of 1] by simp
  qed
  have "(if r = [] then eof else rune (hd r)) \<noteq> rune CHR ''(''"
    using assms(3) by (cases r) (auto simp: delimited_def, simp add: eof_def rune_def)
  moreover obtain s' where "(Commit (s\<lparr>pos := pos s + length w, width := j\<rparr>) :: (parse_error, _) outcome) = Ret (w, s')"
      "at_text s' r" using Commit_at [OF assms(1,2), of j] by blast
  ultimately show ?thesis using pk by (simp add: step_def branchExpressionAfterWord_def)
qed

fun plain :: "operand \<Rightarrow> bool" where
  "plain (Sub k ch) \<longleftrightarrow> False"
| "plain _ \<longleftrightarrow> True"

lemma value_start:
  assumes "at_text (scan p) (sp @ c # r)" and "sp = [] \<or> sp = '' ''" and "c \<noteq> CHR '' ''" and "c \<noteq> CHR 0x09"
  shows "at_text (SkipSpaces (scan p)) (c # r)" and "start (SkipSpaces (scan p)) = pos (SkipSpaces (scan p))"
    and "\<not> IsEOF (SkipSpaces (scan p))"
  using SkipSpaces_at [OF assms(1,2)] assms(3,4) at_text_EOF by auto

lemma number_value:
  assumes "at_text (scan p) (sp @ format_int i @ r)" and "sp = [] \<or> sp = '' ''" and "delimited r"
    and "- (2 ^ 63) \<le> i" and "i < 2 ^ 63"
  shows "\<exists>p'. reaches uc (ValuePart, p) (OperatorPart, p') \<and> at_text (scan p') r \<and> curr p' = Add (NumberToken i) (curr p)"
proof -
  obtain c w where w: "format_int i = c # w" by (cases "format_int i") (simp_all add: format_int_def split: if_splits)
  have "c = CHR ''-'' \<or> digit_val c \<noteq> None"
    using w format_uint_digits [of "nat i"] by (cases "i < 0") (auto simp: format_int_def)
  then have c: "c \<noteq> CHR '' ''" "c \<noteq> CHR 0x09" by (auto simp: digit_val_def Let_def)
  define s where "s = SkipSpaces (scan p)"
  have s: "at_text s (format_int i @ r)" "start s = pos s" "\<not> IsEOF s"
    using value_start [of p sp c "w @ r"] assms(1,2) c w by (simp_all add: s_def)
  obtain k where n: "ScanNumber uc s = (True, s\<lparr>pos := pos s + length (format_int i), width := k\<rparr>)"
    using ScanNumber_at [OF s(1) assms(3)] by blast
  obtain s' where m: "(Commit (s\<lparr>pos := pos s + length (format_int i), width := k\<rparr>) :: (parse_error, _) outcome) = Ret (format_int i, s')"
    "at_text s' r" using Commit_at [OF s(1,2)] by blast
  have "parse_int 64 (format_int i) = Some i" using parse_int_format_int [of 64 i] assms(4,5) by simp
  then have "step uc ValuePart p = Ret (Some OperatorPart, \<lparr>scan = s', curr = Add (NumberToken i) (curr p)\<rparr>)"
    using s n m by (simp add: step_def branchExpressionValuePart_def Let_def s_def [symmetric] NewNumberToken_def)
  from reaches_step [OF this] show ?thesis using m(2) by auto
qed

lemma word_value:
  assumes "at_text (scan p) (sp @ c # w @ r)" and "sp = [] \<or> sp = '' ''" and "delimited r"
    and "letter_char c" and "list_all word_char w"
  shows "\<exists>p'. reaches uc (ValuePart, p) (OperatorPart, p') \<and> at_text (scan p') r
    \<and> curr p' = Add (IdentityToken (c # w)) (curr p)"
proof -
  have c: "c \<noteq> CHR '' ''" "c \<noteq> CHR 0x09" "\<not> starts_number c"
    using assms(4) by (auto simp: letter_char_def ascii_letter_def rune_def starts_number_def ascii_digit_def)
  define s where "s = SkipSpaces (scan p)"
  have s: "at_text s (c # w @ r)" "start s = pos s" "\<not> IsEOF s"
    using value_start [of p sp c "w @ r"] assms(1,2) c by (simp_all add: s_def)
  have n: "ScanNumber uc s = (False, s\<lparr>width := 1\<rparr>)" using ScanNumber_other [OF s(1) c(3)] .
  let ?t = "s\<lparr>width := 1\<rparr>"
  have t: "at_text ?t (c # w @ r)" using s(1) by simp
  obtain k where wd: "ScanWord uc ?t = (True, ?t\<lparr>pos := pos ?t + length (c # w), width := k\<rparr>)"
    using ScanWord_at [OF t assms(4,5,3)] by blast
  let ?p1 = "p\<lparr>scan := ?t\<lparr>pos := pos ?t + length (c # w), width := k\<rparr>\<rparr>"
  have one: "step uc ValuePart p = Ret (Some AfterWord, ?p1)"
    using s n wd by (simp add: step_def branchExpressionValuePart_def Let_def s_def [symmetric])
  have p1: "?p1 = \<lparr>scan = ?t\<lparr>pos := pos ?t + length (c # w), width := k\<rparr>, curr = curr p\<rparr>" by simp
  obtain p' where two: "step uc AfterWord ?p1 = Ret (Some OperatorPart, p')" "at_text (scan p') r"
      "curr p' = Add (IdentityToken (c # w)) (curr p)"
    using AfterWord_at [of ?t "c # w" r uc k "curr p"] t s(2) assms(3) unfolding p1 by auto
  have "reaches uc (ValuePart, p) (OperatorPart, p')"
    using reaches_trans [OF reaches_step [OF one] reaches_step [OF two(1)]] by simp
  then show ?thesis using two by blast
qed

lemma text_value:
  assumes "at_text (scan p) (sp @ CHR 0x27 # w @ CHR 0x27 # r)" and "sp = [] \<or> sp = '' ''" and "CHR 0x27 \<notin> set w"
  shows "\<exists>p'. reaches uc (ValuePart, p) (OperatorPart, p') \<and> at_text (scan p') r
    \<and> curr p' = Add (TextToken w) (curr p)"
proof -
  define s where "s = SkipSpaces (scan p)"
  have s: "at_text s (CHR 0x27 # w @ CHR 0x27 # r)" "\<not> IsEOF s"
    using value_start [of p sp "CHR 0x27"] assms(1,2) by (simp_all add: s_def)
  have c: "\<not> starts_number (CHR 0x27)" "\<not> letter_char (CHR 0x27)"
    by (simp_all add: starts_number_def letter_char_def ascii_digit_def ascii_letter_def rune_def)
  have n: "ScanNumber uc s = (False, s\<lparr>width := 1\<rparr>)" using ScanNumber_other [OF s(1) c(1)] .
  have wd: "ScanWord uc (s\<lparr>width := 1\<rparr>) = (False, s\<lparr>width := 1\<rparr>)"
    using ScanWord_other [of "s\<lparr>width := 1\<rparr>"] s(1) c(2) by fastforce
  have nx: "Next (s\<lparr>width := 1\<rparr>) = (rune CHR 0x27, s\<lparr>width := 1, pos := pos s + 1\<rparr>)"
    using Next_at [of "s\<lparr>width := 1\<rparr>"] s(1) by simp
  have b: "Backup (s\<lparr>width := 1, pos := pos s + 1\<rparr>) = s\<lparr>width := 1\<rparr>" by (simp add: Backup_def)
  obtain s' where t: "ParseText (s\<lparr>width := 1\<rparr>) = Ret (w, s')" "at_text s' r"
    using ParseText_at [of "s\<lparr>width := 1\<rparr>" w r] s(1) assms(3) by auto
  have "step uc ValuePart p = Ret (Some OperatorPart, \<lparr>scan = s', curr = Add (TextToken w) (curr p)\<rparr>)"
    using s n wd nx b t by (simp add: step_def branchExpressionValuePart_def Let_def s_def [symmetric])
  from reaches_step [OF this] show ?thesis using t(2) by auto
qed

lemma bracket_value:
  assumes "at_text (scan p) (sp @ CHR ''('' # r)" and "sp = [] \<or> sp = '' ''"
  shows "\<exists>p'. reaches uc (ValuePart, p) (ValuePart, p') \<and> at_text (scan p') r
    \<and> curr p' = AddMove (GroupToken ''()'') (curr p)"
proof -
  define s where "s = SkipSpaces (scan p)"
  have s: "at_text s (CHR ''('' # r)" "\<not> IsEOF s" "start s = pos s"
    using value_start [of p sp "CHR ''(''"] assms(1,2) by (simp_all add: s_def)
  have c: "\<not> starts_number (CHR ''('')" "\<not> letter_char (CHR ''('')"
    by (simp_all add: starts_number_def letter_char_def ascii_digit_def ascii_letter_def rune_def)
  have n: "ScanNumber uc s = (False, s\<lparr>width := 1\<rparr>)" using ScanNumber_other [OF s(1) c(1)] .
  have wd: "ScanWord uc (s\<lparr>width := 1\<rparr>) = (False, s\<lparr>width := 1\<rparr>)"
    using ScanWord_other [of "s\<lparr>width := 1\<rparr>"] s(1) c(2) by fastforce
  have nx: "Next (s\<lparr>width := 1\<rparr>) = (rune CHR ''('', s\<lparr>width := 1, pos := pos s + 1\<rparr>)"
    using Next_at [of "s\<lparr>width := 1\<rparr>"] s(1) by simp
  obtain s' where m: "(Commit (s\<lparr>pos := pos s + length ''('', width := 1\<rparr>) :: (parse_error, _) outcome) = Ret (''('', s')"
    "at_text s' r" using Commit_at [of s "''(''" r 1] s by auto
  have "step uc ValuePart p = Ret (Some ValuePart, \<lparr>scan = s', curr = AddMove (GroupToken ''()'') (curr p)\<rparr>)"
    using s n wd nx [unfolded scanner_swap] m
    by (simp add: step_def branchExpressionValuePart_def parseOpenBracket_def Let_def s_def [symmetric])
  from reaches_step [OF this] show ?thesis using m(2) by auto
qed

subsection \<open>Operators and brackets\<close>

lemma operator_part:
  assumes "at_text (scan p) ('' '' @ w @ '' '' @ r)" and "query_operator w" and "push_operator w (curr p) = Ret c"
  shows "\<exists>p'. reaches uc (OperatorPart, p) (ValuePart, p') \<and> at_text (scan p') ('' '' @ r) \<and> curr p' = c"
proof -
  obtain d w' where w: "w = d # w'" using before_operator_misses(3) [OF assms(2)] by (cases w) auto
  have d: "\<not> IsSpace (rune d)"
  proof -
    have "hd (spelling q) \<noteq> CHR '' '' \<and> hd (spelling q) \<noteq> CHR 0x09" for q by (cases q) simp_all
    then have "hd w \<noteq> CHR '' '' \<and> hd w \<noteq> CHR 0x09" using assms(2) unfolding query_operator_def by auto
    then show ?thesis using w by simp
  qed
  define s where "s = SkipSpaces (scan p)"
  have s: "at_text s (w @ '' '' @ r)" "start s = pos s" "\<not> IsEOF s"
    using SkipSpaces_at [of "scan p" "'' ''" "w @ '' '' @ r"] assms(1) w d at_text_EOF by (auto simp: s_def)
  have a: "AcceptOperator uc s = (True, s\<lparr>pos := pos s + length w, width := 1\<rparr>)"
    using AcceptOperator_at [OF s(1) assms(2)] .
  obtain s' where m: "(Commit (s\<lparr>pos := pos s + length w, width := 1\<rparr>) :: (parse_error, _) outcome) = Ret (w, s')"
    "at_text s' ('' '' @ r)" using Commit_at [OF s(1,2)] by blast
  have "step uc OperatorPart p = Ret (Some ValuePart, \<lparr>scan = s', curr = c\<rparr>)"
    using s a m assms(3) by (simp add: step_def branchExpressionOperatorPart_def parseOperator_def Let_def s_def [symmetric])
  from reaches_step [OF this] show ?thesis using m(2) by auto
qed

lemma closing_part:
  assumes "at_text (scan p) (CHR '')'' # r)" and "closing_group (curr p) = Some (Cursor t ((v, ts) # anc))"
    and "TValue t = GroupToken ''()''"
  shows "\<exists>p'. reaches uc (OperatorPart, p) (OperatorPart, p') \<and> at_text (scan p') r
    \<and> curr p' = Cursor (TreeNode v (ts @ [t])) anc"
proof -
  define s where "s = SkipSpaces (scan p)"
  have s: "at_text s (CHR '')'' # r)" "start s = pos s" "\<not> IsEOF s"
    using SkipSpaces_at [of "scan p" "[]" "CHR '')'' # r"] assms(1) at_text_EOF by (auto simp: s_def)
  have ac: "Accept ''='' s = (False, s\<lparr>width := 1\<rparr>)"
    using Next_at [OF s(1)] by (simp add: Accept_def Backup_def)
  have nx: "Next (s\<lparr>width := 1\<rparr>) = (rune CHR '')'', s\<lparr>pos := pos s + 1, width := 1\<rparr>)"
    using Next_at [of "s\<lparr>width := 1\<rparr>" "CHR '')''" r] s(1) by (simp add: scanner_swap)
  obtain s' where m: "(Commit (s\<lparr>pos := pos s + 1, width := 1\<rparr>) :: (parse_error, _) outcome) = Ret ('')'', s')"
    "at_text s' r" using Commit_at [of s "'')''" r 1] s by auto
  have "step uc OperatorPart p = Ret (Some OperatorPart, \<lparr>scan = s', curr = Cursor (TreeNode v (ts @ [t])) anc\<rparr>)"
    using s AcceptOperator_bracket [OF s(1)] ac nx m assms(2,3)
    by (simp add: step_def branchExpressionOperatorPart_def parseCloseBracket_def Let_def s_def [symmetric])
  from reaches_step [OF this] show ?thesis using m(2) by auto
qed

lemma levels: "Level (connective_word k) < Level (spelling q)" "0 \<le> Level (connective_word k)" "0 \<le> Level (spelling q)"
proof -
  have "Level ''and'' = 2" "Level ''or'' = 1" by code_simp+
  moreover have "Level ''='' = 3" "Level ''!='' = 3" "Level ''>='' = 3" "Level ''<='' = 3" "Level ''>'' = 3" "Level ''<'' = 3"
    "Level ''+'' = 4" "Level ''-'' = 4" "Level ''&'' = 4" "Level ''|'' = 4" "Level ''^'' = 4"
    by code_simp+
  ultimately show "Level (connective_word k) < Level (spelling q)" "0 \<le> Level (connective_word k)" "0 \<le> Level (spelling q)"
    by (cases k; cases q; simp)+
qed

lemma connective_not_comparison: "connective_word k \<noteq> spelling q" "spelling q \<noteq> connective_word k"
  using levels(1) [of k q] by auto

lemma query_operators [simp]: "query_operator (connective_word k)" "query_operator (spelling q)"
  by (cases k) (auto simp: query_operator_def)

lemma operator_tokens [simp]:
  "NewOperatorToken (connective_word k) = Ret (OperatorToken (connective_word k))"
  "NewOperatorToken (spelling q) = Ret (OperatorToken (spelling q))"
  "Precedence (spelling q) (connective_word k) = -1" "Precedence (connective_word k) (spelling q) = 1"
  using levels(1) [of k q] levels(2) [of k] levels(3) [of q]
  by (simp_all add: NewOperatorToken_def Precedence_def not_less)

definition joins :: "token \<Rightarrow> bool" where
  "joins v \<longleftrightarrow> (\<forall>op. v \<noteq> OperatorToken op) \<or> (\<exists>k. v = OperatorToken (connective_word k))"

lemma push_comparison:
  assumes "joins v"
  shows "push_operator (spelling q) (Cursor (TreeNode v (items @ [t])) anc) =
    Ret (Cursor (TreeNode (OperatorToken (spelling q)) [t]) ((v, items) # anc))"
  using assms connective_not_comparison
  by (auto simp: joins_def push_operator_def LastElement_def PushLast_def split: token.splits)

lemma push_connective:
  assumes "\<forall>op. v \<noteq> OperatorToken op"
  shows "push_operator (connective_word k) (chain_cursor k ch v anc) =
    Ret (Cursor (TreeNode (OperatorToken (connective_word k)) (prior ch (chain_tree ch k))) ((v, []) # anc))"
proof -
  have stop: "climb_operators (Cursor t ((v, ts) # p)) = Ret (Cursor t ((v, ts) # p))" for t ts p
    using assms by (subst climb_operators.simps) (auto split: token.splits)
  have up: "climb_operators (Cursor t ((OperatorToken (connective_word k), ts) # (v, us) # p)) =
      Ret (Cursor (TreeNode (OperatorToken (connective_word k)) (ts @ [t])) ((v, us) # p))" for t ts us p
    using levels(2) by (subst climb_operators.simps) (simp add: stop)
  show ?thesis
  proof (cases ch)
    case (First c)
    show ?thesis
    proof (cases c)
      case (One a)
      then show ?thesis using First assms
        by (auto simp: push_operator_def LastElement_def PushLast_def prior_def split: token.splits)
    next
      case (Cmp a q b)
      then show ?thesis using First connective_not_comparison
        by (simp add: push_operator_def Push_def prior_def stop)
    qed
  next
    case (Then ch' c)
    show ?thesis
    proof (cases c)
      case (One a)
      then show ?thesis using Then by (simp add: push_operator_def prior_def)
    next
      case (Cmp a q b)
      then show ?thesis using Then connective_not_comparison
        by (simp add: push_operator_def Push_def prior_def up)
    qed
  qed
qed

lemma closing_chain:
  "closing_group (chain_cursor k ch (GroupToken ''()'') anc) =
     Some (Cursor (TreeNode (GroupToken ''()'') [chain_tree ch k]) anc)"
proof -
  have here: "closing_group (Cursor (TreeNode (GroupToken ''()'') ts) p) = Some (Cursor (TreeNode (GroupToken ''()'') ts) p)" for ts p
    by (subst closing_group.simps) simp
  have up: "closing_group (Cursor (TreeNode (OperatorToken op) us) ((v, ts) # p)) =
      closing_group (Cursor (TreeNode v (ts @ [TreeNode (OperatorToken op) us])) p)" for op us v ts p
    by (subst closing_group.simps) simp
  show ?thesis
  proof (cases ch)
    case (First c)
    then show ?thesis by (cases c) (simp_all add: here up)
  next
    case (Then ch' c)
    then show ?thesis by (cases c) (simp_all add: here up)
  qed
qed

lemma root_chain: "Root (chain_cursor k ch v []) = TreeNode v [chain_tree ch k]"
proof (cases ch)
  case (First c)
  then show ?thesis by (cases c) (simp_all add: Root_def)
next
  case (Then ch' c)
  then show ?thesis by (cases c) (simp_all add: Root_def)
qed

subsection \<open>Parsing the form\<close>

definition parses :: "unicode \<Rightarrow> string \<Rightarrow> cursor \<Rightarrow> cursor \<Rightarrow> bool" where
  "parses uc w c d \<longleftrightarrow> (\<forall>p sp r. at_text (scan p) (sp @ w @ r) \<longrightarrow> sp = [] \<or> sp = '' '' \<longrightarrow> delimited r \<longrightarrow> curr p = c \<longrightarrow>
     (\<exists>p'. reaches uc (ValuePart, p) (OperatorPart, p') \<and> at_text (scan p') r \<and> curr p' = d))"

lemma parsesD:
  "parses uc w c d \<Longrightarrow> at_text (scan p) (sp @ w @ r) \<Longrightarrow> sp = [] \<or> sp = '' '' \<Longrightarrow> delimited r \<Longrightarrow> curr p = c \<Longrightarrow>
     (\<exists>p'. reaches uc (ValuePart, p) (OperatorPart, p') \<and> at_text (scan p') r \<and> curr p' = d)"
  for p :: parser
  unfolding parses_def by blast

lemma delimited_simps [simp]: "delimited []" "delimited (CHR '' '' # r)" "delimited (CHR '')'' # r)"
  by (simp_all add: delimited_def)

text \<open>A value, an operator and another value.\<close>

lemma parses_operator:
  assumes "parses uc w c d" and "push_operator op d = Ret e" and "query_operator op" and "parses uc w' e f"
  shows "parses uc (w @ '' '' @ op @ '' '' @ w') c f"
  unfolding parses_def
proof (intro allI impI)
  fix p :: parser and sp r
  assume p: "at_text (scan p) (sp @ (w @ '' '' @ op @ '' '' @ w') @ r)" "sp = [] \<or> sp = '' ''" "delimited r" "curr p = c"
  obtain p1 where one: "reaches uc (ValuePart, p) (OperatorPart, p1)" "at_text (scan p1) ('' '' @ op @ '' '' @ w' @ r)" "curr p1 = d"
    using parsesD [OF assms(1), of p sp "'' '' @ op @ '' '' @ w' @ r"] p by auto
  obtain p2 where two: "reaches uc (OperatorPart, p1) (ValuePart, p2)" "at_text (scan p2) ('' '' @ w' @ r)" "curr p2 = e"
    using operator_part [OF one(2) assms(3)] assms(2) one(3) by auto
  obtain p3 where three: "reaches uc (ValuePart, p2) (OperatorPart, p3)" "at_text (scan p3) r" "curr p3 = f"
    using parsesD [OF assms(4) two(2) _ p(3) two(3)] by auto
  have "reaches uc (ValuePart, p) (OperatorPart, p3)"
    using reaches_trans [OF one(1) reaches_trans [OF two(1) three(1)]] .
  then show "\<exists>p'. reaches uc (ValuePart, p) (OperatorPart, p') \<and> at_text (scan p') r \<and> curr p' = f"
    using three by blast
qed

lemma parses_form:
  shows "operand_ok a \<Longrightarrow> parses uc (render_operand a) (Cursor (TreeNode v items) anc)
      (Cursor (TreeNode v (items @ [operand_tree a])) anc)"
    and "chain_ok ch \<Longrightarrow> \<forall>op. v \<noteq> OperatorToken op \<Longrightarrow>
      parses uc (render_chain ch k) (Cursor (TreeNode v []) anc) (chain_cursor k ch v anc)"
    and "clause_ok c \<Longrightarrow> joins v \<Longrightarrow>
      parses uc (render_clause c) (Cursor (TreeNode v items) anc) (clause_cursor c v items anc)"
proof (induction a and ch and c arbitrary: v items anc and v k anc and v items anc)
  case (Num i)
  then show ?case using number_value [of _ _ i _ uc] by (fastforce simp: parses_def Add_def)
next
  case (Var x)
  then obtain c w where "x = c # w" "letter_char c" "list_all word_char w" by (cases x) auto
  then show ?case using word_value [of _ _ c w _ uc] by (fastforce simp: parses_def Add_def)
next
  case (Str s)
  then show ?case using text_value [of _ _ s _ uc] by (fastforce simp: parses_def Add_def)
next
  case (Sub k ch)
  have inner: "parses uc (render_chain ch k) (Cursor (TreeNode (GroupToken ''()'') []) ((v, items) # anc))
      (chain_cursor k ch (GroupToken ''()'') ((v, items) # anc))"
    using Sub by simp
  show ?case
    unfolding parses_def
  proof (intro allI impI)
    fix p :: parser and sp r
    assume p: "at_text (scan p) (sp @ render_operand (Sub k ch) @ r)" "sp = [] \<or> sp = '' ''" "delimited r"
      "curr p = Cursor (TreeNode v items) anc"
    obtain p1 where one: "reaches uc (ValuePart, p) (ValuePart, p1)" "at_text (scan p1) ([] @ render_chain ch k @ CHR '')'' # r)"
        "curr p1 = Cursor (TreeNode (GroupToken ''()'') []) ((v, items) # anc)"
      using bracket_value [of p sp "render_chain ch k @ CHR '')'' # r" uc] p by (auto simp: AddMove_def)
    obtain p2 where two: "reaches uc (ValuePart, p1) (OperatorPart, p2)" "at_text (scan p2) (CHR '')'' # r)"
        "curr p2 = chain_cursor k ch (GroupToken ''()'') ((v, items) # anc)"
      using parsesD [OF inner one(2) _ _ one(3)] by auto
    obtain p3 where three: "reaches uc (OperatorPart, p2) (OperatorPart, p3)" "at_text (scan p3) r"
        "curr p3 = Cursor (TreeNode v (items @ [operand_tree (Sub k ch)])) anc"
      using closing_part [OF two(2), of _ v items anc uc] two(3) closing_chain by auto
    have "reaches uc (ValuePart, p) (OperatorPart, p3)"
      using reaches_trans [OF one(1) reaches_trans [OF two(1) three(1)]] .
    then show "\<exists>p'. reaches uc (ValuePart, p) (OperatorPart, p') \<and> at_text (scan p') r
        \<and> curr p' = Cursor (TreeNode v (items @ [operand_tree (Sub k ch)])) anc"
      using three by blast
  qed
next
  case (First c)
  then show ?case by (simp add: joins_def)
next
  case (Then ch c)
  have "joins (OperatorToken (connective_word k))" by (auto simp: joins_def)
  then have c: "parses uc (render_clause c)
      (Cursor (TreeNode (OperatorToken (connective_word k)) (prior ch (chain_tree ch k))) ((v, []) # anc))
      (clause_cursor c (OperatorToken (connective_word k)) (prior ch (chain_tree ch k)) ((v, []) # anc))"
    using Then by simp
  have ch: "parses uc (render_chain ch k) (Cursor (TreeNode v []) anc) (chain_cursor k ch v anc)" using Then by simp
  from parses_operator [OF ch push_connective [OF Then.prems(2)] query_operators(1) c] show ?case by simp
next
  case (One a)
  then show ?case by simp
next
  case (Cmp a q b)
  have a: "parses uc (render_operand a) (Cursor (TreeNode v items) anc) (Cursor (TreeNode v (items @ [operand_tree a])) anc)"
    using Cmp by simp
  have b: "parses uc (render_operand b) (Cursor (TreeNode (OperatorToken (spelling q)) [operand_tree a]) ((v, items) # anc))
      (Cursor (TreeNode (OperatorToken (spelling q)) ([operand_tree a] @ [operand_tree b])) ((v, items) # anc))"
    using Cmp.IH(2) [of "OperatorToken (spelling q)" "[operand_tree a]"] Cmp.prems(1) by simp
  from parses_operator [OF a push_comparison [OF Cmp.prems(2)] query_operators(2) b] show ?case by simp
qed

lemma format_int_ascii: "list_all ascii_char (format_int i)"
proof -
  have "list_all ascii_char (format_uint n)" for n
    using format_uint_digits [of n] digit_ascii by (auto simp: list_all_iff)
  then show ?thesis by (simp add: format_int_def ascii_char_def)
qed

lemma word_ascii: "list_all word_char w \<Longrightarrow> list_all ascii_char w"
  using word_char_ascii by (auto simp: list_all_iff)

lemma operator_ascii: "list_all ascii_char (connective_word k)" "list_all ascii_char (spelling q)"
  by (cases k; simp add: ascii_char_def) (cases q; simp add: ascii_char_def)

lemma render_ascii:
  shows "operand_ok a \<Longrightarrow> list_all ascii_char (render_operand a)"
    and "chain_ok ch \<Longrightarrow> list_all ascii_char (render_chain ch k)"
    and "clause_ok c \<Longrightarrow> list_all ascii_char (render_clause c)"
  by (induction a and ch and c arbitrary: and k and)
    (simp_all add: format_int_ascii word_ascii operator_ascii, simp_all add: ascii_char_def)

lemma Parse_render:
  assumes "chain_ok ch"
  shows "Parse uc (render_chain ch k) = Ret (TreeNode EmptyToken [chain_tree ch k])"
proof -
  let ?p = "\<lparr>scan = NewScanner (render_chain ch k), curr = Cursor (TreeNode EmptyToken []) []\<rparr>"
  have "at_text (scan ?p) ([] @ render_chain ch k @ [])"
    using render_ascii(2) [OF assms] by (simp add: at_text_def NewScanner_def scanner_ok_def positions_def)
  then obtain p' where "reaches uc (ValuePart, ?p) (OperatorPart, p')" "at_text (scan p') []"
      "curr p' = chain_cursor k ch EmptyToken []"
    using parsesD [OF parses_form(2) [of ch EmptyToken uc k "[]"], of ?p] assms by fastforce
  then show ?thesis using Parse_reaches root_chain by simp
qed

end
