(* ===== verification/FilterMeaning.thy ===== *)
theory FilterMeaning
  imports FilterSearch
begin

text \<open>
  The meaning of search expressions of the form of \<open>FilterSearch\<close>, independent of trees: every operand has
  a value, a comparison compares values, a connective combines truth values. The evaluator computes it,
  and the server browser returns the servers for which it is not 0.
\<close>

datatype val = Number int | Text string

fun str_of :: "val \<Rightarrow> string" where
  "str_of (Number i) = format_int i"
| "str_of (Text s) = s"

fun is_num :: "val \<Rightarrow> bool" where
  "is_num (Number i) \<longleftrightarrow> True"
| "is_num (Text s) \<longleftrightarrow> parse_int 64 s \<noteq> None"

fun num_of :: "val \<Rightarrow> int" where
  "num_of (Number i) = i"
| "num_of (Text s) = (case parse_int 64 s of None \<Rightarrow> 0 | Some i \<Rightarrow> i)"

definition truthy :: "val \<Rightarrow> bool" where "truthy v \<longleftrightarrow> str_of v \<noteq> ''0''"

fun arith :: "comparison \<Rightarrow> int \<Rightarrow> int \<Rightarrow> int" where
  "arith Ge a b = of_bool64 (b \<le> a)" | "arith Le a b = of_bool64 (a \<le> b)"
| "arith Gt a b = of_bool64 (b < a)" | "arith Lt a b = of_bool64 (a < b)"
| "arith Plus a b = wrap64 (a + b)" | "arith Minus a b = wrap64 (a - b)"
| "arith BitAnd a b = a AND b" | "arith BitOr a b = a OR b" | "arith BitXor a b = a XOR b"
| "arith Eq a b = of_bool64 (a = b)" | "arith Ne a b = of_bool64 (a \<noteq> b)"

definition on_strings :: "comparison \<Rightarrow> bool" where "on_strings q \<longleftrightarrow> q = Eq \<or> q = Ne"

text \<open>In Mario Kart Wii the rating is not compared and the region of a room name does not count.\<close>

definition unrated :: "string \<Rightarrow> operand \<Rightarrow> bool" where
  "unrated game a \<longleftrightarrow> game = ''mariokartwii'' \<and> (a = Var ''ev'' \<or> a = Var ''eb'')"

definition compare :: "server \<Rightarrow> string \<Rightarrow> operand \<Rightarrow> comparison \<Rightarrow> val \<Rightarrow> val \<Rightarrow> int" where
  "compare ctx game a q v w =
     (if q = Eq then
        of_bool64 (if game = ''mariokartwii'' \<and> a = Var ''rk'' then worldwide (mget ctx ''rk'') = worldwide (str_of w)
                   else str_of v = str_of w)
      else if q = Ne then of_bool64 (str_of v \<noteq> str_of w)
      else if unrated game a then 1
      else arith q (num_of v) (num_of w))"

definition combine :: "connective \<Rightarrow> bool \<Rightarrow> bool \<Rightarrow> bool" where
  "combine k a b = (case k of Conj \<Rightarrow> a \<and> b | Disj \<Rightarrow> a \<or> b)"

primrec operand_val :: "operand \<Rightarrow> server \<Rightarrow> string \<Rightarrow> val"
and chain_val :: "chain \<Rightarrow> connective \<Rightarrow> server \<Rightarrow> string \<Rightarrow> val"
and clause_val :: "clause \<Rightarrow> server \<Rightarrow> string \<Rightarrow> val" where
  "operand_val (Num i) = (\<lambda>ctx game. Number i)"
| "operand_val (Var x) = (\<lambda>ctx game. Text (mget ctx x))"
| "operand_val (Str s) = (\<lambda>ctx game. Text s)"
| "operand_val (Sub k ch) = (\<lambda>ctx game. Number (num_of (chain_val ch k ctx game)))"
| "chain_val (First c) = (\<lambda>k ctx game. clause_val c ctx game)"
| "chain_val (Then ch c) = (\<lambda>k ctx game.
     Number (of_bool64 (combine k (truthy (chain_val ch k ctx game)) (truthy (clause_val c ctx game)))))"
| "clause_val (One a) = (\<lambda>ctx game. operand_val a ctx game)"
| "clause_val (Cmp a q b) = (\<lambda>ctx game.
     Number (compare ctx game a q (operand_val a ctx game) (operand_val b ctx game)))"

text \<open>No text that is not a number is used as one.\<close>

primrec operand_safe :: "operand \<Rightarrow> server \<Rightarrow> string \<Rightarrow> bool"
and chain_safe :: "chain \<Rightarrow> connective \<Rightarrow> server \<Rightarrow> string \<Rightarrow> bool"
and clause_safe :: "clause \<Rightarrow> server \<Rightarrow> string \<Rightarrow> bool" where
  "operand_safe (Num i) = (\<lambda>ctx game. True)"
| "operand_safe (Var x) = (\<lambda>ctx game. True)"
| "operand_safe (Str s) = (\<lambda>ctx game. True)"
| "operand_safe (Sub k ch) = (\<lambda>ctx game. chain_safe ch k ctx game \<and> is_num (chain_val ch k ctx game))"
| "chain_safe (First c) = (\<lambda>k ctx game. clause_safe c ctx game)"
| "chain_safe (Then ch c) = (\<lambda>k ctx game. chain_safe ch k ctx game \<and> clause_safe c ctx game)"
| "clause_safe (One a) = (\<lambda>ctx game. operand_safe a ctx game)"
| "clause_safe (Cmp a q b) = (\<lambda>ctx game. operand_safe a ctx game \<and> operand_safe b ctx game \<and>
     (on_strings q \<or> unrated game a \<or> is_num (operand_val a ctx game) \<and> is_num (operand_val b ctx game)))"

definition denotes :: "server \<Rightarrow> string \<Rightarrow> tree \<Rightarrow> val \<Rightarrow> bool" where
  "denotes ctx game t v \<longleftrightarrow> getString ctx game t = Ret (str_of v) \<and>
     getNumber ctx game t = (if is_num v then Ret (num_of v) else Panic)"

text \<open>The nodes that stand for a single child of the root or of a group.\<close>

definition value_node :: "tree \<Rightarrow> bool" where
  "value_node t \<longleftrightarrow> (case TValue t of
     NumberToken i \<Rightarrow> True | IdentityToken x \<Rightarrow> True | TextToken s \<Rightarrow> True | OperatorToken op \<Rightarrow> True
   | GroupToken g \<Rightarrow> g = ''()'' | _ \<Rightarrow> False)"

lemma eval_single: "value_node t \<Longrightarrow> eval ctx game (TreeNode v [t]) = getNumber ctx game t"
  by (subst eval.simps) (auto simp: value_node_def getNumber.simps [of ctx game t] split: token.splits)

lemma denotes_operator:
  assumes "switchFunction ctx game (TreeNode (OperatorToken op) ts) = Ret i"
  shows "denotes ctx game (TreeNode (OperatorToken op) ts) (Number i)"
  using assms by (simp add: denotes_def getString.simps getNumber.simps)

lemma denotes_number: "denotes ctx game t v \<Longrightarrow> is_num v \<Longrightarrow> getNumber ctx game t = Ret (num_of v)"
  by (simp add: denotes_def)

lemma denotes_strings:
  "list_all2 (denotes ctx game) ts vs \<Longrightarrow> map (getString ctx game) ts = map (\<lambda>v. Ret (str_of v)) vs"
  by (induction rule: list_all2_induct) (simp_all add: denotes_def)

lemma until_all: "until_string (\<lambda>s. s = ''0'') 0 1 (map (\<lambda>v. Ret (str_of v)) vs) = Ret (of_bool64 (list_all truthy vs))"
  by (induction vs) (simp_all add: truthy_def of_bool64_def)

lemma until_any: "until_string (\<lambda>s. s \<noteq> ''0'') 1 0 (map (\<lambda>v. Ret (str_of v)) vs) = Ret (of_bool64 (list_ex truthy vs))"
  by (induction vs) (simp_all add: truthy_def of_bool64_def)

definition combine_all :: "connective \<Rightarrow> val list \<Rightarrow> bool" where
  "combine_all k vs = (case k of Conj \<Rightarrow> list_all truthy vs | Disj \<Rightarrow> list_ex truthy vs)"

lemma connective_operator:
  assumes "list_all2 (denotes ctx game) ts vs" and "2 \<le> length ts"
  shows "switchFunction ctx game (TreeNode (OperatorToken (connective_word k)) ts) = Ret (of_bool64 (combine_all k vs))"
proof -
  have w: "to_lower ''and'' = ''and''" "to_lower ''or'' = ''or''" by code_simp+
  show ?thesis
    using denotes_strings [OF assms(1)] assms(2) list_all2_lengthD [OF assms(1)]
    by (cases k)
      (simp_all add: switchFunction.simps apply_operator_def w evalAnd_def evalOr_def until_all until_any combine_all_def)
qed

lemma lower_spelling: "to_lower (spelling q) = spelling q"
proof -
  have "to_lower ''='' = ''=''" "to_lower ''!='' = ''!=''" "to_lower ''>='' = ''>=''" "to_lower ''<='' = ''<=''"
    "to_lower ''>'' = ''>''" "to_lower ''<'' = ''<''" "to_lower ''+'' = ''+''" "to_lower ''-'' = ''-''"
    "to_lower ''&'' = ''&''" "to_lower ''|'' = ''|''" "to_lower ''^'' = ''^''" by code_simp+
  then show ?thesis by (cases q) simp_all
qed

definition arith_result :: "comparison \<Rightarrow> int \<Rightarrow> int \<Rightarrow> int eval_result" where
  "arith_result q a b = Ret (arith q a b)"

lemma math_spelling: "\<not> on_strings q \<Longrightarrow> math_operator (spelling q) = Some (arith_result q)"
  by (cases q)
    (auto simp: on_strings_def math_operator_def arith_result_def evalMathGreater_def evalMathLess_def
      evalMathGreaterOrEqual_def evalMathLessOrEqual_def evalMathPlus_def evalMathMinus_def evalMathAnd_def
      evalMathOr_def evalMathXor_def intro!: ext)

lemma spelling_strings:
  "\<not> on_strings q \<Longrightarrow> spelling q \<notin> {''='', ''=='', ''!='', ''and'', ''&&'', ''or'', ''||'', ''like''}"
  by (cases q) (simp_all add: on_strings_def)

lemma operand_token:
  "TValue (operand_tree a) = IdentityToken x \<longleftrightarrow> a = Var x"
  by (cases a) auto

lemma comparison_operator:
  assumes "denotes ctx game (operand_tree a) v" and "denotes ctx game (operand_tree b) w"
    and "on_strings q \<or> unrated game a \<or> is_num v \<and> is_num w"
  shows "switchFunction ctx game (clause_tree (Cmp a q b)) = Ret (compare ctx game a q v w)"
proof (cases "on_strings q")
  case True
  then show ?thesis
    using assms(1,2) lower_spelling [of q]
    by (auto simp: on_strings_def switchFunction.simps apply_operator_def evalEquals_def evalNotEquals_def denotes_def
        compare_def operand_token evalEqualsRK_def of_bool64_def)
next
  case False
  have r: "rating_field game (TValue (operand_tree a)) \<longleftrightarrow> unrated game a"
    by (auto simp: rating_field_def unrated_def operand_token)
  have "switchFunction ctx game (clause_tree (Cmp a q b)) = evalMathOperator game (arith_result q)
      [operand_tree a, operand_tree b] [getNumber ctx game (operand_tree a), getNumber ctx game (operand_tree b)]"
    using spelling_strings [OF False] math_spelling [OF False] lower_spelling [of q]
    by (simp add: switchFunction.simps apply_operator_def)
  also have "\<dots> = Ret (compare ctx game a q v w)"
    using assms False r denotes_number [OF assms(1)] denotes_number [OF assms(2)]
    by (auto simp: evalMathOperator_def arith_result_def compare_def on_strings_def)
  finally show ?thesis .
qed

subsection \<open>The evaluator computes the meaning\<close>

lemma list_all2_single [simp]: "list_all2 P [x] [y] \<longleftrightarrow> P x y"
  by simp

text \<open>The children a connective adds its next clause to, with their values.\<close>

definition prior_ok :: "server \<Rightarrow> string \<Rightarrow> connective \<Rightarrow> chain \<Rightarrow> bool" where
  "prior_ok ctx game k ch \<longleftrightarrow> (\<exists>vs. vs \<noteq> [] \<and> list_all2 (denotes ctx game) (prior ch (chain_tree ch k)) vs
     \<and> combine_all k vs = truthy (chain_val ch k ctx game))"

lemma truthy_bool [simp]: "truthy (Number (of_bool64 b)) = b"
proof -
  have "format_uint 0 = ''0''" "format_uint 1 = ''1''" by (simp_all add: format_uint.simps digit_chars)
  then show ?thesis by (simp add: truthy_def of_bool64_def format_int_def)
qed

lemma combine_all_append: "vs \<noteq> [] \<Longrightarrow> combine_all k (vs @ [v]) = combine k (combine_all k vs) (truthy v)"
  by (cases k) (simp_all add: combine_all_def combine_def)

lemma then_operator:
  assumes "prior_ok ctx game k ch" and "denotes ctx game (clause_tree c) (clause_val c ctx game)"
  shows "denotes ctx game (chain_tree (Then ch c) k) (chain_val (Then ch c) k ctx game)"
    and "prior_ok ctx game k (Then ch c)"
proof -
  obtain vs where vs: "vs \<noteq> []" "list_all2 (denotes ctx game) (prior ch (chain_tree ch k)) vs"
    "combine_all k vs = truthy (chain_val ch k ctx game)" using assms(1) prior_ok_def by blast
  let ?ts = "prior ch (chain_tree ch k) @ [clause_tree c]" and ?vs = "vs @ [clause_val c ctx game]"
  have all: "list_all2 (denotes ctx game) ?ts ?vs" using vs(2) assms(2) by (intro list_all2_appendI) simp_all
  have "2 \<le> length ?ts" using list_all2_lengthD [OF vs(2)] vs(1) by (cases vs) simp_all
  from connective_operator [OF all this, of k]
  show d: "denotes ctx game (chain_tree (Then ch c) k) (chain_val (Then ch c) k ctx game)"
    using vs by (simp add: combine_all_append denotes_operator)
  have v: "combine_all k ?vs = truthy (chain_val (Then ch c) k ctx game)" using vs by (simp add: combine_all_append)
  show "prior_ok ctx game k (Then ch c)"
  proof (cases "ends_in_operand (Then ch c)")
    case True
    then have "prior (Then ch c) (chain_tree (Then ch c) k) = ?ts" by (simp add: prior_def)
    then show ?thesis using all v unfolding prior_ok_def by (intro exI [of _ ?vs]) simp
  next
    case False
    then have "prior (Then ch c) (chain_tree (Then ch c) k) = [chain_tree (Then ch c) k]" by (simp add: prior_def)
    moreover have "combine_all k [chain_val (Then ch c) k ctx game] = truthy (chain_val (Then ch c) k ctx game)"
      by (cases k) (simp_all add: combine_all_def)
    ultimately show ?thesis using d unfolding prior_ok_def by (intro exI [of _ "[chain_val (Then ch c) k ctx game]"]) simp
  qed
qed

lemma first_prior:
  assumes "denotes ctx game (clause_tree c) (clause_val c ctx game)"
  shows "prior_ok ctx game k (First c)"
proof -
  have "combine_all k [clause_val c ctx game] = truthy (clause_val c ctx game)"
    by (cases k) (simp_all add: combine_all_def)
  then show ?thesis
    using assms unfolding prior_ok_def by (intro exI [of _ "[clause_val c ctx game]"]) (simp add: prior_def)
qed

lemma operand_value_node: "value_node (operand_tree a)"
  by (cases a) (simp_all add: value_node_def)

lemma clause_value_node: "value_node (clause_tree c)"
  by (cases c) (simp_all add: operand_value_node, simp add: value_node_def)

lemma chain_value_node: "value_node (chain_tree ch k)"
  by (cases ch) (simp_all add: clause_value_node, simp add: value_node_def)

lemma form_denotes:
  shows "operand_safe a ctx game \<Longrightarrow> denotes ctx game (operand_tree a) (operand_val a ctx game)"
    and "chain_safe ch k ctx game \<Longrightarrow>
      denotes ctx game (chain_tree ch k) (chain_val ch k ctx game) \<and> prior_ok ctx game k ch"
    and "clause_safe c ctx game \<Longrightarrow> denotes ctx game (clause_tree c) (clause_val c ctx game)"
proof (induction a and ch and c arbitrary: and k and)
  case (Sub k ch)
  then have d: "denotes ctx game (chain_tree ch k) (chain_val ch k ctx game)" and n: "is_num (chain_val ch k ctx game)"
    by simp_all
  have "eval ctx game (operand_tree (Sub k ch)) = Ret (num_of (chain_val ch k ctx game))"
    using denotes_number [OF d n] eval_single [OF chain_value_node] by simp
  then show ?case by (simp add: denotes_def getString.simps getNumber.simps)
next
  case (First c)
  then show ?case using first_prior by simp
next
  case (Then ch c)
  then show ?case using then_operator [of ctx game k ch c] by simp
next
  case (Cmp a q b)
  then have "switchFunction ctx game (clause_tree (Cmp a q b)) =
      Ret (compare ctx game a q (operand_val a ctx game) (operand_val b ctx game))"
    by (intro comparison_operator) simp_all
  then show ?case using denotes_operator by simp
qed (simp_all add: denotes_def getString.simps getNumber.simps toInt64_def split: option.splits)

lemma search_meaning:
  assumes "chain_ok ch" and "chain_safe ch k ctx game" and "is_num (chain_val ch k ctx game)"
  shows "bind_outcome (Parse uc (render_chain ch k)) (\<lambda>t. Ret (Eval t ctx game)) =
    Ret (Ret (num_of (chain_val ch k ctx game)))"
  using Parse_render [OF assms(1), of uc k] eval_single [OF chain_value_node]
    denotes_number [OF form_denotes(2) [OF assms(2), THEN conjunct1] assms(3)]
  by (simp add: Eval_def)

definition selected :: "chain \<Rightarrow> connective \<Rightarrow> string \<Rightarrow> server \<Rightarrow> bool" where
  "selected ch k game s \<longleftrightarrow> mget s ''gamename'' = game \<and> num_of (chain_val ch k s game) \<noteq> 0"

definition searchable :: "chain \<Rightarrow> connective \<Rightarrow> string \<Rightarrow> server \<Rightarrow> bool" where
  "searchable ch k game s \<longleftrightarrow> (mget s ''gamename'' = game \<longrightarrow> chain_safe ch k s game \<and> is_num (chain_val ch k s game))"

lemma filter_loop_selects:
  assumes "\<And>s. s \<in> set servers \<Longrightarrow> mget s ''gamename'' = game \<Longrightarrow> Eval t s game = Ret (f s)"
  shows "filter_loop t game servers acc = Ret (acc @ filter (\<lambda>s. mget s ''gamename'' = game \<and> f s \<noteq> 0) servers)"
  using assms
proof (induction servers arbitrary: acc)
  case (Cons s servers)
  then have "filter_loop t game servers b = Ret (b @ filter (\<lambda>s. mget s ''gamename'' = game \<and> f s \<noteq> 0) servers)" for b by simp
  moreover have "mget s ''gamename'' = game \<Longrightarrow> Eval t s game = Ret (f s)" using Cons.prems by simp
  ultimately show ?case by (cases "mget s ''gamename'' = game") simp_all
qed simp

text \<open>C14. A search in the form the game library sends returns, in order, exactly the servers of the queried
  game for which the expression is not 0, as long as no server makes it use a text as a number.
\<close>

theorem search_selects:
  assumes "chain_ok ch" and "list_all (searchable ch k game) servers"
  shows "filterServers uc servers game (render_chain ch k) = Ret (filter (selected ch k game) servers)"
proof -
  have "Eval (TreeNode EmptyToken [chain_tree ch k]) s game = Ret (num_of (chain_val ch k s game))"
    if "s \<in> set servers" "mget s ''gamename'' = game" for s
  proof -
    have "searchable ch k game s" using assms(2) that by (simp add: list_all_iff)
    then have "chain_safe ch k s game" "is_num (chain_val ch k s game)" using that(2) by (simp_all add: searchable_def)
    then show ?thesis
      using eval_single [OF chain_value_node] denotes_number form_denotes(2) by (simp add: Eval_def)
  qed
  from filter_loop_selects [OF this] show ?thesis
    by (simp add: filterServers_def Parse_render [OF assms(1)] selected_def [abs_def])
qed

definition sample_search :: chain where
  "sample_search = Then (Then (First (Cmp (Var ''dwc_pid'') Ne (Num 43))) (Cmp (Var ''numplayers'') Lt (Num 11)))
     (One (Sub Conj (First (Cmp (Var ''rk'') Eq (Str ''vs'')))))"

definition sample_server :: "string \<Rightarrow> server" where
  "sample_server n = [''gamename'' \<mapsto> ''mariokartwii'', ''dwc_pid'' \<mapsto> ''7'', ''numplayers'' \<mapsto> n, ''rk'' \<mapsto> ''vs_1'']"

lemma numeral_texts [simp]:
  "format_int 43 = ''43''" "format_int 11 = ''11''" "parse_int 64 ''3'' = Some 3" "parse_int 64 ''12'' = Some 12"
  by (simp_all add: format_int_def format_uint.simps digit_chars parse_int_def digit_val_def Let_def)

lemma sample_search_text:
  "render_chain sample_search Conj = ''dwc_pid != 43 and numplayers < 11 and (rk = '' @ [CHR 0x27] @ ''vs'' @ [CHR 0x27] @ '')''"
  by (simp add: sample_search_def)

lemma of_bool64_simps [simp]: "of_bool64 True = 1" "of_bool64 False = 0"
  by (simp_all add: of_bool64_def)

lemma truthy_numbers [simp]: "truthy (Number 1)" "\<not> truthy (Number 0)"
  using truthy_bool [of True] truthy_bool [of False] by (simp_all del: truthy_bool)

theorem search_selects_witness:
  "\<forall>uc. filterServers uc [sample_server ''3'', sample_server ''12''] ''mariokartwii'' (render_chain sample_search Conj)
     = Ret [sample_server ''3'']"
proof
  fix uc
  have ok: "chain_ok sample_search"
    by (simp add: sample_search_def letter_char_def word_char_def ascii_letter_def ascii_digit_def rune_def ascii_char_def)
  have w: "worldwide ''vs_1'' = ''vs''" "worldwide ''vs'' = ''vs''"
    by (simp_all add: worldwide_def regional_def)
  have safe: "list_all (searchable sample_search Conj ''mariokartwii'') [sample_server ''3'', sample_server ''12'']"
    by (simp add: searchable_def sample_search_def sample_server_def mget_def on_strings_def)
  have "filter (selected sample_search Conj ''mariokartwii'') [sample_server ''3'', sample_server ''12''] = [sample_server ''3'']"
    by (simp add: selected_def sample_search_def sample_server_def mget_def compare_def combine_def w unrated_def)
  then show "filterServers uc [sample_server ''3'', sample_server ''12''] ''mariokartwii'' (render_chain sample_search Conj)
     = Ret [sample_server ''3'']"
    using search_selects [OF ok safe, of uc] by simp
qed

subsection \<open>What goes wrong\<close>

lemma filter_loop_skips:
  assumes "list_all (\<lambda>s. mget s ''gamename'' \<noteq> game) pre"
  shows "filter_loop t game (pre @ servers) acc = filter_loop t game servers acc"
  using assms by (induction pre) simp_all

text \<open>One server that announces no number under a name is enough to end the back end: when a search compares
  that name as a number, the panic of the conversion is not a string, so the deferred recover panics
  again, and the error is not confined to the search that caused it.
\<close>

theorem search_panics:
  assumes "operand_ok (Var x)" and "operand_ok (Num n)" and "\<not> on_strings q" and "\<not> unrated game (Var x)"
    and "list_all (\<lambda>s. mget s ''gamename'' \<noteq> game) pre"
    and "mget s ''gamename'' = game" and "parse_int 64 (mget s x) = None"
  shows "filterServers uc (pre @ s # post) game (render_clause (Cmp (Var x) q (Num n))) = Panic"
proof -
  let ?c = "Cmp (Var x) q (Num n)"
  have r: "\<not> rating_field game (IdentityToken x)" using assms(4) by (simp add: rating_field_def unrated_def)
  have "getNumber s game (operand_tree (Var x)) = Panic" using assms(7) by (simp add: getNumber.simps toInt64_def)
  moreover have "switchFunction s game (clause_tree ?c) = evalMathOperator game (arith_result q)
      [operand_tree (Var x), operand_tree (Num n)]
      [getNumber s game (operand_tree (Var x)), getNumber s game (operand_tree (Num n))]"
    using spelling_strings [OF assms(3)] math_spelling [OF assms(3)] lower_spelling [of q]
    by (simp add: switchFunction.simps apply_operator_def)
  ultimately have "switchFunction s game (clause_tree ?c) = Panic" using r by (simp add: evalMathOperator_def)
  then have "Eval (TreeNode EmptyToken [clause_tree ?c]) s game = Panic"
    using eval_single [OF clause_value_node, of s game EmptyToken ?c] by (simp add: Eval_def getNumber.simps)
  moreover have "Parse uc (render_clause ?c) = Ret (TreeNode EmptyToken [clause_tree ?c])"
    using Parse_render [of "First ?c" uc Conj] assms(1,2) by simp
  ultimately show ?thesis
    using filter_loop_skips [OF assms(5)] assms(6) by (simp add: filterServers_def)
qed

theorem search_panics_witness:
  "\<forall>uc. filterServers uc ([] @ [''gamename'' \<mapsto> ''g''] # []) ''g'' (render_clause (Cmp (Var ''n'') Lt (Num 11))) = Panic"
proof
  fix uc
  show "filterServers uc ([] @ [''gamename'' \<mapsto> ''g''] # []) ''g'' (render_clause (Cmp (Var ''n'') Lt (Num 11))) = Panic"
    by (rule search_panics)
      (simp_all add: letter_char_def word_char_def ascii_letter_def rune_def on_strings_def unrated_def mget_def)
qed

text \<open>Precedence is lost after a comparison: \<open>a or b = c and d\<close> is parsed as \<open>(a or b = c) and d\<close>, although \<open>and\<close>
  is listed as binding tighter than \<open>or\<close>, because the climb past the comparison does not stop at an
  operator of lower precedence.
\<close>

theorem or_binds_tighter:
  assumes "operand_ok a" and "operand_ok b" and "operand_ok c" and "operand_ok d"
  shows "Parse uc (render_operand a @ '' or '' @ render_operand b @ '' = '' @ render_operand c @ '' and '' @ render_operand d) =
    Ret (TreeNode EmptyToken
      [TreeNode (OperatorToken ''and'')
        [TreeNode (OperatorToken ''or'')
          [operand_tree a, TreeNode (OperatorToken ''='') [operand_tree b, operand_tree c]],
         operand_tree d]])"
proof -
  let ?inp = "render_operand a @ '' or '' @ render_operand b @ '' = '' @ render_operand c @ '' and '' @ render_operand d"
  let ?ab = "render_operand a @ '' or '' @ render_operand b" and ?bc = "render_operand b @ '' = '' @ render_operand c"
  have ops: "query_operator ''or''" "query_operator ''and''" "query_operator ''=''"
    using query_operators(1) [of Disj] query_operators(1) [of Conj] query_operators(2) [of Eq] by simp_all
  have or_joins: "joins (OperatorToken ''or'')" using connective_word.simps(2) by (metis joins_def)
  define eqn where "eqn = TreeNode (OperatorToken ''='') [operand_tree b, operand_tree c]"
  have first: "parses uc (render_operand a) (Cursor (TreeNode EmptyToken []) [])
      (Cursor (TreeNode EmptyToken ([] @ [operand_tree a])) [])"
    using parses_form(1) [OF assms(1)] .
  have por: "push_operator ''or'' (Cursor (TreeNode EmptyToken ([] @ [operand_tree a])) []) =
      Ret (Cursor (TreeNode (OperatorToken ''or'') [operand_tree a]) [(EmptyToken, [])])"
    using push_connective [of EmptyToken Disj "First (One a)" "[]"] by (simp add: prior_def)
  have bc: "parses uc (render_clause (Cmp b Eq c)) (Cursor (TreeNode (OperatorToken ''or'') [operand_tree a]) [(EmptyToken, [])])
      (clause_cursor (Cmp b Eq c) (OperatorToken ''or'') [operand_tree a] [(EmptyToken, [])])"
    using parses_form(3) [of "Cmp b Eq c"] assms or_joins by simp
  have lv: "Level ''and'' = 2" "Level ''='' = 3" "Level ''or'' = 1" by code_simp+
  have top: "climb_operators (Cursor t [(EmptyToken, [])]) = Ret (Cursor t [(EmptyToken, [])])" for t
    by (subst climb_operators.simps) simp
  have climb: "climb_operators (Cursor eqn [(OperatorToken ''or'', [operand_tree a]), (EmptyToken, [])]) =
      Ret (Cursor (TreeNode (OperatorToken ''or'') [operand_tree a, eqn]) [(EmptyToken, [])])"
    using lv top by (subst climb_operators.simps) simp
  have pand: "push_operator ''and'' (clause_cursor (Cmp b Eq c) (OperatorToken ''or'') [operand_tree a] [(EmptyToken, [])]) =
      Ret (Cursor (TreeNode (OperatorToken ''and'') [TreeNode (OperatorToken ''or'') [operand_tree a, eqn]]) [(EmptyToken, [])])"
    using lv climb
    by (simp add: push_operator_def Precedence_def NewOperatorToken_def Push_def eqn_def)
  have last: "parses uc (render_operand d)
      (Cursor (TreeNode (OperatorToken ''and'') [TreeNode (OperatorToken ''or'') [operand_tree a, eqn]]) [(EmptyToken, [])])
      (Cursor (TreeNode (OperatorToken ''and'') ([TreeNode (OperatorToken ''or'') [operand_tree a, eqn]] @ [operand_tree d])) [(EmptyToken, [])])"
    using parses_form(1) [OF assms(4)] .
  have all: "parses uc ?inp (Cursor (TreeNode EmptyToken []) [])
      (Cursor (TreeNode (OperatorToken ''and'') ([TreeNode (OperatorToken ''or'') [operand_tree a, eqn]] @ [operand_tree d])) [(EmptyToken, [])])"
    using parses_operator [OF parses_operator [OF first por ops(1) bc] pand ops(2) last] by simp
  have asc: "list_all ascii_char ?inp"
    using assms render_ascii(1) by (simp add: ascii_char_def)
  let ?p = "\<lparr>scan = NewScanner ?inp, curr = Cursor (TreeNode EmptyToken []) []\<rparr>"
  have "at_text (scan ?p) ([] @ ?inp @ [])"
    using asc by (simp add: at_text_def NewScanner_def scanner_ok_def positions_def)
  from parsesD [OF all this] obtain p' where p': "reaches uc (ValuePart, ?p) (OperatorPart, p')" "at_text (scan p') []"
    "curr p' = Cursor (TreeNode (OperatorToken ''and'') ([TreeNode (OperatorToken ''or'') [operand_tree a, eqn]] @ [operand_tree d])) [(EmptyToken, [])]"
    by auto
  have "Parse uc ?inp = Ret (Root (curr p'))" using Parse_reaches [OF p'(1,2)] .
  then show ?thesis using p'(3) by (simp add: Root_def eqn_def)
qed

theorem or_binds_tighter_witness:
  "\<forall>uc. Parse uc (render_operand (Var ''a'') @ '' or '' @ render_operand (Var ''b'') @ '' = '' @ render_operand (Var ''c'') @ '' and '' @
      render_operand (Var ''d'')) =
    Ret (TreeNode EmptyToken
      [TreeNode (OperatorToken ''and'')
        [TreeNode (OperatorToken ''or'')
          [operand_tree (Var ''a''), TreeNode (OperatorToken ''='') [operand_tree (Var ''b''), operand_tree (Var ''c'')]],
         operand_tree (Var ''d'')]])"
  by (intro allI or_binds_tighter) (simp_all add: letter_char_def word_char_def ascii_letter_def rune_def)

subsection \<open>LIKE\<close>

text \<open>The meaning of a LIKE pattern without escapes: a percent sign is any text, an underscore one code point.\<close>

fun sql_like :: "string \<Rightarrow> nat list \<Rightarrow> bool" where
  "sql_like [] s \<longleftrightarrow> s = []"
| "sql_like (c # p) s \<longleftrightarrow>
     (if c = CHR ''%'' then list_ex (\<lambda>n. sql_like p (drop n s)) [0..<Suc (length s)]
      else if c = CHR ''_'' then s \<noteq> [] \<and> sql_like p (tl s)
      else s \<noteq> [] \<and> hd s = of_char c \<and> sql_like p (tl s))"

definition plain_pattern :: "string \<Rightarrow> bool" where
  "plain_pattern p \<longleftrightarrow> list_all (\<lambda>c. c \<in> set allowedCharacters \<and> c \<noteq> CHR 0x5C) p"

definition rune_atom :: "nat \<Rightarrow> atom" where
  "rune_atom n = (if n = of_char CHR ''%'' then AnyString else if n = of_char CHR ''_'' then AnyRune else Literal n)"

definition pattern_atom :: "char \<Rightarrow> atom" where
  "pattern_atom c = rune_atom (of_char c)"

lemma pattern_atom_cases:
  "pattern_atom CHR ''%'' = AnyString" "pattern_atom CHR ''_'' = AnyRune"
  "c \<noteq> CHR ''%'' \<Longrightarrow> c \<noteq> CHR ''_'' \<Longrightarrow> pattern_atom c = Literal (of_char c)"
  unfolding pattern_atom_def rune_atom_def of_char_eq_iff by simp_all

lemma allowed_ascii: "c \<in> set allowedCharacters \<Longrightarrow> (of_char c :: nat) < 128"
  by (auto simp: allowedCharacters_def)

lemma plain_runes: "plain_pattern p \<Longrightarrow> runes i (bytes_of p) = zip [i..<i + length p] (map of_char p)"
proof -
  assume "plain_pattern p"
  then have "ascii (bytes_of p)"
    using allowed_ascii by (auto simp: plain_pattern_def ascii_def bytes_of_def list_all_iff)
  then show ?thesis using runes_ascii [of "bytes_of p" i] by (simp add: bytes_of_def comp_def)
qed

lemma like_atoms_plain:
  assumes "plain_pattern q" and "set (map snd r) \<subseteq> of_char ` set q" and "\<forall>(i, c) \<in> set r. i \<le> length q"
  shows "like_atoms (bytes_of q) r = Ret (map rune_atom (map snd r))"
  using assms
proof (induction r)
  case (Cons x r)
  obtain i c where x: "x = (i, c)" by fastforce
  obtain d where d: "c = of_char d" "d \<in> set q" using Cons.prems(2) x by auto
  have ok: "d \<in> set allowedCharacters" "d \<noteq> CHR 0x5C" using Cons.prems(1) d by (auto simp: plain_pattern_def list_all_iff)
  have nb: "c \<noteq> backslash"
  proof
    assume "c = backslash"
    then have "(of_char d :: nat) = of_char CHR 0x5C" using d by (simp add: backslash_def)
    then show False using ok by (simp only: of_char_eq_iff)
  qed
  have prev: "i \<noteq> 0 \<Longrightarrow> unat (bytes_of q ! (i - 1)) \<noteq> backslash"
  proof
    assume i: "i \<noteq> 0" and b: "unat (bytes_of q ! (i - 1)) = backslash"
    have "i - 1 < length q" using Cons.prems(3) x i by auto
    then have m: "q ! (i - 1) \<in> set q" and "unat (bytes_of q ! (i - 1)) = of_char (q ! (i - 1))" by (simp_all add: bytes_of_def)
    then have "(of_char (q ! (i - 1)) :: nat) = of_char CHR 0x5C" using b by (simp add: backslash_def)
    then have "q ! (i - 1) = CHR 0x5C" by (simp only: of_char_eq_iff)
    then show False using m Cons.prems(1) by (auto simp: plain_pattern_def list_all_iff)
  qed
  have "c \<in> of_char ` set allowedCharacters" using d ok by blast
  then show ?case using Cons x nb prev by (auto simp: atoms_of_def rune_atom_def)
qed simp

lemma regexp_like:
  assumes "10 \<notin> set s"
  shows "regexp_matches (map pattern_atom p) s = sql_like p s"
  using assms
proof (induction p arbitrary: s)
  case (Cons c p)
  have any: "regexp_matches (AnyString # map pattern_atom p) u = (\<exists>n \<le> length u. sql_like p (drop n u))"
    if "10 \<notin> set u" for u
    using that
  proof (induction u)
    case Nil
    then show ?case using Cons.IH [of "[]"] by simp
  next
    case (Cons x u)
    have "(\<exists>n \<le> length (x # u). sql_like p (drop n (x # u))) \<longleftrightarrow> sql_like p (x # u) \<or> (\<exists>n \<le> length u. sql_like p (drop n u))"
      by (metis drop0 drop_Suc_Cons le0 length_Cons not0_implies_Suc not_less_eq_eq)
    then show ?case using Cons \<open>\<And>s. 10 \<notin> set s \<Longrightarrow> _\<close> [of "x # u"] by auto
  qed
  have ex: "list_ex P [0..<Suc n] = (\<exists>k \<le> n. P k)" for P and n :: nat by (auto simp: list_ex_iff less_Suc_eq_le simp del: upt_Suc)
  show ?case
  proof (cases "c = CHR ''%''")
    case True
    then show ?thesis using any [OF Cons.prems] ex by (simp add: pattern_atom_cases del: upt_Suc)
  next
    case False
    have tl: "regexp_matches (map pattern_atom p) r = sql_like p r" "x \<noteq> 10" if "s = x # r" for x r
      using Cons.IH [of r] Cons.prems that by simp_all
    show ?thesis
      using False tl by (cases "c = CHR ''_''"; cases s) (simp_all add: pattern_atom_cases)
  qed
qed simp

text \<open>C33. For patterns without escapes, the regular expression that LIKE builds matches exactly the values that
  the pattern means, provided that the value has no newline, which a dot does not match.
\<close>

theorem like_reference:
  assumes "plain_pattern p" and "10 \<notin> set (code_points (bytes_of v))"
  shows "evalLikeSingle v p = Ret (of_bool64 (sql_like p (code_points (bytes_of v))))"
proof -
  let ?r = "zip [0..<length p] (map of_char p) :: (nat \<times> nat) list"
  have r: "runes 0 (bytes_of p) = ?r" using plain_runes [OF assms(1), of 0] by simp
  have "like_atoms (bytes_of p) ?r = Ret (map rune_atom (map snd ?r))"
    by (rule like_atoms_plain) (auto simp: assms(1) dest: set_zip_leftD)
  also have "map rune_atom (map snd ?r) = map pattern_atom p" by (simp add: pattern_atom_def)
  finally show ?thesis using r regexp_like [OF assms(2)] by (simp add: evalLikeSingle_def)
qed

theorem like_reference_witness:
  "evalLikeSingle ''vs_1'' ''v%1'' = Ret (of_bool64 (sql_like ''v%1'' (code_points (bytes_of ''vs_1''))))"
proof (rule like_reference)
  show "plain_pattern ''v%1''" by (simp add: plain_pattern_def allowedCharacters_def)
  show "10 \<notin> set (code_points (bytes_of ''vs_1''))"
    by (simp add: code_points_def runes_ascii ascii_def bytes_of_def)
qed

text \<open>An escaped backslash makes the next wildcard literal, because only the byte before it is looked at.\<close>

lemma escaped_backslash:
  "like_atoms (bytes_of [CHR 0x5C, CHR 0x5C, CHR ''%'']) (runes 0 (bytes_of [CHR 0x5C, CHR 0x5C, CHR ''%''])) =
     Ret [Literal backslash, Literal (of_char CHR ''%'')]"
  by code_simp

end
