(* ===== verification/ServerList.thy ===== *)
theory ServerList
  imports FilterMeaning Qr2 TypeX SBFraming
begin

text \<open>
  \<open>serverbrowser/server.go\<close>: the request for a list of servers and its reply, which combines the table of
  game servers (\<open>Qr2\<close>), the search expression (\<open>FilterEval\<close>) and the cipher (\<open>TypeX\<close>), and the request to
  pass a message on. Positions in the request only grow from 9, so the code's checks for negative ones
  never apply. \<open>address\<close> is the text of the client's address that the front end passes.
\<close>

definition UnsolicitedUDPFlag :: u8 where "UnsolicitedUDPFlag = 0x01"
definition PrivateIPFlag :: u8 where "PrivateIPFlag = 0x02"
definition ConnectNegotiateFlag :: u8 where "ConnectNegotiateFlag = 0x04"
definition ICMPIPFlag :: u8 where "ICMPIPFlag = 0x08"
definition NonstandardPortFlag :: u8 where "NonstandardPortFlag = 0x10"
definition NonstandardPrivatePortFlag :: u8 where "NonstandardPrivatePortFlag = 0x20"
definition HasKeysFlag :: u8 where "HasKeysFlag = 0x40"

definition NoServerListOption :: u32 where "NoServerListOption = 0x02"

subsection \<open>The request\<close>

definition popString :: "bytes \<Rightarrow> nat \<Rightarrow> (string \<times> nat) option" where
  "popString buffer index =
     (if length buffer \<le> index then None
      else case GetString (drop index buffer) of
        None \<Rightarrow> None
      | Some str \<Rightarrow> Some (str, index + length str + 1))"

definition popBytes :: "bytes \<Rightarrow> nat \<Rightarrow> nat \<Rightarrow> (bytes \<times> nat) option" where
  "popBytes buffer index n =
     (if length buffer \<le> index \<or> length buffer < index + n then None
      else Some (subslice index (index + n) buffer, index + n))"

definition popUint32 :: "bytes \<Rightarrow> nat \<Rightarrow> (u32 \<times> nat) option" where
  "popUint32 buffer index =
     (case get_be32 (drop index buffer) of None \<Rightarrow> None | Some v \<Rightarrow> Some (v, index + 4))"

record list_request =
  queryGame :: string
  gameName :: string
  challenge :: bytes
  filterText :: string
  fieldsText :: string
  options :: u32

definition parse_list_request :: "bytes \<Rightarrow> list_request option" where
  "parse_list_request buffer =
     (case popString buffer 9 of None \<Rightarrow> None | Some (qg, i1) \<Rightarrow>
      case popString buffer i1 of None \<Rightarrow> None | Some (gn, i2) \<Rightarrow>
      case popBytes buffer i2 8 of None \<Rightarrow> None | Some (ch, i3) \<Rightarrow>
      case popString buffer i3 of None \<Rightarrow> None | Some (fl, i4) \<Rightarrow>
      case popString buffer i4 of None \<Rightarrow> None | Some (fs, i5) \<Rightarrow>
      case popUint32 buffer i5 of None \<Rightarrow> None | Some (os, _) \<Rightarrow>
        Some \<lparr>queryGame = qg, gameName = gn, challenge = ch, filterText = fl, fieldsText = fs, options = os\<rparr>)"

definition wants_list :: "list_request \<Rightarrow> bool" where
  "wants_list r \<longleftrightarrow> options r AND NoServerListOption = 0"

text \<open>The fields asked for, without the ones that are in the address of every server.\<close>

definition private_field :: "string \<Rightarrow> bool" where
  "private_field f \<longleftrightarrow>
     f = ''publicip'' \<or> f = ''publicport'' \<or> has_prefix f ''localip'' \<or> f = ''localport''"

definition field_list :: "list_request \<Rightarrow> string list" where
  "field_list r =
     (if wants_list r then
        filter (\<lambda>f. f \<noteq> [] \<and> f \<noteq> '' '' \<and> \<not> private_field f) (split_char CHR 0x5C (fieldsText r))
      else [])"

subsection \<open>The reply\<close>

text \<open>\<open>strconv.Atoi\<close> on a part of the address; the code panics with its error.\<close>

definition address_part :: "string \<Rightarrow> (unit, int) outcome" where
  "address_part s = (case atoi s of None \<Rightarrow> Panic | Some v \<Rightarrow> Ret v)"

fun address_parts :: "string list \<Rightarrow> (unit, bytes) outcome" where
  "address_parts [] = Ret []"
| "address_parts (s # ss) =
     bind_outcome (address_part s) (\<lambda>v. bind_outcome (address_parts ss) (\<lambda>bs. Ret (of_int v # bs)))"

definition client_address :: "string \<Rightarrow> (unit, bytes) outcome" where
  "client_address address =
     (let parts = split_char CHR '':'' address in
      bind_outcome (address_parts (split_char CHR ''.'' (hd parts))) (\<lambda>ip.
      bind_outcome (at parts 1) (\<lambda>p.
      bind_outcome (address_part p) (\<lambda>port. Ret (ip @ be16 (of_int port))))))"

definition cstring :: "string \<Rightarrow> bytes" where "cstring s = bytes_of s @ [0]"

definition encode_fields :: "string list \<Rightarrow> bytes" where
  "encode_fields fs = [of_nat (length fs)] @ concat (map (\<lambda>f. 0 # cstring f) fs) @ [0]"

fun local_ip_bytes :: "string list \<Rightarrow> bytes option" where
  "local_ip_bytes [] = Some []"
| "local_ip_bytes (s # ss) =
     (case parse_uint 8 s of None \<Rightarrow> None | Some v \<Rightarrow> map_option ((#) (of_nat v)) (local_ip_bytes ss))"

definition public_port :: "server \<Rightarrow> string option" where
  "public_port s = (case s ''publicport'' of None \<Rightarrow> s ''localport'' | Some p \<Rightarrow> Some p)"

definition private_ip :: "server \<Rightarrow> bytes option option" where
  "private_ip s =
     (case s ''localip0'' of
        None \<Rightarrow> Some None
      | Some ip \<Rightarrow>
          let parts = split_char CHR ''.'' ip in
          if length parts \<noteq> 4 then None else map_option Some (local_ip_bytes parts))"

definition private_port :: "server \<Rightarrow> u16 option option" where
  "private_port s =
     (case s ''localport'' of
        None \<Rightarrow> Some None
      | Some p \<Rightarrow> map_option (\<lambda>v. Some (of_nat v)) (parse_uint 16 p))"

definition optional_flag :: "u8 \<Rightarrow> 'a option \<Rightarrow> u8" where
  "optional_flag flag v = (if v = None then 0 else flag)"

definition optional_bytes :: "('a \<Rightarrow> bytes) \<Rightarrow> 'a option \<Rightarrow> bytes" where
  "optional_bytes f v = (case v of None \<Rightarrow> [] | Some x \<Rightarrow> f x)"

definition field_value :: "server \<Rightarrow> string \<Rightarrow> bytes" where
  "field_value s f = 0xff # bytes_of (mget s f) @ [0]"

text \<open>One server of the reply; \<open>None\<close> is one the loop skips because its address cannot be used.\<close>

definition encode_server :: "string list \<Rightarrow> server \<Rightarrow> bytes option" where
  "encode_server fs s =
     (case s ''publicip'' of None \<Rightarrow> None | Some publicip \<Rightarrow>
      case parse_int 32 publicip of None \<Rightarrow> None | Some ip \<Rightarrow>
      case public_port s of None \<Rightarrow> None | Some port \<Rightarrow>
      case parse_uint 16 port of None \<Rightarrow> None | Some portValue \<Rightarrow>
      case private_ip s of None \<Rightarrow> None | Some localip \<Rightarrow>
      case private_port s of None \<Rightarrow> None | Some localport \<Rightarrow>
        let negotiate = (case s ''natneg'' of None \<Rightarrow> False | Some n \<Rightarrow> n \<noteq> ''0'');
            flags = HasKeysFlag OR (if negotiate then ConnectNegotiateFlag else 0) OR NonstandardPortFlag
              OR optional_flag PrivateIPFlag localip OR optional_flag NonstandardPrivatePortFlag localport OR ICMPIPFlag
        in Some ([flags] @ be32 (of_int ip) @ be16 (of_nat portValue) @ optional_bytes (\<lambda>b. b) localip
             @ optional_bytes be16 localport @ [0, 0, 0, 0] @ concat (map (field_value s) fs)))"

definition encode_servers :: "string list \<Rightarrow> server list \<Rightarrow> bytes" where
  "encode_servers fs servers = concat (map (\<lambda>s. case encode_server fs s of None \<Rightarrow> [] | Some b \<Rightarrow> b) servers)"

text \<open>The servers of the table are read only when the request has a filter.\<close>

definition listed_servers ::
  "unicode \<Rightarrow> int \<Rightarrow> u64 list \<Rightarrow> list_request \<Rightarrow> qr2_state \<Rightarrow> (unit, qr2_state \<times> server list) outcome" where
  "listed_servers uc now order r st =
     (if wants_list r \<and> filterText r \<noteq> [] \<and> filterText r \<noteq> '' '' \<and> filterText r \<noteq> ''0'' then
        (case GetSessionServers now order st of (st', servers) \<Rightarrow>
           bind_outcome (filterServers uc servers (queryGame r) (filterText r)) (\<lambda>sel. Ret (st', sel)))
      else Ret (st, []))"

definition list_output :: "list_request \<Rightarrow> bytes \<Rightarrow> server list \<Rightarrow> bytes" where
  "list_output r addr servers =
     addr @ encode_fields (field_list r) @ encode_servers (field_list r) servers
       @ (if wants_list r then [0x00, 0xff, 0xff, 0xff, 0xff] else [])"

record list_env =
  Unicode :: unicode
  Games :: game_list
  Now :: int
  Order :: "u64 list"
  HeaderRandom :: bytes
  KeyRandom :: bytes

text \<open>The new table of game servers and the packet that is sent, if any.\<close>

definition handleServerListRequest ::
  "list_env \<Rightarrow> string \<Rightarrow> bytes \<Rightarrow> qr2_state \<Rightarrow> (unit, qr2_state \<times> bytes option) outcome" where
  "handleServerListRequest env address buffer st =
     (case parse_list_request buffer of
        None \<Rightarrow> Ret (st, None)
      | Some r \<Rightarrow>
          case GetGameInfoByName (Games env) (gameName r) of
            None \<Rightarrow> Ret (st, None)
          | Some info \<Rightarrow>
              bind_outcome (client_address address) (\<lambda>addr.
              bind_outcome (listed_servers (Unicode env) (Now env) (Order env) r st) (\<lambda>(st', servers).
              bind_outcome
                (EncryptTypeX (bytes_of (SecretKey info)) (challenge r) (list_output r addr servers)
                  (HeaderRandom env) (KeyRandom env))
                (\<lambda>packet. Ret (st', Some packet)))))"

text \<open>The address and the message of a request to pass a message on; a request of less than nine bytes
  panics when it is sliced.\<close>

definition handleSendMessageRequest :: "bytes \<Rightarrow> qr2_state \<Rightarrow> (unit, qr2_state \<times> qr2_out option) outcome" where
  "handleSendMessageRequest buffer st =
     (if length buffer < 9 then Panic
      else
        let dest = \<lparr>IP = of_nat (uint_be (subslice 3 7 buffer)), Port = of_nat (uint_be (subslice 7 9 buffer))\<rparr>
        in Ret (SendClientMessage dest (drop 9 buffer) st))"

subsection \<open>What the client reads\<close>

text \<open>
  The request as the game library writes it, and its reading of the reply: its own address, the names of
  the fields, and the servers, each led by its flags, up to a server without flags at 255.255.255.255.
\<close>

definition write_list_request :: "bytes \<Rightarrow> list_request \<Rightarrow> bytes" where
  "write_list_request header r =
     header @ cstring (queryGame r) @ cstring (gameName r) @ challenge r @ cstring (filterText r)
       @ cstring (fieldsText r) @ be32 (options r)"

definition read_cstring :: "bytes \<Rightarrow> (string \<times> bytes) option" where
  "read_cstring bs = map_option (\<lambda>s. (s, drop (Suc (length s)) bs)) (GetString bs)"

fun read_names :: "nat \<Rightarrow> bytes \<Rightarrow> (string list \<times> bytes) option" where
  "read_names 0 bs = (case bs of b # r \<Rightarrow> if b = 0 then Some ([], r) else None | [] \<Rightarrow> None)"
| "read_names (Suc n) bs =
     (case bs of
        b # r \<Rightarrow>
          if b \<noteq> 0 then None
          else (case read_cstring r of
            None \<Rightarrow> None
          | Some (f, r') \<Rightarrow> map_option (\<lambda>(fs, r''). (f # fs, r'')) (read_names n r'))
      | [] \<Rightarrow> None)"

fun read_values :: "nat \<Rightarrow> bytes \<Rightarrow> (string list \<times> bytes) option" where
  "read_values 0 bs = Some ([], bs)"
| "read_values (Suc n) bs =
     (case bs of
        b # r \<Rightarrow>
          if b \<noteq> 0xff then None
          else (case read_cstring r of
            None \<Rightarrow> None
          | Some (v, r') \<Rightarrow> map_option (\<lambda>(vs, r''). (v # vs, r'')) (read_values n r'))
      | [] \<Rightarrow> None)"

record entry =
  PublicIP :: u32
  PublicPort :: u16
  LocalIP :: "bytes option"
  LocalPort :: "u16 option"
  Negotiate :: bool
  Values :: "string list"

definition read_part :: "bool \<Rightarrow> nat \<Rightarrow> bytes \<Rightarrow> (bytes option \<times> bytes) option" where
  "read_part present n bs =
     (if \<not> present then Some (None, bs)
      else if length bs < n then None else Some (Some (take n bs), drop n bs))"

definition has_flag :: "u8 \<Rightarrow> u8 \<Rightarrow> bool" where "has_flag flags f \<longleftrightarrow> flags AND f \<noteq> 0"

definition read_server :: "nat \<Rightarrow> u8 \<Rightarrow> bytes \<Rightarrow> (entry \<times> bytes) option" where
  "read_server n flags bs =
     (case read_part True 4 bs of None \<Rightarrow> None | Some (ip, r1) \<Rightarrow>
      case read_part (has_flag flags NonstandardPortFlag) 2 r1 of None \<Rightarrow> None | Some (port, r2) \<Rightarrow>
      case read_part (has_flag flags PrivateIPFlag) 4 r2 of None \<Rightarrow> None | Some (lip, r3) \<Rightarrow>
      case read_part (has_flag flags NonstandardPrivatePortFlag) 2 r3 of None \<Rightarrow> None | Some (lport, r4) \<Rightarrow>
      case read_part (has_flag flags ICMPIPFlag) 4 r4 of None \<Rightarrow> None | Some (icmp, r5) \<Rightarrow>
      case read_values (if has_flag flags HasKeysFlag then n else 0) r5 of None \<Rightarrow> None | Some (vs, r6) \<Rightarrow>
        Some (\<lparr>PublicIP = of_nat (uint_be (the ip)), PublicPort = (case port of None \<Rightarrow> 6500 | Some p \<Rightarrow> of_nat (uint_be p)),
          LocalIP = lip, LocalPort = map_option (\<lambda>p. of_nat (uint_be p)) lport,
          Negotiate = has_flag flags ConnectNegotiateFlag, Values = vs\<rparr>, r6))"

lemma read_values_shorter: "read_values n bs = Some (vs, r) \<Longrightarrow> length r \<le> length bs"
proof (induction n arbitrary: bs vs)
  case (Suc n)
  then show ?case
    by (fastforce simp: read_cstring_def split: list.splits if_splits option.splits)
qed simp

lemma read_part_shorter: "read_part b n bs = Some (v, r) \<Longrightarrow> length r \<le> length bs"
  by (auto simp: read_part_def split: if_splits)

lemma read_server_shorter:
  assumes "read_server n flags bs = Some (e, r)"
  shows "length r \<le> length bs"
  using assms unfolding read_server_def
  by (auto split: option.splits prod.splits dest!: read_part_shorter read_values_shorter)

function read_servers :: "nat \<Rightarrow> bytes \<Rightarrow> entry list option" where
  "read_servers n bs =
     (case bs of
        [] \<Rightarrow> None
      | flags # r \<Rightarrow>
          if flags = 0 \<and> take 4 r = [0xff, 0xff, 0xff, 0xff] then Some []
          else (case read_server n flags r of
            None \<Rightarrow> None
          | Some (e, r') \<Rightarrow> map_option ((#) e) (read_servers n r')))"
  by pat_completeness auto
termination
proof (relation "measure (\<lambda>(n, bs). length bs)")
  fix n :: nat and bs r r' :: bytes and flags e x
  assume "bs = flags # r" "read_server n flags r = Some x" "(e, r') = x"
  then show "((n, r'), n, bs) \<in> measure (\<lambda>(n, bs). length bs)"
    using read_server_shorter [of n flags r e r'] by simp
qed simp

declare read_servers.simps [simp del]

definition read_reply :: "bytes \<Rightarrow> (u32 \<times> u16 \<times> string list \<times> entry list) option" where
  "read_reply bs =
     (case read_part True 4 bs of None \<Rightarrow> None | Some (ip, r1) \<Rightarrow>
      case read_part True 2 r1 of None \<Rightarrow> None | Some (port, r2) \<Rightarrow>
      case read_part True 1 r2 of None \<Rightarrow> None | Some (n, r3) \<Rightarrow>
      case read_names (unat (hd (the n))) r3 of None \<Rightarrow> None | Some (fs, r4) \<Rightarrow>
        map_option (\<lambda>es. (of_nat (uint_be (the ip)), of_nat (uint_be (the port)), fs, es)) (read_servers (length fs) r4))"

text \<open>What the announced pairs of a server mean to a client; \<open>None\<close> when they hold no usable address.\<close>

definition entry_of :: "string list \<Rightarrow> server \<Rightarrow> entry option" where
  "entry_of fs s =
     (case s ''publicip'' of None \<Rightarrow> None | Some publicip \<Rightarrow>
      case parse_int 32 publicip of None \<Rightarrow> None | Some ip \<Rightarrow>
      case public_port s of None \<Rightarrow> None | Some port \<Rightarrow>
      case parse_uint 16 port of None \<Rightarrow> None | Some portValue \<Rightarrow>
      case private_ip s of None \<Rightarrow> None | Some localip \<Rightarrow>
      case private_port s of None \<Rightarrow> None | Some localport \<Rightarrow>
        Some \<lparr>PublicIP = of_int ip, PublicPort = of_nat portValue, LocalIP = localip, LocalPort = localport,
          Negotiate = (case s ''natneg'' of None \<Rightarrow> False | Some n \<Rightarrow> n \<noteq> ''0''), Values = map (mget s) fs\<rparr>)"

definition no_nul :: "string \<Rightarrow> bool" where "no_nul s \<longleftrightarrow> CHR 0x00 \<notin> set s"

lemma bytes_no_nul: "no_nul s \<Longrightarrow> 0 \<notin> set (bytes_of s)"
proof
  assume "no_nul s" and "0 \<in> set (bytes_of s)"
  then obtain c where c: "c \<in> set s" "(of_char c :: u8) = 0" by (auto simp: bytes_of_def)
  then have "(of_char c :: nat) = of_char CHR 0x00" using unat_of_char_u8 [of c] by simp
  then have "c = CHR 0x00" by (simp only: of_char_eq_iff)
  then show False using c \<open>no_nul s\<close> by (simp add: no_nul_def)
qed

lemma GetString_cstring: "no_nul s \<Longrightarrow> GetString (bytes_of s @ 0 # r) = Some s"
proof -
  assume "no_nul s"
  then have z: "0 \<notin> set (bytes_of s)" by (rule bytes_no_nul)
  then have "takeWhile (\<lambda>b. b \<noteq> 0) (bytes_of s @ 0 # r) = bytes_of s"
    by (subst takeWhile_append2) auto
  then show ?thesis by (simp add: GetString_def)
qed

lemma read_cstring_cstring: "no_nul s \<Longrightarrow> read_cstring (cstring s @ r) = Some (s, r)"
  by (simp add: read_cstring_def cstring_def GetString_cstring)

lemma read_names_encode:
  "list_all no_nul fs \<Longrightarrow> read_names (length fs) (concat (map (\<lambda>f. 0 # cstring f) fs) @ 0 # r) = Some (fs, r)"
  by (induction fs) (simp_all add: read_cstring_cstring)

lemma read_values_encode:
  "list_all (\<lambda>f. no_nul (mget s f)) fs \<Longrightarrow>
     read_values (length fs) (concat (map (field_value s) fs) @ r) = Some (map (mget s) fs, r)"
proof (induction fs)
  case (Cons f fs)
  have "field_value s f = 0xff # cstring (mget s f)" by (simp add: field_value_def cstring_def)
  then show ?case using Cons read_cstring_cstring [of "mget s f" "concat (map (field_value s) fs) @ r"] by simp
qed simp

lemma read_part_hit: "length b = n \<Longrightarrow> read_part True n (b @ r) = Some (Some b, r)"
  by (simp add: read_part_def)

lemma read_part_miss: "read_part False n r = Some (None, r)"
  by (simp add: read_part_def)

lemma length_local_ip: "local_ip_bytes ss = Some b \<Longrightarrow> length b = length ss"
  by (induction ss arbitrary: b) (auto split: option.splits)

lemma length_private_ip: "private_ip s = Some (Some b) \<Longrightarrow> length b = 4"
  using length_local_ip by (fastforce simp: private_ip_def Let_def split: option.splits if_splits)

lemma flag_bits:
  fixes n p q :: bool
  defines "flags \<equiv> HasKeysFlag OR (if n then ConnectNegotiateFlag else 0) OR NonstandardPortFlag
      OR (if p then PrivateIPFlag else 0) OR (if q then NonstandardPrivatePortFlag else 0) OR ICMPIPFlag"
  shows "has_flag flags NonstandardPortFlag" and "has_flag flags PrivateIPFlag = p"
    and "has_flag flags NonstandardPrivatePortFlag = q" and "has_flag flags ICMPIPFlag"
    and "has_flag flags HasKeysFlag" and "has_flag flags ConnectNegotiateFlag = n" and "flags \<noteq> 0"
  unfolding flags_def has_flag_def
  by (cases n; cases p; cases q; simp add: HasKeysFlag_def ConnectNegotiateFlag_def NonstandardPortFlag_def
      PrivateIPFlag_def NonstandardPrivatePortFlag_def ICMPIPFlag_def)+

lemma optional_flag_if: "optional_flag f v = (if v \<noteq> None then f else 0)"
  by (simp add: optional_flag_def)

definition entry_flags :: "entry \<Rightarrow> u8" where
  "entry_flags e = HasKeysFlag OR (if Negotiate e then ConnectNegotiateFlag else 0) OR NonstandardPortFlag
     OR optional_flag PrivateIPFlag (LocalIP e) OR optional_flag NonstandardPrivatePortFlag (LocalPort e) OR ICMPIPFlag"

text \<open>The bytes of a server are those of its entry.\<close>

lemma encode_server_entry:
  "encode_server fs s = map_option (\<lambda>e. [entry_flags e] @ be32 (PublicIP e) @ be16 (PublicPort e)
     @ optional_bytes (\<lambda>b. b) (LocalIP e) @ optional_bytes be16 (LocalPort e) @ [0, 0, 0, 0]
     @ concat (map (field_value s) fs)) (entry_of fs s)"
  by (simp add: encode_server_def entry_of_def entry_flags_def Let_def split: option.splits)

lemma entry_of_parts:
  assumes "entry_of fs s = Some e"
  shows "Values e = map (mget s) fs" and "LocalIP e = Some b \<Longrightarrow> length b = 4"
  using assms length_private_ip by (auto simp: entry_of_def split: option.splits)

lemma of_nat_be [simp]: "of_nat (uint_be (be32 w)) = w" "of_nat (uint_be (be16 v)) = v"
  by (simp_all add: uint_be_be32 uint_be_be16)

lemma read_server_encode:
  assumes "entry_of fs s = Some e" and "list_all (\<lambda>f. no_nul (mget s f)) fs"
  shows "read_server (length fs) (entry_flags e) (be32 (PublicIP e) @ be16 (PublicPort e)
     @ optional_bytes (\<lambda>b. b) (LocalIP e) @ optional_bytes be16 (LocalPort e) @ [0, 0, 0, 0]
     @ concat (map (field_value s) fs) @ r) = Some (e, r)"
proof -
  note parts = entry_of_parts [OF assms(1)]
  have f: "has_flag (entry_flags e) NonstandardPortFlag" "has_flag (entry_flags e) PrivateIPFlag = (LocalIP e \<noteq> None)"
    "has_flag (entry_flags e) NonstandardPrivatePortFlag = (LocalPort e \<noteq> None)" "has_flag (entry_flags e) ICMPIPFlag"
    "has_flag (entry_flags e) HasKeysFlag" "has_flag (entry_flags e) ConnectNegotiateFlag = Negotiate e"
    using flag_bits [of "Negotiate e" "LocalIP e \<noteq> None" "LocalPort e \<noteq> None"]
    unfolding entry_flags_def optional_flag_if by simp_all
  define vs where "vs = concat (map (field_value s) fs) @ r"
  define lp where "lp = optional_bytes be16 (LocalPort e) @ [0, 0, 0, 0] @ vs"
  define li where "li = optional_bytes (\<lambda>b. b) (LocalIP e) @ lp"
  have i1: "read_part True 4 (be32 (PublicIP e) @ be16 (PublicPort e) @ li) =
      Some (Some (be32 (PublicIP e)), be16 (PublicPort e) @ li)" by (rule read_part_hit) simp
  have i2: "read_part True 2 (be16 (PublicPort e) @ li) = Some (Some (be16 (PublicPort e)), li)"
    by (rule read_part_hit) simp
  have i3: "read_part (LocalIP e \<noteq> None) 4 li = Some (LocalIP e, lp)"
    using parts(2) by (cases "LocalIP e") (simp_all add: li_def optional_bytes_def read_part_miss read_part_hit)
  have i4: "read_part (LocalPort e \<noteq> None) 2 lp = Some (map_option be16 (LocalPort e), [0, 0, 0, 0] @ vs)"
    by (cases "LocalPort e") (simp_all add: lp_def optional_bytes_def read_part_miss read_part_hit)
  have i5: "read_part True 4 ([0, 0, 0, 0] @ vs) = Some (Some [0, 0, 0, 0], vs)" by (rule read_part_hit) simp
  have v: "read_values (length fs) vs = Some (map (mget s) fs, r)"
    unfolding vs_def by (rule read_values_encode [OF assms(2)])
  have p: "map_option (\<lambda>p. of_nat (uint_be p)) (map_option be16 (LocalPort e)) = LocalPort e"
    by (cases "LocalPort e") simp_all
  have "read_server (length fs) (entry_flags e) (be32 (PublicIP e) @ be16 (PublicPort e) @ li) = Some (e, r)"
    by (simp only: read_server_def f i1 i2 i3 i4 i5 if_True v p option.case prod.case parts(1) [symmetric] of_nat_be option.sel)
      simp
  then show ?thesis by (simp add: li_def lp_def vs_def)
qed

definition entries :: "string list \<Rightarrow> server list \<Rightarrow> entry list" where
  "entries fs servers = map the (filter (\<lambda>e. e \<noteq> None) (map (entry_of fs) servers))"

definition end_of_list :: bytes where "end_of_list = [0x00, 0xff, 0xff, 0xff, 0xff]"

lemma read_servers_encode:
  assumes "list_all (\<lambda>s. list_all (\<lambda>f. no_nul (mget s f)) fs) servers"
  shows "read_servers (length fs) (encode_servers fs servers @ end_of_list) = Some (entries fs servers)"
  using assms
proof (induction servers)
  case Nil
  then show ?case by (subst read_servers.simps) (simp add: encode_servers_def entries_def end_of_list_def)
next
  case (Cons s servers)
  show ?case
  proof (cases "entry_of fs s")
    case None
    then show ?thesis using Cons by (simp add: encode_servers_def entries_def encode_server_entry)
  next
    case (Some e)
    define r where "r = encode_servers fs servers @ end_of_list"
    define b where "b = be32 (PublicIP e) @ be16 (PublicPort e)
       @ optional_bytes (\<lambda>b. b) (LocalIP e) @ optional_bytes be16 (LocalPort e) @ [0, 0, 0, 0]
       @ concat (map (field_value s) fs) @ r"
    have eq: "encode_servers fs (s # servers) @ end_of_list = entry_flags e # b"
      using Some by (simp add: encode_servers_def encode_server_entry b_def r_def)
    have "entry_flags e \<noteq> 0"
      using flag_bits(7) [of "Negotiate e" "LocalIP e \<noteq> None" "LocalPort e \<noteq> None"]
      unfolding entry_flags_def optional_flag_if by simp
    moreover have "read_server (length fs) (entry_flags e) b = Some (e, r)"
      unfolding b_def using read_server_encode [OF Some] Cons.prems by simp
    moreover have "read_servers (length fs) r = Some (entries fs servers)" using Cons unfolding r_def by simp
    ultimately show ?thesis
      unfolding eq using Some by (subst read_servers.simps) (simp add: entries_def)
  qed
qed

lemma read_reply_list_output:
  assumes "wants_list r" and "length fs < 256" and "fs = field_list r" and "list_all no_nul fs"
    and "list_all (\<lambda>s. list_all (\<lambda>f. no_nul (mget s f)) fs) servers"
  shows "read_reply (list_output r (be32 ip @ be16 port) servers) = Some (ip, port, fs, entries fs servers)"
proof -
  define rest where "rest = encode_servers fs servers @ end_of_list"
  define names where "names = concat (map (\<lambda>f. 0 # cstring f) fs) @ 0 # rest"
  have out: "list_output r (be32 ip @ be16 port) servers = be32 ip @ be16 port @ [of_nat (length fs)] @ names"
    using assms(1,3) by (simp add: list_output_def encode_fields_def names_def rest_def end_of_list_def)
  have n: "unat (of_nat (length fs) :: u8) = length fs" using assms(2) by (simp add: unat_of_nat)
  have i1: "read_part True 4 (be32 ip @ be16 port @ [of_nat (length fs)] @ names) =
      Some (Some (be32 ip), be16 port @ [of_nat (length fs)] @ names)" by (rule read_part_hit) simp
  have i2: "read_part True 2 (be16 port @ [of_nat (length fs)] @ names) = Some (Some (be16 port), [of_nat (length fs)] @ names)"
    by (rule read_part_hit) simp
  have i3: "read_part True 1 ([of_nat (length fs)] @ names) = Some (Some [of_nat (length fs)], names)"
    by (rule read_part_hit) simp
  have i4: "read_names (length fs) names = Some (fs, rest)"
    unfolding names_def by (rule read_names_encode [OF assms(4)])
  have i5: "read_servers (length fs) rest = Some (entries fs servers)"
    unfolding rest_def by (rule read_servers_encode [OF assms(5)])
  show ?thesis
    unfolding out read_reply_def i1 by (simp add: i2 [simplified] i3 [simplified] n i4 i5)
qed

subsection \<open>The request arrives as written\<close>

lemma popString_at:
  assumes "length pre = i" and "no_nul s"
  shows "popString (pre @ cstring s @ r) i = Some (s, i + length s + 1)"
  using assms by (simp add: popString_def cstring_def GetString_cstring)

lemma popBytes_at:
  assumes "length pre = i" and "length b = n" and "0 < n"
  shows "popBytes (pre @ b @ r) i n = Some (b, i + n)"
  using assms subslice_append [of pre i b "i + n" r] by (simp add: popBytes_def)

definition request_ok :: "list_request \<Rightarrow> bool" where
  "request_ok r \<longleftrightarrow> no_nul (queryGame r) \<and> no_nul (gameName r) \<and> length (challenge r) = 8
     \<and> no_nul (filterText r) \<and> no_nul (fieldsText r)"

lemma length_cstring [simp]: "length (cstring s) = length s + 1"
  by (simp add: cstring_def)

lemma parse_written_request:
  assumes "length header = 9" and "request_ok r"
  shows "parse_list_request (write_list_request header r) = Some r"
proof -
  let ?b = "write_list_request header r"
  define i1 where "i1 = 9 + length (queryGame r) + 1"
  define i2 where "i2 = i1 + length (gameName r) + 1"
  define i3 where "i3 = i2 + 8"
  define i4 where "i4 = i3 + length (filterText r) + 1"
  define i5 where "i5 = i4 + length (fieldsText r) + 1"
  have p1: "popString ?b 9 = Some (queryGame r, i1)"
    using assms popString_at [of header 9 "queryGame r"] by (simp add: write_list_request_def request_ok_def i1_def)
  have p2: "popString ?b i1 = Some (gameName r, i2)"
    using assms popString_at [of "header @ cstring (queryGame r)" i1 "gameName r"]
    by (simp add: write_list_request_def request_ok_def i1_def i2_def)
  have p3: "popBytes ?b i2 8 = Some (challenge r, i3)"
    using assms popBytes_at [of "header @ cstring (queryGame r) @ cstring (gameName r)" i2 "challenge r" 8]
    by (simp add: write_list_request_def request_ok_def i1_def i2_def i3_def)
  have p4: "popString ?b i3 = Some (filterText r, i4)"
    using assms popString_at [of "header @ cstring (queryGame r) @ cstring (gameName r) @ challenge r" i3 "filterText r"]
    by (simp add: write_list_request_def request_ok_def i1_def i2_def i3_def i4_def)
  have p5: "popString ?b i4 = Some (fieldsText r, i5)"
    using assms popString_at [of "header @ cstring (queryGame r) @ cstring (gameName r) @ challenge r @ cstring (filterText r)"
        i4 "fieldsText r"]
    by (simp add: write_list_request_def request_ok_def i1_def i2_def i3_def i4_def i5_def)
  have "drop i5 ?b = be32 (options r) @ []"
    using assms by (simp add: write_list_request_def request_ok_def i1_def i2_def i3_def i4_def i5_def)
  then have p6: "popUint32 ?b i5 = Some (options r, i5 + 4)"
    unfolding popUint32_def using get_be32_be32 [of "options r" "[]"] by simp
  show ?thesis by (simp add: parse_list_request_def p1 p2 p3 p4 p5 p6)
qed

lemma atoi_format_uint: "n < 2 ^ 63 \<Longrightarrow> atoi (format_uint n) = Some (int n)"
  using parse_int_format_int [of 64 "int n"] by (simp add: atoi_def format_int_def nat_less_iff)

lemma client_address_String: "client_address (addr_String a) = Ret (be32 (IP a) @ be16 (Port a))"
proof -
  obtain w x y z where b: "be32 (IP a) = [w, x, y, z]" by (simp add: be32_def)
  let ?ps = "map (\<lambda>b. format_uint (unat b)) (be32 (IP a))"
  have colon: "CHR '':'' \<notin> set (host_string (IP a))" by (simp add: host_string_def b)
  have parts: "split_char CHR '':'' (addr_String a) = [host_string (IP a), format_uint (unat (Port a))]"
    using split_char_append [OF colon] by (simp add: addr_String_def split_char_no_sep)
  have dots: "split_char CHR ''.'' (host_string (IP a)) = ?ps"
    unfolding host_string_def by (rule split_join_char) (auto simp: b)
  have octet: "address_part (format_uint (unat v)) = Ret (int (unat v))" for v :: u8
    using atoi_format_uint [of "unat v", OF less_trans [OF unsigned_less]] by (simp add: address_part_def)
  have port: "address_part (format_uint (unat (Port a))) = Ret (int (unat (Port a)))"
    using atoi_format_uint [of "unat (Port a)", OF less_trans [OF unsigned_less]] by (simp add: address_part_def)
  show ?thesis
    by (simp add: client_address_def Let_def parts dots) (simp add: b octet port at_def)
qed

lemma field_list_no_nul:
  assumes "no_nul (fieldsText r)"
  shows "list_all no_nul (field_list r)"
proof -
  have "list_all no_nul (split_char c s)" if "no_nul s" for c s
    using that by (induction s) (auto simp: no_nul_def split: list.splits)
  then show ?thesis using assms by (auto simp: field_list_def list_all_iff)
qed

subsection \<open>The whole exchange\<close>

definition announced :: "list_env \<Rightarrow> qr2_state \<Rightarrow> server list" where
  "announced env st = snd (GetSessionServers (Now env) (Order env) st)"

definition clean_values :: "string list \<Rightarrow> server \<Rightarrow> bool" where
  "clean_values fs s \<longleftrightarrow> list_all (\<lambda>f. no_nul (mget s f)) fs"

lemma listed_search:
  assumes "wants_list r" and "filterText r = render_chain ch k" and "render_chain ch k \<notin> {[], '' '', ''0''}"
    and "chain_ok ch" and "list_all (searchable ch k (queryGame r)) (announced env st)"
  shows "listed_servers (Unicode env) (Now env) (Order env) r st =
    Ret (fst (GetSessionServers (Now env) (Order env) st), filter (selected ch k (queryGame r)) (announced env st))"
  using search_selects [OF assms(4), of k "queryGame r" "announced env st" "Unicode env"] assms
  by (cases "GetSessionServers (Now env) (Order env) st") (simp add: listed_servers_def announced_def)

text \<open>C10. The whole exchange: a client that asks for the servers of a game with a search, and that knows the
  game's secret key, reads from the reply its own address, the fields it asked for, and exactly the
  announced servers that the search means and whose address is usable, in order, each with its address
  and the values of the fields; and the table of servers loses only what was not heard of for an hour.
\<close>

theorem server_list_exchange:
  assumes "length header = 9" and "request_ok r" and "wants_list r" and "length (field_list r) < 256"
    and "GetGameInfoByName (Games env) (gameName r) = Some info" and "SecretKey info \<noteq> []"
    and "length (HeaderRandom env) = randLen" and "length (KeyRandom env) = keyLen"
    and "filterText r = render_chain ch k" and "render_chain ch k \<notin> {[], '' '', ''0''}" and "chain_ok ch"
    and "list_all (searchable ch k (queryGame r)) (announced env st)"
    and "list_all (clean_values (field_list r)) (announced env st)"
  shows "\<exists>packet data.
    handleServerListRequest env (addr_String a) (write_list_request header r) st =
      Ret (fst (GetSessionServers (Now env) (Order env) st), Some packet) \<and>
    DecryptTypeX (bytes_of (SecretKey info)) (challenge r) packet = Ret data \<and>
    read_reply data = Some (IP a, Port a, field_list r,
      entries (field_list r) (filter (selected ch k (queryGame r)) (announced env st)))"
proof -
  let ?sel = "filter (selected ch k (queryGame r)) (announced env st)"
  define data where "data = list_output r (be32 (IP a) @ be16 (Port a)) ?sel"
  have key: "bytes_of (SecretKey info) \<noteq> []" "challenge r \<noteq> []"
    using assms(2,6) by (auto simp: bytes_of_def request_ok_def)
  obtain packet where p: "EncryptTypeX (bytes_of (SecretKey info)) (challenge r) data (HeaderRandom env) (KeyRandom env) = Ret packet"
    "DecryptTypeX (bytes_of (SecretKey info)) (challenge r) packet = Ret data"
    using DecryptTypeX_EncryptTypeX [OF key assms(7,8)] by blast
  have h: "handleServerListRequest env (addr_String a) (write_list_request header r) st =
      Ret (fst (GetSessionServers (Now env) (Order env) st), Some packet)"
    using parse_written_request [OF assms(1,2)] assms(5) client_address_String [of a]
      listed_search [OF assms(3,9,10,11,12)] p(1)
    by (simp add: handleServerListRequest_def data_def)
  have n: "list_all no_nul (field_list r)" using assms(2) by (intro field_list_no_nul) (simp add: request_ok_def)
  have v: "list_all (\<lambda>s. list_all (\<lambda>f. no_nul (mget s f)) (field_list r)) ?sel"
    using assms(13) by (auto simp: clean_values_def list_all_iff)
  show ?thesis
    using h p(2) read_reply_list_output [OF assms(3,4) refl n v] unfolding data_def by blast
qed

definition sample_list_env :: list_env where
  "sample_list_env = \<lparr>Unicode = \<lparr>Letter = \<lambda>_. False, Digit = \<lambda>_. False, Number = \<lambda>_. False\<rparr>,
     Games = add_game sample_game empty_games, Now = 0, Order = [5],
     HeaderRandom = replicate 5 0, KeyRandom = replicate 8 1\<rparr>"

definition sample_table :: qr2_state where
  "sample_table = \<lparr>sessions = [5 \<mapsto> sample_session\<lparr>Authenticated := True,
     SessionData := [''gamename'' \<mapsto> ''samplewii'', ''publicip'' \<mapsto> ''9'', ''publicport'' \<mapsto> ''7'']\<rparr>], challengers = []\<rparr>"

definition sample_list_request :: list_request where
  "sample_list_request = \<lparr>queryGame = ''samplewii'', gameName = ''samplewii'', challenge = replicate 8 2,
     filterText = render_chain (First (Cmp (Var ''publicip'') Ne (Num 43))) Conj, fieldsText = ''publicport'' @ [CHR 0x5C] @ ''gamename'',
     options = 0\<rparr>"

theorem server_list_exchange_witness:
  "\<exists>packet data.
    handleServerListRequest sample_list_env (addr_String \<lparr>IP = 1, Port = 2\<rparr>) (write_list_request (replicate 9 0) sample_list_request)
      sample_table = Ret (fst (GetSessionServers (Now sample_list_env) (Order sample_list_env) sample_table), Some packet) \<and>
    DecryptTypeX (bytes_of (SecretKey sample_game)) (challenge sample_list_request) packet = Ret data \<and>
    read_reply data = Some (IP \<lparr>IP = 1, Port = 2\<rparr>, Port \<lparr>IP = 1, Port = 2\<rparr>, field_list sample_list_request,
      entries (field_list sample_list_request)
        (filter (selected (First (Cmp (Var ''publicip'') Ne (Num 43))) Conj (queryGame sample_list_request))
          (announced sample_list_env sample_table)))"
proof (rule server_list_exchange)
  have d: "announced sample_list_env sample_table =
      [[''gamename'' \<mapsto> ''samplewii'', ''publicip'' \<mapsto> ''9'', ''publicport'' \<mapsto> ''7'']]"
    by (simp add: announced_def GetSessionServers_def sample_list_env_def sample_table_def sample_session_def listed_def fresh_def)
  have f: "field_list sample_list_request = [''gamename'']"
    by (simp add: field_list_def wants_list_def sample_list_request_def NoServerListOption_def private_field_def)
  show "request_ok sample_list_request"
    by (simp add: request_ok_def sample_list_request_def no_nul_def)
  show "wants_list sample_list_request" by (simp add: wants_list_def sample_list_request_def)
  show "length (field_list sample_list_request) < 256" by (simp add: f)
  show "GetGameInfoByName (Games sample_list_env) (gameName sample_list_request) = Some sample_game"
    by (simp add: sample_list_env_def sample_list_request_def GetGameInfoByName_def add_game_def empty_games_def sample_game_def)
  show "SecretKey sample_game \<noteq> []" by (simp add: sample_game_def)
  show "filterText sample_list_request = render_chain (First (Cmp (Var ''publicip'') Ne (Num 43))) Conj"
    by (simp add: sample_list_request_def)
  show "render_chain (First (Cmp (Var ''publicip'') Ne (Num 43))) Conj \<notin> {[], '' '', ''0''}" by simp
  show "chain_ok (First (Cmp (Var ''publicip'') Ne (Num 43)))"
    by (simp add: letter_char_def word_char_def ascii_letter_def rune_def)
  show "list_all (searchable (First (Cmp (Var ''publicip'') Ne (Num 43))) Conj (queryGame sample_list_request))
      (announced sample_list_env sample_table)"
    by (simp add: d searchable_def on_strings_def)
  show "list_all (clean_values (field_list sample_list_request)) (announced sample_list_env sample_table)"
    by (simp add: d f clean_values_def no_nul_def mget_def)
qed (simp_all add: sample_list_env_def randLen_def keyLen_def)

text \<open>A request to pass a message on panics exactly when it is shorter than nine bytes, and the framing of
  the connection lets such a request through: the three bytes 0, 3, 2 on a new connection end the back end.
\<close>

theorem short_message_panics:
  "(handleSendMessageRequest buffer st = Panic \<longleftrightarrow> length buffer < 9) \<and>
   snd (HandlePacket Map.empty i [0, 3, 2]) = [SendMessageCall [0, 3, 2]] \<and>
   handleSendMessageRequest [0, 3, 2] st = Panic"
proof -
  have "packet_size [0, 3, 2] = 3" by (simp add: packet_size_def uint_be_def)
  then show ?thesis
    by (simp add: handleSendMessageRequest_def Let_def HandlePacket_def buffer_of_def dispatch_request_def
        ServerListRequest_def SendMessageRequest_def)
qed

end
