(* ===== verification/NasForms.thy ===== *)
theory NasForms
  imports MessageServer GoBase64 "HOL-Library.List_Lexorder" "HOL-Library.Char_ord" "HOL-Library.AList"
begin

text \<open>
  \<open>nas/auth.go\<close>: the forms in which consoles send their requests and read the replies. A value is printed
  in the base64 encoding of DWC; the struct of a request says which key fills which field. A struct may
  embed another: its fields are filled by a call of their own, whose error is dropped. \<open>form\<close> is
  \<open>url.Values\<close>, the form of a request after \<open>net/http\<close> has parsed it.
\<close>

type_synonym form = "string \<rightharpoonup> string list"

definition form_get :: "form \<Rightarrow> string \<Rightarrow> string" where
  "form_get f key = (case f key of Some (v # _) \<Rightarrow> v | _ \<Rightarrow> [])"

text \<open>
  \<open>DecodeString\<close> returns what it decoded before an error, and callers that drop the error go on with it:
  the quanta before the first bad one, and the last one when only garbage follows its padding.
\<close>

fun b64_prefix_quanta :: "b64 \<Rightarrow> string \<Rightarrow> bytes" where
  "b64_prefix_quanta e (a # b # c # d # r) =
     (case (b64_val e a, b64_val e b) of
        (Some s0, Some s1) \<Rightarrow>
          (case b64_val e c of
             None \<Rightarrow> if c = b64_pad e \<and> d = b64_pad e then [byte1 s0 s1] else []
           | Some s2 \<Rightarrow>
               (case b64_val e d of
                  None \<Rightarrow> if d = b64_pad e then [byte1 s0 s1, byte2 s1 s2] else []
                | Some s3 \<Rightarrow> byte1 s0 s1 # byte2 s1 s2 # byte3 s2 s3 # b64_prefix_quanta e r))
      | _ \<Rightarrow> [])"
| "b64_prefix_quanta e _ = []"

definition b64_decoded :: "b64 \<Rightarrow> string \<Rightarrow> bytes" where
  "b64_decoded e s = b64_prefix_quanta e (filter no_newline s)"

lemma b64_prefix_complete: "b64_decode_quanta strict e s = Some b \<Longrightarrow> b64_prefix_quanta e s = b"
  by (induction strict e s arbitrary: b rule: b64_decode_quanta.induct) (auto split: option.splits if_splits)

lemma b64_decoded_decode: "b64_decode e s = Some b \<Longrightarrow> b64_decoded e s = b"
  by (simp add: b64_decode_def b64_decoded_def b64_prefix_complete)

subsection \<open>Requests\<close>

datatype member = Field string gval | Embedded "member list"

text \<open>The members after the call, and the error it returns.\<close>

fun unmarshalStruct :: "form \<Rightarrow> member list \<Rightarrow> member list \<times> gs_error option" where
  "unmarshalStruct param [] = ([], None)"
| "unmarshalStruct param (Embedded ms # fs) =
     (let (fs', e) = unmarshalStruct param fs in (Embedded (fst (unmarshalStruct param ms)) # fs', e))"
| "unmarshalStruct param (Field key v # fs) =
     (let continue = (\<lambda>v. let (fs', e) = unmarshalStruct param fs in (Field key v # fs', e)) in
      case b64_decode Base64DwcEncoding (form_get param key) of
        None \<Rightarrow> continue v
      | Some value \<Rightarrow>
          if value = [] then continue v
          else case PutReflectString v (string_of value) of
            Ret v' \<Rightarrow> continue v'
          | Err e \<Rightarrow> (Field key v # fs, Some e)
          | Panic \<Rightarrow> (Field key v # fs, None))"

text \<open>The fields with the promoted ones of embedded structs\<close>

fun flat :: "member list \<Rightarrow> field list" where
  "flat [] = []"
| "flat (Embedded ms # fs) = flat ms @ flat fs"
| "flat (Field key v # fs) = (key, v) # flat fs"

definition unmarshal_form :: "member list \<Rightarrow> form \<Rightarrow> field list" where
  "unmarshal_form schema param = flat (fst (unmarshalStruct param schema))"

subsection \<open>Replies\<close>

text \<open>\<open>param.Set\<close> for every field with a key, the key/value pairs in the order they were first set\<close>

definition marshal_field :: "field \<Rightarrow> (string \<times> string) list \<Rightarrow> (string \<times> string) list" where
  "marshal_field f param =
     (case f of (key, v) \<Rightarrow>
        if key = [] then param
        else AList.update key (b64_encode Base64DwcEncoding (bytes_of (marshal_value v))) param)"

text \<open>\<open>url.QueryEscape\<close> and \<open>url.Values.Encode\<close>, which sorts by key\<close>

definition unreserved :: "char \<Rightarrow> bool" where
  "unreserved c \<longleftrightarrow> c \<in> set (upper_letters @ lower_letters @ ''0123456789-_.~'')"

definition escape_digit :: "nat \<Rightarrow> char" where
  "escape_digit n = ''0123456789ABCDEF'' ! n"

definition escape_char :: "char \<Rightarrow> string" where
  "escape_char c =
     (if unreserved c then [c] else if c = CHR '' '' then ''+''
      else [CHR ''%'', escape_digit (of_char c div 16), escape_digit (of_char c mod 16)])"

definition QueryEscape :: "string \<Rightarrow> string" where
  "QueryEscape s = concat (map escape_char s)"

definition encode_values :: "(string \<times> string) list \<Rightarrow> string" where
  "encode_values kvs =
     join_char CHR ''&'' (map (\<lambda>(k, v). QueryEscape k @ CHR ''='' # QueryEscape v) (sort_key fst kvs))"

text \<open>\<open>strings.ReplaceAll\<close> of a non-empty text\<close>

function replace_all :: "string \<Rightarrow> string \<Rightarrow> string \<Rightarrow> string" where
  "replace_all s old new =
     (case s of
        [] \<Rightarrow> []
      | c # r \<Rightarrow>
          if old \<noteq> [] \<and> has_prefix s old then new @ replace_all (drop (length old) s) old new
          else c # replace_all r old new)"
  by pat_completeness auto
termination replace_all
  by (relation "measure (\<lambda>(s, _, _). length s)") auto

declare replace_all.simps [simp del]

definition Marshal_form :: "member list \<Rightarrow> string" where
  "Marshal_form ms =
     replace_all (encode_values (fold marshal_field (flat ms) [])) ''%2A'' ''*'' @ [CHR 0x00]"

subsection \<open>The clock of the replies\<close>

text \<open>Year, month and day of a day counted from 1970, in the Gregorian calendar: the year starts in March.\<close>

definition civil :: "int \<Rightarrow> int \<times> int \<times> int" where
  "civil days =
     (let z = days + 719468;
          era = z div 146097;
          doe = z mod 146097;
          yoe = (doe - doe div 1460 + doe div 36524 - doe div 146096) div 365;
          doy = doe - (365 * yoe + yoe div 4 - yoe div 100);
          mp = (5 * doy + 2) div 153;
          d = doy - (153 * mp + 2) div 5 + 1;
          m = (if mp < 10 then mp + 3 else mp - 9)
      in (yoe + 400 * era + (if m \<le> 2 then 1 else 0), m, d))"

definition zero_padded :: "nat \<Rightarrow> int \<Rightarrow> string" where
  "zero_padded width i =
     (let s = format_int i in replicate (width - length s) CHR ''0'' @ s)"

definition getDateTime :: "int \<Rightarrow> string" where
  "getDateTime now =
     (let t = now div 10 ^ 9; (y, m, d) = civil (t div 86400); s = t mod 86400
      in zero_padded 4 y @ zero_padded 2 m @ zero_padded 2 d @
         zero_padded 2 (s div 3600) @ zero_padded 2 (s div 60 mod 60) @ zero_padded 2 (s mod 60))"

subsection \<open>Reading a reply\<close>

text \<open>The console's side: the pairs before the terminator, every value decoded.\<close>

definition read_pair :: "string \<Rightarrow> string \<times> string" where
  "read_pair p = (case cut p ''='' of (k, v, _) \<Rightarrow> (k, string_of (b64_decoded Base64DwcEncoding v)))"

definition read_reply :: "string \<Rightarrow> string \<rightharpoonup> string" where
  "read_reply reply = map_of (map read_pair (split_char CHR ''&'' (takeWhile (\<lambda>c. c \<noteq> CHR 0x00) reply)))"

definition plain_field :: "field \<Rightarrow> bool" where
  "plain_field f \<longleftrightarrow> fst f \<noteq> [] \<and> list_all unreserved (fst f)"

definition encoded_field :: "field \<Rightarrow> string \<times> string" where
  "encoded_field f = (fst f, b64_encode Base64DwcEncoding (bytes_of (marshal_value (snd f))))"

lemma update_new: "k \<notin> fst ` set al \<Longrightarrow> AList.update k v al = al @ [(k, v)]"
  by (induction al) auto

lemma fold_marshal:
  "list_all plain_field fs \<Longrightarrow> distinct (map fst fs) \<Longrightarrow> fst ` set fs \<inter> fst ` set al = {} \<Longrightarrow>
     fold marshal_field fs al = al @ map encoded_field fs"
proof (induction fs arbitrary: al)
  case (Cons f fs)
  obtain k v where f: "f = (k, v)" by (cases f)
  have "marshal_field f al = al @ [encoded_field f]"
    using Cons.prems by (simp add: f marshal_field_def encoded_field_def plain_field_def update_new)
  moreover have "fst ` set fs \<inter> fst ` set (al @ [encoded_field f]) = {}"
    using Cons.prems by (auto simp: f encoded_field_def)
  ultimately show ?case using Cons by simp
qed simp

definition star :: "char \<Rightarrow> string" where
  "star c = (if c = CHR ''*'' then ''%2A'' else [c])"

lemma b64_chars: "set (b64_encode Base64DwcEncoding b) \<subseteq> insert CHR ''*'' (set (b64_alpha Base64DwcEncoding))"
proof -
  have m: "n < 64 \<Longrightarrow> b64_char Base64DwcEncoding n \<in> set (b64_alpha Base64DwcEncoding)" for n
    using b64_dwc.alphabet(2) by (simp add: b64_char_def)
  have p: "b64_pad Base64DwcEncoding = CHR ''*''" by (simp add: Base64DwcEncoding_def)
  show ?thesis by (induction b rule: quanta_induct) (simp_all add: m p sextet_bounds)
qed

lemma escape_unreserved: "list_all unreserved s \<Longrightarrow> QueryEscape s = s"
  by (induction s) (simp_all add: QueryEscape_def escape_char_def)

lemma star_unreserved: "list_all unreserved s \<Longrightarrow> concat (map star s) = s"
  by (induction s) (auto simp: star_def unreserved_def upper_letters_def lower_letters_def)

lemma escape_encoded: "QueryEscape (b64_encode Base64DwcEncoding b) = concat (map star (b64_encode Base64DwcEncoding b))"
proof -
  have "escape_char c = star c" if "c \<in> insert CHR ''*'' (set (b64_alpha Base64DwcEncoding))" for c
  proof (cases "c = CHR ''*''")
    case True
    then show ?thesis
      by (simp add: star_def escape_char_def unreserved_def upper_letters_def lower_letters_def escape_digit_def)
  next
    case False
    then have "unreserved c" using that by (auto simp: unreserved_def Base64DwcEncoding_def)
    then show ?thesis using False by (simp add: star_def escape_char_def)
  qed
  then have "map escape_char (b64_encode Base64DwcEncoding b) = map star (b64_encode Base64DwcEncoding b)"
    using b64_chars [of b] by (intro map_cong) auto
  then show ?thesis unfolding QueryEscape_def by (rule arg_cong)
qed

lemma star_join: "c \<noteq> CHR ''*'' \<Longrightarrow> concat (map star (join_char c xs)) = join_char c (map (\<lambda>x. concat (map star x)) xs)"
  by (induction c xs rule: join_char.induct) (auto simp: star_def)

lemma unstar: "CHR ''%'' \<notin> set t \<Longrightarrow> replace_all (concat (map star t)) ''%2A'' ''*'' = t"
proof (induction t)
  case Nil
  then show ?case by (simp add: replace_all.simps)
next
  case (Cons c t)
  then have c: "c \<noteq> CHR ''%''" and ih: "replace_all (concat (map star t)) ''%2A'' ''*'' = t" by auto
  show ?case
  proof (cases "c = CHR ''*''")
    case True
    then have "concat (map star (c # t)) = ''%2A'' @ concat (map star t)" by (simp add: star_def)
    then show ?thesis using ih True by (subst replace_all.simps) (simp add: has_prefix_def)
  next
    case False
    then have "concat (map star (c # t)) = c # concat (map star t)" by (simp add: star_def)
    then show ?thesis using ih c by (subst replace_all.simps) (simp add: has_prefix_def)
  qed
qed

lemma cut_pair: "CHR ''='' \<notin> set k \<Longrightarrow> cut (k @ CHR ''='' # v) ''='' = (k, v, True)"
proof -
  assume k: "CHR ''='' \<notin> set k"
  then have "index_of (k @ CHR ''='' # v) ''='' = Some (length k)"
    by (induction k) (auto simp: has_prefix_def)
  then show ?thesis by (simp add: cut_def)
qed

definition pair_text :: "string \<times> string \<Rightarrow> string" where
  "pair_text kv = fst kv @ CHR ''='' # snd kv"

lemma plain_chars:
  assumes "plain_field f"
  shows "set (fst (encoded_field f)) \<inter> set ''&=%'' = {}" "set (snd (encoded_field f)) \<inter> set ''&=%'' = {}"
    "CHR 0x00 \<notin> set (pair_text (encoded_field f))"
proof -
  have k: "set (fst f) \<subseteq> Collect unreserved" using assms by (auto simp: plain_field_def list_all_iff)
  have u: "c \<in> set ''&=%'' \<Longrightarrow> \<not> unreserved c" "\<not> unreserved (CHR 0x00)" for c
    by (auto simp: unreserved_def upper_letters_def lower_letters_def)
  have a: "set (b64_alpha Base64DwcEncoding) \<subseteq> Collect unreserved"
    by (auto simp: unreserved_def Base64DwcEncoding_def)
  note v = b64_chars [of "bytes_of (marshal_value (snd f))"]
  show "set (fst (encoded_field f)) \<inter> set ''&=%'' = {}" using k u(1) by (auto simp: encoded_field_def)
  show "set (snd (encoded_field f)) \<inter> set ''&=%'' = {}" using v a u(1) by (auto simp: encoded_field_def)
  show "CHR 0x00 \<notin> set (pair_text (encoded_field f))"
    using k v a u(2) by (auto simp: encoded_field_def pair_text_def)
qed

lemma pair_clean:
  assumes "plain_field f" and "c \<in> set ''&%''"
  shows "c \<notin> set (pair_text (encoded_field f))"
proof -
  have "c \<in> set ''&=%''" and "c \<noteq> CHR ''=''" using assms(2) by auto
  then show ?thesis using plain_chars(1,2) [OF assms(1)] unfolding pair_text_def by (metis Int_iff Un_iff empty_iff set_ConsD set_append)
qed

lemma set_join_char: "set (join_char c xs) \<subseteq> insert c (\<Union> (set ` set xs))"
  by (induction c xs rule: join_char.induct) auto

lemma Marshal_form_text:
  assumes "list_all plain_field (flat ms)" and "distinct (map fst (flat ms))"
  shows "Marshal_form ms =
    join_char CHR ''&'' (map pair_text (sort_key fst (map encoded_field (flat ms)))) @ [CHR 0x00]"
proof -
  define kvs where "kvs = sort_key fst (map encoded_field (flat ms))"
  have kvs: "kv \<in> set kvs \<Longrightarrow> \<exists>f. plain_field f \<and> kv = encoded_field f" for kv
    using assms(1) by (auto simp: kvs_def list_all_iff)
  have piece: "QueryEscape k @ CHR ''='' # QueryEscape v = concat (map star (pair_text (k, v)))"
    if "(k, v) \<in> set kvs" for k v
    using kvs [OF that] escape_encoded
    by (auto simp: encoded_field_def pair_text_def plain_field_def escape_unreserved star_unreserved star_def)
  have "encode_values (fold marshal_field (flat ms) []) = encode_values (map encoded_field (flat ms))"
    using assms by (simp add: fold_marshal)
  also have "\<dots> = join_char CHR ''&'' (map (\<lambda>kv. concat (map star (pair_text kv))) kvs)"
    unfolding encode_values_def kvs_def [symmetric]
    by (rule arg_cong [where f = "join_char _"]) (use piece in auto)
  also have "\<dots> = concat (map star (join_char CHR ''&'' (map pair_text kvs)))"
    by (simp add: star_join comp_def)
  finally have e: "encode_values (fold marshal_field (flat ms) []) = \<dots>" .
  have "CHR ''%'' \<notin> set (pair_text kv)" if "kv \<in> set kvs" for kv
    using kvs [OF that] pair_clean by auto
  then have "CHR ''%'' \<notin> set (join_char CHR ''&'' (map pair_text kvs))"
    using set_join_char [of "CHR ''&''" "map pair_text kvs"] by auto
  then show ?thesis by (simp add: Marshal_form_def e unstar kvs_def)
qed

text \<open>A console reads from a reply exactly the fields of the struct, embedded ones included, each with
  the text of its value.\<close>

theorem reply_readable:
  assumes "flat ms \<noteq> []" and "distinct (map fst (flat ms))" and "list_all plain_field (flat ms)"
  shows "read_reply (Marshal_form ms) = map_option marshal_value \<circ> map_of (flat ms)"
proof -
  define kvs where "kvs = sort_key fst (map encoded_field (flat ms))"
  have kvs: "kv \<in> set kvs \<Longrightarrow> \<exists>f. plain_field f \<and> kv = encoded_field f" for kv
    using assms(3) by (auto simp: kvs_def list_all_iff)
  let ?t = "join_char CHR ''&'' (map pair_text kvs)"
  have z: "CHR 0x00 \<notin> set ?t"
    using set_join_char [of "CHR ''&''" "map pair_text kvs"] kvs plain_chars(3) by fastforce
  have tw: "takeWhile (\<lambda>c. c \<noteq> CHR 0x00) (?t @ [CHR 0x00]) = ?t" using z by (subst takeWhile_append2) auto
  have sp: "split_char CHR ''&'' ?t = map pair_text kvs"
  proof (rule split_join_char)
    have "length kvs = length (flat ms)" by (simp add: kvs_def)
    then show "map pair_text kvs \<noteq> []" using assms(1) by auto
    show "\<forall>x \<in> set (map pair_text kvs). CHR ''&'' \<notin> set x"
    proof
      fix x assume "x \<in> set (map pair_text kvs)"
      then obtain f where "plain_field f" "x = pair_text (encoded_field f)" using kvs by fastforce
      then show "CHR ''&'' \<notin> set x" by (simp add: pair_clean)
    qed
  qed
  have mp: "map read_pair (map pair_text kvs) = map (\<lambda>(k, v). (k, string_of (b64_decoded Base64DwcEncoding v))) kvs"
  proof -
    have "read_pair (pair_text kv) = (fst kv, string_of (b64_decoded Base64DwcEncoding (snd kv)))" if "kv \<in> set kvs" for kv
      using kvs [OF that] plain_chars(1) by (auto simp: read_pair_def pair_text_def cut_pair)
    then show ?thesis by (simp add: case_prod_unfold)
  qed
  have "read_reply (Marshal_form ms) = map_of (map (\<lambda>(k, v). (k, string_of (b64_decoded Base64DwcEncoding v))) kvs)"
    unfolding read_reply_def Marshal_form_text [OF assms(3,2)] kvs_def [symmetric] tw sp mp ..
  also have "\<dots> = map_of (map (\<lambda>f. (fst f, marshal_value (snd f))) (flat ms))"
  proof (subst map_of_inject_set)
    have d: "b64_decoded Base64DwcEncoding (b64_encode Base64DwcEncoding b) = b" for b
      using b64_decoded_decode [OF b64_dwc.decode_encode] .
    show "set (map (\<lambda>(k, v). (k, string_of (b64_decoded Base64DwcEncoding v))) kvs) =
        set (map (\<lambda>f. (fst f, marshal_value (snd f))) (flat ms))"
      by (simp add: kvs_def image_image encoded_field_def d)
    have "distinct (map fst (map encoded_field (flat ms)))" using assms(2) by (simp add: encoded_field_def comp_def)
    then have "distinct (map fst kvs)" by (simp only: kvs_def distinct_map distinct_sort set_sort)
    then show "distinct (map fst (map (\<lambda>(k, v). (k, string_of (b64_decoded Base64DwcEncoding v))) kvs))"
      by (simp add: comp_def case_prod_unfold)
    show "distinct (map fst (map (\<lambda>f. (fst f, marshal_value (snd f))) (flat ms)))"
      using assms(2) by (simp add: comp_def)
  qed
  also have "\<dots> = map_option marshal_value \<circ> map_of (flat ms)"
    using map_of_map [of marshal_value "flat ms"] by (simp add: case_prod_unfold)
  finally show ?thesis .
qed

theorem reply_readable_witness:
  "read_reply (Marshal_form [Embedded [Field ''retry'' (GBool False), Field ''returncd'' (GString ''001'')],
     Field ''locator'' (GString ''gamespy.com'')]) ''returncd'' = Some ''001''"
  by (subst reply_readable)
    (simp_all add: plain_field_def unreserved_def upper_letters_def lower_letters_def)

subsection \<open>What every request and reply holds\<close>

text \<open>\<open>account.go\<close>; Go's \<open>int\<close> has 64 bits.\<close>

definition NASRequest :: "member list" where
  "NASRequest =
     [Field ''userid'' (GUint 64 0), Field ''gamecd'' (GString []), Field ''unitcd'' (GInt 64 0),
      Field ''macadr'' (GString []), Field ''lang'' (GString []), Field ''ingamesn'' (GString []),
      Field ''passwd'' (GInt 64 0), Field ''devname'' (GString []), Field ''csnum'' (GString []),
      Field ''cfc'' (GUint 64 0), Field ''region'' (GString [])]"

definition NASResponse :: "string \<Rightarrow> string \<Rightarrow> member list" where
  "NASResponse datetime returncd =
     [Field ''retry'' (GBool False), Field ''datetime'' (GString datetime), Field ''returncd'' (GString returncd)]"

text \<open>What a handler writes to its \<open>http.ResponseWriter\<close>: \<open>replyHTTPError\<close>, or bytes of the body.\<close>

datatype http_out = HttpError nat string | Body string

text \<open>A request as \<open>net/http\<close> hands it over. \<open>post_form\<close> is \<open>None\<close> when \<open>ParseForm\<close> fails; \<open>FormValue\<close>
  looks in the body and then in the query of the URL.\<close>

record http_request =
  post_form :: "form option"
  query_form :: form

definition PostForm :: "http_request \<Rightarrow> form" where
  "PostForm r = (case post_form r of None \<Rightarrow> Map.empty | Some f \<Rightarrow> f)"

definition FormValue :: "http_request \<Rightarrow> string \<Rightarrow> string" where
  "FormValue r key = (case PostForm r key of Some (v # _) \<Rightarrow> v | _ \<Rightarrow> form_get (query_form r) key)"

end
