(* ===== verification/NasProfanity.thy ===== *)
theory NasProfanity
  imports NasForms Encoding
begin

text \<open>
  \<open>nas/profanity.go\<close>: the list of profane words, read from a file and kept until the file changes, the
  comparison of a word with it, and the endpoint that judges the words of a request. \<open>profanity_file\<close> is
  what the file system holds at the path, with the time of its last change; \<open>fold_beyond\<close> is the case folding
  of code points beyond ASCII, for which Go has tables.
\<close>

type_synonym profanity_file = "(int \<times> string) option"

record profanity_cache =
  profanityFileLines :: "string list option"
  lastModTime :: int

datatype profanity_error = ErrNoFile | ErrEmptyFile | ErrNotCached

text \<open>\<open>bufio.Scanner\<close>: lines without their end; a line of 64 KB or more ends the scan, and the code does
  not ask for the error.\<close>

definition drop_cr :: "string \<Rightarrow> string" where
  "drop_cr l = (if l \<noteq> [] \<and> last l = CHR 0x0D then butlast l else l)"

definition scan_lines :: "string \<Rightarrow> string list" where
  "scan_lines content =
     (let pieces = split_char CHR 0x0A content;
          ls = (if last pieces = [] then butlast pieces else pieces)
      in map drop_cr (takeWhile (\<lambda>l. length l < 64 * 1024) ls))"

definition CacheProfanityFile ::
  "profanity_file \<Rightarrow> profanity_cache \<Rightarrow> (profanity_error, unit) outcome \<times> profanity_cache" where
  "CacheProfanityFile file c =
     (case file of
        None \<Rightarrow> (Err ErrNoFile, c)
      | Some (modified, content) \<Rightarrow>
          if \<not> lastModTime c < modified \<and> profanityFileLines c \<noteq> None then (Ret (), c)
          else
            let ls = filter (\<lambda>l. l \<noteq> []) (scan_lines content)
            in if ls = [] then (Err ErrEmptyFile, c\<lparr>profanityFileLines := None\<rparr>)
               else (Ret (), c\<lparr>profanityFileLines := Some ls, lastModTime := modified\<rparr>))"

definition isProfanityFileCached :: "profanity_file \<Rightarrow> profanity_cache \<Rightarrow> bool" where
  "isProfanityFileCached file c =
     (case file of None \<Rightarrow> False
      | Some (modified, _) \<Rightarrow> profanityFileLines c \<noteq> None \<and> \<not> lastModTime c < modified)"

definition symbolEquivalences :: "nat \<Rightarrow> nat" where
  "symbolEquivalences r =
     (case map_of (map (\<lambda>(a, b). (of_char a, of_char b))
        [(CHR ''1'', CHR ''i''), (CHR ''0'', CHR ''o''), (CHR ''5'', CHR ''s''), (CHR ''4'', CHR ''a''),
         (CHR ''3'', CHR ''e''), (CHR ''7'', CHR ''t''), (CHR ''9'', CHR ''g''), (CHR ''2'', CHR ''z''),
         (CHR ''('', CHR ''c'')]) r of
        None \<Rightarrow> r | Some equivalent \<Rightarrow> equivalent)"

definition normalizeWord :: "bytes \<Rightarrow> bytes" where
  "normalizeWord w = from_code_points (map symbolEquivalences (code_points w))"

text \<open>\<open>strings.EqualFold\<close>\<close>

definition fold_rune :: "(nat \<Rightarrow> nat) \<Rightarrow> nat \<Rightarrow> nat" where
  "fold_rune fold_beyond r = (if r < 128 then if 65 \<le> r \<and> r \<le> 90 then r + 32 else r else fold_beyond r)"

definition EqualFold :: "(nat \<Rightarrow> nat) \<Rightarrow> bytes \<Rightarrow> bytes \<Rightarrow> bool" where
  "EqualFold fold_beyond s t \<longleftrightarrow>
     map (fold_rune fold_beyond) (code_points s) = map (fold_rune fold_beyond) (code_points t)"

definition listed_word :: "(nat \<Rightarrow> nat) \<Rightarrow> string list option \<Rightarrow> bytes \<Rightarrow> bool" where
  "listed_word fold_beyond ls w =
     list_ex (\<lambda>line. EqualFold fold_beyond (bytes_of line) (normalizeWord w)) (case ls of None \<Rightarrow> [] | Some ls \<Rightarrow> ls)"

definition IsBadWord ::
  "(nat \<Rightarrow> nat) \<Rightarrow> profanity_file \<Rightarrow> bytes \<Rightarrow> profanity_cache
     \<Rightarrow> (profanity_error, bool) outcome \<times> profanity_cache" where
  "IsBadWord fold_beyond file w c =
     (if isProfanityFileCached file c then (Ret (listed_word fold_beyond (profanityFileLines c) w), c)
      else case CacheProfanityFile file c of
        (Ret _, c') \<Rightarrow> (Ret (listed_word fold_beyond (profanityFileLines c') w), c')
      | (_, c') \<Rightarrow> (Err ErrNotCached, c'))"

text \<open>\<open>profane, _ := IsBadWord(word)\<close>: an error counts as a good word.\<close>

definition is_profane :: "(nat \<Rightarrow> nat) \<Rightarrow> profanity_file \<Rightarrow> bytes \<Rightarrow> profanity_cache \<Rightarrow> bool \<times> profanity_cache" where
  "is_profane fold_beyond file w c =
     (case IsBadWord fold_beyond file w c of (r, c') \<Rightarrow> (r = Ret True, c'))"

subsection \<open>The endpoint\<close>

definition ProfanityRequest :: "member list" where
  "ProfanityRequest =
     [Embedded NASRequest, Field ''wregion'' (GString []), Field ''wenc'' (GString []),
      Field ''type'' (GString []), Field ''words'' (GString [])]"

definition ProfanityResponse :: "string \<Rightarrow> string \<Rightarrow> string \<Rightarrow> string \<Rightarrow> member list" where
  "ProfanityResponse datetime returncd prwords regional_words =
     [Embedded (NASResponse datetime returncd), Field ''prwords'' (GString prwords),
      Field ''prwordsA'' (GString regional_words), Field ''prwordsC'' (GString regional_words),
      Field ''prwordsE'' (GString regional_words), Field ''prwordsJ'' (GString regional_words),
      Field ''prwordsK'' (GString regional_words), Field ''prwordsP'' (GString regional_words)]"

text \<open>The loop over the words: the digits written and whether a word was profane.\<close>

fun judge_words ::
  "(nat \<Rightarrow> nat) \<Rightarrow> profanity_file \<Rightarrow> string list \<Rightarrow> profanity_cache \<Rightarrow> string \<times> bool \<times> profanity_cache" where
  "judge_words fold_beyond file [] c = ([], False, c)"
| "judge_words fold_beyond file (w # ws) c =
     (let (profane, c') = is_profane fold_beyond file (bytes_of w) c;
          (digits, found, c'') = judge_words fold_beyond file ws c'
      in ((if profane then CHR ''1'' else CHR ''0'') # digits, profane \<or> found, c''))"

definition decode_words :: "string \<Rightarrow> string \<Rightarrow> string option" where
  "decode_words wenc w =
     (if wenc = ''UTF-8'' then Some w
      else if wenc = ''UTF-16LE'' then Some (string_of (UTF16Decode (bytes_of w) LittleEndian))
      else if wenc = ''UTF-16BE'' then Some (string_of (UTF16Decode (bytes_of w) BigEndian))
      else None)"

definition bad_request :: http_out where
  "bad_request = HttpError 400 ''400 Bad Request''"

definition handleAuthProfanityEndpoint ::
  "(nat \<Rightarrow> nat) \<Rightarrow> profanity_file \<Rightarrow> int \<Rightarrow> http_request \<Rightarrow> profanity_cache
     \<Rightarrow> http_out list \<times> profanity_cache" where
  "handleAuthProfanityEndpoint fold_beyond file now r c =
     (case post_form r of
        None \<Rightarrow> ([bad_request], c)
      | Some param \<Rightarrow>
          let req = unmarshal_form ProfanityRequest param in
          case decode_words (get_string req ''wenc'') (get_string req ''words'') of
            None \<Rightarrow> ([bad_request], c)
          | Some ws \<Rightarrow>
              let (prwords, found, c') = judge_words fold_beyond file (split_char CHR 0x09 ws) c;
                  resp = ProfanityResponse (getDateTime now) (if found then ''040'' else ''000'') prwords
                    (if get_string req ''wregion'' = ''A'' then prwords else [])
              in ([Body (Marshal_form resp)], c'))"

subsection \<open>Properties\<close>

lemma judge_words_cached:
  "isProfanityFileCached file c \<Longrightarrow>
     judge_words fold_beyond file ws c =
       (map (\<lambda>w. if listed_word fold_beyond (profanityFileLines c) (bytes_of w) then CHR ''1'' else CHR ''0'') ws,
        list_ex (\<lambda>w. listed_word fold_beyond (profanityFileLines c) (bytes_of w)) ws, c)"
  by (induction ws) (simp_all add: is_profane_def IsBadWord_def)

lemma plain_reply_fields:
  "list_all plain_field (flat (ProfanityResponse d r p q))" "distinct (map fst (flat (ProfanityResponse d r p q)))"
  "flat (ProfanityResponse d r p q) \<noteq> []"
  by (simp_all add: ProfanityResponse_def NASResponse_def plain_field_def unreserved_def upper_letters_def lower_letters_def)

text \<open>While the file does not change, the reply holds one digit for every word of the request, which says
  whether the word is on the list, and the return code says whether any of them is.\<close>

theorem profanity_reply:
  assumes "isProfanityFileCached file c" and "post_form r = Some param"
    and "req = unmarshal_form ProfanityRequest param"
    and "decode_words (get_string req ''wenc'') (get_string req ''words'') = Some ws"
    and "bad = (\<lambda>w. listed_word fold_beyond (profanityFileLines c) (bytes_of w))"
  shows "\<exists>reply. handleAuthProfanityEndpoint fold_beyond file now r c = ([Body reply], c) \<and>
    read_reply reply ''prwords'' = Some (map (\<lambda>w. if bad w then CHR ''1'' else CHR ''0'') (split_char CHR 0x09 ws)) \<and>
    read_reply reply ''returncd'' = Some (if list_ex bad (split_char CHR 0x09 ws) then ''040'' else ''000'')"
  using assms
  by (simp add: handleAuthProfanityEndpoint_def Let_def judge_words_cached reply_readable plain_reply_fields)
    (simp add: ProfanityResponse_def NASResponse_def)

lemma code_points_from_any: "code_points (from_code_points cs) = map (\<lambda>c. if scalar c then c else RuneError) cs"
proof -
  let ?f = "\<lambda>c. if scalar c then c else RuneError"
  have r: "scalar RuneError" by (simp add: scalar_def RuneError_def)
  have "encode_rune c = encode_rune (?f c)" for c using r by (simp add: encode_rune_def Let_def)
  then have "from_code_points cs = from_code_points (map ?f cs)" by (simp add: from_code_points_def comp_def)
  moreover have "list_all scalar (map ?f cs)" using r by (auto simp: list_all_iff)
  ultimately show ?thesis using code_points_from by metis
qed

text \<open>A line of the file that holds one of the symbols which stand for letters matches no word: the words
  are rewritten before the comparison, the lines are not.\<close>

theorem symbol_lines_never_match:
  assumes "list_ex (\<lambda>s. symbolEquivalences s \<noteq> s) (code_points line)"
    and "\<And>r. 128 \<le> r \<Longrightarrow> symbolEquivalences (fold_beyond r) = fold_beyond r"
  shows "\<not> EqualFold fold_beyond line (normalizeWord w)"
proof
  assume e: "EqualFold fold_beyond line (normalizeWord w)"
  obtain s where s: "s \<in> set (code_points line)" "symbolEquivalences s \<noteq> s"
    using assms(1) by (auto simp: list_ex_iff)
  have table: "s \<in> set [49, 48, 53, 52, 51, 55, 57, 50, 40]"
    using s(2) by (auto simp: symbolEquivalences_def split: if_splits)
  then have "fold_rune fold_beyond s = s" by (auto simp: fold_rune_def)
  then have "s \<in> set (map (fold_rune fold_beyond) (code_points (normalizeWord w)))"
    using e s(1) unfolding EqualFold_def by (metis image_eqI set_map)
  then obtain r where r: "s = fold_rune fold_beyond (if scalar (symbolEquivalences r) then symbolEquivalences r else RuneError)"
    by (auto simp: normalizeWord_def code_points_from_any)
  have idem: "symbolEquivalences (symbolEquivalences x) = symbolEquivalences x" for x
    by (simp add: symbolEquivalences_def)
  have err: "symbolEquivalences RuneError = RuneError" by (simp add: symbolEquivalences_def RuneError_def)
  have fixed: "symbolEquivalences (fold_rune fold_beyond x) = fold_rune fold_beyond x" if "symbolEquivalences x = x" for x
    using that assms(2) [of x] by (auto simp: fold_rune_def symbolEquivalences_def split: if_splits)
  have "symbolEquivalences s = s"
    unfolding r by (rule fixed) (simp add: idem err)
  then show False using s(2) by simp
qed

theorem symbol_lines_never_match_witness:
  "\<forall>w. \<not> EqualFold (\<lambda>r. r) (bytes_of ''a55'') (normalizeWord w)"
proof
  fix w
  have "decode_rune [0x61, 0x35, 0x35] = (0x61, 1)" "decode_rune [0x35, 0x35] = (0x35, 1)" "decode_rune [0x35] = (0x35, 1)"
    by simp_all
  then have "code_points (bytes_of ''a55'') = [0x61, 0x35, 0x35]" by (simp add: code_points_def bytes_of_def)
  then have "list_ex (\<lambda>s. symbolEquivalences s \<noteq> s) (code_points (bytes_of ''a55''))"
    by (simp add: symbolEquivalences_def)
  then show "\<not> EqualFold (\<lambda>r. r) (bytes_of ''a55'') (normalizeWord w)"
  proof (rule symbol_lines_never_match)
    show "symbolEquivalences r = r" if "128 \<le> r" for r
      using that by (auto simp: symbolEquivalences_def)
  qed
qed

definition sample_param :: form where
  "sample_param = map_of (map (\<lambda>(k, v). (k, [b64_encode Base64DwcEncoding (bytes_of v)]))
     [(''wenc'', ''UTF-8''), (''words'', ''mario'' @ CHR 0x09 # ''w4r10'')])"

definition sample_cache :: profanity_cache where
  "sample_cache = \<lparr>profanityFileLines = Some [''Wario''], lastModTime = 5\<rparr>"

lemma sample_words:
  "get_string (unmarshal_form ProfanityRequest sample_param) ''wenc'' = ''UTF-8''"
  "get_string (unmarshal_form ProfanityRequest sample_param) ''words'' = ''mario'' @ CHR 0x09 # ''w4r10''"
proof -
  have d: "b64_decode Base64DwcEncoding (b64_encode Base64DwcEncoding b) = Some b" "b64_decode Base64DwcEncoding [] = Some []" for b
    by (rule b64_dwc.decode_encode) (simp add: b64_decode_def)
  have b: "bytes_of s = [] \<longleftrightarrow> s = []" for s by (simp add: bytes_of_def)
  have "unmarshal_form ProfanityRequest sample_param = flat (Embedded NASRequest # [Field ''wregion'' (GString []),
      Field ''wenc'' (GString ''UTF-8''), Field ''type'' (GString []), Field ''words'' (GString (''mario'' @ CHR 0x09 # ''w4r10''))])"
    by (simp add: unmarshal_form_def ProfanityRequest_def NASRequest_def sample_param_def form_get_def d b Let_def)
  then show "get_string (unmarshal_form ProfanityRequest sample_param) ''wenc'' = ''UTF-8''"
    "get_string (unmarshal_form ProfanityRequest sample_param) ''words'' = ''mario'' @ CHR 0x09 # ''w4r10''"
    by (simp_all add: NASRequest_def get_string_def field_of_def tag_key_def tag_split_def)
qed

lemma ascii_code_points: "list_all (\<lambda>c. (of_char c :: nat) < 128) s \<Longrightarrow> code_points (bytes_of s) = map of_char s"
proof -
  assume a: "list_all (\<lambda>c. (of_char c :: nat) < 128) s"
  then have "ascii (bytes_of s)" by (simp add: ascii_def bytes_of_def list_all_iff unat_of_char_u8)
  then have "map snd (runes 0 (bytes_of s)) = map unat (bytes_of s)" by (simp add: runes_ascii)
  then show ?thesis by (simp add: code_points_def bytes_of_def unat_of_char_u8)
qed

theorem profanity_reply_witness:
  "\<exists>reply. handleAuthProfanityEndpoint (\<lambda>r. r) (Some (5, [])) 0
       \<lparr>post_form = Some sample_param, query_form = Map.empty\<rparr> sample_cache = ([Body reply], sample_cache) \<and>
     read_reply reply ''prwords'' = Some ''01'' \<and> read_reply reply ''returncd'' = Some ''040''"
proof -
  let ?bad = "\<lambda>w. listed_word (\<lambda>r. r) (profanityFileLines sample_cache) (bytes_of w)"
  have r: "list_all scalar (map symbolEquivalences (map of_char s))" if "list_all (\<lambda>c. (of_char c :: nat) < 123) s" for s
  proof -
    have "symbolEquivalences n < 123" if "n < 123" for n
      using that by (auto simp: symbolEquivalences_def split: option.splits dest!: map_of_SomeD)
    then show ?thesis using that by (fastforce simp: list_all_iff scalar_def)
  qed
  have l: "listed_word (\<lambda>r. r) (Some [''Wario'']) (bytes_of w) \<longleftrightarrow>
      map (fold_rune (\<lambda>r. r)) (map of_char ''Wario'') = map (fold_rune (\<lambda>r. r)) (map symbolEquivalences (map of_char w))"
    if "list_all (\<lambda>c. (of_char c :: nat) < 123) w" for w
  proof -
    have "list_all (\<lambda>c. (of_char c :: nat) < 128) w" using that by (auto simp: list_all_iff)
    then show ?thesis
      using code_points_from [OF r [OF that]] ascii_code_points [of w] ascii_code_points [of "''Wario''"]
      by (simp add: listed_word_def EqualFold_def normalizeWord_def)
  qed
  have b: "\<not> ?bad ''mario''" "?bad ''w4r10''"
    by (simp_all add: l sample_cache_def fold_rune_def symbolEquivalences_def)
  have "isProfanityFileCached (Some (5, [])) sample_cache" by (simp add: isProfanityFileCached_def sample_cache_def)
  from profanity_reply [OF this _ refl _ refl, of "\<lparr>post_form = Some sample_param, query_form = Map.empty\<rparr>" sample_param
      "''mario'' @ CHR 0x09 # ''w4r10''" "\<lambda>r. r" 0]
  show ?thesis using b by (simp add: sample_words decode_words_def)
qed

end
