(* ===== verification/NasUserId.thy ===== *)
theory NasUserId
  imports GoNumbers
begin

text \<open>
  \<open>nas/userid.go\<close>: what the user ID of a Nintendo DS is made of. The ID is 43 bits wide; it carries a
  random number, the last three octets of the MAC address and two marks, scrambled by two masks, a rotation,
  a permutation of bytes and a substitution of nibbles. \<open>encodeDSUserID\<close> is the inverse, which the code
  does not have: it states what the console does.
\<close>

definition invT :: "u8 list" where
  "invT = [7, 2, 5, 10, 11, 0, 13, 15, 12, 1, 6, 8, 4, 9, 3, 14]"

definition exc :: "nat list" where
  "exc = [1, 2, 0, 4, 3, 5, 6, 7]"

text \<open>\<open>binary.LittleEndian.Uint64\<close> of an array of eight bytes\<close>

definition le_value :: "bytes \<Rightarrow> u64" where
  "le_value b = of_nat (uint_be (rev b))"

text \<open>\<open>b[i] ^= m\<close> for the first six bytes\<close>

definition mask_six :: "u8 \<Rightarrow> bytes \<Rightarrow> bytes" where
  "mask_six m b = map (\<lambda>x. x XOR m) (take 6 b) @ drop 6 b"

definition sub_byte :: "u8 \<Rightarrow> u8" where
  "sub_byte x = push_bit 4 (invT ! unat (drop_bit 4 x)) OR invT ! unat (x AND 0x0F)"

definition unscramble :: "bytes \<Rightarrow> bytes" where
  "unscramble tmp = map (\<lambda>i. sub_byte (tmp ! (exc ! i))) [0..<5] @ drop 5 tmp"

definition rotate_right :: "u64 \<Rightarrow> u64" where
  "rotate_right v = drop_bit 1 v OR push_bit 42 (v AND 1)"

text \<open>\<open>1<<43 - 1\<close>\<close>

definition low43 :: u64 where
  "low43 = push_bit 43 1 - 1"

definition user_bits :: "u64 \<Rightarrow> u64" where
  "user_bits userid =
     (let v = le_value (mask_six 0x67 (le64 userid)) AND low43;
          b = le64 (rotate_right v)
      in le_value (mask_six 0xD6 (unscramble b)))"

definition decodeDSUserID :: "u64 \<Rightarrow> u16 \<times> u32 \<times> bool \<times> u8" where
  "decodeDSUserID userid =
     (let v = user_bits userid
      in (ucast (drop_bit 27 v AND 0xFFFF), ucast (drop_bit 3 v AND 0xFFFFFF), drop_bit 2 v AND 1 = 1,
          ucast (v AND 3)))"

subsection \<open>Bits and bytes\<close>

lemma uint_be_snoc: "uint_be (rev (x # xs)) = 256 * uint_be (rev xs) + unat x"
  by (simp add: uint_be_def)

lemma uint_be_bound: "uint_be (rev b) < 256 ^ length b"
proof (induction b)
  case (Cons x b)
  have "unat x < 256" using unsigned_less [of x, where ?'a = nat] by simp
  then show ?case using Cons by (simp add: uint_be_snoc del: rev.simps)
qed (simp add: uint_be_def)

lemma uint_be_nth: "i < length b \<Longrightarrow> uint_be (rev b) div 256 ^ i mod 256 = unat (b ! i)"
proof (induction b arbitrary: i)
  case (Cons x b)
  have x: "unat x < 256" using unsigned_less [of x, where ?'a = nat] by simp
  show ?case
  proof (cases i)
    case 0
    then show ?thesis using x by (simp add: uint_be_snoc del: rev.simps)
  next
    case (Suc j)
    have "(256 * uint_be (rev b) + unat x) div 256 = uint_be (rev b)" using x by simp
    then have "(256 * uint_be (rev b) + unat x) div (256 * 256 ^ j) = uint_be (rev b) div 256 ^ j"
      by (simp add: div_mult2_eq)
    then show ?thesis using Cons Suc by (simp add: uint_be_snoc del: rev.simps)
  qed
qed simp

lemma le64_nth: "i < 8 \<Longrightarrow> le64 w ! i = ucast (drop_bit (8 * i) w)"
  by (simp add: le64_def del: upt_Suc)

lemma le64_le_value:
  assumes "length b = 8"
  shows "le64 (le_value b) = b"
proof (rule nth_equalityI)
  fix i assume "i < length (le64 (le_value b))"
  then have i: "i < 8" by simp
  have "uint_be (rev b) < 2 ^ 64" using uint_be_bound [of b] assms by simp
  then have u: "unat (le_value b) = uint_be (rev b)"
    by (simp add: le_value_def unat_of_nat take_bit_nat_eq_self)
  have "(2 :: nat) ^ (8 * i) = 256 ^ i" by (simp add: power_mult)
  then have "unat (le64 (le_value b) ! i) = unat (b ! i)"
    using i assms uint_be_nth [of i b] by (simp add: le64_nth unat_ucast_drop_u8 u)
  then show "le64 (le_value b) ! i = b ! i" by (rule unsigned_word_eqI)
qed (use assms in simp)

lemma bit_le64: "i < 8 \<Longrightarrow> k < 8 \<Longrightarrow> bit (le64 w ! i) k = bit w (8 * i + k)"
  by (simp add: le64_nth bit_ucast_iff bit_drop_bit_eq)

lemma bit_le_value:
  assumes "length b = 8" and "n < 64"
  shows "bit (le_value b) n = bit (b ! (n div 8)) (n mod 8)"
proof -
  have "n div 8 < 8" using assms(2) by simp
  then show ?thesis using bit_le64 [of "n div 8" "n mod 8" "le_value b"] le64_le_value [OF assms(1)] by simp
qed

lemma length_mask_six [simp]: "length (mask_six m b) = length b"
  by (simp add: mask_six_def)

lemma mask_six_nth: "i < length b \<Longrightarrow> mask_six m b ! i = (if i < 6 then b ! i XOR m else b ! i)"
  by (auto simp: mask_six_def nth_append min_def)

lemma bit_masked:
  "n < 48 \<Longrightarrow> bit (le_value (mask_six m (le64 w))) n = (bit w n \<noteq> bit m (n mod 8))"
proof -
  assume n: "n < 48"
  then have "n div 8 < 6" by simp
  then show ?thesis
    using n by (simp add: bit_le_value mask_six_nth bit_xor_iff bit_le64)
qed

lemma bit_low43: "bit (w AND low43) n = (n < 43 \<and> bit w n)"
proof -
  have e: "low43 = mask 43" by (simp add: low43_def mask_eq_exp_minus_1)
  show ?thesis unfolding e by (auto simp: bit_and_iff bit_mask_iff dest: bit_imp_le_length)
qed

subsection \<open>The console's side\<close>

definition nibbles :: "u8 list" where
  "nibbles = [5, 9, 1, 14, 12, 2, 10, 0, 11, 13, 3, 4, 8, 6, 15, 7]"

definition sub_inverse_byte :: "u8 \<Rightarrow> u8" where
  "sub_inverse_byte x = push_bit 4 (nibbles ! unat (drop_bit 4 x)) OR nibbles ! unat (x AND 0x0F)"

definition scramble :: "bytes \<Rightarrow> bytes" where
  "scramble b = map (\<lambda>i. sub_inverse_byte (b ! i)) [2, 0, 1, 4, 3] @ drop 5 b"

definition rotate_left :: "u64 \<Rightarrow> u64" where
  "rotate_left v = (push_bit 1 v AND low43) OR (drop_bit 42 v AND 1)"

definition packed_id :: "u16 \<Rightarrow> u32 \<Rightarrow> bool \<Rightarrow> u8 \<Rightarrow> u64" where
  "packed_id uid mac vendor unk =
     push_bit 27 (ucast uid) OR push_bit 3 (ucast mac) OR (if vendor then 4 else 0) OR ucast unk"

definition encodeDSUserID :: "u16 \<Rightarrow> u32 \<Rightarrow> bool \<Rightarrow> u8 \<Rightarrow> u64" where
  "encodeDSUserID uid mac vendor unk =
     (let b = scramble (mask_six 0xD6 (le64 (packed_id uid mac vendor unk)))
      in le_value (mask_six 0x67 (le64 (rotate_left (le_value b AND low43)))) AND low43)"

lemma nibble_table: "list_all (\<lambda>x. unat (nibbles ! x) < 16 \<and> invT ! unat (nibbles ! x) = of_nat x) [0..<16]"
  by code_simp

lemma bit_small: "unat (w :: u8) < 2 ^ k \<Longrightarrow> bit w n \<Longrightarrow> n < k"
proof -
  assume w: "unat w < 2 ^ k" and b: "bit w n"
  have "take_bit k (unat w) = unat w" using w by (simp add: take_bit_nat_eq_self)
  moreover have "bit (unat w) n" using b by (simp add: bit_unsigned_iff)
  ultimately show ?thesis by (metis bit_take_bit_iff)
qed

lemma nibble_pair:
  assumes "unat a < 16" and "unat b < 16"
  shows "drop_bit 4 (push_bit 4 a OR b) = (a :: u8)" and "(push_bit 4 a OR b) AND 0x0F = b"
proof -
  have a: "bit a n \<Longrightarrow> n < 4" and b: "bit b n \<Longrightarrow> n < 4" for n
    using bit_small [of _ 4] assms by auto
  have f: "(0x0F :: u8) = mask 4" by (simp add: mask_eq_exp_minus_1)
  show "drop_bit 4 (push_bit 4 a OR b) = (a :: u8)"
    by (rule bit_word_eqI) (auto simp: bit_drop_bit_eq bit_or_iff bit_push_bit_iff dest: a b)
  show "(push_bit 4 a OR b) AND 0x0F = b"
    unfolding f by (rule bit_word_eqI) (auto simp: bit_and_iff bit_mask_iff bit_or_iff bit_push_bit_iff dest: b)
qed

lemma sub_byte_inverse: "sub_byte (sub_inverse_byte x) = x"
proof -
  have hi: "unat (drop_bit 4 x) < 16"
    using unsigned_less [of x, where ?'a = nat] by (simp add: unat_drop_div less_mult_imp_div_less)
  have lo: "unat (x AND 0x0F) < 16"
    using unsigned_less [of x, where ?'a = nat] word_and_le1 [of x "0x0F"] by (simp add: word_le_nat_alt)
  have t: "unat (nibbles ! i) < 16" "invT ! unat (nibbles ! i) = of_nat i" if "i < 16" for i
    using nibble_table that unfolding list_all_iff by simp_all
  have "sub_byte (sub_inverse_byte x) = push_bit 4 (drop_bit 4 x) OR (x AND 0x0F)"
    unfolding sub_byte_def sub_inverse_byte_def nibble_pair [OF t(1) [OF hi] t(1) [OF lo]] t(2) [OF hi] t(2) [OF lo]
    by simp
  also have "\<dots> = x"
  proof (rule bit_word_eqI)
    have f: "(0x0F :: u8) = mask 4" by (simp add: mask_eq_exp_minus_1)
    fix n assume "n < LENGTH(8)"
    then show "bit (push_bit 4 (drop_bit 4 x) OR (x AND 0x0F)) n = bit x n"
      unfolding f by (auto simp: bit_or_iff bit_and_iff bit_mask_iff bit_push_bit_iff bit_drop_bit_eq)
  qed
  finally show ?thesis .
qed

lemma bit_rotate_left:
  "n < 64 \<Longrightarrow> bit (rotate_left w) n = (n = 0 \<and> bit w 42 \<or> 0 < n \<and> n < 43 \<and> bit w (n - 1))"
  unfolding rotate_left_def bit_or_iff bit_low43
  unfolding bit_and_iff bit_1_iff bit_push_bit_iff bit_drop_bit_eq
  by (cases n) auto

lemma bit_rotate_right:
  "n < 64 \<Longrightarrow> bit (rotate_right w) n = (bit w (Suc n) \<or> n = 42 \<and> bit w 0)"
  unfolding rotate_right_def bit_or_iff bit_and_iff bit_1_iff bit_push_bit_iff bit_drop_bit_eq
  by auto

lemma rotate_back: "rotate_right (rotate_left (w AND low43)) = w AND low43"
proof (rule bit_word_eqI)
  fix n assume n: "n < LENGTH(64)"
  show "bit (rotate_right (rotate_left (w AND low43))) n = bit (w AND low43) n"
  proof (cases "Suc n < 64")
    case True
    then show ?thesis
      using n by (cases "n = 42") (auto simp: bit_rotate_right bit_rotate_left bit_low43)
  next
    case False
    then show ?thesis using n by (auto simp: bit_rotate_right bit_low43 dest: bit_imp_le_length)
  qed
qed

lemma rotate_left_low: "rotate_left w AND low43 = rotate_left w"
  by (rule bit_word_eqI) (auto simp: bit_rotate_left bit_low43)

lemma unmask_low:
  "le_value (mask_six m (le64 (le_value (mask_six m (le64 r)) AND low43))) AND low43
     = r AND low43"
  by (rule bit_word_eqI) (auto simp: bit_low43 bit_masked)

lemma scrambled_bits:
  assumes "n < 43"
  shows "bit (le_value (mask_six m (unscramble (le64 (le_value (scramble (mask_six m (le64 v))) AND low43))))) n
     = bit v n"
proof -
  define s where "s = scramble (mask_six m (le64 v))"
  define t where "t = le64 (le_value s AND low43)"
  have ls: "length s = 8" by (simp add: s_def scramble_def)
  have lt: "length t = 8" by (simp add: t_def)
  have bt: "bit (t ! i) k = (8 * i + k < 43 \<and> bit (s ! i) k)" if "i < 8" "k < 8" for i k
    using that ls by (simp add: t_def bit_le64 bit_low43 bit_le_value)
  have low: "t ! i = s ! i" if "i < 5" for i
    by (rule bit_word_eqI) (use that bt [of i] in auto)
  have five: "unscramble t ! i = mask_six m (le64 v) ! i" if "i < 5" for i
  proof -
    have u: "unscramble t ! i = sub_byte (t ! (exc ! i))"
      using that by (simp add: unscramble_def nth_append)
    have "exc ! i < 5 \<and> s ! (exc ! i) = sub_inverse_byte (mask_six m (le64 v) ! i)"
    proof -
      have "i = 0 \<or> i = 1 \<or> i = 2 \<or> i = 3 \<or> i = 4" using that by presburger
      then show ?thesis by (elim disjE) (simp_all add: s_def scramble_def exc_def nth_Cons')
    qed
    then show ?thesis by (simp add: u low sub_byte_inverse)
  qed
  have l: "length (unscramble t) = 8" by (simp add: unscramble_def lt)
  have six: "unscramble t ! 5 = t ! 5" by (simp add: unscramble_def nth_append lt)
  have s5: "s ! 5 = mask_six m (le64 v) ! 5" by (simp add: s_def scramble_def nth_append)
  have "n div 8 < 6" using assms by simp
  then have d: "n div 8 < 5 \<or> n div 8 = 5" by auto
  have "bit (unscramble t ! (n div 8)) (n mod 8) = bit (mask_six m (le64 v) ! (n div 8)) (n mod 8)"
    using d
  proof
    assume e: "n div 8 = 5"
    then have "8 * 5 + n mod 8 = n" using div_mult_mod_eq [of n 8] by simp
    then show ?thesis using e six s5 bt [of 5 "n mod 8"] assms by simp
  qed (simp add: five)
  then show ?thesis
    using \<open>n div 8 < 6\<close> assms
    by (simp add: t_def [symmetric] s_def [symmetric] bit_le_value l mask_six_nth bit_xor_iff bit_le64) blast
qed

lemma user_bits_encoded:
  "n < 43 \<Longrightarrow> bit (user_bits (encodeDSUserID uid mac vendor unk)) n = bit (packed_id uid mac vendor unk) n"
  by (simp add: user_bits_def encodeDSUserID_def Let_def unmask_low rotate_left_low rotate_back scrambled_bits)

lemma DS_user_id_decoded:
  assumes "mac < 2 ^ 24" and "unk < 4"
  shows "decodeDSUserID (encodeDSUserID uid mac vendor unk) = (uid, mac, vendor, unk)"
proof -
  let ?v = "user_bits (encodeDSUserID uid mac vendor unk)"
  have m: "bit mac n \<Longrightarrow> n < 24" for n
  proof -
    assume b: "bit mac n"
    have "take_bit 24 (unat mac) = unat mac" using assms(1) by (simp add: take_bit_nat_eq_self word_less_nat_alt)
    moreover have "bit (unat mac) n" using b by (simp add: bit_unsigned_iff)
    ultimately show "n < 24" by (metis bit_take_bit_iff)
  qed
  have k: "bit unk n \<Longrightarrow> n < 2" for n
    using bit_small [of unk 2] assms(2) by (simp add: word_less_nat_alt)
  have four: "bit (4 :: u64) n = (n = 2)" for n
    using bit_push_bit_iff [of 2 "1 :: u64" n] by (auto simp: bit_1_iff)
  have v: "bit ?v n = (27 \<le> n \<and> bit uid (n - 27) \<or> 3 \<le> n \<and> bit mac (n - 3) \<or> vendor \<and> n = 2 \<or> bit unk n)"
    if "n < 43" for n
    unfolding user_bits_encoded [OF that] packed_id_def bit_or_iff bit_push_bit_iff
    using that four [of n] less_imp_diff_less [of n 64 27] less_imp_diff_less [of n 64 3]
    by (cases vendor) (simp_all add: bit_ucast_iff)
  define w where "w = ?v"
  have mac: "\<not> bit mac (n + 24)" and unk: "\<not> bit unk (n + 2)" and unk3: "\<not> bit unk (n + 3)" for n
    using m [of "n + 24"] k [of "n + 2"] k [of "n + 3"] by auto
  have w1: "bit w (n + 27) = bit uid n" if "n < 16" for n
    using that v [of "n + 27"] mac [of n] unk [of "n + 25"] by (simp add: w_def add.commute [of n])
  have w2: "bit w (n + 3) = bit mac n" if "n < 24" for n
    using that v [of "n + 3"] unk3 [of n] by (simp add: w_def add.commute [of n])
  have w3: "bit w 2 = vendor" using v [of 2] k [of 2] by (auto simp: w_def)
  have w4: "bit w n = bit unk n" if "n < 2" for n
    using that v [of n] by (simp add: w_def)
  have "ucast (drop_bit 27 w AND 0xFFFF) = uid"
  proof (rule bit_word_eqI)
    fix n assume n: "n < LENGTH(16)"
    have e: "(0xFFFF :: u64) = mask 16" by (simp add: mask_eq_exp_minus_1)
    show "bit (ucast (drop_bit 27 w AND 0xFFFF) :: u16) n = bit uid n"
      unfolding e bit_ucast_iff bit_and_iff bit_mask_iff bit_drop_bit_eq
      using n w1 [of n] by (simp add: add.commute)
  qed
  moreover have "ucast (drop_bit 3 w AND 0xFFFFFF) = mac"
  proof (rule bit_word_eqI)
    fix n assume n: "n < LENGTH(32)"
    have e: "(0xFFFFFF :: u64) = mask 24" by (simp add: mask_eq_exp_minus_1)
    show "bit (ucast (drop_bit 3 w AND 0xFFFFFF) :: u32) n = bit mac n"
      unfolding e bit_ucast_iff bit_and_iff bit_mask_iff bit_drop_bit_eq
      using n w2 [of n] m [of n] by (auto simp: add.commute)
  qed
  moreover have "drop_bit 2 w AND 1 = 1 \<longleftrightarrow> vendor"
    using w3 by (simp add: and_one_eq bit_iff_odd_drop_bit odd_iff_mod_2_eq_one)
  moreover have "ucast (w AND 3) = unk"
  proof (rule bit_word_eqI)
    fix n assume n: "n < LENGTH(8)"
    have e: "(3 :: u64) = mask 2" by (simp add: mask_eq_exp_minus_1)
    show "bit (ucast (w AND 3) :: u8) n = bit unk n"
      unfolding e bit_ucast_iff bit_and_iff bit_mask_iff using n w4 [of n] k [of n] by auto
  qed
  ultimately show ?thesis by (simp add: decodeDSUserID_def w_def)
qed

text \<open>The ID a console builds from its random number, its MAC address and its two marks is decoded into
  exactly these.\<close>

theorem DS_user_id_roundtrip:
  assumes "mac < 2 ^ 24" and "unk < 4"
  shows "decodeDSUserID (encodeDSUserID uid mac vendor unk) = (uid, mac, vendor, unk)"
  using assms by (rule DS_user_id_decoded)

theorem DS_user_id_roundtrip_witness:
  "decodeDSUserID (encodeDSUserID 0x1234 0xABCDEF True 2) = (0x1234, 0xABCDEF, True, 2)"
  by (rule DS_user_id_roundtrip) simp_all

end
