(* ===== verification/NasAccount.thy ===== *)
theory NasAccount
  imports NasProfanity NasUserId AuthToken Database GoCrypto
begin

text \<open>
  \<open>nas/account.go\<close>: creating an account, logging in, which hands out the token for the profile server, and
  the service locator, which hands out the token for the download server. The state is the database and
  the cached list of profane words; \<open>nas_env\<close> holds what comes from elsewhere. A handler returns the reply,
  the error it logs and the state. \<open>Panic\<close> of the endpoint is the call of a missing handler, after which
  \<open>net/http\<close> drops the connection.
\<close>

record nas_env =
  nas_tokens :: token_env
  nas_now :: int           \<comment> \<open>nanoseconds\<close>
  nas_challenge :: string  \<comment> \<open>\<open>common.RandomString(8)\<close>\<close>
  nas_fold :: "nat \<Rightarrow> nat"
  nas_words :: profanity_file

type_synonym nas_state = "db \<times> profanity_cache"

definition LoginOK :: string where "LoginOK = ''001''"
definition AcctCreateOK :: string where "AcctCreateOK = ''002''"
definition SvcLocOK :: string where "SvcLocOK = ''007''"
definition LoginProfane :: string where "LoginProfane = ''040''"
definition Unavailable :: string where "Unavailable = ''101''"
definition UserBanned :: string where "UserBanned = ''102''"
definition UserInfoMismatch :: string where "UserInfoMismatch = ''103''"
definition UserIDTaken :: string where "UserIDTaken = ''104''"
definition UserIDUnknown :: string where "UserIDUnknown = ''105''"
definition DeviceIDUsed :: string where "DeviceIDUsed = ''106''"
definition MissingParam :: string where "MissingParam = ''109''"

text \<open>The errors that handlers make up, by the field they complain about, and those of the database.\<close>

datatype nas_error = InvalidField string | FieldMismatch string | UnknownUser | BannedUser | DbError db_error

text \<open>\<open>strconv.FormatUint\<close> to base 16\<close>

fun format_hex :: "nat \<Rightarrow> string" where
  "format_hex n =
     (if n < 16 then [''0123456789abcdef'' ! n] else format_hex (n div 16) @ [''0123456789abcdef'' ! (n mod 16)])"

declare format_hex.simps [simp del]

definition mac_of_user :: "u64 \<Rightarrow> u32" where
  "mac_of_user userid = (case decodeDSUserID userid of (_, mac, _, _) \<Rightarrow> mac)"

definition mac_matches :: "u64 \<Rightarrow> string \<Rightarrow> bool" where
  "mac_matches userid macadr = has_suffix macadr (format_hex (unat (mac_of_user userid)))"

definition user_id :: "field list \<Rightarrow> u64" where
  "user_id req = of_int (get_int req ''userid'')"

text \<open>The account a request describes, with the checks before it is stored.\<close>

definition new_user :: "field list \<Rightarrow> (string \<times> nas_error) + user" where
  "new_user req =
     (let unitcd = get_int req ''unitcd''; macadr = get_string req ''macadr'';
          passwd = get_int req ''passwd''; csnum = get_string req ''csnum'';
          user = \<lparr>UserID = user_id req, UnitCode = unitcd, MacAddress = macadr, Password = 0, SerialNumber = [], Banned = False\<rparr>
      in if unitcd \<noteq> 0 \<and> unitcd \<noteq> 1 then Inl (MissingParam, InvalidField ''unitcd'')
         else if length macadr \<noteq> 12 then Inl (MissingParam, InvalidField ''macadr'')
         else if \<not> IsWii user then
           (if \<not> mac_matches (user_id req) macadr then Inl (UserInfoMismatch, FieldMismatch ''userid'')
            else if 999 < passwd then Inl (MissingParam, InvalidField ''passwd'')
            else Inr (user\<lparr>Password := passwd\<rparr>))
         else if length csnum \<noteq> 11 then Inl (MissingParam, InvalidField ''csnum'')
         else Inr (user\<lparr>SerialNumber := csnum\<rparr>))"

definition create_code :: "db_error \<Rightarrow> string" where
  "create_code e =
     (case e of ErrUserIDInUse \<Rightarrow> UserIDTaken | ErrMACInUse \<Rightarrow> DeviceIDUsed | ErrSerialNumberInUse \<Rightarrow> DeviceIDUsed
      | _ \<Rightarrow> Unavailable)"

text \<open>The return code, the error and the database.\<close>

definition acAccountCreate :: "field list \<Rightarrow> db \<Rightarrow> (string \<times> nas_error option) \<times> db" where
  "acAccountCreate req d =
     (case new_user req of
        Inl (code, e) \<Rightarrow> ((code, Some e), d)
      | Inr user \<Rightarrow>
          (case CreateUser user d of
             Ret d' \<Rightarrow> ((AcctCreateOK, None), d')
           | Err e \<Rightarrow> ((create_code e, Some (DbError e)), d)
           | Panic \<Rightarrow> ((AcctCreateOK, None), d)))"

subsection \<open>Logging in\<close>

definition zero_token :: NASAuthToken where
  "zero_token = \<lparr>IssueTime = 0, token_WFCID = 0, token_ProfileID = 0, ConsoleFriendCode = 0, Region = 0, Lang = 0,
     token_UnitCode = 0, GameCode = replicate 4 0, token_Challenge = replicate 8 0,
     InGameScreenName = replicate 64 0, Magic = replicate 8 0\<rparr>"

text \<open>The user of a request, who is created when there is none.\<close>

definition login_user :: "field list \<Rightarrow> db \<Rightarrow> ((string \<times> nas_error) + user) \<times> db" where
  "login_user req d =
     (case GetUser (user_id req) d of
        Some user \<Rightarrow> (Inr user, d)
      | None \<Rightarrow>
          (case acAccountCreate req d of
             ((code, Some e), d') \<Rightarrow> (Inl (code, e), d')
           | ((_, None), d') \<Rightarrow>
               (case GetUser (user_id req) d' of
                  Some user \<Rightarrow> (Inr user, d')
                | None \<Rightarrow> (Inl (UserIDUnknown, UnknownUser), d'))))"

text \<open>The profile of the game, which is created at the first login.\<close>

definition login_profile :: "user \<Rightarrow> string \<Rightarrow> db \<Rightarrow> ((string \<times> nas_error) + u32) \<times> db" where
  "login_profile user gsbrcd d =
     (if length gsbrcd \<noteq> 11 then (Inl (MissingParam, InvalidField ''gsbrcd''), d)
      else case GetProfileID (UserID user) gsbrcd d of
        Ret i \<Rightarrow> (Inr i, d)
      | Err ErrNoRows \<Rightarrow>
          (case CreateProfile (UserID user) gsbrcd d of
             Ret (d', i) \<Rightarrow> (Inr i, d')
           | Err e \<Rightarrow> (Inl (Unavailable, DbError e), d)
           | Panic \<Rightarrow> (Inr 0, d))
      | Err e \<Rightarrow> (Inl (Unavailable, DbError e), d)
      | Panic \<Rightarrow> (Inr 0, d))"

text \<open>One byte printed in hexadecimal\<close>

definition hex_byte :: "string \<Rightarrow> u8 option" where
  "hex_byte s = (case hex_decode s of Some [b] \<Rightarrow> Some b | _ \<Rightarrow> None)"

text \<open>The checks of what only one kind of console sends: the name and the token afterwards.\<close>

definition console_checks ::
  "field list \<Rightarrow> user \<Rightarrow> bytes \<Rightarrow> NASAuthToken \<Rightarrow> (string \<times> nas_error) + bytes \<times> NASAuthToken" where
  "console_checks req user name t =
     (if \<not> IsWii user then
        (if get_int req ''passwd'' \<noteq> Password user then Inl (UserIDUnknown, FieldMismatch ''passwd'')
         else if get_string req ''devname'' = [] then Inl (MissingParam, InvalidField ''devname'')
         else Inr (if get_string req ''ingamesn'' = []
                   then UTF16Decode (bytes_of (get_string req ''devname'')) LittleEndian else name, t))
      else if SerialNumber user \<noteq> get_string req ''csnum'' then Inl (UserInfoMismatch, FieldMismatch ''csnum'')
      else case hex_byte (get_string req ''region'') of
        None \<Rightarrow> Inl (MissingParam, InvalidField ''region'')
      | Some region \<Rightarrow> Inr (name, t\<lparr>ConsoleFriendCode := of_int (get_int req ''cfc''), Region := region\<rparr>))"

definition screen_name :: "field list \<Rightarrow> user \<Rightarrow> bytes" where
  "screen_name req user =
     (let sn = get_string req ''ingamesn'' in
      if sn = [] then [] else UTF16Decode (bytes_of sn) (if IsWii user then BigEndian else LittleEndian))"

record login_reply =
  ReturnCode :: string
  Locator :: string
  lr_Challenge :: string
  Token :: string

definition failed :: "string \<Rightarrow> string \<Rightarrow> string \<Rightarrow> login_reply" where
  "failed code locator challenge = \<lparr>ReturnCode = code, Locator = locator, lr_Challenge = challenge, Token = []\<rparr>"

definition gamespy_host :: string where "gamespy_host = ''gamespy.com''"

text \<open>From the language on, with the token as far as it is filled\<close>

definition login_console ::
  "nas_env \<Rightarrow> field list \<Rightarrow> user \<Rightarrow> string \<Rightarrow> NASAuthToken \<Rightarrow> nas_state
     \<Rightarrow> (login_reply \<times> nas_error option) \<times> nas_state" where
  "login_console env req user challenge t st =
     (let fail = (\<lambda>code. failed code gamespy_host challenge) in
      case hex_byte (get_string req ''lang'') of
        None \<Rightarrow> ((fail MissingParam, Some (InvalidField ''lang'')), st)
      | Some lang \<Rightarrow>
          if get_int req ''unitcd'' \<noteq> UnitCode user then ((fail UserInfoMismatch, Some (FieldMismatch ''unitcd'')), st)
          else
            let t = t\<lparr>Lang := lang, token_UnitCode := of_int (UnitCode user)\<rparr>;
                name = screen_name req user;
                (profane, cache) = (if get_string req ''ingamesn'' = [] then (False, snd st)
                   else is_profane (nas_fold env) (nas_words env) name (snd st));
                st = (fst st, cache);
                code = (if profane then LoginProfane else LoginOK)
            in case console_checks req user name t of
                 Inl (code, e) \<Rightarrow> ((fail code, Some e), st)
               | Inr (name, t) \<Rightarrow>
                   let t = t\<lparr>InGameScreenName := copy_at 0 (take 64 name) (InGameScreenName t)\<rparr>;
                       d = (case UpdateUserName (UserID user) (string_of name) (fst st) of Ret d \<Rightarrow> d | _ \<Rightarrow> fst st)
                   in ((\<lparr>ReturnCode = code, Locator = gamespy_host, lr_Challenge = challenge,
                         Token = marshal_token (nas_tokens env) (nas_now env) t\<rparr>, None), (d, snd st)))"

definition acLogin :: "nas_env \<Rightarrow> field list \<Rightarrow> nas_state \<Rightarrow> (login_reply \<times> nas_error option) \<times> nas_state" where
  "acLogin env req st =
     (case login_user req (fst st) of
        (Inl (code, e), d) \<Rightarrow>
          ((failed code (if e = UnknownUser then gamespy_host else []) [], Some e), (d, snd st))
      | (Inr user, d) \<Rightarrow>
          if Banned user then ((failed UserBanned gamespy_host [], Some BannedUser), (d, snd st))
          else
            let t = zero_token\<lparr>token_WFCID := user_id req,
                  GameCode := copy_at 0 (take 4 (bytes_of (get_string req ''gamecd''))) (GameCode zero_token)\<rparr>;
                gsbrcd = get_string req ''gsbrcd''
            in if gsbrcd = [] then login_console env req user [] t (d, snd st)
               else case login_profile user gsbrcd d of
                 (Inl (code, e), d) \<Rightarrow> ((failed code gamespy_host [], Some e), (d, snd st))
               | (Inr i, d) \<Rightarrow>
                   login_console env req user (nas_challenge env)
                     (t\<lparr>token_ProfileID := i,
                        token_Challenge := copy_at 0 (take 8 (bytes_of (nas_challenge env))) (token_Challenge t)\<rparr>)
                     (d, snd st))"

subsection \<open>Services\<close>

record service_reply =
  sr_ReturnCode :: string
  ServiceHost :: string
  ServiceToken :: string

text \<open>The request is passed on without a game's account: the schema of the service locator has no
  \<open>gsbrcd\<close>.\<close>

definition acServiceLocator ::
  "nas_env \<Rightarrow> field list \<Rightarrow> nas_state \<Rightarrow> (service_reply \<times> nas_error option) \<times> nas_state" where
  "acServiceLocator env req st =
     (case acLogin env req st of
        ((resp, e), st') \<Rightarrow>
          if e \<noteq> None \<or> ReturnCode resp \<noteq> LoginOK
          then ((\<lparr>sr_ReturnCode = ReturnCode resp, ServiceHost = [], ServiceToken = []\<rparr>, e), st')
          else if get_int req ''svc'' = 9000 \<or> get_int req ''svc'' = 9001
          then ((\<lparr>sr_ReturnCode = SvcLocOK, ServiceHost = ''dls1.nintendowifi.net'', ServiceToken = Token resp\<rparr>, None), st')
          else ((\<lparr>sr_ReturnCode = SvcLocOK, ServiceHost = ''n/a'', ServiceToken = []\<rparr>, None), st'))"

subsection \<open>The endpoint\<close>

definition AccountCreateRequest :: "member list" where
  "AccountCreateRequest = [Embedded NASRequest]"

definition AccountCreateResponse :: "string \<Rightarrow> string \<Rightarrow> member list" where
  "AccountCreateResponse datetime code = [Embedded (NASResponse datetime code)]"

definition LoginRequest :: "member list" where
  "LoginRequest = [Embedded NASRequest, Field ''gsbrcd'' (GString [])]"

definition LoginResponse :: "string \<Rightarrow> login_reply \<Rightarrow> member list" where
  "LoginResponse datetime resp =
     [Embedded (NASResponse datetime (ReturnCode resp)), Field ''locator'' (GString (Locator resp)),
      Field ''challenge'' (GString (lr_Challenge resp)), Field ''token'' (GString (Token resp))]"

definition ServiceLocatorRequest :: "member list" where
  "ServiceLocatorRequest = [Embedded NASRequest, Field ''svc'' (GInt 64 0)]"

definition ServiceLocatorResponse :: "string \<Rightarrow> service_reply \<Rightarrow> member list" where
  "ServiceLocatorResponse datetime resp =
     [Embedded (NASResponse datetime (sr_ReturnCode resp)), Field ''statusdata'' (GString ''Y''),
      Field ''svchost'' (GString (ServiceHost resp)), Field ''servicetoken'' (GString (ServiceToken resp))]"

text \<open>\<open>handleAccount\<close>: the form is read, the handler run, and its reply printed whether or not it returns
  an error.\<close>

definition accountHandlers :: "string \<Rightarrow> (nas_env \<Rightarrow> form \<Rightarrow> nas_state \<Rightarrow> string \<times> nas_state) option" where
  "accountHandlers action =
     (if action = ''ACCTCREATE'' then Some (\<lambda>env param st.
        case acAccountCreate (unmarshal_form AccountCreateRequest param) (fst st) of ((code, _), d) \<Rightarrow>
          (Marshal_form (AccountCreateResponse (getDateTime (nas_now env)) code), (d, snd st)))
      else if action = ''LOGIN'' then Some (\<lambda>env param st.
        case acLogin env (unmarshal_form LoginRequest param) st of ((resp, _), st') \<Rightarrow>
          (Marshal_form (LoginResponse (getDateTime (nas_now env)) resp), st'))
      else if action = ''SVCLOC'' then Some (\<lambda>env param st.
        case acServiceLocator env (unmarshal_form ServiceLocatorRequest param) st of ((resp, _), st') \<Rightarrow>
          (Marshal_form (ServiceLocatorResponse (getDateTime (nas_now env)) resp), st'))
      else None)"

text \<open>What is written before the end, whether the handler panicked, and the state. Neither of the error
  replies returns.\<close>

definition handleAuthAccountEndpoint ::
  "nas_env \<Rightarrow> http_request \<Rightarrow> nas_state \<Rightarrow> (http_out list \<times> bool) \<times> nas_state" where
  "handleAuthAccountEndpoint env r st =
     (let text = FormValue r ''action'';
          outs = (if b64_decode Base64DwcEncoding text = None then [bad_request] else [])
      in case accountHandlers (string_of (b64_decoded Base64DwcEncoding text)) of
           None \<Rightarrow> ((outs @ [bad_request], True), st)
         | Some handler \<Rightarrow>
             (case handler env (PostForm r) st of (resp, st') \<Rightarrow> ((outs @ [Body resp], False), st')))"

subsection \<open>The database stays consistent\<close>

lemma acAccountCreate_ok: "acAccountCreate req d = (r, d') \<Longrightarrow> db_ok d \<Longrightarrow> db_ok d'"
  by (auto simp: acAccountCreate_def dest: CreateUser_ok split: sum.splits outcome.splits)

lemma login_user_ok: "login_user req d = (r, d') \<Longrightarrow> db_ok d \<Longrightarrow> db_ok d'"
  by (auto simp: login_user_def dest: acAccountCreate_ok split: option.splits prod.splits)

lemma login_profile_ok: "login_profile user g d = (r, d') \<Longrightarrow> db_ok d \<Longrightarrow> db_ok d'"
  by (auto simp: login_profile_def dest: CreateProfile_ok split: if_splits outcome.splits db_error.splits prod.splits)

lemma login_console_ok: "login_console env req user ch t st = (r, st') \<Longrightarrow> db_ok (fst st) \<Longrightarrow> db_ok (fst st')"
  by (auto simp: login_console_def Let_def dest: UpdateUserName_ok
      split: option.splits if_splits sum.splits outcome.splits prod.splits)

lemma acLogin_ok: "acLogin env req st = (r, st') \<Longrightarrow> db_ok (fst st) \<Longrightarrow> db_ok (fst st')"
  by (auto simp: acLogin_def Let_def dest: login_user_ok login_profile_ok
      dest!: login_console_ok [where st = "(_, _)", unfolded fst_conv] split: sum.splits if_splits prod.splits)

lemma acServiceLocator_ok: "acServiceLocator env req st = (r, st') \<Longrightarrow> db_ok (fst st) \<Longrightarrow> db_ok (fst st')"
  by (auto simp: acServiceLocator_def dest: acLogin_ok split: if_splits prod.splits)

lemma endpoint_ok: "handleAuthAccountEndpoint env r st = (out, st') \<Longrightarrow> db_ok (fst st) \<Longrightarrow> db_ok (fst st')"
  by (auto simp: handleAuthAccountEndpoint_def accountHandlers_def Let_def
      dest: acAccountCreate_ok acLogin_ok acServiceLocator_ok split: if_splits option.splits prod.splits)

subsection \<open>Who gets a token\<close>

lemma renamed:
  assumes "UpdateUserName i n d = Ret d'"
  shows "d' = d \<or> (\<exists>r. map_of (users d) i = Some r \<and> d' = d\<lparr>users := AList.update i (r\<lparr>u_name := Some n\<rparr>) (users d)\<rparr>)"
  using assms by (auto simp: UpdateUserName_def split: option.splits if_splits)

lemma GetUser_rename: "UpdateUserName i n d = Ret d' \<Longrightarrow> GetUser w d' = GetUser w d"
  by (drule renamed, elim disjE exE conjE) (simp_all add: GetUser_def update_conv)

lemma GetProfileID_rename: "UpdateUserName i n d = Ret d' \<Longrightarrow> GetProfileID w g d' = GetProfileID w g d"
  by (drule renamed, elim disjE exE conjE) (simp_all add: GetProfileID_def online_def)

lemma GetProfileID_not_Panic: "GetProfileID w g d \<noteq> Panic"
  by (auto simp: GetProfileID_def online_def split: option.splits)

lemma CreateProfile_not_Panic: "CreateProfile w g d \<noteq> Panic"
  by (auto simp: CreateProfile_def online_def Let_def split: option.splits)

lemma CreateUser_not_Panic: "CreateUser u d \<noteq> Panic"
  by (auto simp: CreateUser_def online_def)

lemma find_append_new: "find P xs = None \<Longrightarrow> P x \<Longrightarrow> find P (xs @ [x]) = Some x"
  by (induction xs) auto

lemma created_profile:
  assumes "CreateProfile w g d = Ret (d', i)" and "GetProfileID w g d = Err ErrNoRows"
  shows "GetProfileID w g d' = Ret i" "GetUser u d' = GetUser u d"
proof -
  have up: "up d" and new: "map_of (profiles d) i = None"
    and d': "d' = d\<lparr>profiles := AList.update i \<lparr>p_wfcid = w, p_gsbrcd = g, p_firstname = None, p_lastname = []\<rparr> (profiles d),
       next_profile := next_profile d'\<rparr>"
    using assms(1) by (auto simp: CreateProfile_def Let_def split: if_splits)
  have "find (\<lambda>(_, r). same_account w g r) (profiles d) = None"
    using assms(2) by (auto simp: GetProfileID_def online_def split: if_splits option.splits)
  then have "find (\<lambda>(_, r). same_account w g r)
      (profiles d @ [(i, \<lparr>p_wfcid = w, p_gsbrcd = g, p_firstname = None, p_lastname = []\<rparr>)]) =
      Some (i, \<lparr>p_wfcid = w, p_gsbrcd = g, p_firstname = None, p_lastname = []\<rparr>)"
    by (rule find_append_new) (simp add: same_account_def)
  then have "find (\<lambda>(_, r). same_account w g r) (profiles d') =
      Some (i, \<lparr>p_wfcid = w, p_gsbrcd = g, p_firstname = None, p_lastname = []\<rparr>)"
    by (subst d') (simp add: update_absent new)
  moreover have "up d'" by (subst d') (simp add: up)
  ultimately show "GetProfileID w g d' = Ret i" by (simp add: GetProfileID_def online_def)
  show "GetUser u d' = GetUser u d" by (subst d') (simp add: GetUser_def)
qed

lemma login_user_found: "login_user req d = (Inr user, d') \<Longrightarrow> GetUser (user_id req) d' = Some user"
  by (auto simp: login_user_def split: option.splits prod.splits)

lemma GetUser_id: "GetUser w d = Some user \<Longrightarrow> UserID user = w"
  by (auto simp: GetUser_def split: if_splits option.splits)

lemma login_profile_found:
  assumes "login_profile user g d = (Inr i, d')"
  shows "GetProfileID (UserID user) g d' = Ret i" "GetUser w d' = GetUser w d"
  using assms created_profile [of "UserID user" g d d' i]
  by (auto simp: login_profile_def GetProfileID_not_Panic CreateProfile_not_Panic
      split: if_splits outcome.splits db_error.splits prod.splits)

definition may_login :: "field list \<Rightarrow> user \<Rightarrow> bool" where
  "may_login req user \<longleftrightarrow> \<not> Banned user \<and> get_int req ''unitcd'' = UnitCode user \<and>
     (if IsWii user then get_string req ''csnum'' = SerialNumber user else get_int req ''passwd'' = Password user)"

text \<open>What the token of a successful login names\<close>

definition token_for :: "field list \<Rightarrow> user \<Rightarrow> string \<Rightarrow> NASAuthToken \<Rightarrow> bool" where
  "token_for req user challenge t \<longleftrightarrow>
     token_WFCID t = UserID user \<and> token_UnitCode t = of_int (UnitCode user) \<and>
     (IsWii user \<longrightarrow> ConsoleFriendCode t = of_int (get_int req ''cfc'')) \<and>
     hex_byte (get_string req ''lang'') = Some (Lang t) \<and>
     GameCode t = copy_at 0 (take 4 (bytes_of (get_string req ''gamecd''))) (replicate 4 0) \<and>
     token_Challenge t = copy_at 0 (take 8 (bytes_of challenge)) (replicate 8 0)"

lemma login_console_token:
  assumes "login_console env req user ch t st = ((resp, None), st')"
  shows "\<exists>t'. get_int req ''unitcd'' = UnitCode user \<and>
    (if IsWii user then get_string req ''csnum'' = SerialNumber user else get_int req ''passwd'' = Password user) \<and>
    Token resp = marshal_token (nas_tokens env) (nas_now env) t' \<and> lr_Challenge resp = ch \<and>
    token_WFCID t' = token_WFCID t \<and> token_ProfileID t' = token_ProfileID t \<and> GameCode t' = GameCode t \<and>
    token_Challenge t' = token_Challenge t \<and> token_UnitCode t' = of_int (UnitCode user) \<and>
    hex_byte (get_string req ''lang'') = Some (Lang t') \<and> Magic t' = Magic t \<and>
    length (InGameScreenName t') = length (InGameScreenName t) \<and>
    (IsWii user \<longrightarrow> ConsoleFriendCode t' = of_int (get_int req ''cfc'')) \<and>
    (fst st' = fst st \<or> (\<exists>n. UpdateUserName (UserID user) n (fst st) = Ret (fst st')))"
proof -
  obtain lang where lang: "hex_byte (get_string req ''lang'') = Some lang"
    using assms by (auto simp: login_console_def Let_def split: option.splits)
  have u: "get_int req ''unitcd'' = UnitCode user"
    using assms lang by (auto simp: login_console_def Let_def split: if_splits)
  let ?t = "t\<lparr>Lang := lang, token_UnitCode := of_int (UnitCode user)\<rparr>"
  obtain profane cache where p: "(if get_string req ''ingamesn'' = [] then (False, snd st)
       else is_profane (nas_fold env) (nas_words env) (screen_name req user) (snd st)) = (profane, cache)"
    by (cases "if get_string req ''ingamesn'' = [] then (False, snd st)
       else is_profane (nas_fold env) (nas_words env) (screen_name req user) (snd st)")
  obtain name t1 where c: "console_checks req user (screen_name req user) ?t = Inr (name, t1)"
    using assms lang u p by (auto simp: login_console_def Let_def split: sum.splits)
  have t1: "(if IsWii user then get_string req ''csnum'' = SerialNumber user else get_int req ''passwd'' = Password user)"
    "token_WFCID t1 = token_WFCID ?t" "token_ProfileID t1 = token_ProfileID ?t" "GameCode t1 = GameCode ?t"
    "token_Challenge t1 = token_Challenge ?t" "token_UnitCode t1 = token_UnitCode ?t" "Lang t1 = Lang ?t"
    "InGameScreenName t1 = InGameScreenName ?t" "Magic t1 = Magic ?t"
    "IsWii user \<longrightarrow> ConsoleFriendCode t1 = of_int (get_int req ''cfc'')"
    using c by (auto simp: console_checks_def split: if_splits option.splits)
  let ?t' = "t1\<lparr>InGameScreenName := copy_at 0 (take 64 name) (InGameScreenName t1)\<rparr>"
  have r: "Token resp = marshal_token (nas_tokens env) (nas_now env) ?t'" "lr_Challenge resp = ch"
    "fst st' = (case UpdateUserName (UserID user) (string_of name) (fst st) of Ret d \<Rightarrow> d | _ \<Rightarrow> fst st)"
    using assms lang u p c by (auto simp: login_console_def Let_def split: outcome.splits)
  show ?thesis
    by (rule exI [of _ ?t']) (use t1 r lang u in \<open>auto split: outcome.splits\<close>)
qed

definition start_token :: "field list \<Rightarrow> string \<Rightarrow> u32 \<Rightarrow> NASAuthToken" where
  "start_token req ch i = zero_token\<lparr>token_WFCID := user_id req,
     GameCode := copy_at 0 (take 4 (bytes_of (get_string req ''gamecd''))) (GameCode zero_token),
     token_ProfileID := i, token_Challenge := copy_at 0 (take 8 (bytes_of ch)) (replicate 8 0)\<rparr>"

lemma login_steps:
  assumes "acLogin env req (d, c) = ((resp, None), (d', c'))"
  shows "\<exists>user ch i d2. login_console env req user ch (start_token req ch i) (d2, c) = ((resp, None), (d', c')) \<and>
    GetUser (user_id req) d2 = Some user \<and> \<not> Banned user \<and>
    (if get_string req ''gsbrcd'' = [] then i = 0
     else ch = nas_challenge env \<and> GetProfileID (UserID user) (get_string req ''gsbrcd'') d2 = Ret i)"
proof -
  obtain user d1 where l: "login_user req d = (Inr user, d1)" and nb: "\<not> Banned user"
    using assms(1) by (auto simp: acLogin_def Let_def split: sum.splits prod.splits if_splits)
  have user: "GetUser (user_id req) d1 = Some user" by (rule login_user_found [OF l])
  let ?g = "get_string req ''gsbrcd''"
  show ?thesis
  proof (cases "?g = []")
    case True
    have "start_token req [] 0 = zero_token\<lparr>token_WFCID := user_id req,
        GameCode := copy_at 0 (take 4 (bytes_of (get_string req ''gamecd''))) (GameCode zero_token)\<rparr>"
      by (simp add: start_token_def zero_token_def copy_at_def bytes_of_def)
    then have "login_console env req user [] (start_token req [] 0) (d1, c) = ((resp, None), (d', c'))"
      using assms(1) l nb True by (simp add: acLogin_def Let_def)
    then show ?thesis using user True nb by (intro exI [of _ user] exI [of _ "[]"] exI [of _ 0] exI [of _ d1]) simp
  next
    case False
    then obtain i d2 where p: "login_profile user ?g d1 = (Inr i, d2)"
      using assms(1) l nb by (auto simp: acLogin_def Let_def split: sum.splits prod.splits)
    have "login_console env req user (nas_challenge env) (start_token req (nas_challenge env) i) (d2, c) = ((resp, None), (d', c'))"
      using assms(1) l nb False p by (simp add: acLogin_def Let_def start_token_def zero_token_def)
    then show ?thesis
      using login_profile_found [OF p] user False nb
      by (intro exI [of _ user] exI [of _ "nas_challenge env"] exI [of _ i] exI [of _ d2]) simp
  qed
qed

lemma login_token_good:
  assumes "acLogin env req (d, c) = ((resp, None), (d', c'))"
    and "length (env_magic (nas_tokens env)) = 8" and "length (env_iv (nas_tokens env)) = 16"
    and "0 \<le> nas_now env" and "unix (nas_now env) < 2 ^ 63"
    and "nas_now env \<le> later" and "later \<le> nas_now env + 10 * 60 * second - second"
  shows "\<exists>user t. GetUser (user_id req) d' = Some user \<and> may_login req user \<and>
    unmarshal_token (nas_tokens env) later (Token resp) = Ret t \<and> token_for req user (lr_Challenge resp) t \<and>
    (if get_string req ''gsbrcd'' = [] then token_ProfileID t = 0
     else lr_Challenge resp = nas_challenge env \<and>
       GetProfileID (UserID user) (get_string req ''gsbrcd'') d' = Ret (token_ProfileID t))"
proof -
  let ?g = "get_string req ''gsbrcd''"
  obtain user ch i d2 where k: "login_console env req user ch (start_token req ch i) (d2, c) = ((resp, None), (d', c'))"
    and u2: "GetUser (user_id req) d2 = Some user" and nb: "\<not> Banned user"
    and i: "if ?g = [] then i = 0 else ch = nas_challenge env \<and> GetProfileID (UserID user) ?g d2 = Ret i"
    using login_steps [OF assms(1)] by blast
  have id: "UserID user = user_id req" by (rule GetUser_id [OF u2])
  obtain t where f: "get_int req ''unitcd'' = UnitCode user"
      "if IsWii user then get_string req ''csnum'' = SerialNumber user else get_int req ''passwd'' = Password user"
      "token_WFCID t = user_id req" "GameCode t = GameCode (start_token req ch i)" "lr_Challenge resp = ch"
      "token_Challenge t = copy_at 0 (take 8 (bytes_of ch)) (replicate 8 0)" "token_UnitCode t = of_int (UnitCode user)"
      "hex_byte (get_string req ''lang'') = Some (Lang t)" "Magic t = Magic (start_token req ch i)"
      "length (InGameScreenName t) = length (InGameScreenName (start_token req ch i))"
      "IsWii user \<longrightarrow> ConsoleFriendCode t = of_int (get_int req ''cfc'')"
    and t: "Token resp = marshal_token (nas_tokens env) (nas_now env) t" "token_ProfileID t = i"
    and d': "d' = d2 \<or> (\<exists>n. UpdateUserName (UserID user) n d2 = Ret d')"
    using login_console_token [OF k] by (auto simp: start_token_def)
  have g: "GameCode (start_token req ch i) = copy_at 0 (take 4 (bytes_of (get_string req ''gamecd''))) (replicate 4 0)"
    "Magic (start_token req ch i) = replicate 8 0" "length (InGameScreenName (start_token req ch i)) = 64"
    by (simp_all add: start_token_def zero_token_def)
  have ok: "token_ok t" by (simp add: token_ok_def f g)
  have tf: "token_for req user (lr_Challenge resp) t" using f(8,11) by (simp add: token_for_def f(3-7) g id)
  have ml: "may_login req user" using f(1,2) nb by (simp add: may_login_def)
  let ?t = "t\<lparr>IssueTime := of_int (unix (nas_now env)), Magic := env_magic (nas_tokens env)\<rparr>"
  have "unmarshal_token (nas_tokens env) later (Token resp) = Ret ?t"
    unfolding t(1) by (rule unmarshal_marshal_token [OF ok assms(2-7)])
  moreover have "token_for req user (lr_Challenge resp) ?t" using tf by (simp add: token_for_def)
  moreover have "GetUser (user_id req) d' = Some user" using d' u2 GetUser_rename by auto
  moreover have "if ?g = [] then token_ProfileID ?t = 0
      else lr_Challenge resp = nas_challenge env \<and> GetProfileID (UserID user) ?g d' = Ret (token_ProfileID ?t)"
    using i d' GetProfileID_rename t(2) f(5) by (auto split: if_splits)
  ultimately show ?thesis using ml by blast
qed

text \<open>C18. A login that succeeds names a user who is not banned and whose console and password or serial
  number are those of the request; for the next ten minutes its token reads back as one for this user, for
  the profile of the game and for the challenge of the reply.\<close>

theorem login_token_sound:
  assumes "acLogin env req (d, c) = ((resp, None), (d', c'))"
    and "length (env_magic (nas_tokens env)) = 8" and "length (env_iv (nas_tokens env)) = 16"
    and "0 \<le> nas_now env" and "unix (nas_now env) < 2 ^ 63"
    and "nas_now env \<le> later" and "later \<le> nas_now env + 10 * 60 * second - second"
  shows "\<exists>user t. GetUser (user_id req) d' = Some user \<and> may_login req user \<and>
    unmarshal_token (nas_tokens env) later (Token resp) = Ret t \<and> token_for req user (lr_Challenge resp) t \<and>
    (if get_string req ''gsbrcd'' = [] then token_ProfileID t = 0
     else lr_Challenge resp = nas_challenge env \<and>
       GetProfileID (UserID user) (get_string req ''gsbrcd'') d' = Ret (token_ProfileID t))"
  using assms by (rule login_token_good)

definition sample_request :: "field list" where
  "sample_request = [(''userid'', GUint 64 5), (''gamecd'', GString ''RMCJ''), (''unitcd'', GInt 64 1),
     (''macadr'', GString ''0017ab000001''), (''lang'', GString ''01''), (''ingamesn'', GString []), (''passwd'', GInt 64 0),
     (''devname'', GString []), (''csnum'', GString ''LU100000001''), (''cfc'', GUint 64 77), (''region'', GString ''02''),
     (''gsbrcd'', GString ''RMCJ0000001'')]"

definition sample_nas_env :: nas_env where
  "sample_nas_env = \<lparr>nas_tokens = sample_env, nas_now = 1000 * second, nas_challenge = ''ABCDEFGH'', nas_fold = (\<lambda>r. r),
     nas_words = None\<rparr>"

lemma sample_request_fields:
  "get_string sample_request ''gamecd'' = ''RMCJ''" "get_int sample_request ''unitcd'' = 1"
  "get_string sample_request ''lang'' = ''01''" "get_string sample_request ''ingamesn'' = []"
  "get_string sample_request ''csnum'' = ''LU100000001''" "get_int sample_request ''cfc'' = 77"
  "get_string sample_request ''region'' = ''02''" "get_string sample_request ''gsbrcd'' = ''RMCJ0000001''"
  "user_id sample_request = 5"
  by (simp_all add: sample_request_def get_string_def get_int_def field_of_def tag_key_def tag_split_def user_id_def)

lemma sample_hex: "hex_byte ''01'' = Some 1" "hex_byte ''02'' = Some 2"
  by (simp_all add: hex_byte_def hex_val_def)

definition sample_nas_user :: user where
  "sample_nas_user = \<lparr>UserID = 5, UnitCode = 1, MacAddress = ''0017ab000001'', Password = 0, SerialNumber = ''LU100000001'', Banned = False\<rparr>"

lemma sample_login_user: "login_user sample_request sample_db = (Inr sample_nas_user, sample_db)"
  by (simp add: login_user_def sample_request_fields GetUser_def sample_db_def sample_nas_user_def)

lemma sample_login_profile: "\<exists>d'. login_profile sample_nas_user ''RMCJ0000001'' sample_db = (Inr 3, d')"
proof -
  have c: "collate ''RMCJ0000001'' = ''RMCJ0000001''" "collate ''RMCJ'' = ''RMCJ''" "collate ''RSBE'' = ''RSBE''"
    by (simp_all add: collate_def to_upper_def Let_def)
  have "GetProfileID 5 ''RMCJ0000001'' sample_db = Err ErrNoRows"
    by (simp add: GetProfileID_def sample_db_def same_account_def c online_def)
  moreover have "\<exists>d'. CreateProfile 5 ''RMCJ0000001'' sample_db = Ret (d', 3)"
    by (simp add: CreateProfile_def sample_db_def same_account_def c online_def)
  ultimately show ?thesis by (auto simp: login_profile_def sample_nas_user_def)
qed

lemma sample_login: "\<exists>resp st'. acLogin sample_nas_env sample_request (sample_db, c) = ((resp, None), st')"
proof -
  obtain d' where p: "login_profile sample_nas_user ''RMCJ0000001'' sample_db = (Inr 3, d')"
    using sample_login_profile by blast
  have u: "\<not> Banned sample_nas_user" "IsWii sample_nas_user" "UnitCode sample_nas_user = 1"
    "SerialNumber sample_nas_user = ''LU100000001''" by (simp_all add: sample_nas_user_def IsWii_def)
  then show ?thesis
    by (simp add: acLogin_def sample_login_user sample_request_fields p login_console_def Let_def sample_hex
        console_checks_def)
qed

theorem login_token_sound_witness:
  "\<exists>resp d' c' t. acLogin sample_nas_env sample_request (sample_db, \<lparr>profanityFileLines = None, lastModTime = 0\<rparr>) =
     ((resp, None), (d', c')) \<and> unmarshal_token sample_env (1100 * second) (Token resp) = Ret t \<and>
     GetProfileID 5 ''RMCJ0000001'' d' = Ret (token_ProfileID t)"
proof -
  obtain resp d' c' where l: "acLogin sample_nas_env sample_request (sample_db, \<lparr>profanityFileLines = None, lastModTime = 0\<rparr>) =
     ((resp, None), (d', c'))" using sample_login by (metis prod.collapse)
  have "\<exists>user t. GetUser (user_id sample_request) d' = Some user \<and> may_login sample_request user \<and>
    unmarshal_token (nas_tokens sample_nas_env) (1100 * second) (Token resp) = Ret t \<and>
    token_for sample_request user (lr_Challenge resp) t \<and>
    (if get_string sample_request ''gsbrcd'' = [] then token_ProfileID t = 0
     else lr_Challenge resp = nas_challenge sample_nas_env \<and> GetProfileID (UserID user) (get_string sample_request ''gsbrcd'') d' = Ret (token_ProfileID t))"
    by (rule login_token_sound [OF l]) (simp_all add: sample_nas_env_def sample_env_def unix_def second_def)
  then show ?thesis using l GetUser_id by (auto simp: sample_request_fields sample_nas_env_def)
qed

subsection \<open>Which requests are refused\<close>

text \<open>Six hexadecimal digits, as a MAC address prints three octets\<close>

definition hex6 :: "nat \<Rightarrow> string" where
  "hex6 n = replicate (6 - length (format_hex n)) CHR ''0'' @ format_hex n"

lemma suffix_of_hex6: "has_suffix (p @ hex6 n) (format_hex n)"
  using has_suffix_append [of "p @ replicate (6 - length (format_hex n)) CHR ''0''" "format_hex n"]
  by (simp add: hex6_def)

text \<open>The ID a DS builds from its MAC address is accepted with this address. The number in the ID is
  printed without leading zeros, so an ID whose last octets are a small number is accepted with every
  address that ends in its digits.\<close>

theorem mac_check:
  assumes "mac < 2 ^ 24" and "unk < 4"
  shows "mac_matches (encodeDSUserID uid mac vendor unk) (p @ hex6 (unat mac)) \<and>
    mac_matches (encodeDSUserID uid mac vendor unk) (q @ format_hex (unat mac))"
  by (simp add: mac_matches_def mac_of_user_def DS_user_id_decoded [OF assms] suffix_of_hex6)

theorem mac_check_witness:
  "mac_matches (encodeDSUserID 9 5 False 0) ''0009bf000005'' \<and> mac_matches (encodeDSUserID 9 5 False 0) ''ffffffffff05''"
proof -
  have "hex6 5 = ''000005''" "format_hex 5 = ''5''" by code_simp+
  then show ?thesis using mac_check [of 5 0 9 False "''0009bf''" "''ffffffffff0''"] by simp
qed

text \<open>A request panics exactly when what could be decoded of its action names none of the three handlers;
  then the state is as before.\<close>

theorem unknown_action_panics:
  "(let action = string_of (b64_decoded Base64DwcEncoding (FormValue r ''action''))
    in snd (fst (handleAuthAccountEndpoint env r st)) \<longleftrightarrow> action \<notin> {''ACCTCREATE'', ''LOGIN'', ''SVCLOC''}) \<and>
   snd (handleAuthAccountEndpoint env r st) =
     (if snd (fst (handleAuthAccountEndpoint env r st)) then st else snd (handleAuthAccountEndpoint env r st))"
  by (simp add: handleAuthAccountEndpoint_def accountHandlers_def Let_def case_prod_unfold)

end
