(* ===== verification/NasDownload.thy ===== *)
theory NasDownload
  imports NasAccount
begin

text \<open>
  \<open>nas/dls.go\<close>: the download server. A request carries the token of the service locator; it asks how many
  files a game offers, for a page of their list, or for one of them. \<open>files\<close> is the file system: what a
  path holds. The list of a game is a table of tab separated values, for which the parts of \<open>encoding/csv\<close>
  and \<open>path/filepath\<close> that the code relies on are written out.
\<close>

datatype file_answer = Missing | Unreadable | Contents string

type_synonym files = "string \<Rightarrow> file_answer"

datatype dls_error = DlsToken token_error | InvalidGame string | UnknownGame string | NotExist | ReadFailed

subsection \<open>Paths\<close>

text \<open>\<open>filepath.Clean\<close> on the elements of a path, \<open>Join\<close> and \<open>Base\<close>; the stack holds the last element first.\<close>

fun clean_elements :: "bool \<Rightarrow> string list \<Rightarrow> string list \<Rightarrow> string list" where
  "clean_elements rooted stack [] = rev stack"
| "clean_elements rooted stack (e # es) =
     (if e = [] \<or> e = ''.'' then clean_elements rooted stack es
      else if e = ''..'' then
        (case stack of
           [] \<Rightarrow> clean_elements rooted (if rooted then [] else [''..'']) es
         | prev # stack' \<Rightarrow>
             clean_elements rooted (if prev = ''..'' then ''..'' # stack else stack') es)
      else clean_elements rooted (e # stack) es)"

definition clean_path :: "string \<Rightarrow> string" where
  "clean_path p =
     (let rooted = has_prefix p ''/''; text = join_char CHR ''/'' (clean_elements rooted [] (split_char CHR ''/'' p))
      in if rooted then CHR ''/'' # text else if text = [] then ''.'' else text)"

definition join_path :: "string list \<Rightarrow> string" where
  "join_path elems =
     (case dropWhile (\<lambda>e. e = []) elems of [] \<Rightarrow> [] | es \<Rightarrow> clean_path (join_char CHR ''/'' (filter (\<lambda>e. e \<noteq> []) es)))"

definition base_path :: "string \<Rightarrow> string" where
  "base_path p =
     (if p = [] then ''.''
      else
        let p' = rev (dropWhile (\<lambda>c. c = CHR ''/'') (rev p));
            b = last (split_char CHR ''/'' p')
        in if b = [] then ''/'' else b)"

subsection \<open>Tables of values\<close>

definition tab :: char where "tab = CHR 0x09"
definition quote :: char where "quote = CHR 0x22"
definition newline :: char where "newline = CHR 0x0A"
definition carriage :: char where "carriage = CHR 0x0D"

text \<open>\<open>csv.Reader.readLine\<close>: the lines with their end, which is normalised; a \<open>\r\<close> before the end of the
  input is dropped.\<close>

definition normal_line :: "string \<Rightarrow> string" where
  "normal_line l =
     (if has_suffix l [carriage, newline] then take (length l - 2) l @ [newline]
      else if l \<noteq> [] \<and> last l = carriage then butlast l else l)"

fun csv_lines :: "string list \<Rightarrow> string list" where
  "csv_lines [] = []"
| "csv_lines [l] = (if l = [] then [] else [normal_line l])"
| "csv_lines (l # ls) = normal_line (l @ [newline]) # csv_lines ls"

definition line_end :: "string \<Rightarrow> bool" where
  "line_end l \<longleftrightarrow> l = [] \<or> l = [newline]"

definition without_newline :: "string \<Rightarrow> string" where
  "without_newline l = (if l \<noteq> [] \<and> last l = newline then butlast l else l)"

text \<open>
  \<open>csv.Reader.readRecord\<close> from the first field on. \<open>field\<close> is what has been read of a quoted field, \<open>None\<close>
  at the start of a field; \<open>done\<close> are the cells before it. \<open>None\<close> is a syntax error.
\<close>

function csv_fields ::
  "string option \<Rightarrow> string list \<Rightarrow> string \<Rightarrow> string list \<Rightarrow> (string list \<times> string list) option" where
  "csv_fields field done_fields line ls =
     (case field of
        None \<Rightarrow>
          (case line of
             c # r \<Rightarrow>
               if c = quote then csv_fields (Some []) done_fields r ls
               else
                 let f = takeWhile (\<lambda>x. x \<noteq> tab) line in
                 if length f < length line then
                   (if quote \<in> set f then None
                    else csv_fields None (done_fields @ [f]) (drop (Suc (length f)) line) ls)
                 else if quote \<in> set (without_newline f) then None
                 else Some (done_fields @ [without_newline f], ls)
           | [] \<Rightarrow> Some (done_fields @ [[]], ls))
      | Some f \<Rightarrow>
          let q = takeWhile (\<lambda>x. x \<noteq> quote) line in
          if length q < length line then
            (let r = drop (Suc (length q)) line in
             if has_prefix r [quote] then csv_fields (Some (f @ q @ [quote])) done_fields (drop 1 r) ls
             else if has_prefix r [tab] then csv_fields None (done_fields @ [f @ q]) (drop 1 r) ls
             else if line_end r then Some (done_fields @ [f @ q], ls)
             else None)
          else if line \<noteq> [] then
            (case ls of
               [] \<Rightarrow> None
             | l # ls' \<Rightarrow> csv_fields (Some (f @ line)) done_fields l ls')
          else None)"
  by pat_completeness auto
termination csv_fields
  by (relation "measure (\<lambda>(_, _, line, ls). length line + sum_list (map length ls))")
    (auto simp: Let_def)

declare csv_fields.simps [simp del]

lemma csv_fields_shorter: "csv_fields field ds line ls = Some (fs, ls') \<Longrightarrow> length ls' \<le> length ls"
proof (induction field ds line ls rule: csv_fields.induct)
  case (1 field ds line ls)
  note run = 1(6) [unfolded csv_fields.simps [of field ds line ls]]
  show ?case
  proof (cases field)
    case None
    show ?thesis
    proof (cases line)
      case Nil
      then show ?thesis using run None by simp
    next
      case (Cons c r)
      let ?f = "takeWhile (\<lambda>x. x \<noteq> tab) line"
      show ?thesis
      proof (cases "c = quote")
        case True
        then show ?thesis using run None Cons 1(1) [OF None Cons True] by simp
      next
        case False
        show ?thesis
        proof (cases "length ?f < length line \<and> quote \<notin> set ?f")
          case True
          then show ?thesis
            using run None Cons False 1(2) [OF None Cons False refl] by (cases "c = tab") (simp_all add: Let_def)
        next
          case more: False
          then show ?thesis using run None Cons False by (simp add: Let_def split: if_splits)
        qed
      qed
    qed
  next
    case (Some f)
    let ?q = "takeWhile (\<lambda>x. x \<noteq> quote) line"
    let ?r = "drop (Suc (length ?q)) line"
    show ?thesis
    proof (cases "length ?q < length line")
      case True
      then show ?thesis
        using run Some 1(3) [OF Some refl True refl] 1(4) [OF Some refl True refl]
        by (cases "has_prefix ?r [quote]"; cases "has_prefix ?r [tab]"; cases "line_end ?r") (simp_all add: Let_def)
    next
      case False
      then show ?thesis
        using run Some 1(5) [OF Some refl False] by (cases ls; cases "line = []") (simp_all add: Let_def)
    qed
  qed
qed

text \<open>\<open>ReadAll\<close>: empty lines are skipped, and every record must have six cells.\<close>

function csv_records :: "string list \<Rightarrow> string list list option" where
  "csv_records [] = Some []"
| "csv_records (l # ls) =
     (if line_end l then csv_records ls
      else case csv_fields None [] l ls of
        None \<Rightarrow> None
      | Some (cells, ls') \<Rightarrow>
          if length cells \<noteq> 6 then None else map_option (\<lambda>r. cells # r) (csv_records ls'))"
  by pat_completeness auto
termination csv_records
  by (relation "measure length") (auto dest: csv_fields_shorter)

definition ReadAll :: "string \<Rightarrow> string list list option" where
  "ReadAll content = csv_records (csv_lines (split_char newline content))"

text \<open>\<open>csv.Writer\<close> with \<open>\r\n\<close> at the end of a line\<close>

definition unicode_space :: "nat \<Rightarrow> bool" where
  "unicode_space r \<longleftrightarrow> (9 \<le> r \<and> r \<le> 13) \<or> r \<in> {0x20, 0x85, 0xA0, 0x1680, 0x2028, 0x2029, 0x202F, 0x205F, 0x3000} \<or>
     (0x2000 \<le> r \<and> r \<le> 0x200A)"

definition needs_quotes :: "string \<Rightarrow> bool" where
  "needs_quotes f \<longleftrightarrow> f \<noteq> [] \<and>
     (f = [CHR 0x5C, CHR ''.''] \<or> list_ex (\<lambda>c. c \<in> {newline, carriage, quote, tab}) f \<or>
      unicode_space (fst (decode_rune (bytes_of f))))"

definition quoted_char :: "char \<Rightarrow> string" where
  "quoted_char c =
     (if c = quote then [quote, quote] else if c = carriage then []
      else if c = newline then [carriage, newline] else [c])"

definition csv_field :: "string \<Rightarrow> string" where
  "csv_field f = (if needs_quotes f then quote # concat (map quoted_char f) @ [quote] else f)"

definition csv_line :: "string list \<Rightarrow> string" where
  "csv_line cells = join_char tab (map csv_field cells) @ [carriage, newline]"

definition WriteAll :: "string list list \<Rightarrow> string" where
  "WriteAll records = concat (map csv_line records)"

text \<open>\<open>strings.TrimSpace\<close>\<close>

definition TrimSpace :: "string \<Rightarrow> string" where
  "TrimSpace s =
     (let rs = runes 0 (bytes_of s);
          start = (case dropWhile (\<lambda>(_, r). unicode_space r) rs of [] \<Rightarrow> length s | (i, _) # _ \<Rightarrow> i);
          trailing = takeWhile (\<lambda>(_, r). unicode_space r) (rev rs);
          stop = (if trailing = [] then length s else fst (last trailing))
      in subslice start stop s)"

subsection \<open>The list of a game\<close>

definition dlcDir :: string where "dlcDir = ''./dlc''"

definition isValidRHGameCode :: "string \<Rightarrow> bool" where
  "isValidRHGameCode rhgamecd \<longleftrightarrow> length rhgamecd = 4 \<and> IsUppercaseAlphanumeric rhgamecd"

text \<open>The first of the two files that is there; no list when neither is.\<close>

fun read_list :: "files \<Rightarrow> string \<Rightarrow> string list \<Rightarrow> (dls_error, string list list) outcome" where
  "read_list fs rhgamecd [] = Ret []"
| "read_list fs rhgamecd (file # rest) =
     (case fs (join_path [dlcDir, rhgamecd, file]) of
        Missing \<Rightarrow> read_list fs rhgamecd rest
      | Unreadable \<Rightarrow> Err ReadFailed
      | Contents text \<Rightarrow> of_option ReadFailed (ReadAll text))"

definition getDlsList :: "files \<Rightarrow> string \<Rightarrow> (dls_error, string list list) outcome" where
  "getDlsList fs rhgamecd =
     bind_outcome (read_list fs rhgamecd [''_list.txt'', ''___listing___.bin''])
       (\<lambda>l. Ret (map (\<lambda>entry. entry[5 := TrimSpace (entry ! 5)]) l))"

definition keep_attribute :: "string \<Rightarrow> nat \<Rightarrow> string list list \<Rightarrow> string list list" where
  "keep_attribute v index l = (if v = [] then l else filter (\<lambda>entry. entry ! index = v) l)"

definition filterDlsList :: "string list list \<Rightarrow> string \<Rightarrow> string \<Rightarrow> string \<Rightarrow> string list list" where
  "filterDlsList l attr1 attr2 attr3 = keep_attribute attr3 4 (keep_attribute attr2 3 (keep_attribute attr1 2 l))"

definition game_list :: "files \<Rightarrow> field list \<Rightarrow> (dls_error, string list list) outcome" where
  "game_list fs req =
     (let game = get_string req ''rhgamecd'' in
      if \<not> isValidRHGameCode game then Err (InvalidGame game)
      else case getDlsList fs game of
        Ret l \<Rightarrow> Ret (filterDlsList l (get_string req ''attr1'') (get_string req ''attr2'') (get_string req ''attr3''))
      | Err _ \<Rightarrow> Err (UnknownGame game)
      | Panic \<Rightarrow> Panic)"

subsection \<open>The handlers\<close>

text \<open>A reply and the error that goes with it; \<open>None\<close> is a panic of a slice expression.\<close>

type_synonym dls_reply = "(string \<times> dls_error option) option"

definition dlsCount :: "files \<Rightarrow> field list \<Rightarrow> dls_reply" where
  "dlsCount fs req =
     (case game_list fs req of
        Ret l \<Rightarrow> Some (format_uint (length l), None)
      | Err e \<Rightarrow> Some (''0'', Some e)
      | Panic \<Rightarrow> None)"

definition dlsList :: "files \<Rightarrow> field list \<Rightarrow> dls_reply" where
  "dlsList fs req =
     (case game_list fs req of
        Ret l \<Rightarrow>
          let offset = get_int req ''offset''; count = get_int req ''num'' in
          if offset < 0 then None
          else
            let l = drop (nat offset) l in
            if count < 0 then None
            else Some (WriteAll (if count = 0 then l else take (nat count) l) @ [carriage, newline], None)
      | Err e \<Rightarrow> Some ([], Some e)
      | Panic \<Rightarrow> None)"

definition contents_path :: "field list \<Rightarrow> string" where
  "contents_path req = join_path [dlcDir, get_string req ''rhgamecd'', base_path (get_string req ''contents'')]"

definition dlsContents :: "files \<Rightarrow> field list \<Rightarrow> dls_reply" where
  "dlsContents fs req =
     (let game = get_string req ''rhgamecd'' in
      if \<not> isValidRHGameCode game then Some ([], Some (InvalidGame game))
      else case fs (contents_path req) of
        Missing \<Rightarrow> Some ([], Some NotExist)
      | Unreadable \<Rightarrow> Some ([], Some ReadFailed)
      | Contents text \<Rightarrow> Some (text, None))"

definition DownloadRequest :: "member list" where
  "DownloadRequest = [Field ''rhgamecd'' (GString [])]"

definition DownloadAttributes :: "member list" where
  "DownloadAttributes = [Field ''attr1'' (GString []), Field ''attr2'' (GString []), Field ''attr3'' (GString [])]"

definition CountRequest :: "member list" where
  "CountRequest = [Embedded DownloadRequest, Embedded DownloadAttributes]"

definition ListRequest :: "member list" where
  "ListRequest = [Embedded DownloadRequest, Embedded DownloadAttributes, Field ''offset'' (GInt 64 0), Field ''num'' (GInt 64 0)]"

definition ContentsRequest :: "member list" where
  "ContentsRequest = [Embedded DownloadRequest, Field ''contents'' (GString [])]"

definition handleDownload ::
  "nas_env \<Rightarrow> member list \<Rightarrow> (field list \<Rightarrow> dls_reply) \<Rightarrow> form \<Rightarrow> dls_reply" where
  "handleDownload env schema handler param =
     (case unmarshal_token (nas_tokens env) (nas_now env)
         (string_of (b64_decoded Base64DwcEncoding (form_get param ''token''))) of
        Err e \<Rightarrow> Some ([], Some (DlsToken e))
      | Panic \<Rightarrow> None
      | Ret _ \<Rightarrow> handler (unmarshal_form schema param))"

definition dlsHandlers :: "nas_env \<Rightarrow> files \<Rightarrow> string \<Rightarrow> (form \<Rightarrow> dls_reply) option" where
  "dlsHandlers env fs action =
     (if action = ''count'' then Some (handleDownload env CountRequest (dlsCount fs))
      else if action = ''list'' then Some (handleDownload env ListRequest (dlsList fs))
      else if action = ''contents'' then Some (handleDownload env ContentsRequest (dlsContents fs))
      else None)"

text \<open>\<open>slices.Chunk\<close>\<close>

function chunks :: "nat \<Rightarrow> 'a list \<Rightarrow> 'a list list" where
  "chunks n xs = (if n = 0 \<or> xs = [] then [] else take n xs # chunks n (drop n xs))"
  by pat_completeness auto
termination chunks
  by (relation "measure (\<lambda>(n, xs). length xs)") auto

declare chunks.simps [simp del]

definition handleDownloadEndpoint :: "nas_env \<Rightarrow> files \<Rightarrow> http_request \<Rightarrow> http_out list \<times> bool" where
  "handleDownloadEndpoint env fs r =
     (let text = FormValue r ''action'';
          outs = (if b64_decode Base64DwcEncoding text = None then [bad_request] else [])
      in case dlsHandlers env fs (string_of (b64_decoded Base64DwcEncoding text)) of
           None \<Rightarrow> (outs @ [bad_request], True)
         | Some handler \<Rightarrow>
             (case handler (PostForm r) of
                None \<Rightarrow> (outs, True)
              | Some (_, Some NotExist) \<Rightarrow> (outs @ [HttpError 404 ''400 Not Found''], False)
              | Some (resp, _) \<Rightarrow> (outs @ map Body (chunks (4 * 1024) resp), False)))"

subsection \<open>Tables are read back\<close>

lemmas csv_chars = tab_def quote_def newline_def carriage_def

lemma takeWhile_up_to: "c \<notin> set f \<Longrightarrow> takeWhile (\<lambda>x. x \<noteq> c) (f @ c # r) = f"
  by (induction f) auto

lemma takeWhile_without: "c \<notin> set f \<Longrightarrow> takeWhile (\<lambda>x. x \<noteq> c) f = f"
  by (simp add: takeWhile_eq_all_conv) metis

lemma csv_inner_cell:
  assumes "tab \<notin> set f" and "quote \<notin> set f"
  shows "csv_fields None ds (f @ tab # r) ls = csv_fields None (ds @ [f]) r ls"
proof (cases f)
  case Nil
  have "tab \<noteq> quote" by (simp add: csv_chars)
  then show ?thesis by (subst csv_fields.simps) (simp add: Nil Let_def)
next
  case (Cons c f')
  then have "c \<noteq> quote" "f @ tab # r = c # f' @ tab # r" using assms(2) by auto
  moreover have "takeWhile (\<lambda>x. x \<noteq> tab) (f @ tab # r) = f" by (rule takeWhile_up_to [OF assms(1)])
  ultimately show ?thesis using assms(2) by (subst csv_fields.simps) (simp add: Let_def Cons)
qed

lemma csv_last_cell:
  assumes "tab \<notin> set f" and "quote \<notin> set f"
  shows "csv_fields None ds (f @ [newline]) ls = Some (ds @ [f], ls)"
proof -
  have n: "newline \<noteq> quote" "newline \<noteq> tab" by (simp_all add: csv_chars)
  have t: "takeWhile (\<lambda>x. x \<noteq> tab) (f @ [newline]) = f @ [newline]"
    using assms(1) n by (intro takeWhile_without) auto
  show ?thesis
  proof (cases f)
    case Nil
    then show ?thesis using n by (subst csv_fields.simps) (simp add: Let_def without_newline_def)
  next
    case (Cons c r)
    then have "c \<noteq> quote" "c \<noteq> tab" "takeWhile (\<lambda>x. x \<noteq> tab) (r @ [newline]) = r @ [newline]"
      using assms n by (auto intro: takeWhile_without)
    then show ?thesis using assms(2) by (subst csv_fields.simps) (simp add: Let_def without_newline_def Cons)
  qed
qed

lemma csv_cells:
  "cs \<noteq> [] \<Longrightarrow> list_all (\<lambda>f. tab \<notin> set f \<and> quote \<notin> set f) cs \<Longrightarrow>
     csv_fields None ds (join_char tab cs @ [newline]) ls = Some (ds @ cs, ls)"
proof (induction tab cs arbitrary: ds rule: join_char.induct)
  case (3 x y ys)
  then show ?case using csv_inner_cell [of x ds "join_char tab (y # ys) @ [newline]" ls] by simp
qed (simp_all add: csv_last_cell)

definition unquoted_record :: "string list \<Rightarrow> bool" where
  "unquoted_record r \<longleftrightarrow> length r = 6 \<and> list_all (\<lambda>f. \<not> needs_quotes f) r"

lemma unquoted_cells:
  assumes "unquoted_record r"
  shows "list_all (\<lambda>f. set f \<inter> {newline, carriage, quote, tab} = {}) r" "csv_line r = join_char tab r @ [carriage, newline]"
    "r \<noteq> []" "newline \<notin> set (join_char tab r)" "\<not> line_end (join_char tab r @ [newline])"
proof -
  show c: "list_all (\<lambda>f. set f \<inter> {newline, carriage, quote, tab} = {}) r"
  proof -
    have "set f \<inter> {newline, carriage, quote, tab} = {}" if "\<not> needs_quotes f" for f
      using that unfolding needs_quotes_def list_ex_iff by (cases "f = []") (simp, blast)
    then show ?thesis using assms by (simp add: unquoted_record_def list_all_iff)
  qed
  have "map csv_field r = r"
    using assms by (auto simp: unquoted_record_def list_all_iff csv_field_def intro: map_idI)
  then show "csv_line r = join_char tab r @ [carriage, newline]" by (simp add: csv_line_def)
  show "r \<noteq> []" using assms by (auto simp: unquoted_record_def)
  show "newline \<notin> set (join_char tab r)"
    using c set_join_char [of tab r] by (fastforce simp: list_all_iff csv_chars)
  obtain x y ys where "r = x # y # ys" using assms by (auto simp: unquoted_record_def numeral_eq_Suc length_Suc_conv)
  then show "\<not> line_end (join_char tab r @ [newline])" by (simp add: line_end_def)
qed

lemma unquoted_char:
  assumes "34 < (of_char c :: nat)" and "(of_char c :: nat) < 128"
  shows "\<not> needs_quotes [c]"
proof -
  have "decode_rune (bytes_of [c]) = (of_char c, 1)" using assms(2) by (simp add: bytes_of_def unat_of_char_u8)
  moreover have "\<not> unicode_space (of_char c)" using assms by (simp add: unicode_space_def)
  moreover have "c \<notin> {newline, carriage, quote, tab}" using assms(1) by (auto simp: csv_chars)
  ultimately show ?thesis by (simp add: needs_quotes_def)
qed

lemma TrimSpace_char:
  assumes "34 < (of_char c :: nat)" and "(of_char c :: nat) < 128"
  shows "TrimSpace [c] = [c]"
proof -
  have "runes 0 (bytes_of [c]) = [(0, of_char c)]" using assms(2) by (simp add: bytes_of_def unat_of_char_u8)
  moreover have "\<not> unicode_space (of_char c)" using assms by (simp add: unicode_space_def)
  ultimately show ?thesis by (simp add: TrimSpace_def subslice_def)
qed

lemma csv_lines_WriteAll:
  "list_all unquoted_record rs \<Longrightarrow>
     csv_lines (split_char newline (WriteAll rs)) = map (\<lambda>r. join_char tab r @ [newline]) rs"
proof (induction rs)
  case (Cons r rs)
  note u = unquoted_cells [of r]
  have n: "newline \<notin> set (join_char tab r @ [carriage])" using u(4) Cons.prems by (simp add: csv_chars)
  have "WriteAll (r # rs) = (join_char tab r @ [carriage]) @ newline # WriteAll rs"
    using u(2) Cons.prems by (simp add: WriteAll_def)
  then have "split_char newline (WriteAll (r # rs)) = (join_char tab r @ [carriage]) # split_char newline (WriteAll rs)"
    using split_char_append [OF n] by simp
  moreover obtain l ls where "split_char newline (WriteAll rs) = l # ls"
    by (cases "split_char newline (WriteAll rs)") auto
  moreover have "normal_line (join_char tab r @ [carriage, newline]) = join_char tab r @ [newline]"
    by (simp add: normal_line_def has_suffix_def)
  ultimately show ?case using Cons by simp
qed (simp add: WriteAll_def)

text \<open>A table whose cells need no quotes is read back as it was written.\<close>

lemma ReadAll_WriteAll:
  assumes "list_all unquoted_record rs"
  shows "ReadAll (WriteAll rs) = Some rs"
proof -
  have "csv_records (map (\<lambda>r. join_char tab r @ [newline]) rs) = Some rs"
    using assms
  proof (induction rs)
    case (Cons r rs)
    note u = unquoted_cells [of r]
    have "csv_fields None [] (join_char tab r @ [newline]) (map (\<lambda>r. join_char tab r @ [newline]) rs) =
        Some (r, map (\<lambda>r. join_char tab r @ [newline]) rs)"
      using u(1,3) Cons.prems by (subst csv_cells) (auto simp: list_all_iff)
    then show ?case using Cons u(5) by (simp add: unquoted_record_def)
  qed simp
  then show ?thesis using csv_lines_WriteAll [OF assms] by (simp add: ReadAll_def)
qed

subsection \<open>Which files can be read\<close>

lemma valid_code_chars:
  assumes "isValidRHGameCode g"
  shows "CHR ''/'' \<notin> set g" "g \<noteq> []" "g \<noteq> ''.''" "g \<noteq> ''..''"
  using assms by (auto simp: isValidRHGameCode_def IsUppercaseAlphanumeric_def list_all_iff)

lemma base_path_element: "base_path c = ''/'' \<or> CHR ''/'' \<notin> set (base_path c) \<and> base_path c \<noteq> []"
proof (cases "c = []")
  case False
  define b where "b = last (split_char CHR ''/'' (rev (dropWhile (\<lambda>c. c = CHR ''/'') (rev c))))"
  have "CHR ''/'' \<notin> set b"
    unfolding b_def by (rule split_char_pieces, rule last_in_set) simp
  then show ?thesis using False by (auto simp: base_path_def b_def [symmetric] Let_def)
qed (simp add: base_path_def)

text \<open>C40. Whatever name a request asks for, the file that is read is one of the game's own directory, or the
  path of this directory or of the one above, which hold no contents.\<close>

theorem contents_confined:
  assumes "isValidRHGameCode (get_string req ''rhgamecd'')"
  shows "contents_path req \<in> {''dlc'', ''dlc/'' @ get_string req ''rhgamecd''} \<union>
    {''dlc/'' @ get_string req ''rhgamecd'' @ CHR ''/'' # n | n. CHR ''/'' \<notin> set n \<and> n \<notin> {[], ''.'', ''..''}}"
proof -
  define g where "g = get_string req ''rhgamecd''"
  note g = valid_code_chars [OF assms, folded g_def]
  define b where "b = base_path (get_string req ''contents'')"
  have path: "contents_path req = clean_path (''./dlc/'' @ g @ CHR ''/'' # b)" if "b \<noteq> []"
    using that g(2) by (simp add: contents_path_def join_path_def dlcDir_def g_def b_def)
  consider "b = ''/''" | "CHR ''/'' \<notin> set b" "b \<noteq> []" using base_path_element unfolding b_def by blast
  then show ?thesis
  proof cases
    case 1
    have "split_char CHR ''/'' (''./dlc/'' @ g @ CHR ''/'' # ''/'') = [''.'', ''dlc'', g, [], []]"
      using split_char_append [OF g(1), of "''/''"] by simp
    then have "contents_path req = ''dlc/'' @ g"
      using path 1 g by (simp add: clean_path_def has_prefix_def)
    then show ?thesis by (simp add: g_def)
  next
    case 2
    have s: "split_char CHR ''/'' (g @ CHR ''/'' # b) = [g, b]"
      using split_char_append [OF g(1), of b] split_char_no_sep [OF 2(1)] by simp
    have "contents_path req =
        (let text = join_char CHR ''/'' (clean_elements False [''dlc''] [g, b]) in if text = [] then ''.'' else text)"
      using path [OF 2(2)] by (simp add: clean_path_def has_prefix_def s)
    then have "contents_path req =
        (if b = ''.'' then ''dlc/'' @ g else if b = ''..'' then ''dlc'' else ''dlc/'' @ g @ CHR ''/'' # b)"
      using g 2 by simp
    then show ?thesis using 2 by (auto simp: g_def)
  qed
qed

subsection \<open>Pages\<close>

definition page_request :: "int \<Rightarrow> int \<Rightarrow> field list \<Rightarrow> field list" where
  "page_request offset count req = (''offset'', GInt 64 offset) # (''num'', GInt 64 count) # req"

lemma page_fields:
  "get_int (page_request a n req) ''offset'' = a" "get_int (page_request a n req) ''num'' = n"
  "game_list fs (page_request a n req) = game_list fs req"
proof -
  have "get_string (page_request a n req) ''rhgamecd'' = get_string req ''rhgamecd''"
    "get_string (page_request a n req) ''attr1'' = get_string req ''attr1''"
    "get_string (page_request a n req) ''attr2'' = get_string req ''attr2''"
    "get_string (page_request a n req) ''attr3'' = get_string req ''attr3''"
    by (simp_all add: page_request_def get_string_def field_of_def tag_key_def tag_split_def)
  then show "game_list fs (page_request a n req) = game_list fs req" by (simp only: game_list_def)
qed (simp_all add: page_request_def get_int_def field_of_def tag_key_def tag_split_def)

lemma concat_pages: "concat (map (\<lambda>k. take n (drop (k * n) xs)) [0..<m]) = take (m * n) xs"
proof (induction m)
  case (Suc m)
  then show ?case by (simp add: take_add [of "m * n" n xs, symmetric] add.commute)
qed simp

lemma WriteAll_concat: "concat (map WriteAll xss) = WriteAll (concat xss)"
  by (induction xss) (simp_all add: WriteAll_def)

text \<open>The body of a page without the empty line that ends it\<close>

definition page_text :: "dls_reply \<Rightarrow> string" where
  "page_text r = (case r of Some (text, _) \<Rightarrow> take (length text - 2) text | None \<Rightarrow> [])"

text \<open>The pages of a list, asked for one after the other, are the whole list, and the count is its length.\<close>

theorem pages_cover_list:
  assumes "game_list fs req = Ret l" and "0 < n" and "length l \<le> m * n"
  shows "concat (map (\<lambda>k. page_text (dlsList fs (page_request (int (k * n)) (int n) req))) [0..<m]) = WriteAll l \<and>
    dlsCount fs req = Some (format_uint (length l), None)"
proof -
  have "page_text (dlsList fs (page_request (int (k * n)) (int n) req)) = WriteAll (take n (drop (k * n) l))" for k
    using assms(1,2) by (simp add: dlsList_def page_fields page_text_def Let_def del: of_nat_mult)
  then have "concat (map (\<lambda>k. page_text (dlsList fs (page_request (int (k * n)) (int n) req))) [0..<m]) =
      concat (map WriteAll (map (\<lambda>k. take n (drop (k * n) l)) [0..<m]))"
    by (simp add: comp_def)
  also have "\<dots> = WriteAll l" using assms(3) by (simp only: WriteAll_concat concat_pages take_all)
  finally show ?thesis using assms(1) by (simp add: dlsCount_def)
qed

text \<open>A negative offset or count ends the request in a panic, which drops the connection.\<close>

lemma negative_page_panics:
  "game_list fs req = Ret l \<Longrightarrow> dlsList fs req = None \<longleftrightarrow> get_int req ''offset'' < 0 \<or> get_int req ''num'' < 0"
  by (simp add: dlsList_def Let_def)

subsection \<open>The token of the service locator\<close>

text \<open>The token that the service locator gives to a console opens the download server: for the next ten
  minutes a request that carries it reaches the handler of its action.\<close>

theorem service_token_accepted:
  assumes "acServiceLocator env req (d, c) = ((resp, None), (d', c'))" and "ServiceToken resp \<noteq> []"
    and "length (env_magic (nas_tokens env)) = 8" and "length (env_iv (nas_tokens env)) = 16"
    and "0 \<le> nas_now env" and "unix (nas_now env) < 2 ^ 63"
    and "nas_now env \<le> nas_now later" and "nas_now later \<le> nas_now env + 10 * 60 * second - second"
    and "nas_tokens later = nas_tokens env"
    and "form_get param ''token'' = b64_encode Base64DwcEncoding (bytes_of (ServiceToken resp))"
  shows "handleDownload later schema handler param = handler (unmarshal_form schema param)"
proof -
  obtain r where l: "acLogin env req (d, c) = ((r, None), (d', c'))" and t: "ServiceToken resp = Token r"
    using assms(1,2) by (auto simp: acServiceLocator_def split: prod.splits if_splits)
  have "\<exists>t. unmarshal_token (nas_tokens env) (nas_now later) (Token r) = Ret t"
    using login_token_good [OF l assms(3-8)] by blast
  moreover have "string_of (b64_decoded Base64DwcEncoding (form_get param ''token'')) = Token r"
    by (simp add: assms(10) t b64_decoded_decode [OF b64_dwc.decode_encode])
  ultimately show ?thesis by (auto simp: handleDownload_def assms(9))
qed

theorem contents_confined_witness:
  "contents_path [(''rhgamecd'', GString ''RMCJ''), (''contents'', GString ''../../etc/passwd'')] \<in>
     {''dlc'', ''dlc/RMCJ''} \<union> {''dlc/RMCJ/'' @ n | n. CHR ''/'' \<notin> set n \<and> n \<notin> {[], ''.'', ''..''}}"
proof -
  let ?req = "[(''rhgamecd'', GString ''RMCJ''), (''contents'', GString ''../../etc/passwd'')]"
  have g: "get_string ?req ''rhgamecd'' = ''RMCJ''"
    by (simp add: get_string_def field_of_def tag_key_def tag_split_def)
  have "isValidRHGameCode (get_string ?req ''rhgamecd'')"
    by (simp add: g isValidRHGameCode_def IsUppercaseAlphanumeric_def)
  from contents_confined [OF this] show ?thesis by (simp add: g)
qed

definition sample_files :: files where
  "sample_files path =
     (if path = ''dlc/RMCJ/_list.txt''
      then Contents (WriteAll [[''a'', ''b'', ''c'', ''d'', ''e'', ''1''], [''f'', ''g'', ''h'', ''i'', ''j'', ''2'']])
      else Missing)"

definition sample_dls_request :: "field list" where
  "sample_dls_request = [(''rhgamecd'', GString ''RMCJ''), (''attr1'', GString []), (''attr2'', GString []), (''attr3'', GString [])]"

lemma sample_list:
  "game_list sample_files sample_dls_request =
     Ret [[''a'', ''b'', ''c'', ''d'', ''e'', ''1''], [''f'', ''g'', ''h'', ''i'', ''j'', ''2'']]"
proof -
  have f: "get_string sample_dls_request ''rhgamecd'' = ''RMCJ''" "get_string sample_dls_request ''attr1'' = []"
    "get_string sample_dls_request ''attr2'' = []" "get_string sample_dls_request ''attr3'' = []"
    by (simp_all add: sample_dls_request_def get_string_def field_of_def tag_key_def tag_split_def)
  have v: "isValidRHGameCode ''RMCJ''" by (simp add: isValidRHGameCode_def IsUppercaseAlphanumeric_def)
  have p: "join_path [dlcDir, ''RMCJ'', ''_list.txt''] = ''dlc/RMCJ/_list.txt''" by code_simp
  have r: "ReadAll (WriteAll [[''a'', ''b'', ''c'', ''d'', ''e'', ''1''], [''f'', ''g'', ''h'', ''i'', ''j'', ''2'']]) =
      Some [[''a'', ''b'', ''c'', ''d'', ''e'', ''1''], [''f'', ''g'', ''h'', ''i'', ''j'', ''2'']]"
    by (rule ReadAll_WriteAll) (simp add: unquoted_record_def unquoted_char)
  have t: "TrimSpace ''1'' = ''1''" "TrimSpace ''2'' = ''2''" by (simp_all add: TrimSpace_char)
  have "read_list sample_files ''RMCJ'' [''_list.txt'', ''___listing___.bin''] =
      Ret [[''a'', ''b'', ''c'', ''d'', ''e'', ''1''], [''f'', ''g'', ''h'', ''i'', ''j'', ''2'']]"
    by (simp add: p sample_files_def r)
  then show ?thesis
    by (simp add: game_list_def f v getDlsList_def t filterDlsList_def keep_attribute_def Let_def)
qed

theorem pages_cover_list_witness:
  "concat (map (\<lambda>k. page_text (dlsList sample_files (page_request (int (k * 1)) (int 1) sample_dls_request))) [0..<2]) =
     WriteAll [[''a'', ''b'', ''c'', ''d'', ''e'', ''1''], [''f'', ''g'', ''h'', ''i'', ''j'', ''2'']]"
  using pages_cover_list [OF sample_list, of 1 2] by simp

definition sample_service_request :: "field list" where
  "sample_service_request = filter (\<lambda>f. fst f \<noteq> ''gsbrcd'') sample_request @ [(''svc'', GInt 64 9000)]"

lemma sample_service:
  "\<exists>resp st. acServiceLocator sample_nas_env sample_service_request (sample_db, c) = ((resp, None), st) \<and> ServiceToken resp \<noteq> []"
proof -
  have f: "get_string sample_service_request ''gamecd'' = ''RMCJ''" "get_int sample_service_request ''unitcd'' = 1"
    "get_string sample_service_request ''lang'' = ''01''" "get_string sample_service_request ''ingamesn'' = []"
    "get_string sample_service_request ''csnum'' = ''LU100000001''" "get_int sample_service_request ''cfc'' = 77"
    "get_string sample_service_request ''region'' = ''02''" "get_string sample_service_request ''gsbrcd'' = []"
    "user_id sample_service_request = 5" "get_int sample_service_request ''svc'' = 9000"
    by (simp_all add: sample_service_request_def sample_request_def get_string_def get_int_def field_of_def
        tag_key_def tag_split_def user_id_def)
  have l: "login_user sample_service_request sample_db = (Inr sample_nas_user, sample_db)"
    by (simp add: login_user_def f GetUser_def sample_db_def sample_nas_user_def)
  have u: "\<not> Banned sample_nas_user" "IsWii sample_nas_user" "UnitCode sample_nas_user = 1"
    "SerialNumber sample_nas_user = ''LU100000001''" by (simp_all add: sample_nas_user_def IsWii_def)
  show ?thesis
    by (simp add: acServiceLocator_def acLogin_def l u f login_console_def Let_def sample_hex console_checks_def marshal_token_def)
qed

theorem service_token_accepted_witness:
  "\<exists>resp d' c'. acServiceLocator sample_nas_env sample_service_request (sample_db, \<lparr>profanityFileLines = None, lastModTime = 0\<rparr>) =
       ((resp, None), (d', c')) \<and>
     handleDownload (sample_nas_env\<lparr>nas_now := 1100 * second\<rparr>) CountRequest (\<lambda>_. Some (''ok'', None))
       [''token'' \<mapsto> [b64_encode Base64DwcEncoding (bytes_of (ServiceToken resp))]] = Some (''ok'', None)"
proof -
  obtain resp d' c' where s: "acServiceLocator sample_nas_env sample_service_request (sample_db, \<lparr>profanityFileLines = None, lastModTime = 0\<rparr>) =
       ((resp, None), (d', c'))" "ServiceToken resp \<noteq> []" using sample_service by (metis prod.collapse)
  have "handleDownload (sample_nas_env\<lparr>nas_now := 1100 * second\<rparr>) CountRequest (\<lambda>_. Some (''ok'', None))
      [''token'' \<mapsto> [b64_encode Base64DwcEncoding (bytes_of (ServiceToken resp))]] = Some (''ok'', None)"
    by (subst service_token_accepted [OF s]) (simp_all add: sample_nas_env_def sample_env_def unix_def second_def form_get_def)
  then show ?thesis using s(1) by blast
qed

end
