(* ===== verification/NasHttp.thy ===== *)
theory NasHttp
  imports NasDownload
begin

text \<open>
  The HTTP front of package \<open>nas\<close>: \<open>listener.go\<close>, which drops repeated host headers from what a console
  sends before \<open>net/http\<close> parses it, and from \<open>main.go\<close> the choice of a handler by the host of a request
  and the fixed pages. A connection is the whole text it carries; both ends of the pipe stay open.
\<close>

subsection \<open>Repeated headers\<close>

definition host_header :: "string \<Rightarrow> bool" where
  "host_header line \<longleftrightarrow> has_prefix (to_lower line) ''host:''"

text \<open>\<open>ReadString('\n')\<close>: a line with its end and what follows; \<open>None\<close> when the text ends first.\<close>

definition read_line :: "string \<Rightarrow> (string \<times> string) option" where
  "read_line s =
     (let l = takeWhile (\<lambda>c. c \<noteq> newline) s in
      if length l < length s then Some (l @ [newline], drop (Suc (length l)) s) else None)"

lemma read_line_shorter: "read_line s = Some (l, r) \<Longrightarrow> length r < length s"
  by (auto simp: read_line_def Let_def split: if_splits)

function filter_headers :: "bool \<Rightarrow> string \<Rightarrow> string" where
  "filter_headers hostSeen s =
     (case read_line s of
        None \<Rightarrow> s
      | Some (line, rest) \<Rightarrow>
          if line = [carriage, newline] \<or> line = [newline] then s
          else if host_header line \<and> hostSeen then filter_headers hostSeen rest
          else line @ filter_headers (hostSeen \<or> host_header line) rest)"
  by pat_completeness auto
termination filter_headers
  by (relation "measure (\<lambda>(_, s). length s)") (auto dest: read_line_shorter)

declare filter_headers.simps [simp del]

definition filterDuplicateHost :: "string \<Rightarrow> string" where
  "filterDuplicateHost s =
     (case read_line s of
        None \<Rightarrow> s
      | Some (line, rest) \<Rightarrow>
          if has_suffix line (''HTTP/1.1'' @ [carriage, newline]) then line @ filter_headers False rest else s)"

text \<open>What it means: of the header lines, all but the first host header stay.\<close>

fun first_host :: "bool \<Rightarrow> string list \<Rightarrow> string list" where
  "first_host seen [] = []"
| "first_host seen (l # ls) =
     (if host_header l \<and> seen then first_host seen ls else l # first_host (seen \<or> host_header l) ls)"

definition header_line :: "string \<Rightarrow> bool" where
  "header_line l \<longleftrightarrow> (\<exists>t. l = t @ [newline] \<and> newline \<notin> set t \<and> t \<noteq> [] \<and> t \<noteq> [carriage])"

lemma read_line_append: "newline \<notin> set t \<Longrightarrow> read_line (t @ newline # r) = Some (t @ [newline], r)"
  by (simp add: read_line_def takeWhile_up_to)

lemma filter_headers_lines:
  "list_all header_line hs \<Longrightarrow> blank \<in> {[carriage, newline], [newline]} \<Longrightarrow>
     filter_headers seen (concat hs @ blank @ body) = concat (first_host seen hs) @ blank @ body"
proof (induction hs arbitrary: seen)
  case Nil
  have "newline \<notin> set [carriage]" by (simp add: csv_chars)
  then have "read_line (blank @ body) = Some (blank, body)"
    using Nil read_line_append [of "[]" body] read_line_append [of "[carriage]" body] by auto
  then show ?case using Nil by (subst filter_headers.simps) auto
next
  case (Cons h hs)
  then obtain t where t: "h = t @ [newline]" "newline \<notin> set t" "t \<noteq> []" "t \<noteq> [carriage]"
    by (auto simp: header_line_def)
  have "read_line (concat (h # hs) @ blank @ body) = Some (h, concat hs @ blank @ body)"
    using read_line_append [OF t(2)] by (simp add: t(1))
  moreover have "h \<noteq> [carriage, newline]" "h \<noteq> [newline]" using t by auto
  ultimately show ?case using Cons by (subst filter_headers.simps) simp
qed

lemma first_host_none: "filter host_header (first_host True hs) = []"
  by (induction hs) auto

lemma first_host_once: "length (filter host_header (first_host False hs)) \<le> 1"
  by (induction hs) (simp_all add: first_host_none)

lemma first_host_others: "filter (\<lambda>l. \<not> host_header l) (first_host seen hs) = filter (\<lambda>l. \<not> host_header l) hs"
  by (induction hs arbitrary: seen) auto

lemma first_host_first: "find host_header (first_host False hs) = find host_header hs"
  by (induction hs) auto

text \<open>Of a request of version 1.1 only repeated host headers are removed: one host header stays, the first;
  the other headers stay in their order; and whatever follows the headers stays as it is, further requests
  on the connection included.\<close>

theorem one_host_header:
  assumes "newline \<notin> set line" and "has_suffix (line @ [newline]) (''HTTP/1.1'' @ [carriage, newline])"
    and "list_all header_line headers" and "blank \<in> {[carriage, newline], [newline]}"
  shows "\<exists>kept. filterDuplicateHost (line @ newline # concat headers @ blank @ body) =
      line @ newline # concat kept @ blank @ body \<and>
    length (filter host_header kept) \<le> 1 \<and> find host_header kept = find host_header headers \<and>
    filter (\<lambda>l. \<not> host_header l) kept = filter (\<lambda>l. \<not> host_header l) headers"
proof (intro exI [of _ "first_host False headers"] conjI)
  show "filterDuplicateHost (line @ newline # concat headers @ blank @ body) =
      line @ newline # concat (first_host False headers) @ blank @ body"
    using assms(2) filter_headers_lines [OF assms(3,4)]
    by (simp add: filterDuplicateHost_def read_line_append [OF assms(1)])
  show "length (filter host_header (first_host False headers)) \<le> 1" by (rule first_host_once)
qed (rule first_host_first first_host_others)+

subsection \<open>Hosts\<close>

datatype mux = AuthMux | DlsMux | GamestatsMux | SakeMux | RaceMux

text \<open>The texts after the start and after every dot\<close>

fun label_starts :: "string \<Rightarrow> string list" where
  "label_starts [] = []"
| "label_starts (c # s) = (if c = CHR ''.'' then s # label_starts s else label_starts s)"

text \<open>\<open>(\.|^)NAME\.(gs\.|gamespy\.com$)\<close>\<close>

definition gamespy_label :: "string \<Rightarrow> string \<Rightarrow> bool" where
  "gamespy_label name host \<longleftrightarrow>
     list_ex (\<lambda>t. has_prefix t (name @ ''.gs.'') \<or> t = name @ ''.gamespy.com'') (host # label_starts host)"

fun host_matches :: "mux \<Rightarrow> string \<Rightarrow> bool" where
  "host_matches AuthMux h \<longleftrightarrow> has_prefix h ''nas.'' \<or> has_prefix h ''naswii.''"
| "host_matches DlsMux h \<longleftrightarrow> has_prefix h ''dls1.''"
| "host_matches GamestatsMux h \<longleftrightarrow> gamespy_label ''gamestats'' h \<or> gamespy_label ''gamestats2'' h"
| "host_matches SakeMux h \<longleftrightarrow> gamespy_label ''sake'' h"
| "host_matches RaceMux h \<longleftrightarrow> gamespy_label ''race'' h"

text \<open>The first match in the order in which Go walks the map, which changes from request to request;
  \<open>None\<close> is the default handler.\<close>

definition handleRequest :: "mux list \<Rightarrow> string \<Rightarrow> mux option" where
  "handleRequest order host = find (\<lambda>m. host_matches m host) order"

definition hostMuxes :: "mux list" where
  "hostMuxes = [AuthMux, DlsMux, GamestatsMux, SakeMux, RaceMux]"

lemma hostMuxes_all: "set hostMuxes = UNIV"
proof -
  have "m \<in> set hostMuxes" for m by (cases m) (simp_all add: hostMuxes_def)
  then show ?thesis by blast
qed

lemma find_member: "m \<in> set xs \<Longrightarrow> find (\<lambda>x. x = m) xs = Some m"
  by (induction xs) auto

text \<open>The order of the walk does not matter for a host that matches at most one of the patterns.\<close>

theorem routing_deterministic:
  assumes "length (filter (\<lambda>m. host_matches m host) hostMuxes) \<le> 1"
    and "set order = set hostMuxes" and "set order' = set hostMuxes"
  shows "handleRequest order host = handleRequest order' host"
proof (cases "filter (\<lambda>m. host_matches m host) hostMuxes")
  case Nil
  then have "\<not> host_matches m host" for m using hostMuxes_all by (metis UNIV_I filter_empty_conv)
  then have "find (\<lambda>m. host_matches m host) xs = None" for xs by (simp only: find_None_iff) simp
  then show ?thesis by (simp only: handleRequest_def)
next
  case (Cons m ms)
  then have "filter (\<lambda>m. host_matches m host) hostMuxes = [m]" using assms(1) by simp
  then have "{x \<in> set hostMuxes. host_matches x host} = {m}" by (metis set_filter empty_set list.simps(15))
  then have m: "host_matches x host \<longleftrightarrow> x = m" for x by (auto simp: hostMuxes_all)
  have "find (\<lambda>m. host_matches m host) xs = Some m" if "set xs = set hostMuxes" for xs
    unfolding m by (rule find_member) (simp add: that hostMuxes_all)
  then show ?thesis using assms(2,3) by (simp add: handleRequest_def)
qed

text \<open>There are hosts that match two.\<close>

lemma ambiguous_host:
  "handleRequest [AuthMux, DlsMux, GamestatsMux, SakeMux, RaceMux] ''nas.sake.gs.nintendowifi.net'' = Some AuthMux"
  "handleRequest [SakeMux, AuthMux, DlsMux, GamestatsMux, RaceMux] ''nas.sake.gs.nintendowifi.net'' = Some SakeMux"
  by (simp_all add: handleRequest_def gamespy_label_def has_prefix_def)

subsection \<open>Fixed pages\<close>

definition crlf_page :: "string list \<Rightarrow> string" where
  "crlf_page ls = concat (map (\<lambda>l. l @ [newline]) ls)"

text \<open>\<open>serverName\<close> is the configured name.\<close>

definition replyHTTPError :: "string \<Rightarrow> string \<Rightarrow> string" where
  "replyHTTPError serverName errorString = crlf_page
     [''<html>'', ''<head><title>'' @ errorString @ ''</title></head>'', ''<body>'',
      ''<center><h1>'' @ errorString @ ''</h1></center>'', ''<hr><center>'' @ serverName @ ''</center>'',
      ''</body>'', ''</html>'']"

definition handleNASTest :: string where
  "handleNASTest = crlf_page
     [''<html>'', ''<body>'', ''</br>AuthServer is up</br> '', [], ''</body>'', ''</html>'']"

definition handleConnectionTest :: string where
  "handleConnectionTest = crlf_page
     ([] # map (\<lambda>l. replicate 12 CHR '' '' @ l)
       [''<!DOCTYPE html PUBLIC '' @ [quote] @ ''-//W3C//DTD XHTML 1.0 Transitional//EN'' @ [quote, CHR '' '', quote] @
          ''http://www.w3.org/TR/xhtml1/DTD/xhtml1-transitional.dtd'' @ [quote] @ ''>'',
        ''<html>'', ''<head>'', ''<title>HTML Page</title>'', ''</head>'',
        ''<body bgcolor='' @ [quote] @ ''#FFFFFF'' @ [quote] @ ''>'', ''This is test.html page'', ''</body>'', ''</html>'']) @
     replicate 10 CHR '' ''"

text \<open>\<open>None\<close> closes the connection without an answer.\<close>

definition handleUnknown :: "string \<Rightarrow> http_out option" where
  "handleUnknown host =
     (if has_suffix host ''nintendowifi.net'' then Some (HttpError 404 ''404 Not Found'') else None)"

theorem one_host_header_witness:
  "\<exists>kept. filterDuplicateHost (''GET / HTTP/1.1'' @ carriage # newline # concat [''Host: a'' @ [newline], ''host: b'' @ [newline]] @ [newline] @ ''body'') =
      ''GET / HTTP/1.1'' @ carriage # newline # concat kept @ [newline] @ ''body'' \<and> length (filter host_header kept) \<le> 1"
proof -
  have h: "list_all header_line [''Host: a'' @ [newline], ''host: b'' @ [newline]]"
    by (simp add: header_line_def csv_chars)
  have "newline \<notin> set (''GET / HTTP/1.1'' @ [carriage])" by (simp add: csv_chars)
  moreover have "has_suffix ((''GET / HTTP/1.1'' @ [carriage]) @ [newline]) (''HTTP/1.1'' @ [carriage, newline])"
    by (simp add: has_suffix_def)
  ultimately show ?thesis using one_host_header [OF _ _ h, of "''GET / HTTP/1.1'' @ [carriage]" "[newline]" "''body''"] by auto
qed

theorem routing_deterministic_witness:
  "handleRequest hostMuxes ''sake.gs.nintendowifi.net'' = handleRequest (rev hostMuxes) ''sake.gs.nintendowifi.net''"
  by (rule routing_deterministic) (auto simp: hostMuxes_def gamespy_label_def has_prefix_def)

end
