(* ===== verification/NasGpcm.thy ===== *)
theory NasGpcm
  imports NasAccount Gpcm
begin

text \<open>
  The login of a console from end to end: the account server (\<open>nas/account.go\<close>) hands out a token and a
  challenge, the console answers the profile server (\<open>gpcm/login.go\<close>) with both.
\<close>

lemma length_collate: "length (collate s) \<le> length s"
  using length_dropWhile_le [of "\<lambda>c. c = CHR '' ''" "rev (to_upper s)"] by (simp add: collate_def to_upper_def)

lemma found_profile:
  assumes "GetProfileID w g d = Ret i" and "profiles_ok d"
  shows "\<exists>r. GetProfile i d = Ret (profile_of i r) \<and> same_account w g r"
proof -
  obtain r where f: "find (\<lambda>(_, r). same_account w g r) (profiles d) = Some (i, r)" and up: "up d"
    using assms(1) by (auto simp: GetProfileID_def split: option.splits)
  then have "(i, r) \<in> set (profiles d)" "same_account w g r" by (auto simp: find_Some_iff) (metis nth_mem)
  moreover have "distinct (map fst (profiles d))" using assms(2) by (simp add: profiles_ok_def)
  ultimately have "map_of (profiles d) i = Some r" by (simp add: map_of_is_SomeI)
  then show ?thesis
    using up \<open>same_account w g r\<close> by (intro exI [of _ r]) (simp add: GetProfile_def online_def)
qed

text \<open>What the console sends to the profile server.\<close>

definition answers_login :: "field list \<Rightarrow> string \<Rightarrow> login_reply \<Rightarrow> bool" where
  "answers_login req challenge resp \<longleftrightarrow>
     get_string req ''authtoken'' = Token resp \<and>
     get_string req ''response'' = generateResponse challenge (lr_Challenge resp) (Token resp) (get_string req ''challenge'')"

definition unit_expected :: "string \<Rightarrow> int \<Rightarrow> bool" where
  "unit_expected gamename unitcd \<longleftrightarrow> unitcd \<in> {0, 1} \<and> GetExpectedUnitCode gamename \<in> {of_int unitcd, 0xFF}"

text \<open>C3. A console that has logged in at the account server for a game, and answers the challenge of the
  profile server within ten minutes, is logged in there with the profile of its account and the game, as long
  as this profile has no other session.\<close>

theorem console_logs_in:
  assumes nas: "acLogin nenv nreq (d, c) = ((resp, None), (d', c'))" and "db_ok d"
    and game: "get_string nreq ''gsbrcd'' \<noteq> []" "4 \<le> length (collate (get_string nreq ''gsbrcd''))"
    and keys: "length (env_magic (nas_tokens nenv)) = 8" "length (env_iv (nas_tokens nenv)) = 16"
    and time: "0 \<le> nas_now nenv" "unix (nas_now nenv) < 2 ^ 63" "nas_now nenv \<le> now env"
      "now env \<le> nas_now nenv + 10 * 60 * second - second"
    and challenge: "length (nas_challenge nenv) = 8" "CHR 0x00 \<notin> set (nas_challenge nenv)"
    and gpcm: "tokens env = nas_tokens nenv" "gdb st = d'" "\<not> LoggedIn (session p st)"
      "answers_login req (Challenge (session p st)) resp"
      "unit_expected (get_string req ''gamename'') (get_int nreq ''unitcd'')"
      "GetProfileID (user_id nreq) (get_string nreq ''gsbrcd'') d' = Ret pid" "sessions (fst st) pid = None"
  shows "\<exists>st' reply. login env p st req = (st', Ret (Some reply)) \<and> LoggedIn (session p st') \<and> pid_at p st' = pid \<and>
    get_string reply ''lt'' = LoginTicket (session p st')"
proof -
  obtain user t where user: "GetUser (user_id nreq) d' = Some user" "may_login nreq user"
    and t: "unmarshal_token (nas_tokens nenv) (now env) (Token resp) = Ret t" "token_for nreq user (lr_Challenge resp) t"
      "GetProfileID (UserID user) (get_string nreq ''gsbrcd'') d' = Ret (token_ProfileID t)"
    and nch: "lr_Challenge resp = nas_challenge nenv"
    using login_token_good [OF nas keys time] game(1) by auto
  have pid: "token_ProfileID t = pid" using t(3) gpcm(6) GetUser_id [OF user(1)] by simp
  have "db_ok d'" using acLogin_ok [OF nas] assms(2) by simp
  then obtain r where r: "GetProfile pid d' = Ret (profile_of pid r)" "same_account (user_id nreq) (get_string nreq ''gsbrcd'') r"
    using found_profile [OF gpcm(6)] by (auto simp: db_ok_def)
  have "4 \<le> length (p_gsbrcd r)"
    using game(2) r(2) length_collate [of "p_gsbrcd r"] by (simp add: same_account_def)
  then have len: "\<not> length (GsbrCode (profile_of pid r)) < 4" by (simp add: profile_of_def)
  define b where "b = bytes_of (lr_Challenge resp)"
  have b: "length b = 8" "0 \<notin> set b"
  proof -
    have "c = CHR 0x00" if "(0 :: u8) = of_char c" for c
    proof -
      have "(of_char c :: nat) = 0" using that unat_of_char_u8 [of c] by (metis unsigned_0)
      then show ?thesis using of_char_eq_iff [where 'a = nat, of c "CHR 0x00"] by simp
    qed
    then show "length b = 8" "0 \<notin> set b" using challenge by (auto simp: nch b_def bytes_of_def)
  qed
  have "NullTerminatedString (token_Challenge t) = b"
    using t(2) b by (auto simp: token_for_def b_def [symmetric] NullTerminatedString_def copy_at_def takeWhile_eq_all_conv)
  then have ch: "string_of (NullTerminatedString (token_Challenge t)) = lr_Challenge resp"
    by (simp add: b_def string_of_bytes_of)
  have unit: "unit_code_ok (set_login_info (get_string req ''gamename'') t (session p st))"
    using gpcm(5) t(2) user(2)
    by (auto simp: unit_expected_def unit_code_ok_def set_login_info_def token_for_def may_login_def Let_def)
  have sid: "session p (upd_session p f s) = f (session p s)" "gdb (upd_session p f s) = gdb s"
    "sessions (fst (upd_session p f s)) = sessions (fst s)" for f s
    by (simp_all add: session_def upd_session_def gdb_def)
  have eid: "session p (emit os s) = session p s" "gdb (emit os s) = gdb s" "fst (emit os s) = fst s" for os s
    by (simp_all add: session_def emit_def gdb_def)
  have keep: "Challenge (set_login_info g t s) = Challenge s" for g s by (simp add: set_login_info_def Let_def)
  show ?thesis
    using gpcm(2,3,4,7) len unit
    by (simp add: login_def answers_login_def gpcm(1) t(1) login_token_def Let_def sid eid keep ch pid r(1)
        take_over_def finish_login_def pid_at_def profile_of_def)
      (simp add: session_def upd_session_def LoginResponse_def get_string_def field_of_def tag_key_def tag_split_def)
qed

definition late_env :: gp_env where
  "late_env = \<lparr>tokens = sample_env, tickets = sample_env, now = 1100 * second, rnd = 0, rnd_challenge = ''ABCDEFGHIJ'',
     rnd_sig = [], send_ok = \<lambda>_. True, meanwhile = \<lambda>st. st\<rparr>"

definition one_connection :: "db \<Rightarrow> gp_state" where
  "one_connection d =
     (\<lparr>heap = \<lambda>_. new_session late_env 9 ''10.0.0.1:50000'', fresh = 1, sessions = Map.empty,
       sessionsByConnIndex = [9 \<mapsto> 0], database = d\<rparr>, [])"

definition answer :: "login_reply \<Rightarrow> field list" where
  "answer resp = [(''authtoken'', GString (Token resp)), (''challenge'', GString ''client''), (''gamename'', GString ''mariokartwii''),
     (''response'', GString (generateResponse (Challenge (new_session late_env 9 ''10.0.0.1:50000'')) (lr_Challenge resp) (Token resp) ''client''))]"

theorem console_logs_in_witness:
  "\<exists>resp d' c' st' reply. acLogin sample_nas_env sample_request (sample_db, \<lparr>profanityFileLines = None, lastModTime = 0\<rparr>) =
       ((resp, None), (d', c')) \<and>
     login late_env 0 (one_connection d') (answer resp) = (st', Ret (Some reply)) \<and> LoggedIn (session 0 st')"
proof -
  obtain resp d' c' where l: "acLogin sample_nas_env sample_request (sample_db, \<lparr>profanityFileLines = None, lastModTime = 0\<rparr>) =
     ((resp, None), (d', c'))" using sample_login by (metis prod.collapse)
  have ok: "db_ok sample_db" using sample_db_reachable reachable_db_ok by blast
  have e: "nas_tokens sample_nas_env = sample_env" "nas_now sample_nas_env = 1000 * second" "tokens late_env = sample_env"
    "now late_env = 1100 * second" "nas_challenge sample_nas_env = ''ABCDEFGH''" by (simp_all add: sample_nas_env_def late_env_def)
  have k: "length (env_magic sample_env) = 8" "length (env_iv sample_env) = 16" by (simp_all add: sample_env_def)
  have co: "collate ''RMCJ0000001'' = ''RMCJ0000001''" by (simp add: collate_def to_upper_def Let_def)
  have un: "unit_expected ''mariokartwii'' 1"
  proof -
    have "GetExpectedUnitCode ''mariokartwii'' = 1" by code_simp
    then show ?thesis by (simp add: unit_expected_def)
  qed
  have a: "get_string (answer resp) ''authtoken'' = Token resp" "get_string (answer resp) ''challenge'' = ''client''"
    "get_string (answer resp) ''gamename'' = ''mariokartwii''"
    "get_string (answer resp) ''response'' = generateResponse (Challenge (new_session late_env 9 ''10.0.0.1:50000'')) (lr_Challenge resp) (Token resp) ''client''"
    by (simp_all add: answer_def get_string_def field_of_def tag_key_def tag_split_def)
  have "nas_now sample_nas_env \<le> 1100 * second" "1100 * second \<le> nas_now sample_nas_env + 10 * 60 * second - second"
    "0 \<le> nas_now sample_nas_env" "unix (nas_now sample_nas_env) < 2 ^ 63" by (simp_all add: e unix_def second_def)
  then obtain pid where pid: "GetProfileID (user_id sample_request) (get_string sample_request ''gsbrcd'') d' = Ret pid"
    using login_token_good [OF l, of "1100 * second"] k GetUser_id by (auto simp: e sample_request_fields)
  have n: "session 0 (one_connection d') = new_session late_env 9 ''10.0.0.1:50000''" "gdb (one_connection d') = d'"
    "sessions (fst (one_connection d')) = Map.empty" "\<not> LoggedIn (new_session late_env 9 ''10.0.0.1:50000'')"
    by (simp_all add: session_def one_connection_def gdb_def new_session_def)
  have "\<exists>st' reply. login late_env 0 (one_connection d') (answer resp) = (st', Ret (Some reply)) \<and>
      LoggedIn (session 0 st') \<and> pid_at 0 st' = pid \<and> get_string reply ''lt'' = LoginTicket (session 0 st')"
    by (rule console_logs_in [OF l ok, where pid = pid])
      (simp_all add: sample_request_fields co e k n a un pid [unfolded sample_request_fields] answers_login_def unix_def second_def)
  then show ?thesis using l by blast
qed

end
