(* ===== verification/SqlFilter.thy ===== *)
theory SqlFilter
  imports FilterTree
begin

text \<open>
  \<open>database/sake_filter.go\<close>: a search expression rewritten as the condition of an SQL query. The text of
  the query grows in \<open>e_query\<close>; every text and field name of the client is pushed to \<open>e_args\<close> and stands
  in the query as a placeholder. A panic of the code carries a string, which \<open>createSqlFilter\<close> recovers
  as an error; no other panic can happen here, so the results are \<open>Ret\<close> and \<open>Err\<close>.
\<close>

record expression =
  e_query :: string
  e_args :: "string list"

datatype sql_error =
    SqlEvalFailed
  | SqlInvalidNode
  | SqlFunctionNotSupported string
  | SqlUnexpectedFunction
  | SqlOperatorNotSupported string
  | SqlUnexpectedGroup
  | SqlUnexpectedValue
  | SqlMissingArguments
  | SqlTwoArguments
  | SqlThreeArguments

type_synonym sql_result = "(sql_error, expression) outcome"

definition emit :: "string \<Rightarrow> expression \<Rightarrow> expression" where
  "emit s e = e\<lparr>e_query := e_query e @ s\<rparr>"

text \<open>\<open>e.query += before + e.filterPushArg(arg) + after\<close>\<close>

definition filterPushArg :: "string \<Rightarrow> expression \<Rightarrow> expression \<times> string" where
  "filterPushArg arg e = (e\<lparr>e_args := e_args e @ [arg]\<rparr>, ''?'')"

definition emit_arg :: "string \<Rightarrow> string \<Rightarrow> string \<Rightarrow> expression \<Rightarrow> expression" where
  "emit_arg before arg after e = (case filterPushArg arg e of (e', hole) \<Rightarrow> emit (before @ hole @ after) e')"

definition filterAppendQueryValue :: "string \<Rightarrow> expression \<Rightarrow> expression" where
  "filterAppendQueryValue nm e =
     (if nm = ''ownerid'' then emit ''(owner_id)'' e
      else if nm = ''recordid'' then emit ''(record_id)'' e
      else if nm = ''gameid'' then emit ''(game_id)'' e
      else if nm = ''tableid'' then emit ''(table_id)'' e
      else emit_arg ''COALESCE(JSON_VALUE(fields, CONCAT('$.', '' nm '', '.value')), '0')'' e)"

subsection \<open>Operators\<close>

text \<open>
  What an operator writes before, between and after its first two arguments, given how many it has.
\<close>

type_synonym frame = "string \<times> string \<times> string"

definition filterAppendAnd :: "nat \<Rightarrow> (sql_error, frame) outcome" where
  "filterAppendAnd cnt = (if cnt < 2 then Err SqlMissingArguments else Ret (''( '', '' AND '', '' )''))"

definition filterAppendOr :: "nat \<Rightarrow> (sql_error, frame) outcome" where
  "filterAppendOr cnt = (if cnt < 2 then Err SqlMissingArguments else Ret (''( '', '' OR '', '' )''))"

definition filterAppendOperator :: "string \<Rightarrow> nat \<Rightarrow> (sql_error, frame) outcome" where
  "filterAppendOperator op cnt =
     (if cnt \<noteq> 2 then Err SqlTwoArguments else Ret (''( '', '' '' @ op @ '' '', '' )''))"

definition filterAppendMathOperator :: "string \<Rightarrow> nat \<Rightarrow> (sql_error, frame) outcome" where
  "filterAppendMathOperator op cnt =
     (if cnt \<noteq> 2 then Err SqlTwoArguments else Ret (''( ('', '') '' @ op @ '' ('', '') )''))"

definition math_spellings :: "string list" where
  "math_spellings = [''>'', ''<'', ''>='', ''<='', ''+'', ''-'', ''&'', ''|'', ''^'', ''<<'', ''>>'']"

definition filterSwitchOperator :: "string \<Rightarrow> nat \<Rightarrow> (sql_error, frame) outcome" where
  "filterSwitchOperator operator cnt =
     (let op = to_lower operator in
      if op = ''='' \<or> op = ''!='' then filterAppendOperator op cnt
      else if op \<in> set math_spellings then filterAppendMathOperator op cnt
      else if op = ''and'' then filterAppendAnd cnt
      else if op = ''or'' then filterAppendOr cnt
      else Err (SqlOperatorNotSupported operator))"

lemma filterSwitchOperator_args: "filterSwitchOperator op n = Ret f \<Longrightarrow> 2 \<le> n"
  by (auto simp: filterSwitchOperator_def filterAppendOperator_def filterAppendMathOperator_def
      filterAppendAnd_def filterAppendOr_def Let_def split: if_splits)

subsection \<open>Nodes\<close>

text \<open>
  \<open>filterAppendRoot\<close> handles the first child only: every case of its loop returns. A frame is only
  written around arguments that are there (\<open>filterSwitchOperator_args\<close>).
\<close>

function filterAppendRoot :: "tree \<Rightarrow> expression \<Rightarrow> sql_result"
and filterSwitchFunction :: "tree \<Rightarrow> expression \<Rightarrow> sql_result"
and filterAppendNode :: "tree \<Rightarrow> expression \<Rightarrow> sql_result" where
  "filterAppendRoot t e =
     (case TItems t of
        [] \<Rightarrow> Err SqlEvalFailed
      | node # _ \<Rightarrow>
          (case Category (TValue node) of
             CatFunction \<Rightarrow> filterSwitchFunction node e
           | CatValue \<Rightarrow> filterAppendNode node e
           | CatOther \<Rightarrow>
               if TValue node = GroupToken ''()'' then filterAppendRoot node e else Err SqlInvalidNode))"
| "filterSwitchFunction t e =
     (case TValue t of
        OperatorToken op \<Rightarrow>
          bind_outcome (filterSwitchOperator op (length (TItems t))) (\<lambda>(before, between, after).
          case TItems t of
            a0 # a1 # _ \<Rightarrow>
              bind_outcome (filterAppendNode a0 (emit before e)) (\<lambda>e1.
              bind_outcome (filterAppendNode a1 (emit between e1)) (\<lambda>e2.
              Ret (emit after e2)))
          | _ \<Rightarrow> Panic)
      | FuncToken nm arguments \<Rightarrow>
          if to_lower nm = ''substring'' then
            (case arguments of
               [x, y, z] \<Rightarrow>
                 bind_outcome (filterAppendRoot x (emit ''SUBSTRING( '' e)) (\<lambda>e1.
                 bind_outcome (filterAppendRoot y (emit '', ('' e1)) (\<lambda>e2.
                 bind_outcome (filterAppendRoot z (emit ''), ('' e2)) (\<lambda>e3.
                 Ret (emit '') )'' e3))))
             | _ \<Rightarrow> Err SqlThreeArguments)
          else Err (SqlFunctionNotSupported nm)
      | _ \<Rightarrow> Err SqlUnexpectedFunction)"
| "filterAppendNode t e =
     (case TValue t of
        NumberToken v \<Rightarrow> Ret (emit ([CHR 0x27] @ format_int v @ [CHR 0x27]) e)
      | IdentityToken nm \<Rightarrow> Ret (filterAppendQueryValue nm e)
      | OperatorToken _ \<Rightarrow> filterSwitchFunction t e
      | FuncToken _ _ \<Rightarrow> filterSwitchFunction t e
      | GroupToken g \<Rightarrow>
          if g = ''()'' then
            bind_outcome (filterAppendRoot t (emit ''('' e)) (\<lambda>e'. Ret (emit '')'' e'))
          else Err SqlUnexpectedGroup
      | TextToken s \<Rightarrow> Ret (emit_arg ''('' s '')'' e)
      | _ \<Rightarrow> Err SqlUnexpectedValue)"
  by pat_completeness auto

lemma size_child: "n \<in> set (TItems t) \<Longrightarrow> size n < size t"
  using size_list_estimation' [of n "TItems t" "size n" size] by (cases t) simp

lemma size_first_child: "TItems t = n # ns \<Longrightarrow> size n < size t"
  using size_child [of n t] by simp

lemma size_second_child: "TItems t = m # n # ns \<Longrightarrow> size n < size t"
  using size_child [of n t] by simp

lemma size_argument: "TValue t = FuncToken nm arguments \<Longrightarrow> n \<in> set arguments \<Longrightarrow> size n < size t"
  using size_list_estimation' [of n arguments "size n" size] by (cases t) simp

lemma size_three:
  assumes "TValue t = FuncToken nm [x, y, z]"
  shows "size x < size t" "size y < size t" "size z < size t"
  using size_argument [OF assms] by simp_all

termination filterAppendRoot
  by (relation "measure (\<lambda>x. case x of
        Inl (t, _) \<Rightarrow> 3 * size t | Inr (Inl (t, _)) \<Rightarrow> 3 * size t | Inr (Inr (t, _)) \<Rightarrow> 3 * size t + 1)")
    (auto dest: size_first_child size_second_child size_three)

declare filterAppendRoot.simps [simp del] filterSwitchFunction.simps [simp del] filterAppendNode.simps [simp del]

text \<open>The named result \<open>args\<close> is returned without ever being set: it is nil.\<close>

definition createSqlFilter :: "tree \<Rightarrow> (sql_error, string \<times> string list) outcome" where
  "createSqlFilter basenode =
     bind_outcome (filterAppendRoot basenode \<lparr>e_query = [], e_args = []\<rparr>)
       (\<lambda>e. Ret (''('' @ e_query e @ '')'', []))"

lemmas filter_append_induct = filterAppendRoot_filterSwitchFunction_filterAppendNode.induct

subsection \<open>The query does not depend on the client's texts\<close>

text \<open>\<open>blank\<close> forgets every text and every field name of an expression but those of the four columns.\<close>

definition columns :: "string list" where
  "columns = [''ownerid'', ''recordid'', ''gameid'', ''tableid'']"

primrec blank_token :: "token \<Rightarrow> token" and blank :: "tree \<Rightarrow> tree" where
  "blank_token EmptyToken = EmptyToken"
| "blank_token (NumberToken v) = NumberToken v"
| "blank_token (IdentityToken nm) = IdentityToken (if nm \<in> set columns then nm else [])"
| "blank_token (FuncToken nm arguments) = FuncToken nm (map blank arguments)"
| "blank_token (OperatorToken op) = OperatorToken op"
| "blank_token (LRFuncToken nm) = LRFuncToken nm"
| "blank_token (GroupToken g) = GroupToken g"
| "blank_token (TextToken s) = TextToken []"
| "blank (TreeNode v items) = TreeNode (blank_token v) (map blank items)"

lemma blank_simps [simp]:
  "TValue (blank t) = blank_token (TValue t)" "TItems (blank t) = map blank (TItems t)"
  by (cases t; simp)+

lemma blank_Category [simp]: "Category (blank_token v) = Category v"
  by (cases v) auto

lemma blank_group [simp]: "blank_token v = GroupToken g \<longleftrightarrow> v = GroupToken g"
  by (cases v) auto

fun same_query :: "sql_result \<Rightarrow> sql_result \<Rightarrow> bool" where
  "same_query (Ret a) (Ret b) = (e_query a = e_query b)"
| "same_query (Err x) (Err y) = (x = y)"
| "same_query Panic Panic = True"
| "same_query _ _ = False"

lemma same_query_bind:
  assumes "same_query m m'" and "\<And>a b. m' = Ret b \<Longrightarrow> e_query a = e_query b \<Longrightarrow> same_query (f a) (g b)"
  shows "same_query (bind_outcome m f) (bind_outcome m' g)"
  using assms by (cases m; cases m') auto

lemma e_query_emit [simp]:
  "e_query (emit s e) = e_query e @ s" "e_query (emit_arg b a c e) = e_query e @ b @ ''?'' @ c"
  by (simp_all add: emit_def emit_arg_def filterPushArg_def)

lemma same_query_refl: "e_query a = e_query b \<Longrightarrow> same_query (Ret a) (Ret b)"
  by simp

lemma query_value_blank [simp]:
  "e_query a = e_query b \<Longrightarrow>
     e_query (filterAppendQueryValue (if nm \<in> set columns then nm else []) a) = e_query (filterAppendQueryValue nm b)"
  by (auto simp: filterAppendQueryValue_def columns_def)

lemma blank_identity [simp]:
  "e_query a = e_query b \<Longrightarrow> TValue t = IdentityToken nm \<Longrightarrow>
     same_query (filterAppendNode (blank t) a) (filterAppendNode t b)"
  by (subst (1 2) filterAppendNode.simps) (simp add: query_value_blank)

lemma blank_same_query:
  "\<And>a. e_query a = e_query e \<Longrightarrow> same_query (filterAppendRoot (blank t) a) (filterAppendRoot t e)"
  "\<And>a. e_query a = e_query e \<Longrightarrow> same_query (filterSwitchFunction (blank t) a) (filterSwitchFunction t e)"
  "\<And>a. e_query a = e_query e \<Longrightarrow> same_query (filterAppendNode (blank t) a) (filterAppendNode t e)"
proof (induction t e and t e and t e rule: filter_append_induct)
  case (1 t e)
  show ?case
    apply (subst (1 2) filterAppendRoot.simps)
    using 1 by (auto split: list.splits category.splits)
next
  case (2 t e)
  show ?case
  proof (cases "TValue t")
    case (OperatorToken op)
    note t = this
    show ?thesis
    proof (cases "filterSwitchOperator op (length (TItems t))")
      case (Ret f)
      obtain p q r where f: "f = (p, q, r)" by (cases f)
      from filterSwitchOperator_args [OF Ret] obtain a0 a1 w where i: "TItems t = a0 # a1 # w"
        by (metis Suc_le_length_iff numeral_2_eq_2)
      show ?thesis
        apply (subst (1 2) filterSwitchFunction.simps)
        using 2 t Ret f i by (auto intro!: same_query_bind)
    qed (subst (1 2) filterSwitchFunction.simps, simp add: t)+
  next
    case (FuncToken nm arguments)
    show ?thesis
    proof (cases "to_lower nm = ''substring'' \<and> (\<exists>x y z. arguments = [x, y, z])")
      case True
      then obtain x y z where "arguments = [x, y, z]" "to_lower nm = ''substring''" by auto
      then show ?thesis
        apply (subst (1 2) filterSwitchFunction.simps)
        using 2 FuncToken by (auto intro!: same_query_bind)
    next
      case False
      then show ?thesis
        by (subst (1 2) filterSwitchFunction.simps) (auto simp: FuncToken split: list.splits)
    qed
  qed (subst (1 2) filterSwitchFunction.simps, simp)+
next
  case (3 t e)
  show ?case
  proof (cases "\<exists>nm. TValue t = IdentityToken nm")
    case True
    then show ?thesis using 3 by auto
  next
    case False
    then show ?thesis
      apply (subst (1 2) filterAppendNode.simps)
      using 3 by (auto split: token.splits intro!: same_query_bind)
  qed
qed

text \<open>C39. The text of the query is the same whatever texts and field names the client writes.
\<close>

theorem query_ignores_texts: "createSqlFilter (blank t) = createSqlFilter t"
proof -
  let ?e = "\<lparr>e_query = [], e_args = []\<rparr>"
  have "same_query (filterAppendRoot (blank t) ?e) (filterAppendRoot t ?e)" by (rule blank_same_query(1)) simp
  then show ?thesis
    by (cases "filterAppendRoot (blank t) ?e"; cases "filterAppendRoot t ?e") (auto simp: createSqlFilter_def)
qed

subsection \<open>One argument for each placeholder\<close>

definition holes :: "string \<Rightarrow> nat" where "holes s = length (filter (\<lambda>c. c = CHR ''?'') s)"

lemma holes_append [simp]: "holes (a @ b) = holes a + holes b"
  by (simp add: holes_def)

lemma holes_Cons [simp]: "holes (c # s) = (if c = CHR ''?'' then 1 else 0) + holes s"
  by (simp add: holes_def)

lemma holes_Nil [simp]: "holes [] = 0"
  by (simp add: holes_def)

lemma holes_format_int [simp]: "holes (format_int i) = 0"
proof -
  have "CHR ''?'' \<notin> set (format_uint n)" for n
    using format_uint_digits [of n] by (auto simp: digit_val_def)
  then have "holes (format_uint n) = 0" for n by (auto simp: holes_def filter_empty_conv)
  then show ?thesis by (simp add: format_int_def)
qed

text \<open>\<open>filled e e'\<close>: from \<open>e\<close> to \<open>e'\<close> as many placeholders were written as arguments pushed.\<close>

definition filled :: "expression \<Rightarrow> expression \<Rightarrow> bool" where
  "filled e e' \<longleftrightarrow> holes (e_query e') + length (e_args e) = holes (e_query e) + length (e_args e')"

lemma filled_trans: "filled e e' \<Longrightarrow> filled e' e'' \<Longrightarrow> filled e e''"
  by (simp add: filled_def)

lemma filled_emit [simp]: "holes s = 0 \<Longrightarrow> filled e (emit s e') = filled e e'"
  by (simp add: filled_def emit_def)

lemma filled_emit_left [simp]: "holes s = 0 \<Longrightarrow> filled (emit s e) e' = filled e e'"
  by (simp add: filled_def emit_def)

lemma filled_emit_arg [simp]: "holes b = 0 \<Longrightarrow> holes c = 0 \<Longrightarrow> filled e (emit_arg b a c e)"
  by (simp add: filled_def emit_def emit_arg_def filterPushArg_def)

lemma filled_refl [simp]: "filled e e"
  by (simp add: filled_def)

lemma filled_query_value [simp]: "filled e (filterAppendQueryValue nm e)"
  by (simp add: filterAppendQueryValue_def)

lemma frame_holes:
  "filterSwitchOperator op n = Ret (p, q, r) \<Longrightarrow> holes p = 0 \<and> holes q = 0 \<and> holes r = 0"
  by (auto simp: filterSwitchOperator_def filterAppendOperator_def filterAppendMathOperator_def
      filterAppendAnd_def filterAppendOr_def math_spellings_def Let_def split: if_splits)

lemma filled_append:
  "filterAppendRoot t e = Ret e' \<Longrightarrow> filled e e'"
  "filterSwitchFunction t e = Ret e' \<Longrightarrow> filled e e'"
  "filterAppendNode t e = Ret e' \<Longrightarrow> filled e e'"
proof (induction t e and t e and t e arbitrary: e' and e' and e' rule: filter_append_induct)
  case (1 t e)
  then show ?case by (subst (asm) filterAppendRoot.simps) (auto split: list.splits category.splits if_splits)
next
  case (2 t e)
  show ?case
  proof (cases "TValue t")
    case (OperatorToken op)
    obtain p q r where f: "filterSwitchOperator op (length (TItems t)) = Ret (p, q, r)"
      using 2(6) by (subst (asm) filterSwitchFunction.simps) (auto simp: OperatorToken)
    from filterSwitchOperator_args [OF f] obtain a0 a1 w where i: "TItems t = a0 # a1 # w"
      by (metis Suc_le_length_iff numeral_2_eq_2)
    obtain e1 e2
      where r: "filterAppendNode a0 (emit p e) = Ret e1" "filterAppendNode a1 (emit q e1) = Ret e2" "e' = emit r e2"
      using 2(6) f i by (subst (asm) filterSwitchFunction.simps) (auto simp: OperatorToken)
    have "filled (emit p e) e1" "filled (emit q e1) e2"
      using 2(4) [OF OperatorToken f refl refl i refl r(1)]
        2(5) [OF OperatorToken f refl refl i refl r(1,2)] by simp_all
    then show ?thesis using frame_holes [OF f] r(3) by (auto intro: filled_trans)
  next
    case (FuncToken nm arguments)
    obtain x y z e1 e2 e3 where n: "to_lower nm = ''substring''" "arguments = [x, y, z]"
      and r: "filterAppendRoot x (emit ''SUBSTRING( '' e) = Ret e1" "filterAppendRoot y (emit '', ('' e1) = Ret e2"
        "filterAppendRoot z (emit ''), ('' e2) = Ret e3" "e' = emit '') )'' e3"
      using 2(6) by (subst (asm) filterSwitchFunction.simps)
        (auto simp: FuncToken split: list.split_asm if_split_asm)
    have "filled (emit ''SUBSTRING( '' e) e1" by (rule 2(1) [OF FuncToken n(1,2) refl refl refl r(1)])
    moreover have "filled (emit '', ('' e1) e2" by (rule 2(2) [OF FuncToken n(1,2) refl refl refl r(1,2)])
    moreover have "filled (emit ''), ('' e2) e3" by (rule 2(3) [OF FuncToken n(1,2) refl refl refl r(1,2,3)])
    ultimately show ?thesis using r(4) by (auto intro: filled_trans)
  qed (use 2 in \<open>subst (asm) filterSwitchFunction.simps, simp\<close>)+
next
  case (3 t e)
  then show ?case
    by (subst (asm) filterAppendNode.simps) (auto split: token.splits if_splits)
qed

text \<open>A condition has a placeholder for every text and field name of the expression, and no argument is
  returned with it.
\<close>

theorem placeholders_without_arguments:
  assumes "createSqlFilter t = Ret (q, a)"
  shows "a = [] \<and> (\<exists>e. filterAppendRoot t \<lparr>e_query = [], e_args = []\<rparr> = Ret e \<and>
           q = ''('' @ e_query e @ '')'' \<and> holes q = length (e_args e))"
  using assms filled_append(1) [of t "\<lparr>e_query = [], e_args = []\<rparr>"]
  by (auto simp: createSqlFilter_def filled_def)

definition sample_filter :: tree where
  "sample_filter = TreeNode EmptyToken [TreeNode (OperatorToken ''='')
     [TreeNode (IdentityToken ''wiiid'') [], TreeNode (TextToken ''x'') []]]"

lemma sample_filter_query:
  "createSqlFilter sample_filter =
     Ret (''(( COALESCE(JSON_VALUE(fields, CONCAT('$.', ?, '.value')), '0') = (?) ))'', [])"
  unfolding sample_filter_def createSqlFilter_def
  by (simp add: filterAppendRoot.simps filterSwitchFunction.simps filterAppendNode.simps
      filterSwitchOperator_def filterAppendOperator_def filterAppendQueryValue_def emit_def emit_arg_def
      filterPushArg_def to_lower_def)

theorem placeholders_without_arguments_witness:
  "\<exists>e. filterAppendRoot sample_filter \<lparr>e_query = [], e_args = []\<rparr> = Ret e \<and> length (e_args e) = 2"
  using placeholders_without_arguments [OF sample_filter_query] by auto

end
