(* ===== verification/SakeDb.thy ===== *)
theory SakeDb
  imports Database SqlFilter FilterParse
begin

text \<open>
  \<open>database/sake.go\<close> and \<open>database/mario_kart_wii.go\<close> on their two tables of \<open>schema.sql\<close>, in the way of
  \<open>Database\<close>. A Go \<open>int32\<close> is a 32-bit word read with \<open>sint\<close>, an unsigned column one read with \<open>uint\<close>.
  The column \<open>fields\<close> holds the text of JSON documents; since the code only writes documents it has
  printed and appends them to the text, the column is the list of these documents, and the text is valid
  JSON when it is a single one. What the SQL server makes of the text of a filter is an argument.
\<close>

datatype SakeFieldType =
    SakeFieldTypeByte
  | SakeFieldTypeShort
  | SakeFieldTypeInt
  | SakeFieldTypeFloat
  | SakeFieldTypeAsciiString
  | SakeFieldTypeUnicodeString
  | SakeFieldTypeBoolean
  | SakeFieldTypeDateAndTime
  | SakeFieldTypeBinaryData
  | SakeFieldTypeInt64

record SakeField =
  sf_Type :: SakeFieldType
  sf_Value :: string

text \<open>A Go map of fields; a nil map is \<open>None\<close> where the code tells it from an empty one.\<close>

type_synonym sake_fields = "(string \<times> SakeField) list"

record SakeRecord =
  sr_GameId :: int
  sr_OwnerId :: u32
  sr_TableId :: string
  sr_RecordId :: u32
  sr_Fields :: sake_fields

datatype json = JsonNull | JsonObject sake_fields

record sake_row =
  row_game :: int
  row_table :: string
  row_record :: u32
  row_owner :: u32
  row_fields :: "json list"

record mkw_row =
  m_id :: int
  m_region :: int
  m_course :: int
  m_score :: int
  m_pid :: int
  m_info :: string
  m_ghost :: "bytes option"

record sake_db =
  core :: db
  records :: "sake_row list"
  times :: "mkw_row list"
  next_time :: int

datatype sake_error =
    Db db_error
  | ErrSakeNotOwned
  | ErrSakeFieldLimitExceeded
  | ErrArguments nat nat
  | ErrFilterParse parse_error
  | ErrFilterSql sql_error
  | ErrJson
  | ErrScan

fun map_error :: "('e \<Rightarrow> 'f) \<Rightarrow> ('e, 'a) outcome \<Rightarrow> ('f, 'a) outcome" where
  "map_error f (Ret a) = Ret a"
| "map_error f (Err e) = Err (f e)"
| "map_error f Panic = Panic"

lemma map_error_Ret [simp]: "map_error f m = Ret a \<longleftrightarrow> m = Ret a"
  by (cases m) auto

lemma map_error_Panic [simp]: "map_error f m = Panic \<longleftrightarrow> m = Panic"
  by (cases m) auto

definition sake_online :: "sake_db \<Rightarrow> (sake_error, unit) outcome" where
  "sake_online d = map_error Db (online (core d))"

lemma sake_online_Ret [simp]: "sake_online d = Ret u \<longleftrightarrow> up (core d)"
  by (simp add: sake_online_def)

subsection \<open>The column of fields\<close>

definition json_Marshal :: "sake_fields option \<Rightarrow> json" where
  "json_Marshal m = (case m of None \<Rightarrow> JsonNull | Some fs \<Rightarrow> JsonObject fs)"

definition json_valid :: "json list \<Rightarrow> bool" where
  "json_valid docs \<longleftrightarrow> length docs = 1"

text \<open>\<open>json_length(json_keys(fields)) <= 64\<close>, which is unknown for \<open>null\<close> and then holds\<close>

fun keys_ok :: "json \<Rightarrow> bool" where
  "keys_ok JsonNull = True"
| "keys_ok (JsonObject fs) = (length fs \<le> 64)"

definition fields_check :: "json list \<Rightarrow> bool" where
  "fields_check docs \<longleftrightarrow> json_valid docs \<and> list_all keys_ok docs"

definition parseSakeFieldsFromJson :: "json list \<Rightarrow> (sake_error, sake_fields) outcome" where
  "parseSakeFieldsFromJson docs =
     (case docs of [JsonNull] \<Rightarrow> Ret [] | [JsonObject fs] \<Rightarrow> Ret fs | _ \<Rightarrow> Err ErrJson)"

subsection \<open>Records\<close>

text \<open>The columns \<open>game_id\<close>, \<open>table_id\<close> (a \<open>tinytext\<close>) and \<open>owner_id\<close>; text compares under the collation
  \<open>utf8mb4_general_ci\<close>, for ASCII as \<open>collate\<close>.\<close>

definition sake_columns_ok :: "int \<Rightarrow> string \<Rightarrow> u32 \<Rightarrow> bool" where
  "sake_columns_ok game tab owner \<longleftrightarrow> 0 \<le> game \<and> game < 2 ^ 32 \<and> length tab \<le> 255 \<and> 0 \<le> sint owner"

definition in_table :: "int \<Rightarrow> string \<Rightarrow> sake_row \<Rightarrow> bool" where
  "in_table game tab r \<longleftrightarrow> row_game r = game \<and> collate (row_table r) = collate tab"

text \<open>A row as \<open>rows.Scan\<close> and the parser read it; an unsigned column beyond an \<open>int32\<close> is an error.\<close>

definition scan_row :: "int \<Rightarrow> string \<Rightarrow> sake_row \<Rightarrow> (sake_error, SakeRecord) outcome" where
  "scan_row game tab r =
     (if 2 ^ 31 \<le> uint (row_owner r) \<or> 2 ^ 31 \<le> uint (row_record r) then Err ErrScan
      else bind_outcome (parseSakeFieldsFromJson (row_fields r)) (\<lambda>fs.
        Ret \<lparr>sr_GameId = game, sr_OwnerId = row_owner r, sr_TableId = tab, sr_RecordId = row_record r,
             sr_Fields = fs\<rparr>))"

fun collect :: "('a \<Rightarrow> ('e, 'b) outcome) \<Rightarrow> 'a list \<Rightarrow> ('e, 'b list) outcome" where
  "collect f [] = Ret []"
| "collect f (x # xs) = bind_outcome (f x) (\<lambda>y. bind_outcome (collect f xs) (\<lambda>ys. Ret (y # ys)))"

text \<open>The condition of a filter expression, \<open>None\<close> for the empty string\<close>

definition filter_condition :: "unicode \<Rightarrow> string \<Rightarrow> (sake_error, (string \<times> string list) option) outcome" where
  "filter_condition uc filterExpr =
     (if filterExpr = [] then Ret None
      else bind_outcome (map_error ErrFilterParse (Parse uc filterExpr)) (\<lambda>tree.
           bind_outcome (map_error ErrFilterSql (createSqlFilter tree)) (\<lambda>q. Ret (Some q))))"

text \<open>
  \<open>sql_where q row\<close> is the value of the condition \<open>q\<close> (without placeholders) for a row, \<open>None\<close> when
  evaluating it fails. The driver refuses a query whose placeholders are not as many as its arguments.
\<close>

type_synonym sql_where = "string \<Rightarrow> sake_row \<Rightarrow> bool option"

definition matching :: "sql_where \<Rightarrow> string \<Rightarrow> sake_row list \<Rightarrow> (sake_error, sake_row list) outcome" where
  "matching sql q rows =
     bind_outcome (collect (\<lambda>r. case sql q r of None \<Rightarrow> Err (Db ErrDataRange) | Some b \<Rightarrow> Ret (r, b)) rows)
       (\<lambda>rs. Ret (map fst (filter snd rs)))"

definition listed :: "u32 list \<Rightarrow> u32 \<Rightarrow> bool" where
  "listed ids i \<longleftrightarrow> ids = [] \<or> list_ex (\<lambda>j. sint j = uint i) ids"

definition GetSakeRecords ::
  "unicode \<Rightarrow> sql_where \<Rightarrow> int \<Rightarrow> u32 list \<Rightarrow> string \<Rightarrow> u32 list \<Rightarrow> string \<Rightarrow> sake_db
     \<Rightarrow> (sake_error, SakeRecord list) outcome" where
  "GetSakeRecords uc sql gameId ownerIds tableId recordIds filterExpr d =
     bind_outcome (filter_condition uc filterExpr) (\<lambda>cond.
     bind_outcome (sake_online d) (\<lambda>_.
       let rows = filter (\<lambda>r. in_table gameId tableId r \<and> listed recordIds (row_record r) \<and>
                    listed ownerIds (row_owner r)) (records d)
       in bind_outcome
            (case cond of
               None \<Rightarrow> Ret rows
             | Some (q, args) \<Rightarrow>
                 if holes q \<noteq> length args then Err (ErrArguments (holes q) (length args)) else matching sql q rows)
            (collect (scan_row gameId tableId))))"

text \<open>The \<open>UPDATE\<close> appends the new document to the text of the column when the owner matches, and the
  checks of the schema are applied to the result. Not every version of the SQL server accepts \<open>UPDATE ... RETURNING\<close>;
  \<open>returning\<close> says whether this one does.\<close>

definition appended :: "u32 \<Rightarrow> json \<Rightarrow> sake_row \<Rightarrow> sake_row" where
  "appended ownerId doc r = (if uint (row_owner r) = sint ownerId then r\<lparr>row_fields := row_fields r @ [doc]\<rparr> else r)"

definition same_record :: "int \<Rightarrow> string \<Rightarrow> u32 \<Rightarrow> sake_row \<Rightarrow> bool" where
  "same_record game tab i r \<longleftrightarrow> in_table game tab r \<and> uint (row_record r) = sint i"

definition UpdateSakeRecord :: "bool \<Rightarrow> SakeRecord \<Rightarrow> u32 \<Rightarrow> sake_db \<Rightarrow> (sake_error, sake_db) outcome" where
  "UpdateSakeRecord returning record ownerId d =
     bind_outcome (sake_online d) (\<lambda>_.
     if \<not> returning then Err (Db ErrParseSQL) else
     let this = same_record (sr_GameId record) (sr_TableId record) (sr_RecordId record);
         doc = json_Marshal (Some (sr_Fields record))
     in case find this (records d) of
          None \<Rightarrow> Err (Db ErrNoRows)
        | Some r \<Rightarrow>
            if \<not> fields_check (row_fields (appended ownerId doc r)) then Err ErrSakeFieldLimitExceeded
            else if ownerId \<noteq> 0 \<and> uint (row_owner r) \<noteq> sint ownerId then Err ErrSakeNotOwned
            else Ret (d\<lparr>records := map (\<lambda>r. if this r then appended ownerId doc r else r) (records d)\<rparr>))"

text \<open>
  An insertion draws the identifier (\<open>draws\<close> are the values the column's default takes) and is repeated
  up to ten times while the identifier is in use.
\<close>

definition insert_row :: "SakeRecord \<Rightarrow> json \<Rightarrow> u32 \<Rightarrow> sake_db \<Rightarrow> (db_error, sake_db) outcome" where
  "insert_row record doc i d =
     bind_outcome (online (core d)) (\<lambda>_.
     if \<not> sake_columns_ok (sr_GameId record) (sr_TableId record) (sr_OwnerId record) \<or> \<not> fields_check [doc]
     then Err ErrDataRange
     else if list_ex (\<lambda>r. in_table (sr_GameId record) (sr_TableId record) r \<and> row_record r = i) (records d)
     then Err ErrDupEntry
     else if \<not> has_profile (core d) (sr_OwnerId record) then Err ErrNoReferencedRow2
     else Ret (d\<lparr>records := records d @ [\<lparr>row_game = sr_GameId record, row_table = sr_TableId record,
            row_record = i, row_owner = sr_OwnerId record, row_fields = [doc]\<rparr>]\<rparr>))"

fun insert_tries :: "nat \<Rightarrow> (nat \<Rightarrow> u32) \<Rightarrow> SakeRecord \<Rightarrow> json \<Rightarrow> sake_db \<Rightarrow> sake_db \<times> (db_error, u32) outcome" where
  "insert_tries 0 draws record doc d = (d, Err ErrDupEntry)"
| "insert_tries (Suc n) draws record doc d =
     (case insert_row record doc (draws n) d of
        Ret d' \<Rightarrow> (d', if uint (draws n) < 2 ^ 31 then Ret (draws n) else Err ErrDataRange)
      | Err e \<Rightarrow> if e = ErrDupEntry then insert_tries n draws record doc d else (d, Err e)
      | Panic \<Rightarrow> (d, Panic))"

definition InsertSakeRecord ::
  "(nat \<Rightarrow> u32) \<Rightarrow> SakeRecord \<Rightarrow> sake_fields option \<Rightarrow> sake_db \<Rightarrow> sake_db \<times> (db_error, u32) outcome" where
  "InsertSakeRecord draws record fs d = insert_tries 10 draws record (json_Marshal fs) d"

definition IsMaxSakeRecordsReached :: "u32 \<Rightarrow> int \<Rightarrow> sake_db \<Rightarrow> (sake_error, bool) outcome" where
  "IsMaxSakeRecordsReached profileId maxRecords d =
     bind_outcome (sake_online d) (\<lambda>_.
       Ret (maxRecords \<le> int (length (filter (\<lambda>r. row_owner r = profileId) (records d)))))"

subsection \<open>The times of Mario Kart Wii\<close>

text \<open>The column types and checks of \<open>mario_kart_wii_sake\<close>\<close>

definition mkw_columns_ok :: "mkw_row \<Rightarrow> bool" where
  "mkw_columns_ok r \<longleftrightarrow> 1 \<le> m_region r \<and> m_region r \<le> 7 \<and> 0 \<le> m_course r \<and> m_course r \<le> 32767 \<and>
     0 < m_score r \<and> m_score r < 360000 \<and> 0 \<le> m_pid r \<and> m_pid r < 2 ^ 32 \<and> length (m_info r) = 108 \<and>
     (case m_ghost r of None \<Rightarrow> True | Some g \<Rightarrow> 148 \<le> length g \<and> length g \<le> 10240)"

definition same_time :: "int \<Rightarrow> int \<Rightarrow> mkw_row \<Rightarrow> bool" where
  "same_time course pid r \<longleftrightarrow> m_course r = course \<and> m_pid r = pid"

text \<open>\<open>ORDER BY score\<close> and \<open>ORDER BY score DESC\<close>; \<open>None\<close> is \<open>sql.ErrNoRows\<close>.\<close>

definition fastest :: "mkw_row list \<Rightarrow> mkw_row list" where "fastest = sort_key m_score"
definition slowest :: "mkw_row list \<Rightarrow> mkw_row list" where "slowest = sort_key (\<lambda>r. - m_score r)"

definition on_board :: "int \<Rightarrow> int \<Rightarrow> mkw_row \<Rightarrow> bool" where
  "on_board regionId courseId r \<longleftrightarrow> (regionId = 0 \<or> m_region r = regionId) \<and> m_course r = courseId"

definition first_row :: "sake_db \<Rightarrow> mkw_row list \<Rightarrow> (db_error, mkw_row) outcome" where
  "first_row d rows = bind_outcome (online (core d)) (\<lambda>_. case rows of [] \<Rightarrow> Err ErrNoRows | r # _ \<Rightarrow> Ret r)"

definition GetMarioKartWiiTopTenRankings ::
  "int \<Rightarrow> int \<Rightarrow> sake_db \<Rightarrow> (db_error, (int \<times> int \<times> string) list) outcome" where
  "GetMarioKartWiiTopTenRankings regionId courseId d =
     bind_outcome (online (core d)) (\<lambda>_.
       Ret (map (\<lambda>r. (m_score r, m_pid r, m_info r))
              (take 10 (fastest (filter (on_board regionId courseId) (times d))))))"

definition GetMarioKartWiiGhostData :: "int \<Rightarrow> int \<Rightarrow> sake_db \<Rightarrow> (db_error, int) outcome" where
  "GetMarioKartWiiGhostData courseId time d =
     bind_outcome (first_row d (slowest (filter (\<lambda>r. m_course r = courseId \<and> m_score r < time) (times d))))
       (\<lambda>r. Ret (m_id r))"

definition GetMarioKartWiiStoredGhostData :: "int \<Rightarrow> int \<Rightarrow> sake_db \<Rightarrow> (db_error, int \<times> int) outcome" where
  "GetMarioKartWiiStoredGhostData regionId courseId d =
     bind_outcome (first_row d (fastest (filter (on_board regionId courseId) (times d))))
       (\<lambda>r. Ret (m_pid r, m_id r))"

text \<open>A null ghost is scanned as a nil slice.\<close>

definition ghost_bytes :: "mkw_row \<Rightarrow> bytes" where
  "ghost_bytes r = (case m_ghost r of None \<Rightarrow> [] | Some g \<Rightarrow> g)"

definition GetMarioKartWiiFile :: "int \<Rightarrow> sake_db \<Rightarrow> (db_error, bytes) outcome" where
  "GetMarioKartWiiFile fileId d =
     bind_outcome (first_row d (filter (\<lambda>r. m_id r = fileId) (times d))) (\<lambda>r. Ret (ghost_bytes r))"

definition GetMarioKartWiiGhostFile :: "int \<Rightarrow> int \<Rightarrow> int \<Rightarrow> sake_db \<Rightarrow> (db_error, bytes) outcome" where
  "GetMarioKartWiiGhostFile courseId time pid d =
     bind_outcome (first_row d (slowest
         (filter (\<lambda>r. m_course r = courseId \<and> m_score r < time \<and> m_pid r \<noteq> pid) (times d))))
       (\<lambda>r. Ret (ghost_bytes r))"

text \<open>A time is inserted with the next identifier, or replaces the one of this course and profile.\<close>

definition InsertMarioKartWiiGhostFile ::
  "int \<Rightarrow> int \<Rightarrow> int \<Rightarrow> int \<Rightarrow> string \<Rightarrow> bytes option \<Rightarrow> sake_db \<Rightarrow> (db_error, sake_db) outcome" where
  "InsertMarioKartWiiGhostFile regionId courseId score pid playerInfo ghost d =
     bind_outcome (online (core d)) (\<lambda>_.
     let row = \<lparr>m_id = next_time d, m_region = regionId, m_course = courseId, m_score = score, m_pid = pid,
                m_info = playerInfo, m_ghost = ghost\<rparr>
     in if \<not> mkw_columns_ok row then Err ErrDataRange
        else if list_ex (same_time courseId pid) (times d)
        then Ret (d\<lparr>times := map (\<lambda>r. if same_time courseId pid r then row\<lparr>m_id := m_id r\<rparr> else r) (times d),
                    next_time := next_time d + 1\<rparr>)
        else if \<not> has_profile (core d) (word_of_int pid) then Err ErrNoReferencedRow2
        else Ret (d\<lparr>times := times d @ [row], next_time := next_time d + 1\<rparr>))"

subsection \<open>Integrity\<close>

definition sake_key :: "sake_row \<Rightarrow> int \<times> string \<times> u32" where
  "sake_key r = (row_game r, collate (row_table r), row_record r)"

definition time_key :: "mkw_row \<Rightarrow> int \<times> int" where "time_key r = (m_course r, m_pid r)"

definition records_ok :: "sake_db \<Rightarrow> bool" where
  "records_ok d \<longleftrightarrow> distinct (map sake_key (records d)) \<and>
     (\<forall>r \<in> set (records d). fields_check (row_fields r) \<and> has_profile (core d) (row_owner r))"

definition times_ok :: "sake_db \<Rightarrow> bool" where
  "times_ok d \<longleftrightarrow> distinct (map time_key (times d)) \<and> distinct (map m_id (times d)) \<and>
     (\<forall>r \<in> set (times d). mkw_columns_ok r \<and> m_id r < next_time d \<and> has_profile (core d) (word_of_int (m_pid r)))"

definition sake_ok :: "sake_db \<Rightarrow> bool" where
  "sake_ok d \<longleftrightarrow> db_ok (core d) \<and> records_ok d \<and> times_ok d"

lemma in_table_key: "in_table g t r \<and> row_record r = i \<longleftrightarrow> sake_key r = (g, collate t, i)"
  by (auto simp: in_table_def sake_key_def)

lemma insert_row_ok:
  assumes "insert_row record doc i d = Ret d'"
  shows "(records_ok d \<longrightarrow> records_ok d') \<and> core d' = core d \<and> times d' = times d \<and> next_time d' = next_time d"
proof -
  let ?r = "\<lparr>row_game = sr_GameId record, row_table = sr_TableId record, row_record = i,
              row_owner = sr_OwnerId record, row_fields = [doc]\<rparr>"
  have "\<not> list_ex (\<lambda>r. in_table (sr_GameId record) (sr_TableId record) r \<and> row_record r = i) (records d)"
    and r: "fields_check [doc]" "has_profile (core d) (sr_OwnerId record)" "d' = d\<lparr>records := records d @ [?r]\<rparr>"
    using assms by (auto simp: insert_row_def split: if_splits)
  then have "sake_key ?r \<notin> sake_key ` set (records d)"
    by (auto simp: list_ex_iff in_table_key sake_key_def)
  then show ?thesis using r by (simp add: records_ok_def)
qed

lemma insert_tries_ok:
  "insert_tries n draws record doc d = (d', res) \<Longrightarrow>
     (records_ok d \<longrightarrow> records_ok d') \<and> core d' = core d \<and> times d' = times d \<and> next_time d' = next_time d"
  by (induction n) (auto split: outcome.splits if_splits dest: insert_row_ok)

lemma update_owned_fails:
  assumes "fields_check (row_fields r)" and "uint (row_owner r) = sint ownerId"
  shows "\<not> fields_check (row_fields (appended ownerId doc r))"
  using assms by (auto simp: fields_check_def json_valid_def appended_def)

lemma UpdateSakeRecord_same:
  assumes "records_ok d" and "UpdateSakeRecord returning record ownerId d = Ret d'"
  shows "d' = d"
proof -
  let ?hit = "same_record (sr_GameId record) (sr_TableId record) (sr_RecordId record)"
  let ?doc = "json_Marshal (Some (sr_Fields record))"
  from assms(2) obtain r where r: "find ?hit (records d) = Some r"
    and c: "fields_check (row_fields (appended ownerId ?doc r))"
    and d': "d' = d\<lparr>records := map (\<lambda>r. if ?hit r then appended ownerId ?doc r else r) (records d)\<rparr>"
    by (auto simp: UpdateSakeRecord_def Let_def split: option.splits if_splits)
  from r have m: "r \<in> set (records d)" "?hit r" by (auto simp: find_Some_iff)
  have ne: "uint (row_owner r) \<noteq> sint ownerId"
    using update_owned_fails c assms(1) m(1) by (auto simp: records_ok_def)
  have "x = r" if "x \<in> set (records d)" "?hit x" for x
  proof -
    have "sake_key x = sake_key r"
      using that(2) m(2) by (auto simp: same_record_def in_table_def sake_key_def word_uint_eq_iff)
    moreover have "inj_on sake_key (set (records d))" using assms(1) by (simp add: records_ok_def distinct_map)
    ultimately show ?thesis using that(1) m(1) by (auto dest: inj_onD)
  qed
  then have "map (\<lambda>r. if ?hit r then appended ownerId ?doc r else r) (records d) = records d"
    using ne by (intro map_idI) (auto simp: appended_def)
  then show ?thesis using d' by simp
qed

lemma InsertMarioKartWiiGhostFile_ok:
  assumes "times_ok d" and "InsertMarioKartWiiGhostFile regionId courseId score pid info ghost d = Ret d'"
  shows "times_ok d' \<and> core d' = core d \<and> records d' = records d"
proof -
  let ?row = "\<lparr>m_id = next_time d, m_region = regionId, m_course = courseId, m_score = score, m_pid = pid,
                m_info = info, m_ghost = ghost\<rparr>"
  have ok: "mkw_columns_ok ?row"
    using assms(2) by (auto simp: InsertMarioKartWiiGhostFile_def Let_def split: if_splits)
  have ok': "mkw_columns_ok (?row\<lparr>m_id := i\<rparr>)" for i using ok by (simp add: mkw_columns_ok_def)
  show ?thesis
  proof (cases "list_ex (same_time courseId pid) (times d)")
    case True
    let ?f = "\<lambda>r. if same_time courseId pid r then ?row\<lparr>m_id := m_id r\<rparr> else r"
    have d': "d' = d\<lparr>times := map ?f (times d), next_time := next_time d + 1\<rparr>"
      using assms(2) True ok by (simp add: InsertMarioKartWiiGhostFile_def Let_def)
    have "map time_key (map ?f (times d)) = map time_key (times d)"
      "map m_id (map ?f (times d)) = map m_id (times d)"
      by (auto simp: time_key_def same_time_def)
    moreover have "\<exists>r \<in> set (times d). m_pid r = pid" using True by (auto simp: list_ex_iff same_time_def)
    ultimately show ?thesis
      using assms(1) ok' d' by (auto simp: times_ok_def same_time_def simp del: map_map)
  next
    case False
    then have d': "d' = d\<lparr>times := times d @ [?row], next_time := next_time d + 1\<rparr>"
      and p: "has_profile (core d) (word_of_int pid)"
      using assms(2) ok by (auto simp: InsertMarioKartWiiGhostFile_def Let_def split: if_splits)
    have "(courseId, pid) \<notin> time_key ` set (times d)"
      using False by (auto simp: list_ex_iff same_time_def time_key_def)
    then show ?thesis
      using assms(1) ok d' p by (auto simp: times_ok_def time_key_def)
  qed
qed

text \<open>C20. The tables of records and times keep their keys, references and checks: whatever the draws of the record
  identifiers are, and also when an insertion fails half way.
\<close>

theorem sake_integrity:
  assumes "sake_ok d"
  shows "(case UpdateSakeRecord returning record ownerId d of Ret d' \<Rightarrow> sake_ok d' | _ \<Rightarrow> True) \<and>
    sake_ok (fst (InsertSakeRecord draws record fs d)) \<and>
    (case InsertMarioKartWiiGhostFile regionId courseId score pid info ghost d of Ret d' \<Rightarrow> sake_ok d' | _ \<Rightarrow> True)"
proof (intro conjI)
  have r: "records_ok d" and t: "times_ok d" and c: "db_ok (core d)" using assms by (simp_all add: sake_ok_def)
  show "case UpdateSakeRecord returning record ownerId d of Ret d' \<Rightarrow> sake_ok d' | _ \<Rightarrow> True"
    using UpdateSakeRecord_same [OF r] assms by (auto split: outcome.split)
  obtain d' res where i: "InsertSakeRecord draws record fs d = (d', res)" by (cases "InsertSakeRecord draws record fs d")
  then show "sake_ok (fst (InsertSakeRecord draws record fs d))"
    using insert_tries_ok [of 10 draws "record" "json_Marshal fs" d d' res] r t c
    by (simp add: InsertSakeRecord_def sake_ok_def times_ok_def)
  show "case InsertMarioKartWiiGhostFile regionId courseId score pid info ghost d of Ret d' \<Rightarrow> sake_ok d' | _ \<Rightarrow> True"
    using InsertMarioKartWiiGhostFile_ok [OF t] r c
    by (auto split: outcome.split simp: sake_ok_def records_ok_def)
qed

definition sample_core :: db where
  "sample_core = empty_db\<lparr>
     users := [(1, \<lparr>u_unitcd = 1, u_macadr = ''0009bf000001'', u_passwd = None, u_csnum = Some ''LU1'', u_banned = False, u_name = None\<rparr>)],
     profiles := [(1, \<lparr>p_wfcid = 1, p_gsbrcd = ''RMCE1'', p_firstname = None, p_lastname = []\<rparr>),
                  (2, \<lparr>p_wfcid = 1, p_gsbrcd = ''RMCE2'', p_firstname = None, p_lastname = []\<rparr>)],
     next_profile := 3\<rparr>"

definition sample_sake :: sake_db where
  "sample_sake = \<lparr>core = sample_core, records = [], times = [], next_time = 1\<rparr>"

lemma sample_core_ok: "db_ok sample_core" "up sample_core" "has_profile sample_core 1" "has_profile sample_core 2"
  by (simp_all add: sample_core_def empty_db_def db_ok_def users_ok_def profiles_ok_def friends_ok_def persist_ok_def
      rankings_ok_def account_key_def mac_key_def has_profile_def collate_def to_upper_def serial_keys_def
      List.map_filter_simps)

lemma sample_sake_ok: "sake_ok sample_sake" "core sample_sake = sample_core"
  by (simp_all add: sample_sake_def sake_ok_def sample_core_ok records_ok_def times_ok_def)

theorem sake_integrity_witness:
  "sake_ok (fst (InsertSakeRecord (\<lambda>_. 7) \<lparr>sr_GameId = 1687, sr_OwnerId = 1, sr_TableId = ''FriendInfo'',
     sr_RecordId = 0, sr_Fields = []\<rparr> (Some []) sample_sake))"
  using sake_integrity [OF sample_sake_ok(1)] by blast

lemma UpdateSakeRecord_owned:
  assumes "records_ok d" and "up (core d)"
    and "find (same_record (sr_GameId record) (sr_TableId record) (sr_RecordId record)) (records d) = Some r"
    and "uint (row_owner r) = sint ownerId"
  shows "UpdateSakeRecord True record ownerId d = Err ErrSakeFieldLimitExceeded"
proof -
  have "fields_check (row_fields r)" using assms(1,3) by (auto simp: records_ok_def find_Some_iff)
  from update_owned_fails [OF this assms(4)] show ?thesis
    using assms(2,3) by (simp add: UpdateSakeRecord_def sake_online_def online_def)
qed

end
