(* ===== verification/SakeMkw.thy ===== *)
theory SakeMkw
  imports SakeDb RKG NasForms GameList
begin

text \<open>
  \<open>sake/mario_kart_wii.go\<close> and \<open>sake/file.go\<close>: the searches for ghosts, their download and upload, and
  the filter of the friend info. A search has checked its request in full before it asks the database. What
  \<open>net/http\<close> makes of a multipart body under a content type is an argument: no form at all, a form without
  the file, or the contents of the file.
\<close>

subsection \<open>Requests\<close>

text \<open>The struct that the XML of every storage request is read into; a value is the name of a field, the
  tag of its type and its text.\<close>

record StorageRequestCommon =
  rq_GameID :: int
  rq_LoginTicket :: string
  rq_SecretKey :: string
  rq_TableID :: string
  rq_RecordID :: u32
  rq_Fields :: "string list"
  rq_Filter :: string
  rq_Sort :: string
  rq_Offset :: int
  rq_Max :: int
  rq_Surrounding :: int
  rq_OwnerIDs :: "u32 list"
  rq_CacheFlag :: bool
  rq_Values :: "(string \<times> string \<times> string) list"

datatype file_reply = NoReply | FileResult int | FileBody bytes

definition SakeFileResultSuccess :: int where "SakeFileResultSuccess = 0"
definition SakeFileResultMissingParameter :: int where "SakeFileResultMissingParameter = 3"
definition SakeFileResultFileNotFound :: int where "SakeFileResultFileNotFound = 4"
definition SakeFileResultFileTooLarge :: int where "SakeFileResultFileTooLarge = 5"
definition SakeFileResultServerError :: int where "SakeFileResultServerError = 6"

definition Worldwide :: int where "Worldwide = 0"
definition MarioCircuit :: int where "MarioCircuit = 0"

subsection \<open>Searches for ghosts\<close>

text \<open>The two regular expressions: the run of digits at the front is the number, since no digit follows it
  in either.\<close>

definition is_digit :: "char \<Rightarrow> bool" where "is_digit c \<longleftrightarrow> digit_val c \<noteq> None"

definition course_digits :: "string \<Rightarrow> bool" where
  "course_digits ds \<longleftrightarrow> ds = ''0'' \<or> ds \<noteq> [] \<and> hd ds \<noteq> CHR ''0'' \<and> length ds \<le> 2"

definition time_digits :: "string \<Rightarrow> bool" where
  "time_digits ds \<longleftrightarrow> ds \<noteq> [] \<and> hd ds \<noteq> CHR ''0'' \<and> length ds \<le> 6"

definition match_course :: "string \<Rightarrow> (string \<times> string) option" where
  "match_course s =
     (let p = ''course = ''; r = drop (length p) s; ds = takeWhile is_digit r; r' = dropWhile is_digit r;
          q = '' and gameid = 1687''
      in if has_prefix s p \<and> course_digits ds \<and> has_prefix r' q then Some (ds, drop (length q) r') else None)"

definition ghostDataFilterRegex :: "string \<Rightarrow> (string \<times> string) option" where
  "ghostDataFilterRegex s =
     (case match_course s of
        None \<Rightarrow> None
      | Some (course, r) \<Rightarrow>
          let p = '' and time < ''; ds = drop (length p) r
          in if has_prefix r p \<and> list_all is_digit ds \<and> time_digits ds then Some (course, ds) else None)"

definition storedGhostDataFilterRegex :: "string \<Rightarrow> (string \<times> string) option" where
  "storedGhostDataFilterRegex s =
     (case match_course s of
        None \<Rightarrow> None
      | Some (course, r) \<Rightarrow>
          let p = '' and region = ''; ds = drop (length p) r
          in if r = [] then Some (course, [])
             else if has_prefix r p \<and> length ds = 1 \<and> hd ds \<in> set ''1234567'' then Some (course, ds)
             else None)"

definition number_of :: "string \<Rightarrow> int" where
  "number_of s = (case atoi s of None \<Rightarrow> 0 | Some i \<Rightarrow> i)"

definition int32_text :: "int \<Rightarrow> string" where
  "int32_text i = format_int (sint (word_of_int i :: u32))"

definition int_field :: "int \<Rightarrow> SakeField" where
  "int_field i = \<lparr>sf_Type = SakeFieldTypeInt, sf_Value = int32_text i\<rparr>"

text \<open>What both searches refuse before they read the filter\<close>

definition plain_search :: "string \<Rightarrow> StorageRequestCommon \<Rightarrow> bool" where
  "plain_search srt request \<longleftrightarrow> rq_Sort request = srt \<and> rq_Offset request = 0 \<and> rq_Max request = 1 \<and>
     rq_Surrounding request = 0 \<and> rq_OwnerIDs request = [] \<and> \<not> rq_CacheFlag request"

definition getMarioKartWiiGhostDataRecord :: "sake_db \<Rightarrow> StorageRequestCommon \<Rightarrow> SakeRecord list \<times> bool" where
  "getMarioKartWiiGhostDataRecord db request =
     (if \<not> plain_search ''time desc'' request then ([], False)
      else case ghostDataFilterRegex (rq_Filter request) of
        None \<Rightarrow> ([], False)
      | Some (course, t) \<Rightarrow>
          if \<not> course_IsValid (number_of course) then ([], False)
          else if 360000 \<le> number_of t then ([], False)
          else case GetMarioKartWiiGhostData (number_of course) (number_of t) db of
            Ret fileId \<Rightarrow>
              ([\<lparr>sr_GameId = 1687, sr_OwnerId = 0, sr_TableId = ''GhostData'', sr_RecordId = 0,
                 sr_Fields = [(''fileid'', int_field fileId)]\<rparr>], True)
          | _ \<Rightarrow> ([], False))"

definition getMarioKartWiiStoredGhostDataRecord ::
  "sake_db \<Rightarrow> StorageRequestCommon \<Rightarrow> SakeRecord list \<times> bool" where
  "getMarioKartWiiStoredGhostDataRecord db request =
     (if \<not> plain_search ''time'' request then ([], False)
      else case storedGhostDataFilterRegex (rq_Filter request) of
        None \<Rightarrow> ([], False)
      | Some (course, region) \<Rightarrow>
          if \<not> course_IsValid (number_of course) then ([], False)
          else case GetMarioKartWiiStoredGhostData
                      (if region \<noteq> [] then number_of region else Worldwide) (number_of course) db of
            Ret (pid, fileId) \<Rightarrow>
              ([\<lparr>sr_GameId = 1687, sr_OwnerId = word_of_int pid, sr_TableId = ''StoredGhostData'', sr_RecordId = 0,
                 sr_Fields = [(''profile'', int_field pid), (''fileid'', int_field fileId)]\<rparr>], True)
          | _ \<Rightarrow> ([], False))"

subsection \<open>Downloads\<close>

definition positive :: "string \<Rightarrow> int option" where
  "positive s = (case atoi s of Some i \<Rightarrow> if i \<le> 0 then None else Some i | None \<Rightarrow> None)"

definition handleMarioKartWiiFileDownloadRequest :: "sake_db \<Rightarrow> form \<Rightarrow> file_reply" where
  "handleMarioKartWiiFileDownloadRequest db query =
     (case positive (form_get query ''fileid'') of
        None \<Rightarrow> FileResult SakeFileResultMissingParameter
      | Some fileId \<Rightarrow>
          if positive (form_get query ''pid'') = None then FileResult SakeFileResultMissingParameter
          else case GetMarioKartWiiFile fileId db of
            Ret file \<Rightarrow> FileBody file
          | _ \<Rightarrow> FileResult SakeFileResultServerError)"

definition downloadedGhostFileHeader :: bytes where
  "downloadedGhostFileHeader = copy_at 0x40 (be32 0x200) (replicate 0x200 0)"

definition handleMarioKartWiiGhostDownloadRequest :: "sake_db \<Rightarrow> form \<Rightarrow> (unit, file_reply) outcome" where
  "handleMarioKartWiiGhostDownloadRequest db query =
     (if atoi (form_get query ''region'') \<noteq> Some Worldwide then Ret (FileResult SakeFileResultMissingParameter)
      else case atoi (form_get query ''c0'') of
        None \<Rightarrow> Ret (FileResult SakeFileResultMissingParameter)
      | Some courseId \<Rightarrow>
     if \<not> course_IsValid courseId then Ret (FileResult SakeFileResultMissingParameter)
     else case positive (form_get query ''p0'') of
        None \<Rightarrow> Ret (FileResult SakeFileResultMissingParameter)
      | Some pid \<Rightarrow>
     case positive (form_get query ''t0'') of
        None \<Rightarrow> Ret (FileResult SakeFileResultMissingParameter)
      | Some time \<Rightarrow>
     if 360000 \<le> time then Ret (FileResult SakeFileResultMissingParameter)
     else case GetMarioKartWiiGhostFile courseId time pid db of
        Ret ghost \<Rightarrow> bind_outcome (sanitise_ghost ghost) (\<lambda>g. Ret (FileBody (downloadedGhostFileHeader @ g)))
      | _ \<Rightarrow> Ret (FileResult SakeFileResultServerError))"

subsection \<open>Uploads\<close>

definition playerInfoSize :: nat where "playerInfoSize = 0x50"

text \<open>\<open>ClearMiiInfo\<close> returns the cleared Mii; its result is dropped, so the bytes written are those read.\<close>

definition isPlayerInfoValid :: "string \<Rightarrow> string option" where
  "isPlayerInfoValid playerInfoString =
     (case b64_decode URLEncoding playerInfoString of
        None \<Rightarrow> None
      | Some b \<Rightarrow>
          if length b \<noteq> playerInfoSize then None
          else if CalculateMiiCRC \<lparr>Data = take 0x4C b\<rparr> \<noteq> 0 then None
          else if \<not> controller_IsValid (uint (b ! 0x4C)) then None
          else Some (b64_encode StdEncoding b))"

definition GameSpyMultipartBoundary :: string where
  "GameSpyMultipartBoundary = ''Qr4G823s23d---<<><><<<>--7d118e0536''"

definition getMultipartBoundary :: "string \<Rightarrow> string" where
  "getMultipartBoundary contentType =
     (case index_of contentType ''boundary='' of
        None \<Rightarrow> []
      | Some i \<Rightarrow> drop (i + length ''boundary='') contentType)"

text \<open>\<open>strings.Replace(contentType, boundary, quoted, 1)\<close>\<close>

definition replace_first :: "string \<Rightarrow> string \<Rightarrow> string \<Rightarrow> string" where
  "replace_first s old new = (case cut s old of (before, after, found) \<Rightarrow> if found then before @ new @ after else s)"

definition conforming_type :: "string \<Rightarrow> string" where
  "conforming_type contentType =
     (let boundary = getMultipartBoundary contentType
      in if boundary = GameSpyMultipartBoundary
         then replace_first contentType boundary (CHR 0x22 # boundary @ [CHR 0x22]) else contentType)"

text \<open>The part of the upload that has the file\<close>

definition store_upload ::
  "sake_db \<Rightarrow> bool \<Rightarrow> int \<Rightarrow> int \<Rightarrow> int \<Rightarrow> int \<Rightarrow> string \<Rightarrow> bytes \<Rightarrow> (unit, sake_db \<times> file_reply) outcome" where
  "store_upload db isContest regionId courseId score pid playerInfo ghostFile =
     (if length ghostFile < RKGDFileMinSize \<or> RKGDFileMaxSize < length ghostFile
      then Ret (db, FileResult SakeFileResultFileTooLarge)
      else bind_outcome (IsRKGDFileValid ghostFile courseId score) (\<lambda>valid.
        if \<not> valid then Ret (db, FileResult SakeFileResultFileTooLarge)
        else bind_outcome (sanitise_ghost ghostFile) (\<lambda>ghostData.
          case InsertMarioKartWiiGhostFile regionId courseId score pid playerInfo
                 (if isContest then None else Some ghostData) db of
            Ret db' \<Rightarrow> Ret (db', FileResult SakeFileResultSuccess)
          | _ \<Rightarrow> Ret (db, FileResult SakeFileResultServerError))))"

definition handleMarioKartWiiGhostUploadRequest ::
  "(string \<Rightarrow> bytes option option) \<Rightarrow> sake_db \<Rightarrow> form \<Rightarrow> string \<Rightarrow> (unit, sake_db \<times> file_reply) outcome" where
  "handleMarioKartWiiGhostUploadRequest multipart db query contentType =
     (let missing = Ret (db, FileResult SakeFileResultMissingParameter);
          isContest = (query ''contest'' \<noteq> None) in
      case atoi (form_get query ''regionid'') of None \<Rightarrow> missing | Some regionId \<Rightarrow>
      if \<not> region_IsValid regionId \<or> regionId = Worldwide then missing
      else case atoi (form_get query ''courseid'') of None \<Rightarrow> missing | Some courseId \<Rightarrow>
      if courseId < MarioCircuit \<or> isContest = course_IsValid courseId \<or> courseId > 32767 then missing
      else case positive (form_get query ''score'') of None \<Rightarrow> missing | Some score \<Rightarrow>
      if 360000 \<le> score then missing
      else case positive (form_get query ''pid'') of None \<Rightarrow> missing | Some pid \<Rightarrow>
      case isPlayerInfoValid (form_get query ''playerinfo'') of None \<Rightarrow> missing | Some playerInfo \<Rightarrow>
      case multipart (conforming_type contentType) of
        None \<Rightarrow> Ret (db, FileResult SakeFileResultFileNotFound)
      | Some None \<Rightarrow> Ret (db, FileResult SakeFileResultFileNotFound)
      | Some (Some ghostFile) \<Rightarrow>
          store_upload db isContest regionId courseId score pid playerInfo ghostFile)"

text \<open>Only the path of the ghost upload is handled, and only for the game.\<close>

definition handleMarioKartWiiFileUploadRequest ::
  "(string \<Rightarrow> bytes option option) \<Rightarrow> sake_db \<Rightarrow> string \<Rightarrow> form \<Rightarrow> string \<Rightarrow> (unit, sake_db \<times> file_reply) outcome" where
  "handleMarioKartWiiFileUploadRequest multipart db url_path query contentType =
     (if has_suffix url_path ''ghostupload.aspx''
      then handleMarioKartWiiGhostUploadRequest multipart db query contentType else Ret (db, NoReply))"

definition handleFileDownloadRequest :: "game_list \<Rightarrow> sake_db \<Rightarrow> form \<Rightarrow> file_reply" where
  "handleFileDownloadRequest gl db query =
     (case atoi (form_get query ''gameid'') of
        None \<Rightarrow> NoReply
      | Some gameId \<Rightarrow>
          if GetGameIDOrPanic gl ''mariokartwii'' = Ret gameId
          then handleMarioKartWiiFileDownloadRequest db query else NoReply)"

definition handleFileUploadRequest ::
  "game_list \<Rightarrow> (string \<Rightarrow> bytes option option) \<Rightarrow> sake_db \<Rightarrow> string \<Rightarrow> form \<Rightarrow> string
     \<Rightarrow> (unit, sake_db \<times> file_reply) outcome" where
  "handleFileUploadRequest gl multipart db url_path query contentType =
     (case atoi (form_get query ''gameid'') of
        None \<Rightarrow> Ret (db, NoReply)
      | Some gameId \<Rightarrow>
          if GetGameIDOrPanic gl ''mariokartwii'' = Ret gameId
          then handleMarioKartWiiFileUploadRequest multipart db url_path query contentType else Ret (db, NoReply))"

subsection \<open>Friend info\<close>

type_synonym Result = string

definition ResultSuccess :: Result where "ResultSuccess = ''Success''"

text \<open>\<open>ShouldNotError\<close> panics.\<close>

definition filterMarioKartWiiFriendInfo :: "string \<Rightarrow> bool \<Rightarrow> (unit, string \<times> Result) outcome" where
  "filterMarioKartWiiFriendInfo val isOwner =
     (if isOwner then Ret (val, ResultSuccess)
      else case b64_decode StdEncoding val of
        None \<Rightarrow> Panic
      | Some binaryData \<Rightarrow>
          if length binaryData < 0x4C then Ret (val, ResultSuccess)
          else bind_outcome (RawMiiFromBytes binaryData) (\<lambda>mii.
            if CalculateMiiCRC mii \<noteq> 0 then Ret (val, ResultSuccess)
            else let d = Data (ClearMiiInfo mii)
                 in Ret (b64_encode StdEncoding (d @ drop (length d) binaryData), ResultSuccess)))"

subsection \<open>The stored times\<close>

text \<open>
  A time is served safely when its player info decodes to a full block with a valid Mii and, on a course of
  the game, its ghost is a valid file for this course and score whose Mii holds nothing private.
\<close>

definition ghost_ok :: "int \<Rightarrow> int \<Rightarrow> bytes \<Rightarrow> bool" where
  "ghost_ok course score g \<longleftrightarrow>
     IsRKGDFileValid g course score = Ret True \<and> (\<exists>m. mii_ok m \<and> GetMiiData g = Ret (ClearMiiInfo m))"

definition info_ok :: "string \<Rightarrow> bool" where
  "info_ok s \<longleftrightarrow> (\<exists>b. b64_decode StdEncoding s = Some b \<and> length b = playerInfoSize \<and>
     CalculateMiiCRC \<lparr>Data = take 0x4C b\<rparr> = 0)"

definition time_ok :: "mkw_row \<Rightarrow> bool" where
  "time_ok r \<longleftrightarrow> info_ok (m_info r) \<and> course_IsValid (m_course r) \<and>
     (\<exists>g. m_ghost r = Some g \<and> ghost_ok (m_course r) (m_score r) g)"

lemma isPlayerInfoValid_ok: "isPlayerInfoValid s = Some t \<Longrightarrow> info_ok t"
  by (auto simp: isPlayerInfoValid_def info_ok_def b64_std.decode_encode split: option.splits if_splits)

lemma valid_length: "IsRKGDFileValid g c s = Ret True \<Longrightarrow> 160 \<le> length g"
  by (auto simp: IsRKGDFileValid_def RKGDFileMinSize_def require_def split: if_splits)

lemma GetMiiData_total: "160 \<le> length g \<Longrightarrow> \<exists>m. mii_ok m \<and> GetMiiData g = Ret m"
  by (auto simp: GetMiiData_Ret mii_ok_def length_subslice)

lemma sanitise_ghost_ok:
  assumes "IsRKGDFileValid g course score = Ret True"
  shows "\<exists>g'. sanitise_ghost g = Ret g' \<and> ghost_ok course score g'"
  using sanitise_ghost_valid [OF assms] GetMiiData_total [OF valid_length [OF assms]] by (auto simp: ghost_ok_def)

lemma valid_course: "IsRKGDFileValid g c s = Ret True \<Longrightarrow> c \<noteq> - 1 \<Longrightarrow> course_IsValid c"
  by (auto simp: IsRKGDFileValid_def check_header_def require_def split: if_splits option.splits)

text \<open>What an upload that is stored has checked\<close>

definition upload_kept :: "sake_db \<Rightarrow> bool \<Rightarrow> string \<Rightarrow> sake_db \<Rightarrow> bool" where
  "upload_kept db contest info_text db' \<longleftrightarrow> (\<exists>regionId courseId score pid info g g'.
     isPlayerInfoValid info_text = Some info \<and> 0 \<le> courseId \<and> contest \<noteq> course_IsValid courseId \<and>
     IsRKGDFileValid g courseId score = Ret True \<and> sanitise_ghost g = Ret g' \<and>
     InsertMarioKartWiiGhostFile regionId courseId score pid info (if contest then None else Some g') db = Ret db')"

definition unsuccessful :: "file_reply \<Rightarrow> bool" where
  "unsuccessful r \<longleftrightarrow> r \<noteq> FileResult SakeFileResultSuccess"

lemma unsuccessful_codes [simp]:
  "unsuccessful (FileResult SakeFileResultMissingParameter)" "unsuccessful (FileResult SakeFileResultFileNotFound)"
  "unsuccessful (FileResult SakeFileResultFileTooLarge)" "unsuccessful (FileResult SakeFileResultServerError)"
  "unsuccessful NoReply" "\<not> unsuccessful (FileResult SakeFileResultSuccess)"
  by (simp_all add: unsuccessful_def SakeFileResultSuccess_def SakeFileResultMissingParameter_def
      SakeFileResultFileNotFound_def SakeFileResultFileTooLarge_def SakeFileResultServerError_def)

lemma store_upload_cases:
  assumes "store_upload db contest regionId courseId score pid info g = Ret (db', reply)"
    and "isPlayerInfoValid info_text = Some info" "0 \<le> courseId" "contest \<noteq> course_IsValid courseId"
  shows "db' = db \<and> unsuccessful reply \<or> upload_kept db contest info_text db'"
proof (cases "\<not> (length g < RKGDFileMinSize \<or> RKGDFileMaxSize < length g) \<and> IsRKGDFileValid g courseId score = Ret True")
  case True
  then obtain g' where g': "sanitise_ghost g = Ret g'" using sanitise_ghost_ok by blast
  let ?insert = "InsertMarioKartWiiGhostFile regionId courseId score pid info (if contest then None else Some g') db"
  show ?thesis
  proof (cases ?insert)
    case (Ret d)
    then have "upload_kept db contest info_text d"
      unfolding upload_kept_def using True g' assms(2-4) by blast
    then show ?thesis using assms(1) True g' Ret by (simp add: store_upload_def)
  qed (use assms(1) True g' in \<open>auto simp: store_upload_def\<close>)
next
  case False
  then show ?thesis
    using assms(1) by (cases "IsRKGDFileValid g courseId score") (auto simp: store_upload_def split: if_split_asm)
qed

lemma upload_cases:
  assumes "handleMarioKartWiiGhostUploadRequest multipart db query contentType = Ret (db', reply)"
  shows "db' = db \<and> unsuccessful reply \<or>
    upload_kept db (query ''contest'' \<noteq> None) (form_get query ''playerinfo'') db'"
  using assms unfolding handleMarioKartWiiGhostUploadRequest_def Let_def MarioCircuit_def
  by (auto split: option.split_asm if_split_asm dest!: store_upload_cases)

text \<open>An upload for a competition is never stored: its course must not be one of the game, and the validation of
  the file accepts only these.
\<close>

theorem contest_uploads_fail:
  assumes "query ''contest'' \<noteq> None"
    and "handleMarioKartWiiGhostUploadRequest multipart db query contentType = Ret (db', reply)"
  shows "db' = db \<and> reply \<noteq> FileResult SakeFileResultSuccess"
proof -
  have "\<not> upload_kept db (query ''contest'' \<noteq> None) t d" for t d
    using assms(1) valid_course by (fastforce simp: upload_kept_def)
  then show ?thesis using upload_cases [OF assms(2)] by (auto simp: unsuccessful_def)
qed

definition times_served :: "sake_db \<Rightarrow> bool" where
  "times_served d \<longleftrightarrow> (\<forall>r \<in> set (times d). time_ok r)"

lemma upload_kept_served:
  assumes "upload_kept db contest t db'" and "times_served db"
  shows "times_served db' \<and> core db' = core db \<and> records db' = records db"
proof -
  from assms(1) obtain regionId courseId score pid info g g'
    where i: "isPlayerInfoValid t = Some info" "0 \<le> courseId" "contest \<noteq> course_IsValid courseId"
      and g: "IsRKGDFileValid g courseId score = Ret True" "sanitise_ghost g = Ret g'"
      and ins: "InsertMarioKartWiiGhostFile regionId courseId score pid info (if contest then None else Some g') db = Ret db'"
    unfolding upload_kept_def by blast
  have c: "\<not> contest" "course_IsValid courseId" using valid_course [OF g(1)] i(2,3) by auto
  have ok: "ghost_ok courseId score g'" using sanitise_ghost_ok [OF g(1)] g(2) by auto
  have new: "time_ok \<lparr>m_id = n, m_region = regionId, m_course = courseId, m_score = score, m_pid = pid,
               m_info = info, m_ghost = Some g'\<rparr>" for n
    using isPlayerInfoValid_ok [OF i(1)] c ok by (simp add: time_ok_def)
  show ?thesis
    using ins assms(2) c new
    by (auto simp: InsertMarioKartWiiGhostFile_def times_served_def Let_def split: if_split_asm)
qed

lemma first_row_Ret: "first_row d rows = Ret r \<Longrightarrow> r \<in> set rows"
  by (auto simp: first_row_def split: list.splits)

lemma set_slowest [simp]: "set (slowest rs) = set rs"
  by (simp add: slowest_def)

lemma set_fastest [simp]: "set (fastest rs) = set rs"
  by (simp add: fastest_def)

lemma stored_ghost:
  assumes "times_served d" and "GetMarioKartWiiGhostFile courseId time pid d = Ret g"
  shows "\<exists>r \<in> set (times d). m_course r = courseId \<and> m_score r < time \<and> m_pid r \<noteq> pid \<and> m_ghost r = Some g \<and>
    ghost_ok courseId (m_score r) g"
  using assms
  by (force simp: GetMarioKartWiiGhostFile_def times_served_def time_ok_def ghost_bytes_def dest!: first_row_Ret)

lemma sanitise_cleared:
  assumes "ghost_ok course score g"
  shows "\<exists>g'. sanitise_ghost g = Ret g' \<and> ghost_ok course score g' \<and> GetMiiData g' = GetMiiData g"
proof -
  obtain m where v: "IsRKGDFileValid g course score = Ret True" and m: "mii_ok m" "GetMiiData g = Ret (ClearMiiInfo m)"
    using assms by (auto simp: ghost_ok_def)
  from sanitise_ghost_valid [OF v] obtain g' where g': "sanitise_ghost g = Ret g'"
    "IsRKGDFileValid g' course score = Ret True" "GetMiiData g' = Ret (ClearMiiInfo (ClearMiiInfo m))"
    using m(2) by auto
  then show ?thesis using m ClearMiiInfo_idem [OF m(1)] by (auto simp: ghost_ok_def)
qed

lemma ghost_download_served:
  assumes "times_served d"
  shows "handleMarioKartWiiGhostDownloadRequest d query \<noteq> Panic" (is ?total)
    and "handleMarioKartWiiGhostDownloadRequest d query = Ret (FileBody b) \<Longrightarrow>
      \<exists>r \<in> set (times d). \<exists>g. b = downloadedGhostFileHeader @ g \<and> ghost_ok (m_course r) (m_score r) g \<and>
        Some (m_course r) = atoi (form_get query ''c0'') \<and>
        (\<exists>t. Some t = atoi (form_get query ''t0'') \<and> m_score r < t) \<and>
        Some (m_pid r) \<noteq> atoi (form_get query ''p0'')" (is "_ \<Longrightarrow> ?served")
proof -
  have s: "\<exists>g'. sanitise_ghost g = Ret g' \<and> ghost_ok courseId (m_score r) g'"
    if "ghost_ok courseId (m_score r) g" for courseId r g
    using sanitise_cleared [OF that] by blast
  show ?total
  proof -
    have "sanitise_ghost g \<noteq> Panic" if "GetMarioKartWiiGhostFile courseId time pid d = Ret g" for courseId time pid g
      using stored_ghost [OF assms that] s by fastforce
    then show ?thesis
      by (auto simp: handleMarioKartWiiGhostDownloadRequest_def bind_outcome_Panic_iff
          split: option.split outcome.split)
  qed
  assume "handleMarioKartWiiGhostDownloadRequest d query = Ret (FileBody b)"
  then obtain courseId time pid g g' where
    "atoi (form_get query ''c0'') = Some courseId" "positive (form_get query ''t0'') = Some time"
    "positive (form_get query ''p0'') = Some pid" "GetMarioKartWiiGhostFile courseId time pid d = Ret g"
    "sanitise_ghost g = Ret g'" "b = downloadedGhostFileHeader @ g'"
    by (auto simp: handleMarioKartWiiGhostDownloadRequest_def split: option.split_asm outcome.split_asm if_split_asm)
  moreover from this stored_ghost [OF assms this(4)] s obtain r where "r \<in> set (times d)" "m_course r = courseId"
    "m_score r < time" "m_pid r \<noteq> pid" "ghost_ok courseId (m_score r) g'" by fastforce
  ultimately show ?served by (auto simp: positive_def split: option.splits if_splits)
qed

end
