(* ===== verification/GoParse.thy ===== *)
theory GoParse
  imports GoNumbers
begin

text \<open>
  The texts that \<open>strconv.ParseFloat(s, 32)\<close> and \<open>time.Parse\<close> with the layout
  \<open>2006-01-02T15:04:05.000\<close> accept. The code asks for no more than whether they do.
\<close>

subsection \<open>Floating-point numbers\<close>

definition hex_val :: "char \<Rightarrow> nat option" where
  "hex_val c =
     (case digit_val c of Some d \<Rightarrow> Some d
      | None \<Rightarrow>
          let n = of_char c in
          if 97 \<le> n \<and> n \<le> (102 :: nat) then Some (n - 87) else if 65 \<le> n \<and> n \<le> 70 then Some (n - 55) else None)"

text \<open>\<open>readFloat\<close> up to the exponent: the number the digits give, how many of them follow the point, whether
  there is a digit, and the rest of the text.\<close>

fun read_digits :: "bool \<Rightarrow> bool \<Rightarrow> int \<Rightarrow> nat \<Rightarrow> bool \<Rightarrow> string \<Rightarrow> int \<times> nat \<times> bool \<times> string" where
  "read_digits hex dot m frac saw [] = (m, frac, saw, [])"
| "read_digits hex dot m frac saw (c # r) =
     (if c = CHR ''_'' then read_digits hex dot m frac saw r
      else if c = CHR ''.'' then (if dot then (m, frac, saw, c # r) else read_digits hex True m frac saw r)
      else case (if hex then hex_val c else digit_val c) of
        Some d \<Rightarrow> read_digits hex dot ((if hex then 16 else 10) * m + int d) (if dot then frac + 1 else frac) True r
      | None \<Rightarrow> (m, frac, saw, c # r))"

fun read_exponent :: "nat \<Rightarrow> string \<Rightarrow> nat \<times> string" where
  "read_exponent e [] = (e, [])"
| "read_exponent e (c # r) =
     (if c = CHR ''_'' then read_exponent e r
      else case digit_val c of
        Some d \<Rightarrow> read_exponent (if e < 10000 then 10 * e + d else e) r
      | None \<Rightarrow> (e, c # r))"

definition is_sign :: "char \<Rightarrow> bool" where "is_sign c \<longleftrightarrow> c = CHR ''+'' \<or> c = CHR ''-''"

definition strip_sign :: "string \<Rightarrow> bool \<times> string" where
  "strip_sign s = (case s of c # r \<Rightarrow> if is_sign c then (c = CHR ''-'', r) else (False, s) | [] \<Rightarrow> (False, []))"

text \<open>\<open>underscoreOK\<close>: an underscore stands between two digits, the base prefix counting as a digit.\<close>

datatype seen = SeenStart | SeenDigit | SeenUnderscore | SeenOther

fun underscores_ok :: "bool \<Rightarrow> seen \<Rightarrow> string \<Rightarrow> bool" where
  "underscores_ok hex saw [] \<longleftrightarrow> saw \<noteq> SeenUnderscore"
| "underscores_ok hex saw (c # r) \<longleftrightarrow>
     (if digit_val c \<noteq> None \<or> hex \<and> hex_val c \<noteq> None then underscores_ok hex SeenDigit r
      else if c = CHR ''_'' then saw = SeenDigit \<and> underscores_ok hex SeenUnderscore r
      else saw \<noteq> SeenUnderscore \<and> underscores_ok hex SeenOther r)"

definition hex_prefix :: "string \<Rightarrow> bool" where
  "hex_prefix s \<longleftrightarrow> has_prefix (to_lower (take 2 s)) ''0x''"

definition underscoreOK :: "string \<Rightarrow> bool" where
  "underscoreOK s =
     (let r = snd (strip_sign s) in
      if 2 \<le> length r \<and> to_lower (take 2 r) \<in> {''0b'', ''0o'', ''0x''}
      then underscores_ok (hex_prefix r) SeenDigit (drop 2 r) else underscores_ok False SeenStart r)"

text \<open>The first number that rounds to infinity as a \<open>float32\<close>\<close>

definition float32_limit :: int where "float32_limit = 2 ^ 128 - 2 ^ 103"

definition overflows :: "int \<Rightarrow> int \<Rightarrow> int \<Rightarrow> bool" where
  "overflows base m e \<longleftrightarrow> m \<noteq> 0 \<and>
     (if 0 \<le> e then float32_limit \<le> m * base ^ nat e else float32_limit * base ^ nat (- e) \<le> m)"

definition exponent_part :: "char \<Rightarrow> string \<Rightarrow> (int \<times> string) option" where
  "exponent_part e s =
     (case s of
        c # r \<Rightarrow>
          if to_lower [c] = [e] then
            (let (neg, r') = strip_sign r in
             if r' = [] \<or> digit_val (hd r') = None then None
             else let (x, r'') = read_exponent 0 r' in Some (if neg then - int x else int x, r''))
          else Some (0, s)
      | [] \<Rightarrow> Some (0, []))"

definition read_float :: "string \<Rightarrow> bool" where
  "read_float s =
     (let r = snd (strip_sign s); hex = hex_prefix r \<and> 2 < length r;
          (m, frac, saw, rest) = read_digits hex False 0 0 False (if hex then drop 2 r else r)
      in saw \<and> (hex \<longrightarrow> rest \<noteq> []) \<and>
         (case exponent_part (if hex then CHR ''p'' else CHR ''e'') rest of
            None \<Rightarrow> False
          | Some (e, end) \<Rightarrow>
              end = [] \<and> (CHR ''_'' \<in> set s \<longrightarrow> underscoreOK s) \<and>
              \<not> (if hex then overflows 2 m (e - 4 * int frac) else overflows 10 m (e - int frac))))"

definition ParseFloat32_ok :: "string \<Rightarrow> bool" where
  "ParseFloat32_ok s \<longleftrightarrow>
     to_lower (snd (strip_sign s)) \<in> {''inf'', ''infinity''} \<or> to_lower s = ''nan'' \<or> read_float s"

subsection \<open>Dates\<close>

definition leap_year :: "nat \<Rightarrow> bool" where
  "leap_year y \<longleftrightarrow> y mod 4 = 0 \<and> (y mod 100 \<noteq> 0 \<or> y mod 400 = 0)"

definition days_in :: "nat \<Rightarrow> nat \<Rightarrow> nat" where
  "days_in month year =
     (if month = 2 then (if leap_year year then 29 else 28) else if month \<in> {4, 6, 9, 11} then 30 else 31)"

text \<open>\<open>getnum\<close>: two digits, or one where the layout does not fix the width\<close>

definition getnum :: "bool \<Rightarrow> string \<Rightarrow> (nat \<times> string) option" where
  "getnum fixed s =
     (case s of
        c # r \<Rightarrow>
          (case digit_val c of None \<Rightarrow> None
           | Some a \<Rightarrow>
               (case r of
                  c' # r' \<Rightarrow>
                    (case digit_val c' of Some b \<Rightarrow> Some (10 * a + b, r') | None \<Rightarrow> if fixed then None else Some (a, r))
                | [] \<Rightarrow> if fixed then None else Some (a, r)))
      | [] \<Rightarrow> None)"

definition literal :: "char \<Rightarrow> string \<Rightarrow> string option" where
  "literal c s = (case s of d # r \<Rightarrow> if d = c then Some r else None | [] \<Rightarrow> None)"

text \<open>The fraction: a point or a comma and three characters that \<open>atoi\<close> reads as a number of at least 0\<close>

definition fraction_ok :: "string \<Rightarrow> bool" where
  "fraction_ok s \<longleftrightarrow> length s = 4 \<and> hd s \<in> set ''.,'' \<and>
     (case strip_sign (tl s) of (neg, ds) \<Rightarrow>
        (case parse_dec 0 ds of None \<Rightarrow> False | Some n \<Rightarrow> \<not> neg \<or> n = 0))"

definition DateAndTime_ok :: "string \<Rightarrow> bool" where
  "DateAndTime_ok s =
     (if length s < 4 then False
      else case parse_dec 0 (take 4 s) of None \<Rightarrow> False | Some year \<Rightarrow>
      case Option.bind (literal CHR ''-'' (drop 4 s)) (getnum True) of None \<Rightarrow> False | Some (month, s1) \<Rightarrow>
      case Option.bind (literal CHR ''-'' s1) (getnum True) of None \<Rightarrow> False | Some (day, s2) \<Rightarrow>
      case Option.bind (literal CHR ''T'' s2) (getnum False) of None \<Rightarrow> False | Some (hour, s3) \<Rightarrow>
      case Option.bind (literal CHR '':'' s3) (getnum True) of None \<Rightarrow> False | Some (mins, s4) \<Rightarrow>
      case Option.bind (literal CHR '':'' s4) (getnum True) of None \<Rightarrow> False | Some (sec, s5) \<Rightarrow>
        1 \<le> month \<and> month \<le> 12 \<and> hour < 24 \<and> mins < 60 \<and> sec < 60 \<and> 1 \<le> day \<and> day \<le> days_in month year \<and>
        fraction_ok s5)"

end
