(* ===== verification/SakeTables.thy ===== *)
theory SakeTables
  imports SakeMkw GoParse
begin

text \<open>
  \<open>sake/tables.go\<close>: the tables the server knows, with the rules for their fields, and what it does with a
  field of any other. A method of the code may be called on a nil table: its table is an \<open>option\<close> here.
  A nil map of fields is \<open>None\<close>. \<open>now\<close> is the printed time of \<open>{CURRENT_TIMESTAMP}\<close>.
\<close>

definition MaxSakeRecordsPerProfile :: int where "MaxSakeRecordsPerProfile = 96"
definition MaxSakeFieldsPerRecord :: nat where "MaxSakeFieldsPerRecord = 64"
definition MaxSakeFieldValueLength :: int where "MaxSakeFieldValueLength = 4096"

definition ResultFieldNotFound :: Result where "ResultFieldNotFound = ''FieldNotFound''"
definition ResultFieldTypeInvalid :: Result where "ResultFieldTypeInvalid = ''FieldTypeInvalid''"

datatype Rateable = RateableUnknown | RateableYes | RateableNo
datatype OwnerType = OwnerTypeProfile | OwnerTypeBackend
datatype Permission = PermissionDefault | PermissionAllowed | PermissionDenied

type_synonym value_filter = "string \<Rightarrow> bool \<Rightarrow> (unit, string \<times> Result) outcome"

record SakeFieldDefinition =
  fd_Type :: SakeFieldType
  fd_Default :: string
  fd_LengthLimit :: int
  fd_IsValidFunc :: "(string \<Rightarrow> bool) option"
  fd_FilterFromClientFunc :: "value_filter option"
  fd_FilterFromDatabaseFunc :: "value_filter option"

record SakeTable =
  st_Rateable :: Rateable
  st_OwnerType :: OwnerType
  st_PublicPermCreate :: Permission
  st_PublicPermRead :: Permission
  st_OwnerPermUpdate :: Permission
  st_OwnerPermDelete :: Permission
  st_LimitPerOwner :: int
  st_Hardened :: bool
  st_Reserved :: bool
  st_SearchForRecordsHandler :: "(sake_db \<Rightarrow> StorageRequestCommon \<Rightarrow> SakeRecord list \<times> bool) option"
  st_Fields :: "(string \<times> SakeFieldDefinition) list"

definition plain_definition :: "SakeFieldType \<Rightarrow> SakeFieldDefinition" where
  "plain_definition t = \<lparr>fd_Type = t, fd_Default = [], fd_LengthLimit = 0, fd_IsValidFunc = None,
     fd_FilterFromClientFunc = None, fd_FilterFromDatabaseFunc = None\<rparr>"

definition open_table :: SakeTable where
  "open_table = \<lparr>st_Rateable = RateableUnknown, st_OwnerType = OwnerTypeProfile,
     st_PublicPermCreate = PermissionAllowed, st_PublicPermRead = PermissionAllowed,
     st_OwnerPermUpdate = PermissionAllowed, st_OwnerPermDelete = PermissionAllowed, st_LimitPerOwner = 0,
     st_Hardened = False, st_Reserved = False, st_SearchForRecordsHandler = None, st_Fields = []\<rparr>"

definition ghost_fields :: "(string \<times> SakeFieldDefinition) list" where
  "ghost_fields = map (\<lambda>nm. (nm, plain_definition SakeFieldTypeInt))
     [''fileid'', ''profile'', ''course'', ''region'', ''time'']"

definition friend_info_table :: SakeTable where
  "friend_info_table = open_table\<lparr>st_Rateable := RateableNo, st_LimitPerOwner := 1,
     st_Fields := [(''info'', (plain_definition SakeFieldTypeBinaryData)
       \<lparr>fd_FilterFromDatabaseFunc := Some filterMarioKartWiiFriendInfo\<rparr>)]\<rparr>"

definition ghost_table :: "(sake_db \<Rightarrow> StorageRequestCommon \<Rightarrow> SakeRecord list \<times> bool) \<Rightarrow> SakeTable" where
  "ghost_table handler = open_table\<lparr>st_Rateable := RateableNo, st_Hardened := True, st_Reserved := True,
     st_SearchForRecordsHandler := Some handler, st_Fields := ghost_fields\<rparr>"

definition TableDefinitions :: "(string \<times> SakeTable) list" where
  "TableDefinitions =
     [(''micchannelwii/userinfo'', open_table\<lparr>st_Rateable := RateableYes, st_Fields :=
         [(''wiiid'', plain_definition SakeFieldTypeInt64),
          (''username'', plain_definition SakeFieldTypeBinaryData),
          (''friendkey'', plain_definition SakeFieldTypeInt64)]\<rparr>),
      (''mariokartwii/FriendInfo'', friend_info_table),
      (''mariokartwii/GhostData'', ghost_table getMarioKartWiiGhostDataRecord),
      (''mariokartwii/StoredGhostData'', ghost_table getMarioKartWiiStoredGhostDataRecord),
      (''guinnesswrds/RecordTable'', open_table\<lparr>st_Fields :=
         [(''Score'', plain_definition SakeFieldTypeInt),
          (''GameID'', plain_definition SakeFieldTypeByte),
          (''Region'', plain_definition SakeFieldTypeByte),
          (''Country'', plain_definition SakeFieldTypeByte),
          (''OwnerName'', plain_definition SakeFieldTypeUnicodeString),
          (''AvatarName'', plain_definition SakeFieldTypeUnicodeString),
          (''AvatarModel'', plain_definition SakeFieldTypeByte),
          (''AvatarParts'', plain_definition SakeFieldTypeBinaryData),
          (''DateTimeSet'', (plain_definition SakeFieldTypeDateAndTime)\<lparr>fd_Default := ''{CURRENT_TIMESTAMP}''\<rparr>)]\<rparr>)]"

definition GetTable :: "string \<Rightarrow> string \<Rightarrow> SakeTable option" where
  "GetTable gameName tableId = map_of TableDefinitions (gameName @ ''/'' @ tableId)"

subsection \<open>Permissions\<close>

definition allowed :: "Permission \<Rightarrow> bool" where
  "allowed p \<longleftrightarrow> p = PermissionAllowed \<or> p = PermissionDefault"

definition AllowsPublicCreate :: "SakeTable option \<Rightarrow> bool" where
  "AllowsPublicCreate t =
     (case t of None \<Rightarrow> True
      | Some t \<Rightarrow>
          if st_PublicPermCreate t = PermissionDefault then st_OwnerType t = OwnerTypeProfile
          else st_PublicPermCreate t = PermissionAllowed)"

definition AllowsPublicRead :: "SakeTable option \<Rightarrow> bool" where
  "AllowsPublicRead t = (case t of None \<Rightarrow> True | Some t \<Rightarrow> allowed (st_PublicPermRead t))"

definition AllowsOwnerUpdate :: "SakeTable option \<Rightarrow> bool" where
  "AllowsOwnerUpdate t = (case t of None \<Rightarrow> True | Some t \<Rightarrow> allowed (st_OwnerPermUpdate t))"

definition AllowsOwnerDelete :: "SakeTable option \<Rightarrow> bool" where
  "AllowsOwnerDelete t = (case t of None \<Rightarrow> True | Some t \<Rightarrow> allowed (st_OwnerPermDelete t))"

subsection \<open>Fields\<close>

definition default_value :: "string \<Rightarrow> SakeFieldDefinition \<Rightarrow> SakeField" where
  "default_value now f =
     \<lparr>sf_Type = fd_Type f,
      sf_Value = (if fd_Default f = ''{CURRENT_TIMESTAMP}'' \<and> fd_Type f = SakeFieldTypeDateAndTime then now
                  else if fd_Default f = ''{EMPTY}'' then [] else fd_Default f)\<rparr>"

definition GetDefaultFields :: "string \<Rightarrow> SakeTable option \<Rightarrow> sake_fields option" where
  "GetDefaultFields now t =
     (case t of None \<Rightarrow> None
      | Some t \<Rightarrow>
          let fs = map (\<lambda>(nm, f). (nm, default_value now f)) (filter (\<lambda>(_, f). fd_Default f \<noteq> []) (st_Fields t))
          in Some (if st_Rateable t = RateableYes
                   then AList.update ''num_ratings'' \<lparr>sf_Type = SakeFieldTypeInt, sf_Value = ''0''\<rparr>
                          (AList.update ''average_rating'' \<lparr>sf_Type = SakeFieldTypeFloat, sf_Value = ''0''\<rparr> fs)
                   else fs))"

text \<open>A number must be printed as the code would print it again.\<close>

definition canonical_int :: "nat \<Rightarrow> string \<Rightarrow> bool" where
  "canonical_int bits s \<longleftrightarrow> (case parse_int bits s of None \<Rightarrow> False | Some i \<Rightarrow> format_int i = s)"

definition canonical_uint :: "nat \<Rightarrow> string \<Rightarrow> bool" where
  "canonical_uint bits s \<longleftrightarrow> (case parse_uint bits s of None \<Rightarrow> False | Some n \<Rightarrow> format_uint n = s)"

definition sized :: "nat \<Rightarrow> string \<Rightarrow> bool" where
  "sized n s \<longleftrightarrow> s \<noteq> [] \<and> length s \<le> n"

fun type_check :: "int \<Rightarrow> SakeFieldType \<Rightarrow> string \<Rightarrow> bool" where
  "type_check limit SakeFieldTypeByte v \<longleftrightarrow> sized 3 v \<and> canonical_uint 8 v"
| "type_check limit SakeFieldTypeShort v \<longleftrightarrow> sized 6 v \<and> canonical_int 16 v"
| "type_check limit SakeFieldTypeInt v \<longleftrightarrow> sized 11 v \<and> canonical_int 32 v"
| "type_check limit SakeFieldTypeInt64 v \<longleftrightarrow> sized 20 v \<and> canonical_int 64 v"
| "type_check limit SakeFieldTypeFloat v \<longleftrightarrow> sized 24 v \<and> ParseFloat32_ok v"
| "type_check limit SakeFieldTypeBoolean v \<longleftrightarrow> v \<in> {''true'', ''false'', ''1'', ''0''}"
| "type_check limit SakeFieldTypeDateAndTime v \<longleftrightarrow> sized 24 v \<and> DateAndTime_ok v"
| "type_check limit SakeFieldTypeBinaryData v \<longleftrightarrow> v = [] \<or>
     (case b64_decode_strict StdEncoding v of None \<Rightarrow> False | Some b \<Rightarrow> int (length b) \<le> limit)"
| "type_check limit SakeFieldTypeAsciiString v \<longleftrightarrow> True"
| "type_check limit SakeFieldTypeUnicodeString v \<longleftrightarrow> True"

definition rating_fields :: "string list" where
  "rating_fields = [''average_rating'', ''my_rating'', ''num_ratings'', ''sum_ratings'']"

text \<open>The definition of a field in a table with definitions; an unknown field of a table that is not
  hardened has the zero definition, with its type unchecked.\<close>

definition CheckValidField :: "SakeTable option \<Rightarrow> string \<Rightarrow> SakeField \<Rightarrow> Result" where
  "CheckValidField t fieldName field =
     (let fieldDef = (case t of None \<Rightarrow> None | Some t \<Rightarrow> map_of (st_Fields t) fieldName);
          hardened = (case t of None \<Rightarrow> False | Some t \<Rightarrow> st_Fields t \<noteq> [] \<and> st_Hardened t);
          limit = (case fieldDef of None \<Rightarrow> MaxSakeFieldValueLength
                   | Some f \<Rightarrow> if 0 < fd_LengthLimit f then fd_LengthLimit f else MaxSakeFieldValueLength);
          verifyFunc = (case fieldDef of None \<Rightarrow> None | Some f \<Rightarrow> fd_IsValidFunc f)
      in if Option.is_none fieldDef \<and> hardened then ResultFieldNotFound
         else if (case fieldDef of None \<Rightarrow> False | Some f \<Rightarrow> fd_Type f \<noteq> sf_Type field) then ResultFieldTypeInvalid
         else if limit < int (length (sf_Value field)) then ResultFieldTypeInvalid
         else if fieldName \<in> set rating_fields then ResultFieldNotFound
         else if sf_Type field = SakeFieldTypeBinaryData \<and> sf_Value field = [] then ResultSuccess
         else if \<not> type_check limit (sf_Type field) (sf_Value field) then ResultFieldTypeInvalid
         else if (case verifyFunc of None \<Rightarrow> False | Some f \<Rightarrow> \<not> f (sf_Value field)) then ResultFieldTypeInvalid
         else ResultSuccess)"

definition FilterFieldFromClient :: "SakeTable option \<Rightarrow> string \<Rightarrow> string \<Rightarrow> (unit, string \<times> Result) outcome" where
  "FilterFieldFromClient t fieldName val =
     (case t of None \<Rightarrow> Ret (val, ResultSuccess)
      | Some t \<Rightarrow>
          (case map_of (st_Fields t) fieldName of None \<Rightarrow> Ret (val, ResultSuccess)
           | Some f \<Rightarrow>
               (case fd_FilterFromClientFunc f of None \<Rightarrow> Ret (val, ResultSuccess) | Some fn \<Rightarrow> fn val True)))"

definition FilterFieldFromDatabase ::
  "SakeTable option \<Rightarrow> string \<Rightarrow> string \<Rightarrow> bool \<Rightarrow> (unit, string \<times> Result) outcome" where
  "FilterFieldFromDatabase t fieldName val isOwner =
     (case t of None \<Rightarrow> Ret (val, ResultSuccess)
      | Some t \<Rightarrow>
          (case map_of (st_Fields t) fieldName of None \<Rightarrow> Ret (val, ResultSuccess)
           | Some f \<Rightarrow>
               (case fd_FilterFromDatabaseFunc f of None \<Rightarrow> Ret (val, ResultSuccess)
                | Some fn \<Rightarrow> fn val (st_OwnerType t = OwnerTypeProfile \<and> isOwner))))"

subsection \<open>What a valid field holds\<close>

definition value_typed :: "SakeFieldType \<Rightarrow> string \<Rightarrow> bool" where
  "value_typed t v \<longleftrightarrow>
     (case t of
        SakeFieldTypeByte \<Rightarrow> (\<exists>n < 256. v = format_uint n)
      | SakeFieldTypeShort \<Rightarrow> (\<exists>i. - (2 ^ 15) \<le> i \<and> i < 2 ^ 15 \<and> v = format_int i)
      | SakeFieldTypeInt \<Rightarrow> (\<exists>i. - (2 ^ 31) \<le> i \<and> i < 2 ^ 31 \<and> v = format_int i)
      | SakeFieldTypeInt64 \<Rightarrow> (\<exists>i. - (2 ^ 63) \<le> i \<and> i < 2 ^ 63 \<and> v = format_int i)
      | SakeFieldTypeFloat \<Rightarrow> ParseFloat32_ok v
      | SakeFieldTypeBoolean \<Rightarrow> v \<in> {''true'', ''false'', ''1'', ''0''}
      | SakeFieldTypeDateAndTime \<Rightarrow> DateAndTime_ok v
      | SakeFieldTypeBinaryData \<Rightarrow> b64_decode StdEncoding v \<noteq> None
      | _ \<Rightarrow> True)"

lemma quanta_strict: "b64_decode_quanta True e s = Some b \<Longrightarrow> b64_decode_quanta False e s = Some b"
  by (induction True e s arbitrary: b rule: b64_decode_quanta.induct) (auto split: option.splits if_splits)

lemma decode_strict: "b64_decode_strict e s = Some b \<Longrightarrow> b64_decode e s = Some b"
  by (simp add: b64_decode_strict_def b64_decode_def quanta_strict)

lemma canonical_int_typed:
  "canonical_int (Suc n) v \<Longrightarrow> \<exists>i. - (2 ^ n) \<le> i \<and> i < 2 ^ n \<and> v = format_int i"
  using parse_int_bounds [of "Suc n" v] by (auto simp: canonical_int_def split: option.splits)

lemma canonical_uint_typed: "canonical_uint 8 v \<Longrightarrow> \<exists>n < 256. v = format_uint n"
  using parse_uint_bound [of 8 v] by (auto simp: canonical_uint_def split: option.splits)

lemma type_check_typed: "type_check limit t v \<Longrightarrow> value_typed t v"
  using canonical_int_typed [of 15 v] canonical_int_typed [of 31 v] canonical_int_typed [of 63 v]
  by (cases t) (auto simp: value_typed_def b64_decode_def dest: canonical_uint_typed
      decode_strict [unfolded b64_decode_def] split: option.splits)

lemma result_codes_tables [simp]:
  "ResultFieldTypeInvalid \<noteq> ResultSuccess" "ResultFieldNotFound \<noteq> ResultSuccess"
  by (simp_all add: ResultSuccess_def ResultFieldTypeInvalid_def ResultFieldNotFound_def)

lemma CheckValidField_typed:
  assumes "CheckValidField t nm field = ResultSuccess"
  shows "value_typed (sf_Type field) (sf_Value field)"
proof (cases "sf_Type field = SakeFieldTypeBinaryData \<and> sf_Value field = []")
  case True
  then show ?thesis by (simp add: value_typed_def b64_decode_def)
next
  case False
  then have "\<exists>limit. type_check limit (sf_Type field) (sf_Value field)"
    using assms by (auto simp: CheckValidField_def Let_def split: if_split_asm)
  then show ?thesis using type_check_typed by blast
qed

end
