(* ===== verification/SakeStorage.thy ===== *)
theory SakeStorage
  imports SakeTables AuthToken
begin

text \<open>
  \<open>sake/storage.go\<close>: the storage service. A request is the struct its XML was read into, with the name of its
  operation, and the response the struct that is printed. The draws of record identifiers, the printed
  time, and what the SQL server makes of a filter are arguments, as in \<open>SakeDb\<close> and \<open>SakeTables\<close>.
\<close>

definition SakeNamespace :: string where "SakeNamespace = ''http://gamespy.net/sake''"

definition ResultDatabaseUnavailable :: Result where "ResultDatabaseUnavailable = ''DatabaseUnavailable''"
definition ResultLoginTicketInvalid :: Result where "ResultLoginTicketInvalid = ''LoginTicketInvalid''"
definition ResultSecretKeyInvalid :: Result where "ResultSecretKeyInvalid = ''SecretKeyInvalid''"
definition ResultTableNotFound :: Result where "ResultTableNotFound = ''TableNotFound''"
definition ResultRecordNotFound :: Result where "ResultRecordNotFound = ''RecordNotFound''"
definition ResultNoPermission :: Result where "ResultNoPermission = ''NoPermission''"
definition ResultRecordLimitReached :: Result where "ResultRecordLimitReached = ''RecordLimitReached''"
definition ResultNotOwned :: Result where "ResultNotOwned = ''NotOwned''"
definition ResultUnknownError :: Result where "ResultUnknownError = ''UnknownError''"
definition BadNumFields :: Result where "BadNumFields = ''BadNumFields''"

lemmas result_codes = ResultSuccess_def ResultDatabaseUnavailable_def ResultLoginTicketInvalid_def
  ResultSecretKeyInvalid_def ResultTableNotFound_def ResultRecordNotFound_def ResultNoPermission_def
  ResultRecordLimitReached_def ResultNotOwned_def ResultUnknownError_def BadNumFields_def
  ResultFieldNotFound_def ResultFieldTypeInvalid_def

text \<open>A value of a response: the tag of its type, and its text. A record is the list of its values.\<close>

type_synonym response_values = "(string \<times> string) list list"

datatype StorageResponseBody =
    EmptyBody
  | CreateRecordResponse Result u32
  | UpdateRecordResponse Result
  | GetMyRecordsResponse Result response_values
  | SearchForRecordsResponse Result response_values

record storage_env =
  env_unicode :: unicode
  env_where :: sql_where
  env_draws :: "nat \<Rightarrow> u32"
  env_now_text :: string
  env_returning :: bool \<comment> \<open>the SQL server accepts \<open>UPDATE ... RETURNING\<close>\<close>

subsection \<open>Types and their tags\<close>

definition sakeTypeToTag :: "SakeFieldType \<Rightarrow> string" where
  "sakeTypeToTag t =
     (case t of
        SakeFieldTypeByte \<Rightarrow> ''byteValue''
      | SakeFieldTypeShort \<Rightarrow> ''shortValue''
      | SakeFieldTypeInt \<Rightarrow> ''intValue''
      | SakeFieldTypeFloat \<Rightarrow> ''floatValue''
      | SakeFieldTypeAsciiString \<Rightarrow> ''asciiStringValue''
      | SakeFieldTypeUnicodeString \<Rightarrow> ''unicodeStringValue''
      | SakeFieldTypeBoolean \<Rightarrow> ''booleanValue''
      | SakeFieldTypeDateAndTime \<Rightarrow> ''dateAndTimeValue''
      | SakeFieldTypeBinaryData \<Rightarrow> ''binaryDataValue''
      | SakeFieldTypeInt64 \<Rightarrow> ''int64Value'')"

definition sake_types :: "SakeFieldType list" where
  "sake_types = [SakeFieldTypeByte, SakeFieldTypeShort, SakeFieldTypeInt, SakeFieldTypeFloat,
     SakeFieldTypeAsciiString, SakeFieldTypeUnicodeString, SakeFieldTypeBoolean, SakeFieldTypeDateAndTime,
     SakeFieldTypeBinaryData, SakeFieldTypeInt64]"

text \<open>\<open>ReverseMap\<close>\<close>

definition tagToSakeType :: "string \<Rightarrow> SakeFieldType option" where
  "tagToSakeType tag = find (\<lambda>t. sakeTypeToTag t = tag) sake_types"

definition fillValue :: "SakeFieldType \<Rightarrow> string \<Rightarrow> string \<times> string" where
  "fillValue valueType val = (sakeTypeToTag valueType, val)"

subsection \<open>Fields of a request\<close>

definition reserved_names :: "string list" where
  "reserved_names = [''ownerid'', ''recordid'', ''gameid'', ''tableid'']"

text \<open>Assigning to a nil map panics.\<close>

fun input_fields ::
  "SakeTable option \<Rightarrow> (string \<times> string \<times> string) list \<Rightarrow> sake_fields option
     \<Rightarrow> (Result, sake_fields option) outcome" where
  "input_fields t [] fs = Ret fs"
| "input_fields t ((nm, tag, val) # r) fs =
     (case tagToSakeType tag of
        None \<Rightarrow> Err ResultFieldTypeInvalid
      | Some ty \<Rightarrow>
          if nm \<in> set reserved_names then Err ResultNoPermission
          else
            let sakeField = \<lparr>sf_Type = ty, sf_Value = val\<rparr>; res = CheckValidField t nm sakeField in
            if res \<noteq> ResultSuccess then Err res
            else case FilterFieldFromClient t nm val of
              Ret (val', res') \<Rightarrow>
                if res' \<noteq> ResultSuccess then Err res'
                else (case fs of None \<Rightarrow> Panic
                      | Some m \<Rightarrow> input_fields t r (Some (AList.update nm (sakeField\<lparr>sf_Value := val'\<rparr>) m)))
            | _ \<Rightarrow> Panic)"

definition getInputFields ::
  "storage_env \<Rightarrow> StorageRequestCommon \<Rightarrow> SakeTable option \<Rightarrow> bool \<Rightarrow> (Result, sake_fields option) outcome" where
  "getInputFields env request t useDefault =
     (if MaxSakeFieldsPerRecord < length (rq_Values request) then Err ResultFieldTypeInvalid
      else input_fields t (rq_Values request)
             (if useDefault then GetDefaultFields (env_now_text env) t else Some []))"

subsection \<open>Values of a response\<close>

text \<open>One record: \<open>None\<close> for one that lacks a field of the request, and then is left out.\<close>

fun record_values ::
  "u32 \<Rightarrow> SakeTable option \<Rightarrow> SakeRecord \<Rightarrow> string list \<Rightarrow> (string \<times> string) list
     \<Rightarrow> (Result, (string \<times> string) list) outcome" where
  "record_values profileId t rec [] vs = Ret vs"
| "record_values profileId t rec (f # fs) vs =
     (if f = ''ownerid'' then record_values profileId t rec fs (vs @ [(''intValue'', format_int (sint (sr_OwnerId rec)))])
      else if f = ''recordid''
      then record_values profileId t rec fs (vs @ [(''intValue'', format_int (sint (sr_RecordId rec)))])
      else case map_of (sr_Fields rec) f of
        None \<Rightarrow> Ret []
      | Some fv \<Rightarrow>
          (case FilterFieldFromDatabase t f (sf_Value fv) (sr_OwnerId rec = profileId) of
             Ret (val, res) \<Rightarrow>
               if res \<noteq> ResultSuccess then Err res
               else record_values profileId t rec fs (vs @ [fillValue (sf_Type fv) val])
           | _ \<Rightarrow> Panic))"

fun fill_records ::
  "u32 \<Rightarrow> SakeTable option \<Rightarrow> string list \<Rightarrow> SakeRecord list \<Rightarrow> response_values \<Rightarrow> (Result, response_values) outcome" where
  "fill_records profileId t fs [] acc = Ret acc"
| "fill_records profileId t fs (rec # recs) acc =
     bind_outcome (record_values profileId t rec fs []) (\<lambda>vs.
       fill_records profileId t fs recs (if vs = [] then acc else acc @ [vs]))"

definition fillResponseValues ::
  "u32 \<Rightarrow> SakeTable option \<Rightarrow> SakeRecord list \<Rightarrow> StorageRequestCommon \<Rightarrow> (unit, response_values \<times> Result) outcome" where
  "fillResponseValues profileId t recs request =
     (case fill_records profileId t (rq_Fields request) recs [] of
        Ret vs \<Rightarrow> Ret (vs, ResultSuccess)
      | Err res \<Rightarrow> Ret ([], res)
      | Panic \<Rightarrow> Panic)"

subsection \<open>Sorting the records of a search\<close>

text \<open>The comparison: a record without the field comes first. Other types than \<open>int\<close> panic.\<close>

definition less_by :: "string \<Rightarrow> SakeRecord \<Rightarrow> SakeRecord \<Rightarrow> (unit, bool) outcome" where
  "less_by srt l r =
     (case (map_of (sr_Fields l) srt, map_of (sr_Fields r) srt) of
        (Some lVal, Some rVal) \<Rightarrow>
          if sf_Type lVal \<noteq> SakeFieldTypeInt \<or> sf_Type rVal \<noteq> SakeFieldTypeInt then Panic
          else (case (parse_int 64 (sf_Value lVal), parse_int 64 (sf_Value rVal)) of
                  (Some a, Some b) \<Rightarrow> Ret (a < b)
                | _ \<Rightarrow> Panic)
      | (_, rVal) \<Rightarrow> Ret (rVal \<noteq> None))"

text \<open>
  \<open>sort.Slice\<close> sorts up to twelve elements by insertion. The sorted elements are kept here with the
  last one first: a new one moves down while it is less than its neighbour. Beyond twelve elements the
  order of records that compare as equal may differ.
\<close>

fun insert_down :: "('a \<Rightarrow> 'a \<Rightarrow> (unit, bool) outcome) \<Rightarrow> 'a \<Rightarrow> 'a list \<Rightarrow> (unit, 'a list) outcome" where
  "insert_down lt x [] = Ret [x]"
| "insert_down lt x (y # ys) =
     bind_outcome (lt x y) (\<lambda>b.
       if b then bind_outcome (insert_down lt x ys) (\<lambda>zs. Ret (y # zs)) else Ret (x # y # ys))"

fun insertion_sort :: "('a \<Rightarrow> 'a \<Rightarrow> (unit, bool) outcome) \<Rightarrow> 'a list \<Rightarrow> 'a list \<Rightarrow> (unit, 'a list) outcome" where
  "insertion_sort lt [] done_rev = Ret (rev done_rev)"
| "insertion_sort lt (x # xs) done_rev =
     bind_outcome (insert_down lt x done_rev) (\<lambda>d. insertion_sort lt xs d)"

definition sort_Slice :: "string \<Rightarrow> SakeRecord list \<Rightarrow> (unit, SakeRecord list) outcome" where
  "sort_Slice srt recs = insertion_sort (less_by srt) recs []"

subsection \<open>Operations\<close>

definition reserved_table :: "SakeTable option \<Rightarrow> bool" where
  "reserved_table t = (case t of None \<Rightarrow> False | Some t \<Rightarrow> st_Reserved t)"

definition createRecord ::
  "storage_env \<Rightarrow> sake_db \<Rightarrow> u32 \<Rightarrow> game_info \<Rightarrow> StorageRequestCommon
     \<Rightarrow> (unit, sake_db \<times> StorageResponseBody) outcome" where
  "createRecord env db profileId gameInfo request =
     (let answer = (\<lambda>res. Ret (db, CreateRecordResponse res 0));
          t = GetTable (Name gameInfo) (rq_TableID request)
      in case IsMaxSakeRecordsReached profileId MaxSakeRecordsPerProfile db of
           Ret False \<Rightarrow>
             if rq_TableID request = [] then answer ResultTableNotFound
             else if reserved_table t then answer ResultNoPermission
             else if \<not> AllowsPublicCreate t then answer ResultNoPermission
             else (case getInputFields env request t True of
                 Err res \<Rightarrow> answer res
               | Panic \<Rightarrow> Panic
               | Ret fs \<Rightarrow>
                   let rec = \<lparr>sr_GameId = ID gameInfo, sr_OwnerId = profileId, sr_TableId = rq_TableID request,
                              sr_RecordId = 0, sr_Fields = (case fs of None \<Rightarrow> [] | Some m \<Rightarrow> m)\<rparr>
                   in case InsertSakeRecord (env_draws env) rec fs db of
                        (db', Ret recordId) \<Rightarrow> Ret (db', CreateRecordResponse ResultSuccess recordId)
                      | (db', _) \<Rightarrow> Ret (db', CreateRecordResponse ResultDatabaseUnavailable 0))
         | Ret True \<Rightarrow> answer ResultRecordLimitReached
         | _ \<Rightarrow> answer ResultDatabaseUnavailable)"

definition getMyRecords ::
  "storage_env \<Rightarrow> sake_db \<Rightarrow> u32 \<Rightarrow> game_info \<Rightarrow> StorageRequestCommon
     \<Rightarrow> (unit, sake_db \<times> StorageResponseBody) outcome" where
  "getMyRecords env db profileId gameInfo request =
     (let answer = (\<lambda>res. Ret (db, GetMyRecordsResponse res []));
          t = GetTable (Name gameInfo) (rq_TableID request)
      in if rq_Fields request = [] then answer BadNumFields
         else if rq_TableID request = [] then answer ResultTableNotFound
         else if reserved_table t then answer ResultTableNotFound
         else case GetSakeRecords (env_unicode env) (env_where env) (ID gameInfo) [profileId] (rq_TableID request) []
                     (rq_Filter request) db of
             Err e \<Rightarrow> answer (if e = Db ErrNoRows then ResultRecordNotFound else ResultDatabaseUnavailable)
           | Panic \<Rightarrow> Panic
           | Ret recs \<Rightarrow>
               bind_outcome (fillResponseValues profileId t recs request) (\<lambda>(vs, res).
                 Ret (db, GetMyRecordsResponse res vs)))"

definition updateRecord ::
  "storage_env \<Rightarrow> sake_db \<Rightarrow> u32 \<Rightarrow> game_info \<Rightarrow> StorageRequestCommon
     \<Rightarrow> (unit, sake_db \<times> StorageResponseBody) outcome" where
  "updateRecord env db profileId gameInfo request =
     (let answer = (\<lambda>res. Ret (db, UpdateRecordResponse res));
          t = GetTable (Name gameInfo) (rq_TableID request)
      in if rq_TableID request = [] then answer ResultTableNotFound
         else if reserved_table t then answer ResultNoPermission
         else if \<not> AllowsOwnerUpdate t then answer ResultNoPermission
         else (case getInputFields env request t False of
             Err res \<Rightarrow> answer res
           | Panic \<Rightarrow> Panic
           | Ret fs \<Rightarrow>
               let rec = \<lparr>sr_GameId = ID gameInfo, sr_OwnerId = profileId, sr_TableId = rq_TableID request,
                          sr_RecordId = rq_RecordID request, sr_Fields = (case fs of None \<Rightarrow> [] | Some m \<Rightarrow> m)\<rparr>
               in case UpdateSakeRecord (env_returning env) rec profileId db of
                    Ret db' \<Rightarrow> Ret (db', UpdateRecordResponse ResultSuccess)
                  | Err e \<Rightarrow> answer (if e = ErrSakeNotOwned then ResultNotOwned
                                     else if e = Db ErrNoRows then ResultRecordNotFound else ResultDatabaseUnavailable)
                  | Panic \<Rightarrow> Panic))"

text \<open>The first \<open>max\<close> records, when a maximum is asked for\<close>

definition enforce_max :: "int \<Rightarrow> 'a list \<Rightarrow> 'a list" where
  "enforce_max mx recs = (if 0 < mx \<and> mx < int (length recs) then take (nat mx) recs else recs)"

definition found_records ::
  "storage_env \<Rightarrow> sake_db \<Rightarrow> u32 \<Rightarrow> game_info \<Rightarrow> SakeTable option \<Rightarrow> StorageRequestCommon
     \<Rightarrow> (Result, SakeRecord list) outcome" where
  "found_records env db profileId gameInfo t request =
     (case Option.bind t st_SearchForRecordsHandler of
        Some handler \<Rightarrow>
          (case handler db request of (recs, ok) \<Rightarrow> if ok then Ret recs else Err ResultUnknownError)
      | None \<Rightarrow>
          if reserved_table t then Err ResultTableNotFound
          else case GetSakeRecords (env_unicode env) (env_where env) (ID gameInfo)
                      (if AllowsPublicRead t then rq_OwnerIDs request else [profileId]) (rq_TableID request) []
                      (rq_Filter request) db of
              Ret recs \<Rightarrow> Ret recs
            | Err _ \<Rightarrow> Err ResultDatabaseUnavailable
            | Panic \<Rightarrow> Panic)"

definition searchForRecords ::
  "storage_env \<Rightarrow> sake_db \<Rightarrow> u32 \<Rightarrow> game_info \<Rightarrow> StorageRequestCommon
     \<Rightarrow> (unit, sake_db \<times> StorageResponseBody) outcome" where
  "searchForRecords env db profileId gameInfo request =
     (let answer = (\<lambda>res. Ret (db, SearchForRecordsResponse res []));
          t = GetTable (Name gameInfo) (rq_TableID request)
      in if rq_TableID request = [] then answer ResultTableNotFound
         else case found_records env db profileId gameInfo t request of
             Err res \<Rightarrow> answer res
           | Panic \<Rightarrow> Panic
           | Ret recs \<Rightarrow>
               bind_outcome (sort_Slice (rq_Sort request) recs) (\<lambda>sorted_recs.
               bind_outcome (fillResponseValues profileId t (enforce_max (rq_Max request) sorted_recs) request)
                 (\<lambda>(vs, res). Ret (db, SearchForRecordsResponse res vs))))"

subsection \<open>Requests\<close>

definition getRequestIdentity ::
  "game_list \<Rightarrow> token_env \<Rightarrow> int \<Rightarrow> StorageRequestCommon \<Rightarrow> (Result, u32 \<times> game_info) outcome" where
  "getRequestIdentity gl tokens now request =
     (case GetGameInfoByID gl (rq_GameID request) of
        None \<Rightarrow> Err ResultDatabaseUnavailable
      | Some gameInfo \<Rightarrow>
          if SecretKey gameInfo \<noteq> rq_SecretKey request then Err ResultSecretKeyInvalid
          else case unmarshal_ticket tokens now (rq_LoginTicket request) of
            Ret ticket \<Rightarrow> Ret (ticket_ProfileID ticket, gameInfo)
          | _ \<Rightarrow> Err ResultLoginTicketInvalid)"

definition storageRequestHandlers ::
  "string \<Rightarrow> (storage_env \<Rightarrow> sake_db \<Rightarrow> u32 \<Rightarrow> game_info \<Rightarrow> StorageRequestCommon
     \<Rightarrow> (unit, sake_db \<times> StorageResponseBody) outcome) option" where
  "storageRequestHandlers xmlName =
     map_of [(SakeNamespace @ ''/CreateRecord'', createRecord), (SakeNamespace @ ''/UpdateRecord'', updateRecord),
             (SakeNamespace @ ''/GetMyRecords'', getMyRecords),
             (SakeNamespace @ ''/SearchForRecords'', searchForRecords)] xmlName"

text \<open>The result is dropped for a search.\<close>

definition setResultTag :: "string \<Rightarrow> Result \<Rightarrow> StorageResponseBody" where
  "setResultTag xmlName result =
     (if xmlName = SakeNamespace @ ''/CreateRecord'' then CreateRecordResponse result 0
      else if xmlName = SakeNamespace @ ''/UpdateRecord'' then UpdateRecordResponse result
      else if xmlName = SakeNamespace @ ''/GetMyRecords'' then GetMyRecordsResponse result []
      else if xmlName = SakeNamespace @ ''/SearchForRecords'' then SearchForRecordsResponse [] []
      else EmptyBody)"

text \<open>
  \<open>soap\<close> is what the XML decoder returns: the name of the element in the body, its namespace first, and the
  struct, or \<open>None\<close> for an error. A response \<open>None\<close> is none at all.
\<close>

definition handleStorageRequest ::
  "storage_env \<Rightarrow> game_list \<Rightarrow> token_env \<Rightarrow> int \<Rightarrow> sake_db \<Rightarrow> string
     \<Rightarrow> (string \<times> string \<times> StorageRequestCommon) option \<Rightarrow> (unit, sake_db \<times> StorageResponseBody option) outcome" where
  "handleStorageRequest env gl tokens now db headerAction soap =
     (if headerAction = [] then Ret (db, None)
      else case soap of
        None \<Rightarrow> Ret (db, None)
      | Some (space, local_name, request) \<Rightarrow>
          let xmlName = space @ ''/'' @ local_name in
          if headerAction = xmlName \<or> headerAction = [CHR 0x22] @ xmlName @ [CHR 0x22] then
            (case storageRequestHandlers xmlName of
               None \<Rightarrow> Panic
             | Some handler \<Rightarrow>
                 (case getRequestIdentity gl tokens now request of
                    Ret (profileId, gameInfo) \<Rightarrow>
                      bind_outcome (handler env db profileId gameInfo request) (\<lambda>(db', body). Ret (db', Some body))
                  | Err result \<Rightarrow> Ret (db, Some (setResultTag xmlName result))
                  | Panic \<Rightarrow> Panic))
          else Ret (db, Some EmptyBody))"

subsection \<open>The fields of a record\<close>

definition fields_typed :: "sake_fields \<Rightarrow> bool" where
  "fields_typed fs \<longleftrightarrow> (\<forall>f \<in> snd ` set fs. value_typed (sf_Type f) (sf_Value f))"

lemma fields_typed_update:
  "fields_typed fs \<Longrightarrow> value_typed (sf_Type f) (sf_Value f) \<Longrightarrow> fields_typed (AList.update nm f fs)"
  using update_rows [of nm f fs] by (force simp: fields_typed_def)

lemma tables_list: "GetTable g n = Some t \<Longrightarrow> t \<in> snd ` set TableDefinitions"
  by (force simp: GetTable_def dest: map_of_SomeD)

lemma table_fields:
  assumes "t \<in> snd ` set TableDefinitions" and "(nm, f) \<in> set (st_Fields t)"
  shows "fd_FilterFromClientFunc f = None \<and>
    (fd_Default f = [] \<or> fd_Default f = ''{CURRENT_TIMESTAMP}'' \<and> fd_Type f = SakeFieldTypeDateAndTime) \<and>
    (fd_FilterFromDatabaseFunc f = None \<or>
     fd_FilterFromDatabaseFunc f = Some filterMarioKartWiiFriendInfo \<and> fd_Type f = SakeFieldTypeBinaryData)"
  using assms
  by (auto simp: TableDefinitions_def friend_info_table_def ghost_table_def ghost_fields_def open_table_def
      plain_definition_def)

lemma client_filter_none: "FilterFieldFromClient (GetTable g n) nm v = Ret (v, ResultSuccess)"
  using table_fields [OF tables_list]
  by (fastforce simp: FilterFieldFromClient_def split: option.splits dest: map_of_SomeD)

lemma default_typed:
  assumes "DateAndTime_ok now" and "GetDefaultFields now (GetTable g n) = Some fs"
  shows "fields_typed fs"
proof -
  from assms(2) obtain t where t: "GetTable g n = Some t" by (auto simp: GetDefaultFields_def split: option.splits)
  define base where
    "base = map (\<lambda>(nm, f). (nm, default_value now f)) (filter (\<lambda>(_, f). fd_Default f \<noteq> []) (st_Fields t))"
  have "fields_typed base"
    using table_fields [OF tables_list [OF t]] assms(1)
    by (fastforce simp: fields_typed_def base_def default_value_def value_typed_def)
  moreover have "value_typed SakeFieldTypeFloat ''0''"
    by (simp add: value_typed_def ParseFloat32_ok_def read_float_def strip_sign_def is_sign_def hex_prefix_def
        has_prefix_def to_lower_def digit_val_def exponent_part_def overflows_def Let_def)
  moreover have "value_typed SakeFieldTypeInt ''0''"
    unfolding value_typed_def by (auto intro!: exI [of _ 0] simp: format_int_def format_uint.simps digit_chars)
  ultimately show ?thesis
    using assms(2) by (auto simp: GetDefaultFields_def t base_def Let_def split: if_splits intro!: fields_typed_update)
qed

lemma input_fields_typed:
  "input_fields (GetTable g n) vs fs = Ret fs' \<Longrightarrow> (\<And>m. fs = Some m \<Longrightarrow> fields_typed m) \<Longrightarrow> fs' = Some m' \<Longrightarrow> fields_typed m'"
proof (induction vs arbitrary: fs)
  case (Cons v vs)
  obtain nm tag val where v: "v = (nm, tag, val)" by (cases v)
  from Cons.prems(1) obtain ty m where ty: "tagToSakeType tag = Some ty"
    and c: "CheckValidField (GetTable g n) nm \<lparr>sf_Type = ty, sf_Value = val\<rparr> = ResultSuccess"
    and m: "fs = Some m"
    and r: "input_fields (GetTable g n) vs (Some (AList.update nm \<lparr>sf_Type = ty, sf_Value = val\<rparr> m)) = Ret fs'"
    by (auto simp: v client_filter_none Let_def split: option.splits if_splits)
  have "fields_typed (AList.update nm \<lparr>sf_Type = ty, sf_Value = val\<rparr> m)"
    using CheckValidField_typed [OF c] Cons.prems(2) [OF m] by (intro fields_typed_update) simp_all
  then show ?case by (intro Cons.IH [OF r _ Cons.prems(3)]) simp
qed simp

subsection \<open>What a request can change\<close>

definition new_row :: "SakeRecord \<Rightarrow> sake_fields option \<Rightarrow> u32 \<Rightarrow> sake_row" where
  "new_row rec fs i = \<lparr>row_game = sr_GameId rec, row_table = sr_TableId rec, row_record = i,
     row_owner = sr_OwnerId rec, row_fields = [json_Marshal fs]\<rparr>"

lemma insert_row_Ret:
  "insert_row rec (json_Marshal fs) i d = Ret d' \<Longrightarrow> d' = d\<lparr>records := records d @ [new_row rec fs i]\<rparr>"
  by (auto simp: insert_row_def new_row_def split: if_splits)

lemma insert_tries_cases:
  "insert_tries n draws rec (json_Marshal fs) d = (d', res) \<Longrightarrow>
     d' = d \<or> (\<exists>i. d' = d\<lparr>records := records d @ [new_row rec fs i]\<rparr>)"
  by (induction n) (auto split: outcome.splits if_splits dest: insert_row_Ret)

lemma UpdateSakeRecord_never:
  assumes "records_ok d" and "ownerId \<noteq> 0"
  shows "UpdateSakeRecord returning rec ownerId d \<noteq> Ret d'"
proof
  assume r: "UpdateSakeRecord returning rec ownerId d = Ret d'"
  let ?hit = "same_record (sr_GameId rec) (sr_TableId rec) (sr_RecordId rec)"
  from r obtain x where x: "find ?hit (records d) = Some x"
    by (auto simp: UpdateSakeRecord_def Let_def split: option.splits if_splits)
  have "returning" using r by (auto simp: UpdateSakeRecord_def split: if_splits)
  show False
  proof (cases "uint (row_owner x) = sint ownerId")
    case True
    moreover have "up (core d)" using r by (auto simp: UpdateSakeRecord_def)
    ultimately show ?thesis using UpdateSakeRecord_owned [OF assms(1) _ x] r \<open>returning\<close> by simp
  next
    case False
    then show ?thesis using r x assms(2) by (auto simp: UpdateSakeRecord_def Let_def split: if_splits)
  qed
qed

text \<open>The row that a creation adds\<close>

definition creates ::
  "storage_env \<Rightarrow> sake_db \<Rightarrow> u32 \<Rightarrow> game_info \<Rightarrow> StorageRequestCommon \<Rightarrow> sake_db \<Rightarrow> bool" where
  "creates env db profileId gameInfo request db' \<longleftrightarrow>
     int (length (filter (\<lambda>r. row_owner r = profileId) (records db))) < MaxSakeRecordsPerProfile \<and>
     \<not> reserved_table (GetTable (Name gameInfo) (rq_TableID request)) \<and>
     (\<exists>i fs. fields_typed (case fs of None \<Rightarrow> [] | Some m \<Rightarrow> m) \<and>
        db' = db\<lparr>records := records db @
          [\<lparr>row_game = ID gameInfo, row_table = rq_TableID request, row_record = i, row_owner = profileId,
            row_fields = [json_Marshal fs]\<rparr>]\<rparr>)"

lemma createRecord_changes:
  assumes "createRecord env db profileId gameInfo request = Ret (db', body)" and "db' \<noteq> db"
    and "DateAndTime_ok (env_now_text env)"
  shows "creates env db profileId gameInfo request db'"
proof -
  let ?t = "GetTable (Name gameInfo) (rq_TableID request)"
  from assms(1,2) obtain fs where m: "IsMaxSakeRecordsReached profileId MaxSakeRecordsPerProfile db = Ret False"
    and nr: "\<not> reserved_table ?t" and fs: "getInputFields env request ?t True = Ret fs"
    and db': "db' = fst (InsertSakeRecord (env_draws env)
       \<lparr>sr_GameId = ID gameInfo, sr_OwnerId = profileId, sr_TableId = rq_TableID request, sr_RecordId = 0,
        sr_Fields = (case fs of None \<Rightarrow> [] | Some m \<Rightarrow> m)\<rparr> fs db)"
    unfolding createRecord_def Let_def
    by (cases "IsMaxSakeRecordsReached profileId MaxSakeRecordsPerProfile db")
      (auto split: bool.splits if_splits outcome.splits prod.splits)
  have "\<exists>i. db' = db\<lparr>records := records db @ [new_row \<lparr>sr_GameId = ID gameInfo, sr_OwnerId = profileId,
      sr_TableId = rq_TableID request, sr_RecordId = 0, sr_Fields = (case fs of None \<Rightarrow> [] | Some m \<Rightarrow> m)\<rparr> fs i]\<rparr>"
    using insert_tries_cases [of 10 "env_draws env" _ fs db db'] db' assms(2)
    by (metis InsertSakeRecord_def prod.collapse)
  moreover have "fields_typed (case fs of None \<Rightarrow> [] | Some m \<Rightarrow> m)"
  proof (cases fs)
    case (Some m)
    then show ?thesis
      using fs input_fields_typed [of "Name gameInfo" "rq_TableID request"] default_typed [OF assms(3)]
      by (auto simp: getInputFields_def split: if_splits)
  qed (simp add: fields_typed_def)
  ultimately show ?thesis
    using m nr by (auto simp: creates_def IsMaxSakeRecordsReached_def new_row_def)
qed

lemma reads_keep:
  "getMyRecords env db profileId gameInfo request = Ret (db', body) \<Longrightarrow> db' = db"
  "searchForRecords env db profileId gameInfo request = Ret (db', body) \<Longrightarrow> db' = db"
  by (auto simp: getMyRecords_def searchForRecords_def Let_def split: if_splits outcome.splits)

lemma input_fields_error: "input_fields t vs fs = Err res \<Longrightarrow> res \<noteq> ResultSuccess"
proof (induction vs arbitrary: fs)
  case (Cons v vs)
  obtain nm tag val where "v = (nm, tag, val)" by (cases v)
  then show ?case
    using Cons by (auto simp: Let_def result_codes split: option.splits if_splits outcome.splits prod.splits)
qed simp

lemma getInputFields_error: "getInputFields env request t b = Err res \<Longrightarrow> res \<noteq> ResultSuccess"
  by (auto simp: getInputFields_def dest: input_fields_error split: if_splits)

lemma updateRecord_keeps:
  assumes "records_ok db" and "updateRecord env db profileId gameInfo request = Ret (db', body)"
  shows "db' = db \<and> (profileId \<noteq> 0 \<longrightarrow> body \<noteq> UpdateRecordResponse ResultSuccess)"
proof -
  have codes: "ResultTableNotFound \<noteq> ResultSuccess" "ResultNoPermission \<noteq> ResultSuccess"
    "ResultNotOwned \<noteq> ResultSuccess" "ResultRecordNotFound \<noteq> ResultSuccess"
    "ResultDatabaseUnavailable \<noteq> ResultSuccess"
    by (simp_all add: result_codes)
  show ?thesis
    using assms(2) codes getInputFields_error UpdateSakeRecord_same [OF assms(1)] UpdateSakeRecord_never [OF assms(1)]
    by (simp add: updateRecord_def Let_def split: if_split_asm outcome.split_asm) blast+
qed

end
