(* ===== verification/SakeService.thy ===== *)
theory SakeService
  imports SakeStorage "HOL-Library.Option_ord" "HOL-Library.Multiset"
begin

text \<open>
  The storage service as a whole: the states its database reaches through storage requests, uploads and the
  other servers, what holds in all of them, and what players see of each other's data.
\<close>

subsection \<open>Reachable states\<close>

inductive sake_reachable :: "sake_db \<Rightarrow> bool" where
  start: "db_ok c \<Longrightarrow> sake_reachable \<lparr>core = c, records = [], times = [], next_time = 1\<rparr>"
| store: "sake_reachable d \<Longrightarrow> DateAndTime_ok (env_now_text env) \<Longrightarrow>
    handleStorageRequest env gl tokens now d headerAction soap = Ret (d', reply) \<Longrightarrow> sake_reachable d'"
| upload: "sake_reachable d \<Longrightarrow>
    handleFileUploadRequest gl multipart d url_path query contentType = Ret (d', file_reply) \<Longrightarrow> sake_reachable d'"
| others: "sake_reachable d \<Longrightarrow> db_ok c \<Longrightarrow> (\<And>i. has_profile (core d) i \<Longrightarrow> has_profile c i) \<Longrightarrow>
    sake_reachable (d\<lparr>core := c\<rparr>)"

definition typed_row :: "sake_row \<Rightarrow> bool" where
  "typed_row r \<longleftrightarrow> (\<exists>fs. parseSakeFieldsFromJson (row_fields r) = Ret fs \<and> fields_typed fs)"

definition owned_by :: "sake_db \<Rightarrow> u32 \<Rightarrow> sake_row list" where
  "owned_by d p = filter (\<lambda>r. row_owner r = p) (records d)"

definition service_ok :: "sake_db \<Rightarrow> bool" where
  "service_ok d \<longleftrightarrow> sake_ok d \<and> times_served d \<and> (\<forall>r \<in> set (records d). typed_row r) \<and>
     (\<forall>p. int (length (owned_by d p)) \<le> MaxSakeRecordsPerProfile)"

lemma storage_request_cases:
  assumes "handleStorageRequest env gl tokens now d headerAction soap = Ret (d', reply)" and "d' \<noteq> d"
  shows "\<exists>space local_name request profileId gameInfo handler body.
    soap = Some (space, local_name, request) \<and> storageRequestHandlers (space @ ''/'' @ local_name) = Some handler \<and>
    getRequestIdentity gl tokens now request = Ret (profileId, gameInfo) \<and>
    handler env d profileId gameInfo request = Ret (d', body)"
  using assms
  by (auto simp: handleStorageRequest_def Let_def split: if_splits option.splits prod.splits outcome.splits)

lemma storage_handlers:
  "storageRequestHandlers nm = Some handler \<Longrightarrow>
     nm = SakeNamespace @ ''/CreateRecord'' \<and> handler = createRecord \<or> handler = updateRecord \<or>
     handler = getMyRecords \<or> handler = searchForRecords"
  by (auto simp: storageRequestHandlers_def split: if_splits)

lemma storage_request_creates:
  assumes "handleStorageRequest env gl tokens now d headerAction soap = Ret (d', reply)" and "d' \<noteq> d"
    and "records_ok d" and "DateAndTime_ok (env_now_text env)"
  shows "\<exists>space local_name request ticket gameInfo.
    soap = Some (space, local_name, request) \<and> space @ ''/'' @ local_name = SakeNamespace @ ''/CreateRecord'' \<and>
    unmarshal_ticket tokens now (rq_LoginTicket request) = Ret ticket \<and>
    GetGameInfoByID gl (rq_GameID request) = Some gameInfo \<and> SecretKey gameInfo = rq_SecretKey request \<and>
    creates env d (ticket_ProfileID ticket) gameInfo request d'"
proof -
  obtain space local_name request profileId gameInfo handler body
    where s: "soap = Some (space, local_name, request)"
      and h: "storageRequestHandlers (space @ ''/'' @ local_name) = Some handler"
      and i: "getRequestIdentity gl tokens now request = Ret (profileId, gameInfo)"
      and r: "handler env d profileId gameInfo request = Ret (d', body)"
    using storage_request_cases [OF assms(1,2)] by (elim exE conjE)
  have c: "space @ ''/'' @ local_name = SakeNamespace @ ''/CreateRecord'' \<and> handler = createRecord"
    using storage_handlers [OF h]
  proof (elim disjE)
    assume "handler = updateRecord"
    then show ?thesis using r updateRecord_keeps [OF assms(3)] assms(2) by simp
  next
    assume "handler = getMyRecords"
    then show ?thesis using r reads_keep(1) assms(2) by simp
  next
    assume "handler = searchForRecords"
    then show ?thesis using r reads_keep(2) assms(2) by simp
  qed
  then have "creates env d profileId gameInfo request d'"
    using createRecord_changes [OF _ assms(2,4)] r by simp
  then show ?thesis
    using s c i by (auto simp: getRequestIdentity_def split: option.splits if_splits outcome.splits)
qed

lemma file_upload_cases:
  assumes "handleFileUploadRequest gl multipart d url_path query contentType = Ret (d', reply)"
  shows "d' = d \<or> upload_kept d (query ''contest'' \<noteq> None) (form_get query ''playerinfo'') d'"
proof (cases "d' = d")
  case False
  then have "handleMarioKartWiiGhostUploadRequest multipart d query contentType = Ret (d', reply)"
    using assms
    by (auto simp: handleFileUploadRequest_def handleMarioKartWiiFileUploadRequest_def split: option.splits if_splits)
  from upload_cases [OF this] False show ?thesis by blast
qed simp

lemma upload_kept_ok: "upload_kept d contest t d' \<Longrightarrow> sake_ok d \<Longrightarrow> sake_ok d'"
  unfolding upload_kept_def sake_ok_def records_ok_def
  by (elim exE conjE, drule InsertMarioKartWiiGhostFile_ok, assumption) simp

lemma createRecord_ok:
  assumes "createRecord env d profileId gameInfo request = Ret (d', body)" and "sake_ok d"
  shows "sake_ok d'"
proof -
  have "sake_ok d'" if "InsertSakeRecord draws rec fs d = (d', res)" for draws rec fs and res :: "(db_error, u32) outcome"
    using insert_tries_ok [of 10 draws rec "json_Marshal fs" d d' res] that assms(2)
    by (simp add: InsertSakeRecord_def sake_ok_def times_ok_def)
  then show ?thesis
    using assms unfolding createRecord_def Let_def
    by (cases "IsMaxSakeRecordsReached profileId MaxSakeRecordsPerProfile d")
      (auto split: bool.splits if_splits outcome.splits prod.splits)
qed

lemma storage_request_ok:
  assumes "handleStorageRequest env gl tokens now d headerAction soap = Ret (d', reply)" and "sake_ok d"
  shows "sake_ok d'"
proof (cases "d' = d")
  case False
  then obtain space local_name request profileId gameInfo handler body
    where h: "storageRequestHandlers (space @ ''/'' @ local_name) = Some handler"
      and r: "handler env d profileId gameInfo request = Ret (d', body)"
    using storage_request_cases [OF assms(1) False] by (elim exE conjE)
  have "records_ok d" using assms(2) by (simp add: sake_ok_def)
  with storage_handlers [OF h] have "handler = createRecord"
    using False r reads_keep updateRecord_keeps by metis
  then show ?thesis using createRecord_ok r assms(2) by simp
qed (use assms in simp)

lemma creates_service:
  assumes "creates env d p gameInfo request d'" and "service_ok d" and "sake_ok d'"
  shows "service_ok d'"
proof -
  from assms(1) obtain i fs where fs: "fields_typed (case fs of None \<Rightarrow> [] | Some m \<Rightarrow> m)"
    and few: "int (length (owned_by d p)) < MaxSakeRecordsPerProfile"
    and d': "d' = d\<lparr>records := records d @ [\<lparr>row_game = ID gameInfo, row_table = rq_TableID request, row_record = i,
       row_owner = p, row_fields = [json_Marshal fs]\<rparr>]\<rparr>" (is "_ = d\<lparr>records := _ @ [?r]\<rparr>")
    by (auto simp: creates_def owned_by_def)
  have "parseSakeFieldsFromJson [json_Marshal fs] = Ret (case fs of None \<Rightarrow> [] | Some m \<Rightarrow> m)"
    by (cases fs) (auto simp: parseSakeFieldsFromJson_def json_Marshal_def)
  then have "typed_row ?r" using fs by (simp add: typed_row_def)
  moreover have "owned_by d' q = (if q = p then owned_by d q @ [?r] else owned_by d q)" for q
    using d' by (simp add: owned_by_def)
  ultimately show ?thesis
    using assms(2,3) few d' by (auto simp: service_ok_def times_served_def)
qed

lemma sake_reachable_ok: "sake_reachable d \<Longrightarrow> service_ok d"
proof (induction rule: sake_reachable.induct)
  case (start c)
  then show ?case
    by (simp add: service_ok_def sake_ok_def records_ok_def times_ok_def times_served_def owned_by_def
        MaxSakeRecordsPerProfile_def)
next
  case (store d env gl tokens now headerAction soap d' reply)
  have ok: "sake_ok d" using store.IH by (simp add: service_ok_def)
  show ?case
  proof (cases "d' = d")
    case False
    then show ?thesis
      using storage_request_creates [OF store.hyps(3) _ _ store.hyps(2)] ok store.IH
        storage_request_ok [OF store.hyps(3) ok] creates_service
      by (auto simp: sake_ok_def)
  qed (use store.IH in simp)
next
  case (upload d gl multipart url_path query contentType d' reply)
  then show ?case
    using file_upload_cases [OF upload.hyps(2)] upload_kept_ok upload_kept_served
    by (auto simp: service_ok_def owned_by_def)
next
  case (others d c)
  then show ?case
    by (auto simp: service_ok_def sake_ok_def records_ok_def times_ok_def times_served_def owned_by_def)
qed

subsection \<open>What the service keeps\<close>

text \<open>C12. Every record the service holds was checked field by field: its stored text reads back as fields whose values are
  texts of their declared type (numbers in range and printed canonically, base64, dates), its owner exists, and
  nobody owns more than 96.
\<close>

theorem stored_records_typed:
  assumes "sake_reachable d" and "r \<in> set (records d)"
  shows "(\<exists>fs. parseSakeFieldsFromJson (row_fields r) = Ret fs \<and> fields_typed fs \<and> length fs \<le> 64) \<and>
    has_profile (core d) (row_owner r) \<and> int (length (owned_by d (row_owner r))) \<le> 96"
  using sake_reachable_ok [OF assms(1)] assms(2)
  by (fastforce simp: service_ok_def typed_row_def sake_ok_def records_ok_def fields_check_def json_valid_def
      parseSakeFieldsFromJson_def MaxSakeRecordsPerProfile_def split: list.splits json.splits)

text \<open>C11. A storage request changes the database in one way only: it adds one record, when it is a creation that carries
  the game's secret and a login ticket, and the record belongs to the profile of this ticket.
\<close>

theorem storage_changes:
  assumes "sake_reachable d" and "DateAndTime_ok (env_now_text env)"
    and "handleStorageRequest env gl tokens now d headerAction soap = Ret (d', reply)" and "d' \<noteq> d"
  shows "\<exists>space local_name request ticket gameInfo row.
    soap = Some (space, local_name, request) \<and> space @ ''/'' @ local_name = SakeNamespace @ ''/CreateRecord'' \<and>
    unmarshal_ticket tokens now (rq_LoginTicket request) = Ret ticket \<and>
    GetGameInfoByID gl (rq_GameID request) = Some gameInfo \<and> SecretKey gameInfo = rq_SecretKey request \<and>
    d' = d\<lparr>records := records d @ [row]\<rparr> \<and> row_owner row = ticket_ProfileID ticket \<and> row_game row = ID gameInfo \<and>
    \<not> reserved_table (GetTable (Name gameInfo) (row_table row)) \<and>
    int (length (owned_by d (ticket_ProfileID ticket))) < MaxSakeRecordsPerProfile"
proof -
  have "records_ok d" using sake_reachable_ok [OF assms(1)] by (simp add: service_ok_def sake_ok_def)
  from storage_request_creates [OF assms(3,4) this assms(2)] show ?thesis
    by (fastforce simp: creates_def owned_by_def)
qed

text \<open>C38. No update takes effect: the statement appends the new fields to the text of the old ones, and two JSON documents
  in a row are no JSON document.
\<close>

theorem updates_never_succeed:
  assumes "sake_reachable d" and "profileId \<noteq> 0"
    and "updateRecord env d profileId gameInfo request = Ret (d', UpdateRecordResponse res)"
  shows "d' = d \<and> res \<noteq> ResultSuccess"
  using updateRecord_keeps [OF _ assms(3)] sake_reachable_ok [OF assms(1)] assms(2)
  by (auto simp: service_ok_def sake_ok_def)

text \<open>A creation in a table without a definition panics as soon as its first field is valid.
\<close>

theorem unknown_table_panics:
  assumes "IsMaxSakeRecordsReached profileId MaxSakeRecordsPerProfile d = Ret False"
    and "rq_TableID request \<noteq> []" and "GetTable (Name gameInfo) (rq_TableID request) = None"
    and "rq_Values request = (nm, tag, val) # more_values" and "length (rq_Values request) \<le> MaxSakeFieldsPerRecord"
    and "tagToSakeType tag = Some ty" and "nm \<notin> set reserved_names"
    and "CheckValidField None nm \<lparr>sf_Type = ty, sf_Value = val\<rparr> = ResultSuccess"
  shows "createRecord env d profileId gameInfo request = Panic"
  using assms
  by (simp add: createRecord_def reserved_table_def AllowsPublicCreate_def getInputFields_def GetDefaultFields_def
      FilterFieldFromClient_def Let_def)

text \<open>C13. In every state of the service a ghost download returns without a panic, and what it sends is a header and a file
  that is valid for its course and time, of another player, faster than the time of the request, with a Mii cleared
  of private data.
\<close>

theorem ghost_service_safe:
  assumes "sake_reachable d"
  shows "handleMarioKartWiiGhostDownloadRequest d query \<noteq> Panic \<and>
    (handleMarioKartWiiGhostDownloadRequest d query = Ret (FileBody b) \<longrightarrow>
      (\<exists>r \<in> set (times d). \<exists>g m. b = downloadedGhostFileHeader @ g \<and>
        IsRKGDFileValid g (m_course r) (m_score r) = Ret True \<and> GetMiiData g = Ret (ClearMiiInfo m) \<and> mii_ok m \<and>
        Some (m_course r) = atoi (form_get query ''c0'') \<and>
        (\<exists>t. Some t = atoi (form_get query ''t0'') \<and> m_score r < t) \<and>
        Some (m_pid r) \<noteq> atoi (form_get query ''p0'')))"
proof -
  have s: "times_served d" using sake_reachable_ok [OF assms] by (simp add: service_ok_def)
  show ?thesis
    using ghost_download_served(1) [OF s, of query] ghost_download_served(2) [OF s, of query b]
    unfolding ghost_ok_def by blast
qed

subsection \<open>What players see of each other\<close>

lemma insert_tries_Ret:
  "insert_tries n draws rec doc d = (d', Ret i) \<Longrightarrow>
     uint i < 2 ^ 31 \<and> insert_row rec doc i d = Ret d'"
  by (induction n) (auto split: outcome.splits if_splits)

lemma sint_small: "0 \<le> sint (w :: u32) \<Longrightarrow> sint w = uint w"
proof -
  assume "0 \<le> sint w"
  then have "take_bit 32 (sint w) = sint w" using sint_lt [of w] by (simp add: take_bit_int_eq_self)
  moreover have "uint (word_of_int (sint w) :: u32) = take_bit 32 (sint w)" by (simp only: uint_word_of_int) (simp add: take_bit_eq_mod)
  ultimately show ?thesis by simp
qed

text \<open>What the owner's only record looks like to a query for any spelling of the table\<close>

lemma created_found:
  assumes "InsertSakeRecord draws rec (Some m) d = (d', Ret i)" and "owned_by d (sr_OwnerId rec) = []"
    and "collate tab = collate (sr_TableId rec)"
  shows "GetSakeRecords uc sql (sr_GameId rec) [sr_OwnerId rec] tab [] [] d' =
    Ret [\<lparr>sr_GameId = sr_GameId rec, sr_OwnerId = sr_OwnerId rec, sr_TableId = tab, sr_RecordId = i, sr_Fields = m\<rparr>]"
proof -
  let ?row = "new_row rec (Some m) i"
  have i: "uint i < 2 ^ 31" and ins: "insert_row rec (json_Marshal (Some m)) i d = Ret d'"
    using insert_tries_Ret assms(1) by (auto simp: InsertSakeRecord_def)
  have up: "up (core d)" and o: "0 \<le> sint (sr_OwnerId rec)"
    using ins by (auto simp: insert_row_def sake_columns_ok_def split: if_splits)
  have d': "d' = d\<lparr>records := records d @ [?row]\<rparr>" by (rule insert_row_Ret [OF ins])
  have o': "sint (sr_OwnerId rec) = uint (sr_OwnerId rec)" by (rule sint_small [OF o])
  have o31: "uint (sr_OwnerId rec) < 2 ^ 31" using sint_lt [of "sr_OwnerId rec"] o' by simp
  have "filter (\<lambda>r. in_table (sr_GameId rec) tab r \<and> listed [sr_OwnerId rec] (row_owner r)) (records d) = []"
    using assms(2) o' by (auto simp: owned_by_def filter_empty_conv listed_def word_uint_eq_iff)
  then show ?thesis
    using up i o' o31 assms(3)
    by (simp add: GetSakeRecords_def filter_condition_def d' Let_def listed_def new_row_def in_table_def scan_row_def
        json_Marshal_def parseSakeFieldsFromJson_def)
qed

subsection \<open>Friend info\<close>

text \<open>A Mii that the game made: a block of data that starts with a Mii whose check sum is right\<close>

definition mii_text :: "string \<Rightarrow> bytes \<Rightarrow> bool" where
  "mii_text v b \<longleftrightarrow> b64_decode StdEncoding v = Some b \<and> 0x4C \<le> length b \<and>
     CalculateMiiCRC \<lparr>Data = take 0x4C b\<rparr> = 0"

definition cleared_text :: "bytes \<Rightarrow> string" where
  "cleared_text b = b64_encode StdEncoding (Data (ClearMiiInfo \<lparr>Data = take 0x4C b\<rparr>) @ drop 0x4C b)"

lemma friend_info_filter:
  assumes "mii_text v b"
  shows "filterMarioKartWiiFriendInfo v False = Ret (cleared_text b, ResultSuccess)"
proof -
  have "mii_ok \<lparr>Data = take 0x4C b\<rparr>" using assms by (simp add: mii_text_def mii_ok_def)
  from ClearMiiInfo_ok [OF this] have "length (Data (ClearMiiInfo \<lparr>Data = take 0x4C b\<rparr>)) = 0x4C"
    by (simp add: mii_ok_def)
  then show ?thesis
    using assms by (simp add: filterMarioKartWiiFriendInfo_def mii_text_def cleared_text_def RawMiiFromBytes_def Let_def)
qed

lemma friend_info_table [simp]:
  "GetTable ''mariokartwii'' ''FriendInfo'' = Some friend_info_table" "\<not> reserved_table (Some friend_info_table)"
  "AllowsPublicRead (Some friend_info_table)" "AllowsPublicCreate (Some friend_info_table)"
  "st_SearchForRecordsHandler friend_info_table = None" "st_OwnerType friend_info_table = OwnerTypeProfile"
  by (simp_all add: GetTable_def TableDefinitions_def reserved_table_def friend_info_table_def open_table_def
      AllowsPublicRead_def AllowsPublicCreate_def allowed_def)

lemma friend_info_field:
  "FilterFieldFromDatabase (Some friend_info_table) ''info'' v isOwner = filterMarioKartWiiFriendInfo v isOwner"
  by (simp add: FilterFieldFromDatabase_def friend_info_table_def open_table_def plain_definition_def)

lemma sort_single: "sort_Slice srt [x] = Ret [x]"
  by (simp add: sort_Slice_def)

text \<open>What a search for one owner's only record answers, when no handler of its own serves the table\<close>

lemma search_single:
  assumes "InsertSakeRecord draws rec (Some m) d = (d', Ret i)" and "owned_by d (sr_OwnerId rec) = []"
    and "collate (rq_TableID sreq) = collate (sr_TableId rec)" and "sr_GameId rec = ID gameInfo"
    and "GetTable (Name gameInfo) (rq_TableID sreq) = t" and "rq_TableID sreq \<noteq> []"
    and "\<not> reserved_table t" "AllowsPublicRead t" "Option.bind t st_SearchForRecordsHandler = None"
    and "rq_Filter sreq = []" "rq_OwnerIDs sreq = [sr_OwnerId rec]"
  shows "searchForRecords env d' b gameInfo sreq =
    bind_outcome (fillResponseValues b t [\<lparr>sr_GameId = sr_GameId rec, sr_OwnerId = sr_OwnerId rec,
        sr_TableId = rq_TableID sreq, sr_RecordId = i, sr_Fields = m\<rparr>] sreq)
      (\<lambda>(vs, res). Ret (d', SearchForRecordsResponse res vs))"
  using created_found [OF assms(1,2,3), of "env_unicode env" "env_where env"] assms(4-11)
  by (auto simp: searchForRecords_def found_records_def Let_def sort_single enforce_max_def)

text \<open>What a player is shown of a field \<open>info\<close>: the text as stored to its owner; to others with the Mii cleared when the text
  is a Mii that the game made, and as stored when it is anything else that decodes.\<close>

lemma friend_info_shown:
  assumes "filterMarioKartWiiFriendInfo v isOwner = Ret (val, res)"
  shows "(isOwner \<longrightarrow> val = v) \<and> (\<not> isOwner \<longrightarrow> (\<forall>b. mii_text v b \<longrightarrow> val = cleared_text b)) \<and>
    ((\<nexists>b. mii_text v b) \<longrightarrow> val = v)"
proof (cases "isOwner \<or> (\<exists>b. mii_text v b)")
  case True
  then show ?thesis using assms friend_info_filter [of v] by (cases isOwner) (auto simp: filterMarioKartWiiFriendInfo_def)
next
  case False
  then show ?thesis
    using assms
    by (auto simp: filterMarioKartWiiFriendInfo_def mii_text_def RawMiiFromBytes_def Let_def split: option.splits if_splits)
qed

text \<open>One record of an answer: a value for each field asked for\<close>

lemma record_values_fields:
  assumes "record_values b t rec fs acc = Ret vs" and "vs \<noteq> []"
  shows "length vs = length acc + length fs \<and> take (length acc) vs = acc \<and>
    (\<forall>j < length fs. fs ! j \<notin> {''ownerid'', ''recordid''} \<longrightarrow>
      (\<exists>fv val. map_of (sr_Fields rec) (fs ! j) = Some fv \<and>
         FilterFieldFromDatabase t (fs ! j) (sf_Value fv) (sr_OwnerId rec = b) = Ret (val, ResultSuccess) \<and>
         vs ! (length acc + j) = fillValue (sf_Type fv) val))"
  using assms
proof (induction fs arbitrary: acc)
  case (Cons f fs)
  have keep: "vs ! length acc = x" if "take (length (acc @ [x])) vs = acc @ [x]" for x
    using that by (metis lessI length_append_singleton nth_append_length nth_take)
  have step: ?case if IH: "length vs = length (acc @ [x]) + length fs \<and> take (length (acc @ [x])) vs = acc @ [x] \<and>
      (\<forall>j < length fs. fs ! j \<notin> {''ownerid'', ''recordid''} \<longrightarrow>
        (\<exists>fv val. map_of (sr_Fields rec) (fs ! j) = Some fv \<and>
           FilterFieldFromDatabase t (fs ! j) (sf_Value fv) (sr_OwnerId rec = b) = Ret (val, ResultSuccess) \<and>
           vs ! (length (acc @ [x]) + j) = fillValue (sf_Type fv) val))"
    and x: "f \<notin> {''ownerid'', ''recordid''} \<longrightarrow> (\<exists>fv val. map_of (sr_Fields rec) f = Some fv \<and>
        FilterFieldFromDatabase t f (sf_Value fv) (sr_OwnerId rec = b) = Ret (val, ResultSuccess) \<and> x = fillValue (sf_Type fv) val)"
    for x
  proof (intro conjI allI impI)
    show "length vs = length acc + length (f # fs)" using IH by simp
    show "take (length acc) vs = acc" using IH by (metis append_eq_conv_conj length_append take_take append_take_drop_id min.absorb1 le_add1)
    fix j assume j: "j < length (f # fs)" "(f # fs) ! j \<notin> {''ownerid'', ''recordid''}"
    show "\<exists>fv val. map_of (sr_Fields rec) ((f # fs) ! j) = Some fv \<and>
         FilterFieldFromDatabase t ((f # fs) ! j) (sf_Value fv) (sr_OwnerId rec = b) = Ret (val, ResultSuccess) \<and>
         vs ! (length acc + j) = fillValue (sf_Type fv) val"
      using IH x j keep [of x] by (cases j) auto
  qed
  show ?case
  proof (cases "f = ''ownerid'' \<or> f = ''recordid''")
    case True
    then obtain x where "record_values b t rec fs (acc @ [x]) = Ret vs" using Cons.prems(1) by (auto split: if_splits)
    from step [OF Cons.IH [OF this Cons.prems(2)]] True show ?thesis by blast
  next
    case False
    then obtain fv val where "map_of (sr_Fields rec) f = Some fv"
      "FilterFieldFromDatabase t f (sf_Value fv) (sr_OwnerId rec = b) = Ret (val, ResultSuccess)"
      "record_values b t rec fs (acc @ [fillValue (sf_Type fv) val]) = Ret vs"
      using Cons.prems by (auto split: option.splits outcome.splits if_splits)
    from step [OF Cons.IH [OF this(3) Cons.prems(2)]] this(1,2) show ?thesis by blast
  qed
qed simp

lemma fill_records_values:
  "fill_records b t fs recs acc = Ret vs \<Longrightarrow> v \<in> set vs \<Longrightarrow>
     v \<in> set acc \<or> (\<exists>rec \<in> set recs. record_values b t rec fs [] = Ret v \<and> v \<noteq> [])"
  by (induction recs arbitrary: acc) (fastforce split: if_splits)+

lemma collect_in: "collect f xs = Ret ys \<Longrightarrow> y \<in> set ys \<Longrightarrow> \<exists>x \<in> set xs. f x = Ret y"
  by (induction xs arbitrary: ys) auto

lemma matching_in:
  assumes "matching sql q rows = Ret rs" and "r \<in> set rs"
  shows "r \<in> set rows"
proof -
  obtain ps where ps: "collect (\<lambda>r. case sql q r of None \<Rightarrow> Err (Db ErrDataRange) | Some b \<Rightarrow> Ret (r, b)) rows = Ret ps"
    and rs: "rs = map fst (filter snd ps)"
    using assms(1) by (auto simp: matching_def)
  then obtain x where "x \<in> set ps" "fst x = r" using assms(2) by auto
  then show ?thesis using collect_in [OF ps, of x] by (auto split: option.splits)
qed

lemma GetSakeRecords_in:
  assumes "GetSakeRecords uc sql game owners tab ids expr d = Ret recs" and "rec \<in> set recs"
  shows "\<exists>row \<in> set (records d). in_table game tab row \<and> scan_row game tab row = Ret rec"
proof -
  let ?rows = "filter (\<lambda>r. in_table game tab r \<and> listed ids (row_record r) \<and> listed owners (row_owner r)) (records d)"
  obtain cond :: "(string \<times> string list) option" and rows where c: "(case cond of None \<Rightarrow> Ret ?rows | Some (q, args) \<Rightarrow>
        if holes q \<noteq> length args then Err (ErrArguments (holes q) (length args)) else matching sql q ?rows) = Ret rows"
    and rows: "collect (scan_row game tab) rows = Ret recs"
    using assms(1) unfolding GetSakeRecords_def Let_def bind_outcome_Ret_iff
    by (elim exE conjE) (rule that, assumption+)
  obtain row where row: "row \<in> set rows" "scan_row game tab row = Ret rec" using collect_in [OF rows assms(2)] by blast
  have "row \<in> set ?rows"
  proof (cases cond)
    case None
    then show ?thesis using c row(1) by simp
  next
    case (Some qa)
    then have "matching sql (fst qa) ?rows = Ret rows" using c by (cases qa) (simp split: if_splits)
    then show ?thesis using row(1) by (rule matching_in)
  qed
  then show ?thesis using row(2) by auto
qed

lemma insert_down_set: "insert_down lt x ys = Ret zs \<Longrightarrow> set zs = insert x (set ys)"
  by (induction ys arbitrary: zs) (auto split: if_splits)

lemma insertion_sort_set: "insertion_sort lt xs ds = Ret zs \<Longrightarrow> set zs = set xs \<union> set ds"
  by (induction xs arbitrary: ds) (auto dest: insert_down_set)

lemma enforce_max_set: "set (enforce_max mx xs) \<subseteq> set xs"
  by (simp add: enforce_max_def set_take_subset)

text \<open>Every list of values in the answer of a search comes from a stored row, when no handler of its own serves the table.\<close>

lemma search_values:
  assumes "searchForRecords env d b gameInfo sreq = Ret (d', SearchForRecordsResponse res vs)" and "v \<in> set vs"
    and "GetTable (Name gameInfo) (rq_TableID sreq) = t" and "Option.bind t st_SearchForRecordsHandler = None"
  shows "\<exists>row \<in> set (records d). \<exists>rec. in_table (ID gameInfo) (rq_TableID sreq) row \<and>
    scan_row (ID gameInfo) (rq_TableID sreq) row = Ret rec \<and> record_values b t rec (rq_Fields sreq) [] = Ret v \<and> v \<noteq> []"
proof -
  have ne: "vs \<noteq> []" using assms(2) by auto
  obtain recs srt where f: "found_records env d b gameInfo t sreq = Ret recs" and s: "sort_Slice (rq_Sort sreq) recs = Ret srt"
    and fill: "fill_records b t (rq_Fields sreq) (enforce_max (rq_Max sreq) srt) [] = Ret vs"
  proof (cases "found_records env d b gameInfo t sreq")
    case (Ret recs)
    then have "bind_outcome (sort_Slice (rq_Sort sreq) recs) (\<lambda>srt.
        bind_outcome (fillResponseValues b t (enforce_max (rq_Max sreq) srt) sreq) (\<lambda>(vs, res).
          Ret (d, SearchForRecordsResponse res vs))) = Ret (d', SearchForRecordsResponse res vs)"
      using assms(1,3) ne by (auto simp: searchForRecords_def Let_def split: if_splits)
    then obtain srt where s: "sort_Slice (rq_Sort sreq) recs = Ret srt"
      "fillResponseValues b t (enforce_max (rq_Max sreq) srt) sreq = Ret (vs, res)"
      by auto
    then have "fill_records b t (rq_Fields sreq) (enforce_max (rq_Max sreq) srt) [] = Ret vs"
      using ne by (auto simp: fillResponseValues_def split: outcome.splits)
    with that Ret s(1) show thesis by blast
  qed (use assms(1,3) ne in \<open>auto simp: searchForRecords_def Let_def split: if_splits\<close>)
  obtain rec where rec: "rec \<in> set (enforce_max (rq_Max sreq) srt)" "record_values b t rec (rq_Fields sreq) [] = Ret v" "v \<noteq> []"
    using fill_records_values [OF fill assms(2)] by auto
  then have "rec \<in> set recs" using enforce_max_set [of "rq_Max sreq" srt] insertion_sort_set s by (fastforce simp: sort_Slice_def)
  moreover have "\<exists>owners. GetSakeRecords (env_unicode env) (env_where env) (ID gameInfo) owners (rq_TableID sreq) []
      (rq_Filter sreq) d = Ret recs"
    using f assms(4) by (auto simp: found_records_def split: if_splits outcome.splits)
  ultimately show ?thesis using GetSakeRecords_in rec(2,3) by blast
qed

text \<open>C19. A search of the table under its own name, with any filter, owners, order and limit, over whatever is stored: each
  text of the field \<open>info\<close> that it answers is that of a stored friend info, shown to its owner as it is and to every other
  player with the Mii cleared of private data, if it is the Mii of a game, and as it is if it holds no valid Mii. (The name is
  compared exactly: the spelling \<open>friendinfo\<close> finds the same rows and clears nothing, \<open>friend_info_leaks\<close>.)\<close>

theorem friend_info_private:
  assumes "searchForRecords env d reader gameInfo sreq = Ret (d', SearchForRecordsResponse res vs)"
    and "Name gameInfo = ''mariokartwii''" and "rq_TableID sreq = ''FriendInfo''"
    and "v \<in> set vs" and "j < length (rq_Fields sreq)" and "rq_Fields sreq ! j = ''info''"
  shows "length v = length (rq_Fields sreq) \<and>
    (\<exists>row \<in> set (records d). \<exists>fs fv val. in_table (ID gameInfo) ''FriendInfo'' row \<and>
       parseSakeFieldsFromJson (row_fields row) = Ret fs \<and> map_of fs ''info'' = Some fv \<and>
       v ! j = (sakeTypeToTag (sf_Type fv), val) \<and>
       (row_owner row = reader \<longrightarrow> val = sf_Value fv) \<and>
       (row_owner row \<noteq> reader \<longrightarrow> (\<forall>b. mii_text (sf_Value fv) b \<longrightarrow> val = cleared_text b)) \<and>
       ((\<nexists>b. mii_text (sf_Value fv) b) \<longrightarrow> val = sf_Value fv))"
proof -
  have t: "GetTable (Name gameInfo) (rq_TableID sreq) = Some friend_info_table" using assms(2,3) by simp
  have h: "Option.bind (Some friend_info_table) st_SearchForRecordsHandler = None" by simp
  obtain row rec where row: "row \<in> set (records d)" "in_table (ID gameInfo) ''FriendInfo'' row"
      "scan_row (ID gameInfo) ''FriendInfo'' row = Ret rec"
    and vals: "record_values reader (Some friend_info_table) rec (rq_Fields sreq) [] = Ret v" "v \<noteq> []"
    using search_values [OF assms(1,4) t h] assms(3) by auto
  have rec: "parseSakeFieldsFromJson (row_fields row) = Ret (sr_Fields rec)" "sr_OwnerId rec = row_owner row"
    using row(3) by (auto simp: scan_row_def split: if_splits)
  obtain fv val where v: "map_of (sr_Fields rec) ''info'' = Some fv" "v ! j = fillValue (sf_Type fv) val"
    and f: "filterMarioKartWiiFriendInfo (sf_Value fv) (row_owner row = reader) = Ret (val, ResultSuccess)"
    and l: "length v = length (rq_Fields sreq)"
    using record_values_fields [OF vals] assms(5,6) rec(2) by (auto simp: friend_info_field)
  show ?thesis
    using l row(1,2) rec(1) v friend_info_shown [OF f] by (auto simp: fillValue_def intro!: bexI [of _ row])
qed

text \<open>And it is answered: what the owner of a single record and the others read back\<close>

lemma friend_info_answered:
  assumes "mii_text v b" and "m = [(''info'', \<lparr>sf_Type = SakeFieldTypeBinaryData, sf_Value = v\<rparr>)]"
    and "InsertSakeRecord draws \<lparr>sr_GameId = ID gameInfo, sr_OwnerId = owner, sr_TableId = ''FriendInfo'',
           sr_RecordId = 0, sr_Fields = m\<rparr> (Some m) d = (d', Ret i)"
    and "owned_by d owner = []" and "Name gameInfo = ''mariokartwii''"
    and "rq_TableID sreq = ''FriendInfo''" "rq_Filter sreq = []" "rq_OwnerIDs sreq = [owner]" "rq_Fields sreq = [''info'']"
  shows "searchForRecords env d' reader gameInfo sreq =
    Ret (d', SearchForRecordsResponse ResultSuccess
      [[(''binaryDataValue'', if reader = owner then v else cleared_text b)]])"
proof -
  have own: "filterMarioKartWiiFriendInfo v True = Ret (v, ResultSuccess)" by (simp add: filterMarioKartWiiFriendInfo_def)
  show ?thesis
    using search_single [OF assms(3), of sreq gameInfo "Some friend_info_table" env reader] assms(2,4-9)
      friend_info_filter [OF assms(1)] own
    by (auto simp: fillResponseValues_def friend_info_field fillValue_def sakeTypeToTag_def)
qed

text \<open>The database compares names of tables without regard to case, the table definitions do not: under
  another spelling the stored friend info goes out as it is, private data included.\<close>

theorem friend_info_leaks:
  assumes "m = [(''info'', \<lparr>sf_Type = SakeFieldTypeBinaryData, sf_Value = v\<rparr>)]"
    and "InsertSakeRecord draws \<lparr>sr_GameId = ID gameInfo, sr_OwnerId = owner, sr_TableId = ''FriendInfo'',
           sr_RecordId = 0, sr_Fields = m\<rparr> (Some m) d = (d', Ret i)"
    and "owned_by d owner = []" and "Name gameInfo = ''mariokartwii''"
    and "rq_TableID sreq = ''friendinfo''" "rq_Filter sreq = []" "rq_OwnerIDs sreq = [owner]" "rq_Fields sreq = [''info'']"
  shows "searchForRecords env d' reader gameInfo sreq =
    Ret (d', SearchForRecordsResponse ResultSuccess [[(''binaryDataValue'', v)]])"
proof -
  have c: "collate ''friendinfo'' = collate ''FriendInfo''" by (simp add: collate_def to_upper_def char_of_eq_iff take_bit_eq_mod)
  have t: "GetTable ''mariokartwii'' ''friendinfo'' = None" by (simp add: GetTable_def TableDefinitions_def)
  show ?thesis
    using search_single [OF assms(2), of sreq gameInfo None env reader] assms(1,3-8) c t
    by (simp add: fillResponseValues_def FilterFieldFromDatabase_def fillValue_def sakeTypeToTag_def reserved_table_def
        AllowsPublicRead_def)
qed

subsection \<open>The order of a search\<close>

text \<open>What a record is sorted by, with those that lack the field below all others; a record is sortable when the
  field, if there, is an \<open>int\<close>.\<close>

definition sort_rank :: "string \<Rightarrow> SakeRecord \<Rightarrow> int option" where
  "sort_rank srt rec = map_option (\<lambda>f. case parse_int 64 (sf_Value f) of None \<Rightarrow> 0 | Some i \<Rightarrow> i)
     (map_of (sr_Fields rec) srt)"

definition sortable :: "string \<Rightarrow> SakeRecord \<Rightarrow> bool" where
  "sortable srt rec = (case map_of (sr_Fields rec) srt of None \<Rightarrow> True
     | Some f \<Rightarrow> sf_Type f = SakeFieldTypeInt \<and> parse_int 64 (sf_Value f) \<noteq> None)"

lemma less_by_rank:
  "sortable srt l \<Longrightarrow> sortable srt r \<Longrightarrow> less_by srt l r = Ret (sort_rank srt l < sort_rank srt r)"
  by (auto simp: less_by_def sortable_def sort_rank_def split: option.splits)

lemma insert_down_sorts:
  fixes k :: "'a \<Rightarrow> 'b :: linorder"
  assumes "\<And>y. y \<in> set ys \<Longrightarrow> lt x y = Ret (k x < k y)" and "sorted_wrt (\<lambda>a b. k b \<le> k a) ys"
  shows "\<exists>zs. insert_down lt x ys = Ret zs \<and> sorted_wrt (\<lambda>a b. k b \<le> k a) zs \<and> mset zs = add_mset x (mset ys)"
  using assms
proof (induction ys)
  case (Cons y ys)
  then obtain zs where zs: "insert_down lt x ys = Ret zs" "sorted_wrt (\<lambda>a b. k b \<le> k a) zs" "mset zs = add_mset x (mset ys)"
    by auto
  then have "set zs = insert x (set ys)" by (metis set_mset_add_mset_insert set_mset_mset)
  then show ?case using Cons.prems zs by (auto simp: not_less intro: order_trans)
qed simp

lemma insertion_sort_sorts:
  fixes k :: "'a \<Rightarrow> 'b :: linorder"
  assumes "\<And>x y. x \<in> set xs \<Longrightarrow> y \<in> set xs \<union> set ds \<Longrightarrow> lt x y = Ret (k x < k y)"
    and "sorted_wrt (\<lambda>a b. k b \<le> k a) ds"
  shows "\<exists>zs. insertion_sort lt xs ds = Ret zs \<and> sorted (map k zs) \<and> mset zs = mset xs + mset ds"
  using assms
proof (induction xs arbitrary: ds)
  case Nil
  then show ?case by (simp add: sorted_wrt_rev sorted_map)
next
  case (Cons x xs)
  from insert_down_sorts [of ds lt x k] Cons.prems
  obtain es where es: "insert_down lt x ds = Ret es" "sorted_wrt (\<lambda>a b. k b \<le> k a) es" "mset es = add_mset x (mset ds)"
    by auto
  have "set es = insert x (set ds)" using es(3) by (metis set_mset_add_mset_insert set_mset_mset)
  then show ?case using Cons.IH [OF _ es(2)] Cons.prems(1) es by auto
qed

text \<open>The records of a search come sorted by the field the request names, ascending, those without it first, and none
  is lost or doubled.\<close>

theorem search_sorted:
  assumes "list_all (sortable srt) recs"
  shows "\<exists>ys. sort_Slice srt recs = Ret ys \<and> sorted (map (sort_rank srt) ys) \<and> mset ys = mset recs"
  using assms insertion_sort_sorts [of recs "[]" "less_by srt" "sort_rank srt"]
  by (auto simp: sort_Slice_def list_all_iff less_by_rank)

text \<open>Two records that have the field are enough for a panic when it is not an \<open>int\<close>.\<close>

lemma sort_panics:
  assumes "map_of (sr_Fields l) srt = Some f" and "map_of (sr_Fields r) srt = Some g"
    and "sf_Type f \<noteq> SakeFieldTypeInt \<or> sf_Type g \<noteq> SakeFieldTypeInt"
  shows "sort_Slice srt [l, r] = Panic"
  using assms by (auto simp: sort_Slice_def less_by_def)

subsection \<open>Filters\<close>

text \<open>A search whose filter names a field or holds a text never reaches the records: the query has placeholders and no
  arguments.\<close>

theorem filters_with_texts_fail:
  assumes "Parse (env_unicode env) (rq_Filter request) = Ret tree" and "rq_Filter request \<noteq> []"
    and "filterAppendRoot tree \<lparr>e_query = [], e_args = []\<rparr> = Ret e" and "e_args e \<noteq> []"
    and "GetTable (Name gameInfo) (rq_TableID request) = None" and "rq_TableID request \<noteq> []"
  shows "searchForRecords env d profileId gameInfo request =
    Ret (d, SearchForRecordsResponse ResultDatabaseUnavailable [])"
proof -
  have "holes (''('' @ e_query e @ '')'') = length (e_args e)"
    using filled_append(1) [OF assms(3)] by (simp add: filled_def)
  then show ?thesis
    using assms
    by (auto simp: searchForRecords_def found_records_def reserved_table_def GetSakeRecords_def filter_condition_def
        createSqlFilter_def Let_def sake_online_def online_def)
qed

subsection \<open>A sample of the service\<close>

definition mkw_game :: game_info where
  "mkw_game = \<lparr>ID = 1687, Name = ''mariokartwii'', SecretKey = ''s'',
     Stats = \<lparr>Key = [], Multiplier = 0, Increment = 0, Modulus = 0, ChecksumMask = 0\<rparr>, Description = []\<rparr>"

definition mkw_games :: game_list where
  "mkw_games = \<lparr>gameList = [mkw_game], gameListIDLookup = [1687 \<mapsto> 0], gameListNameLookup = [''mariokartwii'' \<mapsto> 0]\<rparr>"

definition sample_tokens :: token_env where
  "sample_tokens = sample_env\<lparr>env_magic := replicate 4 3\<rparr>"

definition sample_ticket :: GPCMLoginTicket where
  "sample_ticket = \<lparr>ticket_IssueTime = 1000, ticket_ProfileID = 1, ticket_Magic = replicate 4 3\<rparr>"

definition sample_storage_env :: storage_env where
  "sample_storage_env = \<lparr>env_unicode = \<lparr>Letter = (\<lambda>_. False), Digit = (\<lambda>_. False), Number = (\<lambda>_. False)\<rparr>,
     env_where = (\<lambda>_ _. None), env_draws = (\<lambda>_. 7), env_now_text = ''2024-01-01T00:00:00.000'',
     env_returning = True\<rparr>"

definition sample_creation :: StorageRequestCommon where
  "sample_creation = \<lparr>rq_GameID = 1687,
     rq_LoginTicket = marshal_ticket sample_tokens (1000 * second) (sample_ticket\<lparr>ticket_IssueTime := 0\<rparr>),
     rq_SecretKey = ''s'', rq_TableID = ''FriendInfo'', rq_RecordID = 0, rq_Fields = [''info''], rq_Filter = [],
     rq_Sort = [], rq_Offset = 0, rq_Max = 0, rq_Surrounding = 0, rq_OwnerIDs = [1], rq_CacheFlag = False,
     rq_Values = [(''info'', ''binaryDataValue'', [])]\<rparr>"

definition sample_row :: sake_row where
  "sample_row = \<lparr>row_game = 1687, row_table = ''FriendInfo'', row_record = 7, row_owner = 1,
     row_fields = [JsonObject [(''info'', \<lparr>sf_Type = SakeFieldTypeBinaryData, sf_Value = []\<rparr>)]]\<rparr>"

definition sample_stored :: sake_db where "sample_stored = sample_sake\<lparr>records := [sample_row]\<rparr>"

lemma sample_identity: "getRequestIdentity mkw_games sample_tokens (1001 * second) sample_creation = Ret (1, mkw_game)"
proof -
  have "unmarshal_ticket sample_tokens (1001 * second) (rq_LoginTicket sample_creation) = Ret sample_ticket"
    unfolding sample_creation_def
    by (simp, subst unmarshal_marshal_ticket)
      (simp_all add: sample_tokens_def sample_env_def sample_ticket_def unix_def second_def)
  then show ?thesis
    by (simp add: getRequestIdentity_def GetGameInfoByID_def mkw_games_def)
      (simp add: mkw_game_def sample_creation_def sample_ticket_def)
qed

lemma sample_creation_simps:
  "rq_TableID sample_creation = ''FriendInfo''" "rq_Values sample_creation = [(''info'', ''binaryDataValue'', [])]"
  "Name mkw_game = ''mariokartwii''" "ID mkw_game = 1687"
  by (simp_all add: sample_creation_def mkw_game_def)

lemma sample_input_fields:
  "rq_Values request = rq_Values sample_creation \<Longrightarrow>
     getInputFields env request (Some friend_info_table) useDefault =
       Ret (Some [(''info'', \<lparr>sf_Type = SakeFieldTypeBinaryData, sf_Value = []\<rparr>)])"
  by (simp add: getInputFields_def sample_creation_simps MaxSakeFieldsPerRecord_def GetDefaultFields_def
      friend_info_table_def open_table_def plain_definition_def tagToSakeType_def sake_types_def sakeTypeToTag_def
      reserved_names_def CheckValidField_def MaxSakeFieldValueLength_def rating_fields_def FilterFieldFromClient_def
      default_value_def Let_def)

lemma sample_insert:
  "InsertSakeRecord draws \<lparr>sr_GameId = 1687, sr_OwnerId = 1, sr_TableId = ''FriendInfo'', sr_RecordId = 0,
     sr_Fields = m\<rparr> (Some [f]) sample_sake =
   (if uint (draws 9) < 2 ^ 31
    then (sample_sake\<lparr>records := [\<lparr>row_game = 1687, row_table = ''FriendInfo'', row_record = draws 9, row_owner = 1,
            row_fields = [JsonObject [f]]\<rparr>]\<rparr>, Ret (draws 9))
    else (sample_sake\<lparr>records := [\<lparr>row_game = 1687, row_table = ''FriendInfo'', row_record = draws 9, row_owner = 1,
            row_fields = [JsonObject [f]]\<rparr>]\<rparr>, Err ErrDataRange))"
proof -
  have ten: "(10 :: nat) = Suc 9" by simp
  have c: "core sample_sake = sample_core" "records sample_sake = []" by (simp_all add: sample_sake_def)
  show ?thesis
    unfolding InsertSakeRecord_def ten
    by (simp only: insert_tries.simps)
      (simp add: insert_row_def c sample_core_ok online_def sake_columns_ok_def fields_check_def json_valid_def
        json_Marshal_def)
qed

lemma sample_create:
  "createRecord sample_storage_env sample_sake 1 mkw_game sample_creation =
     Ret (sample_stored, CreateRecordResponse ResultSuccess 7)"
proof -
  have "IsMaxSakeRecordsReached 1 MaxSakeRecordsPerProfile sample_sake = Ret False"
    by (simp add: IsMaxSakeRecordsReached_def sake_online_def online_def sample_sake_def sample_core_ok
        MaxSakeRecordsPerProfile_def)
  then show ?thesis
    by (simp add: createRecord_def sample_creation_simps sample_input_fields sample_insert Let_def)
      (simp add: sample_storage_env_def sample_stored_def sample_row_def)
qed

lemma sample_request:
  "handleStorageRequest sample_storage_env mkw_games sample_tokens (1001 * second) sample_sake
     (SakeNamespace @ ''/CreateRecord'') (Some (SakeNamespace, ''CreateRecord'', sample_creation)) =
   Ret (sample_stored, Some (CreateRecordResponse ResultSuccess 7))"
  by (simp add: handleStorageRequest_def storageRequestHandlers_def sample_identity sample_create Let_def)

lemma sample_clock: "DateAndTime_ok (env_now_text sample_storage_env)"
  by (simp add: sample_storage_env_def DateAndTime_ok_def literal_def getnum_def digit_val_def fraction_ok_def
      strip_sign_def is_sign_def days_in_def)

lemma sample_reachable: "sake_reachable sample_sake" "sake_reachable sample_stored"
proof -
  show s: "sake_reachable sample_sake"
    unfolding sample_sake_def by (rule sake_reachable.start [OF sample_core_ok(1)])
  show "sake_reachable sample_stored"
    by (rule sake_reachable.store [OF s sample_clock sample_request])
qed

definition sample_mii_bytes :: bytes where
  "sample_mii_bytes = Data (ClearMiiInfo \<lparr>Data = replicate 76 1\<rparr>)"

lemma sample_mii_ok: "length sample_mii_bytes = 0x4C" "CalculateMiiCRC \<lparr>Data = sample_mii_bytes\<rparr> = 0"
  using ClearMiiInfo_ok [of "\<lparr>Data = replicate 76 1\<rparr>"] ClearMiiInfo_crc [of "\<lparr>Data = replicate 76 1\<rparr>"] sample_mii
  by (simp_all add: sample_mii_bytes_def mii_ok_def CalculateMiiCRC_def)

definition sample_player_info :: bytes where "sample_player_info = sample_mii_bytes @ [0, 0, 0, 0]"

definition sample_upload :: form where
  "sample_upload = [''gameid'' \<mapsto> [''1687''], ''regionid'' \<mapsto> [''1''], ''courseid'' \<mapsto> [''0''],
     ''score'' \<mapsto> [''3003''], ''pid'' \<mapsto> [''1''], ''playerinfo'' \<mapsto> [b64_encode URLEncoding sample_player_info]]"

lemma sample_upload_numbers:
  "atoi (form_get sample_upload ''gameid'') = Some 1687" "atoi (form_get sample_upload ''regionid'') = Some 1"
  "atoi (form_get sample_upload ''courseid'') = Some 0" "positive (form_get sample_upload ''score'') = Some 3003"
  "positive (form_get sample_upload ''pid'') = Some 1" "sample_upload ''contest'' = None"
  by (simp_all add: form_get_def sample_upload_def positive_def atoi_def parse_int_def digit_val_def)

lemma length_b64_encode: "length (b64_encode e b) = 4 * ((length b + 2) div 3)"
proof (induction e b rule: b64_encode.induct)
  case (4 e a b c r)
  then show ?case using div_add_self2 [of 3 "2 + length r"] by simp
qed simp_all

lemma sample_info_valid:
  "isPlayerInfoValid (form_get sample_upload ''playerinfo'') = Some (b64_encode StdEncoding sample_player_info)"
  using sample_mii_ok
  by (simp add: isPlayerInfoValid_def form_get_def sample_upload_def b64_url.decode_encode sample_player_info_def
      playerInfoSize_def nth_append controller_IsValid_def GameCube_def)

lemma sample_stored_time:
  "\<exists>d r. handleFileUploadRequest mkw_games (\<lambda>_. Some (Some sample_ghost)) sample_sake ''/SakeFileServer/ghostupload.aspx''
       sample_upload [] = Ret (d, FileResult SakeFileResultSuccess) \<and> times d = [r] \<and> core d = core sample_sake \<and> on_board 1 0 r"
proof -
  obtain g where g: "sanitise_ghost sample_ghost = Ret g" "length g = length sample_ghost"
    using sanitise_ghost_valid [OF sample_ghost_valid] by blast
  have l: "160 \<le> length g \<and> length g \<le> 10240"
    using sample_ghost_valid g(2)
    by (auto simp: IsRKGDFileValid_def RKGDFileMinSize_def RKGDFileMaxSize_def require_def split: if_splits)
  have i: "length (b64_encode StdEncoding sample_player_info) = 108"
    using sample_mii_ok by (simp add: length_b64_encode sample_player_info_def)
  have sizes: "\<not> length sample_ghost < RKGDFileMinSize" "\<not> RKGDFileMaxSize < length sample_ghost"
    using l g(2) by (simp_all add: RKGDFileMinSize_def RKGDFileMaxSize_def)
  have ins: "\<exists>d r. InsertMarioKartWiiGhostFile 1 0 3003 1 (b64_encode StdEncoding sample_player_info) (Some g) sample_sake = Ret d
      \<and> times d = [r] \<and> core d = core sample_sake \<and> on_board 1 0 r"
    using l i
    by (simp add: InsertMarioKartWiiGhostFile_def sample_sake_def sample_core_ok mkw_columns_ok_def on_board_def Let_def)
  have suffix: "has_suffix ''/SakeFileServer/ghostupload.aspx'' ''ghostupload.aspx''" by (simp add: has_suffix_def)
  have game: "GetGameIDOrPanic mkw_games ''mariokartwii'' = Ret 1687"
    by (simp add: GetGameIDOrPanic_def GetGameID_def GetGameInfoByName_def mkw_games_def mkw_game_def)
  have store: "\<exists>d r. store_upload sample_sake False 1 0 3003 1 (b64_encode StdEncoding sample_player_info) sample_ghost =
      Ret (d, FileResult SakeFileResultSuccess) \<and> times d = [r] \<and> core d = core sample_sake \<and> on_board 1 0 r"
    using ins sizes g sample_ghost_valid by (auto simp: store_upload_def)
  then show ?thesis
    by (simp add: handleFileUploadRequest_def sample_upload_numbers game suffix handleMarioKartWiiFileUploadRequest_def
        handleMarioKartWiiGhostUploadRequest_def sample_info_valid region_IsValid_def China_def Worldwide_def
        course_IsValid_def GBAShyGuyBeach_def MarioCircuit_def Let_def)
qed

theorem ghost_service_safe_witness:
  "\<exists>d. length (times d) = 1 \<and> handleMarioKartWiiGhostDownloadRequest d sample_upload \<noteq> Panic"
proof -
  obtain d r where d: "handleFileUploadRequest mkw_games (\<lambda>_. Some (Some sample_ghost)) sample_sake
      ''/SakeFileServer/ghostupload.aspx'' sample_upload [] = Ret (d, FileResult SakeFileResultSuccess)" "times d = [r]"
    using sample_stored_time by auto
  have "sake_reachable d" by (rule sake_reachable.upload [OF sample_reachable(1) d(1)])
  from ghost_service_safe [OF this, of sample_upload] d(2) show ?thesis by (intro exI [of _ d]) simp
qed

theorem stored_records_typed_witness:
  "\<exists>fs. parseSakeFieldsFromJson (row_fields sample_row) = Ret fs \<and> fields_typed fs \<and> length fs \<le> 64"
  using stored_records_typed [OF sample_reachable(2), of sample_row] by (simp add: sample_stored_def)

theorem storage_changes_witness:
  "\<exists>row. sample_stored = sample_sake\<lparr>records := records sample_sake @ [row]\<rparr>"
proof -
  have "sample_stored \<noteq> sample_sake" by (simp add: sample_stored_def sample_sake_def)
  from storage_changes [OF sample_reachable(1) sample_clock sample_request this] show ?thesis by blast
qed

theorem updates_never_succeed_witness:
  "\<exists>res. updateRecord sample_storage_env sample_stored 1 mkw_game (sample_creation\<lparr>rq_RecordID := 7\<rparr>) =
     Ret (sample_stored, UpdateRecordResponse res) \<and> res \<noteq> ResultSuccess"
proof -
  have "AllowsOwnerUpdate (Some friend_info_table)"
    by (simp add: AllowsOwnerUpdate_def allowed_def friend_info_table_def open_table_def)
  moreover have "env_returning sample_storage_env" by (simp add: sample_storage_env_def)
  ultimately obtain res where "updateRecord sample_storage_env sample_stored 1 mkw_game (sample_creation\<lparr>rq_RecordID := 7\<rparr>) =
     Ret (sample_stored, UpdateRecordResponse res)"
    by (auto simp: updateRecord_def sample_creation_simps sample_input_fields Let_def UpdateSakeRecord_def sample_stored_def sample_sake_def
        same_record_def in_table_def sample_row_def appended_def fields_check_def json_valid_def sample_core_ok
        sake_online_def online_def split: outcome.splits)
  with updates_never_succeed [OF sample_reachable(2) _ this] show ?thesis by simp
qed

theorem friend_info_private_witness:
  "\<exists>d row fs fv. searchForRecords sample_storage_env d 2 mkw_game sample_creation =
       Ret (d, SearchForRecordsResponse ResultSuccess [[(''binaryDataValue'', cleared_text sample_mii_bytes)]]) \<and>
     row \<in> set (records d) \<and> parseSakeFieldsFromJson (row_fields row) = Ret fs \<and> map_of fs ''info'' = Some fv \<and>
     (\<forall>b. row_owner row \<noteq> 2 \<and> mii_text (sf_Value fv) b \<longrightarrow> cleared_text sample_mii_bytes = cleared_text b)"
proof -
  let ?v = "b64_encode StdEncoding sample_mii_bytes"
  have v: "mii_text ?v sample_mii_bytes"
    using sample_mii_ok by (simp add: mii_text_def b64_std.decode_encode)
  let ?f = "(''info'', \<lparr>sf_Type = SakeFieldTypeBinaryData, sf_Value = ?v\<rparr>)"
  obtain d where d: "InsertSakeRecord (\<lambda>_. 7) \<lparr>sr_GameId = ID mkw_game, sr_OwnerId = 1, sr_TableId = ''FriendInfo'',
      sr_RecordId = 0, sr_Fields = [?f]\<rparr> (Some [?f]) sample_sake = (d, Ret 7)"
    using sample_insert [of "\<lambda>_. 7" "[?f]" ?f] by (simp add: sample_creation_simps)
  have "owned_by sample_sake 1 = []" by (simp add: owned_by_def sample_sake_def)
  from friend_info_answered [OF v refl d this, of sample_creation sample_storage_env 2]
  have s: "searchForRecords sample_storage_env d 2 mkw_game sample_creation =
     Ret (d, SearchForRecordsResponse ResultSuccess [[(''binaryDataValue'', cleared_text sample_mii_bytes)]])"
    by (simp add: sample_creation_simps) (simp add: sample_creation_def)
  have r: "Name mkw_game = ''mariokartwii''" "rq_TableID sample_creation = ''FriendInfo''"
    "0 < length (rq_Fields sample_creation)" "rq_Fields sample_creation ! 0 = ''info''"
    by (simp_all add: sample_creation_simps) (simp_all add: sample_creation_def)
  from friend_info_private [OF s r(1,2) _ r(3,4), of "[(''binaryDataValue'', cleared_text sample_mii_bytes)]"]
  obtain row fs fv where f: "row \<in> set (records d)" "parseSakeFieldsFromJson (row_fields row) = Ret fs"
    "map_of fs ''info'' = Some fv"
    "row_owner row \<noteq> 2 \<longrightarrow> (\<forall>b. mii_text (sf_Value fv) b \<longrightarrow> cleared_text sample_mii_bytes = cleared_text b)"
    by auto
  from s f show ?thesis by (intro exI [of _ d] exI [of _ row] exI [of _ fs] exI [of _ fv]) simp
qed

theorem search_sorted_witness:
  "\<exists>ys. sort_Slice ''time'' [\<lparr>sr_GameId = 1, sr_OwnerId = 1, sr_TableId = [], sr_RecordId = 1,
       sr_Fields = [(''time'', int_field 5)]\<rparr>, \<lparr>sr_GameId = 1, sr_OwnerId = 1, sr_TableId = [], sr_RecordId = 2,
       sr_Fields = [(''time'', int_field 3)]\<rparr>] = Ret ys \<and> sorted (map (sort_rank ''time'') ys)"
proof -
  have "parse_int 64 (sf_Value (int_field i)) \<noteq> None" for i
  proof -
    have "- (2 ^ 63) \<le> sint (word_of_int i :: u32)" "sint (word_of_int i :: u32) < 2 ^ 63"
      using sint_greater_eq [of "word_of_int i :: u32"] sint_lt [of "word_of_int i :: u32"] by simp_all
    then show ?thesis by (simp add: int_field_def int32_text_def parse_int_format_int)
  qed
  moreover have "sf_Type (int_field i) = SakeFieldTypeInt" for i by (simp add: int_field_def)
  ultimately show ?thesis
    using search_sorted [of "''time''" "[\<lparr>sr_GameId = 1, sr_OwnerId = 1, sr_TableId = [], sr_RecordId = 1,
       sr_Fields = [(''time'', int_field 5)]\<rparr>, \<lparr>sr_GameId = 1, sr_OwnerId = 1, sr_TableId = [], sr_RecordId = 2,
       sr_Fields = [(''time'', int_field 3)]\<rparr>]"]
    by (auto simp: sortable_def)
qed

end
