(* ===== verification/Race.thy ===== *)
theory Race
  imports SakeService
begin

text \<open>
  \<open>race/nintendo_racing_service.go\<close>: the racing service, which serves the ten best times of a course from the table
  the uploads fill. A request is the struct its XML was read into, or \<open>None\<close> when it is no XML.
\<close>

record rankings_request =
  rr_GameId :: int
  rr_RegionId :: int
  rr_CourseId :: int

record ranking_data =
  rd_OwnerID :: int
  rd_Rank :: int
  rd_Time :: int
  rd_UserData :: string

datatype race_reply = NoRaceReply | RaceReply int "ranking_data list"

definition raceServiceResultSuccess :: int where "raceServiceResultSuccess = 0"
definition raceServiceResultDatabaseError :: int where "raceServiceResultDatabaseError = 6"
definition raceServiceResultParseError :: int where "raceServiceResultParseError = 101"
definition raceServiceResultInvalidParameters :: int where "raceServiceResultInvalidParameters = 105"

definition marioKartWiiGameID :: int where "marioKartWiiGameID = 1687"

definition writeErrorResponse :: "int \<Rightarrow> race_reply" where
  "writeErrorResponse code = RaceReply code []"

text \<open>One entry of the list: the player info is decoded, and its Mii cleared of private data.\<close>

definition top_ten_entry :: "int \<Rightarrow> int \<times> int \<times> string \<Rightarrow> (unit, ranking_data) outcome" where
  "top_ten_entry rank = (\<lambda>(score, pid, info).
     case b64_decode StdEncoding info of
       None \<Rightarrow> Panic
     | Some playerInfo \<Rightarrow>
         bind_outcome (RawMiiFromBytes playerInfo) (\<lambda>mii.
           let miiData = Data (ClearMiiInfo mii)
           in Ret \<lparr>rd_OwnerID = pid, rd_Rank = rank, rd_Time = score,
                   rd_UserData = b64_encode StdEncoding (miiData @ drop (length miiData) playerInfo)\<rparr>))"

fun top_ten_entries :: "int \<Rightarrow> (int \<times> int \<times> string) list \<Rightarrow> (unit, ranking_data list) outcome" where
  "top_ten_entries rank [] = Ret []"
| "top_ten_entries rank (x # xs) =
     bind_outcome (top_ten_entry rank x) (\<lambda>e. bind_outcome (top_ten_entries (rank + 1) xs) (\<lambda>es. Ret (e # es)))"

definition handleGetTopTenRankingsRequest :: "sake_db \<Rightarrow> rankings_request option \<Rightarrow> (unit, race_reply) outcome" where
  "handleGetTopTenRankingsRequest db request =
     (case request of
        None \<Rightarrow> Ret (writeErrorResponse raceServiceResultParseError)
      | Some requestData \<Rightarrow>
          if rr_GameId requestData \<noteq> marioKartWiiGameID then Ret (writeErrorResponse raceServiceResultInvalidParameters)
          else if \<not> region_IsValid (rr_RegionId requestData)
          then Ret (writeErrorResponse raceServiceResultInvalidParameters)
          else if rr_CourseId requestData < MarioCircuit \<or> 32767 < rr_CourseId requestData
          then Ret (writeErrorResponse raceServiceResultInvalidParameters)
          else case GetMarioKartWiiTopTenRankings (rr_RegionId requestData) (rr_CourseId requestData) db of
              Ret rows \<Rightarrow> bind_outcome (top_ten_entries 1 rows) (\<lambda>es. Ret (RaceReply raceServiceResultSuccess es))
            | _ \<Rightarrow> Ret (writeErrorResponse raceServiceResultDatabaseError))"

text \<open>The action is what stands between the last slash of the header and the next quotation mark.\<close>

definition after_last_slash :: "string \<Rightarrow> string option" where
  "after_last_slash s =
     (if CHR ''/'' \<in> set s then Some (rev (takeWhile (\<lambda>c. c \<noteq> CHR ''/'') (rev s))) else None)"

definition soap_action :: "string \<Rightarrow> string option" where
  "soap_action header =
     (case after_last_slash header of
        None \<Rightarrow> None
      | Some r \<Rightarrow> (case index_of r [CHR 0x22] of None \<Rightarrow> None | Some i \<Rightarrow> Some (take i r)))"

definition handleNintendoRacingServiceRequest ::
  "sake_db \<Rightarrow> string \<Rightarrow> rankings_request option \<Rightarrow> (unit, race_reply) outcome" where
  "handleNintendoRacingServiceRequest db soapActionHeader request =
     (if soapActionHeader = [] then Ret (writeErrorResponse raceServiceResultParseError)
      else case soap_action soapActionHeader of
        None \<Rightarrow> Ret (writeErrorResponse raceServiceResultParseError)
      | Some action \<Rightarrow>
          if action = ''GetTopTenRankings'' then handleGetTopTenRankingsRequest db request else Ret NoRaceReply)"

subsection \<open>The best times\<close>

definition entry_shows :: "mkw_row \<Rightarrow> int \<Rightarrow> ranking_data \<Rightarrow> bool" where
  "entry_shows r rank e \<longleftrightarrow> rd_OwnerID e = m_pid r \<and> rd_Time e = m_score r \<and> rd_Rank e = rank \<and>
     (\<exists>b. mii_text (m_info r) b \<and> rd_UserData e = cleared_text b)"

lemma top_ten_entry_served:
  assumes "info_ok (m_info r)"
  shows "\<exists>e. top_ten_entry rank (m_score r, m_pid r, m_info r) = Ret e \<and> entry_shows r rank e"
proof -
  from assms obtain b where b: "b64_decode StdEncoding (m_info r) = Some b" "length b = playerInfoSize"
    "CalculateMiiCRC \<lparr>Data = take 0x4C b\<rparr> = 0" by (auto simp: info_ok_def)
  then have "mii_ok \<lparr>Data = take 0x4C b\<rparr>" by (simp add: mii_ok_def playerInfoSize_def)
  from ClearMiiInfo_ok [OF this] have "length (Data (ClearMiiInfo \<lparr>Data = take 0x4C b\<rparr>)) = 0x4C" by (simp add: mii_ok_def)
  then show ?thesis
    using b by (auto simp: top_ten_entry_def RawMiiFromBytes_def playerInfoSize_def entry_shows_def mii_text_def
        cleared_text_def Let_def)
qed

lemma top_ten_entries_served:
  assumes "list_all (\<lambda>r. info_ok (m_info r)) rs"
  shows "\<exists>es. top_ten_entries n (map (\<lambda>r. (m_score r, m_pid r, m_info r)) rs) = Ret es \<and>
    length es = length rs \<and> (\<forall>i < length rs. entry_shows (rs ! i) (n + int i) (es ! i))"
  using assms
proof (induction rs arbitrary: n)
  case (Cons r rs)
  from Cons.prems obtain e where e: "top_ten_entry n (m_score r, m_pid r, m_info r) = Ret e" "entry_shows r n e"
    using top_ten_entry_served [of r n] by auto
  from Cons.prems have "list_all (\<lambda>r. info_ok (m_info r)) rs" by simp
  from Cons.IH [OF this, of "n + 1"] obtain es where es: "top_ten_entries (n + 1) (map (\<lambda>r. (m_score r, m_pid r, m_info r)) rs) = Ret es"
    "length es = length rs" "\<forall>i < length rs. entry_shows (rs ! i) (n + 1 + int i) (es ! i)" by blast
  have "entry_shows ((r # rs) ! i) (n + int i) ((e # es) ! i)" if "i < length (r # rs)" for i
    using that e(2) es(2,3) by (cases i) (auto simp: algebra_simps)
  then show ?case using e(1) es(1,2) by auto
qed simp

definition best_times :: "int \<Rightarrow> int \<Rightarrow> sake_db \<Rightarrow> mkw_row list" where
  "best_times region course d = take 10 (fastest (filter (on_board region course) (times d)))"

text \<open>C21. In every state of the service the ten best times of a course are served without a panic, the fastest first, with
  their ranks, each with its player's info cleared of private data.\<close>

theorem best_times_served:
  assumes "sake_reachable d" and "up (core d)"
    and "rr_GameId request = 1687" "0 \<le> rr_RegionId request" "rr_RegionId request \<le> 7"
      "0 \<le> rr_CourseId request" "rr_CourseId request \<le> 32767"
  shows "\<exists>es. handleGetTopTenRankingsRequest d (Some request) = Ret (RaceReply raceServiceResultSuccess es) \<and>
    length es \<le> 10 \<and> sorted (map rd_Time es) \<and>
    (let rows = best_times (rr_RegionId request) (rr_CourseId request) d
     in length es = length rows \<and> (\<forall>i < length rows. entry_shows (rows ! i) (1 + int i) (es ! i)))"
proof -
  let ?rows = "best_times (rr_RegionId request) (rr_CourseId request) d"
  have s: "times_served d" using sake_reachable_ok [OF assms(1)] by (simp add: service_ok_def)
  have "set ?rows \<subseteq> set (times d)" using set_take_subset by (fastforce simp: best_times_def)
  then have "list_all (\<lambda>r. info_ok (m_info r)) ?rows"
    using s by (auto simp: list_all_iff times_served_def time_ok_def)
  from top_ten_entries_served [OF this, of 1] obtain es where es:
    "top_ten_entries 1 (map (\<lambda>r. (m_score r, m_pid r, m_info r)) ?rows) = Ret es" "length es = length ?rows"
    "\<forall>i < length ?rows. entry_shows (?rows ! i) (1 + int i) (es ! i)" by blast
  have "map rd_Time es = map m_score ?rows"
    using es(2,3) by (intro nth_equalityI) (auto simp: entry_shows_def)
  moreover have "sorted (map m_score ?rows)"
    by (simp add: best_times_def fastest_def take_map [symmetric] sorted_wrt_take)
  moreover have "length ?rows \<le> 10" by (simp add: best_times_def)
  moreover have "GetMarioKartWiiTopTenRankings (rr_RegionId request) (rr_CourseId request) d =
      Ret (map (\<lambda>r. (m_score r, m_pid r, m_info r)) ?rows)"
    using assms(2) by (simp add: GetMarioKartWiiTopTenRankings_def best_times_def online_def)
  ultimately show ?thesis
    using assms(3-7) es
    by (simp add: handleGetTopTenRankingsRequest_def marioKartWiiGameID_def region_IsValid_def China_def MarioCircuit_def)
qed

text \<open>No request makes the service panic.\<close>

lemma race_service_total:
  assumes "sake_reachable d"
  shows "handleNintendoRacingServiceRequest d header request \<noteq> Panic"
proof -
  have "handleGetTopTenRankingsRequest d request \<noteq> Panic"
  proof (cases request)
    case (Some rq)
    show ?thesis
    proof (cases "up (core d) \<and> rr_GameId rq = 1687 \<and> 0 \<le> rr_RegionId rq \<and> rr_RegionId rq \<le> 7 \<and>
        0 \<le> rr_CourseId rq \<and> rr_CourseId rq \<le> 32767")
      case False
      then show ?thesis
        by (auto simp: Some handleGetTopTenRankingsRequest_def marioKartWiiGameID_def region_IsValid_def China_def
            MarioCircuit_def GetMarioKartWiiTopTenRankings_def online_def)
    next
      case True
      have s: "times_served d" using sake_reachable_ok [OF assms] by (simp add: service_ok_def)
      have "set (best_times (rr_RegionId rq) (rr_CourseId rq) d) \<subseteq> set (times d)"
        using set_take_subset by (fastforce simp: best_times_def)
      then have "list_all (\<lambda>r. info_ok (m_info r)) (best_times (rr_RegionId rq) (rr_CourseId rq) d)"
        using s by (auto simp: list_all_iff times_served_def time_ok_def)
      from top_ten_entries_served [OF this, of 1] show ?thesis
        using True by (auto simp: Some handleGetTopTenRankingsRequest_def GetMarioKartWiiTopTenRankings_def online_def
            best_times_def)
    qed
  qed (simp add: handleGetTopTenRankingsRequest_def)
  then show ?thesis by (simp add: handleNintendoRacingServiceRequest_def split: option.split)
qed

theorem best_times_served_witness:
  "\<exists>d es. handleGetTopTenRankingsRequest d (Some \<lparr>rr_GameId = 1687, rr_RegionId = 1, rr_CourseId = 0\<rparr>) =
     Ret (RaceReply raceServiceResultSuccess es) \<and> length es = 1"
proof -
  obtain d r where d: "handleFileUploadRequest mkw_games (\<lambda>_. Some (Some sample_ghost)) sample_sake
      ''/SakeFileServer/ghostupload.aspx'' sample_upload [] = Ret (d, FileResult SakeFileResultSuccess)" "times d = [r]"
    "core d = core sample_sake" "on_board 1 0 r"
    using sample_stored_time by auto
  have "sake_reachable d" by (rule sake_reachable.upload [OF sample_reachable(1) d(1)])
  from best_times_served [OF this, of "\<lparr>rr_GameId = 1687, rr_RegionId = 1, rr_CourseId = 0\<rparr>"] d(2-4)
  show ?thesis by (auto simp: best_times_def fastest_def Let_def sample_sake_def sample_core_ok)
qed

end
