(* ===== verification/TlsCrypto.thy ===== *)
theory TlsCrypto
  imports GoCrypto StreamCipher
begin

text \<open>
  The cryptography of \<open>nas/tls.go\<close>: the RC4 cipher and the HMAC of Go's library, and the functions the file takes from
  the standard library's TLS: the two pseudo-random functions, the derivation of the keys, the hash of a handshake, the
  message authentication codes of SSL 3.0 and TLS 1.0 and the encryption of a record.
\<close>

definition VersionSSL30 :: u16 where "VersionSSL30 = 0x0300"
definition VersionTLS10 :: u16 where "VersionTLS10 = 0x0301"

subsection \<open>RC4\<close>

record rc4 =
  rc4_s :: bytes
  rc4_i :: u8
  rc4_j :: u8

definition swap_nth :: "nat \<Rightarrow> nat \<Rightarrow> 'a list \<Rightarrow> 'a list" where
  "swap_nth i j xs = xs[i := xs ! j, j := xs ! i]"

definition rc4_schedule :: "bytes \<Rightarrow> nat \<Rightarrow> bytes \<times> u8 \<Rightarrow> bytes \<times> u8" where
  "rc4_schedule key i = (\<lambda>(s, j).
     let j' = j + s ! i + key ! (i mod length key) in (swap_nth i (unat j') s, j'))"

definition NewCipher :: "bytes \<Rightarrow> rc4 option" where
  "NewCipher key =
     (if length key < 1 \<or> 256 < length key then None
      else Some \<lparr>rc4_s = fst (fold (rc4_schedule key) [0..<256] (map of_nat [0..<256], 0)), rc4_i = 0, rc4_j = 0\<rparr>)"

definition rc4_step :: "rc4 \<Rightarrow> rc4" where
  "rc4_step c =
     (let i = rc4_i c + 1; j = rc4_j c + rc4_s c ! unat i
      in \<lparr>rc4_s = swap_nth (unat i) (unat j) (rc4_s c), rc4_i = i, rc4_j = j\<rparr>)"

definition rc4_byte :: "rc4 \<Rightarrow> u8" where
  "rc4_byte c = rc4_s c ! unat (rc4_s c ! unat (rc4_i c) + rc4_s c ! unat (rc4_j c))"

fun XORKeyStream :: "rc4 \<Rightarrow> bytes \<Rightarrow> rc4 \<times> bytes" where
  "XORKeyStream c [] = (c, [])"
| "XORKeyStream c (b # bs) =
     (let c' = rc4_step c; (c'', r) = XORKeyStream c' bs in (c'', (b XOR rc4_byte c') # r))"

interpretation rc4: synchronous_cipher rc4_step rc4_byte "\<lambda>_ _ c. c" "\<lambda>c. length (rc4_s c) = 256"
  by unfold_locales (simp_all add: rc4_step_def swap_nth_def Let_def)

lemma XORKeyStream_cipher: "XORKeyStream c bs = rc4.encrypt c bs"
  by (induction c bs rule: XORKeyStream.induct) (simp_all add: Let_def split: prod.splits)

lemma length_XORKeyStream [simp]: "length (snd (XORKeyStream c bs)) = length bs"
  by (simp add: XORKeyStream_cipher)

lemma XORKeyStream_length: "XORKeyStream c bs = (c', r) \<Longrightarrow> length r = length bs"
  by (metis length_XORKeyStream snd_conv)

text \<open>Two ciphers that start in the same state stay in step: one undoes what the other did.\<close>

lemma XORKeyStream_twice: "XORKeyStream c (snd (XORKeyStream c bs)) = (fst (XORKeyStream c bs), bs)"
  using rc4.decrypt_encrypt [of c bs] by (simp add: XORKeyStream_cipher rc4.decrypt_is_encrypt)

lemma XORKeyStream_append:
  "XORKeyStream c (a @ b) =
     (fst (XORKeyStream (fst (XORKeyStream c a)) b),
      snd (XORKeyStream c a) @ snd (XORKeyStream (fst (XORKeyStream c a)) b))"
  by (simp add: XORKeyStream_cipher rc4.encrypt_append Let_def split: prod.splits)

subsection \<open>Hashes\<close>

datatype hash_alg = MD5 | SHA1

fun hash_sum :: "hash_alg \<Rightarrow> bytes \<Rightarrow> bytes" where
  "hash_sum MD5 msg = md5_sum msg"
| "hash_sum SHA1 msg = sha1_sum msg"

fun hash_size :: "hash_alg \<Rightarrow> nat" where
  "hash_size MD5 = 16"
| "hash_size SHA1 = 20"

lemma length_hash_sum [simp]: "length (hash_sum h msg) = hash_size h"
  by (cases h) simp_all

lemma hash_size_pos [simp]: "0 < hash_size h"
  by (cases h) simp_all

text \<open>\<open>hmac.New(h, key)\<close>, everything written, \<open>Sum\<close>: both hashes have blocks of 64 bytes.\<close>

definition hmac :: "hash_alg \<Rightarrow> bytes \<Rightarrow> bytes \<Rightarrow> bytes" where
  "hmac h key msg =
     (let k = (if 64 < length key then hash_sum h key else key);
          block = k @ replicate (64 - length k) 0
      in hash_sum h (map ((XOR) 0x5C) block @ hash_sum h (map ((XOR) 0x36) block @ msg)))"

lemma length_hmac [simp]: "length (hmac h key msg) = hash_size h"
  by (simp add: hmac_def Let_def)

subsection \<open>Pseudo-random functions\<close>

definition splitPreMasterSecret :: "bytes \<Rightarrow> bytes \<times> bytes" where
  "splitPreMasterSecret secret = (take ((length secret + 1) div 2) secret, drop (length secret div 2) secret)"

text \<open>The loop of \<open>pHash\<close>: \<open>n\<close> bytes are still to be written, \<open>a\<close> is the running value.\<close>

function pHash_loop :: "nat \<Rightarrow> bytes \<Rightarrow> bytes \<Rightarrow> hash_alg \<Rightarrow> bytes \<Rightarrow> bytes" where
  "pHash_loop n secret seed h a =
     (if n = 0 then []
      else let b = hmac h secret (a @ seed)
           in take n b @ pHash_loop (n - length b) secret seed h (hmac h secret a))"
  by pat_completeness auto
termination pHash_loop
  by (relation "measure (\<lambda>(n, _). n)") (simp_all add: Let_def)

declare pHash_loop.simps [simp del]

definition pHash :: "nat \<Rightarrow> bytes \<Rightarrow> bytes \<Rightarrow> hash_alg \<Rightarrow> bytes" where
  "pHash n secret seed h = pHash_loop n secret seed h (hmac h secret seed)"

lemma length_pHash_loop [simp]: "length (pHash_loop n secret seed h a) = n"
  by (induction n secret seed h a rule: pHash_loop.induct)
     (subst pHash_loop.simps, simp add: Let_def min_def)

lemma length_pHash [simp]: "length (pHash n secret seed h) = n"
  by (simp add: pHash_def)

definition prf10 :: "nat \<Rightarrow> bytes \<Rightarrow> bytes \<Rightarrow> bytes \<Rightarrow> bytes" where
  "prf10 n secret label seed =
     (let labelAndSeed = label @ seed; (s1, s2) = splitPreMasterSecret secret
      in map2 (XOR) (pHash n s1 labelAndSeed MD5) (pHash n s2 labelAndSeed SHA1))"

lemma length_prf10 [simp]: "length (prf10 n secret label seed) = n"
  by (simp add: prf10_def splitPreMasterSecret_def Let_def)

text \<open>The loop of \<open>prf30\<close>: the array \<open>b\<close> has room for eleven letters, the next round panics.\<close>

function prf30_loop :: "nat \<Rightarrow> nat \<Rightarrow> bytes \<Rightarrow> bytes \<Rightarrow> (unit, bytes) outcome" where
  "prf30_loop n i secret seed =
     (if n = 0 then Ret []
      else if 11 \<le> i then Panic
      else let digest = sha1_sum (replicate (i + 1) (0x41 + of_nat i) @ secret @ seed);
               out = md5_sum (secret @ digest)
           in bind_outcome (prf30_loop (n - length out) (i + 1) secret seed) (\<lambda>r. Ret (take n out @ r)))"
  by pat_completeness auto
termination prf30_loop
  by (relation "measure (\<lambda>(n, _). n)") (simp_all add: Let_def)

declare prf30_loop.simps [simp del]

definition prf30 :: "nat \<Rightarrow> bytes \<Rightarrow> bytes \<Rightarrow> bytes \<Rightarrow> (unit, bytes) outcome" where
  "prf30 n secret label seed = prf30_loop n 0 secret seed"

lemma prf30_loop_returns:
  "n \<le> 16 * (11 - i) \<Longrightarrow> \<exists>r. prf30_loop n i secret seed = Ret r \<and> length r = n"
proof (induction n i secret seed rule: prf30_loop.induct)
  case (1 n i secret seed)
  show ?case
  proof (cases "n = 0")
    case False
    then have i: "\<not> 11 \<le> i" using 1(2) by auto
    have "n - 16 \<le> 16 * (11 - (i + 1))" using 1(2) i by auto
    then obtain r where "prf30_loop (n - 16) (i + 1) secret seed = Ret r" "length r = n - 16"
      using 1(1) [OF False i refl refl] by auto
    then show ?thesis using False i by (subst prf30_loop.simps) (auto simp: Let_def min_def)
  qed (simp add: prf30_loop.simps)
qed

lemma prf30_loop_panics:
  "16 * (11 - i) < n \<Longrightarrow> prf30_loop n i secret seed = Panic"
proof (induction n i secret seed rule: prf30_loop.induct)
  case (1 n i secret seed)
  show ?case
  proof (cases "11 \<le> i")
    case False
    have "n \<noteq> 0" "16 * (11 - (i + 1)) < n - 16" using 1(2) False by auto
    then show ?thesis
      using 1(1) [OF _ False refl refl] False by (subst prf30_loop.simps) (simp add: Let_def)
  qed (use 1(2) in \<open>simp add: prf30_loop.simps\<close>)
qed

text \<open>The function of SSL 3.0 has output for 176 bytes and panics exactly for more.\<close>

lemma prf30_panics_iff: "prf30 n secret label seed = Panic \<longleftrightarrow> 176 < n"
  using prf30_loop_returns [of n 0 secret seed] prf30_loop_panics [of 0 n secret seed]
  by (cases "176 < n") (auto simp: prf30_def)

lemma prf30_returns: "n \<le> 176 \<Longrightarrow> \<exists>r. prf30 n secret label seed = Ret r \<and> length r = n"
  using prf30_loop_returns [of n 0 secret seed] by (simp add: prf30_def)

subsection \<open>The keys of a connection\<close>

record connection_keys =
  clientMAC :: bytes
  serverMAC :: bytes
  clientKey :: bytes
  serverKey :: bytes
  clientIV :: bytes
  serverIV :: bytes

definition version_prf :: "u16 \<Rightarrow> nat \<Rightarrow> bytes \<Rightarrow> bytes \<Rightarrow> bytes \<Rightarrow> (unit, bytes) outcome" where
  "version_prf version n secret label seed =
     (if version = VersionSSL30 then prf30 n secret label seed else Ret (prf10 n secret label seed))"

definition keysFromMasterSecret ::
  "u16 \<Rightarrow> bytes \<Rightarrow> bytes \<Rightarrow> bytes \<Rightarrow> nat \<Rightarrow> nat \<Rightarrow> nat \<Rightarrow> (unit, connection_keys) outcome" where
  "keysFromMasterSecret version masterSecret clientRandom serverRandom macLen keyLen ivLen =
     (let seed = serverRandom @ clientRandom;
          n = 2 * macLen + 2 * keyLen + 2 * ivLen
      in bind_outcome (version_prf version n masterSecret (bytes_of ''key expansion'') seed) (\<lambda>keyMaterial.
         let m1 = drop macLen keyMaterial; m2 = drop macLen m1; m3 = drop keyLen m2;
             m4 = drop keyLen m3; m5 = drop ivLen m4
         in Ret \<lparr>clientMAC = take macLen keyMaterial, serverMAC = take macLen m1, clientKey = take keyLen m2,
                 serverKey = take keyLen m3, clientIV = take ivLen m4, serverIV = take ivLen m5\<rparr>))"

lemma version_prf_returns: "n \<le> 176 \<Longrightarrow> \<exists>r. version_prf version n secret label seed = Ret r \<and> length r = n"
  using prf30_returns [of n secret label seed] by (auto simp: version_prf_def)

text \<open>The key material of the cipher suite, 96 bytes, is within the bound, and it is cut into keys that do not overlap.\<close>

lemma keys_of_suite:
  "\<exists>k. keysFromMasterSecret version ms cr sr 16 16 16 = Ret k \<and>
     version_prf version 96 ms (bytes_of ''key expansion'') (sr @ cr) =
       Ret (clientMAC k @ serverMAC k @ clientKey k @ serverKey k @ clientIV k @ serverIV k) \<and>
     length (clientMAC k) = 16 \<and> length (serverMAC k) = 16 \<and> length (clientKey k) = 16 \<and> length (serverKey k) = 16"
proof -
  obtain r where r: "version_prf version 96 ms (bytes_of ''key expansion'') (sr @ cr) = Ret r" "length r = 96"
    using version_prf_returns [of 96] by fastforce
  have "r = take 16 r @ take 16 (drop 16 r) @ take 16 (drop 32 r) @ take 16 (drop 48 r) @ take 16 (drop 64 r) @
      take 16 (drop 80 r)"
    using r(2) by (intro nth_equalityI) (auto simp: nth_append)
  then show ?thesis using r by (simp add: keysFromMasterSecret_def Let_def)
qed

subsection \<open>The hash of the handshake\<close>

text \<open>The four hashes of a \<open>finishedHash\<close> are written the same bytes: it is kept as these.\<close>

record finishedHash =
  fh_version :: u16
  fh_written :: bytes

definition newFinishedHash :: "u16 \<Rightarrow> finishedHash" where
  "newFinishedHash version = \<lparr>fh_version = version, fh_written = []\<rparr>"

definition fh_Write :: "finishedHash \<Rightarrow> bytes \<Rightarrow> finishedHash" where
  "fh_Write h msg = h\<lparr>fh_written := fh_written h @ msg\<rparr>"

definition fh_Sum :: "finishedHash \<Rightarrow> bytes" where
  "fh_Sum h = md5_sum (fh_written h) @ sha1_sum (fh_written h)"

definition ssl30Pad1 :: bytes where "ssl30Pad1 = replicate 48 0x36"
definition ssl30Pad2 :: bytes where "ssl30Pad2 = replicate 48 0x5C"

definition finishedSum30 :: "bytes \<Rightarrow> bytes \<Rightarrow> bytes \<Rightarrow> bytes \<Rightarrow> bytes" where
  "finishedSum30 md5_written sha1_written masterSecret magic =
     (let md5Digest = md5_sum (md5_written @ magic @ masterSecret @ ssl30Pad1);
          md5Digest' = md5_sum (masterSecret @ ssl30Pad2 @ md5Digest);
          sha1Digest = sha1_sum (sha1_written @ magic @ masterSecret @ take 40 ssl30Pad1);
          sha1Digest' = sha1_sum (masterSecret @ take 40 ssl30Pad2 @ sha1Digest)
      in md5Digest' @ sha1Digest')"

definition serverSum :: "finishedHash \<Rightarrow> bytes \<Rightarrow> bytes" where
  "serverSum h masterSecret =
     (if fh_version h = VersionSSL30
      then finishedSum30 (fh_written h) (fh_written h) masterSecret [0x53, 0x52, 0x56, 0x52]
      else prf10 12 masterSecret (bytes_of ''server finished'') (fh_Sum h))"

lemma length_serverSum:
  "length (serverSum h ms) = (if fh_version h = VersionSSL30 then 36 else 12)"
  by (simp add: serverSum_def finishedSum30_def Let_def)

subsection \<open>Records\<close>

datatype macFunction = Tls10MAC bytes | Ssl30MAC bytes

definition macMD5 :: "u16 \<Rightarrow> bytes \<Rightarrow> macFunction" where
  "macMD5 version key = (if version = VersionSSL30 then Ssl30MAC key else Tls10MAC key)"

fun MAC :: "macFunction \<Rightarrow> bytes \<Rightarrow> bytes \<Rightarrow> bytes \<Rightarrow> bytes" where
  "MAC (Tls10MAC key) sq header data = hmac MD5 key (sq @ header @ data)"
| "MAC (Ssl30MAC key) sq header data =
     (let inner = md5_sum (key @ ssl30Pad1 @ sq @ take 1 header @ subslice 3 5 header @ data)
      in md5_sum (key @ ssl30Pad2 @ inner))"

lemma length_MAC [simp]: "length (MAC m sq header data) = 16"
  by (cases m) (simp_all add: Let_def)

definition encryptTLS :: "macFunction \<Rightarrow> rc4 \<Rightarrow> bytes \<Rightarrow> u64 \<Rightarrow> bytes \<Rightarrow> bytes \<times> u64 \<times> rc4" where
  "encryptTLS macFn cipher payload sq record_header =
     (let mac = MAC macFn (be64 sq) (take 5 record_header) payload;
          (cipher', body) = XORKeyStream cipher (payload @ mac);
          new_length = (of_nat (length body) :: u16)
      in (take 3 record_header @ be16 new_length @ body, sq + 1, cipher'))"

end
