(* ===== verification/TlsRecord.thy ===== *)
theory TlsRecord
  imports TlsCrypto
begin

text \<open>
  \<open>consoleTLSConn\<close> of \<open>nas/tls.go\<close>: the connection of a console after the handshake. A read collects a whole record from
  the segments the network delivers, decrypts it and keeps what the caller's buffer has no room for; a write encrypts
  its bytes as one record. The connection below is the list of the segments still to arrive, what was written, and how
  many writes succeed before one fails.
\<close>

subsection \<open>The connection\<close>

record conn =
  incoming :: "bytes list"
  outgoing :: "bytes list"
  writable :: nat
  is_open :: bool

definition conn_Read :: "nat \<Rightarrow> conn \<Rightarrow> conn \<times> bytes option" where
  "conn_Read n c =
     (if \<not> is_open c then (c, None)
      else case incoming c of
        [] \<Rightarrow> (c, None)
      | s # ss \<Rightarrow>
          if length s \<le> n then (c\<lparr>incoming := ss\<rparr>, Some s)
          else (c\<lparr>incoming := drop n s # ss\<rparr>, Some (take n s)))"

definition conn_Write :: "bytes \<Rightarrow> conn \<Rightarrow> conn \<times> bool" where
  "conn_Write b c =
     (if \<not> is_open c \<or> writable c = 0 then (c, False)
      else (c\<lparr>outgoing := outgoing c @ [b], writable := writable c - 1\<rparr>, True))"

definition conn_Close :: "conn \<Rightarrow> conn" where
  "conn_Close c = c\<lparr>is_open := False\<rparr>"

text \<open>What is still to be read, and a measure that every read decreases.\<close>

definition arriving :: "conn \<Rightarrow> bytes" where "arriving c = concat (incoming c)"
definition net_size :: "conn \<Rightarrow> nat" where "net_size c = length (arriving c) + length (incoming c)"

lemma conn_Read_Some:
  assumes "conn_Read n c = (c', Some b)" and "0 < n"
  shows "net_size c' < net_size c" "arriving c = b @ arriving c'" "is_open c'" "length b \<le> n"
    "outgoing c' = outgoing c" "writable c' = writable c"
  using assms by (auto simp: conn_Read_def net_size_def arriving_def split: if_splits list.splits)

lemma conn_Read_None:
  "conn_Read n c = (c', None) \<Longrightarrow> c' = c \<and> (is_open c \<longrightarrow> arriving c = [])"
  by (auto simp: conn_Read_def arriving_def split: if_splits list.splits)

subsection \<open>Collecting a record\<close>

datatype tls_error = ConnError | EOF | InvalidRecordType | InvalidTLSVersion | InvalidRecordLength
  | NonApplicationData | InvalidHeader | InvalidLength | DecryptError | InvalidSecret | UnexpectedBytes

function fill :: "nat \<Rightarrow> bytes \<Rightarrow> conn \<Rightarrow> bytes \<times> conn \<times> bool" where
  "fill n enc c =
     (if n \<le> length enc then (enc, c, True)
      else case conn_Read 1024 c of
        (c', None) \<Rightarrow> (enc, c', False)
      | (c', Some b) \<Rightarrow> fill n (enc @ b) c')"
  by pat_completeness auto
termination fill
  by (relation "measure (\<lambda>(n, enc, c). net_size c)") (auto dest: conn_Read_Some(1) [OF sym])

declare fill.simps [simp del]

definition fill_ok :: "nat \<Rightarrow> bytes \<Rightarrow> conn \<Rightarrow> bytes \<times> conn \<times> bool \<Rightarrow> bool" where
  "fill_ok n enc c = (\<lambda>(enc', c', ok).
     enc' @ arriving c' = enc @ arriving c \<and> is_open c' = is_open c \<and> (ok \<longleftrightarrow> n \<le> length enc') \<and>
     net_size c' \<le> net_size c \<and> (ok \<and> length enc < n \<longrightarrow> net_size c' < net_size c) \<and>
     (\<not> ok \<and> is_open c \<longrightarrow> arriving c' = []) \<and> outgoing c' = outgoing c \<and> writable c' = writable c)"

lemma fill_result: "fill_ok n enc c (fill n enc c)"
proof (induction n enc c rule: fill.induct)
  case (1 n enc c)
  obtain c' r where r: "conn_Read 1024 c = (c', r)" by (cases "conn_Read 1024 c")
  show ?case
  proof (cases "n \<le> length enc")
    case False
    show ?thesis
    proof (cases r)
      case None
      with r False conn_Read_None [of 1024 c c'] show ?thesis
        by (subst fill.simps) (auto simp: fill_ok_def)
    next
      case (Some b)
      with 1 [OF False r [symmetric]] have ih: "fill_ok n (enc @ b) c' (fill n (enc @ b) c')" by simp
      have f: "fill n enc c = fill n (enc @ b) c'" using r False Some by (subst fill.simps) simp
      have s: "net_size c' < net_size c" "arriving c = b @ arriving c'" "is_open c'" "outgoing c' = outgoing c"
        "writable c' = writable c"
        using conn_Read_Some [of 1024 c c' b] r Some by simp_all
      have "is_open c" using r Some by (auto simp: conn_Read_def split: if_splits)
      with ih s show ?thesis unfolding f by (auto simp: fill_ok_def split: prod.splits)
    qed
  qed (subst fill.simps, simp add: fill_ok_def)
qed

lemma fill_progress:
  assumes "fill n enc c = (enc', c', True)"
  shows "net_size c' < net_size c \<or> n \<le> length enc \<and> net_size c' = net_size c"
  using fill_result [of n enc c] assms by (auto simp: fill_ok_def)

definition record_header :: "u16 \<Rightarrow> bytes \<Rightarrow> (tls_error, u16) outcome" where
  "record_header version buf =
     (if buf ! 0 < 0x15 \<or> 0x17 < buf ! 0 then Err InvalidRecordType
      else if buf ! 1 \<noteq> 0x03 \<or> version = VersionTLS10 \<and> buf ! 2 \<noteq> 0x01 \<or> version = VersionSSL30 \<and> buf ! 2 \<noteq> 0x00
      then Err InvalidTLSVersion
      else let recordLength = (of_nat (uint_be (subslice 3 5 buf)) :: u16)
           in if recordLength < 17 \<or> 0x1000 < recordLength + 5 then Err InvalidRecordLength else Ret recordLength)"

function read_record :: "u16 \<Rightarrow> nat \<Rightarrow> bytes \<Rightarrow> conn \<Rightarrow> bytes \<times> conn \<times> (tls_error, u16) outcome" where
  "read_record version recordLength enc c =
     (case fill (recordLength + 5) enc c of
        (enc', c', False) \<Rightarrow> (enc', c', Err ConnError)
      | (enc', c', True) \<Rightarrow>
          (case record_header version enc' of
             Ret l \<Rightarrow> if unat l + 5 \<le> length enc' then (enc', c', Ret l) else read_record version (unat l) enc' c'
           | Err e \<Rightarrow> (enc', c', Err e)
           | Panic \<Rightarrow> (enc', c', Panic)))"
  by pat_completeness auto
termination read_record
  by (relation "measures [\<lambda>(_, _, _, c). net_size c, \<lambda>(_, l, enc, _). if length enc < l + 5 then 0 else 1]")
     (auto dest: fill_progress [OF sym])

declare read_record.simps [simp del]

subsection \<open>Reading and writing\<close>

record console_conn =
  Conn :: conn
  MacFn :: macFunction
  Cipher :: rc4
  ClientCipher :: rc4
  Version :: u16
  Seq :: u64
  decodedBuffer :: bytes
  encodedBuffer :: bytes

text \<open>
  \<open>Read\<close> into a buffer of \<open>n\<close> bytes. The bounds of the slices are 16-bit sums: with a length of 65531 or more they
  wrap to less than the start of the slice. The record is decrypted in place; its authentication code is dropped. An alert
  closes the connection, which is an error if it has been closed before.
\<close>

definition read_content :: "nat \<Rightarrow> console_conn \<Rightarrow> u16 \<Rightarrow> console_conn \<times> (tls_error, bytes) outcome" where
  "read_content n c recordLength =
     (let hi = 5 + recordLength in
      if hi < 5 then (c, Panic)
      else
        let (cipher, content) = XORKeyStream (ClientCipher c) (subslice 5 (unat hi) (encodedBuffer c));
            buf = take 5 (encodedBuffer c) @ content @ drop (unat hi) (encodedBuffer c);
            c = c\<lparr>ClientCipher := cipher, encodedBuffer := buf\<rparr>
        in if buf ! 0 \<noteq> 0x17
           then if buf ! 0 = 0x15 \<or> buf ! 5 = 0x01 \<or> buf ! 6 = 0x00 
                then (c\<lparr>Conn := conn_Close (Conn c)\<rparr>, Err (if is_open (Conn c) then EOF else ConnError))
                else (c, Err NonApplicationData)
           else (c\<lparr>decodedBuffer := (if n < unat (recordLength - 16) then subslice (5 + n) (unat (hi - 16)) buf else []),
                    encodedBuffer := drop (5 + unat recordLength) buf\<rparr>,
                 Ret (take n (subslice 5 (unat (hi - 16)) buf))))"

definition Read :: "nat \<Rightarrow> console_conn \<Rightarrow> console_conn \<times> (tls_error, bytes) outcome" where
  "Read n c =
     (if decodedBuffer c \<noteq> []
      then (c\<lparr>decodedBuffer := drop n (decodedBuffer c)\<rparr>, Ret (take n (decodedBuffer c)))
      else case read_record (Version c) 0 (encodedBuffer c) (Conn c) of
        (enc, cn, Ret recordLength) \<Rightarrow> read_content n (c\<lparr>encodedBuffer := enc, Conn := cn\<rparr>) recordLength
      | (enc, cn, Err e) \<Rightarrow> (c\<lparr>encodedBuffer := enc, Conn := cn\<rparr>, Err e)
      | (enc, cn, Panic) \<Rightarrow> (c\<lparr>encodedBuffer := enc, Conn := cn\<rparr>, Panic))"

text \<open>A write returns the number of bytes of the record, not of its argument.\<close>

definition Write :: "bytes \<Rightarrow> console_conn \<Rightarrow> console_conn \<times> (tls_error, nat) outcome" where
  "Write b c =
     (let (record_bytes, sq, cipher) =
            encryptTLS (MacFn c) (Cipher c) b (Seq c) ([0x17, 0x03, 0x01] @ be16 (of_nat (length b)));
          (cn, ok) = conn_Write record_bytes (Conn c)
      in (c\<lparr>Seq := sq, Cipher := cipher, Conn := cn\<rparr>, if ok then Ret (length record_bytes) else Err ConnError))"

subsection \<open>The stream a console sends\<close>

text \<open>
  The plain text of the whole records of application data at the front of a stream, which a \<open>Read\<close> is compared
  with: the length of the first record, and its content without the authentication code.
\<close>

definition arrived_record :: "u16 \<Rightarrow> bytes \<Rightarrow> u16 option" where
  "arrived_record version s =
     (if length s < 5 then None
      else case record_header version s of Ret l \<Rightarrow> if unat l + 5 \<le> length s then Some l else None | _ \<Rightarrow> None)"

definition whole_record :: "u16 \<Rightarrow> bytes \<Rightarrow> nat option" where
  "whole_record version s =
     (case arrived_record version s of
        Some l \<Rightarrow> if s ! 0 = 0x17 \<and> 5 \<le> 5 + l then Some (unat l) else None
      | None \<Rightarrow> None)"

function open_stream :: "u16 \<Rightarrow> rc4 \<Rightarrow> bytes \<Rightarrow> bytes" where
  "open_stream version cipher s =
     (case whole_record version s of
        None \<Rightarrow> []
      | Some l \<Rightarrow>
          (let (cipher', content) = XORKeyStream cipher (subslice 5 (5 + l) s)
           in take (l - 16) content @ open_stream version cipher' (drop (5 + l) s)))"
  by pat_completeness auto
termination open_stream
  by (relation "measure (\<lambda>(_, _, s). length s)") (auto simp: whole_record_def arrived_record_def split: if_splits outcome.splits option.splits)

declare open_stream.simps [simp del]

definition unread :: "console_conn \<Rightarrow> bytes" where
  "unread c = decodedBuffer c @ open_stream (Version c) (ClientCipher c) (encodedBuffer c @ arriving (Conn c))"

lemma record_header_prefix:
  assumes "5 \<le> length s"
  shows "record_header version (s @ t) = record_header version s"
proof -
  have "s \<noteq> []" using assms by auto
  with assms have "(s @ t) ! 0 = s ! 0" "(s @ t) ! 1 = s ! 1" "(s @ t) ! 2 = s ! 2" "subslice 3 5 (s @ t) = subslice 3 5 s"
    by (simp_all add: nth_append subslice_def)
  then show ?thesis by (simp only: record_header_def)
qed

lemma record_header_length: "record_header version s = Ret l \<Longrightarrow> 17 \<le> l"
  by (auto simp: record_header_def Let_def split: if_splits)

lemma record_header_not_Panic: "record_header version s \<noteq> Panic"
  by (simp add: record_header_def Let_def)

text \<open>The loop that collects a record: what it returns about the stream.\<close>

lemma read_record_result:
  assumes "read_record version l enc c = (enc', c', r)" and "is_open c"
    and "l = 0 \<or> 5 \<le> length enc \<and> record_header version enc = Ret (of_nat l) \<and> l < 65536"
  shows "enc' @ arriving c' = enc @ arriving c \<and> is_open c' \<and> outgoing c' = outgoing c \<and> writable c' = writable c \<and>
    (case r of Ret n \<Rightarrow> record_header version enc' = Ret n \<and> unat n + 5 \<le> length enc'
     | Err e \<Rightarrow> arrived_record version (enc @ arriving c) = None
     | Panic \<Rightarrow> False)"
  using assms
proof (induction version l enc c arbitrary: enc' c' r rule: read_record.induct)
  case (1 version l enc c)
  obtain enc1 c1 ok where f: "fill (l + 5) enc c = (enc1, c1, ok)" by (cases "fill (l + 5) enc c") auto
  have k: "enc1 @ arriving c1 = enc @ arriving c" "is_open c1" "ok \<longleftrightarrow> l + 5 \<le> length enc1"
    "\<not> ok \<Longrightarrow> arriving c1 = []" "outgoing c1 = outgoing c" "writable c1 = writable c"
    using fill_result [of "l + 5" enc c] f "1.prems"(2) by (auto simp: fill_ok_def)
  show ?case
  proof (cases ok)
    case False
    then have r: "enc' = enc1" "c' = c1" "r = Err ConnError"
      using "1.prems"(1) f by (subst (asm) read_record.simps, simp)+
    have e: "enc @ arriving c = enc1" "length enc1 < l + 5" using k False by simp_all
    have "arrived_record version enc1 = None"
    proof (cases "l = 0")
      case False
      then have "record_header version enc1 = Ret (of_nat l)"
        using "1.prems"(3) e(1) record_header_prefix [of enc version "arriving c"] by auto
      moreover have "unat (of_nat l :: u16) = l" using False "1.prems"(3) by (simp add: unat_of_nat take_bit_nat_eq_self)
      ultimately show ?thesis using e(2) by (simp add: arrived_record_def)
    qed (use e in \<open>simp add: arrived_record_def\<close>)
    then show ?thesis using r k False e by simp
  next
    case True
    have len: "5 \<le> length enc1" using True k(3) by simp
    have hd: "record_header version (enc @ arriving c) = record_header version enc1"
      using record_header_prefix [OF len, of version "arriving c1"] k(1) by simp
    show ?thesis
    proof (cases "record_header version enc1")
      case (Ret n)
      show ?thesis
      proof (cases "unat n + 5 \<le> length enc1")
        case False
        have "read_record version (unat n) enc1 c1 = (enc', c', r)"
          using "1.prems"(1) f True Ret False by (subst (asm) read_record.simps) simp
        from "1.IH" [OF f [symmetric] refl _ Ret False this k(2)] True len Ret show ?thesis
          using unsigned_less [of n] by (cases r) (auto simp: k(1,2,5,6))
      next
        case fits: True
        have "read_record version l enc c = (enc1, c1, Ret n)"
          using f True Ret fits by (subst read_record.simps) simp
        then have "enc' = enc1" "c' = c1" "r = Ret n" using "1.prems"(1) by simp_all
        then show ?thesis using k Ret fits by simp
      qed
    next
      case (Err e)
      have "read_record version l enc c = (enc1, c1, Err e)"
        using f True Err by (subst read_record.simps) simp
      then have "enc' = enc1" "c' = c1" "r = Err e" using "1.prems"(1) by simp_all
      moreover have "arrived_record version (enc @ arriving c) = None"
        by (simp add: arrived_record_def hd Err)
      ultimately show ?thesis using k(1,2,5,6) by simp
    next
      case Panic
      then show ?thesis by (simp add: record_header_not_Panic)
    qed
  qed
qed

lemma open_stream_None: "whole_record version s = None \<Longrightarrow> open_stream version cipher s = []"
  by (simp add: open_stream.simps)

lemma open_stream_Some:
  "whole_record version s = Some l \<Longrightarrow> XORKeyStream cipher (subslice 5 (5 + l) s) = (cipher', content) \<Longrightarrow>
   open_stream version cipher s = take (l - 16) content @ open_stream version cipher' (drop (5 + l) s)"
  by (simp add: open_stream.simps)

lemma u16_less: "unat (l :: u16) < 65536"
  using unsigned_less [of l, where ?'a = nat] by simp

lemma header_sum:
  fixes l :: u16
  shows "unat (5 + l) = (if unat l < 65531 then 5 + unat l else unat l - 65531)"
proof -
  have m: "unat (5 + l) = (5 + unat l) mod 65536" by (simp add: unat_word_ariths)
  show ?thesis
  proof (cases "unat l < 65531")
    case False
    then have "(5 + unat l) mod 65536 = 5 + unat l - 65536"
      using u16_less [of l] by (subst le_mod_geq) simp_all
    then show ?thesis using m False by simp
  qed (use m in simp)
qed

lemma header_sum_wraps: "5 + (l :: u16) < 5 \<longleftrightarrow> 65531 \<le> unat l"
  using header_sum [of l] u16_less [of l] by (auto simp: word_less_nat_alt split: if_splits)

lemma sum_no_wrap: "\<not> 5 + l < 5 \<Longrightarrow> unat (5 + (l :: u16)) = 5 + unat l"
  by (simp add: header_sum_wraps header_sum)

text \<open>The content of a whole record is returned, or kept for the next read.\<close>

lemma read_content_result:
  assumes "decodedBuffer c = []" and "record_header (Version c) (encodedBuffer c) = Ret l"
    and "unat l + 5 \<le> length (encodedBuffer c)"
  shows "case read_content n c l of
      (c', Ret p) \<Rightarrow> unread c = p @ unread c' \<and> (0 < n \<longrightarrow> p \<noteq> []) \<and> Conn c' = Conn c
    | (c', Err e) \<Rightarrow> unread c = []
    | (c', Panic) \<Rightarrow> unread c = [] \<and> 65531 \<le> unat l"
proof -
  let ?s = "encodedBuffer c @ arriving (Conn c)"
  have len: "5 \<le> length (encodedBuffer c)" using assms(3) by simp
  have hd: "record_header (Version c) ?s = Ret l" using record_header_prefix [OF len] assms(2) by simp
  have l17: "17 \<le> unat l" using record_header_length [OF assms(2)] by (simp add: word_le_nat_alt)
  have ne: "encodedBuffer c \<noteq> []" using len by auto
  then have nth0: "?s ! 0 = encodedBuffer c ! 0" by (simp add: nth_append)
  show ?thesis
  proof (cases "5 + l < 5")
    case True
    then have "whole_record (Version c) ?s = None" using hd by (auto simp: whole_record_def arrived_record_def not_le)
    moreover have "65531 \<le> unat l" using True by (simp only: header_sum_wraps)
    ultimately show ?thesis using True assms(1) by (simp add: read_content_def unread_def open_stream_None)
  next
    case False
    note hi = sum_no_wrap [OF False]
    obtain cipher' content where x: "XORKeyStream (ClientCipher c) (subslice 5 (5 + unat l) (encodedBuffer c)) = (cipher', content)"
      by (cases "XORKeyStream (ClientCipher c) (subslice 5 (5 + unat l) (encodedBuffer c))")
    have cl: "length content = unat l"
      using length_XORKeyStream [of "ClientCipher c" "subslice 5 (5 + unat l) (encodedBuffer c)"] x assms(3)
      by (simp add: length_subslice)
    show ?thesis
    proof (cases "encodedBuffer c ! 0 = 0x17")
      case app: False
      then have "whole_record (Version c) ?s = None" using hd nth0 by (simp add: whole_record_def arrived_record_def)
      then show ?thesis
        using False app x hi assms(1) ne by (simp add: read_content_def unread_def open_stream_None Let_def nth_append)
    next
      case True
      have w: "whole_record (Version c) ?s = Some (unat l)"
        using hd nth0 True assms(3) False by (simp add: whole_record_def arrived_record_def not_less)
      have "subslice 5 (5 + unat l) ?s = subslice 5 (5 + unat l) (encodedBuffer c)"
        using assms(3) by (simp add: subslice_def)
      with x have o: "open_stream (Version c) (ClientCipher c) ?s =
          take (unat l - 16) content @ open_stream (Version c) cipher' (drop (5 + unat l) ?s)"
        using open_stream_Some [OF w] by simp
      have hi16: "unat (l - 11) = unat l - 11" "unat (l - 16) = unat l - 16"
        using l17 by (simp_all add: unat_sub word_le_nat_alt)
      have split: "take (unat l - 16) content = take n content @ take (unat l - (16 + n)) (drop n content)"
        if "n \<le> unat l - 16"
      proof -
        have "n + (unat l - (16 + n)) = unat l - 16" using that l17 by simp
        then show ?thesis using take_add [of n "unat l - (16 + n)" content] by (simp only:)
      qed
      have "content \<noteq> []" using cl l17 by auto
      then show ?thesis
        using False True x hi assms o cl l17 ne len split
        by (simp add: read_content_def unread_def Let_def nth_append hi16 subslice_def min_def)
    qed
  qed
qed

lemma read_step:
  assumes "is_open (Conn c)"
  shows "case Read n c of
      (c', Ret p) \<Rightarrow> unread c = p @ unread c' \<and> (0 < n \<longrightarrow> p \<noteq> []) \<and> is_open (Conn c')
    | (c', Err e) \<Rightarrow> unread c = []
    | (c', Panic) \<Rightarrow> unread c = [] \<and> 65531 \<le> uint_be (subslice 3 5 (encodedBuffer c @ arriving (Conn c)))"
proof (cases "decodedBuffer c = []")
  case False
  then show ?thesis using assms by (simp add: Read_def unread_def)
next
  case True
  obtain enc cn r where r: "read_record (Version c) 0 (encodedBuffer c) (Conn c) = (enc, cn, r)"
    by (cases "read_record (Version c) 0 (encodedBuffer c) (Conn c)") auto
  note k = read_record_result [OF r assms]
  let ?c = "c\<lparr>encodedBuffer := enc, Conn := cn\<rparr>"
  have u: "unread ?c = unread c" using k by (simp add: unread_def)
  show ?thesis
  proof (cases r)
    case (Ret l)
    have l: "record_header (Version c) enc = Ret l" "unat l + 5 \<le> length enc" "is_open cn"
      "enc @ arriving cn = encodedBuffer c @ arriving (Conn c)" using k Ret by simp_all
    have "subslice 3 5 (encodedBuffer c @ arriving (Conn c)) = subslice 3 5 enc"
      using l(2) by (simp add: l(4) [symmetric] subslice_def)
    moreover have "unat l \<le> uint_be (subslice 3 5 enc)"
      using l(1) by (auto simp: record_header_def Let_def unat_of_nat take_bit_eq_mod split: if_splits)
    ultimately show ?thesis
      using read_content_result [of ?c l n] True r l(1-3) u by (auto simp: Read_def Ret split: prod.splits outcome.splits)
  qed (use k True r in \<open>simp_all add: Read_def unread_def open_stream_None whole_record_def\<close>)
qed

text \<open>Exactly when a read panics: a record of 65531 bytes or more, of any type, has arrived.\<close>

lemma read_panics_iff:
  assumes "is_open (Conn c)"
  shows "snd (Read n c) = Panic \<longleftrightarrow> decodedBuffer c = [] \<and>
    (\<exists>l. arrived_record (Version c) (encodedBuffer c @ arriving (Conn c)) = Some l \<and> 65531 \<le> unat l)"
proof (cases "decodedBuffer c = []")
  case False
  then show ?thesis by (simp add: Read_def)
next
  case True
  obtain enc cn r where r: "read_record (Version c) 0 (encodedBuffer c) (Conn c) = (enc, cn, r)"
    by (cases "read_record (Version c) 0 (encodedBuffer c) (Conn c)") auto
  note k = read_record_result [OF r assms]
  show ?thesis
  proof (cases r)
    case (Ret l)
    have l: "record_header (Version c) enc = Ret l" "unat l + 5 \<le> length enc"
      and e: "enc @ arriving cn = encodedBuffer c @ arriving (Conn c)" using k Ret by simp_all
    have "arrived_record (Version c) (enc @ arriving cn) = Some l"
      using l record_header_prefix [of enc "Version c" "arriving cn"] by (simp add: arrived_record_def)
    moreover have "snd (read_content n (c\<lparr>encodedBuffer := enc, Conn := cn\<rparr>) l) = Panic \<longleftrightarrow> 65531 \<le> unat l"
      by (simp add: read_content_def header_sum_wraps Let_def split: prod.splits)
    ultimately show ?thesis using True r Ret by (simp add: Read_def e)
  qed (use k True r in \<open>simp_all add: Read_def\<close>)
qed

text \<open>C7. Whatever the network's segments and the caller's buffer are, a read returns the next bytes of the stream the
  console sent, at least one if the buffer has room; it fails only when no whole record is left, and panics only
  on a record that announces 65531 bytes or more.
\<close>

theorem read_refines_stream:
  assumes "is_open (Conn c)"
  shows "case Read n c of
      (c', Ret p) \<Rightarrow> unread c = p @ unread c' \<and> (0 < n \<longrightarrow> p \<noteq> []) \<and> is_open (Conn c')
    | (c', Err e) \<Rightarrow> unread c = []
    | (c', Panic) \<Rightarrow> unread c = [] \<and> 65531 \<le> uint_be (subslice 3 5 (encodedBuffer c @ arriving (Conn c)))"
  by (rule read_step [OF assms])

subsection \<open>From the console to the server\<close>

text \<open>
  The console's side: it puts each text into a record with a tag of 16 bytes. The server never looks at the tag.
\<close>

fun client_stream :: "u16 \<Rightarrow> rc4 \<Rightarrow> (bytes \<times> bytes) list \<Rightarrow> bytes" where
  "client_stream version cipher [] = []"
| "client_stream version cipher ((payload, tag) # ps) =
     (let (cipher', body) = XORKeyStream cipher (payload @ tag)
      in 0x17 # be16 version @ be16 (of_nat (length body)) @ body @ client_stream version cipher' ps)"

definition sendable :: "bytes \<times> bytes \<Rightarrow> bool" where
  "sendable = (\<lambda>(payload, tag). length tag = 16 \<and> 1 \<le> length payload \<and> length payload \<le> 0xFEB)"

lemma header_of_record:
  assumes "version = VersionTLS10 \<or> version = VersionSSL30" and "17 \<le> length body" "length body \<le> 0xFFB"
  shows "whole_record version (0x17 # be16 version @ be16 (of_nat (length body)) @ body @ r) = Some (length body)"
proof -
  let ?l = "of_nat (length body) :: u16"
  have u: "unat ?l = length body" using assms(3) by (simp add: unat_of_nat take_bit_nat_eq_self)
  have l: "subslice 3 5 (0x17 # be16 version @ be16 ?l @ body @ r) = be16 ?l"
    using subslice_append [of "0x17 # be16 version" 3 "be16 ?l" 5 "body @ r"] by simp
  have w: "(of_nat (uint_be (be16 ?l)) :: u16) = ?l" by (simp add: uint_be_be16)
  have "\<not> ?l < 17" "\<not> 0x1000 < ?l + 5" "5 \<le> 5 + ?l"
    using assms(2,3) u header_sum [of ?l] by (simp_all add: word_less_nat_alt word_le_nat_alt add.commute [of ?l 5])
  then show ?thesis
    using assms(1) l w u
    by (auto simp: whole_record_def arrived_record_def record_header_def be16_def VersionTLS10_def VersionSSL30_def Let_def)
qed

lemma cut_record:
  assumes "length h = i"
  shows "subslice i (i + length b) (h @ b @ r) = b" "drop (i + length b) (h @ b @ r) = r"
  using assms by (auto simp: subslice_def)

lemma open_client_stream:
  assumes "version = VersionTLS10 \<or> version = VersionSSL30" and "list_all sendable ps"
  shows "open_stream version cipher (client_stream version cipher ps) = concat (map fst ps)"
  using assms(2)
proof (induction ps arbitrary: cipher)
  case Nil
  show ?case by (simp add: open_stream_None whole_record_def arrived_record_def)
next
  case (Cons p ps)
  obtain payload tag where p: "p = (payload, tag)" by (cases p)
  obtain cipher' body where x: "XORKeyStream cipher (payload @ tag) = (cipher', body)"
    by (cases "XORKeyStream cipher (payload @ tag)")
  have l: "length body = length payload + 16" "17 \<le> length body" "length body \<le> 0xFFB" "length tag = 16"
    using XORKeyStream_length [OF x] Cons.prems by (auto simp: p sendable_def)
  have undo: "XORKeyStream cipher body = (cipher', payload @ tag)"
    using XORKeyStream_twice [of cipher "payload @ tag"] x by simp
  let ?s = "0x17 # be16 version @ be16 (of_nat (length body)) @ body @ client_stream version cipher' ps"
  have w: "whole_record version ?s = Some (length body)" by (rule header_of_record [OF assms(1) l(2,3)])
  have "subslice 5 (5 + length body) ?s = body" "drop (5 + length body) ?s = client_stream version cipher' ps"
    using cut_record [of "0x17 # be16 version @ be16 (of_nat (length body))" 5] by simp_all
  with open_stream_Some [OF w] undo have "open_stream version cipher ?s =
      take (length body - 16) (payload @ tag) @ open_stream version cipher' (client_stream version cipher' ps)" by metis
  then show ?case using Cons l x by (simp add: p)
qed

text \<open>Reading with a sequence of buffers until the first error.\<close>

fun read_all :: "console_conn \<Rightarrow> nat list \<Rightarrow> console_conn \<times> bytes" where
  "read_all c [] = (c, [])"
| "read_all c (n # ns) =
     (case Read n c of (c', Ret p) \<Rightarrow> (let (c'', r) = read_all c' ns in (c'', p @ r)) | (c', _) \<Rightarrow> (c', []))"

lemma read_all_unread:
  "is_open (Conn c) \<Longrightarrow> list_all (\<lambda>n. 0 < n) ns \<Longrightarrow> length (unread c) \<le> length ns \<Longrightarrow> snd (read_all c ns) = unread c"
proof (induction c ns rule: read_all.induct)
  case (2 c n ns)
  show ?case
  proof (cases "Read n c")
    case (Pair c' r)
    show ?thesis
    proof (cases r)
      case (Ret p)
      have p: "unread c = p @ unread c'" "p \<noteq> []" "is_open (Conn c')"
        using read_step [OF 2(2), of n] 2(3) Pair Ret by simp_all
      have "length (unread c') \<le> length ns" using p(1,2) 2(4) by (cases p) auto
      then show ?thesis
        using 2(1) [OF Pair [symmetric] Ret p(3)] 2(3) Pair Ret p(1) by (auto split: prod.splits)
    qed (use read_step [OF 2(2), of n] Pair in simp_all)
  qed
qed simp

text \<open>
  What a console sends in records over the established connection is what the reads return, in order and completely,
  whatever the segments of the network and the sizes of the reader's buffers are.
\<close>

theorem console_data_received:
  assumes "is_open (Conn c)" and "Version c = VersionTLS10 \<or> Version c = VersionSSL30" and "list_all sendable ps"
    and "decodedBuffer c = []" and "encodedBuffer c @ concat (incoming (Conn c)) = client_stream (Version c) (ClientCipher c) ps"
    and "list_all (\<lambda>n. 0 < n) buffers" and "length (concat (map fst ps)) \<le> length buffers"
  shows "snd (read_all c buffers) = concat (map fst ps)"
proof -
  have "unread c = concat (map fst ps)"
    using assms(4,5) open_client_stream [OF assms(2,3)] by (simp add: unread_def arriving_def)
  then show ?thesis using read_all_unread [OF assms(1,6)] assms(7) by simp
qed

subsection \<open>From the server to the console\<close>

text \<open>
  The console reads records by the specification: it decrypts the content, cuts off the last 16 bytes and compares them
  with the code of the sequence number, the header with the length of the plain text, and the text.
\<close>

function client_open :: "macFunction \<Rightarrow> rc4 \<Rightarrow> u64 \<Rightarrow> bytes \<Rightarrow> bytes list option" where
  "client_open mac cipher sq s =
     (if s = [] then Some []
      else
        let l = uint_be (subslice 3 5 s);
            (cipher', content) = XORKeyStream cipher (subslice 5 (5 + l) s);
            payload = take (l - 16) content
        in if length s < 5 + l \<or> l < 16 \<or> s ! 0 \<noteq> 0x17 then None
           else if drop (l - 16) content \<noteq> MAC mac (be64 sq) (take 3 s @ be16 (of_nat (l - 16))) payload then None
           else map_option ((#) payload) (client_open mac cipher' (sq + 1) (drop (5 + l) s)))"
  by pat_completeness auto
termination client_open
  by (relation "measure (\<lambda>(_, _, _, s). length s)") auto

declare client_open.simps [simp del]

fun write_all :: "console_conn \<Rightarrow> bytes list \<Rightarrow> console_conn" where
  "write_all c [] = c"
| "write_all c (b # bs) = write_all (fst (Write b c)) bs"

lemma Write_result:
  assumes "is_open (Conn c)" and "0 < writable (Conn c)"
  obtains cipher' body where
    "XORKeyStream (Cipher c) (b @ MAC (MacFn c) (be64 (Seq c)) ([0x17, 0x03, 0x01] @ be16 (of_nat (length b))) b) = (cipher', body)"
    "length body = length b + 16"
    "Write b c = (c\<lparr>Seq := Seq c + 1, Cipher := cipher', Conn := (Conn c)\<lparr>outgoing := outgoing (Conn c) @
        [[0x17, 0x03, 0x01] @ be16 (of_nat (length body)) @ body], writable := writable (Conn c) - 1\<rparr>\<rparr>,
      Ret (length b + 21))"
proof -
  let ?m = "MAC (MacFn c) (be64 (Seq c)) ([0x17, 0x03, 0x01] @ be16 (of_nat (length b))) b"
  obtain cipher' body where x: "XORKeyStream (Cipher c) (b @ ?m) = (cipher', body)" by (cases "XORKeyStream (Cipher c) (b @ ?m)")
  have l: "length body = length b + 16" using XORKeyStream_length [OF x] by simp
  have "Write b c = (c\<lparr>Seq := Seq c + 1, Cipher := cipher', Conn := (Conn c)\<lparr>outgoing := outgoing (Conn c) @
        [[0x17, 0x03, 0x01] @ be16 (of_nat (length body)) @ body], writable := writable (Conn c) - 1\<rparr>\<rparr>,
      Ret (length b + 21))"
    using assms x l by (simp add: Write_def encryptTLS_def conn_Write_def be16_def Let_def)
  then show thesis using that x l by blast
qed

lemma client_open_record:
  assumes "length b < 65520"
    and "XORKeyStream cipher (b @ MAC mac (be64 sq) ([0x17, 0x03, 0x01] @ be16 (of_nat (length b))) b) = (cipher', body)"
  shows "client_open mac cipher sq ([0x17, 0x03, 0x01] @ be16 (of_nat (length body)) @ body @ r) =
    map_option ((#) b) (client_open mac cipher' (sq + 1) r)"
proof -
  let ?h = "[0x17, 0x03, 0x01] @ be16 (of_nat (length body))"
  let ?m = "MAC mac (be64 sq) ([0x17, 0x03, 0x01] @ be16 (of_nat (length b))) b"
  have l: "length body = length b + 16" using XORKeyStream_length [OF assms(2)] by simp
  have n: "uint_be (be16 (of_nat (length body))) = length body"
  proof -
    have "length body < 65536" using assms(1) l by simp
    then show ?thesis by (simp add: uint_be_be16 unat_of_nat take_bit_nat_eq_self)
  qed
  have undo: "XORKeyStream cipher body = (cipher', b @ ?m)"
    using XORKeyStream_twice [of cipher "b @ ?m"] assms(2) by simp
  have s: "subslice 3 5 (?h @ body @ r) = be16 (of_nat (length body))"
    using subslice_append [of "[0x17, 0x03, 0x01]" 3 "be16 (of_nat (length body))" 5 "body @ r"] by simp
  have cut: "subslice 5 (5 + length body) (?h @ body @ r) = body" "drop (5 + length body) (?h @ body @ r) = r"
    using cut_record [of ?h 5] by simp_all
  have "(?h @ body @ r) ! 0 = 0x17" "take 3 (?h @ body @ r) = [0x17, 0x03, 0x01]" "?h @ body @ r \<noteq> []"
    "length (?h @ body @ r) = 5 + length body + length r" by simp_all
  then show ?thesis
    using s n cut undo l by (subst append.assoc [symmetric], subst client_open.simps) (simp add: Let_def)
qed

lemma write_all_opened:
  assumes "is_open (Conn c)" and "length bs \<le> writable (Conn c)" and "list_all (\<lambda>b. length b < 65520) bs"
  shows "\<exists>recs. outgoing (Conn (write_all c bs)) = outgoing (Conn c) @ recs \<and>
    client_open (MacFn c) (Cipher c) (Seq c) (concat recs) = Some bs"
  using assms
proof (induction bs arbitrary: c)
  case Nil
  show ?case by (simp add: client_open.simps)
next
  case (Cons b bs)
  have w: "0 < writable (Conn c)" using Cons.prems(2) by simp
  obtain cipher' body where x:
    "XORKeyStream (Cipher c) (b @ MAC (MacFn c) (be64 (Seq c)) ([0x17, 0x03, 0x01] @ be16 (of_nat (length b))) b) = (cipher', body)"
    and r: "Write b c = (c\<lparr>Seq := Seq c + 1, Cipher := cipher', Conn := (Conn c)\<lparr>outgoing := outgoing (Conn c) @
        [[0x17, 0x03, 0x01] @ be16 (of_nat (length body)) @ body], writable := writable (Conn c) - 1\<rparr>\<rparr>,
      Ret (length b + 21))"
    using Write_result [OF Cons.prems(1) w] by metis
  let ?c = "fst (Write b c)"
  have "is_open (Conn ?c)" "length bs \<le> writable (Conn ?c)" "list_all (\<lambda>b. length b < 65520) bs"
    using Cons.prems r by simp_all
  from Cons.IH [OF this] obtain recs where recs: "outgoing (Conn (write_all ?c bs)) = outgoing (Conn ?c) @ recs"
    "client_open (MacFn ?c) (Cipher ?c) (Seq ?c) (concat recs) = Some bs" by blast
  have "client_open (MacFn c) (Cipher c) (Seq c) (concat (([0x17, 0x03, 0x01] @ be16 (of_nat (length body)) @ body) # recs)) =
      Some (b # bs)"
    using client_open_record [OF _ x, of "concat recs"] Cons.prems(3) recs(2) r by simp
  then show ?case using recs(1) r by (intro exI [of _ "([0x17, 0x03, 0x01] @ be16 (of_nat (length body)) @ body) # recs"]) simp
qed

text \<open>C31. What the server writes, in writes of less than 65520 bytes, a console that checks sequence numbers and codes accepts
  and reads back, write by write.
\<close>

theorem server_data_received:
  assumes "is_open (Conn c)" and "length bs \<le> writable (Conn c)" and "list_all (\<lambda>b. length b < 65520) bs"
  shows "\<exists>recs. outgoing (Conn (write_all c bs)) = outgoing (Conn c) @ recs \<and>
    client_open (MacFn c) (Cipher c) (Seq c) (concat recs) = Some bs"
  by (rule write_all_opened [OF assms])

text \<open>
  A longer write is one record as well, whose length does not fit the header: from 65520 bytes on the console is told a
  length that is less than the code alone. And every write returns 21 more than it was given, which \<open>io.Writer\<close> forbids.
\<close>

lemma long_write_lost:
  assumes "is_open (Conn c)" and "0 < writable (Conn c)" and "65520 \<le> length b" "length b < 65536"
  shows "\<exists>r. outgoing (Conn (fst (Write b c))) = outgoing (Conn c) @ [r] \<and>
    client_open (MacFn c) (Cipher c) (Seq c) r = None"
proof -
  obtain cipher' body where l: "length body = length b + 16"
    and r: "Write b c = (c\<lparr>Seq := Seq c + 1, Cipher := cipher', Conn := (Conn c)\<lparr>outgoing := outgoing (Conn c) @
        [[0x17, 0x03, 0x01] @ be16 (of_nat (length body)) @ body], writable := writable (Conn c) - 1\<rparr>\<rparr>,
      Ret (length b + 21))"
    using Write_result [OF assms(1,2)] by metis
  let ?r = "[0x17, 0x03, 0x01] @ be16 (of_nat (length body)) @ body"
  have "uint_be (subslice 3 5 ?r) = length body mod 65536"
    using subslice_append [of "[0x17, 0x03, 0x01]" 3 "be16 (of_nat (length body))" 5 body]
    by (simp add: uint_be_be16 unat_of_nat take_bit_eq_mod)
  moreover have "length body mod 65536 < 16" using l assms(3,4) by (subst le_mod_geq) simp_all
  ultimately have "client_open (MacFn c) (Cipher c) (Seq c) ?r = None"
    by (subst client_open.simps) (simp add: Let_def split: prod.splits)
  then show ?thesis using r by simp
qed

lemma write_count:
  "is_open (Conn c) \<Longrightarrow> 0 < writable (Conn c) \<Longrightarrow> snd (Write b c) = Ret (length b + 21)"
  using Write_result [of c b] by (metis snd_conv)

subsection \<open>Examples\<close>

definition sample_cipher :: rc4 where "sample_cipher = \<lparr>rc4_s = map of_nat [0..<256], rc4_i = 0, rc4_j = 0\<rparr>"

definition sample_console :: "bytes list \<Rightarrow> console_conn" where
  "sample_console ss = \<lparr>Conn = \<lparr>incoming = ss, outgoing = [], writable = 9, is_open = True\<rparr>, MacFn = Tls10MAC [1],
     Cipher = sample_cipher, ClientCipher = sample_cipher, Version = VersionTLS10, Seq = 1,
     decodedBuffer = [], encodedBuffer = []\<rparr>"

definition sample_stream :: bytes where
  "sample_stream = client_stream VersionTLS10 sample_cipher [([1, 2], replicate 16 0)]"

theorem read_refines_stream_witness:
  "case Read 5 (sample_console [sample_stream]) of
      (c', Ret p) \<Rightarrow> unread (sample_console [sample_stream]) = p @ unread c' \<and> (0 < (5::nat) \<longrightarrow> p \<noteq> []) \<and> is_open (Conn c')
    | (c', Err e) \<Rightarrow> unread (sample_console [sample_stream]) = []
    | (c', Panic) \<Rightarrow> unread (sample_console [sample_stream]) = [] \<and>
        65531 \<le> uint_be (subslice 3 5 (encodedBuffer (sample_console [sample_stream]) @ arriving (Conn (sample_console [sample_stream]))))"
  by (rule read_refines_stream) (simp add: sample_console_def)

theorem console_data_received_witness:
  "snd (read_all (sample_console [take 3 sample_stream, drop 3 sample_stream]) [1, 1]) = [1, 2]"
  using console_data_received [of "sample_console [take 3 sample_stream, drop 3 sample_stream]" "[([1, 2], replicate 16 0)]" "[1, 1]"]
  by (simp add: sample_console_def sample_stream_def sendable_def)

theorem server_data_received_witness:
  "\<exists>recs. outgoing (Conn (write_all (sample_console []) [[1, 2, 3], [4]])) = recs \<and>
    client_open (Tls10MAC [1]) sample_cipher 1 (concat recs) = Some [[1, 2, 3], [4]]"
  using server_data_received [of "sample_console []" "[[1, 2, 3], [4]]"] by (simp add: sample_console_def)

end
