(* ===== verification/TlsHandshake.thy ===== *)
theory TlsHandshake
  imports TlsRecord
begin

text \<open>
  The handshake of \<open>nas/tls.go\<close>: the records with the certificates, which of the two consoles is calling, and the two
  handshakes, TLS 1.0 for a Wii and SSL 3.0 for a DS, up to the encrypted connection of \<open>TlsRecord\<close>. The
  certificates themselves, the decryption with the RSA key and the random bytes are arguments. The two handshakes of the
  file differ in the numbers of \<open>layout\<close> only and share the definitions below.
\<close>

subsection \<open>Certificates\<close>

function replace_bytes :: "bytes \<Rightarrow> bytes \<Rightarrow> bytes \<Rightarrow> bytes" where
  "replace_bytes s old new =
     (case s of [] \<Rightarrow> []
      | c # r \<Rightarrow>
          if old \<noteq> [] \<and> take (length old) s = old then new @ replace_bytes (drop (length old) s) old new
          else c # replace_bytes r old new)"
  by pat_completeness auto
termination replace_bytes
  by (relation "measure (\<lambda>(s, _, _). length s)") auto

declare replace_bytes.simps [simp del]

definition be24 :: "u32 \<Rightarrow> bytes" where
  "be24 w = [ucast (drop_bit 16 w), ucast (drop_bit 8 w), ucast w]"

definition len16 :: "u32 \<Rightarrow> bytes" where
  "len16 w = [ucast (drop_bit 8 w), ucast w]"

definition setupExploitWii :: "bytes \<Rightarrow> bytes" where
  "setupExploitWii cert =
     (let certWii = replace_bytes cert [0x05, 0x00, 0x03, 0x81, 0x81] [0x04, 0x00, 0x03, 0x81, 0x81];
          certLenWii = (of_nat (length certWii) :: u32)
      in [0x16, 0x03, 0x01] @ len16 (certLenWii + 10) @ [0x0B] @ be24 (certLenWii + 6) @ be24 (certLenWii + 3) @
         be24 certLenWii @ certWii @ [0x16, 0x03, 0x01, 0x00, 0x04, 0x0E, 0x00, 0x00, 0x00])"

definition setupExploitDS :: "bytes \<Rightarrow> bytes \<Rightarrow> bytes" where
  "setupExploitDS certDS wiiCertBlock =
     (let certLenDS = (of_nat (length certDS) :: u32); certLenWii = of_nat (length wiiCertBlock)
      in [0x16, 0x03, 0x00] @ len16 (certLenDS + certLenWii + 13) @ [0x0B] @ be24 (certLenDS + certLenWii + 9) @
         be24 (certLenDS + certLenWii + 6) @ be24 certLenDS @ certDS @ be24 certLenWii @ wiiCertBlock @
         [0x16, 0x03, 0x00, 0x00, 0x04, 0x0E, 0x00, 0x00, 0x00])"

subsection \<open>Reading from the connection\<close>

function read_full :: "nat \<Rightarrow> bytes \<Rightarrow> conn \<Rightarrow> conn \<times> bytes option" where
  "read_full n got c =
     (if n \<le> length got then (c, Some got)
      else case conn_Read (n - length got) c of
        (c', None) \<Rightarrow> (c', None)
      | (c', Some b) \<Rightarrow> read_full n (got @ b) c')"
  by pat_completeness auto
termination read_full
  by (relation "measure (\<lambda>(n, got, c). net_size c)") (auto dest: conn_Read_Some(1) [OF sym])

declare read_full.simps [simp del]

text \<open>\<open>readBytes\<close>: the bytes consumed before are taken as they are.\<close>

function readBytes :: "bytes \<Rightarrow> bytes \<Rightarrow> conn \<Rightarrow> conn \<times> bytes \<times> tls_error option" where
  "readBytes expected consumed c =
     (if length expected \<le> length consumed then (c, take (length expected) consumed, None)
      else case conn_Read (length expected - length consumed) c of
        (c', None) \<Rightarrow> (c', consumed, Some ConnError)
      | (c', Some b) \<Rightarrow>
          if b \<noteq> take (length b) (drop (length consumed) expected) then (c', consumed @ b, Some UnexpectedBytes)
          else readBytes expected (consumed @ b) c')"
  by pat_completeness auto
termination readBytes
  by (relation "measure (\<lambda>(n, got, c). net_size c)") (auto dest: conn_Read_Some(1) [OF sym])

declare readBytes.simps [simp del]

definition dsClientHelloPrefix :: bytes where
  "dsClientHelloPrefix = [0x16, 0x03, 0x00, 0x00, 0x2F, 0x01, 0x00, 0x00, 0x2B, 0x03, 0x00]"

definition wiiClientHelloPrefix :: bytes where
  "wiiClientHelloPrefix =
     [0x80, 0x2B, 0x01, 0x03, 0x01, 0x00, 0x12, 0x00, 0x00, 0x00, 0x10, 0x00,
      0x00, 0x35, 0x00, 0x00, 0x2F, 0x00, 0x00, 0x0A, 0x00, 0x00, 0x09, 0x00,
      0x00, 0x05, 0x00, 0x00, 0x04]"

subsection \<open>The second flight of the console\<close>

record handshake_layout =
  hl_header_after :: nat \<comment> \<open>from here on the header of the key exchange is compared\<close>
  hl_header :: bytes
  hl_finish_header_at :: nat
  hl_finish_header :: bytes
  hl_length :: nat
  hl_secret_at :: nat
  hl_finish_at :: nat
  hl_finish_size :: nat \<comment> \<open>the client's Finished message without its code\<close>
  hl_finished :: bytes \<comment> \<open>header of the server's Finished message\<close>
  hl_verify :: nat

definition wii_layout :: handshake_layout where
  "wii_layout = \<lparr>hl_header_after = 0x0B,
     hl_header = [0x16, 0x03, 0x01, 0x00, 0x86, 0x10, 0x00, 0x00, 0x82, 0x00, 0x80],
     hl_finish_header_at = 0x8B,
     hl_finish_header = [0x14, 0x03, 0x01, 0x00, 0x01, 0x01, 0x16, 0x03, 0x01, 0x00, 0x20],
     hl_length = 0xB6, hl_secret_at = 0x0B, hl_finish_at = 0x96, hl_finish_size = 0x10,
     hl_finished = [0x14, 0x00, 0x00, 0x0C], hl_verify = 12\<rparr>"

definition ds_layout :: handshake_layout where
  "ds_layout = \<lparr>hl_header_after = 0x09,
     hl_header = [0x16, 0x03, 0x00, 0x00, 0x84, 0x10, 0x00, 0x00, 0x80],
     hl_finish_header_at = 0x89,
     hl_finish_header = [0x14, 0x03, 0x00, 0x00, 0x01, 0x01, 0x16, 0x03, 0x00, 0x00, 0x38],
     hl_length = 0xCC, hl_secret_at = 0x09, hl_finish_at = 0x94, hl_finish_size = 0x28,
     hl_finished = [0x14, 0x00, 0x00, 0x24], hl_verify = 36\<rparr>"

definition layout :: "u16 \<Rightarrow> handshake_layout" where
  "layout version = (if version = VersionSSL30 then ds_layout else wii_layout)"

lemma layout_short: "hl_length (layout version) < 0x1000"
  by (simp add: layout_def ds_layout_def wii_layout_def)

lemma flight_progress:
  assumes "(c', Some b) = conn_Read (0x1000 - length got) c"
    and "\<not> hl_length (layout version) < length got + length b"
  shows "net_size c' < net_size c"
  using assms(2) layout_short [of version] conn_Read_Some(1) [OF assms(1) [symmetric]] by simp

definition starts_with :: "bytes \<Rightarrow> bytes \<Rightarrow> bool" where
  "starts_with p s \<longleftrightarrow> take (length p) s = p"

text \<open>The buffer of 0x1000 bytes is zero where nothing has been read.\<close>

function read_flight :: "u16 \<Rightarrow> bytes \<Rightarrow> conn \<Rightarrow> conn \<times> (tls_error, bytes) outcome" where
  "read_flight version got c =
     (case conn_Read (0x1000 - length got) c of
        (c', None) \<Rightarrow> (c', Err ConnError)
      | (c', Some b) \<Rightarrow>
          (let l = layout version; got' = got @ b; index = length got'; buf = got' @ replicate (0x1000 - index) 0 in
           if hl_header_after l < index \<and> \<not> starts_with (hl_header l) buf then (c', Err InvalidHeader)
           else if 0x8B < index \<and> \<not> starts_with (hl_finish_header l) (drop (hl_finish_header_at l) buf)
           then (c', Err InvalidHeader)
           else if index = hl_length l then (c', Ret got')
           else if hl_length l < index then (c', Err InvalidLength)
           else read_flight version got' c'))"
  by pat_completeness auto
termination read_flight
  by (relation "measure (\<lambda>(v, got, c). net_size c)") (auto simp: Let_def dest: flight_progress)

declare read_flight.simps [simp del]

subsection \<open>The handshakes\<close>

text \<open>A slice expression whose bounds may be out of range.\<close>

definition slice_or_panic :: "nat \<Rightarrow> nat \<Rightarrow> 'a list \<Rightarrow> ('e, 'a list) outcome" where
  "slice_or_panic i j xs = (if i \<le> j \<and> j \<le> length xs then Ret (subslice i j xs) else Panic)"

definition or_panic :: "(unit, 'a) outcome \<Rightarrow> ('e, 'a) outcome" where
  "or_panic r = (case r of Ret a \<Rightarrow> Ret a | _ \<Rightarrow> Panic)"

definition version_bytes :: "u16 \<Rightarrow> bytes" where
  "version_bytes version = [0x03, if version = VersionSSL30 then 0x00 else 0x01]"

definition server_hello :: "u16 \<Rightarrow> bytes \<Rightarrow> bytes \<Rightarrow> bytes" where
  "server_hello version serverRandom certs =
     [0x16] @ version_bytes version @ [0x00, 0x2A, 0x02, 0x00, 0x00, 0x26] @ version_bytes version @
     serverRandom @ [0x00] @ [0x00, 0x04, 0x00] @ certs"

text \<open>What is hashed of the server's flight: the messages without the headers of their records.\<close>

definition hash_hello :: "finishedHash \<Rightarrow> bytes \<Rightarrow> nat \<Rightarrow> (tls_error, finishedHash) outcome" where
  "hash_hello h serverHello certs_length =
     (let done = 0x34 + certs_length - 14 in
      bind_outcome (slice_or_panic 0x5 0x2F serverHello) (\<lambda>hello.
      bind_outcome (slice_or_panic 0x34 done serverHello) (\<lambda>certs.
      bind_outcome (slice_or_panic (done + 5) (done + 5 + 4) serverHello) (\<lambda>hello_done.
      Ret (fh_Write (fh_Write (fh_Write h hello) certs) hello_done)))))"

type_synonym handshake_result = "(tls_error, macFunction \<times> rc4 \<times> rc4) outcome"

text \<open>From the decrypted secret to the server's Finished message. The console's Finished message is hashed, not checked.\<close>

definition finish_handshake ::
  "u16 \<Rightarrow> finishedHash \<Rightarrow> bytes \<Rightarrow> bytes \<Rightarrow> bytes \<Rightarrow> bytes \<Rightarrow> conn \<Rightarrow> conn \<times> handshake_result" where
  "finish_handshake version finishHash preMasterSecret clientRandom serverRandom clientFinish c =
     (let l = layout version in
      case bind_outcome (or_panic (version_prf version 48 preMasterSecret (bytes_of ''master secret'')
             (clientRandom @ take 0x20 serverRandom))) (\<lambda>masterSecret.
           bind_outcome (or_panic (keysFromMasterSecret version masterSecret clientRandom serverRandom 16 16 16)) (\<lambda>keys.
           bind_outcome (of_option InvalidSecret (NewCipher (serverKey keys))) (\<lambda>cipher.
           bind_outcome (of_option InvalidSecret (NewCipher (clientKey keys))) (\<lambda>clientCipher.
           Ret (masterSecret, macMD5 version (serverMAC keys), cipher, clientCipher))))) of
        Ret (masterSecret, macFn, cipher, clientCipher) \<Rightarrow>
          (let (clientCipher, clientFinish) = XORKeyStream clientCipher clientFinish;
               finishHash = fh_Write finishHash (take (hl_finish_size l) clientFinish);
               (c, ok) = conn_Write ([0x14] @ version_bytes version @ [0x00, 0x01, 0x01]) c
           in if \<not> ok then (c, Err ConnError)
              else
                let out = serverSum finishHash masterSecret;
                    message = hl_finished l @ take (hl_verify l) out;
                    (finishedRecord, _, cipher) =
                      encryptTLS macFn cipher message 0 ([0x16] @ version_bytes version @ be16 (of_nat (length message)));
                    (c, ok) = conn_Write finishedRecord c
                in if ok then (c, Ret (macFn, cipher, clientCipher)) else (c, Err ConnError))
      | Err e \<Rightarrow> (c, Err e)
      | Panic \<Rightarrow> (c, Panic))"

definition handshake_from ::
  "u16 \<Rightarrow> (bytes \<Rightarrow> bytes option) \<Rightarrow> bytes \<Rightarrow> bytes \<Rightarrow> bytes \<Rightarrow> bytes \<Rightarrow> conn \<Rightarrow> conn \<times> handshake_result" where
  "handshake_from version rsaKey certs serverRandom clientHello clientRandom c =
     (let l = layout version; serverHello = server_hello version serverRandom certs in
      case hash_hello (fh_Write (newFinishedHash version) clientHello) serverHello (length certs) of
        Ret finishHash \<Rightarrow>
          (case conn_Write serverHello c of
             (c, False) \<Rightarrow> (c, Err ConnError)
           | (c, True) \<Rightarrow>
               (case read_flight version [] c of
                  (c, Ret buf) \<Rightarrow>
                    (let secret_end = hl_secret_at l + 0x80;
                         finishHash = fh_Write finishHash (subslice 0x5 secret_end buf)
                     in case rsaKey (subslice (hl_secret_at l) secret_end buf) of
                          None \<Rightarrow> (c, Err DecryptError)
                        | Some preMasterSecret \<Rightarrow>
                            if length preMasterSecret \<noteq> 48 \<or> \<not> starts_with (version_bytes version) preMasterSecret
                            then (c, Err InvalidSecret)
                            else finish_handshake version finishHash preMasterSecret clientRandom serverRandom
                                   (subslice (hl_finish_at l) (hl_length l) buf) c)
                | (c, Err e) \<Rightarrow> (c, Err e)
                | (c, Panic) \<Rightarrow> (c, Panic)))
      | Err e \<Rightarrow> (c, Err e)
      | Panic \<Rightarrow> (c, Panic))"

record tls_env =
  rsaKeyWii :: "bytes \<Rightarrow> bytes option"
  serverCertsRecordWii :: bytes
  rsaKeyDS :: "bytes \<Rightarrow> bytes option"
  serverCertsRecordDS :: bytes

definition handleWiiTLSHandshake :: "tls_env \<Rightarrow> bytes \<Rightarrow> conn \<Rightarrow> conn \<times> handshake_result" where
  "handleWiiTLSHandshake env serverRandom c =
     (case read_full (0x2D - length wiiClientHelloPrefix) [] c of
        (c, None) \<Rightarrow> (c, Err ConnError)
      | (c, Some rest) \<Rightarrow>
          (let clientHello = wiiClientHelloPrefix @ rest in
           handshake_from VersionTLS10 (rsaKeyWii env) (serverCertsRecordWii env) serverRandom
             (subslice 0x2 0x2D clientHello) (replicate 16 0 @ subslice 0x1D (0x1D + 0x10) clientHello) c))"

definition handleDSSSLHandshake :: "tls_env \<Rightarrow> bytes \<Rightarrow> conn \<Rightarrow> conn \<times> handshake_result" where
  "handleDSSSLHandshake env serverRandom c =
     (case read_full (0x34 - length dsClientHelloPrefix) [] c of
        (c, None) \<Rightarrow> (c, Err ConnError)
      | (c, Some rest) \<Rightarrow>
          (let clientHello = dsClientHelloPrefix @ rest in
           handshake_from VersionSSL30 (rsaKeyDS env) (serverCertsRecordDS env) serverRandom
             (subslice 0x5 0x34 clientHello) (subslice 0x0B (0x0B + 0x20) clientHello) c))"

subsection \<open>The connection of a console\<close>

text \<open>A \<open>tlsConnection\<close> is the bare connection until a handshake has succeeded. A failed one is tried again.\<close>

datatype tlsConnection = Bare conn | Secure console_conn

definition establish :: "u16 \<Rightarrow> conn \<times> handshake_result \<Rightarrow> tlsConnection \<times> (tls_error, unit) outcome" where
  "establish version = (\<lambda>(c, r). case r of
     Ret (macFn, cipher, clientCipher) \<Rightarrow>
       (Secure \<lparr>Conn = c, MacFn = macFn, Cipher = cipher, ClientCipher = clientCipher, Version = version, Seq = 1,
          decodedBuffer = [], encodedBuffer = []\<rparr>, Ret ())
   | Err e \<Rightarrow> (Bare c, Err e)
   | Panic \<Rightarrow> (Bare c, Panic))"

definition handleTLSHandshake :: "tls_env \<Rightarrow> bytes \<Rightarrow> conn \<Rightarrow> tlsConnection \<times> (tls_error, unit) outcome" where
  "handleTLSHandshake env serverRandom c =
     (case readBytes dsClientHelloPrefix [] c of
        (c, _, None) \<Rightarrow> establish VersionSSL30 (handleDSSSLHandshake env serverRandom c)
      | (c, consumed, Some UnexpectedBytes) \<Rightarrow>
          (case readBytes wiiClientHelloPrefix consumed c of
             (c, _, None) \<Rightarrow> establish VersionTLS10 (handleWiiTLSHandshake env serverRandom c)
           | (c, _, Some e) \<Rightarrow> (Bare c, Err e))
      | (c, _, Some e) \<Rightarrow> (Bare c, Err e))"

definition tls_Read :: "tls_env \<Rightarrow> bytes \<Rightarrow> nat \<Rightarrow> tlsConnection \<Rightarrow> tlsConnection \<times> (tls_error, bytes) outcome" where
  "tls_Read env serverRandom n t =
     (case t of
        Secure cc \<Rightarrow> map_prod Secure id (Read n cc)
      | Bare c \<Rightarrow>
          (case handleTLSHandshake env serverRandom c of
             (Secure cc, Ret _) \<Rightarrow> map_prod Secure id (Read n cc)
           | (t', Err e) \<Rightarrow> (t', Err e)
           | (t', _) \<Rightarrow> (t', Panic)))"

definition tls_Write :: "tls_env \<Rightarrow> bytes \<Rightarrow> bytes \<Rightarrow> tlsConnection \<Rightarrow> tlsConnection \<times> (tls_error, nat) outcome" where
  "tls_Write env serverRandom b t =
     (case t of
        Secure cc \<Rightarrow> map_prod Secure id (Write b cc)
      | Bare c \<Rightarrow>
          (case handleTLSHandshake env serverRandom c of
             (Secure cc, Ret _) \<Rightarrow> map_prod Secure id (Write b cc)
           | (t', Err e) \<Rightarrow> (t', Err e)
           | (t', _) \<Rightarrow> (t', Panic)))"

definition tls_Close :: "tlsConnection \<Rightarrow> tlsConnection" where
  "tls_Close t = (case t of Bare c \<Rightarrow> Bare (conn_Close c) | Secure cc \<Rightarrow> Secure (cc\<lparr>Conn := conn_Close (Conn cc)\<rparr>))"

subsection \<open>Reading across segments\<close>

definition segments :: "bytes list \<Rightarrow> bool" where
  "segments ss \<longleftrightarrow> list_all (\<lambda>s. s \<noteq> []) ss"

lemma segments_Cons [simp]: "segments (s # ss) \<longleftrightarrow> s \<noteq> [] \<and> segments ss"
  by (simp add: segments_def)

lemma segments_Nil [simp]: "segments []"
  by (simp add: segments_def)

lemma segments_empty: "segments ss \<Longrightarrow> concat ss = [] \<longleftrightarrow> ss = []"
  by (cases ss) auto

text \<open>One read: a prefix of what the segments hold, and not an empty one.\<close>

lemma conn_Read_segment:
  assumes "is_open c" and "incoming c = ss @ rest" and "segments ss" and "ss \<noteq> []" and "0 < n"
  obtains b ss' where "conn_Read n c = (c\<lparr>incoming := ss' @ rest\<rparr>, Some b)" "concat ss = b @ concat ss'"
    "segments ss'" "b \<noteq> []" "length b \<le> n"
proof -
  obtain s ts where ss: "ss = s # ts" using assms(4) by (cases ss) auto
  show thesis
  proof (cases "length s \<le> n")
    case True
    then show thesis using that [of ts s] assms ss by (simp add: conn_Read_def)
  next
    case False
    then show thesis using that [of "drop n s # ts" "take n s"] assms ss by (auto simp: conn_Read_def)
  qed
qed

lemma read_full_segments:
  assumes "is_open c" and "incoming c = ss @ rest" and "segments ss" and "length (got @ concat ss) = n"
  shows "read_full n got c = (c\<lparr>incoming := rest\<rparr>, Some (got @ concat ss))"
  using assms
proof (induction n got c arbitrary: ss rule: read_full.induct)
  case (1 n got c)
  show ?case
  proof (cases "ss = []")
    case True
    then show ?thesis using 1(3,5) by (subst read_full.simps) auto
  next
    case False
    then have "concat ss \<noteq> []" using segments_empty [OF 1(4)] by simp
    then have lt: "\<not> n \<le> length got" "0 < n - length got" using 1(5) by (cases "concat ss", auto)+
    obtain b ss' where b: "conn_Read (n - length got) c = (c\<lparr>incoming := ss' @ rest\<rparr>, Some b)"
      "concat ss = b @ concat ss'" "segments ss'"
      using conn_Read_segment [OF 1(2-4) False lt(2)] by metis
    show ?thesis
      using 1(1) [OF lt(1) b(1) [symmetric] refl, of ss'] 1(2,5) b lt(1) by (subst read_full.simps) simp
  qed
qed

lemma readBytes_segments:
  assumes "is_open c" and "incoming c = ss @ rest" and "segments ss" and "length got \<le> length expected"
    and "concat ss = drop (length got) expected @ tail"
  shows "\<exists>ss'. readBytes expected got c = (c\<lparr>incoming := ss' @ rest\<rparr>, got @ drop (length got) expected, None) \<and>
    segments ss' \<and> concat ss' = tail"
  using assms
proof (induction expected got c arbitrary: ss rule: readBytes.induct)
  case (1 expected got c)
  show ?case
  proof (cases "length expected \<le> length got")
    case True
    then show ?thesis using 1(3-6) by (intro exI [of _ ss]) (subst readBytes.simps, auto)
  next
    case False
    then have ne: "ss \<noteq> []" "0 < length expected - length got" using 1(6) by (auto dest: arg_cong [of _ _ length])
    obtain b ss' where b: "conn_Read (length expected - length got) c = (c\<lparr>incoming := ss' @ rest\<rparr>, Some b)"
      "concat ss = b @ concat ss'" "segments ss'" "b \<noteq> []" "length b \<le> length expected - length got"
      using conn_Read_segment [OF 1(2-4) ne] by metis
    have p: "b = take (length b) (drop (length got) expected)"
    proof -
      have "take (length b) (b @ concat ss') = take (length b) (drop (length got) expected @ tail)"
        using 1(6) b(2) by simp
      then show ?thesis using b(5) by simp
    qed
    have c: "concat ss' = drop (length (got @ b)) expected @ tail"
    proof -
      have "drop (length b) (b @ concat ss') = drop (length b) (drop (length got) expected @ tail)"
        using 1(6) b(2) by simp
      then show ?thesis using b(5) by (simp add: add.commute)
    qed
    have "length (got @ b) \<le> length expected" using b(5) False by simp
    from 1(1) [OF False b(1) [symmetric] refl _ _ _ b(3) this c] p 1(2)
    obtain ss'' where s: "readBytes expected (got @ b) (c\<lparr>incoming := ss' @ rest\<rparr>) =
        (c\<lparr>incoming := ss'' @ rest\<rparr>, (got @ b) @ drop (length (got @ b)) expected, None)" "segments ss''" "concat ss'' = tail"
      by auto
    have "b @ drop (length got + length b) expected = drop (length got) expected"
    proof -
      have "take (length b) (drop (length got) expected) @ drop (length b) (drop (length got) expected) =
          drop (length got) expected" by (rule append_take_drop_id)
      then show ?thesis using p by (simp add: add.commute)
    qed
    then show ?thesis using s b(1) False p by (intro exI [of _ ss'']) (subst readBytes.simps, simp)
  qed
qed

text \<open>A first byte that differs ends the comparison after one read.\<close>

lemma readBytes_refused:
  assumes "is_open c" and "incoming c = ss @ rest" and "segments ss" and "concat ss = a # tail"
    and "expected = e # es" and "e \<noteq> a"
  shows "\<exists>b ss'. readBytes expected [] c = (c\<lparr>incoming := ss' @ rest\<rparr>, b, Some UnexpectedBytes) \<and>
    concat ss = b @ concat ss' \<and> segments ss' \<and> length b \<le> length expected"
proof -
  have ne: "ss \<noteq> []" "0 < length expected" using assms(4,5) by auto
  obtain b ss' where b: "conn_Read (length expected) c = (c\<lparr>incoming := ss' @ rest\<rparr>, Some b)"
    "concat ss = b @ concat ss'" "segments ss'" "b \<noteq> []" "length b \<le> length expected"
    using conn_Read_segment [OF assms(1-3) ne] by metis
  have "b \<noteq> take (length b) expected" using b(2,4) assms(4-6) by (cases b) auto
  then show ?thesis using b ne by (intro exI [of _ b] exI [of _ ss']) (subst readBytes.simps, auto)
qed

subsection \<open>Which segments of the second flight are accepted\<close>

definition well_formed_flight :: "u16 \<Rightarrow> bytes \<Rightarrow> bool" where
  "well_formed_flight version s \<longleftrightarrow> length s = hl_length (layout version) \<and> starts_with (hl_header (layout version)) s \<and>
     starts_with (hl_finish_header (layout version)) (drop (hl_finish_header_at (layout version)) s)"

text \<open>
  ChangeCipherSpec and the header of the Finished record are eleven bytes, from 0x8B for a Wii and from 0x89 for a DS. Both
  servers compare them as soon as more than 0x8B bytes are there, also if they are not there in full: a segment must not
  end after byte 0x8C and before the end of the eleven bytes, 0x96 and 0x94.
\<close>

fun good_split :: "u16 \<Rightarrow> nat \<Rightarrow> bytes list \<Rightarrow> bool" where
  "good_split version n [] = True"
| "good_split version n (s # ss) =
     (let i = n + length s in
      (i \<le> 0x8B \<or> hl_finish_header_at (layout version) + 11 \<le> i) \<and> good_split version i ss)"

text \<open>The places where segments end, counted from the start of the first\<close>

fun cuts :: "nat \<Rightarrow> bytes list \<Rightarrow> nat list" where
  "cuts n [] = []"
| "cuts n (s # ss) = (n + length s) # cuts (n + length s) ss"

lemma good_split_cuts:
  "good_split v n ss \<longleftrightarrow> (\<forall>i \<in> set (cuts n ss). i < 0x8C \<or> (if v = VersionSSL30 then 0x94 else 0x96) \<le> i)"
proof (induction ss arbitrary: n)
  case (Cons s ss)
  have "hl_finish_header_at (layout v) + 11 = (if v = VersionSSL30 then 0x94 else 0x96)"
    by (simp add: layout_def ds_layout_def wii_layout_def)
  then show ?case using Cons.IH by (auto simp: Let_def)
qed simp

lemma layout_facts:
  "length (hl_header (layout v)) \<le> hl_header_after (layout v)" "length (hl_finish_header (layout v)) = 11"
  "last (hl_finish_header (layout v)) \<noteq> 0" "hl_finish_header_at (layout v) \<le> 0x8B"
  "hl_finish_header_at (layout v) + 11 = hl_finish_at (layout v)" "hl_finish_at (layout v) \<le> hl_length (layout v)"
  "hl_secret_at (layout v) = length (hl_header (layout v))" "hl_secret_at (layout v) + 0x80 = hl_finish_header_at (layout v)"
  "hl_finish_at (layout v) + hl_finish_size (layout v) + 16 = hl_length (layout v)" "5 \<le> hl_secret_at (layout v)"
  by (simp_all add: layout_def ds_layout_def wii_layout_def)

lemma starts_with_prefix:
  assumes "starts_with p s" and "take n b = take n s" and "length p \<le> n"
  shows "starts_with p b"
proof -
  have "take (length p) (take n b) = take (length p) (take n s)" using assms(2) by simp
  then show ?thesis using assms(1,3) by (simp add: starts_with_def min_def)
qed

text \<open>The buffer holds the bytes read so far and zeros: a header is found there exactly when it has arrived.\<close>

lemma header_arrived:
  assumes "starts_with p (drop i s)" and "length p = 11" "last p \<noteq> 0" and "got @ r = s" and "i \<le> length got"
    and "length got + k \<ge> i + 11"
  shows "starts_with p (drop i (got @ replicate k 0)) \<longleftrightarrow> i + 11 \<le> length got"
proof
  assume "i + 11 \<le> length got"
  then show "starts_with p (drop i (got @ replicate k 0))"
    using assms(1,2,4) by (intro starts_with_prefix [OF assms(1), of 11]) auto
next
  assume st: "starts_with p (drop i (got @ replicate k 0))"
  show "i + 11 \<le> length got"
  proof (rule ccontr)
    assume n: "\<not> i + 11 \<le> length got"
    have "p ! 10 = take 11 (drop i (got @ replicate k 0)) ! 10" using st assms(2) by (simp add: starts_with_def)
    also have "\<dots> = (got @ replicate k 0) ! (i + 10)"
      using assms(5) by (simp del: take_append drop_append add: nth_drop)
    also have "\<dots> = 0" using n assms(6) by (simp add: nth_append)
    finally have "p ! 10 = 0" .
    moreover have "p \<noteq> []" using assms(2) by auto
    ultimately show False using assms(2,3) last_conv_nth [of p] by simp
  qed
qed

lemma read_flight_step:
  assumes "well_formed_flight v s" and "got @ b @ r = s" and "conn_Read (0x1000 - length got) c = (c', Some b)"
  shows "read_flight v got c =
    (if 0x8B < length (got @ b) \<and> length (got @ b) < hl_finish_header_at (layout v) + 11 then (c', Err InvalidHeader)
     else if r = [] then (c', Ret (got @ b)) else read_flight v (got @ b) c')"
proof -
  let ?l = "layout v" and ?g = "got @ b"
  note lf = layout_facts [of v]
  have len: "length s = hl_length ?l" using assms(1) by (simp add: well_formed_flight_def)
  have g: "?g @ r = s" using assms(2) by simp
  then have le: "length ?g + length r = hl_length ?l" using len by (metis length_append)
  have sh: "length ?g \<le> 0x1000" using le layout_short [of v] by simp
  let ?buf = "?g @ replicate (0x1000 - length ?g) 0"
  have h1: "starts_with (hl_header ?l) ?buf" if "hl_header_after ?l < length ?g"
  proof (rule starts_with_prefix [of _ s "hl_header_after ?l"])
    show "starts_with (hl_header ?l) s" using assms(1) by (simp add: well_formed_flight_def)
    show "take (hl_header_after ?l) ?buf = take (hl_header_after ?l) s" using that by (simp add: g [symmetric])
  qed (use lf in simp)
  have h2: "starts_with (hl_finish_header ?l) (drop (hl_finish_header_at ?l) ?buf) \<longleftrightarrow>
      hl_finish_header_at ?l + 11 \<le> length ?g" if "0x8B < length ?g"
    by (rule header_arrived [of _ _ s _ r]) (use assms(1) lf g that sh layout_short [of v] in \<open>auto simp: well_formed_flight_def\<close>)
  have eq: "length ?g = hl_length ?l \<longleftrightarrow> r = []" "\<not> hl_length ?l < length ?g" using le by auto
  show ?thesis
    using h1 h2 eq assms(3) by (subst read_flight.simps) (auto simp: Let_def)
qed

lemma read_flight_segments:
  assumes "well_formed_flight v s" and "is_open c" and "incoming c = ss @ rest" and "segments ss" and "ss \<noteq> []"
    and "got @ concat ss = s"
  shows "if good_split v (length got) ss then read_flight v got c = (c\<lparr>incoming := rest\<rparr>, Ret s)
    else snd (read_flight v got c) = Err InvalidHeader"
  using assms(2-)
proof (induction ss arbitrary: got c)
  case (Cons b ss)
  have len: "length s = hl_length (layout v)" using assms(1) by (simp add: well_formed_flight_def)
  then have fits: "length got + length b \<le> hl_length (layout v)" using arg_cong [OF Cons.prems(5), of length] by simp
  have r: "conn_Read (0x1000 - length got) c = (c\<lparr>incoming := ss @ rest\<rparr>, Some b)"
  proof -
    have "length b \<le> 0x1000 - length got" using fits layout_short [of v] by linarith
    then show ?thesis using Cons.prems(1,2) by (simp add: conn_Read_def)
  qed
  have s: "got @ b @ concat ss = s" "(got @ b) @ concat ss = s" using Cons.prems(5) by simp_all
  note st = read_flight_step [OF assms(1) s(1) r]
  have e: "concat ss = [] \<longleftrightarrow> ss = []" using segments_empty Cons.prems(3) by simp
  show ?case
  proof (cases "ss = []")
    case True
    then show ?thesis using st s by (auto simp: Let_def)
  next
    case False
    have o: "is_open (c\<lparr>incoming := ss @ rest\<rparr>)" "incoming (c\<lparr>incoming := ss @ rest\<rparr>) = ss @ rest" "segments ss"
      using Cons.prems(1,3) by simp_all
    from Cons.IH [OF o False s(2)] show ?thesis using st e False by (auto simp: Let_def)
  qed
qed simp

subsection \<open>The messages a console reads off the server's flight\<close>

function record_bodies :: "bytes \<Rightarrow> bytes" where
  "record_bodies s =
     (if length s < 5 then []
      else let l = uint_be (subslice 3 5 s) in subslice 5 (5 + l) s @ record_bodies (drop (5 + l) s))"
  by pat_completeness auto
termination record_bodies
  by (relation "measure length") auto

declare record_bodies.simps [simp del]

lemma record_bodies_cons:
  assumes "length h = 5" and "uint_be (drop 3 h) = length b"
  shows "record_bodies (h @ b @ r) = b @ record_bodies r"
proof -
  have "subslice 3 5 (h @ b @ r) = drop 3 h" using assms(1) by (simp add: subslice_def)
  then show ?thesis
    using assms cut_record [OF assms(1), of b r] by (subst record_bodies.simps) (simp add: Let_def)
qed

lemma record_bodies_Nil [simp]: "record_bodies [] = []"
  by (simp add: record_bodies.simps)

text \<open>The certificates the two set-ups write, if they fit one record.\<close>

definition server_certs :: "u16 \<Rightarrow> bytes \<Rightarrow> bool" where
  "server_certs version certs \<longleftrightarrow>
     (if version = VersionSSL30
      then \<exists>certDS certWii. certs = setupExploitDS certDS certWii \<and> length certDS + length certWii + 13 < 65536
      else \<exists>cert. certs = setupExploitWii cert \<and> length cert + 10 < 65536)"

lemma length_replace_bytes:
  "length new = length old \<Longrightarrow> length (replace_bytes s old new) = length s"
proof (induction s old new rule: replace_bytes.induct)
  case (1 s old new)
  show ?case
  proof (cases s)
    case (Cons c r)
    show ?thesis
    proof (cases "old \<noteq> [] \<and> take (length old) s = old")
      case True
      then have "length old \<le> length s" by (metis length_take min.bounded_iff order_refl)
      then show ?thesis using 1(1) [OF Cons True 1(3)] 1(3) True by (subst replace_bytes.simps) (simp add: Cons)
    qed (use 1(2) [OF Cons] 1(3) in \<open>subst replace_bytes.simps, auto simp: Cons\<close>)
  qed (simp add: replace_bytes.simps)
qed

lemma uint_be_len16: "unat w < 65536 \<Longrightarrow> uint_be (len16 w) = unat w"
  by (simp add: uint_be_def len16_def unat_drop_div unat_ucast_drop_u8 unat_ucast_u8 base256_2)

lemma length_cert_parts [simp]: "length (len16 w) = 2" "length (be24 w) = 3"
  by (simp_all add: len16_def be24_def)

lemma server_certs_split:
  assumes "server_certs version certs"
  shows "\<exists>h m h' d. certs = h @ m @ h' @ d \<and> length h = 5 \<and> uint_be (drop 3 h) = length m \<and> length h' = 5 \<and>
    uint_be (drop 3 h') = length d \<and> length d = 4"
proof -
  have u: "unat (of_nat n :: u32) = n" if "n < 65536" for n using that by (simp add: unat_of_nat take_bit_nat_eq_self)
  have d: "uint_be [0x00, 0x04] = 4" by (simp add: uint_be_def)
  show ?thesis
  proof (cases "version = VersionSSL30")
    case True
    then obtain a b where ab: "certs = setupExploitDS a b" "length a + length b + 13 < 65536"
      using assms by (auto simp: server_certs_def)
    let ?n = "of_nat (length a) + of_nat (length b) :: u32"
    have "?n + 13 = of_nat (length a + length b + 13)" by simp
    then have "uint_be (len16 (?n + 13)) = length a + length b + 13" using u ab(2) by (simp only: uint_be_len16)
    then show ?thesis
      using d by (intro exI [of _ "[0x16, 0x03, 0x00] @ len16 (?n + 13)"]
          exI [of _ "[0x0B] @ be24 (?n + 9) @ be24 (?n + 6) @ be24 (of_nat (length a)) @ a @ be24 (of_nat (length b)) @ b"]
          exI [of _ "[0x16, 0x03, 0x00, 0x00, 0x04]"] exI [of _ "[0x0E, 0x00, 0x00, 0x00]"])
        (simp add: ab(1) setupExploitDS_def Let_def)
  next
    case False
    then obtain a where a: "certs = setupExploitWii a" "length a + 10 < 65536"
      using assms by (auto simp: server_certs_def)
    define c where "c = replace_bytes a [0x05, 0x00, 0x03, 0x81, 0x81] [0x04, 0x00, 0x03, 0x81, 0x81]"
    have l: "length c = length a" unfolding c_def by (rule length_replace_bytes) simp
    let ?n = "of_nat (length c) :: u32"
    have "?n + 10 = of_nat (length a + 10)" using l by simp
    then have "uint_be (len16 (?n + 10)) = length a + 10" using u a(2) by (simp only: uint_be_len16)
    then show ?thesis
      using d l by (intro exI [of _ "[0x16, 0x03, 0x01] @ len16 (?n + 10)"]
          exI [of _ "[0x0B] @ be24 (?n + 6) @ be24 (?n + 3) @ be24 ?n @ c"]
          exI [of _ "[0x16, 0x03, 0x01, 0x00, 0x04]"] exI [of _ "[0x0E, 0x00, 0x00, 0x00]"])
        (simp add: a(1) setupExploitWii_def c_def [symmetric] Let_def)
  qed
qed

text \<open>The bytes the server hashes of its flight are the messages a console reads off it.\<close>

lemma hash_hello_bodies:
  assumes "server_certs version certs" and "length serverRandom = 32"
  shows "hash_hello h (server_hello version serverRandom certs) (length certs) =
    Ret (fh_Write h (record_bodies (server_hello version serverRandom certs)))"
proof -
  obtain h1 m h2 d where c: "certs = h1 @ m @ h2 @ d" "length h1 = 5" "uint_be (drop 3 h1) = length m" "length h2 = 5"
    "uint_be (drop 3 h2) = length d" "length d = 4"
    using server_certs_split [OF assms(1)] by blast
  define h0 where "h0 = [0x16] @ version_bytes version @ [0x00, 0x2A]"
  define hello where "hello = [0x02, 0x00, 0x00, 0x26] @ version_bytes version @ serverRandom @ [0x00] @ [0x00, 0x04, 0x00]"
  have s: "server_hello version serverRandom certs = h0 @ hello @ h1 @ m @ h2 @ d"
    by (simp add: server_hello_def h0_def hello_def c(1))
  have l: "length h0 = 5" "length hello = 42" "uint_be (drop 3 h0) = length hello"
    using assms(2) by (simp_all add: h0_def hello_def version_bytes_def uint_be_def)
  have b: "record_bodies (h0 @ hello @ h1 @ m @ h2 @ d) = hello @ m @ d"
    using record_bodies_cons [OF l(1,3)] record_bodies_cons [OF c(2,3)] record_bodies_cons [OF c(4,5), of "[]"] by simp
  have "slice_or_panic 0x5 0x2F (h0 @ hello @ h1 @ m @ h2 @ d) = (Ret hello :: (tls_error, bytes) outcome)"
    using l by (simp add: slice_or_panic_def subslice_def)
  moreover have "slice_or_panic 0x34 (0x34 + length certs - 14) (h0 @ hello @ h1 @ m @ h2 @ d) = (Ret m :: (tls_error, bytes) outcome)"
    using l c by (simp add: slice_or_panic_def subslice_def)
  moreover have "slice_or_panic (0x34 + length certs - 14 + 5) (0x34 + length certs - 14 + 5 + 4) (h0 @ hello @ h1 @ m @ h2 @ d) = (Ret d :: (tls_error, bytes) outcome)"
    using l c by (simp add: slice_or_panic_def subslice_def)
  ultimately show ?thesis by (simp add: hash_hello_def s b fh_Write_def Let_def)
qed

subsection \<open>A console that follows the protocol\<close>

definition hello_message :: "u16 \<Rightarrow> bytes \<Rightarrow> bytes" where
  "hello_message version hello = drop (if version = VersionSSL30 then 5 else 2) hello"

definition hello_random :: "u16 \<Rightarrow> bytes \<Rightarrow> bytes" where
  "hello_random version hello =
     (if version = VersionSSL30 then subslice 0x0B 0x2B hello else replicate 16 0 @ subslice 0x1D 0x2D hello)"

definition good_hello :: "u16 \<Rightarrow> bytes \<Rightarrow> bool" where
  "good_hello version hello \<longleftrightarrow>
     (if version = VersionSSL30 then length hello = 0x34 \<and> starts_with dsClientHelloPrefix hello
      else length hello = 0x2D \<and> starts_with wiiClientHelloPrefix hello)"

definition rsa_of :: "u16 \<Rightarrow> tls_env \<Rightarrow> bytes \<Rightarrow> bytes option" where
  "rsa_of version env = (if version = VersionSSL30 then rsaKeyDS env else rsaKeyWii env)"

definition certs_of :: "u16 \<Rightarrow> tls_env \<Rightarrow> bytes" where
  "certs_of version env = (if version = VersionSSL30 then serverCertsRecordDS env else serverCertsRecordWii env)"

text \<open>The secret it draws, encrypted for the server's key, and the hello it starts with.\<close>

definition honest :: "u16 \<Rightarrow> tls_env \<Rightarrow> bytes \<Rightarrow> bytes \<Rightarrow> bytes \<Rightarrow> bytes \<Rightarrow> bool" where
  "honest version env serverRandom hello secret encrypted \<longleftrightarrow>
     (version = VersionTLS10 \<or> version = VersionSSL30) \<and> good_hello version hello \<and> length serverRandom = 32 \<and>
     server_certs version (certs_of version env) \<and> rsa_of version env encrypted = Some secret \<and>
     length encrypted = 0x80 \<and> length secret = 48 \<and> starts_with (version_bytes version) secret"

text \<open>The master secret, the keys and the two ciphers it derives.\<close>

definition client_secrets :: "u16 \<Rightarrow> bytes \<Rightarrow> bytes \<Rightarrow> bytes \<Rightarrow> (bytes \<times> connection_keys \<times> rc4 \<times> rc4) option" where
  "client_secrets version secret hello serverRandom =
     (case version_prf version 48 secret (bytes_of ''master secret'') (hello_random version hello @ serverRandom) of
        Ret ms \<Rightarrow>
          (case keysFromMasterSecret version ms (hello_random version hello) serverRandom 16 16 16 of
             Ret k \<Rightarrow>
               (case (NewCipher (clientKey k), NewCipher (serverKey k)) of
                  (Some w, Some r) \<Rightarrow> Some (ms, k, w, r) | _ \<Rightarrow> None)
           | _ \<Rightarrow> None)
      | _ \<Rightarrow> None)"

definition second_flight :: "u16 \<Rightarrow> bytes \<Rightarrow> bytes \<Rightarrow> bytes" where
  "second_flight version encrypted finish =
     hl_header (layout version) @ encrypted @ hl_finish_header (layout version) @ finish"

text \<open>The messages it has sent and received when the server's Finished message arrives.\<close>

definition transcript :: "u16 \<Rightarrow> bytes \<Rightarrow> bytes \<Rightarrow> bytes \<Rightarrow> bytes \<Rightarrow> finishedHash" where
  "transcript version hello server_flight encrypted message =
     \<lparr>fh_version = version, fh_written = hello_message version hello @ record_bodies server_flight @
        drop 5 (hl_header (layout version)) @ encrypted @ message\<rparr>"

text \<open>It decrypts the server's Finished record, compares its code and the hash of the messages.\<close>

definition accept_finished :: "u16 \<Rightarrow> connection_keys \<Rightarrow> bytes \<Rightarrow> rc4 \<Rightarrow> finishedHash \<Rightarrow> bytes \<Rightarrow> rc4 option" where
  "accept_finished version k ms cipher h r =
     (let l = uint_be (subslice 3 5 r); (cipher', content) = XORKeyStream cipher (subslice 5 (5 + l) r);
          message = take (l - 16) content
      in if take 3 r = [0x16] @ version_bytes version \<and> length r = 5 + l \<and>
            message = hl_finished (layout version) @ serverSum h ms \<and>
            drop (l - 16) content = MAC (macMD5 version (serverMAC k)) (be64 0) (take 3 r @ be16 (of_nat (l - 16))) message
         then Some cipher' else None)"

lemma NewCipher_16: "length key = 16 \<Longrightarrow> \<exists>c. NewCipher key = Some c"
  by (simp add: NewCipher_def)

lemma client_secrets_exist: "\<exists>ms k w r. client_secrets version secret hello serverRandom = Some (ms, k, w, r)"
proof -
  obtain ms where ms: "version_prf version 48 secret (bytes_of ''master secret'') (hello_random version hello @ serverRandom) = Ret ms"
    using version_prf_returns [of 48] by fastforce
  obtain k where "keysFromMasterSecret version ms (hello_random version hello) serverRandom 16 16 16 = Ret k"
    "length (clientKey k) = 16" "length (serverKey k) = 16"
    using keys_of_suite [of version ms] by blast
  then show ?thesis using ms NewCipher_16 [of "clientKey k"] NewCipher_16 [of "serverKey k"]
    by (auto simp: client_secrets_def)
qed

lemma serverSum_size: "fh_version h = v \<Longrightarrow> length (serverSum h ms) = hl_verify (layout v)"
  by (simp add: length_serverSum layout_def ds_layout_def wii_layout_def)

text \<open>The server's Finished record is one the console accepts.\<close>

lemma finished_record_accepted:
  assumes "fh_version h = v" and "message = hl_finished (layout v) @ serverSum h ms"
    and "encryptTLS (macMD5 v (serverMAC k)) cipher message 0 ([0x16] @ version_bytes v @ be16 (of_nat (length message))) =
      (r, sq, cipher')"
  shows "accept_finished v k ms cipher h r = Some cipher'"
proof -
  let ?h = "[0x16] @ version_bytes v @ be16 (of_nat (length message))"
  let ?m = "MAC (macMD5 v (serverMAC k)) (be64 0) ?h message"
  obtain body where x: "XORKeyStream cipher (message @ ?m) = (cipher', body)"
    and r: "r = [0x16] @ version_bytes v @ be16 (of_nat (length body)) @ body"
    using assms(3) by (auto simp: encryptTLS_def version_bytes_def be16_def Let_def split: prod.splits)
  have lb: "length body = length message + 16" using XORKeyStream_length [OF x] by simp
  have "length message \<le> 40" using assms(2) serverSum_size [OF assms(1), of ms]
    by (simp add: layout_def ds_layout_def wii_layout_def)
  then have "length body < 65536" using lb by simp
  then have n: "uint_be (be16 (of_nat (length body))) = length body"
    by (simp add: uint_be_be16 unat_of_nat take_bit_nat_eq_self)
  have undo: "XORKeyStream cipher body = (cipher', message @ ?m)"
    using XORKeyStream_twice [of cipher "message @ ?m"] x by simp
  have "subslice 3 5 r = be16 (of_nat (length body))" "subslice 5 (5 + length body) r = body"
    "take 3 r = [0x16] @ version_bytes v" "length r = 5 + length body"
    by (simp_all add: r subslice_def version_bytes_def be16_def)
  then show ?thesis using n undo lb assms(2) by (simp add: accept_finished_def Let_def)
qed

lemma finish_handshake_result:
  assumes sec: "client_secrets v secret hello serverRandom = Some (ms, k, w, r)"
    and "length serverRandom = 32" and "XORKeyStream w (message @ tag) = (w', finish)"
    and "length message = hl_finish_size (layout v)" and "is_open c" and "1 < writable c" and "fh_version h = v"
  shows "\<exists>fin r'. finish_handshake v h secret (hello_random v hello) serverRandom finish c =
      (c\<lparr>outgoing := outgoing c @ [[0x14] @ version_bytes v @ [0x00, 0x01, 0x01], fin], writable := writable c - 2\<rparr>,
       Ret (macMD5 v (serverMAC k), r', w')) \<and>
    accept_finished v k ms r (fh_Write h message) fin = Some r'"
proof -
  have keys: "version_prf v 48 secret (bytes_of ''master secret'') (hello_random v hello @ serverRandom) = Ret ms"
    "keysFromMasterSecret v ms (hello_random v hello) serverRandom 16 16 16 = Ret k"
    "NewCipher (clientKey k) = Some w" "NewCipher (serverKey k) = Some r"
    using sec by (auto simp: client_secrets_def split: outcome.splits option.splits prod.splits)
  have undo: "XORKeyStream w finish = (w', message @ tag)"
    using XORKeyStream_twice [of w "message @ tag"] assms(3) by simp
  have v: "fh_version (fh_Write h message) = v" using assms(7) by (simp add: fh_Write_def)
  let ?out = "serverSum (fh_Write h message) ms"
  let ?message = "hl_finished (layout v) @ ?out"
  obtain fin sq r' where e: "encryptTLS (macMD5 v (serverMAC k)) r ?message 0
      ([0x16] @ version_bytes v @ be16 (of_nat (length ?message))) = (fin, sq, r')"
    by (cases "encryptTLS (macMD5 v (serverMAC k)) r ?message 0 ([0x16] @ version_bytes v @ be16 (of_nat (length ?message)))") auto
  have t: "take (hl_verify (layout v)) ?out = ?out" using serverSum_size [OF v, of ms] by simp
  have m: "take (hl_finish_size (layout v)) (message @ tag) = message" using assms(4) by simp
  have "finish_handshake v h secret (hello_random v hello) serverRandom finish c =
      (c\<lparr>outgoing := outgoing c @ [[0x14] @ version_bytes v @ [0x00, 0x01, 0x01], fin], writable := writable c - 2\<rparr>,
       Ret (macMD5 v (serverMAC k), r', w'))"
    using keys undo assms(2,5,6) e t m
    by (simp add: finish_handshake_def or_panic_def Let_def conn_Write_def)
  then show ?thesis using finished_record_accepted [OF v refl e] by blast
qed

lemma flight_parts:
  assumes "length encrypted = 0x80" and "length finish = hl_finish_size (layout v) + 16"
  shows "well_formed_flight v (second_flight v encrypted finish)"
    "subslice (hl_secret_at (layout v)) (hl_secret_at (layout v) + 0x80) (second_flight v encrypted finish) = encrypted"
    "subslice 5 (hl_secret_at (layout v) + 0x80) (second_flight v encrypted finish) = drop 5 (hl_header (layout v)) @ encrypted"
    "subslice (hl_finish_at (layout v)) (hl_length (layout v)) (second_flight v encrypted finish) = finish"
  using assms
  by (auto simp: well_formed_flight_def second_flight_def starts_with_def subslice_def layout_def ds_layout_def wii_layout_def)

lemma handshake_from_result:
  assumes sec: "client_secrets v secret hello serverRandom = Some (ms, k, w, r)" and "length serverRandom = 32"
    and certs: "server_certs v certs" and rsa: "rsaKey encrypted = Some secret" "length encrypted = 0x80"
    and secret: "length secret = 48" "starts_with (version_bytes v) secret"
    and fin: "XORKeyStream w (message @ tag) = (w', finish)" "length message = hl_finish_size (layout v)" "length tag = 16"
    and c: "is_open c" "2 < writable c" "incoming c = fl @ rest" "segments fl"
      "concat fl = second_flight v encrypted finish" "good_split v 0 fl"
  shows "\<exists>f r'. handshake_from v rsaKey certs serverRandom (hello_message v hello) (hello_random v hello) c =
      (c\<lparr>incoming := rest, outgoing := outgoing c @ [server_hello v serverRandom certs,
         [0x14] @ version_bytes v @ [0x00, 0x01, 0x01], f], writable := writable c - 3\<rparr>,
       Ret (macMD5 v (serverMAC k), r', w')) \<and>
    accept_finished v k ms r (transcript v hello (server_hello v serverRandom certs) encrypted message) f = Some r'"
proof -
  let ?sh = "server_hello v serverRandom certs"
  let ?h = "fh_Write (fh_Write (newFinishedHash v) (hello_message v hello)) (record_bodies ?sh)"
  let ?c1 = "c\<lparr>outgoing := outgoing c @ [?sh], writable := writable c - 1\<rparr>"
  let ?c2 = "?c1\<lparr>incoming := rest\<rparr>"
  let ?h2 = "fh_Write ?h (drop 5 (hl_header (layout v)) @ encrypted)"
  have l: "length finish = hl_finish_size (layout v) + 16" using XORKeyStream_length [OF fin(1)] fin(2,3) by simp
  note fp = flight_parts [OF rsa(2) l]
  have ne: "fl \<noteq> []" using c(5) rsa(2) by (auto simp: second_flight_def)
  have i: "is_open ?c1" "incoming ?c1 = fl @ rest" using c(1,3) by simp_all
  have "read_flight v [] ?c1 = (?c1\<lparr>incoming := rest\<rparr>, Ret (second_flight v encrypted finish))"
    using read_flight_segments [OF fp(1) i c(4) ne, of "[]"] c(5,6) by simp
  moreover have "hash_hello (fh_Write (newFinishedHash v) (hello_message v hello)) ?sh (length certs) = Ret ?h"
    by (rule hash_hello_bodies [OF certs assms(2)])
  moreover have "conn_Write ?sh c = (?c1, True)" using c(1,2) by (simp add: conn_Write_def)
  ultimately have "handshake_from v rsaKey certs serverRandom (hello_message v hello) (hello_random v hello) c =
      finish_handshake v ?h2 secret (hello_random v hello) serverRandom finish ?c2"
    using rsa(1) secret fp(2-4) by (simp add: handshake_from_def Let_def)
  moreover have "is_open ?c2" "1 < writable ?c2" "fh_version ?h2 = v" using c(1,2) by (simp_all add: fh_Write_def newFinishedHash_def)
  moreover have "fh_Write ?h2 message = transcript v hello ?sh encrypted message"
    by (simp add: transcript_def fh_Write_def newFinishedHash_def)
  ultimately show ?thesis
    using finish_handshake_result [OF sec assms(2) fin(1,2), of ?c2 ?h2] c(2) by (auto simp: numeral_3_eq_3 numeral_2_eq_2)
qed

text \<open>The two prefixes tell the consoles apart.\<close>

lemma hello_prefix_facts:
  "good_hello VersionSSL30 hello \<Longrightarrow> hello = dsClientHelloPrefix @ drop 11 hello \<and> length (drop 11 hello) = 0x29"
  "good_hello VersionTLS10 hello \<Longrightarrow> hello = wiiClientHelloPrefix @ drop 29 hello \<and> length (drop 29 hello) = 0x10"
proof -
  have p: "length dsClientHelloPrefix = 11" "length wiiClientHelloPrefix = 29"
    by (simp_all add: dsClientHelloPrefix_def wiiClientHelloPrefix_def)
  show "good_hello VersionSSL30 hello \<Longrightarrow> hello = dsClientHelloPrefix @ drop 11 hello \<and> length (drop 11 hello) = 0x29"
    using append_take_drop_id [of 11 hello] p by (simp add: good_hello_def starts_with_def)
  show "good_hello VersionTLS10 hello \<Longrightarrow> hello = wiiClientHelloPrefix @ drop 29 hello \<and> length (drop 29 hello) = 0x10"
    using append_take_drop_id [of 29 hello] p by (simp add: good_hello_def starts_with_def VersionTLS10_def VersionSSL30_def)
qed

lemma handshake_ds:
  assumes "good_hello VersionSSL30 hello" and "is_open c" and "incoming c = hs @ rest" and "segments hs" and "concat hs = hello"
  shows "handleTLSHandshake env serverRandom c =
    establish VersionSSL30 (handshake_from VersionSSL30 (rsaKeyDS env) (serverCertsRecordDS env) serverRandom
      (hello_message VersionSSL30 hello) (hello_random VersionSSL30 hello) (c\<lparr>incoming := rest\<rparr>))"
proof -
  have h: "hello = dsClientHelloPrefix @ drop 11 hello" "length (drop 11 hello) = 0x29"
    using hello_prefix_facts(1) [OF assms(1)] by simp_all
  obtain ss where ss: "readBytes dsClientHelloPrefix [] c = (c\<lparr>incoming := ss @ rest\<rparr>, dsClientHelloPrefix, None)"
    "segments ss" "concat ss = drop 11 hello"
    using readBytes_segments [OF assms(2-4), of "[]" dsClientHelloPrefix "drop 11 hello"] assms(5) h(1) by auto
  let ?c = "c\<lparr>incoming := ss @ rest\<rparr>"
  have "read_full (0x34 - length dsClientHelloPrefix) [] ?c = (?c\<lparr>incoming := rest\<rparr>, Some (drop 11 hello))"
    using read_full_segments [of ?c ss rest "[]" "0x34 - length dsClientHelloPrefix"] assms(2) ss(2,3) h(2)
    by (simp add: dsClientHelloPrefix_def)
  moreover have "subslice 0x5 0x34 hello = hello_message VersionSSL30 hello"
    using assms(1) by (simp add: good_hello_def subslice_def hello_message_def)
  ultimately show ?thesis
    using ss(1) h(1) [symmetric]
    by (simp add: handleTLSHandshake_def handleDSSSLHandshake_def hello_random_def Let_def)
qed

lemma handshake_wii:
  assumes "good_hello VersionTLS10 hello" and "is_open c" and "incoming c = hs @ rest" and "segments hs" and "concat hs = hello"
  shows "handleTLSHandshake env serverRandom c =
    establish VersionTLS10 (handshake_from VersionTLS10 (rsaKeyWii env) (serverCertsRecordWii env) serverRandom
      (hello_message VersionTLS10 hello) (hello_random VersionTLS10 hello) (c\<lparr>incoming := rest\<rparr>))"
proof -
  have h: "hello = wiiClientHelloPrefix @ drop 29 hello" "length (drop 29 hello) = 0x10"
    using hello_prefix_facts(2) [OF assms(1)] by simp_all
  have "concat hs = 0x80 # tl wiiClientHelloPrefix @ drop 29 hello" using h(1) assms(5) by (simp add: wiiClientHelloPrefix_def)
  then obtain b ss where b: "readBytes dsClientHelloPrefix [] c = (c\<lparr>incoming := ss @ rest\<rparr>, b, Some UnexpectedBytes)"
    "concat hs = b @ concat ss" "segments ss" "length b \<le> length dsClientHelloPrefix"
    using readBytes_refused [OF assms(2-4), of "0x80" _ dsClientHelloPrefix "0x16" "tl dsClientHelloPrefix"]
    by (auto simp: dsClientHelloPrefix_def)
  let ?c = "c\<lparr>incoming := ss @ rest\<rparr>"
  have bl: "length b \<le> length wiiClientHelloPrefix" using b(4) by (simp add: dsClientHelloPrefix_def wiiClientHelloPrefix_def)
  have e: "b @ concat ss = wiiClientHelloPrefix @ drop 29 hello"
    by (simp only: b(2) [symmetric] assms(5) h(1) [symmetric])
  then have p: "b = take (length b) wiiClientHelloPrefix"
  proof -
    have "take (length b) (b @ concat ss) = take (length b) (wiiClientHelloPrefix @ drop 29 hello)" using e by simp
    then show ?thesis using bl by simp
  qed
  have t: "concat ss = drop (length b) wiiClientHelloPrefix @ drop 29 hello"
  proof -
    have "drop (length b) (b @ concat ss) = drop (length b) (wiiClientHelloPrefix @ drop 29 hello)" using e by simp
    then show ?thesis using bl by simp
  qed
  have whole: "b @ drop (length b) wiiClientHelloPrefix = wiiClientHelloPrefix"
    using append_take_drop_id [of "length b" wiiClientHelloPrefix] p by simp
  have o: "is_open ?c" "incoming ?c = ss @ rest" using assms(2) by simp_all
  obtain ss' where ss': "readBytes wiiClientHelloPrefix b ?c = (?c\<lparr>incoming := ss' @ rest\<rparr>, wiiClientHelloPrefix, None)"
    "segments ss'" "concat ss' = drop 29 hello"
    using readBytes_segments [OF o b(3) bl t] whole by auto
  let ?c' = "c\<lparr>incoming := ss' @ rest\<rparr>"
  have "read_full (0x2D - length wiiClientHelloPrefix) [] ?c' = (?c'\<lparr>incoming := rest\<rparr>, Some (drop 29 hello))"
    using read_full_segments [of ?c' ss' rest "[]" "0x2D - length wiiClientHelloPrefix"] assms(2) ss'(2,3) h(2)
    by (simp add: wiiClientHelloPrefix_def)
  moreover have "subslice 0x2 0x2D hello = hello_message VersionTLS10 hello"
    using assms(1) by (simp add: good_hello_def subslice_def hello_message_def VersionTLS10_def VersionSSL30_def)
  ultimately show ?thesis
    using b(1) ss'(1) h(1) [symmetric]
    by (simp add: handleTLSHandshake_def handleWiiTLSHandshake_def hello_random_def VersionTLS10_def VersionSSL30_def Let_def)
qed

lemma handshake_result:
  assumes h: "honest v env serverRandom hello secret encrypted"
    and sec: "client_secrets v secret hello serverRandom = Some (ms, k, w, r)"
    and fin: "XORKeyStream w (message @ tag) = (w', finish)" "length message = hl_finish_size (layout v)" "length tag = 16"
    and c: "is_open c" "2 < writable c" "incoming c = hs @ fl @ rest" "segments hs" "segments fl" "concat hs = hello"
      "concat fl = second_flight v encrypted finish" "good_split v 0 fl"
  shows "\<exists>f r'. handleTLSHandshake env serverRandom c =
      (Secure \<lparr>Conn = c\<lparr>incoming := rest, outgoing := outgoing c @ [server_hello v serverRandom (certs_of v env),
           [0x14] @ version_bytes v @ [0x00, 0x01, 0x01], f], writable := writable c - 3\<rparr>,
         MacFn = macMD5 v (serverMAC k), Cipher = r', ClientCipher = w', Version = v, Seq = 1,
         decodedBuffer = [], encodedBuffer = []\<rparr>, Ret ()) \<and>
    accept_finished v k ms r (transcript v hello (server_hello v serverRandom (certs_of v env)) encrypted message) f = Some r'"
proof -
  let ?c = "c\<lparr>incoming := fl @ rest\<rparr>"
  have hs: "good_hello v hello" "length serverRandom = 32" "server_certs v (certs_of v env)"
    "rsa_of v env encrypted = Some secret" "length encrypted = 0x80" "length secret = 48"
    "starts_with (version_bytes v) secret" "v = VersionTLS10 \<or> v = VersionSSL30"
    using h by (simp_all add: honest_def)
  have o: "is_open ?c" "2 < writable ?c" "incoming ?c = fl @ rest" using c(1,2) by simp_all
  have "handleTLSHandshake env serverRandom c = establish v (handshake_from v (rsa_of v env) (certs_of v env) serverRandom
      (hello_message v hello) (hello_random v hello) ?c)"
    using hs(8) handshake_ds [OF _ c(1,3,4,6)] handshake_wii [OF _ c(1,3,4,6)] hs(1)
    by (auto simp: rsa_of_def certs_of_def VersionTLS10_def VersionSSL30_def)
  then show ?thesis
    using handshake_from_result [where rsaKey = "rsa_of v env" and encrypted = encrypted, OF sec hs(2,3,4,5,6,7) fin o c(5,7,8)] by (auto simp: establish_def)
qed

subsection \<open>What the handshake guarantees\<close>

text \<open>C29. A console that follows the protocol, Wii or DS, gets a connection: whatever segments its hello arrives in, and its
  second flight in segments that do not cut the second header, the server answers with its flight, a change of the cipher
  and a Finished record that the console accepts, and both hold the same keys and ciphers.
\<close>

theorem handshake_completes:
  assumes "honest v env serverRandom hello secret encrypted"
    and "client_secrets v secret hello serverRandom = Some (ms, k, w, r)"
    and "XORKeyStream w (message @ tag) = (w', finish)" "length message = hl_finish_size (layout v)" "length tag = 16"
    and "is_open c" "2 < writable c" "incoming c = hs @ fl @ rest" "segments hs" "segments fl" "concat hs = hello"
      "concat fl = second_flight v encrypted finish" "good_split v 0 fl"
  shows "\<exists>f r'. handleTLSHandshake env serverRandom c =
      (Secure \<lparr>Conn = c\<lparr>incoming := rest, outgoing := outgoing c @ [server_hello v serverRandom (certs_of v env),
           [0x14] @ version_bytes v @ [0x00, 0x01, 0x01], f], writable := writable c - 3\<rparr>,
         MacFn = macMD5 v (serverMAC k), Cipher = r', ClientCipher = w', Version = v, Seq = 1,
         decodedBuffer = [], encodedBuffer = []\<rparr>, Ret ()) \<and>
    accept_finished v k ms r (transcript v hello (server_hello v serverRandom (certs_of v env)) encrypted message) f = Some r'"
  by (rule handshake_result [OF assms])

text \<open>Reading from the start: the first read performs the handshake.\<close>

fun tls_read_all :: "tls_env \<Rightarrow> bytes \<Rightarrow> tlsConnection \<Rightarrow> nat list \<Rightarrow> tlsConnection \<times> bytes" where
  "tls_read_all env serverRandom t [] = (t, [])"
| "tls_read_all env serverRandom t (n # ns) =
     (case tls_Read env serverRandom n t of
        (t', Ret p) \<Rightarrow> (let (t'', r) = tls_read_all env serverRandom t' ns in (t'', p @ r))
      | (t', _) \<Rightarrow> (t', []))"

lemma tls_read_all_secure: "snd (tls_read_all env sr (Secure cc) ns) = snd (read_all cc ns)"
proof (induction ns arbitrary: cc)
  case (Cons n ns)
  obtain cc' res where "Read n cc = (cc', res)" by (cases "Read n cc")
  then show ?case
    using Cons.IH [of cc'] by (cases res) (simp_all add: tls_Read_def case_prod_unfold Let_def)
qed simp

lemma tls_read_all_bare:
  assumes "handleTLSHandshake env sr c = (Secure cc, Ret ())" and "ns \<noteq> []"
  shows "tls_read_all env sr (Bare c) ns = tls_read_all env sr (Secure cc) ns"
  using assms by (cases ns) (simp_all add: tls_Read_def)

text \<open>C6. From the first byte to the last: a console that follows the protocol sends its hello, its second flight and its data each
  from a new segment on, the flight not cut where the server refuses it (\<open>good_split\<close>), and then texts of 1 to 0xFEB bytes, each
  in a record. The reads return these texts completely and in order, wherever else the segments end, records of data
  included, and whatever buffers of at least one byte the reader has, once it has read as often as there are bytes.
\<close>

theorem console_session:
  assumes "honest v env serverRandom hello secret encrypted"
    and "client_secrets v secret hello serverRandom = Some (ms, k, w, r)"
    and "XORKeyStream w (message @ tag) = (w', finish)" "length message = hl_finish_size (layout v)" "length tag = 16"
    and "is_open c" "2 < writable c" "incoming c = hs @ fl @ rest" "segments hs" "segments fl" "concat hs = hello"
      "concat fl = second_flight v encrypted finish" "good_split v 0 fl"
    and "list_all sendable ps" "concat rest = client_stream v w' ps" "list_all (\<lambda>n. 0 < n) buffers" "buffers \<noteq> []"
      "length (concat (map fst ps)) \<le> length buffers"
  shows "snd (tls_read_all env serverRandom (Bare c) buffers) = concat (map fst ps)"
proof -
  obtain f r' where h: "handleTLSHandshake env serverRandom c =
      (Secure \<lparr>Conn = c\<lparr>incoming := rest, outgoing := outgoing c @ [server_hello v serverRandom (certs_of v env),
           [0x14] @ version_bytes v @ [0x00, 0x01, 0x01], f], writable := writable c - 3\<rparr>,
         MacFn = macMD5 v (serverMAC k), Cipher = r', ClientCipher = w', Version = v, Seq = 1,
         decodedBuffer = [], encodedBuffer = []\<rparr>, Ret ())" (is "_ = (Secure ?cc, _)")
    using handshake_result [OF assms(1-13)] by blast
  have v: "Version ?cc = VersionTLS10 \<or> Version ?cc = VersionSSL30" using assms(1) by (simp add: honest_def)
  have "unread ?cc = concat (map fst ps)"
    using open_client_stream [OF v assms(14), of w'] assms(15) by (simp add: unread_def arriving_def)
  then have "snd (read_all ?cc buffers) = concat (map fst ps)"
    using read_all_unread [of ?cc buffers] assms(6,16,18) by simp
  then show ?thesis using tls_read_all_bare [OF h assms(17)] tls_read_all_secure by simp
qed

text \<open>C32. The second flight of a console, with every byte right, is refused exactly when a segment ends between the bytes 0x8C and
  0x95 of a Wii's flight or 0x8C and 0x93 of a DS's, and read as it is otherwise. So a Wii's segment may not end anywhere within
  the eleven bytes of ChangeCipherSpec and the Finished header, and a DS's only after their first two bytes.
\<close>

theorem flight_accepted_iff:
  assumes "well_formed_flight v s" and "is_open c" and "incoming c = ss @ rest" and "segments ss" and "concat ss = s"
  shows "snd (read_flight v [] c) =
    (if \<exists>i \<in> set (cuts 0 ss). 0x8C \<le> i \<and> i \<le> (if v = VersionSSL30 then 0x93 else 0x95)
     then Err InvalidHeader else Ret s)"
proof -
  have "ss \<noteq> []" using assms(1,5) by (auto simp: well_formed_flight_def layout_def ds_layout_def wii_layout_def split: if_splits)
  moreover have "(\<exists>i \<in> set (cuts 0 ss). 0x8C \<le> i \<and> i \<le> (if v = VersionSSL30 then 0x93 else 0x95)) \<longleftrightarrow> \<not> good_split v 0 ss"
    unfolding good_split_cuts by (auto simp: not_le not_less less_eq_Suc_le split: if_splits)
  ultimately show ?thesis using read_flight_segments [OF assms(1-4), of "[]"] assms(5) by (auto split: if_splits)
qed

subsection \<open>Panics\<close>

lemma read_flight_not_Panic: "snd (read_flight v got c) \<noteq> Panic"
proof (induction v got c rule: read_flight.induct)
  case (1 v got c)
  obtain c' b where r: "conn_Read (0x1000 - length got) c = (c', b)" by (cases "conn_Read (0x1000 - length got) c")
  then show ?case
    using 1 by (cases b) (subst read_flight.simps, simp add: Let_def)+
qed

lemma finish_handshake_not_Panic: "snd (finish_handshake v h secret cr sr finish c) \<noteq> Panic"
proof -
  obtain ms where ms: "version_prf v 48 secret (bytes_of ''master secret'') (cr @ take 0x20 sr) = Ret ms"
    using version_prf_returns [of 48] by fastforce
  obtain k where k: "keysFromMasterSecret v ms cr sr 16 16 16 = Ret k" "length (clientKey k) = 16" "length (serverKey k) = 16"
    using keys_of_suite [of v ms cr sr] by blast
  obtain a b where "NewCipher (serverKey k) = Some a" "NewCipher (clientKey k) = Some b"
    using NewCipher_16 [of "serverKey k"] NewCipher_16 [of "clientKey k"] k by blast
  then show ?thesis using ms k(1) by (simp add: finish_handshake_def or_panic_def Let_def split: prod.splits)
qed

lemma handshake_from_not_Panic:
  assumes "server_certs v certs" and "length sr = 32"
  shows "snd (handshake_from v rsaKey certs sr hello cr c) \<noteq> Panic"
  using hash_hello_bodies [OF assms, of "fh_Write (newFinishedHash v) hello"] read_flight_not_Panic [of v "[]"]
    finish_handshake_not_Panic
  by (auto simp: handshake_from_def Let_def split: prod.splits bool.splits outcome.splits option.splits) (metis snd_conv)+

lemma establish_not_Panic: "snd x \<noteq> Panic \<Longrightarrow> snd (establish v x) \<noteq> Panic"
  by (auto simp: establish_def split: prod.splits outcome.splits)

text \<open>C30. With certificates for both consoles no input makes the handshake panic, whatever bytes arrive in whatever
  segments.
\<close>

theorem handshake_never_panics:
  assumes "server_certs VersionTLS10 (serverCertsRecordWii env)" "server_certs VersionSSL30 (serverCertsRecordDS env)"
    and "length serverRandom = 32"
  shows "snd (handleTLSHandshake env serverRandom c) \<noteq> Panic"
proof -
  have "snd (handleWiiTLSHandshake env serverRandom c') \<noteq> Panic" "snd (handleDSSSLHandshake env serverRandom c') \<noteq> Panic" for c'
    using handshake_from_not_Panic [OF assms(1,3)] handshake_from_not_Panic [OF assms(2,3)]
    by (simp_all add: handleWiiTLSHandshake_def handleDSSSLHandshake_def Let_def split: prod.splits option.splits)
  then show ?thesis
    by (auto simp: handleTLSHandshake_def establish_not_Panic split: prod.splits option.splits tls_error.splits)
qed

text \<open>Without a certificate for the DS, which is optional, the hello of a DS panics.\<close>

lemma ds_without_certificate:
  assumes "good_hello VersionSSL30 hello" and "is_open c" and "incoming c = hs @ rest" and "segments hs" and "concat hs = hello"
    and "serverCertsRecordDS env = []" and "length serverRandom = 32"
  shows "snd (handleTLSHandshake env serverRandom c) = Panic"
proof -
  have "hash_hello h (server_hello VersionSSL30 serverRandom []) 0 = Panic" for h
    using assms(7) by (simp add: hash_hello_def slice_or_panic_def server_hello_def version_bytes_def Let_def)
  then show ?thesis
    by (simp add: handshake_ds [OF assms(1-5)] assms(6) handshake_from_def establish_def Let_def)
qed

subsection \<open>Examples\<close>

definition sample_secret :: bytes where "sample_secret = [0x03, 0x01] @ replicate 46 7"
definition sample_encrypted :: bytes where "sample_encrypted = sample_secret @ replicate 80 0"
definition sample_hello :: bytes where "sample_hello = wiiClientHelloPrefix @ replicate 16 9"
definition sample_random :: bytes where "sample_random = replicate 32 5"

definition sample_tls_env :: tls_env where
  "sample_tls_env = \<lparr>rsaKeyWii = \<lambda>e. Some (take 48 e), serverCertsRecordWii = setupExploitWii [1, 2, 3],
     rsaKeyDS = \<lambda>e. Some (take 48 e), serverCertsRecordDS = setupExploitDS [1] [2]\<rparr>"

lemma sample_certs: "server_certs VersionTLS10 (serverCertsRecordWii sample_tls_env)"
  "server_certs VersionSSL30 (serverCertsRecordDS sample_tls_env)"
proof -
  show "server_certs VersionTLS10 (serverCertsRecordWii sample_tls_env)"
    by (auto simp: sample_tls_env_def server_certs_def VersionTLS10_def VersionSSL30_def intro: exI [of _ "[1, 2, 3]"])
  show "server_certs VersionSSL30 (serverCertsRecordDS sample_tls_env)"
    by (simp add: sample_tls_env_def server_certs_def, rule exI [of _ "[1]"], rule exI [of _ "[2]"]) simp
qed

lemma sample_honest: "honest VersionTLS10 sample_tls_env sample_random sample_hello sample_secret sample_encrypted"
  using sample_certs(1)
  by (simp add: honest_def good_hello_def starts_with_def rsa_of_def certs_of_def sample_hello_def sample_random_def
      sample_secret_def sample_encrypted_def version_bytes_def VersionTLS10_def VersionSSL30_def wiiClientHelloPrefix_def)
    (simp add: sample_tls_env_def)

text \<open>The hello and the second flight in one segment each, then one record.\<close>

definition sample_conn :: "bytes \<Rightarrow> bytes list \<Rightarrow> conn" where
  "sample_conn finish rest = \<lparr>incoming = [sample_hello] @ [second_flight VersionTLS10 sample_encrypted finish] @ rest,
     outgoing = [], writable = 9, is_open = True\<rparr>"

lemma sample_flight:
  assumes "length finish = 32"
  shows "segments [sample_hello]" "segments [second_flight VersionTLS10 sample_encrypted finish]"
    "good_split VersionTLS10 0 [second_flight VersionTLS10 sample_encrypted finish]"
    "well_formed_flight VersionTLS10 (second_flight VersionTLS10 sample_encrypted finish)"
  using assms
  by (simp_all add: sample_hello_def wiiClientHelloPrefix_def second_flight_def layout_def wii_layout_def
      VersionTLS10_def VersionSSL30_def sample_encrypted_def sample_secret_def well_formed_flight_def starts_with_def)

lemma sample_keys:
  obtains ms k w r w' finish where
    "client_secrets VersionTLS10 sample_secret sample_hello sample_random = Some (ms, k, w, r)"
    "XORKeyStream w (replicate 16 1 @ replicate 16 2) = (w', finish)" "length finish = 32"
proof -
  obtain ms k w r where s: "client_secrets VersionTLS10 sample_secret sample_hello sample_random = Some (ms, k, w, r)"
    using client_secrets_exist by blast
  obtain w' finish where x: "XORKeyStream w (replicate 16 1 @ replicate 16 2) = (w', finish)"
    by (cases "XORKeyStream w (replicate 16 1 @ replicate 16 2)")
  show thesis using that [OF s x] XORKeyStream_length [OF x] by simp
qed

lemma sample_finish: "length (replicate 16 1 :: bytes) = hl_finish_size (layout VersionTLS10)"
  by (simp add: layout_def wii_layout_def VersionTLS10_def VersionSSL30_def)

theorem handshake_completes_witness:
  "\<exists>finish cc. handleTLSHandshake sample_tls_env sample_random (sample_conn finish []) = (Secure cc, Ret ()) \<and> Seq cc = 1"
proof -
  obtain ms k w r w' finish where s: "client_secrets VersionTLS10 sample_secret sample_hello sample_random = Some (ms, k, w, r)"
    and x: "XORKeyStream w (replicate 16 1 @ replicate 16 2) = (w', finish)" and l: "length finish = 32"
    by (rule sample_keys)
  have c: "is_open (sample_conn finish [])" "2 < writable (sample_conn finish [])"
    "incoming (sample_conn finish []) = [sample_hello] @ [second_flight VersionTLS10 sample_encrypted finish] @ []"
    by (simp_all add: sample_conn_def)
  from handshake_completes [OF sample_honest s x sample_finish _ c sample_flight(1) [OF l] sample_flight(2) [OF l] _ _
      sample_flight(3) [OF l]] show ?thesis by fastforce
qed

theorem console_session_witness:
  "\<exists>c. incoming c \<noteq> [] \<and> snd (tls_read_all sample_tls_env sample_random (Bare c) [1, 1]) = [1, 2]"
proof -
  obtain ms k w r w' finish where s: "client_secrets VersionTLS10 sample_secret sample_hello sample_random = Some (ms, k, w, r)"
    and x: "XORKeyStream w (replicate 16 1 @ replicate 16 2) = (w', finish)" and l: "length finish = 32"
    by (rule sample_keys)
  let ?ps = "[([1, 2], replicate 16 3)]"
  let ?c = "sample_conn finish [client_stream VersionTLS10 w' ?ps]"
  have c: "is_open ?c" "2 < writable ?c" "incoming ?c = [sample_hello] @ [second_flight VersionTLS10 sample_encrypted finish] @
      [client_stream VersionTLS10 w' ?ps]"
    by (simp_all add: sample_conn_def)
  have ps: "list_all sendable ?ps" by (simp add: sendable_def)
  from console_session [OF sample_honest s x sample_finish _ c sample_flight(1) [OF l] sample_flight(2) [OF l] _ _
      sample_flight(3) [OF l] ps, of "[1, 1]"]
  have "snd (tls_read_all sample_tls_env sample_random (Bare ?c) [1, 1]) = [1, 2]" by simp
  then show ?thesis using c(3) by (intro exI [of _ ?c]) simp
qed

text \<open>A Wii's flight that arrives in two segments, the first of which ends with the first byte of ChangeCipherSpec\<close>

theorem flight_accepted_iff_witness:
  "\<exists>s a b. s = second_flight VersionTLS10 sample_encrypted (replicate 32 1) \<and> a @ b = s \<and> length a = 0x8C \<and>
     snd (read_flight VersionTLS10 [] \<lparr>incoming = [s], outgoing = [], writable = 0, is_open = True\<rparr>) = Ret s \<and>
     snd (read_flight VersionTLS10 [] \<lparr>incoming = [a, b], outgoing = [], writable = 0, is_open = True\<rparr>) = Err InvalidHeader"
proof -
  let ?s = "second_flight VersionTLS10 sample_encrypted (replicate 32 1)"
  let ?a = "take 0x8C ?s" and ?b = "drop 0x8C ?s"
  have w: "well_formed_flight VersionTLS10 ?s" by (rule sample_flight(4)) simp
  have l: "length ?s = 0xB6" using w by (simp add: well_formed_flight_def layout_def wii_layout_def VersionTLS10_def VersionSSL30_def)
  have seg: "segments [?a, ?b]" "segments [?s]" using l by (auto simp: segments_def)
  have one: "snd (read_flight VersionTLS10 [] \<lparr>incoming = [?s], outgoing = [], writable = 0, is_open = True\<rparr>) = Ret ?s"
    using flight_accepted_iff [OF w, of "\<lparr>incoming = [?s], outgoing = [], writable = 0, is_open = True\<rparr>" "[?s]" "[]"] seg l
    by (simp add: VersionTLS10_def VersionSSL30_def)
  have two: "snd (read_flight VersionTLS10 [] \<lparr>incoming = [?a, ?b], outgoing = [], writable = 0, is_open = True\<rparr>) = Err InvalidHeader"
    using flight_accepted_iff [OF w, of "\<lparr>incoming = [?a, ?b], outgoing = [], writable = 0, is_open = True\<rparr>" "[?a, ?b]" "[]"] seg l
    by (simp add: VersionTLS10_def VersionSSL30_def)
  have "length ?a = 0x8C" "?a @ ?b = ?s" using l by simp_all
  with one two show ?thesis by blast
qed

theorem handshake_never_panics_witness:
  "snd (handleTLSHandshake sample_tls_env sample_random (sample_conn [1, 2] [])) \<noteq> Panic"
  by (rule handshake_never_panics [OF sample_certs]) (simp add: sample_random_def)

end
