(* ===== verification/FrontEnd.thy ===== *)
theory FrontEnd
  imports GoStrings
begin

text \<open>
  \<open>src/main.go\<close> and \<open>common/connection.go\<close>: the front end owns the TCP connections and forwards what they send to the
  back end over RPC, so that the back end can be restarted while the connections stay open. The goroutines are
  a relation of steps: one per connection (\<open>handleConnection\<close>), the back end's calls back into the front end, and
  the shutdown and restart of the back end, which holds \<open>rpcMutex\<close> throughout. A section of code that holds the
  mutex and does not block is one step, which needs the mutex free.
\<close>

subsection \<open>The two processes\<close>

datatype run_mode = BackendMain bool bool | FrontendMain bool bool

definition main_mode :: "string list \<Rightarrow> run_mode" where
  "main_mode args =
     (let flags = drop 1 args; noSignal = ''--nosignal'' \<in> set flags; noReload = ''--noreload'' \<in> set flags
      in if args \<noteq> [] \<and> hd args = ''backend'' then BackendMain noSignal noReload
         else FrontendMain noSignal (args \<noteq> [] \<and> hd args = ''frontend''))"

text \<open>The servers the front end listens for, with their ports, and those a call of the back end is handed to.\<close>

definition servers :: "(string \<times> nat) list" where
  "servers = [(''serverbrowser'', 28910), (''gpcm'', 29900), (''gpsp'', 29901), (''gamestats'', 29920)]"

datatype gamespy_server = ServerBrowserServer | GPCMServer | GPSPServer | GameStatsServer

definition rpc_server :: "string \<Rightarrow> gamespy_server option" where
  "rpc_server name =
     (if name = ''serverbrowser'' then Some ServerBrowserServer
      else if name = ''gpcm'' then Some GPCMServer
      else if name = ''gpsp'' then Some GPSPServer
      else if name = ''gamestats'' then Some GameStatsServer
      else None)"

definition rpc_dispatch :: "(gamespy_server \<Rightarrow> 'b \<Rightarrow> 'b) \<Rightarrow> string \<Rightarrow> 'b \<Rightarrow> 'b" where
  "rpc_dispatch f name st = (case rpc_server name of None \<Rightarrow> st | Some g \<Rightarrow> f g st)"

lemma servers_dispatched:
  "list_all (\<lambda>(name, _). rpc_server name \<noteq> None) servers" "distinct (map fst servers)" "distinct (map snd servers)"
  by (simp_all add: servers_def rpc_server_def)

subsection \<open>State\<close>

type_synonym conn_key = "string \<times> u64"

text \<open>What the back end asks of the front end while it serves a call: \<open>SendPacket\<close> or \<open>CloseConnection\<close>.\<close>

datatype back_request = SendPacketReq conn_key bytes | CloseConnectionReq conn_key

datatype call_state = Running | Waiting back_request

datatype program_counter = Starting | NewCall call_state | Failing | Reading | GotPacket bytes
  | PacketCall call_state | Leaving | CloseCall call_state | Finished

record handler =
  key_of :: conn_key
  pc :: program_counter
  connected :: bool
  written :: "bytes list"
  received :: "bytes list"

datatype rpc_call = RpcNew | RpcPacket bytes | RpcClose

text \<open>Who asked for the shutdown: \<open>ReloadBackend\<close>, or the back end itself when it was told to stop.\<close>

datatype cause = ByReload | ByBackend

datatype phase = Serving | Draining cause | Stopping cause string | Down | Booting | Ready

text \<open>
  \<open>wait_count\<close> counts the calls of \<open>waitForBackend\<close> that wait for the channel \<open>backendReady\<close>, and \<open>woken\<close> those that got past it;
  each unlocks the mutex once. \<open>saved_uuid\<close> is the file in which the back end keeps the identifier of its saved state.
\<close>

record front =
  mutex :: bool
  busy :: int
  table :: "conn_key \<rightharpoonup> nat"
  handlers :: "handler list"
  counts :: "string \<Rightarrow> u64"
  uuid :: string
  saved_uuid :: string
  integrated :: bool
  phase :: phase
  wait_count :: nat
  woken :: nat
  crashed :: bool \<comment> \<open>the process has ended\<close>
  fatal :: bool \<comment> \<open>by an unlock of a mutex that was not locked\<close>
  rpc_log :: "(nat \<times> rpc_call) list"

definition frontend_start :: "bool \<Rightarrow> string \<Rightarrow> front" where
  "frontend_start integ saved =
     \<lparr>mutex = True, busy = 0, table = Map.empty, handlers = [], counts = (\<lambda>_. 0), uuid = [], saved_uuid = saved,
      integrated = integ, phase = Booting, wait_count = 1, woken = 0, crashed = False, fatal = False, rpc_log = []\<rparr>"

definition set_handler :: "nat \<Rightarrow> (handler \<Rightarrow> handler) \<Rightarrow> front \<Rightarrow> front" where
  "set_handler h f s = s\<lparr>handlers := (handlers s)[h := f (handlers s ! h)]\<rparr>"

definition set_pc :: "nat \<Rightarrow> program_counter \<Rightarrow> front \<Rightarrow> front" where
  "set_pc h p = set_handler h (\<lambda>x. x\<lparr>pc := p\<rparr>)"

definition pc_is :: "front \<Rightarrow> nat \<Rightarrow> program_counter \<Rightarrow> bool" where
  "pc_is s h p \<longleftrightarrow> h < length (handlers s) \<and> pc (handlers s ! h) = p"

subsection \<open>Connections\<close>

text \<open>\<open>frontendListen\<close> accepts a connection and numbers it; the number wraps.\<close>

definition frontendListen :: "string \<Rightarrow> front \<Rightarrow> front" where
  "frontendListen server s =
     (let count = counts s server + 1
      in s\<lparr>counts := (counts s)(server := count),
           handlers := handlers s @ [\<lparr>key_of = (server, count), pc = Starting, connected = True, written = [], received = []\<rparr>]\<rparr>)"

text \<open>\<open>handleConnection\<close>: the steps that enter and leave a call of the back end.\<close>

definition register_connection :: "nat \<Rightarrow> front \<Rightarrow> front" where
  "register_connection h s =
     (set_pc h (NewCall Running) s)\<lparr>busy := busy s + 1, table := (table s)(key_of (handlers s ! h) \<mapsto> h),
        rpc_log := rpc_log s @ [(h, RpcNew)]\<rparr>"

definition new_call_done :: "nat \<Rightarrow> bool \<Rightarrow> front \<Rightarrow> front" where
  "new_call_done h ok s = (set_pc h (if ok then Reading else Failing) s)\<lparr>busy := busy s - 1\<rparr>"

definition drop_failed :: "nat \<Rightarrow> front \<Rightarrow> front" where
  "drop_failed h s =
     (set_handler h (\<lambda>x. x\<lparr>pc := Finished, connected := False\<rparr>) s)\<lparr>table := (table s)(key_of (handlers s ! h) := None)\<rparr>"

definition receive_packet :: "nat \<Rightarrow> bytes \<Rightarrow> front \<Rightarrow> front" where
  "receive_packet h b = set_handler h (\<lambda>x. x\<lparr>pc := GotPacket b, received := received x @ [b]\<rparr>)"

definition forward_packet :: "nat \<Rightarrow> bytes \<Rightarrow> front \<Rightarrow> front" where
  "forward_packet h b s =
     (set_pc h (PacketCall Running) s)\<lparr>busy := busy s + 1, rpc_log := rpc_log s @ [(h, RpcPacket b)]\<rparr>"

datatype rpc_result = RpcOk | RpcError | RpcShutdown

definition packet_call_done :: "nat \<Rightarrow> rpc_result \<Rightarrow> front \<Rightarrow> front" where
  "packet_call_done h r s =
     (let s = s\<lparr>busy := busy s - 1\<rparr>
      in case r of RpcOk \<Rightarrow> set_pc h Reading s | RpcError \<Rightarrow> set_pc h Leaving s
         | RpcShutdown \<Rightarrow> (set_pc h Leaving s)\<lparr>crashed := True\<rparr>)"

definition leave_connection :: "nat \<Rightarrow> front \<Rightarrow> front" where
  "leave_connection h s =
     (if table s (key_of (handlers s ! h)) \<noteq> Some h
      then set_handler h (\<lambda>x. x\<lparr>pc := Finished, connected := False\<rparr>) s
      else (set_pc h (CloseCall Running) s)\<lparr>busy := busy s + 1, table := (table s)(key_of (handlers s ! h) := None),
             rpc_log := rpc_log s @ [(h, RpcClose)]\<rparr>)"

definition close_call_done :: "nat \<Rightarrow> rpc_result \<Rightarrow> front \<Rightarrow> front" where
  "close_call_done h r s =
     (set_handler h (\<lambda>x. x\<lparr>pc := Finished, connected := False\<rparr>) s)\<lparr>busy := busy s - 1,
        crashed := crashed s \<or> r = RpcShutdown\<rparr>"

subsection \<open>Requests of the back end\<close>

text \<open>The result says whether the call returned without an error.\<close>

definition SendPacket :: "conn_key \<Rightarrow> bytes \<Rightarrow> front \<Rightarrow> front \<times> bool" where
  "SendPacket k b s =
     (case table s k of
        None \<Rightarrow> (s, False)
      | Some h \<Rightarrow>
          if connected (handlers s ! h) then (set_handler h (\<lambda>x. x\<lparr>written := written x @ [b]\<rparr>) s, True)
          else (s, False))"

definition CloseConnection :: "conn_key \<Rightarrow> front \<Rightarrow> front \<times> bool" where
  "CloseConnection k s =
     (case table s k of
        None \<Rightarrow> (s, False)
      | Some h \<Rightarrow> (set_handler h (\<lambda>x. x\<lparr>connected := False\<rparr>) s, connected (handlers s ! h)))"

definition serve_request :: "back_request \<Rightarrow> front \<Rightarrow> front" where
  "serve_request r s =
     (case r of SendPacketReq k b \<Rightarrow> fst (SendPacket k b s) | CloseConnectionReq k \<Rightarrow> fst (CloseConnection k s))"

subsection \<open>Shutdown and restart\<close>

definition shutdown_locks :: "cause \<Rightarrow> front \<Rightarrow> front" where
  "shutdown_locks c s = s\<lparr>mutex := True, phase := Draining c\<rparr>"

text \<open>
  \<open>ShutdownBackend\<close> after the calls have drained: a front end that did not start the back end itself waits for the next
  one and draws an identifier for the state, \<open>u\<close>; one that did answers with an empty one.
\<close>

definition ShutdownBackend :: "cause \<Rightarrow> string \<Rightarrow> front \<Rightarrow> front" where
  "ShutdownBackend c u s =
     (if \<not> integrated s then s\<lparr>wait_count := wait_count s + 1, uuid := u, phase := Stopping c u\<rparr>
      else s\<lparr>phase := Stopping c []\<rparr>)"

text \<open>
  \<open>RPCPacket.Shutdown\<close> in the back end saves the identifier with its state if it is not empty. \<open>ReloadBackend\<close> then starts the
  process again and waits for it.
\<close>

definition backend_stops :: "cause \<Rightarrow> string \<Rightarrow> front \<Rightarrow> front" where
  "backend_stops c u s =
     s\<lparr>saved_uuid := (if u = [] then saved_uuid s else u), phase := (if c = ByReload then Booting else Down),
       wait_count := (if c = ByReload then wait_count s + 1 else wait_count s)\<rparr>"

definition VerifyState :: "string \<Rightarrow> front \<Rightarrow> front \<times> bool option" where
  "VerifyState u s =
     (if \<not> mutex s then (s, None)
      else if u \<noteq> uuid s
      then (s\<lparr>table := Map.empty,
              handlers := map (\<lambda>(i, x). if table s (key_of x) = Some i then x\<lparr>connected := False\<rparr> else x) (enumerate 0 (handlers s))\<rparr>,
            Some False)
      else (s, Some (u \<noteq> [])))"

text \<open>The back end calls \<open>Ready\<close>, which closes the channel: everyone who waits for it goes on.\<close>

definition backend_ready :: "front \<Rightarrow> front" where
  "backend_ready s = s\<lparr>phase := Ready, woken := woken s + wait_count s, wait_count := 0\<rparr>"

text \<open>Unlocking a mutex that is not locked is a fatal error of the Go runtime.\<close>

definition waitForBackend :: "front \<Rightarrow> front" where
  "waitForBackend s =
     (if mutex s then s\<lparr>mutex := False, woken := woken s - 1, phase := (if phase s = Ready then Serving else phase s)\<rparr>
      else s\<lparr>woken := woken s - 1, crashed := True, fatal := True\<rparr>)"

subsection \<open>Steps\<close>

fun call_of :: "program_counter \<Rightarrow> call_state option" where
  "call_of (NewCall c) = Some c"
| "call_of (PacketCall c) = Some c"
| "call_of (CloseCall c) = Some c"
| "call_of _ = None"

fun with_call :: "call_state \<Rightarrow> program_counter \<Rightarrow> program_counter" where
  "with_call c (NewCall _) = NewCall c"
| "with_call c (PacketCall _) = PacketCall c"
| "with_call c (CloseCall _) = CloseCall c"
| "with_call c p = p"

text \<open>\<open>cs\<close> are the causes of shutdowns that occur.\<close>

inductive front_step :: "cause set \<Rightarrow> front \<Rightarrow> front \<Rightarrow> bool" for cs where
  accept: "front_step cs s (frontendListen server s)"
| register: "\<not> mutex s \<Longrightarrow> pc_is s h Starting \<Longrightarrow> front_step cs s (register_connection h s)"
| new_done: "pc_is s h (NewCall Running) \<Longrightarrow> front_step cs s (new_call_done h ok s)"
| drop: "\<not> mutex s \<Longrightarrow> pc_is s h Failing \<Longrightarrow> front_step cs s (drop_failed h s)"
| receive: "pc_is s h Reading \<Longrightarrow> connected (handlers s ! h) \<Longrightarrow> b \<noteq> [] \<Longrightarrow> front_step cs s (receive_packet h b s)"
| read_error: "pc_is s h Reading \<Longrightarrow> front_step cs s (set_pc h Leaving s)"
| forward: "\<not> mutex s \<Longrightarrow> pc_is s h (GotPacket b) \<Longrightarrow> front_step cs s (forward_packet h b s)"
| packet_done: "pc_is s h (PacketCall Running) \<Longrightarrow> front_step cs s (packet_call_done h r s)"
| leave: "\<not> mutex s \<Longrightarrow> pc_is s h Leaving \<Longrightarrow> front_step cs s (leave_connection h s)"
| close_done: "pc_is s h (CloseCall Running) \<Longrightarrow> front_step cs s (close_call_done h r s)"
| ask: "h < length (handlers s) \<Longrightarrow> call_of (pc (handlers s ! h)) = Some Running \<Longrightarrow>
    front_step cs s (set_pc h (with_call (Waiting q) (pc (handlers s ! h))) s)"
| answer: "\<not> mutex s \<Longrightarrow> h < length (handlers s) \<Longrightarrow> call_of (pc (handlers s ! h)) = Some (Waiting q) \<Longrightarrow>
    front_step cs s (serve_request q (set_pc h (with_call Running (pc (handlers s ! h))) s))"
| lock: "\<not> mutex s \<Longrightarrow> phase s = Serving \<Longrightarrow> c \<in> cs \<Longrightarrow> front_step cs s (shutdown_locks c s)"
| drained: "phase s = Draining c \<Longrightarrow> busy s = 0 \<Longrightarrow> u \<noteq> [] \<Longrightarrow> front_step cs s (ShutdownBackend c u s)"
| stop: "phase s = Stopping c u \<Longrightarrow> front_step cs s (backend_stops c u s)"
| boot: "phase s = Down \<Longrightarrow> front_step cs s (s\<lparr>phase := Booting\<rparr>)"
| verify: "phase s = Booting \<Longrightarrow> u = [] \<or> u = saved_uuid s \<Longrightarrow> front_step cs s (fst (VerifyState u s))"
| ready: "phase s = Booting \<Longrightarrow> front_step cs s (backend_ready s)"
| wake: "0 < woken s \<Longrightarrow> front_step cs s (waitForBackend s)"

text \<open>A process that has ended takes no step.\<close>

inductive front_reachable :: "cause set \<Rightarrow> bool \<Rightarrow> string \<Rightarrow> front \<Rightarrow> bool" for cs integ saved where
  start: "front_reachable cs integ saved (frontend_start integ saved)"
| step: "front_reachable cs integ saved s \<Longrightarrow> \<not> crashed s \<Longrightarrow> front_step cs s s' \<Longrightarrow> front_reachable cs integ saved s'"

inductive later :: "cause set \<Rightarrow> front \<Rightarrow> front \<Rightarrow> bool" for cs where
  now: "later cs s s"
| after: "later cs s t \<Longrightarrow> \<not> crashed t \<Longrightarrow> front_step cs t u \<Longrightarrow> later cs s u"

subsection \<open>Calls in progress\<close>

definition in_call :: "handler \<Rightarrow> bool" where "in_call x \<longleftrightarrow> call_of (pc x) \<noteq> None"

definition calls :: "front \<Rightarrow> int" where "calls s = int (length (filter in_call (handlers s)))"

lemma filter_update:
  "h < length xs \<Longrightarrow> int (length (filter P (xs[h := x]))) =
     int (length (filter P xs)) - (if P (xs ! h) then 1 else 0) + (if P x then 1 else 0)"
proof (induction xs arbitrary: h)
  case (Cons y ys)
  show ?case
  proof (cases h)
    case (Suc n)
    then show ?thesis using Cons.IH [of n] Cons.prems by auto
  qed simp
qed simp

lemma calls_set_handler:
  "h < length (handlers s) \<Longrightarrow> calls (set_handler h f s) =
     calls s - (if in_call (handlers s ! h) then 1 else 0) + (if in_call (f (handlers s ! h)) then 1 else 0)"
  by (simp add: calls_def set_handler_def filter_update)

lemma with_call_simps [simp]:
  "call_of p \<noteq> None \<Longrightarrow> call_of (with_call c p) = Some c" "call_of (with_call c p) = None \<longleftrightarrow> call_of p = None"
  by (cases p; simp)+

text \<open>Changes of the state that leave the handlers' places alone.\<close>

lemma handlers_set_handler [simp]: "length (handlers (set_handler h f s)) = length (handlers s)"
  by (simp add: set_handler_def)

lemma nth_set_handler:
  "i < length (handlers s) \<Longrightarrow> handlers (set_handler h f s) ! i = (if i = h then f (handlers s ! i) else handlers s ! i)"
  by (simp add: set_handler_def)

lemma set_handler_other [simp]:
  "mutex (set_handler h f s) = mutex s" "busy (set_handler h f s) = busy s" "table (set_handler h f s) = table s"
  "counts (set_handler h f s) = counts s" "uuid (set_handler h f s) = uuid s" "saved_uuid (set_handler h f s) = saved_uuid s"
  "integrated (set_handler h f s) = integrated s" "phase (set_handler h f s) = phase s"
  "wait_count (set_handler h f s) = wait_count s" "woken (set_handler h f s) = woken s"
  "crashed (set_handler h f s) = crashed s" "fatal (set_handler h f s) = fatal s" "rpc_log (set_handler h f s) = rpc_log s"
  by (simp_all add: set_handler_def)

lemma calls_update [simp]:
  "calls (s\<lparr>mutex := m\<rparr>) = calls s" "calls (s\<lparr>busy := n\<rparr>) = calls s" "calls (s\<lparr>table := t\<rparr>) = calls s"
  "calls (s\<lparr>counts := c\<rparr>) = calls s" "calls (s\<lparr>uuid := u\<rparr>) = calls s" "calls (s\<lparr>saved_uuid := u\<rparr>) = calls s"
  "calls (s\<lparr>phase := p\<rparr>) = calls s" "calls (s\<lparr>wait_count := w\<rparr>) = calls s" "calls (s\<lparr>woken := w\<rparr>) = calls s"
  "calls (s\<lparr>crashed := b\<rparr>) = calls s" "calls (s\<lparr>fatal := b\<rparr>) = calls s" "calls (s\<lparr>rpc_log := l\<rparr>) = calls s"
  by (simp_all add: calls_def)

definition reset_connections :: "front \<Rightarrow> handler list" where
  "reset_connections s =
     map (\<lambda>(i, x). if table s (key_of x) = Some i then x\<lparr>connected := False\<rparr> else x) (enumerate 0 (handlers s))"

lemma reset_nth:
  "length (reset_connections s) = length (handlers s)"
  "i < length (handlers s) \<Longrightarrow> reset_connections s ! i =
     (if table s (key_of (handlers s ! i)) = Some i then (handlers s ! i)\<lparr>connected := False\<rparr> else handlers s ! i)"
  by (simp_all add: reset_connections_def nth_enumerate_eq)

lemma calls_accept [simp]: "calls (frontendListen server s) = calls s"
  by (simp add: calls_def frontendListen_def in_call_def Let_def)

lemma VerifyState_reset: "VerifyState u s = (if \<not> mutex s then (s, None)
    else if u \<noteq> uuid s then (s\<lparr>table := Map.empty, handlers := reset_connections s\<rparr>, Some False) else (s, Some (u \<noteq> [])))"
  by (simp add: VerifyState_def reset_connections_def)

lemma filter_map_same:
  "length xs = length ys \<Longrightarrow> (\<And>i. i < length xs \<Longrightarrow> P (xs ! i) = P (ys ! i)) \<Longrightarrow>
   length (filter P xs) = length (filter P ys)"
proof (induction xs ys rule: list_induct2')
  case (4 x xs y ys)
  have "P (xs ! i) = P (ys ! i)" if "i < length xs" for i using 4(3) [of "Suc i"] that by simp
  then show ?case using 4(1,2) 4(3) [of 0] by simp
qed simp_all

lemma calls_reset [simp]: "calls (s\<lparr>table := t, handlers := reset_connections s\<rparr>) = calls s"
  by (simp add: calls_def) (rule filter_map_same, simp_all add: reset_nth in_call_def)

lemma calls_SendPacket [simp]: "calls (serve_request q s) = calls s"
proof -
  have "calls (set_handler h f s) = calls s" if "\<And>x. pc (f x) = pc x" for h f
  proof (cases "h < length (handlers s)")
    case True
    then show ?thesis by (simp add: calls_set_handler in_call_def that)
  qed (simp add: set_handler_def calls_def list_update_beyond not_less)
  then show ?thesis
    by (cases q) (simp_all add: serve_request_def SendPacket_def CloseConnection_def split: option.split)
qed

lemma serve_request_other [simp]:
  "mutex (serve_request q s) = mutex s" "busy (serve_request q s) = busy s" "table (serve_request q s) = table s"
  "phase (serve_request q s) = phase s" "wait_count (serve_request q s) = wait_count s" "woken (serve_request q s) = woken s"
  "crashed (serve_request q s) = crashed s" "fatal (serve_request q s) = fatal s" "rpc_log (serve_request q s) = rpc_log s"
  "uuid (serve_request q s) = uuid s" "integrated (serve_request q s) = integrated s" "saved_uuid (serve_request q s) = saved_uuid s"
  "length (handlers (serve_request q s)) = length (handlers s)"
  by (cases q; simp add: serve_request_def SendPacket_def CloseConnection_def split: option.split)+


lemmas front_operations =
  register_connection_def new_call_done_def drop_failed_def receive_packet_def forward_packet_def packet_call_done_def
  leave_connection_def close_call_done_def shutdown_locks_def ShutdownBackend_def backend_stops_def backend_ready_def
  waitForBackend_def VerifyState_reset set_pc_def

lemma frontend_accept [simp]:
  "mutex (frontendListen server s) = mutex s" "busy (frontendListen server s) = busy s"
  "table (frontendListen server s) = table s" "phase (frontendListen server s) = phase s"
  "wait_count (frontendListen server s) = wait_count s" "woken (frontendListen server s) = woken s"
  "fatal (frontendListen server s) = fatal s" "rpc_log (frontendListen server s) = rpc_log s"
  "uuid (frontendListen server s) = uuid s" "integrated (frontendListen server s) = integrated s"
  by (simp_all add: frontendListen_def Let_def)

lemma busy_step:
  assumes "front_step cs s s'" and "busy s = calls s"
  shows "busy s' = calls s'"
  using assms
  by (cases rule: front_step.cases)
     (auto simp: front_operations pc_is_def calls_set_handler in_call_def Let_def split: rpc_result.splits)

subsection \<open>The busy count and the mutex\<close>

lemma calls_nonneg: "0 \<le> calls s"
  by (simp add: calls_def)

lemma calls_zero: "calls s = 0 \<Longrightarrow> h < length (handlers s) \<Longrightarrow> call_of (pc (handlers s ! h)) = None"
  using nth_mem [of h "handlers s"] by (auto simp: calls_def filter_empty_conv in_call_def)

lemma busy_counts_calls: "front_reachable cs integ saved s \<Longrightarrow> busy s = calls s"
  by (induction rule: front_reachable.induct) (simp add: frontend_start_def calls_def, rule busy_step)

text \<open>
  Who holds the mutex and who will unlock it, in each phase. At most one goroutine waits for the next back end, unless
  \<open>ReloadBackend\<close> is called on a front end that did not start the back end itself: \<open>one_waiter\<close> is the absence of that.
\<close>

definition one_waiter :: "cause set \<Rightarrow> bool \<Rightarrow> bool" where
  "one_waiter cs integ \<longleftrightarrow> integ \<or> ByReload \<notin> cs"

fun phase_ok :: "bool \<Rightarrow> phase \<Rightarrow> front \<Rightarrow> bool" where
  "phase_ok integ Serving s \<longleftrightarrow> \<not> mutex s \<and> wait_count s = 0 \<and> woken s = 0"
| "phase_ok integ (Draining c) s \<longleftrightarrow> mutex s \<and> wait_count s = 0 \<and> woken s = 0 \<and> (integ \<or> c = ByBackend)"
| "phase_ok integ (Stopping c u) s \<longleftrightarrow>
     mutex s \<and> wait_count s = (if integ then 0 else 1) \<and> woken s = 0 \<and> (integ \<or> c = ByBackend) \<and> calls s = 0"
| "phase_ok integ Down s \<longleftrightarrow> mutex s \<and> wait_count s \<le> 1 \<and> woken s = 0 \<and> calls s = 0"
| "phase_ok integ Booting s \<longleftrightarrow> mutex s \<and> wait_count s \<le> 1 \<and> woken s = 0 \<and> calls s = 0"
| "phase_ok integ Ready s \<longleftrightarrow> mutex s \<and> wait_count s = 0 \<and> woken s \<le> 1 \<and> calls s = 0"

definition lock_ok :: "bool \<Rightarrow> front \<Rightarrow> bool" where
  "lock_ok integ s \<longleftrightarrow> integrated s = integ \<and> \<not> fatal s \<and> phase_ok integ (phase s) s"

lemma phase_ok_cong:
  "mutex s' = mutex s \<Longrightarrow> wait_count s' = wait_count s \<Longrightarrow> woken s' = woken s \<Longrightarrow> calls s' = calls s \<Longrightarrow>
   phase_ok integ p s' = phase_ok integ p s"
  by (cases p) simp_all

lemma phase_ok_serving: "phase_ok integ p s \<Longrightarrow> \<not> mutex s \<Longrightarrow> p = Serving"
  by (cases p) simp_all

lemma phase_ok_calls: "phase_ok integ p s \<Longrightarrow> calls s \<noteq> 0 \<Longrightarrow> p = Serving \<or> (\<exists>c. p = Draining c)"
  by (cases p) simp_all

text \<open>A step of a connection that is not in a locked phase, or that keeps the calls in a locked one.\<close>

lemma phase_ok_handler:
  assumes "phase_ok integ p s" and "mutex s' = mutex s" "wait_count s' = wait_count s" "woken s' = woken s"
    and "\<not> mutex s \<or> calls s \<noteq> 0 \<or> calls s' = calls s"
  shows "phase_ok integ p s'"
  using assms phase_ok_serving [OF assms(1)] phase_ok_calls [OF assms(1)] phase_ok_cong [OF assms(2-4), of integ p]
  by (cases p) auto

definition same_control :: "front \<Rightarrow> front \<Rightarrow> bool" where
  "same_control s s' \<longleftrightarrow> mutex s' = mutex s \<and> wait_count s' = wait_count s \<and> woken s' = woken s \<and> phase s' = phase s \<and>
     fatal s' = fatal s \<and> integrated s' = integrated s \<and> (\<not> mutex s \<or> calls s \<noteq> 0 \<or> calls s' = calls s)"

lemma lock_same: "same_control s s' \<Longrightarrow> lock_ok integ s \<Longrightarrow> lock_ok integ s'"
  using phase_ok_handler [of integ "phase s" s s'] by (auto simp: same_control_def lock_ok_def)

lemma lock_step:
  assumes "front_step cs s s'" and "one_waiter cs integ" and "lock_ok integ s" and "busy s = calls s"
  shows "lock_ok integ s'"
  using assms(1)
proof (cases rule: front_step.cases)
  case (lock c)
  then show ?thesis using assms(2,3) by (cases c) (auto simp: lock_ok_def shutdown_locks_def one_waiter_def)
next
  case (drained c u)
  then show ?thesis using assms(3,4) by (auto simp: lock_ok_def ShutdownBackend_def)
next
  case (stop c u)
  then show ?thesis using assms(3) by (auto simp: lock_ok_def backend_stops_def)
next
  case boot
  then show ?thesis using assms(3) by (auto simp: lock_ok_def)
next
  case (verify u)
  then show ?thesis using assms(3) by (auto simp: lock_ok_def VerifyState_reset)
next
  case ready
  then show ?thesis using assms(3) by (auto simp: lock_ok_def backend_ready_def)
next
  case wake
  then show ?thesis using assms(3) by (cases "phase s") (auto simp: lock_ok_def waitForBackend_def)
qed (rule lock_same [OF _ assms(3)], auto simp: same_control_def front_operations pc_is_def calls_set_handler in_call_def
      Let_def dest: calls_zero split: rpc_result.splits)+

lemma lock_reachable:
  assumes "front_reachable cs integ saved s" and "one_waiter cs integ"
  shows "lock_ok integ s"
  using assms
proof (induction rule: front_reachable.induct)
  case start
  show ?case by (simp add: lock_ok_def frontend_start_def calls_def)
next
  case (step s s')
  then show ?case using lock_step busy_counts_calls by blast
qed

text \<open>
  A front end that did not start the back end and is asked to reload it waits twice for the same channel, and the second
  waiter unlocks a mutex that is not locked, which ends the process.
\<close>

lemma reload_of_separate_backend_ends_frontend:
  assumes "ByReload \<in> cs"
  shows "\<exists>s. front_reachable cs False saved s \<and> fatal s"
proof -
  let ?R = "front_reachable cs False saved"
  let ?s0 = "frontend_start False saved"
  let ?s2 = "waitForBackend (backend_ready ?s0)"
  let ?s3 = "ShutdownBackend ByReload ''u'' (shutdown_locks ByReload ?s2)"
  let ?s5 = "waitForBackend (backend_ready (backend_stops ByReload ''u'' ?s3))"
  note d = frontend_start_def backend_ready_def waitForBackend_def shutdown_locks_def ShutdownBackend_def backend_stops_def
  have "?R ?s0" by (rule front_reachable.start)
  then have "?R (backend_ready ?s0)" by (rule front_reachable.step [OF _ _ front_step.ready]) (simp_all add: d)
  then have "?R ?s2" by (rule front_reachable.step [OF _ _ front_step.wake]) (simp_all add: d)
  then have "?R (shutdown_locks ByReload ?s2)" by (rule front_reachable.step [OF _ _ front_step.lock]) (simp_all add: d assms)
  then have "?R ?s3" by (rule front_reachable.step [OF _ _ front_step.drained]) (simp_all add: d)
  then have "?R (backend_stops ByReload ''u'' ?s3)"
    by (rule front_reachable.step [OF _ _ front_step.stop]) (simp_all add: d)
  then have "?R (backend_ready (backend_stops ByReload ''u'' ?s3))"
    by (rule front_reachable.step [OF _ _ front_step.ready]) (simp_all add: d)
  then have "?R ?s5" by (rule front_reachable.step [OF _ _ front_step.wake]) (simp_all add: d)
  then have r: "?R (waitForBackend ?s5)" by (rule front_reachable.step [OF _ _ front_step.wake]) (simp_all add: d)
  have "fatal (waitForBackend ?s5)" by (simp add: d)
  with r show ?thesis by blast
qed

text \<open>C4. From the moment the calls have drained until the next back end is connected, the mutex is held and no call to the back end is
  in progress or begins, and the mutex is never unlocked twice: a back end that saves its state is not called any more, and
  one that loads it is not called yet. This is guaranteed exactly when \<open>ReloadBackend\<close> is not called on a front end that did
  not start the back end itself; otherwise a run ends with a fatal second unlock.
\<close>

theorem restart_is_quiet:
  "(\<forall>s. front_reachable cs integ saved s \<longrightarrow>
      \<not> fatal s \<and> (mutex s \<longleftrightarrow> phase s \<noteq> Serving) \<and>
      (phase s = Serving \<or> (\<exists>c. phase s = Draining c) \<or>
       (\<forall>h < length (handlers s). call_of (pc (handlers s ! h)) = None)))
   \<longleftrightarrow> integ \<or> ByReload \<notin> cs"
proof -
  have "\<not> fatal s \<and> (mutex s \<longleftrightarrow> phase s \<noteq> Serving) \<and> (phase s = Serving \<or> (\<exists>c. phase s = Draining c) \<or>
      (\<forall>h < length (handlers s). call_of (pc (handlers s ! h)) = None))"
    if "front_reachable cs integ saved s" "integ \<or> ByReload \<notin> cs" for s
    using lock_reachable [OF that(1)] that(2) calls_zero [of s]
    by (cases "phase s") (auto simp: lock_ok_def one_waiter_def)
  moreover have "\<exists>s. front_reachable cs integ saved s \<and> fatal s" if "\<not> (integ \<or> ByReload \<notin> cs)"
    using reload_of_separate_backend_ends_frontend [of cs saved] that by simp
  ultimately show ?thesis by meson
qed

subsection \<open>A shutdown that never ends\<close>

definition trapped :: "cause \<Rightarrow> nat \<Rightarrow> back_request \<Rightarrow> front \<Rightarrow> bool" where
  "trapped c h q s \<longleftrightarrow> phase s = Draining c \<and> mutex s \<and> woken s = 0 \<and> busy s = calls s \<and> h < length (handlers s) \<and>
     call_of (pc (handlers s ! h)) = Some (Waiting q)"

lemma trapped_busy: "trapped c h q s \<Longrightarrow> busy s \<noteq> 0"
  using calls_zero [of s h] by (auto simp: trapped_def)

lemma trapped_step:
  assumes "front_step cs s s'" and "trapped c h q s"
  shows "trapped c h q s'"
proof -
  have b: "busy s' = calls s'" using busy_step [OF assms(1)] assms(2) by (simp add: trapped_def)
  note nz = trapped_busy [OF assms(2)]
  have other: "call_of (pc (handlers s ! h)) = Some (Waiting q)" "h < length (handlers s)" "mutex s" "phase s = Draining c"
    "woken s = 0" using assms(2) by (simp_all add: trapped_def)
  from assms(1) show ?thesis
  proof (cases rule: front_step.cases)
    case (accept server)
    then show ?thesis using other b by (simp add: trapped_def) (simp add: frontendListen_def nth_append Let_def)
  qed (use other b nz in \<open>auto simp: trapped_def front_operations pc_is_def nth_set_handler Let_def split: rpc_result.splits\<close>)
qed

text \<open>C5. If a shutdown begins while the back end, in a call it is serving, waits to send a packet or to close a connection, it never
  ends: the shutdown holds the mutex that the request needs and waits for the call that waits for the request. In every later
  state the mutex is held and the request unanswered, so no connection is served any more. (At most one goroutine waits for the
  next back end: \<open>ReloadBackend\<close> is not called on a front end that did not start the back end itself.)
\<close>

theorem shutdown_deadlock:
  assumes "front_reachable cs integ saved s" and "one_waiter cs integ" and "phase s = Draining c"
    and "h < length (handlers s)" and "call_of (pc (handlers s ! h)) = Some (Waiting q)" and "later cs s t"
  shows "phase t = Draining c \<and> mutex t \<and> call_of (pc (handlers t ! h)) = Some (Waiting q)"
proof -
  have "lock_ok integ s" by (rule lock_reachable [OF assms(1,2)])
  then have "trapped c h q s"
    using busy_counts_calls [OF assms(1)] assms(3-5) by (simp add: trapped_def lock_ok_def)
  with assms(6) have "trapped c h q t"
    by (induction rule: later.induct) (auto dest: trapped_step)
  then show ?thesis by (simp add: trapped_def)
qed

text \<open>Such a state is reached by one connection whose first packet the back end answers.\<close>

definition sample_open :: front where
  "sample_open = new_call_done 0 True (register_connection 0 (frontendListen ''gpcm''
     (waitForBackend (backend_ready (frontend_start True [])))))"

definition sample_forwarded :: front where
  "sample_forwarded = forward_packet 0 [1] (receive_packet 0 [1] sample_open)"

lemmas sample_front = sample_open_def sample_forwarded_def frontend_start_def backend_ready_def waitForBackend_def
  frontendListen_def new_call_done_def register_connection_def forward_packet_def receive_packet_def set_pc_def
  set_handler_def pc_is_def

lemma sample_front_reachable:
  "front_reachable {ByReload} True [] sample_open" "front_reachable {ByReload} True [] sample_forwarded"
proof -
  let ?R = "front_reachable {ByReload} True []"
  let ?s0 = "frontend_start True []"
  let ?s2 = "waitForBackend (backend_ready ?s0)"
  let ?s3 = "frontendListen ''gpcm'' ?s2"
  have "?R ?s0" by (rule front_reachable.start)
  then have "?R (backend_ready ?s0)" by (rule front_reachable.step [OF _ _ front_step.ready]) (simp_all add: sample_front)
  then have "?R ?s2" by (rule front_reachable.step [OF _ _ front_step.wake]) (simp_all add: sample_front)
  then have "?R ?s3" by (rule front_reachable.step [OF _ _ front_step.accept]) (simp add: sample_front)
  then have "?R (register_connection 0 ?s3)"
    by (rule front_reachable.step [OF _ _ front_step.register]) (simp_all add: sample_front)
  then have "?R (new_call_done 0 True (register_connection 0 ?s3))"
    by (rule front_reachable.step [OF _ _ front_step.new_done]) (simp_all add: sample_front)
  then show o: "?R sample_open" by (simp only: sample_open_def)
  then have "?R (receive_packet 0 [1] sample_open)"
    by (rule front_reachable.step [OF _ _ front_step.receive]) (simp_all add: sample_front)
  then show "?R sample_forwarded"
    unfolding sample_forwarded_def
    by (rule front_reachable.step [OF _ _ front_step.forward]) (simp_all add: sample_front)
qed

lemma sample_deadlock:
  "\<exists>s. front_reachable {ByReload} True [] s \<and> phase s = Draining ByReload \<and> 0 < length (handlers s) \<and>
     call_of (pc (handlers s ! 0)) = Some (Waiting (SendPacketReq (''gpcm'', 1) [2]))"
proof -
  let ?R = "front_reachable {ByReload} True []"
  let ?s = "set_pc 0 (with_call (Waiting (SendPacketReq (''gpcm'', 1) [2])) (pc (handlers sample_forwarded ! 0))) sample_forwarded"
  have "?R ?s"
    by (rule front_reachable.step [OF sample_front_reachable(2) _ front_step.ask]) (simp_all add: sample_front)
  then have r: "?R (shutdown_locks ByReload ?s)"
    by (rule front_reachable.step [OF _ _ front_step.lock]) (simp_all add: sample_front)
  have p: "phase (shutdown_locks ByReload ?s) = Draining ByReload \<and> 0 < length (handlers (shutdown_locks ByReload ?s)) \<and>
      call_of (pc (handlers (shutdown_locks ByReload ?s) ! 0)) = Some (Waiting (SendPacketReq (''gpcm'', 1) [2]))"
    by (simp add: sample_front shutdown_locks_def)
  show ?thesis by (rule exI [of _ "shutdown_locks ByReload ?s"]) (rule conjI [OF r p])
qed

theorem shutdown_deadlock_witness:
  "\<exists>s. front_reachable {ByReload} True [] s \<and> (\<forall>t. later {ByReload} s t \<longrightarrow> mutex t)"
proof -
  obtain s where s: "front_reachable {ByReload} True [] s" "phase s = Draining ByReload" "0 < length (handlers s)"
    "call_of (pc (handlers s ! 0)) = Some (Waiting (SendPacketReq (''gpcm'', 1) [2]))"
    using sample_deadlock by blast
  have "one_waiter {ByReload} True" by (simp add: one_waiter_def)
  from shutdown_deadlock [OF s(1) this s(2-4)] s(1) show ?thesis by blast
qed

text \<open>A reload with one connection open: the shutdown waits for nothing, and the back end stops.\<close>

definition sample_stopping :: front where
  "sample_stopping = ShutdownBackend ByReload ''u'' (shutdown_locks ByReload sample_open)"

lemma sample_stopping: "front_reachable {ByReload} True [] sample_stopping"
proof -
  have "front_reachable {ByReload} True [] (shutdown_locks ByReload sample_open)"
    by (rule front_reachable.step [OF sample_front_reachable(1) _ front_step.lock]) (simp_all add: sample_front)
  then show ?thesis
    unfolding sample_stopping_def
    by (rule front_reachable.step [OF _ _ front_step.drained]) (simp_all add: sample_front shutdown_locks_def)
qed

theorem restart_is_quiet_witness:
  "\<not> fatal sample_stopping \<and> mutex sample_stopping \<and> length (handlers sample_stopping) = 1 \<and>
     call_of (pc (handlers sample_stopping ! 0)) = None"
proof -
  have p: "phase sample_stopping = Stopping ByReload []" "length (handlers sample_stopping) = 1"
    by (simp_all add: sample_stopping_def ShutdownBackend_def shutdown_locks_def sample_front)
  from restart_is_quiet [of "{ByReload}" True "[]"] sample_stopping show ?thesis using p by fastforce
qed

subsection \<open>What the back end is told of a connection\<close>

definition told :: "nat \<Rightarrow> front \<Rightarrow> rpc_call list" where
  "told h s = map snd (filter (\<lambda>(i, _). i = h) (rpc_log s))"

fun told_ok :: "program_counter \<Rightarrow> bytes list \<Rightarrow> rpc_call list \<Rightarrow> bool" where
  "told_ok Starting r l \<longleftrightarrow> l = [] \<and> r = []"
| "told_ok (NewCall _) r l \<longleftrightarrow> l = [RpcNew] \<and> r = []"
| "told_ok Failing r l \<longleftrightarrow> l = [RpcNew] \<and> r = []"
| "told_ok (GotPacket b) r l \<longleftrightarrow> (\<exists>r'. r = r' @ [b] \<and> l = RpcNew # map RpcPacket r')"
| "told_ok (CloseCall _) r l \<longleftrightarrow> l = RpcNew # map RpcPacket r @ [RpcClose]"
| "told_ok Finished r l \<longleftrightarrow> l = RpcNew # map RpcPacket r \<or> l = RpcNew # map RpcPacket r @ [RpcClose]"
| "told_ok _ r l \<longleftrightarrow> l = RpcNew # map RpcPacket r"

definition protocol_ok :: "front \<Rightarrow> bool" where
  "protocol_ok s \<longleftrightarrow> (\<forall>h < length (handlers s). told_ok (pc (handlers s ! h)) (received (handlers s ! h)) (told h s)) \<and>
     (\<forall>h \<ge> length (handlers s). told h s = [])"

text \<open>What a step does to one connection, and what it adds to the log, decides: the rest is unchanged.\<close>

lemma protocol_handler:
  assumes "protocol_ok s" and "h < length (handlers s)" and "handlers s' = (handlers s)[h := x]"
    and "rpc_log s' = rpc_log s @ map (Pair h) cs"
    and "told_ok (pc (handlers s ! h)) (received (handlers s ! h)) (told h s) \<Longrightarrow> told_ok (pc x) (received x) (told h s @ cs)"
  shows "protocol_ok s'"
proof -
  have "filter (\<lambda>(i, _). i = j) (map (Pair h) cs) = (if j = h then map (Pair h) cs else [])" for j
    by (induction cs) auto
  then have t: "told j s' = (if j = h then told h s @ cs else told j s)" for j
    using assms(4) by (auto simp: told_def comp_def)
  have all: "told_ok (pc (handlers s ! j)) (received (handlers s ! j)) (told j s)" if "j < length (handlers s)" for j
    using assms(1) that by (simp add: protocol_ok_def)
  have none: "told j s = []" if "length (handlers s) \<le> j" for j using assms(1) that by (simp add: protocol_ok_def)
  have len: "length (handlers s') = length (handlers s)" by (simp add: assms(3))
  show ?thesis
    unfolding protocol_ok_def len
  proof (intro conjI allI impI)
    fix j assume j: "j < length (handlers s)"
    show "told_ok (pc (handlers s' ! j)) (received (handlers s' ! j)) (told j s')"
      using assms(5) [OF all [OF assms(2)]] all [OF j] assms(2) by (cases "j = h") (simp_all add: assms(3) t)
  next
    fix j assume j: "length (handlers s) \<le> j"
    then show "told j s' = []" using none [OF j] assms(2) by (simp add: t)
  qed
qed

lemma protocol_same:
  assumes "protocol_ok s" and "length (handlers s') = length (handlers s)" and "rpc_log s' = rpc_log s"
    and "\<And>h. h < length (handlers s) \<Longrightarrow> pc (handlers s' ! h) = pc (handlers s ! h) \<and> received (handlers s' ! h) = received (handlers s ! h)"
  shows "protocol_ok s'"
  using assms by (auto simp: protocol_ok_def told_def)

lemma set_handler_keeps:
  assumes "\<And>x. pc (f x) = pc x \<and> received (f x) = received x"
  shows "pc (handlers (set_handler g f s) ! h) = pc (handlers s ! h) \<and>
    received (handlers (set_handler g f s) ! h) = received (handlers s ! h)"
  using assms
  by (cases "g < length (handlers s)"; cases "g = h") (simp_all add: set_handler_def list_update_beyond)

lemma protocol_serve: "protocol_ok s \<Longrightarrow> protocol_ok (serve_request q s)"
  by (rule protocol_same)
     (cases q; simp add: serve_request_def SendPacket_def CloseConnection_def set_handler_keeps split: option.split)+

text \<open>A step of one connection that tells the back end nothing.\<close>

lemma protocol_quiet:
  assumes "protocol_ok s" and "h < length (handlers s)" and "handlers s' = handlers (set_handler h f s)"
    and "rpc_log s' = rpc_log s"
    and "\<And>l. told_ok (pc (handlers s ! h)) (received (handlers s ! h)) l \<Longrightarrow>
      told_ok (pc (f (handlers s ! h))) (received (f (handlers s ! h))) l"
  shows "protocol_ok s'"
  using assms(3-5) by (intro protocol_handler [OF assms(1,2), of s' "f (handlers s ! h)" "[]"]) (simp_all add: set_handler_def)

lemma told_with_call: "told_ok (with_call c p) r l = told_ok p r l"
  by (cases p) simp_all

lemma protocol_step:
  assumes "front_step cs s s'" and "protocol_ok s"
  shows "protocol_ok s'"
  using assms(1)
proof (cases rule: front_step.cases)
  case (accept server)
  have "told (length (handlers s)) s = []" using assms(2) by (simp add: protocol_ok_def)
  then show ?thesis
    using assms(2) accept
    by (auto simp: protocol_ok_def told_def frontendListen_def nth_append less_Suc_eq Let_def)
next
  case (register h)
  then show ?thesis
    by (intro protocol_handler [OF assms(2), of h _ _ "[RpcNew]"])
       (auto simp: register_connection_def set_pc_def set_handler_def pc_is_def)
next
  case (forward h b)
  then show ?thesis
    by (intro protocol_handler [OF assms(2), of h _ _ "[RpcPacket b]"])
       (auto simp: forward_packet_def set_pc_def set_handler_def pc_is_def)
next
  case (leave h)
  show ?thesis
  proof (cases "table s (key_of (handlers s ! h)) = Some h")
    case True
    with leave show ?thesis
      by (intro protocol_handler [OF assms(2), of h _ _ "[RpcClose]"])
         (auto simp: leave_connection_def set_pc_def set_handler_def pc_is_def)
  next
    case False
    with leave show ?thesis
      by (intro protocol_handler [OF assms(2), of h _ _ "[]"])
         (auto simp: leave_connection_def set_pc_def set_handler_def pc_is_def)
  qed
next
  case (answer h q)
  have "protocol_ok (set_pc h (with_call Running (pc (handlers s ! h))) s)"
    using answer(3)
    by (intro protocol_handler [OF assms(2), of h _ "(handlers s ! h)\<lparr>pc := with_call Running (pc (handlers s ! h))\<rparr>" "[]"]) (auto simp: set_pc_def set_handler_def told_with_call)
  then show ?thesis using answer(1) protocol_serve by simp
next
  case (ask h q)
  then show ?thesis
    by (intro protocol_handler [OF assms(2), of h _ "(handlers s ! h)\<lparr>pc := with_call (Waiting q) (pc (handlers s ! h))\<rparr>" "[]"]) (auto simp: set_pc_def set_handler_def told_with_call)
next
  case (verify u)
  then show ?thesis
    using assms(2) by (auto simp: VerifyState_reset reset_nth elim!: protocol_same)
next
  case (new_done h ok)
  then show ?thesis
    by (intro protocol_quiet [OF assms(2), of h s' "\<lambda>x. x\<lparr>pc := if ok then Reading else Failing\<rparr>"])
       (auto simp: new_call_done_def set_pc_def set_handler_def pc_is_def Let_def split: rpc_result.splits)
next
  case (drop h)
  then show ?thesis
    by (intro protocol_quiet [OF assms(2), of h s' "\<lambda>x. x\<lparr>pc := Finished, connected := False\<rparr>"])
       (auto simp: drop_failed_def set_pc_def set_handler_def pc_is_def Let_def split: rpc_result.splits)
next
  case (receive h b)
  then show ?thesis
    by (intro protocol_quiet [OF assms(2), of h s' "\<lambda>x. x\<lparr>pc := GotPacket b, received := received x @ [b]\<rparr>"])
       (auto simp: receive_packet_def set_pc_def set_handler_def pc_is_def Let_def split: rpc_result.splits)
next
  case (read_error h)
  then show ?thesis
    by (intro protocol_quiet [OF assms(2), of h s' "\<lambda>x. x\<lparr>pc := Leaving\<rparr>"])
       (auto simp:  set_pc_def set_handler_def pc_is_def Let_def split: rpc_result.splits)
next
  case (packet_done h r)
  then show ?thesis
    by (intro protocol_quiet [OF assms(2), of h s' "\<lambda>x. x\<lparr>pc := if r = RpcOk then Reading else Leaving\<rparr>"])
       (auto simp: packet_call_done_def set_pc_def set_handler_def pc_is_def Let_def split: rpc_result.splits)
next
  case (close_done h r)
  then show ?thesis
    by (intro protocol_quiet [OF assms(2), of h s' "\<lambda>x. x\<lparr>pc := Finished, connected := False\<rparr>"])
       (auto simp: close_call_done_def set_pc_def set_handler_def pc_is_def Let_def split: rpc_result.splits)
qed (use protocol_same [OF assms(2), of s'] in \<open>simp_all add: front_operations\<close>)

lemma protocol_reachable: "front_reachable cs integ saved s \<Longrightarrow> protocol_ok s"
proof (induction rule: front_reachable.induct)
  case start
  show ?case by (simp add: protocol_ok_def frontend_start_def told_def)
next
  case (step s s')
  then show ?case using protocol_step by blast
qed

definition told_shape :: "bytes list \<Rightarrow> rpc_call list \<Rightarrow> bool" where
  "told_shape r l \<longleftrightarrow> l = [] \<or>
     (\<exists>ps rest tail. l = RpcNew # map RpcPacket ps @ tail \<and> r = ps @ rest \<and> length rest \<le> 1 \<and> (tail = [] \<or> tail = [RpcClose]))"

lemma told_shape_intros:
  "told_shape r (RpcNew # map RpcPacket r)" "told_shape r (RpcNew # map RpcPacket r @ [RpcClose])"
  "told_shape (r @ [b]) (RpcNew # map RpcPacket r)" "told_shape r []"
proof -
  show "told_shape r (RpcNew # map RpcPacket r)"
    unfolding told_shape_def by (intro disjI2 exI [of _ r] exI [of _ "[]"]) simp
  show "told_shape r (RpcNew # map RpcPacket r @ [RpcClose])"
    unfolding told_shape_def by (intro disjI2 exI [of _ r] exI [of _ "[]"] exI [of _ "[RpcClose]"]) simp
  show "told_shape (r @ [b]) (RpcNew # map RpcPacket r)"
    unfolding told_shape_def by (intro disjI2 exI [of _ r] exI [of _ "[b]"] exI [of _ "[]"]) simp
  show "told_shape r []" by (simp add: told_shape_def)
qed

lemma told_ok_shape: "told_ok p r l \<Longrightarrow> told_shape r l"
  using told_shape_intros(1) [of "[]"] by (cases p) (auto simp: told_shape_intros)

text \<open>C24. What the back end is told of a connection, through all restarts: first that it is new, then the packets in the order
  in which they arrived, none left out and at most the last one still missing, then perhaps that it is closed, and nothing after.
\<close>

theorem backend_protocol:
  assumes "front_reachable cs integ saved s" and "h < length (handlers s)"
  shows "told h s = [] \<or>
    (\<exists>ps rest tail. told h s = RpcNew # map RpcPacket ps @ tail \<and> received (handlers s ! h) = ps @ rest \<and> length rest \<le> 1 \<and>
       (tail = [] \<or> tail = [RpcClose]))"
  using protocol_reachable [OF assms(1)] assms(2) told_ok_shape unfolding protocol_ok_def told_shape_def by blast

subsection \<open>The table of connections and the saved state\<close>

fun registered :: "program_counter \<Rightarrow> bool" where
  "registered Starting \<longleftrightarrow> False"
| "registered (CloseCall _) \<longleftrightarrow> False"
| "registered Finished \<longleftrightarrow> False"
| "registered _ \<longleftrightarrow> True"

definition table_ok :: "front \<Rightarrow> bool" where
  "table_ok s \<longleftrightarrow> (\<forall>k h. table s k = Some h \<longrightarrow>
     h < length (handlers s) \<and> key_of (handlers s ! h) = k \<and> registered (pc (handlers s ! h)))"

text \<open>Which identifier the front end compares with the one the back end has saved.\<close>

fun uuid_ok :: "bool \<Rightarrow> string \<Rightarrow> phase \<Rightarrow> front \<Rightarrow> bool" where
  "uuid_ok True saved p s \<longleftrightarrow> uuid s = [] \<and> saved_uuid s = saved \<and> (\<forall>c u. p = Stopping c u \<longrightarrow> u = [])"
| "uuid_ok False saved p s \<longleftrightarrow>
     (case p of Stopping c u \<Rightarrow> u \<noteq> [] \<and> uuid s = u
      | _ \<Rightarrow> uuid s = [] \<and> saved_uuid s = saved \<or> uuid s \<noteq> [] \<and> saved_uuid s = uuid s)"

lemma uuid_step:
  assumes "front_step cs s s'" and "integrated s = integ" and "uuid_ok integ saved (phase s) s"
  shows "integrated s' = integ \<and> uuid_ok integ saved (phase s') s'"
proof -
  have k: "integrated s' = integrated s \<and> phase s' = phase s \<and> uuid s' = uuid s \<and> saved_uuid s' = saved_uuid s \<Longrightarrow> ?thesis"
    using assms(2,3) by (cases integ) (simp_all split: phase.splits)
  note control = front_operations assms(2)
  from assms(1) show ?thesis
  proof (cases rule: front_step.cases)
    case (accept server)
    then show ?thesis by (intro k) (simp add: frontendListen_def Let_def)
  next
    case (lock c)
    then show ?thesis using assms(3) by (cases integ) (simp_all add: control)
  next
    case (drained c u)
    then show ?thesis using assms(3) by (cases integ) (simp_all add: control)
  next
    case (stop c u)
    then show ?thesis using assms(3) by (cases integ) (simp_all add: control)
  next
    case boot
    then show ?thesis using assms(3) by (cases integ) (simp_all add: control)
  next
    case ready
    then show ?thesis using assms(3) by (cases integ) (simp_all add: control)
  next
    case wake
    show ?thesis
    proof (cases "mutex s \<and> phase s = Ready")
      case True
      then show ?thesis using wake assms(3) by (cases integ) (simp_all add: control)
    qed (intro k, auto simp: wake front_operations)
  qed (intro k, simp add: front_operations Let_def split: rpc_result.splits)+
qed

lemma uuid_reachable: "front_reachable cs integ saved s \<Longrightarrow> integrated s = integ \<and> uuid_ok integ saved (phase s) s"
proof (induction rule: front_reachable.induct)
  case start
  show ?case by (cases integ) (simp_all add: frontend_start_def)
next
  case (step s s')
  then show ?case using uuid_step by blast
qed

text \<open>C25. A back end gets its state back only from a front end it was started apart from, and only with the identifier of the
  last shutdown; then no connection is touched. After a shutdown of such a back end the identifier it has saved is the one the
  front end expects. A front end that starts the back end itself never lets it have its state.
\<close>

theorem state_restored_iff:
  assumes "front_reachable cs integ saved s" and "phase s = Booting" and "mutex s"
  shows "(snd (VerifyState u s) = Some True \<longleftrightarrow> \<not> integ \<and> u \<noteq> [] \<and> u = uuid s) \<and>
    (u = uuid s \<longrightarrow> fst (VerifyState u s) = s) \<and> (u \<noteq> uuid s \<longrightarrow> table (fst (VerifyState u s)) = Map.empty) \<and>
    (\<not> integ \<and> uuid s \<noteq> [] \<longrightarrow> saved_uuid s = uuid s)"
  using uuid_reachable [OF assms(1)] assms(2,3) by (cases integ) (auto simp: VerifyState_reset)

theorem backend_protocol_witness:
  "\<exists>ps rest tail. told 0 sample_forwarded = RpcNew # map RpcPacket ps @ tail \<and>
     received (handlers sample_forwarded ! 0) = ps @ rest \<and> length rest \<le> 1 \<and> (tail = [] \<or> tail = [RpcClose])"
proof -
  have "0 < length (handlers sample_forwarded)" "told 0 sample_forwarded \<noteq> []"
    by (simp_all add: sample_front told_def)
  then show ?thesis using backend_protocol [OF sample_front_reachable(2), of 0] by blast
qed

theorem state_restored_iff_witness:
  "snd (VerifyState ''x'' (frontend_start False ''x'')) \<noteq> Some True \<and> table (fst (VerifyState ''x'' (frontend_start False ''x''))) = Map.empty"
  using state_restored_iff [OF front_reachable.start [of "{ByBackend}" False "''x''"], of "''x''"]
  by (simp add: frontend_start_def)

lemma table_okD:
  "table_ok s \<Longrightarrow> table s k = Some h \<Longrightarrow> h < length (handlers s) \<and> key_of (handlers s ! h) = k \<and> registered (pc (handlers s ! h))"
  unfolding table_ok_def by blast

lemma table_handler:
  assumes "table_ok s" and "h < length (handlers s)" and "handlers s' = handlers (set_handler h f s)"
    and "\<And>k i. table s' k = Some i \<Longrightarrow> table s k = Some i \<or> i = h \<and> k = key_of (handlers s ! h)"
    and "key_of (f (handlers s ! h)) = key_of (handlers s ! h)"
    and "registered (pc (f (handlers s ! h))) \<or> table s' (key_of (handlers s ! h)) \<noteq> Some h"
  shows "table_ok s'"
  unfolding table_ok_def
proof (intro allI impI)
  fix k i assume t: "table s' k = Some i"
  have i: "i < length (handlers s) \<and> key_of (handlers s ! i) = k \<and> (i \<noteq> h \<longrightarrow> registered (pc (handlers s ! i)))"
    using assms(4) [OF t] assms(2) table_okD [OF assms(1), of k i] by auto
  show "i < length (handlers s') \<and> key_of (handlers s' ! i) = k \<and> registered (pc (handlers s' ! i))"
    using i t assms(5,6) by (auto simp: assms(3) nth_set_handler)
qed

lemma table_same:
  assumes "table_ok s" and "length (handlers s') = length (handlers s)" and "table s' = table s \<or> table s' = Map.empty"
    and "\<And>h. h < length (handlers s) \<Longrightarrow> pc (handlers s' ! h) = pc (handlers s ! h) \<and> key_of (handlers s' ! h) = key_of (handlers s ! h)"
  shows "table_ok s'"
  using assms by (auto simp: table_ok_def)

lemma serve_keeps:
  "pc (handlers (serve_request q s) ! h) = pc (handlers s ! h)" "key_of (handlers (serve_request q s) ! h) = key_of (handlers s ! h)"
proof -
  have "pc (handlers (set_handler g f s) ! h) = pc (handlers s ! h) \<and> key_of (handlers (set_handler g f s) ! h) = key_of (handlers s ! h)"
    if "\<And>x. pc (f x) = pc x \<and> key_of (f x) = key_of x" for g f
    using that by (cases "g < length (handlers s)"; cases "g = h") (simp_all add: set_handler_def list_update_beyond)
  then show "pc (handlers (serve_request q s) ! h) = pc (handlers s ! h)"
    "key_of (handlers (serve_request q s) ! h) = key_of (handlers s ! h)"
    by (cases q; simp add: serve_request_def SendPacket_def CloseConnection_def split: option.split)+
qed

lemma registered_with_call: "registered (with_call c p) = registered p"
  by (cases p) simp_all

lemma not_registered: "table_ok s \<Longrightarrow> h < length (handlers s) \<Longrightarrow> \<not> registered (pc (handlers s ! h)) \<Longrightarrow> table s k \<noteq> Some h"
  using table_okD [of s k h] by blast

lemma table_step:
  assumes "front_step cs s s'" and "table_ok s"
  shows "table_ok s'"
  using assms(1)
proof (cases rule: front_step.cases)
  case (accept server)
  then show ?thesis
    unfolding table_ok_def
    by (intro allI impI) (simp, drule table_okD [OF assms(2)], simp add: frontendListen_def nth_append Let_def)
next
  case (register h)
  then show ?thesis
    by (intro table_handler [OF assms(2), of h s' "\<lambda>x. x\<lparr>pc := NewCall Running\<rparr>"])
       (auto simp: register_connection_def set_pc_def set_handler_def pc_is_def split: if_splits)
next
  case (new_done h ok)
  then show ?thesis
    by (intro table_handler [OF assms(2), of h s' "\<lambda>x. x\<lparr>pc := if ok then Reading else Failing\<rparr>"])
       (auto simp: new_call_done_def set_pc_def set_handler_def pc_is_def)
next
  case (drop h)
  then show ?thesis
    by (intro table_handler [OF assms(2), of h s' "\<lambda>x. x\<lparr>pc := Finished, connected := False\<rparr>"])
       (auto simp: drop_failed_def set_handler_def pc_is_def split: if_splits)
next
  case (receive h b)
  then show ?thesis
    by (intro table_handler [OF assms(2), of h s' "\<lambda>x. x\<lparr>pc := GotPacket b, received := received x @ [b]\<rparr>"])
       (auto simp: receive_packet_def pc_is_def)
next
  case (read_error h)
  then show ?thesis
    by (intro table_handler [OF assms(2), of h s' "\<lambda>x. x\<lparr>pc := Leaving\<rparr>"]) (auto simp: set_pc_def pc_is_def)
next
  case (forward h b)
  then show ?thesis
    by (intro table_handler [OF assms(2), of h s' "\<lambda>x. x\<lparr>pc := PacketCall Running\<rparr>"])
       (auto simp: forward_packet_def set_pc_def set_handler_def pc_is_def)
next
  case (packet_done h r)
  then show ?thesis
    by (intro table_handler [OF assms(2), of h s' "\<lambda>x. x\<lparr>pc := if r = RpcOk then Reading else Leaving\<rparr>"])
       (auto simp: packet_call_done_def set_pc_def set_handler_def pc_is_def Let_def split: rpc_result.splits)
next
  case (leave h)
  then show ?thesis
    by (intro table_handler [OF assms(2), of h s' "\<lambda>x. if table s (key_of (handlers s ! h)) \<noteq> Some h
          then x\<lparr>pc := Finished, connected := False\<rparr> else x\<lparr>pc := CloseCall Running\<rparr>"])
       (auto simp: leave_connection_def set_pc_def set_handler_def pc_is_def split: if_splits)
next
  case (close_done h r)
  then have "table s k \<noteq> Some h" for k using not_registered [OF assms(2), of h] by (simp add: pc_is_def)
  with close_done show ?thesis
    by (intro table_handler [OF assms(2), of h s' "\<lambda>x. x\<lparr>pc := Finished, connected := False\<rparr>"])
       (auto simp: close_call_done_def set_handler_def pc_is_def)
next
  case (ask h q)
  have "registered (pc (handlers s ! h)) \<or> table s k \<noteq> Some h" for k using not_registered [OF assms(2)] ask by blast
  with ask show ?thesis
    by (intro table_handler [OF assms(2), of h s' "\<lambda>x. x\<lparr>pc := with_call (Waiting q) (pc (handlers s ! h))\<rparr>"])
       (auto simp: set_pc_def registered_with_call)
next
  case (answer h q)
  let ?t = "set_pc h (with_call Running (pc (handlers s ! h))) s"
  have "registered (pc (handlers s ! h)) \<or> table s k \<noteq> Some h" for k using not_registered [OF assms(2)] answer by blast
  then have "table_ok ?t" using answer(3)
    by (intro table_handler [OF assms(2), of h ?t "\<lambda>x. x\<lparr>pc := with_call Running (pc (handlers s ! h))\<rparr>"])
       (auto simp: set_pc_def registered_with_call)
  then have "table_ok (serve_request q ?t)" by (rule table_same) (simp_all add: serve_keeps)
  then show ?thesis using answer(1) by simp
next
  case (verify u)
  then show ?thesis by (intro table_same [OF assms(2), of s']) (auto simp: VerifyState_reset reset_nth)
qed (use table_same [OF assms(2), of s'] in \<open>simp_all add: front_operations\<close>)

text \<open>
  Every entry of the table of connections is a connection of that server and number which its goroutine has not
  left yet, so what the back end sends never goes to a connection of another number.
\<close>

theorem connections_consistent:
  assumes "front_reachable cs integ saved s" and "table s k = Some h"
  shows "h < length (handlers s) \<and> key_of (handlers s ! h) = k \<and> registered (pc (handlers s ! h))"
proof -
  from assms(1) have "table_ok s"
  proof (induction rule: front_reachable.induct)
    case start
    show ?case by (simp add: table_ok_def frontend_start_def)
  next
    case (step s s')
    then show ?case using table_step by blast
  qed
  then show ?thesis by (rule table_okD [OF _ assms(2)])
qed

theorem connections_consistent_witness:
  "key_of (handlers sample_open ! 0) = (''gpcm'', 1) \<and> registered (pc (handlers sample_open ! 0))"
proof -
  have "table sample_open (''gpcm'', 1) = Some 0" by (simp add: sample_front)
  from connections_consistent [OF sample_front_reachable(1) this] show ?thesis by blast
qed

end
