(* ===== verification/Startup.thy ===== *)
theory Startup
  imports GoStrings
begin

text \<open>
  What every process sets up first: the defaults of its configuration (\<open>common/config.go\<close>) and the callbacks of the events
  it reports (\<open>logging/event.go\<close>). Reading and parsing the file is the XML library's: its result is an argument, a field
  that was absent is \<open>None\<close> or the empty text, as in the struct.
\<close>

subsection \<open>Configuration\<close>

record config =
  Username :: string
  Password :: string
  DatabaseAddress :: string
  DatabaseName :: string
  DefaultAddress :: string
  GameSpyAddress :: "string option"
  ProbeAddress :: "string option"
  NASAddress :: "string option"
  NASPort :: string
  NASAddressHTTPS :: "string option"
  NASPortHTTPS :: string
  FrontendAddress :: string
  FrontendBackendAddress :: string
  BackendAddress :: string
  BackendFrontendAddress :: string
  LogLevel :: "int option"
  LogOutput :: string
  WiiCertPath :: string
  WiiKeyPath :: string
  ServerName :: string
  LogToDatabase :: bool

definition or_default :: "string \<Rightarrow> string \<Rightarrow> string" where
  "or_default s d = (if s = [] then d else s)"

definition or_address :: "string option \<Rightarrow> string option \<Rightarrow> string option" where
  "or_address a d = (case a of None \<Rightarrow> d | Some _ \<Rightarrow> a)"

lemma or_default_again: "or_default (or_default s d) d = or_default s d"
  by (simp add: or_default_def)

lemma or_address_simps [simp]: "or_address a (Some d) \<noteq> None" "or_address (or_address a b) b = or_address a b"
  by (simp_all add: or_address_def split: option.split)

text \<open>The defaults, in the order of the code: a later one may use an earlier one.\<close>

definition config_defaults :: "config \<Rightarrow> config" where
  "config_defaults c =
     (let c = c\<lparr>GameSpyAddress := or_address (GameSpyAddress c) (Some (DefaultAddress c)),
                ProbeAddress := or_address (ProbeAddress c) (Some (DefaultAddress c)),
                NASAddress := or_address (NASAddress c) (Some (DefaultAddress c))\<rparr>;
          c = c\<lparr>NASAddressHTTPS := or_address (NASAddressHTTPS c)
                  (if NASAddress c \<noteq> None then NASAddress c else Some (DefaultAddress c)),
                LogLevel := (if LogLevel c = None then Some 4 else LogLevel c),
                LogOutput := or_default (LogOutput c) ''StdOutAndFile'',
                FrontendAddress := or_default (FrontendAddress c) ''127.0.0.1:29998'',
                BackendAddress := or_default (BackendAddress c) ''127.0.0.1:29999''\<rparr>
      in c\<lparr>FrontendBackendAddress := or_default (FrontendBackendAddress c) (BackendAddress c),
           BackendFrontendAddress := or_default (BackendFrontendAddress c) (FrontendAddress c)\<rparr>)"

text \<open>
  \<open>GetConfig\<close> keeps the configuration it has loaded; \<open>decode\<close> is the parser, which fills in the struct it is given, and
  fails if the file is missing or no XML.
\<close>

definition GetConfig :: "(config \<Rightarrow> config option) \<Rightarrow> config \<Rightarrow> config option \<Rightarrow> (unit, config \<times> config option) outcome" where
  "GetConfig decode zero loaded =
     (case loaded of
        Some c \<Rightarrow> Ret (c, loaded)
      | None \<Rightarrow>
          (case decode (zero\<lparr>ServerName := ''OpenWFC''\<rparr>) of
             None \<Rightarrow> Panic
           | Some c \<Rightarrow> let c = config_defaults c in Ret (c, Some c)))"

text \<open>Every field the servers dereference is set, the two processes find each other, and what was given is kept.\<close>

lemma config_complete:
  "GameSpyAddress (config_defaults c) \<noteq> None \<and> ProbeAddress (config_defaults c) \<noteq> None \<and>
   NASAddress (config_defaults c) \<noteq> None \<and> NASAddressHTTPS (config_defaults c) \<noteq> None \<and> LogLevel (config_defaults c) \<noteq> None"
  by (simp add: config_defaults_def Let_def) (simp add: or_address_def split: option.split)

lemma config_rpc_addresses:
  "FrontendBackendAddress c = [] \<Longrightarrow> FrontendBackendAddress (config_defaults c) = BackendAddress (config_defaults c)"
  "BackendFrontendAddress c = [] \<Longrightarrow> BackendFrontendAddress (config_defaults c) = FrontendAddress (config_defaults c)"
  by (simp_all add: config_defaults_def or_default_def Let_def)

lemma config_idempotent: "config_defaults (config_defaults c) = config_defaults c"
  by (rule config.equality) (simp_all add: config_defaults_def or_default_again Let_def)

lemma GetConfig_loaded:
  "GetConfig decode zero loaded = Ret (c, loaded') \<Longrightarrow> loaded' = Some c \<and> GetConfig decode' zero' loaded' = Ret (c, loaded')"
  by (auto simp: GetConfig_def Let_def split: option.splits)

subsection \<open>Events\<close>

record 'f event_callback =
  Function :: 'f
  EventTypes :: "string set"
  AllEvents :: bool

text \<open>The loop over the types stops at \<open>all\<close> and forgets the others.\<close>

fun collect_types :: "string list \<Rightarrow> string set \<Rightarrow> string set \<times> bool" where
  "collect_types [] acc = (acc, False)"
| "collect_types (t # ts) acc = (if t = ''all'' then ({}, True) else collect_types ts (insert t acc))"

definition RegisterEventCallback :: "string list \<Rightarrow> 'f \<Rightarrow> 'f event_callback list \<Rightarrow> 'f event_callback list" where
  "RegisterEventCallback eventTypes callback cbs =
     (let (eventTypeSet, allEvents) = collect_types eventTypes {}
      in cbs @ [\<lparr>Function = callback, EventTypes = eventTypeSet, AllEvents = allEvents\<rparr>])"

text \<open>
  \<open>Event\<close> starts each callback in a goroutine, \<open>EventSynced\<close> calls them in turn: the functions called, in the order
  of registration.
\<close>

definition Event :: "string \<Rightarrow> 'f event_callback list \<Rightarrow> 'f list" where
  "Event eventType cbs = map Function (filter (\<lambda>c. AllEvents c \<or> eventType \<in> EventTypes c) cbs)"

lemma collect_types_result:
  "collect_types ts acc = (if ''all'' \<in> set ts then ({}, True) else (acc \<union> set ts, False))"
  by (induction ts acc rule: collect_types.induct) auto

fun registered_callbacks :: "(string list \<times> 'f) list \<Rightarrow> 'f event_callback list" where
  "registered_callbacks [] = []"
| "registered_callbacks (r # rs) = RegisterEventCallback (fst r) (snd r) (registered_callbacks rs)"

text \<open>An event reaches exactly the callbacks that asked for it or for all, each once, in the order of registration.\<close>

lemma event_reaches:
  "Event t (registered_callbacks rs) = map snd (filter (\<lambda>(ts, _). ''all'' \<in> set ts \<or> t \<in> set ts) (rev rs))"
  by (induction rs rule: registered_callbacks.induct)
     (auto simp: Event_def RegisterEventCallback_def collect_types_result case_prod_unfold)

end
