(* ===== verification/Spec2Isabelle.thy ===== *)
theory Spec2Isabelle
  imports KeyValues GsMessage GoBase64 FriendCode Mii RKG TypeX SBFraming GameList Qr2 NatNeg
    Encoding Database Aes AuthToken GpError MessageServer GsCrypt GameStats DwcRankings
    Gpcm GpcmSessions GpcmFriends Gpsp FilterMeaning ServerList
    NasHttp NasGpcm SakeService Race TlsHandshake
    FrontEnd Startup
begin

text \<open>
  A verification library for openwfc, a server for the Nintendo Wi-Fi Connection protocols.

  \<^bold>\<open>The program.\<close> A front end owns the sockets and passes every datagram, TCP segment and HTTP request
  to a back end over RPC. The back end is a set of servers that share a database, the table of games and
  the helpers of \<open>src/common\<close>:

  \<^item> query and reporting (\<open>src/qr2\<close>): game servers announce themselves over UDP and answer a challenge;
  \<^item> server browser (\<open>src/serverbrowser\<close>): lists of the announced servers, enciphered, over TCP;
  \<^item> NAT negotiation (\<open>src/natneg\<close>): introduces two clients behind routers to each other over UDP;
  \<^item> profiles (\<open>src/gpcm\<close>): login, friends, status and messages over TCP;
  \<^item> search (\<open>src/gpsp\<close>): profile search on the sessions of the profile server;
  \<^item> statistics (\<open>src/gamestats\<close>): persistent data over TCP and rankings over HTTP;
  \<^item> accounts (\<open>src/nas\<close>): creation of accounts, login tokens and downloads over HTTP;
  \<^item> storage (\<open>src/sake\<close>): records of typed fields over SOAP, and the ghosts and times of Mario Kart Wii over HTTP;
  \<^item> racing (\<open>src/race\<close>): the ten best times of a course over SOAP.

  \<^bold>\<open>How Go is modelled.\<close> A Go string is a HOL \<open>string\<close> of 8-bit characters and a byte slice a list of
  \<open>8 word\<close>; integers keep their width as words, so their arithmetic wraps; \<open>int\<close> is \<open>int\<close> where the
  code cannot reach its bounds. A call that can fail returns an \<open>outcome\<close>: \<open>Ret\<close>, \<open>Err\<close> with the
  error, or \<open>Panic\<close>. State is passed explicitly; what a handler sends is a list it returns. Clocks,
  random numbers, the iteration order of Go maps and the answers of the database that the schema leaves
  open are arguments.

  \<^bold>\<open>Ground.\<close> \<open>Prelude\<close> (outcomes, slices, tables), \<open>GoStrings\<close> and \<open>GoNumbers\<close> (packages \<open>strings\<close> and
  \<open>strconv\<close>), \<open>GoUtf8\<close> (code points of a string), \<open>GoBase64\<close>, \<open>GoCrypto\<close> (MD5, SHA-1, HMAC, CRC-32),
  \<open>Aes\<close> (AES-128 in CBC mode), \<open>StreamCipher\<close> (a locale for the three ciphers that combine each byte with a key
  stream).

  \<^bold>\<open>Data of the protocols.\<close> \<open>KeyValues\<close> and \<open>GsMessage\<close> are \<open>common/gamespy\<close>: the text format of requests
  and the mapping to structs, with round trips. \<open>FriendCode\<close>, \<open>Mii\<close>, \<open>RKG\<close>, \<open>Yaz1\<close>, \<open>IpAddress\<close>,
  \<open>GameList\<close>, \<open>Encoding\<close> and \<open>AuthToken\<close> are the other files of \<open>src/common\<close>: the profile a friend code
  carries, what removing private data does to a Mii, the validity of a ghost and its check sum, a verifier
  of compressed data against the decompressor it guards, and tokens that survive their encryption.

  \<^bold>\<open>Servers.\<close> \<open>Database\<close> holds the tables as lists of rows with the keys of \<open>schema.sql\<close> and proves that
  every method keeps them. \<open>Qr2\<close>, \<open>NatNeg\<close> and \<open>SBFraming\<close> are the datagram and segment handlers, each
  with the invariant of its table of sessions, exact conditions under which a datagram panics, and what
  authenticates or introduces a client. \<open>TypeX\<close> is the cipher of the server list with a
  decryption that is keyed in the same way. \<open>GpError\<close> and \<open>MessageServer\<close> are shared by the TCP servers: the 78 errors, and a locale for
  a buffered request loop that \<open>Gpcm\<close> and \<open>GameStats\<close> interpret. \<open>Gpcm\<close> keeps the sessions on a heap as
  the code does, since a handler holds a pointer while others run; \<open>GpcmSessions\<close> refines it to a table of
  sessions and steps on it, from which follow one session per profile and that nobody logs in without the
  proof of a token; \<open>GpcmFriends\<close> states how two players become friends and who receives messages and status. \<open>GameStats\<close>, \<open>GsCrypt\<close> and
  \<open>DwcRankings\<close> are the statistics server, \<open>Gpsp\<close> the search server.

  \<^bold>\<open>Searching.\<close> \<open>FilterScanner\<close>, \<open>FilterTree\<close>, \<open>FilterParse\<close> and \<open>FilterEval\<close> are \<open>src/filter\<close> file by
  file: the scanner, the tree whose current node the parser moves, the parser with its precedence climbing
  and the evaluation of a tree over the key/value pairs of a server. \<open>FilterSearch\<close> gives the language a
  syntax of its own and proves that parsing the text of an expression yields its tree; \<open>FilterMeaning\<close> gives
  the expressions a meaning and proves that the search on the text selects by it, and which texts end the
  process. \<open>ServerList\<close> is \<open>serverbrowser/server.go\<close>: a request is read, the games servers are searched,
  encoded and enciphered, and a client that inverts each step reads the servers back.

  \<^bold>\<open>Accounts.\<close> \<open>NasForms\<close> is the text of a console's request and reply, \<open>NasUserId\<close> the decoding of the
  identifiers a DS makes up, \<open>NasProfanity\<close> the check of a name against the list of words, \<open>NasAccount\<close>
  the accounts themselves: what a successful login has checked and what its token says. \<open>NasDownload\<close>
  serves the files of a game, with the confinement of the paths a request can name, and \<open>NasHttp\<close> is the
  listener in front: it removes repeated host headers and picks the handler of a host. \<open>NasGpcm\<close> composes the
  account server with the profile server: the token the one hands out logs the console in at the other.

  \<^bold>\<open>Two processes.\<close> \<open>FrontEnd\<close> is \<open>src/main.go\<close> with \<open>common/connection.go\<close>: the goroutines of the front end as a relation
  of steps, with what the mutex and the count of calls in progress guarantee while the back end restarts, and when they do not, the order of what
  the back end is told of a connection, who gets a saved state back, and a shutdown that never ends. What a server keeps
  of its sessions across a restart is at the end of its own theory (\<open>Qr2\<close>, \<open>NatNeg\<close>, \<open>GameStats\<close>, \<open>GpcmSessions\<close>). \<open>Startup\<close>
  has the defaults of the configuration and the callbacks of events.

  \<^bold>\<open>Encryption.\<close> \<open>nas/tls.go\<close> is a small TLS server for the two consoles. \<open>TlsCrypto\<close> has RC4, the pseudo-random
  functions, the key derivation, the hash of a handshake and the codes of records; \<open>TlsRecord\<close> the connection after the
  handshake, with its reads as a refinement of a stream of bytes and its writes against a console that checks
  everything; \<open>TlsHandshake\<close> the two handshakes, from the segments of the hello to the same keys on both sides. The
  certificates, the decryption with the RSA key and the random bytes are arguments.

  \<^bold>\<open>Storage.\<close> \<open>SqlFilter\<close> rewrites a filter expression as the condition of a query, and proves that the text of the
  query does not depend on what the client writes in it. \<open>SakeDb\<close> is \<open>database/sake.go\<close> and \<open>mario_kart_wii.go\<close>: the two
  tables with their checks, the JSON of a record's fields, and the invariant every statement keeps. \<open>GoParse\<close> reads dates
  and numbers as the libraries do, \<open>SakeTables\<close> has the definitions of tables and the types of fields, \<open>SakeMkw\<close> the ghosts and
  player infos of Mario Kart Wii, \<open>SakeStorage\<close> the requests of the storage service and \<open>SakeService\<close> the steps of the
  whole service: who can change what, what a stored record looks like, which data of a player others see, and what a
  download sends. \<open>Race\<close> serves the best times of the same table. The SQL server's evaluation of a condition,
  the multipart and XML decoders and the draws of record identifiers are arguments.

  \<^bold>\<open>Bounds.\<close> No definition runs on fuel that a caller chooses: loops recurse on what is left of their
  input. The parser of filter expressions recurses through mutual calls that share one scanner; it runs on
  the fuel \<open>fuel_for\<close>, twice the length of the text and two, and \<open>Parse_total\<close> proves that this is always
  enough. The two loops that wait are bounded in the code itself (a login waits for at most 21 checks of
  the session it replaces, \<open>wait_gone\<close> in \<open>Gpcm\<close>; a client message is sent for at most a fixed number of
  rounds, \<open>send_rounds\<close> in \<open>Qr2\<close>). A TCP buffer holds at most 0x4000 bytes for the message servers and
  0x1000 for the server browser.

  \<^bold>\<open>Not modelled.\<close> The transport of sockets and RPC, the printing of log lines (\<open>logging/log.go\<close>) and reading and
  writing the files a server saves its sessions to: pure I/O. What is no Go of the repository is an argument: the evaluation of SQL conditions, the
  XML, multipart and gob codecs, certificates and RSA, the file system, random numbers, third-party packages and the
  embedded game table. Letters and digits beyond Latin-1, for which Go has tables, are an argument of the scanner, as is the
  folding of case beyond ASCII.
\<close>

end
